(* ===== verification/Rust_Prelude.thy ===== *)
theory Rust_Prelude
  imports Main "HOL-Library.Word" "HOL-Library.Multiset"
begin

text \<open>
  Shared vocabulary of the development: the machine integers of the server
  (\<open>i64\<close>, \<open>i32\<close> as words, so that \<open>+\<close>, \<open>-\<close> and \<open>*\<close> wrap as in the release profile,
  which sets no overflow checks), signed minimum and maximum, the parts of
  \<open>std::string\<close> the code calls, \<open>HashMap\<close> as an association list with distinct
  keys, and the generic lemmas the components use.

  A Rust \<open>String\<close> is a list of \<open>char\<close>, each element one Unicode scalar value below
  U+0100. Every literal of the modelled code lies in that range (the separator
  U+00B7 included), and \<open>trim\<close>, \<open>to_lowercase\<close> and \<open>eq_ignore_ascii_case\<close> are written
  out for it.
\<close>

unbundle bit_operations_syntax

named_theorems ring_posting "how posting operations change the sum of a ledger"
named_theorems frame "fields an operation leaves alone"
named_theorems str_eval "evaluation of the string functions on literals"

type_synonym i64 = "64 word"
type_synonym i32 = "32 word"
type_synonym u64 = "64 word"
type_synonym u32 = "32 word"

section \<open>Signed machine integers\<close>

definition smax :: "'a::len word \<Rightarrow> 'a word \<Rightarrow> 'a word" where
  "smax a b = (if a \<le>s b then b else a)"

definition smin :: "'a::len word \<Rightarrow> 'a word \<Rightarrow> 'a word" where
  "smin a b = (if a \<le>s b then a else b)"

lemma sint_smax [simp]: "sint (smax a b) = max (sint a) (sint b)"
  by (simp add: smax_def word_sle_eq)

lemma sint_smin [simp]: "sint (smin a b) = min (sint a) (sint b)"
  by (simp add: smin_def word_sle_eq)

lemma smax_ge: "a \<le>s smax a b" "b \<le>s smax a b"
  by (simp_all add: word_sle_eq)

lemma smax_idem [simp]: "smax (smax a b) b = smax a b"
  by (simp add: smax_def)

text \<open>Signed addition and subtraction agree with the integers when the result is in range.\<close>

definition fits :: "'a::len itself \<Rightarrow> int \<Rightarrow> bool" where
  "fits _ k \<longleftrightarrow> - (2 ^ (LENGTH('a) - 1)) \<le> k \<and> k < 2 ^ (LENGTH('a) - 1)"

lemma sint_of_int_fits:
  assumes "fits TYPE('a::len) k"
  shows "sint (word_of_int k :: 'a word) = k"
  using assms by (simp add: fits_def sint_word_ariths signed_take_bit_int_eq_self sint_sbintrunc')

lemma sint_add_fits:
  fixes a b :: "'a::len word"
  assumes "fits TYPE('a) (sint a + sint b)"
  shows "sint (a + b) = sint a + sint b"
  using assms by (simp add: fits_def sint_word_ariths signed_take_bit_int_eq_self)

lemma sint_diff_fits:
  fixes a b :: "'a::len word"
  assumes "fits TYPE('a) (sint a - sint b)"
  shows "sint (a - b) = sint a - sint b"
  using assms by (simp add: fits_def sint_word_ariths signed_take_bit_int_eq_self)

lemma sint_mult_fits:
  fixes a b :: "'a::len word"
  assumes "fits TYPE('a) (sint a * sint b)"
  shows "sint (a * b) = sint a * sint b"
  using assms by (simp add: fits_def sint_word_ariths signed_take_bit_int_eq_self)

lemma sint_fits: "fits TYPE('a) (sint (a :: 'a::len word))"
  using sint_ge [of a] sint_lt [of a] by (simp add: fits_def)

text \<open>Widening an \<open>i32\<close> to an \<open>i64\<close> (\<open>i64::from\<close>, \<open>as i64\<close>) keeps the value.\<close>

lemma sint_widen [simp]: "sint (scast (a :: i32) :: i64) = sint a"
proof -
  have "fits TYPE(64) (sint a)"
    using sint_ge [of a] sint_lt [of a] by (simp add: fits_def)
  from sint_of_int_fits [OF this] show ?thesis
    by (simp add: of_int_sint)
qed

lemma scast_narrow_widen [simp]: "scast (scast (a :: i32) :: i64) = a"
  by (metis of_int_sint scast_id sint_widen)

text \<open>The least value of \<open>i64\<close> is the only nonzero one that equals its own negation.\<close>

lemma sneg_pos:
  fixes a :: i64
  assumes "a <s 0" and "a \<noteq> word_of_int (- (2 ^ 63))"
  shows "0 <s - a"
proof -
  have ne: "sint a \<noteq> - (2 ^ 63)"
  proof
    assume "sint a = - (2 ^ 63)"
    then have "(of_int (sint a) :: i64) = of_int (- (2 ^ 63))" by simp
    with assms(2) show False by (simp add: of_int_sint)
  qed
  have "fits TYPE(64) (sint (0 :: i64) - sint a)"
    using sint_ge [of a] sint_lt [of a] ne assms(1) by (simp add: fits_def word_sless_alt)
  from sint_diff_fits [OF this] assms(1) show ?thesis
    by (simp add: word_sless_alt)
qed

text \<open>Bit fields packed into one word.\<close>

lemma push_bit_or_add:
  fixes a b :: "'a::len word"
  assumes "unat b < 2 ^ n"
  shows "push_bit n a OR b = push_bit n a + b"
proof -
  have "unat (take_bit n b) = unat b"
    using assms by (simp add: unsigned_take_bit_eq take_bit_nat_eq_self)
  then have "b = take_bit n b"
    by (simp only: word_unat_eq_iff)
  then have "push_bit n a AND b = push_bit n a AND take_bit n b" by simp
  also have "\<dots> = 0"
    by (rule bit_eqI) (auto simp: bit_and_iff bit_push_bit_iff bit_take_bit_iff)
  finally show ?thesis by (simp add: disjunctive_add_eq_or)
qed

lemma unat_push_bit_small:
  fixes a :: "'a::len word"
  assumes "unat a * 2 ^ n < 2 ^ LENGTH('a)"
  shows "unat (push_bit n a) = unat a * 2 ^ n"
proof -
  have "unat (push_bit n a) = take_bit LENGTH('a) (push_bit n (unat a))"
    by (rule unsigned_push_bit_eq)
  also have "\<dots> = take_bit LENGTH('a) (unat a * 2 ^ n)"
    by (simp only: push_bit_eq_mult)
  finally show ?thesis using assms by (simp add: take_bit_nat_eq_self)
qed

lemma sint_eq_unat: "unat (x :: i64) < 2 ^ 63 \<Longrightarrow> sint x = int (unat x)"
proof -
  assume "unat x < 2 ^ 63"
  then have "int (unat x) < int (2 ^ 63)" by (simp only: of_nat_less_iff)
  then have "uint x < 2 ^ 63" by simp
  moreover have "- (2 ^ 63) \<le> uint x"
    by (rule order_trans [OF _ uint_ge_0]) simp
  ultimately have "signed_take_bit 63 (uint x) = uint x"
    by (intro signed_take_bit_int_eq_self)
  then show ?thesis by (simp add: sint_uint)
qed

lemma unat_succ: "unat (x :: u64) + Suc k < 2 ^ 64 \<Longrightarrow> unat (x + 1) = unat x + 1"
  by (subst unat_plus_simple [THEN iffD1]) (auto simp: no_olen_add_nat)

section \<open>Strings\<close>

text \<open>\<open>char::is_whitespace\<close> below U+0100.\<close>

definition is_whitespace :: "char \<Rightarrow> bool" where
  "is_whitespace c = (let n = of_char c :: nat in (9 \<le> n \<and> n \<le> 13) \<or> n = 32 \<or> n = 133 \<or> n = 160)"

definition trim :: "string \<Rightarrow> string" where
  "trim s = rev (dropWhile is_whitespace (rev (dropWhile is_whitespace s)))"

definition ascii_lower :: "char \<Rightarrow> char" where
  "ascii_lower c = (let n = of_char c :: nat in if 65 \<le> n \<and> n \<le> 90 then char_of (n + 32) else c)"

text \<open>\<open>char::to_lowercase\<close> below U+0100: the ASCII capitals and U+00C0 to U+00DE without U+00D7.\<close>

definition char_lower :: "char \<Rightarrow> char" where
  "char_lower c = (let n = of_char c :: nat in
     if (65 \<le> n \<and> n \<le> 90) \<or> (192 \<le> n \<and> n \<le> 222 \<and> n \<noteq> 215) then char_of (n + 32) else c)"

definition to_ascii_lowercase :: "string \<Rightarrow> string" where
  "to_ascii_lowercase s = map ascii_lower s"

definition to_lowercase :: "string \<Rightarrow> string" where
  "to_lowercase s = map char_lower s"

definition eq_ignore_ascii_case :: "string \<Rightarrow> string \<Rightarrow> bool" where
  "eq_ignore_ascii_case a b = (to_ascii_lowercase a = to_ascii_lowercase b)"

definition is_ascii_alphanumeric :: "char \<Rightarrow> bool" where
  "is_ascii_alphanumeric c = (let n = of_char c :: nat in
     (48 \<le> n \<and> n \<le> 57) \<or> (65 \<le> n \<and> n \<le> 90) \<or> (97 \<le> n \<and> n \<le> 122))"

fun starts_with :: "string \<Rightarrow> string \<Rightarrow> bool" where
  "starts_with s [] = True"
| "starts_with [] (y # ys) = False"
| "starts_with (x # xs) (y # ys) = (x = y \<and> starts_with xs ys)"

fun str_contains :: "string \<Rightarrow> string \<Rightarrow> bool" where
  "str_contains [] pat = (pat = [])"
| "str_contains (x # xs) pat = (starts_with (x # xs) pat \<or> str_contains xs pat)"

lemma starts_with_iff: "starts_with s p \<longleftrightarrow> (\<exists>r. s = p @ r)"
  by (induction s p rule: starts_with.induct) auto

lemma str_contains_iff: "str_contains s p \<longleftrightarrow> (\<exists>a b. s = a @ p @ b)"
proof (induction s)
  case Nil
  then show ?case by auto
next
  case (Cons x xs)
  have "(\<exists>a b. x # xs = a @ p @ b) \<longleftrightarrow> (\<exists>r. x # xs = p @ r) \<or> (\<exists>a b. xs = a @ p @ b)"
    by (metis (no_types, opaque_lifting) append_Cons append_Nil list.exhaust list.inject)
  with Cons show ?case by (simp add: starts_with_iff)
qed

lemma trim_Nil [simp]: "trim [] = []"
  by (simp add: trim_def)

section \<open>Hash maps\<close>

text \<open>
  A \<open>HashMap<K, V>\<close> is an association list with distinct keys. Its iteration order is
  not specified by Rust: code that iterates takes the order as an argument, a function
  that permutes the entries.
\<close>

fun hm_insert :: "'k \<Rightarrow> 'v \<Rightarrow> ('k \<times> 'v) list \<Rightarrow> ('k \<times> 'v) list" where
  "hm_insert k v [] = [(k, v)]"
| "hm_insert k v ((k', v') # m) = (if k' = k then (k, v) # m else (k', v') # hm_insert k v m)"

definition permuting :: "('a list \<Rightarrow> 'a list) \<Rightarrow> bool" where
  "permuting f \<longleftrightarrow> (\<forall>xs. mset (f xs) = mset xs)"

lemma map_of_hm_insert [simp]: "map_of (hm_insert k v m) = (map_of m)(k \<mapsto> v)"
  by (induction m) auto

lemma keys_hm_insert [simp]: "fst ` set (hm_insert k v m) = insert k (fst ` set m)"
proof (induction m)
  case (Cons e m)
  then show ?case by (cases e) auto
qed simp

lemma distinct_hm_insert [simp]:
  "distinct (map fst m) \<Longrightarrow> distinct (map fst (hm_insert k v m))"
proof (induction m)
  case (Cons e m)
  then show ?case by (cases e) auto
qed simp

lemma permuting_mset: "permuting f \<Longrightarrow> mset (f xs) = mset xs"
  by (simp add: permuting_def)

lemma permuting_set: "permuting f \<Longrightarrow> set (f xs) = set xs"
  by (metis permuting_def set_mset_mset)

lemma permuting_id: "permuting (\<lambda>xs. xs)"
  by (simp add: permuting_def)

lemma permuting_rev: "permuting rev"
  by (simp add: permuting_def)

lemma permuting_sum_list:
  fixes g :: "'a \<Rightarrow> 'b::comm_monoid_add"
  assumes "permuting f"
  shows "sum_list (map g (f xs)) = sum_list (map g xs)"
proof -
  have "sum_mset (mset (map g (f xs))) = sum_mset (mset (map g xs))"
    by (simp add: permuting_mset [OF assms])
  then show ?thesis by (simp only: sum_mset_sum_list)
qed

lemma permuting_distinct_map:
  assumes "permuting f"
  shows "distinct (map g (f xs)) = distinct (map g xs)"
proof (rule mset_eq_imp_distinct_iff)
  show "mset (map g (f xs)) = mset (map g xs)"
    by (simp add: permuting_mset [OF assms])
qed

section \<open>Lists\<close>

text \<open>The value a sum takes when it is computed with wrap-around and nothing overflows.\<close>

lemma of_int_sum_list: "(of_int (sum_list xs) :: 'a::len word) = sum_list (map of_int xs)"
  by (induction xs) simp_all

lemma sint_sum_list_fits:
  fixes f :: "'b \<Rightarrow> 'a::len word"
  assumes "fits TYPE('a) (\<Sum>x\<leftarrow>xs. sint (f x))"
  shows "sint (\<Sum>x\<leftarrow>xs. f x) = (\<Sum>x\<leftarrow>xs. sint (f x))"
proof -
  have "(\<Sum>x\<leftarrow>xs. f x) = word_of_int (\<Sum>x\<leftarrow>xs. sint (f x))"
    by (simp add: of_int_sum_list comp_def of_int_sint)
  with sint_of_int_fits [OF assms] show ?thesis by simp
qed

lemma sum_list_filter_split:
  fixes f :: "'a \<Rightarrow> 'b::comm_monoid_add"
  shows "sum_list (map f xs) = sum_list (map f (filter P xs)) + sum_list (map f (filter (\<lambda>x. \<not> P x) xs))"
  by (induction xs) (simp_all add: ac_simps)

section \<open>Strings\<close>

lemma trim_visible: "list_all (\<lambda>c. \<not> is_whitespace c) s \<Longrightarrow> trim s = s"
proof -
  assume v: "list_all (\<lambda>c. \<not> is_whitespace c) s"
  have id: "dropWhile is_whitespace t = t" if "list_all (\<lambda>c. \<not> is_whitespace c) t" for t using that by (cases t) simp_all
  from v id [of s] id [of "rev s"] show ?thesis by (simp add: trim_def list_all_iff)
qed

end
