(* ===== verification/Id_Source.thy ===== *)
theory Id_Source
  imports Rust_Prelude
begin

text \<open>
  The contract of an id generator as its clients rely on it: \<open>run c\<close> is the list of ids
  that successive calls return under circumstances \<open>c\<close> (worker and clock), and under
  admissible circumstances the list increases and every id is positive. A positive id is
  what the transaction code reads as "already assigned". \<open>servers/crates/store\<close>
  provides it (theory \<open>Snowflake\<close>), the persistence layer is the client (\<open>Tx_Db\<close>).
\<close>

locale id_source =
  fixes run :: "'c \<Rightarrow> i64 list"
    and ok :: "'c \<Rightarrow> bool"
  assumes run_increasing: "ok c \<Longrightarrow> sorted_wrt (<) (map sint (run c))"
    and run_positive: "ok c \<Longrightarrow> i \<in> set (run c) \<Longrightarrow> 0 <s i"
begin

lemma run_distinct: "ok c \<Longrightarrow> distinct (run c)"
proof -
  assume "ok c"
  then have "sorted_wrt (<) (map sint (run c))" by (rule run_increasing)
  then have "distinct (map sint (run c))" by (simp add: strict_sorted_iff)
  then show ?thesis by (simp add: distinct_map)
qed

lemma run_later_larger:
  assumes "ok c" and "a < b" and "b < length (run c)"
  shows "run c ! a <s run c ! b"
  using run_increasing [OF assms(1)] assms(2,3)
  by (simp add: sorted_wrt_iff_nth_less word_sless_alt)

lemma drawn_ids_fresh:
  assumes "ok c" and "run c = used @ rest" and "i \<in> set used" and "j \<in> set rest"
  shows "i \<noteq> j"
  using run_distinct [OF assms(1)] assms(2-4) by auto

end

end
