(* ===== verification/Snowflake.thy ===== *)
theory Snowflake
  imports Id_Source
begin

unbundle bit_operations_syntax

text \<open>
  \<open>servers/crates/store/src/snowflake.rs\<close>: the id generator every table uses. The
  static atomics \<open>LAST_MS\<close> and \<open>SEQ\<close> are the fields of \<open>sf_state\<close>; a clock reading is
  the result of \<open>SystemTime::now().duration_since(UNIX_EPOCH)\<close>, \<open>None\<close> for a clock
  before 1970. The loop of \<open>snowflake_id\<close> consumes one reading per turn, so it is
  modelled over the list of readings it sees. A second model splits the function at its
  atomic accesses and interleaves any number of threads.
\<close>

section \<open>Constants and worker ids\<close>

definition SNOWFLAKE_EPOCH_MS :: i64 where "SNOWFLAKE_EPOCH_MS = 1767225600000"
definition EPOCH_MS :: u64 where "EPOCH_MS = 1767225600000"
definition WORKER_BITS :: nat where "WORKER_BITS = 10"
definition SEQ_BITS :: nat where "SEQ_BITS = 12"
definition MAX_SEQ :: u64 where "MAX_SEQ = push_bit SEQ_BITS 1 - 1"
definition WORKER_MASK :: u64 where "WORKER_MASK = push_bit WORKER_BITS 1 - 1"
definition SNOWFLAKE_SHIFT :: nat where "SNOWFLAKE_SHIFT = WORKER_BITS + SEQ_BITS"

lemmas sf_consts = SNOWFLAKE_EPOCH_MS_def EPOCH_MS_def WORKER_BITS_def SEQ_BITS_def
  MAX_SEQ_def WORKER_MASK_def SNOWFLAKE_SHIFT_def

definition worker_id_from_origin :: "8 word list \<Rightarrow> u64" where
  "worker_id_from_origin origin =
     (let h = foldl (\<lambda>h b. (h XOR ucast b) * 16777619) (2166136261 :: u32) origin;
          n = (ucast h :: u64) AND WORKER_MASK
      in if n = 0 then 1 else n)"

text \<open>
  \<open>parsed\<close> is the value of \<open>C35_WORKER_ID\<close> when the variable is set and parses as a
  \<open>u64\<close>; the other arguments are \<open>POD_NAME\<close>, \<open>HOSTNAME\<close> and the printed process id.
\<close>

definition worker_id :: "u64 option \<Rightarrow> 8 word list option \<Rightarrow> 8 word list option \<Rightarrow> 8 word list \<Rightarrow> u64" where
  "worker_id parsed pod host pid =
     (case parsed of
        Some n \<Rightarrow> n AND WORKER_MASK
      | None \<Rightarrow> worker_id_from_origin
          (case pod of Some p \<Rightarrow> p | None \<Rightarrow> (case host of Some h \<Rightarrow> h | None \<Rightarrow> pid)))"

section \<open>Ids of a millisecond\<close>

definition saturating_sub_i64 :: "i64 \<Rightarrow> i64 \<Rightarrow> i64" where
  "saturating_sub_i64 a b =
     (let d = sint a - sint b
      in if d < - (2 ^ 63) then word_of_int (- (2 ^ 63))
         else if 2 ^ 63 - 1 < d then word_of_int (2 ^ 63 - 1) else word_of_int d)"

definition snowflake_min_at_ms :: "i64 \<Rightarrow> i64" where
  "snowflake_min_at_ms ms = push_bit SNOWFLAKE_SHIFT (smax (saturating_sub_i64 ms SNOWFLAKE_EPOCH_MS) 0)"

definition snowflake_max_at_ms :: "i64 \<Rightarrow> i64" where
  "snowflake_max_at_ms ms = snowflake_min_at_ms ms OR (push_bit SNOWFLAKE_SHIFT 1 - 1)"

definition clock_ms :: "nat option \<Rightarrow> u64" where
  "clock_ms reading =
     (let raw = (case reading of None \<Rightarrow> EPOCH_MS | Some n \<Rightarrow> of_nat n)
      in if raw < EPOCH_MS then 0 else raw - EPOCH_MS)"

definition sf_pack :: "u64 \<Rightarrow> u64 \<Rightarrow> u64 \<Rightarrow> i64" where
  "sf_pack ms worker seq = push_bit (WORKER_BITS + SEQ_BITS) ms OR push_bit SEQ_BITS worker OR seq"

section \<open>The generator, one caller at a time\<close>

record sf_state =
  LAST_MS :: u64
  SEQ :: u64

definition sf_init :: sf_state where
  "sf_init = \<lparr>LAST_MS = 0, SEQ = 0\<rparr>"

text \<open>
  One turn of the loop: \<open>Some id\<close> when the turn returns, \<open>None\<close> when it goes round
  again. With one caller the \<open>compare_exchange\<close> from the value just loaded succeeds.
\<close>

definition sf_turn :: "u64 \<Rightarrow> u64 \<Rightarrow> sf_state \<Rightarrow> i64 option \<times> sf_state" where
  "sf_turn worker ms s =
     (let last = LAST_MS s
      in if ms > last then (Some (sf_pack ms worker 0), s\<lparr>LAST_MS := ms, SEQ := 1\<rparr>)
         else if ms = last then
           (let seq = SEQ s; s' = s\<lparr>SEQ := seq + 1\<rparr>
            in if seq > MAX_SEQ then (None, s') else (Some (sf_pack ms worker seq), s'))
         else (None, s))"

fun snowflake_id :: "u64 \<Rightarrow> nat option list \<Rightarrow> sf_state \<Rightarrow> (i64 \<times> nat option list \<times> sf_state) option" where
  "snowflake_id worker [] s = None"
| "snowflake_id worker (r # rs) s =
     (case sf_turn worker (clock_ms r) s of
        (Some i, s') \<Rightarrow> Some (i, rs, s')
      | (None, s') \<Rightarrow> snowflake_id worker rs s')"

text \<open>The ids of back-to-back calls until the readings run out.\<close>

fun snowflake_run :: "u64 \<Rightarrow> nat option list \<Rightarrow> sf_state \<Rightarrow> i64 list" where
  "snowflake_run worker [] s = []"
| "snowflake_run worker (r # rs) s =
     (case sf_turn worker (clock_ms r) s of
        (Some i, s') \<Rightarrow> i # snowflake_run worker rs s'
      | (None, s') \<Rightarrow> snowflake_run worker rs s')"

section \<open>Bit layout and bounds\<close>

lemma unat_sf_pack:
  assumes "unat ms < 2 ^ 42" and "unat worker < 2 ^ 10" and "unat seq < 2 ^ 12"
  shows "unat (sf_pack ms worker seq) = unat ms * 2 ^ 22 + unat worker * 2 ^ 12 + unat seq"
proof -
  have w: "unat (push_bit 12 worker) = unat worker * 2 ^ 12"
    by (rule unat_push_bit_small) (use assms in simp)
  have m: "unat (push_bit 22 ms) = unat ms * 2 ^ 22"
    by (rule unat_push_bit_small) (use assms in simp)
  have ws: "push_bit 12 worker OR seq = push_bit 12 worker + seq"
    by (rule push_bit_or_add) (use assms in simp)
  have uws: "unat (push_bit 12 worker + seq) = unat worker * 2 ^ 12 + unat seq"
    using assms w by (subst unat_plus_simple [THEN iffD1]) (auto simp: no_olen_add_nat)
  have "push_bit 22 ms OR (push_bit 12 worker + seq) = push_bit 22 ms + (push_bit 12 worker + seq)"
    by (rule push_bit_or_add) (use assms uws in simp)
  moreover have "unat (push_bit 22 ms + (push_bit 12 worker + seq))
      = unat ms * 2 ^ 22 + (unat worker * 2 ^ 12 + unat seq)"
    using assms m uws by (subst unat_plus_simple [THEN iffD1]) (auto simp: no_olen_add_nat)
  ultimately show ?thesis
    by (simp add: sf_pack_def sf_consts ws or.assoc)
qed

definition sf_floor :: "u64 \<Rightarrow> sf_state \<Rightarrow> nat" where
  "sf_floor worker s = unat (LAST_MS s) * 2 ^ 22 + unat worker * 2 ^ 12 + min (unat (SEQ s)) 4096"

definition sf_ok :: "u64 \<Rightarrow> nat \<Rightarrow> sf_state \<Rightarrow> bool" where
  "sf_ok worker k s \<longleftrightarrow> unat worker < 2 ^ 10 \<and> unat (LAST_MS s) < 2 ^ 41 \<and> unat (SEQ s) + k < 2 ^ 64"

lemma sf_turn_Some:
  assumes "sf_turn worker ms s = (Some i, s')" and "sf_ok worker (Suc k) s" and "unat ms < 2 ^ 41"
  shows "sf_floor worker s \<le> unat i" and "unat i < sf_floor worker s'" and "sf_ok worker k s'"
    and "unat i < 2 ^ 63"
proof -
  have w: "unat worker < 2 ^ 10" and l: "unat (LAST_MS s) < 2 ^ 41" and q: "unat (SEQ s) + Suc k < 2 ^ 64"
    using assms(2) by (auto simp: sf_ok_def)
  have "sf_floor worker s \<le> unat i \<and> unat i < sf_floor worker s' \<and> sf_ok worker k s' \<and> unat i < 2 ^ 63"
  proof (cases "ms > LAST_MS s")
    case True
    then have i: "i = sf_pack ms worker 0" and s': "s' = s\<lparr>LAST_MS := ms, SEQ := 1\<rparr>"
      using assms(1) by (auto simp: sf_turn_def Let_def)
    have "unat i = unat ms * 2 ^ 22 + unat worker * 2 ^ 12"
      unfolding i by (subst unat_sf_pack) (use assms(3) w in auto)
    moreover have "unat (LAST_MS s) < unat ms"
      using True by (simp add: word_less_nat_alt)
    ultimately show ?thesis
      using w q assms(3) by (simp add: sf_floor_def sf_ok_def s')
  next
    case False
    with assms(1) have eq: "ms = LAST_MS s" and le: "SEQ s \<le> MAX_SEQ"
      and i: "i = sf_pack ms worker (SEQ s)" and s': "s' = s\<lparr>SEQ := SEQ s + 1\<rparr>"
      by (auto simp: sf_turn_def Let_def split: if_splits)
    from le have sq: "unat (SEQ s) < 2 ^ 12"
      by (simp add: sf_consts word_le_nat_alt)
    have "unat i = unat ms * 2 ^ 22 + unat worker * 2 ^ 12 + unat (SEQ s)"
      unfolding i by (subst unat_sf_pack) (use assms(3) w sq in auto)
    then show ?thesis
      using w q l sq eq unat_succ [OF q] by (simp add: sf_floor_def sf_ok_def s')
  qed
  then show "sf_floor worker s \<le> unat i" and "unat i < sf_floor worker s'" and "sf_ok worker k s'"
    and "unat i < 2 ^ 63"
    by blast+
qed

lemma sf_turn_None:
  assumes "sf_turn worker ms s = (None, s')" and "sf_ok worker (Suc k) s"
  shows "sf_floor worker s \<le> sf_floor worker s'" and "sf_ok worker k s'" and "LAST_MS s' = LAST_MS s"
proof -
  have q: "unat (SEQ s) + Suc k < 2 ^ 64"
    using assms(2) by (auto simp: sf_ok_def)
  have "s' = s \<or> s' = s\<lparr>SEQ := SEQ s + 1\<rparr>"
    using assms(1) by (auto simp: sf_turn_def Let_def split: if_splits)
  with unat_succ [OF q] assms(2)
  show "sf_floor worker s \<le> sf_floor worker s'" and "sf_ok worker k s'" and "LAST_MS s' = LAST_MS s"
    by (auto simp: sf_floor_def sf_ok_def)
qed

lemma snowflake_run_increasing:
  assumes "sf_ok worker (length rs) s" and "\<forall>r \<in> set rs. unat (clock_ms r) < 2 ^ 41"
  shows "sorted_wrt (<) (map unat (snowflake_run worker rs s))
    \<and> (\<forall>i \<in> set (snowflake_run worker rs s). sf_floor worker s \<le> unat i \<and> unat i < 2 ^ 63)"
  using assms
proof (induction rs arbitrary: s)
  case Nil
  then show ?case by simp
next
  case (Cons r rs)
  obtain o' s' where t: "sf_turn worker (clock_ms r) s = (o', s')" by fastforce
  have ms: "\<forall>r \<in> set rs. unat (clock_ms r) < 2 ^ 41" and m: "unat (clock_ms r) < 2 ^ 41"
    using Cons.prems(2) by auto
  have k: "sf_ok worker (Suc (length rs)) s" using Cons.prems(1) by simp
  show ?case
  proof (cases o')
    case None
    with t have t: "sf_turn worker (clock_ms r) s = (None, s')" by simp
    from Cons.IH [OF sf_turn_None(2) [OF t k] ms] sf_turn_None(1) [OF t k]
    show ?thesis by (auto simp: t intro: order_trans)
  next
    case (Some i)
    with t have t: "sf_turn worker (clock_ms r) s = (Some i, s')" by simp
    note facts = sf_turn_Some [OF t k m]
    from Cons.IH [OF facts(3) ms] facts(1,2,4) show ?thesis
      by (fastforce simp: t)
  qed
qed

lemma snowflake_id_run:
  "snowflake_run worker rs s =
     (case snowflake_id worker rs s of
        None \<Rightarrow> []
      | Some (i, rs', s') \<Rightarrow> i # snowflake_run worker rs' s')"
  by (induction worker rs s rule: snowflake_id.induct) (auto split: prod.splits option.splits)

lemma worker_id_bound: "unat (worker_id parsed pod host pid) < 2 ^ 10"
proof -
  have m: "unat (x AND WORKER_MASK) < 2 ^ 10" for x
  proof -
    have "unat (x AND WORKER_MASK) \<le> unat WORKER_MASK"
      by (simp add: word_and_le1 flip: word_le_nat_alt)
    then show ?thesis by (simp add: sf_consts)
  qed
  then show ?thesis
    by (auto simp: worker_id_def worker_id_from_origin_def Let_def split: option.splits)
qed


lemma clock_ms_at:
  assumes "1767225600000 \<le> n" and "n < 1767225600000 + 2 ^ 41"
  shows "unat (clock_ms (Some n)) = n - 1767225600000"
proof -
  have "unat (of_nat n :: u64) = n"
    using assms by (simp add: unat_of_nat)
  with assms show ?thesis
    by (simp add: clock_ms_def Let_def EPOCH_MS_def word_less_nat_alt unat_sub word_le_nat_alt)
qed

lemma saturating_sub_epoch:
  assumes "1767225600000 \<le> n" and "n < 1767225600000 + 2 ^ 41"
  shows "smax (saturating_sub_i64 (of_nat n) SNOWFLAKE_EPOCH_MS) 0 = clock_ms (Some n)"
proof -
  have n: "sint (of_nat n :: i64) = int n"
    by (subst sint_eq_unat) (use assms in \<open>simp_all add: unat_of_nat\<close>)
  have "sint ((of_nat n :: i64) - 1767225600000) = int n - 1767225600000"
    by (subst sint_diff_fits) (use assms n in \<open>simp_all add: fits_def\<close>)
  then have "sint (smax (saturating_sub_i64 (of_nat n) SNOWFLAKE_EPOCH_MS) 0) = int n - 1767225600000"
    using assms n by (simp add: saturating_sub_i64_def SNOWFLAKE_EPOCH_MS_def Let_def)
  moreover have "sint (clock_ms (Some n)) = int n - 1767225600000"
    by (subst sint_eq_unat) (use assms clock_ms_at [OF assms] in simp_all)
  ultimately show ?thesis by (metis of_int_sint scast_id)
qed

section \<open>The generator under interleaving\<close>

datatype sf_pc = Idle | GotMs u64 | Loaded u64 u64 | Won u64

record sf_sys =
  shared :: sf_state
  pcs :: "nat \<Rightarrow> sf_pc"
  issued :: "i64 list"

definition sf_sys_init :: sf_sys where
  "sf_sys_init = \<lparr>shared = sf_init, pcs = (\<lambda>_. Idle), issued = []\<rparr>"

inductive sf_step :: "u64 \<Rightarrow> sf_sys \<Rightarrow> sf_sys \<Rightarrow> bool" for worker :: u64 where
  read_clock: "pcs c t = Idle \<Longrightarrow>
    sf_step worker c (c\<lparr>pcs := (pcs c)(t := GotMs (clock_ms r))\<rparr>)"
| load_last: "pcs c t = GotMs ms \<Longrightarrow>
    sf_step worker c (c\<lparr>pcs := (pcs c)(t := Loaded ms (LAST_MS (shared c)))\<rparr>)"
| cas_ok: "pcs c t = Loaded ms lst \<Longrightarrow> ms > lst \<Longrightarrow> LAST_MS (shared c) = lst \<Longrightarrow>
    sf_step worker c (c\<lparr>shared := (shared c)\<lparr>LAST_MS := ms\<rparr>, pcs := (pcs c)(t := Won ms)\<rparr>)"
| cas_fail: "pcs c t = Loaded ms lst \<Longrightarrow> ms > lst \<Longrightarrow> LAST_MS (shared c) \<noteq> lst \<Longrightarrow>
    sf_step worker c (c\<lparr>pcs := (pcs c)(t := Idle)\<rparr>)"
| store_seq: "pcs c t = Won ms \<Longrightarrow>
    sf_step worker c (c\<lparr>shared := (shared c)\<lparr>SEQ := 1\<rparr>, pcs := (pcs c)(t := Idle),
                     issued := sf_pack ms worker 0 # issued c\<rparr>)"
| fetch_add: "pcs c t = Loaded ms lst \<Longrightarrow> ms = lst \<Longrightarrow> SEQ (shared c) \<le> MAX_SEQ \<Longrightarrow>
    sf_step worker c (c\<lparr>shared := (shared c)\<lparr>SEQ := SEQ (shared c) + 1\<rparr>, pcs := (pcs c)(t := Idle),
                     issued := sf_pack ms worker (SEQ (shared c)) # issued c\<rparr>)"
| exhausted: "pcs c t = Loaded ms lst \<Longrightarrow> ms = lst \<Longrightarrow> SEQ (shared c) > MAX_SEQ \<Longrightarrow>
    sf_step worker c (c\<lparr>shared := (shared c)\<lparr>SEQ := SEQ (shared c) + 1\<rparr>, pcs := (pcs c)(t := Idle)\<rparr>)"
| behind: "pcs c t = Loaded ms lst \<Longrightarrow> ms < lst \<Longrightarrow>
    sf_step worker c (c\<lparr>pcs := (pcs c)(t := Idle)\<rparr>)"

definition sf_act :: "u64 \<Rightarrow> nat \<times> nat option \<Rightarrow> sf_sys \<Rightarrow> sf_sys" where
  "sf_act worker e c =
     (case e of (t, r) \<Rightarrow>
       (case pcs c t of
          Idle \<Rightarrow> c\<lparr>pcs := (pcs c)(t := GotMs (clock_ms r))\<rparr>
        | GotMs ms \<Rightarrow> c\<lparr>pcs := (pcs c)(t := Loaded ms (LAST_MS (shared c)))\<rparr>
        | Loaded ms lst \<Rightarrow>
            (if ms > lst then
               if LAST_MS (shared c) = lst
               then c\<lparr>shared := (shared c)\<lparr>LAST_MS := ms\<rparr>, pcs := (pcs c)(t := Won ms)\<rparr>
               else c\<lparr>pcs := (pcs c)(t := Idle)\<rparr>
             else if ms = lst then
               if SEQ (shared c) > MAX_SEQ
               then c\<lparr>shared := (shared c)\<lparr>SEQ := SEQ (shared c) + 1\<rparr>, pcs := (pcs c)(t := Idle)\<rparr>
               else c\<lparr>shared := (shared c)\<lparr>SEQ := SEQ (shared c) + 1\<rparr>, pcs := (pcs c)(t := Idle),
                      issued := sf_pack ms worker (SEQ (shared c)) # issued c\<rparr>
             else c\<lparr>pcs := (pcs c)(t := Idle)\<rparr>)
        | Won ms \<Rightarrow> c\<lparr>shared := (shared c)\<lparr>SEQ := 1\<rparr>, pcs := (pcs c)(t := Idle),
                      issued := sf_pack ms worker 0 # issued c\<rparr>))"

lemma sf_act_step: "sf_step worker c (sf_act worker e c)"
  by (cases e) (auto simp: sf_act_def not_less intro: sf_step.intros
      sf_step.behind [OF _ order.not_eq_order_implies_strict] split: sf_pc.splits)

lemma sf_acts_reachable: "(sf_step worker)\<^sup>*\<^sup>* c (fold (sf_act worker) es c)"
proof (induction es arbitrary: c)
  case (Cons e es)
  have "sf_step worker c (sf_act worker e c)" by (rule sf_act_step)
  with Cons show ?case by (simp add: converse_rtranclp_into_rtranclp)
qed simp

definition sf_race :: "(nat \<times> nat option) list" where
  "sf_race =
     (let a = 1767225600005; b = 1767225600006; call = (\<lambda>t n. [(t, Some n), (t, None), (t, None)])
      in call 0 a @ [(0, None)] @ call 0 a
       @ call 1 b
       @ call 0 b
       @ [(1, None)]
       @ call 0 b @ call 0 b)"

lemma sf_race_dup: "\<not> distinct (issued (fold (sf_act worker) sf_race sf_sys_init))"
  by (simp add: sf_race_def sf_act_def sf_sys_init_def sf_init_def clock_ms_def sf_consts Let_def)

lemma sf_step_last_mono: "sf_step worker c d \<Longrightarrow> LAST_MS (shared c) \<le> LAST_MS (shared d)"
  by (induction rule: sf_step.induct) auto

lemma sf_steps_last_mono:
  "(sf_step worker)\<^sup>*\<^sup>* c d \<Longrightarrow> LAST_MS (shared c) \<le> LAST_MS (shared d)"
  by (induction rule: rtranclp_induct) (auto dest: sf_step_last_mono)

section \<open>Properties\<close>

definition sf_admissible :: "u64 \<times> nat option list \<Rightarrow> bool" where
  "sf_admissible c \<longleftrightarrow> 0 < unat (fst c) \<and> unat (fst c) < 2 ^ 10 \<and> length (snd c) < 2 ^ 64 \<and>
     (\<forall>r \<in> set (snd c). unat (clock_ms r) < 2 ^ 41)"

lemma sf_admissible_run:
  assumes "sf_admissible c"
  shows "sorted_wrt (<) (map unat (snowflake_run (fst c) (snd c) sf_init))"
    and "i \<in> set (snowflake_run (fst c) (snd c) sf_init) \<Longrightarrow> 0 < unat i \<and> unat i < 2 ^ 63"
proof -
  have ok: "sf_ok (fst c) (length (snd c)) sf_init"
    and ms: "\<forall>r \<in> set (snd c). unat (clock_ms r) < 2 ^ 41"
    and w: "0 < unat (fst c)"
    using assms by (auto simp: sf_admissible_def sf_ok_def sf_init_def)
  from w have "0 < sf_floor (fst c) sf_init" by (simp add: sf_floor_def)
  with snowflake_run_increasing [OF ok ms]
  show "sorted_wrt (<) (map unat (snowflake_run (fst c) (snd c) sf_init))"
    and "i \<in> set (snowflake_run (fst c) (snd c) sf_init) \<Longrightarrow> 0 < unat i \<and> unat i < 2 ^ 63"
    by (auto intro: less_le_trans)
qed

interpretation sf: id_source "\<lambda>c. snowflake_run (fst c) (snd c) sf_init" sf_admissible
proof (unfold_locales, goal_cases)
  case (1 c)
  let ?ids = "snowflake_run (fst c) (snd c) sf_init"
  have "map sint ?ids = map int (map unat ?ids)"
    using sf_admissible_run(2) [OF 1] by (simp add: sint_eq_unat)
  moreover have "sorted_wrt (<) (map int (map unat ?ids))"
    using sf_admissible_run(1) [OF 1] by (simp only: sorted_wrt_map of_nat_less_iff)
  ultimately show ?case by (simp only:)
next
  case (2 c i)
  then show ?case
    using sf_admissible_run(2) [of c i] by (auto simp only: word_sless_alt sint_eq_unat sint_0 of_nat_0_less_iff)
qed

text \<open>Claim C22. One worker whose calls do not overlap never returns an id twice, whatever the
  clock does: the ids of back-to-back calls of \<open>snowflake_id\<close> are pairwise different, positive
  and increase, also when the clock stands still, runs backwards or overflows the sequence.\<close>

theorem snowflake_ids_unique:
  assumes "0 < unat worker" and "unat worker < 2 ^ 10" and "length rs < 2 ^ 64"
    and "\<forall>r \<in> set rs. unat (clock_ms r) < 2 ^ 41"
  shows "distinct (snowflake_run worker rs sf_init)
    \<and> sorted_wrt (<s) (snowflake_run worker rs sf_init)
    \<and> (\<forall>i \<in> set (snowflake_run worker rs sf_init). 0 <s i)"
proof -
  have ok: "sf_admissible (worker, rs)"
    using assms by (simp add: sf_admissible_def)
  show ?thesis
    using sf.run_distinct [OF ok] sf.run_later_larger [OF ok] sf.run_positive [OF ok]
    by (simp add: sorted_wrt_iff_nth_less)
qed

theorem snowflake_ids_unique_witness:
  "distinct (snowflake_run 7 [Some 1767225600005, Some 1767225600005, Some 1767225600001] sf_init)"
proof -
  have "unat (clock_ms r) < 2 ^ 41"
    if "r \<in> set [Some 1767225600005, Some 1767225600005, Some 1767225600001]" for r
    using that by (auto simp: clock_ms_def EPOCH_MS_def)
  then show ?thesis
    using snowflake_ids_unique [of 7 "[Some 1767225600005, Some 1767225600005, Some 1767225600001]"]
    by simp
qed

text \<open>The ids \<open>snowflake_id\<close> builds at wall-clock millisecond \<open>n\<close> lie between
  \<open>snowflake_min_at_ms n\<close> and \<open>snowflake_max_at_ms n\<close>, for every worker and sequence number,
  until the 41-bit range of the signed layout ends: day-range queries on ids are exact.\<close>

theorem snowflake_id_in_ms_range:
  assumes "1767225600000 \<le> n" and "n < 1767225600000 + 2 ^ 41"
    and "unat worker < 2 ^ 10" and "seq \<le> MAX_SEQ"
  shows "snowflake_min_at_ms (of_nat n) \<le>s sf_pack (clock_ms (Some n)) worker seq \<and>
         sf_pack (clock_ms (Some n)) worker seq \<le>s snowflake_max_at_ms (of_nat n)"
proof -
  let ?m = "clock_ms (Some n)"
  have m: "unat ?m < 2 ^ 41" using clock_ms_at [OF assms(1,2)] assms(2) by simp
  have q: "unat seq < 2 ^ 12" using assms(4) by (simp add: sf_consts word_le_nat_alt)
  have p: "unat (sf_pack ?m worker seq) = unat ?m * 2 ^ 22 + unat worker * 2 ^ 12 + unat seq"
    by (rule unat_sf_pack) (use m assms(3) q in auto)
  have lo: "unat (snowflake_min_at_ms (of_nat n)) = unat ?m * 2 ^ 22"
    unfolding snowflake_min_at_ms_def saturating_sub_epoch [OF assms(1,2)]
    using m by (simp add: unat_push_bit_small SNOWFLAKE_SHIFT_def WORKER_BITS_def SEQ_BITS_def)
  have hi: "unat (snowflake_max_at_ms (of_nat n)) = unat ?m * 2 ^ 22 + (2 ^ 22 - 1)"
  proof -
    have "snowflake_max_at_ms (of_nat n) = push_bit 22 ?m + 4194303"
      unfolding snowflake_max_at_ms_def snowflake_min_at_ms_def saturating_sub_epoch [OF assms(1,2)]
      by (simp add: push_bit_or_add SNOWFLAKE_SHIFT_def WORKER_BITS_def SEQ_BITS_def)
    moreover have "unat (push_bit 22 ?m) = unat ?m * 2 ^ 22"
      using m by (simp add: unat_push_bit_small)
    ultimately show ?thesis
      using m by (subst \<open>snowflake_max_at_ms (of_nat n) = _\<close>, subst unat_plus_simple [THEN iffD1])
        (auto simp: no_olen_add_nat)
  qed
  have a: "unat (snowflake_min_at_ms (of_nat n)) \<le> unat (sf_pack ?m worker seq)"
    using p lo by simp
  have b: "unat (sf_pack ?m worker seq) \<le> unat (snowflake_max_at_ms (of_nat n))"
    using p hi assms(3) q by simp
  have c: "unat (snowflake_max_at_ms (of_nat n)) < 2 ^ 63"
    using hi m by simp
  show ?thesis
    unfolding word_sle_eq
    using a b c by (simp only: sint_eq_unat of_nat_le_iff order.strict_trans1 order_trans)
qed

theorem snowflake_id_in_ms_range_witness:
  "snowflake_min_at_ms (of_nat 1767225600005) \<le>s sf_pack (clock_ms (Some 1767225600005)) 7 3 \<and>
   sf_pack (clock_ms (Some 1767225600005)) 7 3 \<le>s snowflake_max_at_ms (of_nat 1767225600005)"
  by (rule snowflake_id_in_ms_range) (simp_all add: sf_consts)

text \<open>Claim C27. \<open>snowflake_id\<close> returns as soon as the clock shows a later millisecond than the
  last one used, however many turns of its loop were spent waiting before.\<close>

theorem snowflake_id_returns:
  assumes "\<exists>r \<in> set rs. clock_ms r > LAST_MS s"
  shows "\<exists>i rs' s'. snowflake_id worker rs s = Some (i, rs', s')"
  using assms
proof (induction rs arbitrary: s)
  case Nil
  then show ?case by simp
next
  case (Cons r rs)
  obtain o' s' where t: "sf_turn worker (clock_ms r) s = (o', s')" by fastforce
  show ?case
  proof (cases o')
    case None
    with t have "LAST_MS s' = LAST_MS s" and "\<not> clock_ms r > LAST_MS s"
      by (auto simp: sf_turn_def Let_def split: if_splits)
    with Cons None t show ?thesis by auto
  next
    case (Some i)
    with t show ?thesis by simp
  qed
qed

theorem snowflake_id_returns_witness:
  "\<exists>i rs' s'. snowflake_id 7 [Some 1767225600001, None, Some 1767225600009]
     \<lparr>LAST_MS = 5, SEQ = 4096\<rparr> = Some (i, rs', s')"
  by (rule snowflake_id_returns) (simp add: clock_ms_def EPOCH_MS_def)

text \<open>Two threads can be handed the same id. The thread that moves \<open>LAST_MS\<close> forward
  resets \<open>SEQ\<close> in a second atomic access; a thread that reads the clock in between draws a
  sequence number left over from the previous millisecond, and after the reset that number is
  handed out again. The interleaving is reachable for every worker id.\<close>

theorem snowflake_race_duplicate:
  "\<exists>c. (sf_step worker)\<^sup>*\<^sup>* sf_sys_init c \<and> \<not> distinct (issued c)"
  using sf_acts_reachable [of worker sf_sys_init sf_race] sf_race_dup [of worker] by blast

end
