(* ===== verification/Tx_Enums.thy ===== *)
theory Tx_Enums
  imports Rust_Prelude
begin

text \<open>
  The enumerations of \<open>_/schemas/proto/c35/tx.proto\<close> and the string columns they are stored
  in (\<open>servers/crates/mod_tx/src/enum_map.rs\<close>). A message carries an enumeration as an
  \<open>i32\<close>; \<open>X_try_from\<close> is the generated \<open>X::try_from(i32)\<close>, \<open>X_i32\<close> is \<open>i32::from\<close>.

  The locales state what the persistence layer relies on. \<open>enum_wire\<close>: numbers and values
  correspond. \<open>enum_column\<close>: what a value becomes when it is written to its column and read
  back, \<open>stored\<close>, is a fixed point of writing and reading again.
\<close>

section \<open>Enumerations\<close>

datatype TxInputSource = Src_Unspecified | Src_Manual | Src_Web | Src_Ai | Src_Api

fun TxInputSource_i32 :: "TxInputSource \<Rightarrow> i32" where
  "TxInputSource_i32 Src_Unspecified = 0"
| "TxInputSource_i32 Src_Manual = 1"
| "TxInputSource_i32 Src_Web = 2"
| "TxInputSource_i32 Src_Ai = 3"
| "TxInputSource_i32 Src_Api = 4"

definition TxInputSource_try_from :: "i32 \<Rightarrow> TxInputSource option" where
  "TxInputSource_try_from v =
     (if v = 0 then Some Src_Unspecified
      else if v = 1 then Some Src_Manual
      else if v = 2 then Some Src_Web
      else if v = 3 then Some Src_Ai
      else if v = 4 then Some Src_Api
      else None)"

datatype TxType = Ty_Unspecified | Ty_Sale | Ty_Purchase | Ty_Transfer | Ty_Adjustment
  | Ty_ReturnSale | Ty_ReturnPurchase | Ty_Reservation | Ty_Ship | Ty_Payment | Ty_Receipt
  | Ty_DebtPayable | Ty_DebtReceivable | Ty_Inventory

fun TxType_i32 :: "TxType \<Rightarrow> i32" where
  "TxType_i32 Ty_Unspecified = 0"
| "TxType_i32 Ty_Sale = 1"
| "TxType_i32 Ty_Purchase = 2"
| "TxType_i32 Ty_Transfer = 3"
| "TxType_i32 Ty_Adjustment = 4"
| "TxType_i32 Ty_ReturnSale = 5"
| "TxType_i32 Ty_ReturnPurchase = 6"
| "TxType_i32 Ty_Reservation = 7"
| "TxType_i32 Ty_Ship = 8"
| "TxType_i32 Ty_Payment = 9"
| "TxType_i32 Ty_Receipt = 10"
| "TxType_i32 Ty_DebtPayable = 11"
| "TxType_i32 Ty_DebtReceivable = 12"
| "TxType_i32 Ty_Inventory = 13"

definition TxType_try_from :: "i32 \<Rightarrow> TxType option" where
  "TxType_try_from v =
     (if v = 0 then Some Ty_Unspecified
      else if v = 1 then Some Ty_Sale
      else if v = 2 then Some Ty_Purchase
      else if v = 3 then Some Ty_Transfer
      else if v = 4 then Some Ty_Adjustment
      else if v = 5 then Some Ty_ReturnSale
      else if v = 6 then Some Ty_ReturnPurchase
      else if v = 7 then Some Ty_Reservation
      else if v = 8 then Some Ty_Ship
      else if v = 9 then Some Ty_Payment
      else if v = 10 then Some Ty_Receipt
      else if v = 11 then Some Ty_DebtPayable
      else if v = 12 then Some Ty_DebtReceivable
      else if v = 13 then Some Ty_Inventory
      else None)"

datatype TxState = St_Ok | St_Draft | St_Pending | St_WaitingPayment | St_Cancelled

fun TxState_i32 :: "TxState \<Rightarrow> i32" where
  "TxState_i32 St_Ok = 0"
| "TxState_i32 St_Draft = 1"
| "TxState_i32 St_Pending = 2"
| "TxState_i32 St_WaitingPayment = 3"
| "TxState_i32 St_Cancelled = 99"

definition TxState_try_from :: "i32 \<Rightarrow> TxState option" where
  "TxState_try_from v =
     (if v = 0 then Some St_Ok
      else if v = 1 then Some St_Draft
      else if v = 2 then Some St_Pending
      else if v = 3 then Some St_WaitingPayment
      else if v = 99 then Some St_Cancelled
      else None)"

datatype TxInputMode = Mode_Normal | Mode_Accounting | Mode_Sell | Mode_Purchase

fun TxInputMode_i32 :: "TxInputMode \<Rightarrow> i32" where
  "TxInputMode_i32 Mode_Normal = 0"
| "TxInputMode_i32 Mode_Accounting = 1"
| "TxInputMode_i32 Mode_Sell = 2"
| "TxInputMode_i32 Mode_Purchase = 3"

definition TxInputMode_try_from :: "i32 \<Rightarrow> TxInputMode option" where
  "TxInputMode_try_from v =
     (if v = 0 then Some Mode_Normal
      else if v = 1 then Some Mode_Accounting
      else if v = 2 then Some Mode_Sell
      else if v = 3 then Some Mode_Purchase
      else None)"

datatype TxPaymentMethod = Pm_Unspecified | Pm_Cash | Pm_Card | Pm_Transfer | Pm_Qris | Pm_Debt
  | Pm_Wallet

fun TxPaymentMethod_i32 :: "TxPaymentMethod \<Rightarrow> i32" where
  "TxPaymentMethod_i32 Pm_Unspecified = 0"
| "TxPaymentMethod_i32 Pm_Cash = 1"
| "TxPaymentMethod_i32 Pm_Card = 2"
| "TxPaymentMethod_i32 Pm_Transfer = 3"
| "TxPaymentMethod_i32 Pm_Qris = 4"
| "TxPaymentMethod_i32 Pm_Debt = 5"
| "TxPaymentMethod_i32 Pm_Wallet = 6"

definition TxPaymentMethod_try_from :: "i32 \<Rightarrow> TxPaymentMethod option" where
  "TxPaymentMethod_try_from v =
     (if v = 0 then Some Pm_Unspecified
      else if v = 1 then Some Pm_Cash
      else if v = 2 then Some Pm_Card
      else if v = 3 then Some Pm_Transfer
      else if v = 4 then Some Pm_Qris
      else if v = 5 then Some Pm_Debt
      else if v = 6 then Some Pm_Wallet
      else None)"

datatype TxDebtPaymentMethod = Dpm_Unspecified | Dpm_Cash | Dpm_Card | Dpm_Transfer | Dpm_Qris
  | Dpm_Wallet

fun TxDebtPaymentMethod_i32 :: "TxDebtPaymentMethod \<Rightarrow> i32" where
  "TxDebtPaymentMethod_i32 Dpm_Unspecified = 0"
| "TxDebtPaymentMethod_i32 Dpm_Cash = 1"
| "TxDebtPaymentMethod_i32 Dpm_Card = 2"
| "TxDebtPaymentMethod_i32 Dpm_Transfer = 3"
| "TxDebtPaymentMethod_i32 Dpm_Qris = 4"
| "TxDebtPaymentMethod_i32 Dpm_Wallet = 5"

definition TxDebtPaymentMethod_try_from :: "i32 \<Rightarrow> TxDebtPaymentMethod option" where
  "TxDebtPaymentMethod_try_from v =
     (if v = 0 then Some Dpm_Unspecified
      else if v = 1 then Some Dpm_Cash
      else if v = 2 then Some Dpm_Card
      else if v = 3 then Some Dpm_Transfer
      else if v = 4 then Some Dpm_Qris
      else if v = 5 then Some Dpm_Wallet
      else None)"

datatype TxAccSide = Side_Unspecified | Side_Debit | Side_Credit

fun TxAccSide_i32 :: "TxAccSide \<Rightarrow> i32" where
  "TxAccSide_i32 Side_Unspecified = 0"
| "TxAccSide_i32 Side_Debit = 1"
| "TxAccSide_i32 Side_Credit = 2"

definition TxAccSide_try_from :: "i32 \<Rightarrow> TxAccSide option" where
  "TxAccSide_try_from v =
     (if v = 0 then Some Side_Unspecified
      else if v = 1 then Some Side_Debit
      else if v = 2 then Some Side_Credit
      else None)"

datatype TxItemFulfillmentState = Ful_Unspecified | Ful_Pending | Ful_InProgress | Ful_Done

fun TxItemFulfillmentState_i32 :: "TxItemFulfillmentState \<Rightarrow> i32" where
  "TxItemFulfillmentState_i32 Ful_Unspecified = 0"
| "TxItemFulfillmentState_i32 Ful_Pending = 1"
| "TxItemFulfillmentState_i32 Ful_InProgress = 2"
| "TxItemFulfillmentState_i32 Ful_Done = 3"

definition TxItemFulfillmentState_try_from :: "i32 \<Rightarrow> TxItemFulfillmentState option" where
  "TxItemFulfillmentState_try_from v =
     (if v = 0 then Some Ful_Unspecified
      else if v = 1 then Some Ful_Pending
      else if v = 2 then Some Ful_InProgress
      else if v = 3 then Some Ful_Done
      else None)"

datatype TxOrderPayAt = PayAt_Unspecified | PayAt_Cashier | PayAt_Table

fun TxOrderPayAt_i32 :: "TxOrderPayAt \<Rightarrow> i32" where
  "TxOrderPayAt_i32 PayAt_Unspecified = 0"
| "TxOrderPayAt_i32 PayAt_Cashier = 1"
| "TxOrderPayAt_i32 PayAt_Table = 2"

definition TxOrderPayAt_try_from :: "i32 \<Rightarrow> TxOrderPayAt option" where
  "TxOrderPayAt_try_from v =
     (if v = 0 then Some PayAt_Unspecified
      else if v = 1 then Some PayAt_Cashier
      else if v = 2 then Some PayAt_Table
      else None)"

section \<open>Column strings\<close>

fun tx_type_str :: "TxType \<Rightarrow> string" where
  "tx_type_str Ty_Sale = ''sale''"
| "tx_type_str Ty_Purchase = ''purchase''"
| "tx_type_str Ty_Transfer = ''transfer''"
| "tx_type_str Ty_Adjustment = ''adjustment''"
| "tx_type_str Ty_ReturnSale = ''return_sale''"
| "tx_type_str Ty_ReturnPurchase = ''return_purchase''"
| "tx_type_str Ty_Reservation = ''reservation''"
| "tx_type_str Ty_Ship = ''ship''"
| "tx_type_str Ty_Payment = ''payment''"
| "tx_type_str Ty_Receipt = ''receipt''"
| "tx_type_str Ty_DebtPayable = ''debt_payable''"
| "tx_type_str Ty_DebtReceivable = ''debt_receivable''"
| "tx_type_str Ty_Inventory = ''inventory''"
| "tx_type_str Ty_Unspecified = ''sale''"

definition tx_type_from_str :: "string \<Rightarrow> TxType" where
  "tx_type_from_str s =
     (if s = ''sale'' then Ty_Sale
      else if s = ''purchase'' then Ty_Purchase
      else if s = ''transfer'' then Ty_Transfer
      else if s = ''adjustment'' then Ty_Adjustment
      else if s = ''return_sale'' then Ty_ReturnSale
      else if s = ''return_purchase'' then Ty_ReturnPurchase
      else if s = ''reservation'' then Ty_Reservation
      else if s = ''ship'' then Ty_Ship
      else if s = ''payment'' then Ty_Payment
      else if s = ''receipt'' then Ty_Receipt
      else if s = ''debt_payable'' then Ty_DebtPayable
      else if s = ''debt_receivable'' then Ty_DebtReceivable
      else if s = ''inventory'' then Ty_Inventory
      else Ty_Unspecified)"

fun tx_state_str :: "TxState \<Rightarrow> string" where
  "tx_state_str St_Ok = ''ok''"
| "tx_state_str St_Draft = ''draft''"
| "tx_state_str St_Pending = ''pending''"
| "tx_state_str St_WaitingPayment = ''waiting_payment''"
| "tx_state_str St_Cancelled = ''cancelled''"

definition tx_state_from_str :: "string \<Rightarrow> TxState" where
  "tx_state_from_str s =
     (if s = ''ok'' then St_Ok
      else if s = ''draft'' then St_Draft
      else if s = ''pending'' then St_Pending
      else if s = ''waiting_payment'' then St_WaitingPayment
      else if s = ''cancelled'' then St_Cancelled
      else St_Ok)"

fun tx_input_mode_str :: "TxInputMode \<Rightarrow> string" where
  "tx_input_mode_str Mode_Normal = ''normal''"
| "tx_input_mode_str Mode_Accounting = ''accounting''"
| "tx_input_mode_str Mode_Sell = ''sell''"
| "tx_input_mode_str Mode_Purchase = ''purchase''"

definition tx_input_mode_from_str :: "string \<Rightarrow> TxInputMode" where
  "tx_input_mode_from_str s =
     (if s = ''normal'' then Mode_Normal
      else if s = ''accounting'' then Mode_Accounting
      else if s = ''sell'' then Mode_Sell
      else if s = ''purchase'' then Mode_Purchase
      else Mode_Normal)"

fun tx_input_source_str :: "TxInputSource \<Rightarrow> string" where
  "tx_input_source_str Src_Manual = ''manual''"
| "tx_input_source_str Src_Web = ''web''"
| "tx_input_source_str Src_Ai = ''ai''"
| "tx_input_source_str Src_Api = ''api''"
| "tx_input_source_str Src_Unspecified = ''manual''"

definition tx_input_source_from_str :: "string \<Rightarrow> TxInputSource" where
  "tx_input_source_from_str s =
     (if s = ''manual'' then Src_Manual
      else if s = ''web'' then Src_Web
      else if s = ''ai'' then Src_Ai
      else if s = ''api'' then Src_Api
      else Src_Manual)"

fun tx_payment_method_str :: "TxPaymentMethod \<Rightarrow> string" where
  "tx_payment_method_str Pm_Cash = ''cash''"
| "tx_payment_method_str Pm_Card = ''card''"
| "tx_payment_method_str Pm_Transfer = ''transfer''"
| "tx_payment_method_str Pm_Qris = ''qris''"
| "tx_payment_method_str Pm_Debt = ''debt''"
| "tx_payment_method_str Pm_Wallet = ''wallet''"
| "tx_payment_method_str Pm_Unspecified = ''cash''"

definition tx_payment_method_from_str :: "string \<Rightarrow> TxPaymentMethod" where
  "tx_payment_method_from_str s =
     (if s = ''cash'' then Pm_Cash
      else if s = ''card'' then Pm_Card
      else if s = ''transfer'' then Pm_Transfer
      else if s = ''qris'' then Pm_Qris
      else if s = ''debt'' then Pm_Debt
      else if s = ''wallet'' then Pm_Wallet
      else Pm_Unspecified)"

definition tx_type :: "i32 \<Rightarrow> TxType" where
  "tx_type v = (case TxType_try_from v of Some t \<Rightarrow> t | None \<Rightarrow> Ty_Unspecified)"

definition tx_state :: "i32 \<Rightarrow> TxState" where
  "tx_state v = (case TxState_try_from v of Some t \<Rightarrow> t | None \<Rightarrow> St_Ok)"

definition tx_payment_method :: "i32 \<Rightarrow> TxPaymentMethod" where
  "tx_payment_method v = (case TxPaymentMethod_try_from v of Some t \<Rightarrow> t | None \<Rightarrow> Pm_Unspecified)"

fun tx_debt_payment_method_str :: "TxDebtPaymentMethod \<Rightarrow> string" where
  "tx_debt_payment_method_str Dpm_Cash = ''cash''"
| "tx_debt_payment_method_str Dpm_Card = ''card''"
| "tx_debt_payment_method_str Dpm_Transfer = ''transfer''"
| "tx_debt_payment_method_str Dpm_Qris = ''qris''"
| "tx_debt_payment_method_str Dpm_Wallet = ''wallet''"
| "tx_debt_payment_method_str Dpm_Unspecified = ''cash''"

definition tx_debt_payment_method_from_str :: "string \<Rightarrow> TxDebtPaymentMethod" where
  "tx_debt_payment_method_from_str s =
     (if s = ''cash'' then Dpm_Cash
      else if s = ''card'' then Dpm_Card
      else if s = ''transfer'' then Dpm_Transfer
      else if s = ''qris'' then Dpm_Qris
      else if s = ''wallet'' then Dpm_Wallet
      else Dpm_Unspecified)"

fun tx_acc_side_str :: "TxAccSide \<Rightarrow> string" where
  "tx_acc_side_str Side_Debit = ''debit''"
| "tx_acc_side_str Side_Credit = ''credit''"
| "tx_acc_side_str Side_Unspecified = ''debit''"

definition tx_acc_side_from_str :: "string \<Rightarrow> TxAccSide" where
  "tx_acc_side_from_str s =
     (if s = ''debit'' then Side_Debit else if s = ''credit'' then Side_Credit else Side_Unspecified)"

definition tx_fulfillment_from_str :: "string \<Rightarrow> TxItemFulfillmentState" where
  "tx_fulfillment_from_str s =
     (if s = ''pending'' then Ful_Pending
      else if s = ''in_progress'' then Ful_InProgress
      else if s = ''done'' then Ful_Done
      else Ful_Unspecified)"

fun tx_fulfillment_str :: "TxItemFulfillmentState \<Rightarrow> string" where
  "tx_fulfillment_str Ful_Pending = ''pending''"
| "tx_fulfillment_str Ful_InProgress = ''in_progress''"
| "tx_fulfillment_str Ful_Done = ''done''"
| "tx_fulfillment_str Ful_Unspecified = ''''"

fun tx_order_pay_at_str :: "TxOrderPayAt \<Rightarrow> string" where
  "tx_order_pay_at_str PayAt_Cashier = ''cashier''"
| "tx_order_pay_at_str PayAt_Table = ''table''"
| "tx_order_pay_at_str PayAt_Unspecified = ''''"

definition tx_order_pay_at_from_str :: "string \<Rightarrow> TxOrderPayAt" where
  "tx_order_pay_at_from_str s =
     (if s = ''cashier'' then PayAt_Cashier else if s = ''table'' then PayAt_Table else PayAt_Unspecified)"

definition stock_direction_signed :: "string \<Rightarrow> i32 \<Rightarrow> i32" where
  "stock_direction_signed direction qty =
     (if direction = ''in'' then qty
      else if direction = ''out'' then - qty
      else if direction = ''transfer'' then 0
      else qty)"

section \<open>The contracts\<close>

locale enum_wire =
  fixes to_i32 :: "'e \<Rightarrow> i32"
    and try_from :: "i32 \<Rightarrow> 'e option"
  assumes try_from_to [simp]: "try_from (to_i32 e) = Some e"
    and to_try_from: "try_from v = Some e \<Longrightarrow> to_i32 e = v"
begin

lemma to_i32_inj: "to_i32 a = to_i32 b \<longleftrightarrow> a = b"
  by (metis option.inject try_from_to)

end

locale enum_column = enum_wire to_i32 try_from
  for to_i32 :: "'e \<Rightarrow> i32" and try_from :: "i32 \<Rightarrow> 'e option" +
  fixes to_str :: "'e \<Rightarrow> string"
    and of_str :: "string \<Rightarrow> 'e"
    and stored :: "'e \<Rightarrow> 'e"
  assumes of_str_to_str [simp]: "of_str (to_str e) = stored e"
    and to_str_stored: "to_str (stored e) = to_str e"
begin

lemma stored_idem: "stored (stored e) = stored e"
  by (metis of_str_to_str to_str_stored)

lemma reload_stable:
  assumes "to_i32 (of_str (to_str e)) = v"
  shows "\<exists>e'. try_from v = Some e' \<and> to_i32 (of_str (to_str e')) = v"
  using assms by (intro exI [of _ "stored e"]) (auto simp: to_str_stored)

lemma to_str_eq_iff: "to_str a = to_str b \<longleftrightarrow> stored a = stored b"
  by (metis of_str_to_str to_str_stored)

end

lemmas enum_from_str_defs = tx_type_from_str_def tx_state_from_str_def tx_input_mode_from_str_def
  tx_input_source_from_str_def tx_payment_method_from_str_def tx_debt_payment_method_from_str_def
  tx_acc_side_from_str_def tx_fulfillment_from_str_def tx_order_pay_at_from_str_def

lemmas enum_try_from_defs = TxType_try_from_def TxState_try_from_def TxInputMode_try_from_def
  TxInputSource_try_from_def TxPaymentMethod_try_from_def TxDebtPaymentMethod_try_from_def
  TxAccSide_try_from_def TxItemFulfillmentState_try_from_def TxOrderPayAt_try_from_def

text \<open>An unspecified type is stored as a sale, an unspecified method as cash, an unspecified
  source as manual entry, an unspecified side as debit; everything else keeps its value.\<close>

definition stored_type :: "TxType \<Rightarrow> TxType" where
  "stored_type e = (if e = Ty_Unspecified then Ty_Sale else e)"

definition stored_source :: "TxInputSource \<Rightarrow> TxInputSource" where
  "stored_source e = (if e = Src_Unspecified then Src_Manual else e)"

definition stored_method :: "TxPaymentMethod \<Rightarrow> TxPaymentMethod" where
  "stored_method e = (if e = Pm_Unspecified then Pm_Cash else e)"

definition stored_debt_method :: "TxDebtPaymentMethod \<Rightarrow> TxDebtPaymentMethod" where
  "stored_debt_method e = (if e = Dpm_Unspecified then Dpm_Cash else e)"

definition stored_side :: "TxAccSide \<Rightarrow> TxAccSide" where
  "stored_side e = (if e = Side_Unspecified then Side_Debit else e)"

interpretation ty: enum_column TxType_i32 TxType_try_from tx_type_str tx_type_from_str stored_type
proof (unfold_locales, goal_cases)
  case (1 e) then show ?case by (cases e) (simp_all add: TxType_try_from_def)
next
  case (2 v e) then show ?case by (auto simp: TxType_try_from_def split: if_splits)
next
  case (3 e) then show ?case by (cases e) (simp_all add: tx_type_from_str_def stored_type_def)
next
  case (4 e) then show ?case by (cases e) (simp_all add: stored_type_def)
qed

interpretation st: enum_column TxState_i32 TxState_try_from tx_state_str tx_state_from_str "\<lambda>e. e"
proof (unfold_locales, goal_cases)
  case (1 e) then show ?case by (cases e) (simp_all add: TxState_try_from_def)
next
  case (2 v e) then show ?case by (auto simp: TxState_try_from_def split: if_splits)
next
  case (3 e) then show ?case by (cases e) (simp_all add: tx_state_from_str_def)
next
  case (4 e) then show ?case by (cases e) (simp_all)
qed

interpretation md: enum_column TxInputMode_i32 TxInputMode_try_from tx_input_mode_str tx_input_mode_from_str "\<lambda>e. e"
proof (unfold_locales, goal_cases)
  case (1 e) then show ?case by (cases e) (simp_all add: TxInputMode_try_from_def)
next
  case (2 v e) then show ?case by (auto simp: TxInputMode_try_from_def split: if_splits)
next
  case (3 e) then show ?case by (cases e) (simp_all add: tx_input_mode_from_str_def)
next
  case (4 e) then show ?case by (cases e) (simp_all)
qed

interpretation src: enum_column TxInputSource_i32 TxInputSource_try_from tx_input_source_str tx_input_source_from_str stored_source
proof (unfold_locales, goal_cases)
  case (1 e) then show ?case by (cases e) (simp_all add: TxInputSource_try_from_def)
next
  case (2 v e) then show ?case by (auto simp: TxInputSource_try_from_def split: if_splits)
next
  case (3 e) then show ?case by (cases e) (simp_all add: tx_input_source_from_str_def stored_source_def)
next
  case (4 e) then show ?case by (cases e) (simp_all add: stored_source_def)
qed

interpretation pm: enum_column TxPaymentMethod_i32 TxPaymentMethod_try_from tx_payment_method_str tx_payment_method_from_str stored_method
proof (unfold_locales, goal_cases)
  case (1 e) then show ?case by (cases e) (simp_all add: TxPaymentMethod_try_from_def)
next
  case (2 v e) then show ?case by (auto simp: TxPaymentMethod_try_from_def split: if_splits)
next
  case (3 e) then show ?case by (cases e) (simp_all add: tx_payment_method_from_str_def stored_method_def)
next
  case (4 e) then show ?case by (cases e) (simp_all add: stored_method_def)
qed

interpretation dpm: enum_column TxDebtPaymentMethod_i32 TxDebtPaymentMethod_try_from tx_debt_payment_method_str tx_debt_payment_method_from_str stored_debt_method
proof (unfold_locales, goal_cases)
  case (1 e) then show ?case by (cases e) (simp_all add: TxDebtPaymentMethod_try_from_def)
next
  case (2 v e) then show ?case by (auto simp: TxDebtPaymentMethod_try_from_def split: if_splits)
next
  case (3 e) then show ?case by (cases e) (simp_all add: tx_debt_payment_method_from_str_def stored_debt_method_def)
next
  case (4 e) then show ?case by (cases e) (simp_all add: stored_debt_method_def)
qed

interpretation side: enum_column TxAccSide_i32 TxAccSide_try_from tx_acc_side_str tx_acc_side_from_str stored_side
proof (unfold_locales, goal_cases)
  case (1 e) then show ?case by (cases e) (simp_all add: TxAccSide_try_from_def)
next
  case (2 v e) then show ?case by (auto simp: TxAccSide_try_from_def split: if_splits)
next
  case (3 e) then show ?case by (cases e) (simp_all add: tx_acc_side_from_str_def stored_side_def)
next
  case (4 e) then show ?case by (cases e) (simp_all add: stored_side_def)
qed

interpretation ful: enum_column TxItemFulfillmentState_i32 TxItemFulfillmentState_try_from tx_fulfillment_str tx_fulfillment_from_str "\<lambda>e. e"
proof (unfold_locales, goal_cases)
  case (1 e) then show ?case by (cases e) (simp_all add: TxItemFulfillmentState_try_from_def)
next
  case (2 v e) then show ?case by (auto simp: TxItemFulfillmentState_try_from_def split: if_splits)
next
  case (3 e) then show ?case by (cases e) (simp_all add: tx_fulfillment_from_str_def)
next
  case (4 e) then show ?case by (cases e) (simp_all)
qed

interpretation pay: enum_column TxOrderPayAt_i32 TxOrderPayAt_try_from tx_order_pay_at_str tx_order_pay_at_from_str "\<lambda>e. e"
proof (unfold_locales, goal_cases)
  case (1 e) then show ?case by (cases e) (simp_all add: TxOrderPayAt_try_from_def)
next
  case (2 v e) then show ?case by (auto simp: TxOrderPayAt_try_from_def split: if_splits)
next
  case (3 e) then show ?case by (cases e) (simp_all add: tx_order_pay_at_from_str_def)
next
  case (4 e) then show ?case by (cases e) (simp_all)
qed

end
