(* ===== verification/Tx_Types.thy ===== *)
theory Tx_Types
  imports Tx_Enums
begin

text \<open>
  The messages of \<open>_/schemas/proto/c35/tx.proto\<close> as the server's generated structs have them:
  one record per message, one field per message field, in the order of the file. An
  enumeration field is its \<open>i32\<close>, a repeated field a list, a message field an \<open>option\<close>.
  \<open>X_default\<close> is \<open>X::default()\<close>, the value \<open>..Default::default()\<close> completes a struct with.
  Field names carry a prefix per record (\<open>t_\<close> for \<open>Tx\<close>, \<open>i_\<close> for \<open>TxItem\<close>, \<open>r_\<close> reservation,
  \<open>s_\<close> source, \<open>p_\<close> payment, \<open>n_\<close> installment, \<open>d_\<close> debt payment, \<open>a_\<close> account line, \<open>k_\<close> stock
  line, \<open>x_\<close> tax, \<open>c_\<close> discount).
\<close>

record TxPrompt =
  pr_pics :: "string list"
  pr_desc :: string

definition TxPrompt_default :: TxPrompt where
  "TxPrompt_default = \<lparr>
     pr_pics = [], pr_desc = [] \<rparr>"

record TxDeliveryTo =
  dt_name :: string
  dt_phone :: string
  dt_address :: string
  dt_email :: string

definition TxDeliveryTo_default :: TxDeliveryTo where
  "TxDeliveryTo_default = \<lparr>
     dt_name = [], dt_phone = [], dt_address = [], dt_email = [] \<rparr>"

record TxDeliveryService =
  ds_name :: string
  ds_tracking_number :: string
  ds_tracking_url :: string
  ds_note :: string

definition TxDeliveryService_default :: TxDeliveryService where
  "TxDeliveryService_default = \<lparr>
     ds_name = [], ds_tracking_number = [], ds_tracking_url = [], ds_note = [] \<rparr>"

record TxDelivery =
  dl_obj_id :: i64
  dl_contact_id :: i64
  dl_user_iid :: i64
  dl_to :: "TxDeliveryTo option"
  dl_service :: "TxDeliveryService option"
  dl_state :: string

definition TxDelivery_default :: TxDelivery where
  "TxDelivery_default = \<lparr>
     dl_obj_id = 0, dl_contact_id = 0, dl_user_iid = 0, dl_to = None, dl_service = None,
     dl_state = [] \<rparr>"

record TxPromo =
  pm_promo_id :: string
  pm_code :: string
  pm_name :: string
  pm_amount :: i64

definition TxPromo_default :: TxPromo where
  "TxPromo_default = \<lparr>
     pm_promo_id = [], pm_code = [], pm_name = [], pm_amount = 0 \<rparr>"

record TxData =
  td_proofs :: "string list"
  td_prompt :: "TxPrompt option"
  td_delivery :: "TxDelivery option"
  td_promos :: "TxPromo list"

definition TxData_default :: TxData where
  "TxData_default = \<lparr>
     td_proofs = [], td_prompt = None, td_delivery = None, td_promos = [] \<rparr>"

record TxItemReservation =
  r_res_id :: i64
  r_product_id :: i64
  r_qty :: i32
  r_duration_qty :: i32
  r_note :: string
  r_site_object_id :: i64
  r_start_ts_ms :: i64
  r_end_ts_ms :: i64
  r_state :: string
  r_is_no_show :: bool
  r_is_unavailable :: bool

definition TxItemReservation_default :: TxItemReservation where
  "TxItemReservation_default = \<lparr>
     r_res_id = 0, r_product_id = 0, r_qty = 0, r_duration_qty = 0, r_note = [],
     r_site_object_id = 0, r_start_ts_ms = 0, r_end_ts_ms = 0, r_state = [],
     r_is_no_show = False, r_is_unavailable = False \<rparr>"

record TxItemSource =
  s_src_id :: i64
  s_obj_id :: i64
  s_product_id :: i64
  s_qty :: i32
  s_note :: string

definition TxItemSource_default :: TxItemSource where
  "TxItemSource_default = \<lparr>
     s_src_id = 0, s_obj_id = 0, s_product_id = 0, s_qty = 0, s_note = [] \<rparr>"

record TxItem =
  i_site_iid :: i64
  i_tx_id :: i64
  i_item_id :: i64
  i_owner_iid :: i64
  i_product_id :: i64
  i_product_rev :: i64
  i_obj_id :: i64
  i_price :: i64
  i_qty :: i32
  i_note :: string
  i_batch_number :: string
  i_serial_number :: string
  i_fulfillment_state :: i32
  i_total_qty :: i32
  i_total_price :: i64
  i_total_discount :: i64
  i_total_tax :: i64
  i_total_net :: i64
  i_total_paid :: i64
  i_total_unpaid :: i64
  i_reservations :: "TxItemReservation list"
  i_sources :: "TxItemSource list"

definition TxItem_default :: TxItem where
  "TxItem_default = \<lparr>
     i_site_iid = 0, i_tx_id = 0, i_item_id = 0, i_owner_iid = 0, i_product_id = 0,
     i_product_rev = 0, i_obj_id = 0, i_price = 0, i_qty = 0, i_note = [], i_batch_number = [],
     i_serial_number = [], i_fulfillment_state = 0, i_total_qty = 0, i_total_price = 0,
     i_total_discount = 0, i_total_tax = 0, i_total_net = 0, i_total_paid = 0,
     i_total_unpaid = 0, i_reservations = [], i_sources = [] \<rparr>"

record TxDebtPayment =
  d_pay_id :: i64
  d_ts_ms :: i64
  d_method :: i32
  d_amount :: i64
  d_note :: string
  d_overdue_interest :: i64
  d_payment_json :: string

definition TxDebtPayment_default :: TxDebtPayment where
  "TxDebtPayment_default = \<lparr>
     d_pay_id = 0, d_ts_ms = 0, d_method = 0, d_amount = 0, d_note = [],
     d_overdue_interest = 0, d_payment_json = [] \<rparr>"

record TxInstallment =
  n_inst_id :: i64
  n_due_ts_ms :: i64
  n_amount :: i64
  n_note :: string
  n_is_paid :: bool
  n_is_overdue :: bool
  n_debt_payments :: "TxDebtPayment list"

definition TxInstallment_default :: TxInstallment where
  "TxInstallment_default = \<lparr>
     n_inst_id = 0, n_due_ts_ms = 0, n_amount = 0, n_note = [], n_is_paid = False,
     n_is_overdue = False, n_debt_payments = [] \<rparr>"

record TxPayment =
  p_payment_id :: i64
  p_method :: i32
  p_ts_ms :: i64
  p_amount :: i64
  p_note :: string
  p_from_wallet :: string
  p_to_wallet :: string
  p_debt_interest :: i64
  p_payment_json :: string
  p_installments :: "TxInstallment list"

definition TxPayment_default :: TxPayment where
  "TxPayment_default = \<lparr>
     p_payment_id = 0, p_method = 0, p_ts_ms = 0, p_amount = 0, p_note = [],
     p_from_wallet = [], p_to_wallet = [], p_debt_interest = 0, p_payment_json = [],
     p_installments = [] \<rparr>"

record TxAcc =
  a_acc_id :: i64
  a_acc_code :: string
  a_ts_ms :: i64
  a_side :: i32
  a_amount :: i64
  a_note :: string
  a_is_tx_generated :: bool

definition TxAcc_default :: TxAcc where
  "TxAcc_default = \<lparr>
     a_acc_id = 0, a_acc_code = [], a_ts_ms = 0, a_side = 0, a_amount = 0, a_note = [],
     a_is_tx_generated = False \<rparr>"

record TxStock =
  k_stock_id :: i64
  k_product_id :: i64
  k_ts_ms :: i64
  k_obj_from_id :: i64
  k_obj_to_id :: i64
  k_qty :: i32
  k_qty_signed :: i32
  k_direction :: string
  k_note :: string

definition TxStock_default :: TxStock where
  "TxStock_default = \<lparr>
     k_stock_id = 0, k_product_id = 0, k_ts_ms = 0, k_obj_from_id = 0, k_obj_to_id = 0,
     k_qty = 0, k_qty_signed = 0, k_direction = [], k_note = [] \<rparr>"

record TxTax =
  x_tax_id :: i64
  x_tax_type :: string
  x_amount :: i64
  x_note :: string

definition TxTax_default :: TxTax where
  "TxTax_default = \<lparr>
     x_tax_id = 0, x_tax_type = [], x_amount = 0, x_note = [] \<rparr>"

record TxDiscount =
  c_discount_id :: i64
  c_discount_type :: string
  c_amount :: i64
  c_note :: string

definition TxDiscount_default :: TxDiscount where
  "TxDiscount_default = \<lparr>
     c_discount_id = 0, c_discount_type = [], c_amount = 0, c_note = [] \<rparr>"

record Tx =
  t_site_iid :: i64
  t_tx_id :: i64
  t_type :: i32
  t_state :: i32
  t_input_mode :: i32
  t_input_source :: i32
  t_is_archived :: bool
  t_desc :: string
  t_time_ts_ms :: i64
  t_created_by_iid :: i64
  t_cancel_reason :: string
  t_subject_contact_id :: i64
  t_subject_name :: string
  t_subject_phone :: string
  t_subject_address :: string
  t_cashier_name :: string
  t_store_id :: i64
  t_store_tgt_id :: i64
  t_delivery_state :: string
  t_obj_id :: i64
  t_promo_code :: string
  t_is_paid :: bool
  t_is_task_assigned :: bool
  t_order_pay_at :: i32
  t_items_count :: i64
  t_items_qty :: i64
  t_items_total :: i64
  t_debt_total :: i64
  t_debt_paid :: i64
  t_debt_unpaid :: i64
  t_total_taxes :: i64
  t_total_discounts :: i64
  t_total_interest :: i64
  t_total_paid :: i64
  t_total_unpaid :: i64
  t_total :: i64
  t_stock_line_count :: i32
  t_stock_qty_in :: i32
  t_stock_qty_out :: i32
  t_acc_line_count :: i32
  t_acc_sum :: i64
  t_acc_balanced :: bool
  t_has_manual_lines :: bool
  t_tx_data :: "TxData option"
  t_items :: "TxItem list"
  t_payments :: "TxPayment list"
  t_accs :: "TxAcc list"
  t_stocks :: "TxStock list"
  t_taxes :: "TxTax list"
  t_discounts :: "TxDiscount list"
  t_created_ts_ms :: i64
  t_updated_ts_ms :: i64
  t_deleted_ts_ms :: i64

definition Tx_default :: Tx where
  "Tx_default = \<lparr>
     t_site_iid = 0, t_tx_id = 0, t_type = 0, t_state = 0, t_input_mode = 0,
     t_input_source = 0, t_is_archived = False, t_desc = [], t_time_ts_ms = 0,
     t_created_by_iid = 0, t_cancel_reason = [], t_subject_contact_id = 0, t_subject_name = [],
     t_subject_phone = [], t_subject_address = [], t_cashier_name = [], t_store_id = 0,
     t_store_tgt_id = 0, t_delivery_state = [], t_obj_id = 0, t_promo_code = [],
     t_is_paid = False, t_is_task_assigned = False, t_order_pay_at = 0, t_items_count = 0,
     t_items_qty = 0, t_items_total = 0, t_debt_total = 0, t_debt_paid = 0, t_debt_unpaid = 0,
     t_total_taxes = 0, t_total_discounts = 0, t_total_interest = 0, t_total_paid = 0,
     t_total_unpaid = 0, t_total = 0, t_stock_line_count = 0, t_stock_qty_in = 0,
     t_stock_qty_out = 0, t_acc_line_count = 0, t_acc_sum = 0, t_acc_balanced = False,
     t_has_manual_lines = False, t_tx_data = None, t_items = [], t_payments = [], t_accs = [],
     t_stocks = [], t_taxes = [], t_discounts = [], t_created_ts_ms = 0, t_updated_ts_ms = 0,
     t_deleted_ts_ms = 0 \<rparr>"

end
