(* ===== verification/Tx_Totals.thy ===== *)
theory Tx_Totals
  imports Tx_Types
begin

text \<open>
  The first half of \<open>tx_finalize\<close> (\<open>servers/crates/mod_tx/src/finalize.rs\<close>): line amounts,
  totals, the principal of a stand-alone debt, and the state of the installments.

  Time comes from outside: \<open>chrono\<close>'s \<open>DateTime::from_timestamp_millis\<close> and each reading of
  \<open>Utc::now()\<close> are fields of \<open>clock\<close>. A \<open>datetime\<close> is the instant, ordered as \<open>chrono\<close> orders it.
\<close>

type_synonym datetime = int

record clock =
  from_timestamp_millis :: "i64 \<Rightarrow> datetime option"
  timestamp_millis :: "datetime \<Rightarrow> i64"
  now_time :: datetime
  now_due :: datetime

section \<open>Timestamps\<close>

definition ts_ms :: "clock \<Rightarrow> datetime option \<Rightarrow> i64" where
  "ts_ms ck t = (case t of Some x \<Rightarrow> timestamp_millis ck x | None \<Rightarrow> 0)"

definition ts_from_ms :: "clock \<Rightarrow> i64 \<Rightarrow> datetime option" where
  "ts_from_ms ck ms = (if ms \<le>s 0 then None else from_timestamp_millis ck ms)"

definition tx_time_ms :: "clock \<Rightarrow> Tx \<Rightarrow> i64" where
  "tx_time_ms ck tx =
     (if 0 <s t_time_ts_ms tx then t_time_ts_ms tx
      else if 0 <s t_created_ts_ms tx then t_created_ts_ms tx
      else timestamp_millis ck (now_time ck))"

section \<open>Lines\<close>

definition reservation_billable_qty :: "TxItemReservation list \<Rightarrow> i64" where
  "reservation_billable_qty reservations =
     (\<Sum>r\<leftarrow>reservations. scast (smax (r_qty r) 0) * scast (smax (r_duration_qty r) 1))"

definition item_line_qty :: "TxItem \<Rightarrow> i64" where
  "item_line_qty item =
     (if i_reservations item = [] then scast (i_qty item)
      else let billable = reservation_billable_qty (i_reservations item)
           in if 0 <s billable then billable
              else let duration_multiplier =
                         smax (\<Sum>r\<leftarrow>i_reservations item. scast (smax (r_duration_qty r) 1)) 1
                   in scast (i_qty item) * duration_multiplier)"

definition item_compute :: "TxItem \<Rightarrow> TxItem" where
  "item_compute item =
     (let line_qty = item_line_qty item;
          gross = i_price item * line_qty;
          item = item\<lparr> i_total_qty := scast line_qty, i_total_price := gross \<rparr>
      in if i_total_discount item = 0 \<and> i_total_tax item = 0
         then item\<lparr> i_total_net := gross \<rparr> else item)"

definition tx_compute_items :: "Tx \<Rightarrow> Tx" where
  "tx_compute_items tx = tx\<lparr> t_items := map item_compute (t_items tx) \<rparr>"

section \<open>Totals\<close>

definition inst_paid :: "TxInstallment \<Rightarrow> i64" where
  "inst_paid inst = (\<Sum>p\<leftarrow>n_debt_payments inst. d_amount p)"

definition is_debt :: "TxPayment \<Rightarrow> bool" where
  "is_debt p \<longleftrightarrow> tx_payment_method (p_method p) = Pm_Debt"

definition item_net :: "TxItem \<Rightarrow> i64" where
  "item_net item =
     (if i_total_net item \<noteq> 0 then i_total_net item else i_price item * scast (i_qty item))"

definition tx_compute_totals :: "Tx \<Rightarrow> Tx" where
  "tx_compute_totals tx =
     (let count = of_nat (length (t_items tx));
          qty = (\<Sum>item\<leftarrow>t_items tx. scast (i_qty item));
          items_total = (\<Sum>item\<leftarrow>t_items tx. item_net item);
          tax_sum = (\<Sum>t\<leftarrow>t_taxes tx. x_amount t);
          disc_sum = (\<Sum>d\<leftarrow>t_discounts tx. c_amount d);
          paid = (\<Sum>p\<leftarrow>t_payments tx. p_amount p);
          debts = filter is_debt (t_payments tx);
          interest = (\<Sum>p\<leftarrow>debts. p_debt_interest p);
          debt_total = (\<Sum>p\<leftarrow>debts. \<Sum>inst\<leftarrow>p_installments p. n_amount inst);
          debt_paid = (\<Sum>p\<leftarrow>debts. \<Sum>inst\<leftarrow>p_installments p. inst_paid inst);
          debt_unpaid = debt_total - debt_paid;
          net = items_total + tax_sum - disc_sum + interest;
          unpaid = smax (net - paid) 0
      in tx\<lparr> t_items_count := count, t_items_qty := qty, t_items_total := items_total,
             t_total_taxes := tax_sum, t_total_discounts := disc_sum,
             t_total_paid := paid, t_total_interest := interest,
             t_debt_total := debt_total, t_debt_paid := debt_paid, t_debt_unpaid := debt_unpaid,
             t_is_paid := (debt_unpaid \<le>s 0),
             t_total := net, t_total_unpaid := unpaid \<rparr>)"

definition tx_compute_standalone_debt :: "Tx \<Rightarrow> Tx" where
  "tx_compute_standalone_debt tx =
     (let ty = tx_type (t_type tx)
      in if \<not> (ty = Ty_DebtPayable \<or> ty = Ty_DebtReceivable) then tx
         else if 0 <s t_debt_total tx then tx
         else let total = t_total tx
              in if total \<le>s 0 then tx
                 else let unpaid = smax (total - t_debt_paid tx) 0
                      in tx\<lparr> t_debt_total := total, t_debt_unpaid := unpaid,
                             t_is_paid := (unpaid \<le>s 0) \<rparr>)"

section \<open>Installments\<close>

definition inst_compute :: "clock \<Rightarrow> datetime \<Rightarrow> i64 \<Rightarrow> TxInstallment \<Rightarrow> TxInstallment" where
  "inst_compute ck now due_default inst =
     (let due = (if n_due_ts_ms inst = 0 then due_default else n_due_ts_ms inst);
          paid = inst_paid inst;
          ispaid = (0 <s n_amount inst \<and> n_amount inst \<le>s paid);
          overdue = (\<not> ispaid \<and> 0 <s due \<and>
                     (case ts_from_ms ck due of Some d \<Rightarrow> d < now | None \<Rightarrow> False))
      in inst\<lparr> n_due_ts_ms := due, n_is_paid := ispaid, n_is_overdue := overdue \<rparr>)"

definition tx_compute_debt_installments :: "clock \<Rightarrow> i64 \<Rightarrow> Tx \<Rightarrow> Tx" where
  "tx_compute_debt_installments ck ts tx =
     (let now = (case ts_from_ms ck ts of Some d \<Rightarrow> d | None \<Rightarrow> now_due ck)
      in tx\<lparr> t_payments := map (\<lambda>p.
           if \<not> is_debt p then p
           else let due_default = (if 0 <s p_ts_ms p then p_ts_ms p else ts)
                in p\<lparr> p_installments := map (inst_compute ck now due_default) (p_installments p) \<rparr>)
           (t_payments tx) \<rparr>)"

end
