(* ===== verification/Tx_Stocks.thy ===== *)
theory Tx_Stocks
  imports Tx_Types
begin

text \<open>
  Stock lines of a transaction (\<open>tx_compute_stock\<close> and \<open>tx_append_item_stocks\<close> of
  \<open>servers/crates/mod_tx/src/finalize.rs\<close>): every save rebuilds them from the items.
\<close>

section \<open>Lines\<close>

definition stock_out_line :: "i64 \<Rightarrow> string \<Rightarrow> i64 \<Rightarrow> i64 \<Rightarrow> i32 \<Rightarrow> TxStock" where
  "stock_out_line ts dir product from qty =
     TxStock_default\<lparr> k_product_id := product, k_ts_ms := ts, k_obj_from_id := from, k_qty := qty,
       k_direction := dir, k_qty_signed := stock_direction_signed dir qty \<rparr>"

definition tx_append_item_stocks :: "i64 \<Rightarrow> i64 \<Rightarrow> string \<Rightarrow> TxItem list \<Rightarrow> TxStock list" where
  "tx_append_item_stocks ts store dir items =
     concat (map (\<lambda>item.
       if i_qty item = 0 then []
       else if i_sources item \<noteq> [] then
         map (\<lambda>src. stock_out_line ts dir (i_product_id item) (s_obj_id src) (s_qty src))
           (filter (\<lambda>src. s_qty src \<noteq> 0) (i_sources item))
       else [stock_out_line ts dir (i_product_id item) store (i_qty item)]) items)"

definition stock_in_line :: "i64 \<Rightarrow> i64 \<Rightarrow> TxItem \<Rightarrow> TxStock" where
  "stock_in_line ts store item =
     (let obj_to = (case i_sources item of [] \<Rightarrow> store | s # _ \<Rightarrow> s_obj_id s)
      in TxStock_default\<lparr> k_product_id := i_product_id item, k_ts_ms := ts, k_obj_to_id := obj_to,
           k_qty := i_qty item, k_direction := ''in'', k_qty_signed := i_qty item \<rparr>)"

definition stock_transfer_line :: "i64 \<Rightarrow> i64 \<Rightarrow> i64 \<Rightarrow> TxItem \<Rightarrow> TxStock" where
  "stock_transfer_line ts store tgt item =
     TxStock_default\<lparr> k_product_id := i_product_id item, k_ts_ms := ts, k_obj_from_id := store,
       k_obj_to_id := tgt, k_qty := i_qty item, k_direction := ''transfer'', k_qty_signed := 0 \<rparr>"

definition stock_adjust_line :: "i64 \<Rightarrow> i64 \<Rightarrow> TxItem \<Rightarrow> TxStock" where
  "stock_adjust_line ts store item =
     (let (dir, qty) = (if i_qty item <s 0 then (''out'', - i_qty item) else (''in'', i_qty item))
      in TxStock_default\<lparr> k_product_id := i_product_id item, k_ts_ms := ts, k_obj_from_id := store,
           k_qty := qty, k_direction := dir, k_qty_signed := stock_direction_signed dir qty \<rparr>)"

definition tx_stock_lines :: "i64 \<Rightarrow> Tx \<Rightarrow> TxStock list" where
  "tx_stock_lines ts tx =
     (let ty = tx_type (t_type tx);
          store = t_store_id tx;
          moved = filter (\<lambda>item. i_qty item \<noteq> 0) (t_items tx)
      in case ty of
           Ty_Sale \<Rightarrow> tx_append_item_stocks ts store ''out'' (t_items tx)
         | Ty_Reservation \<Rightarrow> tx_append_item_stocks ts store ''out'' (t_items tx)
         | Ty_ReturnSale \<Rightarrow> tx_append_item_stocks ts store ''in'' (t_items tx)
         | Ty_ReturnPurchase \<Rightarrow> tx_append_item_stocks ts store ''out'' (t_items tx)
         | Ty_Purchase \<Rightarrow> map (stock_in_line ts store) moved
         | Ty_Inventory \<Rightarrow> map (stock_in_line ts store) moved
         | Ty_Transfer \<Rightarrow> map (stock_transfer_line ts store (t_store_tgt_id tx)) moved
         | Ty_Ship \<Rightarrow> map (stock_transfer_line ts store (t_store_tgt_id tx)) moved
         | Ty_Adjustment \<Rightarrow> map (stock_adjust_line ts store) moved
         | _ \<Rightarrow> [])"

definition stock_in_qty :: "TxStock \<Rightarrow> i32" where
  "stock_in_qty s = (if k_direction s = ''in'' \<or> k_direction s = ''transfer'' then k_qty s else 0)"

definition stock_out_qty :: "TxStock \<Rightarrow> i32" where
  "stock_out_qty s = (if k_direction s = ''out'' \<or> k_direction s = ''transfer'' then k_qty s else 0)"

definition tx_compute_stock :: "i64 \<Rightarrow> Tx \<Rightarrow> Tx" where
  "tx_compute_stock ts tx =
     (let stocks = tx_stock_lines ts tx;
          qty_in = (\<Sum>s\<leftarrow>stocks. stock_in_qty s);
          qty_out = (\<Sum>s\<leftarrow>stocks. stock_out_qty s);
          stocks = map (\<lambda>s. s\<lparr> k_qty_signed := stock_direction_signed (k_direction s) (k_qty s) \<rparr>) stocks
      in tx\<lparr> t_stocks := stocks, t_stock_line_count := of_nat (length stocks),
             t_stock_qty_in := qty_in, t_stock_qty_out := qty_out \<rparr>)"

section \<open>Properties\<close>

definition line_ok :: "TxStock \<Rightarrow> bool" where
  "line_ok s \<longleftrightarrow> k_direction s \<in> {''in'', ''out'', ''transfer''} \<and> k_qty s \<noteq> 0"

lemma line_ok_simps [simp]:
  "line_ok (stock_out_line ts dir p f q) \<longleftrightarrow> dir \<in> {''in'', ''out'', ''transfer''} \<and> q \<noteq> 0"
  "line_ok (stock_in_line ts st i) \<longleftrightarrow> i_qty i \<noteq> 0"
  "line_ok (stock_transfer_line ts st tgt i) \<longleftrightarrow> i_qty i \<noteq> 0"
  "line_ok (stock_adjust_line ts st i) \<longleftrightarrow> i_qty i \<noteq> 0"
  by (auto simp: line_ok_def stock_out_line_def stock_in_line_def stock_transfer_line_def
      stock_adjust_line_def TxStock_default_def Let_def split: if_splits)

lemma append_item_stocks_ok:
  "s \<in> set (tx_append_item_stocks ts st dir items) \<Longrightarrow> dir \<in> {''in'', ''out''} \<Longrightarrow> line_ok s"
  by (auto simp: tx_append_item_stocks_def split: if_splits)

lemma stock_lines_ok: "s \<in> set (tx_stock_lines ts tx) \<Longrightarrow> line_ok s"
  by (auto simp: tx_stock_lines_def Let_def append_item_stocks_ok split: TxType.splits)

lemma signed_in_out:
  "line_ok s \<Longrightarrow> stock_direction_signed (k_direction s) (k_qty s) = stock_in_qty s - stock_out_qty s"
  by (auto simp: line_ok_def stock_direction_signed_def stock_in_qty_def stock_out_qty_def)

lemma sum_list_diff: "(\<Sum>x\<leftarrow>xs. f x - g x :: 'a::ab_group_add) = (\<Sum>x\<leftarrow>xs. f x) - (\<Sum>x\<leftarrow>xs. g x)"
  by (induction xs) simp_all

lemma compute_stock_books:
  fixes ts tx
  defines "y \<equiv> tx_compute_stock ts tx"
  shows "\<forall>k \<in> set (t_stocks y). line_ok k \<and> k_qty_signed k = stock_direction_signed (k_direction k) (k_qty k)"
    and "(\<Sum>k\<leftarrow>t_stocks y. k_qty_signed k) = t_stock_qty_in y - t_stock_qty_out y"
    and "t_stock_line_count y = of_nat (length (t_stocks y))"
proof -
  have "(\<Sum>s\<leftarrow>tx_stock_lines ts tx. stock_direction_signed (k_direction s) (k_qty s)) =
      (\<Sum>s\<leftarrow>tx_stock_lines ts tx. stock_in_qty s - stock_out_qty s)"
    by (rule arg_cong [where f = sum_list], rule map_cong) (auto simp: signed_in_out dest: stock_lines_ok)
  then show "\<forall>k \<in> set (t_stocks y). line_ok k \<and> k_qty_signed k = stock_direction_signed (k_direction k) (k_qty k)"
    "(\<Sum>k\<leftarrow>t_stocks y. k_qty_signed k) = t_stock_qty_in y - t_stock_qty_out y"
    "t_stock_line_count y = of_nat (length (t_stocks y))"
    by (auto simp: y_def tx_compute_stock_def Let_def comp_def sum_list_diff line_ok_def dest: stock_lines_ok)
qed

text \<open>The stock lines of a transaction agree with its totals: every line has a known
  direction, a nonzero quantity and the signed quantity of its direction, and the signed
  quantities sum to what came in less what went out (a transfer counts on both sides).\<close>

theorem tx_compute_stock_consistent:
  "(\<forall>s \<in> set (t_stocks (tx_compute_stock ts tx)). line_ok s \<and>
      k_qty_signed s = stock_direction_signed (k_direction s) (k_qty s)) \<and>
   (\<Sum>s\<leftarrow>t_stocks (tx_compute_stock ts tx). k_qty_signed s) =
     t_stock_qty_in (tx_compute_stock ts tx) - t_stock_qty_out (tx_compute_stock ts tx) \<and>
   t_stock_line_count (tx_compute_stock ts tx) = of_nat (length (t_stocks (tx_compute_stock ts tx)))"
  using compute_stock_books [of ts tx] by simp

theorem tx_compute_stock_consistent_witness:
  "\<exists>tx s. s \<in> set (t_stocks (tx_compute_stock 5 tx)) \<and> line_ok s \<and> k_qty_signed s = - 3 \<and>
     t_stock_qty_in (tx_compute_stock 5 tx) - t_stock_qty_out (tx_compute_stock 5 tx) = - 3"
proof -
  let ?tx = "Tx_default\<lparr> t_type := TxType_i32 Ty_Sale, t_store_id := 9,
    t_items := [TxItem_default\<lparr> i_product_id := 4, i_qty := 3 \<rparr>] \<rparr>"
  let ?s = "hd (t_stocks (tx_compute_stock 5 ?tx))"
  have s: "?s \<in> set (t_stocks (tx_compute_stock 5 ?tx))" by code_simp
  have q: "k_qty_signed ?s = - 3" by code_simp
  have t: "(\<Sum>s\<leftarrow>t_stocks (tx_compute_stock 5 ?tx). k_qty_signed s) = - 3" by code_simp
  show ?thesis
    using s q t tx_compute_stock_consistent [of 5 ?tx] by metis
qed

end
