(* ===== verification/Ledger.thy ===== *)
theory Ledger
  imports Tx_Types
begin

text \<open>
  The double-entry ledger of \<open>servers/crates/mod_tx/src/finalize.rs\<close> (\<open>AccLedger\<close>): signed
  amounts per account code, collected in a hash map, and turned into account lines by
  \<open>build\<close>, which first sends whatever does not sum to zero to the rounding account.

  The iteration order of the hash map is the argument \<open>order\<close> of \<open>build\<close>. The locale
  \<open>posting\<close> is what the posting rules of a transaction need of a ledger: its balance and
  its accounts are additive in the postings. \<open>AccLedger\<close> is interpreted as such a ledger.
\<close>

section \<open>Chart of accounts\<close>

definition COA_CASH :: string where "COA_CASH = ''1001''"
definition COA_BANK :: string where "COA_BANK = ''1002''"
definition COA_EWALLET :: string where "COA_EWALLET = ''1003''"
definition COA_AR :: string where "COA_AR = ''1100''"
definition COA_INVENTORY :: string where "COA_INVENTORY = ''1200''"
definition COA_INPUT_VAT :: string where "COA_INPUT_VAT = ''1400''"
definition COA_AP :: string where "COA_AP = ''2100''"
definition COA_TAX_PAYABLE :: string where "COA_TAX_PAYABLE = ''2200''"
definition COA_WITHHOLDING :: string where "COA_WITHHOLDING = ''2201''"
definition COA_REVENUE :: string where "COA_REVENUE = ''4100''"
definition COA_SALES_DISCOUNT :: string where "COA_SALES_DISCOUNT = ''4200''"
definition COA_PURCHASE_DISC :: string where "COA_PURCHASE_DISC = ''4210''"
definition COA_SALES_RETURNS :: string where "COA_SALES_RETURNS = ''4300''"
definition COA_ROUNDING :: string where "COA_ROUNDING = ''6200''"
definition COA_INTEREST :: string where "COA_INTEREST = ''7100''"

lemmas coa_defs = COA_CASH_def COA_BANK_def COA_EWALLET_def COA_AR_def COA_INVENTORY_def
  COA_INPUT_VAT_def COA_AP_def COA_TAX_PAYABLE_def COA_WITHHOLDING_def COA_REVENUE_def
  COA_SALES_DISCOUNT_def COA_PURCHASE_DISC_def COA_SALES_RETURNS_def COA_ROUNDING_def
  COA_INTEREST_def

lemma coa_distinct:
  "distinct [COA_CASH, COA_BANK, COA_EWALLET, COA_AR, COA_INVENTORY, COA_INPUT_VAT,
     COA_AP, COA_TAX_PAYABLE, COA_WITHHOLDING, COA_REVENUE, COA_SALES_DISCOUNT,
     COA_PURCHASE_DISC, COA_SALES_RETURNS, COA_ROUNDING, COA_INTEREST]"
  by (simp add: coa_defs)

lemma coa_distinct_rev:
  "distinct [COA_INTEREST, COA_ROUNDING, COA_SALES_RETURNS, COA_PURCHASE_DISC, COA_SALES_DISCOUNT, COA_REVENUE,
     COA_WITHHOLDING, COA_TAX_PAYABLE, COA_AP, COA_INPUT_VAT, COA_INVENTORY,
     COA_AR, COA_EWALLET, COA_BANK, COA_CASH]"
  by (simp add: coa_defs)

lemmas coa_ne [simp] = coa_distinct [simplified] coa_distinct_rev [simplified]

section \<open>The ledger\<close>

record AccLedger =
  l_amounts :: "(string \<times> i64) list"
  l_note :: string

definition AccLedger_new :: AccLedger where
  "AccLedger_new = \<lparr> l_amounts = [], l_note = [] \<rparr>"

definition ledger_balance :: "AccLedger \<Rightarrow> i64" where
  "ledger_balance l = sum_list (map snd (l_amounts l))"

definition ledger_add :: "string \<Rightarrow> i64 \<Rightarrow> AccLedger \<Rightarrow> AccLedger" where
  "ledger_add code amount l =
     (if amount = 0 then l
      else l\<lparr> l_amounts := hm_insert code
                (case map_of (l_amounts l) code of None \<Rightarrow> 0 + amount | Some v \<Rightarrow> v + amount) (l_amounts l) \<rparr>)"

definition build_line :: "i64 \<Rightarrow> string \<Rightarrow> string \<times> i64 \<Rightarrow> TxAcc" where
  "build_line ts_ms nt e = (case e of (code, amount) \<Rightarrow>
     (let (side, amt) = (if amount <s 0 then (Side_Credit, - amount) else (Side_Debit, amount))
      in TxAcc_default\<lparr> a_acc_code := code, a_ts_ms := ts_ms, a_side := TxAccSide_i32 side,
                        a_amount := amt, a_note := nt, a_is_tx_generated := True \<rparr>))"

definition ledger_settle :: "AccLedger \<Rightarrow> AccLedger" where
  "ledger_settle l =
     (let sum = ledger_balance l in if sum \<noteq> 0 then ledger_add COA_ROUNDING (- sum) l else l)"

definition ledger_build ::
  "((string \<times> i64) list \<Rightarrow> (string \<times> i64) list) \<Rightarrow> i64 \<Rightarrow> AccLedger \<Rightarrow> AccLedger \<times> TxAcc list" where
  "ledger_build order ts_ms l =
     (let l' = ledger_settle l
      in (l', map (build_line ts_ms (l_note l'))
                (filter (\<lambda>(code, amount). amount \<noteq> 0) (order (l_amounts l')))))"

definition acc_signed_amount :: "TxAcc \<Rightarrow> i64" where
  "acc_signed_amount a =
     (let side = (case TxAccSide_try_from (a_side a) of Some s \<Rightarrow> s | None \<Rightarrow> Side_Unspecified)
      in if side = Side_Credit then - a_amount a else a_amount a)"

text \<open>The amount an account holds, and what the lines of a transaction say of it.\<close>

definition ledger_amount :: "AccLedger \<Rightarrow> string \<Rightarrow> i64" where
  "ledger_amount l code = (case map_of (l_amounts l) code of None \<Rightarrow> 0 | Some v \<Rightarrow> v)"

definition ledger_wf :: "AccLedger \<Rightarrow> bool" where
  "ledger_wf l \<longleftrightarrow> distinct (map fst (l_amounts l))"

definition acc_total :: "TxAcc list \<Rightarrow> i64" where
  "acc_total accs = sum_list (map acc_signed_amount accs)"

definition acc_code_total :: "string \<Rightarrow> TxAcc list \<Rightarrow> i64" where
  "acc_code_total code accs = acc_total (filter (\<lambda>a. a_acc_code a = code) accs)"

section \<open>The posting contract\<close>

locale posting =
  fixes empty :: 'l
    and add :: "string \<Rightarrow> i64 \<Rightarrow> 'l \<Rightarrow> 'l"
    and balance :: "'l \<Rightarrow> i64"
    and amount :: "'l \<Rightarrow> string \<Rightarrow> i64"
    and wf :: "'l \<Rightarrow> bool"
  assumes wf_empty: "wf empty"
    and balance_empty: "balance empty = 0"
    and amount_empty: "amount empty c = 0"
    and wf_add: "wf l \<Longrightarrow> wf (add c a l)"
    and balance_add: "wf l \<Longrightarrow> balance (add c a l) = balance l + a"
    and amount_add: "wf l \<Longrightarrow> amount (add c a l) c' = amount l c' + (if c' = c then a else 0)"
begin

definition post :: "(string \<times> i64) list \<Rightarrow> 'l \<Rightarrow> 'l" where
  "post es l = fold (\<lambda>(c, a) l. add c a l) es l"

lemma post_Nil: "post [] l = l"
  by (simp add: post_def)

lemma post_Cons: "post (e # es) l = post es (add (fst e) (snd e) l)"
  by (cases e) (simp add: post_def)

lemma post_append: "post (es @ fs) l = post fs (post es l)"
  by (simp add: post_def)

lemma wf_post: "wf l \<Longrightarrow> wf (post es l)"
  by (induction es arbitrary: l) (auto simp: post_Nil post_Cons wf_add)

lemma balance_post: "wf l \<Longrightarrow> balance (post es l) = balance l + sum_list (map snd es)"
  by (induction es arbitrary: l) (auto simp: post_Nil post_Cons wf_add balance_add)

lemma amount_post:
  "wf l \<Longrightarrow> amount (post es l) c = amount l c + sum_list (map snd (filter (\<lambda>e. fst e = c) es))"
  by (induction es arbitrary: l) (auto simp: post_Nil post_Cons wf_add amount_add)

lemma untouched_post: "wf l \<Longrightarrow> c \<notin> fst ` set es \<Longrightarrow> amount (post es l) c = amount l c"
  by (subst amount_post; simp) (metis (mono_tags, lifting) filter_False image_eqI list.simps(8) sum_list.Nil)

end

lemma sum_list_hm_insert:
  fixes m :: "('k \<times> 'a::ab_group_add) list"
  assumes "distinct (map fst m)"
  shows "sum_list (map snd (hm_insert k v m)) =
    sum_list (map snd m) - (case map_of m k of None \<Rightarrow> 0 | Some w \<Rightarrow> w) + v"
  using assms
proof (induction m)
  case (Cons e m)
  then show ?case
    by (cases e) (auto simp: algebra_simps map_of_eq_None_iff split: option.splits)
qed simp

interpretation ldg: posting AccLedger_new ledger_add ledger_balance ledger_amount ledger_wf
proof (unfold_locales, goal_cases)
  case (5 l c a)
  then show ?case
    by (auto simp: ledger_add_def ledger_balance_def ledger_wf_def sum_list_hm_insert
        split: option.splits)
next
  case (6 l c a c')
  then show ?case by (auto simp: ledger_add_def ledger_amount_def split: option.splits)
qed (auto simp: AccLedger_new_def ledger_wf_def ledger_balance_def ledger_amount_def ledger_add_def)

lemmas posting_simps = ldg.wf_add ldg.balance_add ldg.amount_add

lemma note_ledger_add [simp]: "l_note (ledger_add c a l) = l_note l"
  by (simp add: ledger_add_def)

lemma note_update_simps [simp]:
  "ledger_balance (l\<lparr>l_note := n\<rparr>) = ledger_balance l"
  "ledger_amount (l\<lparr>l_note := n\<rparr>) = ledger_amount l"
  "ledger_wf (l\<lparr>l_note := n\<rparr>) = ledger_wf l"
  by (auto simp: ledger_balance_def ledger_amount_def ledger_wf_def)

lemma AccLedger_new_simps [simp]:
  "ledger_wf AccLedger_new" "ledger_balance AccLedger_new = 0" "ledger_amount AccLedger_new c = 0"
  by (simp_all add: ldg.wf_empty ldg.balance_empty ldg.amount_empty)

section \<open>Lines of a ledger\<close>

lemma build_line_simps [simp]:
  "a_acc_code (build_line ts nt e) = fst e"
  "a_ts_ms (build_line ts nt e) = ts"
  "a_note (build_line ts nt e) = nt"
  "a_is_tx_generated (build_line ts nt e)"
  "a_acc_id (build_line ts nt e) = 0"
  by (cases e; simp add: build_line_def TxAcc_default_def Let_def split: if_splits)+

lemma build_line_signed [simp]: "acc_signed_amount (build_line ts nt e) = snd e"
  by (cases e) (simp add: build_line_def acc_signed_amount_def TxAccSide_try_from_def Let_def)

text \<open>A line carries a positive amount, except that \<open>i64::MIN\<close> is its own negation.\<close>

lemma build_line_amount:
  assumes "snd e \<noteq> 0"
  shows "0 <s a_amount (build_line ts nt e) \<or> a_amount (build_line ts nt e) = word_of_int (- (2 ^ 63))"
proof (cases "snd e <s 0")
  case True
  then have "a_amount (build_line ts nt e) = - snd e"
    by (cases e) (simp add: build_line_def)
  moreover have "- word_of_int (- (2 ^ 63)) = (word_of_int (- (2 ^ 63)) :: i64)" by simp
  ultimately show ?thesis using sneg_pos [OF True] by metis
next
  case False
  then have "a_amount (build_line ts nt e) = snd e"
    by (cases e) (simp add: build_line_def)
  moreover have "0 <s snd e" using False assms by (metis signed.neqE)
  ultimately show ?thesis by simp
qed

lemma build_line_side:
  "a_side (build_line ts nt e) = TxAccSide_i32 (if snd e <s 0 then Side_Credit else Side_Debit)"
  by (cases e) (simp add: build_line_def)

lemma settle_wf [simp]: "ledger_wf l \<Longrightarrow> ledger_wf (ledger_settle l)"
  by (simp add: ledger_settle_def Let_def posting_simps)

lemma settle_balance [simp]: "ledger_wf l \<Longrightarrow> ledger_balance (ledger_settle l) = 0"
  by (simp add: ledger_settle_def Let_def posting_simps)

lemma settle_amount:
  "ledger_wf l \<Longrightarrow> ledger_amount (ledger_settle l) c =
     ledger_amount l c - (if c = COA_ROUNDING then ledger_balance l else 0)"
  by (simp add: ledger_settle_def Let_def posting_simps)

lemma settle_note [simp]: "l_note (ledger_settle l) = l_note l"
  by (simp add: ledger_settle_def Let_def)

text \<open>The lines of \<open>build\<close>: sum zero, one line per account, each account's line carries the
  account's settled amount.\<close>

lemma sum_list_nonzero_entries:
  "(\<Sum>e\<leftarrow>filter (\<lambda>(c, a). a \<noteq> 0) m. snd e) = (\<Sum>e\<leftarrow>m. snd e :: 'a::comm_monoid_add)"
  by (induction m) auto

lemma sum_list_nonzero_key:
  "(\<Sum>e\<leftarrow>filter (\<lambda>e. fst e = c) (filter (\<lambda>(c, a). a \<noteq> 0) m). snd e) =
   (\<Sum>e\<leftarrow>filter (\<lambda>e. fst e = c) m. snd e :: 'a::comm_monoid_add)"
  by (induction m) auto

lemma build_total:
  assumes "ledger_wf l" and "permuting order"
  shows "acc_total (snd (ledger_build order ts l)) = 0"
proof -
  have "acc_total (snd (ledger_build order ts l)) = sum_list (map snd (order (l_amounts (ledger_settle l))))"
    by (simp add: acc_total_def ledger_build_def Let_def comp_def sum_list_nonzero_entries)
  also have "\<dots> = ledger_balance (ledger_settle l)"
    using assms(2) by (simp add: ledger_balance_def permuting_sum_list)
  finally show ?thesis using assms(1) by simp
qed

lemma map_code_build:
  "map a_acc_code (snd (ledger_build order ts l)) =
     map fst (filter (\<lambda>(c, a). a \<noteq> 0) (order (l_amounts (ledger_settle l))))"
  by (simp add: ledger_build_def Let_def comp_def)

lemma build_codes_distinct:
  assumes "ledger_wf l" and "permuting order"
  shows "distinct (map a_acc_code (snd (ledger_build order ts l)))"
proof -
  have "distinct (map fst (order (l_amounts (ledger_settle l))))"
    using assms settle_wf [OF assms(1)] by (simp add: permuting_distinct_map ledger_wf_def)
  then show ?thesis by (simp only: map_code_build distinct_map_filter)
qed

lemma sum_list_filter_key:
  assumes "distinct (map fst m)"
  shows "(\<Sum>e\<leftarrow>filter (\<lambda>e. fst e = c) m. snd e) = (case map_of m c of None \<Rightarrow> 0 | Some v \<Rightarrow> v)"
  using assms
proof (induction m)
  case (Cons e m)
  then show ?case
    by (cases e) (auto simp: map_of_eq_None_iff filter_empty_conv rev_image_eqI split: option.splits)
qed simp

lemma build_code_total:
  assumes "ledger_wf l" and "permuting order"
  shows "acc_code_total c (snd (ledger_build order ts l)) =
    ledger_amount l c - (if c = COA_ROUNDING then ledger_balance l else 0)"
proof -
  let ?m = "order (l_amounts (ledger_settle l))"
  have d: "distinct (map fst ?m)"
    using assms settle_wf [OF assms(1)] by (simp add: permuting_distinct_map ledger_wf_def)
  have "map_of ?m = map_of (l_amounts (ledger_settle l))"
    using d settle_wf [OF assms(1)]
    by (simp add: map_of_inject_set ledger_wf_def permuting_set [OF assms(2)])
  then have "(\<Sum>e\<leftarrow>filter (\<lambda>e. fst e = c) ?m. snd e) = ledger_amount (ledger_settle l) c"
    by (simp only: sum_list_filter_key [OF d] ledger_amount_def)
  moreover have "acc_code_total c (snd (ledger_build order ts l)) =
      (\<Sum>e\<leftarrow>filter (\<lambda>e. fst e = c) ?m. snd e)"
    by (simp add: acc_code_total_def acc_total_def ledger_build_def Let_def filter_map comp_def
        sum_list_nonzero_key del: filter_filter)
  ultimately show ?thesis by (simp only: settle_amount [OF assms(1)])
qed

lemma build_lines:
  assumes "a \<in> set (snd (ledger_build order ts l))"
  shows "a_is_tx_generated a" "a_ts_ms a = ts" "a_note a = l_note l" "acc_signed_amount a \<noteq> 0"
    "0 <s a_amount a \<or> a_amount a = word_of_int (- (2 ^ 63))"
    "a_side a = TxAccSide_i32 Side_Credit \<or> a_side a = TxAccSide_i32 Side_Debit"
proof -
  from assms obtain e where a: "a = build_line ts (l_note l) e" and e: "snd e \<noteq> 0"
    by (auto simp: ledger_build_def Let_def)
  show "a_is_tx_generated a" "a_ts_ms a = ts" "a_note a = l_note l" "acc_signed_amount a \<noteq> 0"
    by (simp_all add: a e)
  show "0 <s a_amount a \<or> a_amount a = word_of_int (- (2 ^ 63))"
    unfolding a by (rule build_line_amount [OF e])
  show "a_side a = TxAccSide_i32 Side_Credit \<or> a_side a = TxAccSide_i32 Side_Debit"
    by (simp only: a build_line_side split: if_splits) simp
qed

end
