(* ===== verification/Tx_Accs.thy ===== *)
theory Tx_Accs
  imports Ledger Tx_Totals
begin

text \<open>
  The accounting half of \<open>tx_finalize\<close> (\<open>servers/crates/mod_tx/src/finalize.rs\<close>): which
  accounts a transaction posts to, by type, and the meta fields of the account lines.
  Manual lines are kept; generated lines are rebuilt from the ledger.
\<close>

type_synonym coa_order = "(string \<times> i64) list \<Rightarrow> (string \<times> i64) list"

definition bool_sign :: "bool \<Rightarrow> i64 \<Rightarrow> i64" where
  "bool_sign is_return amount = (if is_return then amount else - amount)"

section \<open>Account codes and notes\<close>

definition tx_tax_acc_code :: "TxTax \<Rightarrow> bool \<Rightarrow> string" where
  "tx_tax_acc_code t purchase =
     (let typ = to_lowercase (x_tax_type t)
      in if str_contains typ ''pph'' \<or> str_contains typ ''withhold'' then COA_WITHHOLDING
         else if str_contains typ ''masukan'' \<or> str_contains typ ''input'' then COA_INPUT_VAT
         else if purchase then COA_INPUT_VAT else COA_TAX_PAYABLE)"

definition tx_payment_acc_code :: "TxPayment \<Rightarrow> string" where
  "tx_payment_acc_code p =
     (case tx_payment_method (p_method p) of
        Pm_Cash \<Rightarrow> COA_CASH
      | Pm_Card \<Rightarrow> COA_BANK
      | Pm_Transfer \<Rightarrow> COA_BANK
      | Pm_Qris \<Rightarrow> COA_EWALLET
      | Pm_Debt \<Rightarrow> COA_AR
      | _ \<Rightarrow> COA_CASH)"

fun tx_acc_type_label :: "TxType \<Rightarrow> string" where
  "tx_acc_type_label Ty_Sale = ''Penjualan''"
| "tx_acc_type_label Ty_Purchase = ''Pembelian''"
| "tx_acc_type_label Ty_Transfer = ''Transfer''"
| "tx_acc_type_label Ty_Adjustment = ''Penyesuaian''"
| "tx_acc_type_label Ty_ReturnSale = ''Retur Jual''"
| "tx_acc_type_label Ty_ReturnPurchase = ''Retur Beli''"
| "tx_acc_type_label Ty_Reservation = ''Reservasi''"
| "tx_acc_type_label Ty_Ship = ''Kirim''"
| "tx_acc_type_label Ty_Payment = ''Pembayaran''"
| "tx_acc_type_label Ty_Receipt = ''Penerimaan''"
| "tx_acc_type_label Ty_DebtPayable = ''Hutang''"
| "tx_acc_type_label Ty_DebtReceivable = ''Piutang''"
| "tx_acc_type_label Ty_Inventory = ''Persediaan''"
| "tx_acc_type_label Ty_Unspecified = ''Transaksi''"

fun tx_acc_subject_prep :: "TxType \<Rightarrow> string" where
  "tx_acc_subject_prep Ty_Purchase = ''dari''"
| "tx_acc_subject_prep Ty_ReturnPurchase = ''dari''"
| "tx_acc_subject_prep Ty_Receipt = ''dari''"
| "tx_acc_subject_prep _ = ''ke''"

definition tx_acc_generated_note :: "Tx \<Rightarrow> string" where
  "tx_acc_generated_note tx =
     (let ty = tx_type (t_type tx);
          label = tx_acc_type_label ty;
          subject = trim (t_subject_name tx);
          base = (if subject = [] then label
                  else label @ '' '' @ tx_acc_subject_prep ty @ '' '' @ subject);
          desc = trim (t_desc tx)
      in if desc = [] \<or> eq_ignore_ascii_case desc base \<or> eq_ignore_ascii_case desc subject then base
         else base @ '' '' @ [CHR 0xB7] @ '' '' @ desc)"

section \<open>Posting rules\<close>

definition ledger_add_tax :: "TxTax \<Rightarrow> bool \<Rightarrow> AccLedger \<Rightarrow> AccLedger" where
  "ledger_add_tax t purchase l =
     (let code = tx_tax_acc_code t purchase;
          sign = (if purchase \<and> code = COA_INPUT_VAT then 1 else - 1)
      in ledger_add code (x_amount t * sign) l)"

definition ledger_add_discount :: "TxDiscount \<Rightarrow> bool \<Rightarrow> AccLedger \<Rightarrow> AccLedger" where
  "ledger_add_discount d purchase l =
     (let code = (if purchase then COA_PURCHASE_DISC else COA_SALES_DISCOUNT);
          amt = (if purchase then - c_amount d else c_amount d)
      in ledger_add code amt l)"

definition tx_acc_revenue_line :: "i64 \<Rightarrow> bool \<Rightarrow> bool \<Rightarrow> AccLedger \<Rightarrow> AccLedger" where
  "tx_acc_revenue_line gross is_return purchase l =
     (if purchase then l
      else let code = (if is_return then COA_SALES_RETURNS else COA_REVENUE)
           in ledger_add code (bool_sign is_return gross) l)"

definition tx_acc_payments :: "Tx \<Rightarrow> bool \<Rightarrow> AccLedger \<Rightarrow> AccLedger" where
  "tx_acc_payments tx inflow l =
     fold (\<lambda>p l. if p_amount p = 0 then l
                else ledger_add (tx_payment_acc_code p)
                       (if inflow then p_amount p else - p_amount p) l)
       (t_payments tx) l"

definition tx_balance_unpaid :: "bool \<Rightarrow> bool \<Rightarrow> AccLedger \<Rightarrow> AccLedger" where
  "tx_balance_unpaid purchase is_return l =
     (let remaining = ledger_balance l
      in if remaining = 0 then l
         else if purchase then ledger_add COA_AP (bool_sign is_return remaining) l
         else ledger_add COA_AR (bool_sign is_return remaining) l)"

definition tx_acc_interest :: "Tx \<Rightarrow> bool \<Rightarrow> AccLedger \<Rightarrow> AccLedger" where
  "tx_acc_interest tx is_return l =
     fold (\<lambda>p l. if tx_payment_method (p_method p) \<noteq> Pm_Debt \<or> p_debt_interest p = 0 then l
                else let interest = p_debt_interest p
                     in ledger_add COA_INTEREST (bool_sign (\<not> is_return) interest)
                          (ledger_add (tx_payment_acc_code p) (bool_sign is_return interest) l))
       (t_payments tx) l"

definition tx_acc_sale_or_return :: "Tx \<Rightarrow> i64 \<Rightarrow> bool \<Rightarrow> AccLedger \<Rightarrow> AccLedger" where
  "tx_acc_sale_or_return tx gross is_return l =
     (let l = (if gross \<noteq> 0 then tx_acc_revenue_line gross is_return False l else l);
          l = fold (\<lambda>d. ledger_add_discount d False) (t_discounts tx) l;
          l = fold (\<lambda>t. ledger_add_tax t False) (t_taxes tx) l;
          l = tx_acc_payments tx (\<not> is_return) l;
          l = tx_balance_unpaid False is_return l
      in tx_acc_interest tx is_return l)"

definition tx_acc_purchase :: "Tx \<Rightarrow> i64 \<Rightarrow> bool \<Rightarrow> AccLedger \<Rightarrow> AccLedger" where
  "tx_acc_purchase tx gross is_return l =
     (let l = (if gross \<noteq> 0 then ledger_add COA_INVENTORY (if is_return then - gross else gross) l
               else l);
          l = fold (\<lambda>d l. if is_return then ledger_add COA_PURCHASE_DISC (c_amount d) l
                          else ledger_add_discount d True l) (t_discounts tx) l;
          l = fold (\<lambda>t l. if is_return
                          then let code = tx_tax_acc_code t True;
                                   sign = (if code = COA_INPUT_VAT then 1 else - 1)
                               in ledger_add code (- x_amount t * sign) l
                          else ledger_add_tax t True l) (t_taxes tx) l;
          l = tx_acc_payments tx is_return l
      in tx_balance_unpaid True is_return l)"

definition tx_debt_principal :: "Tx \<Rightarrow> i64" where
  "tx_debt_principal tx =
     (if 0 <s t_debt_total tx then t_debt_total tx
      else let sum = (\<Sum>p\<leftarrow>filter is_debt (t_payments tx). p_amount p)
           in if 0 <s sum then sum else t_total tx)"

definition tx_acc_standalone_debt_receivable :: "i64 \<Rightarrow> AccLedger \<Rightarrow> AccLedger" where
  "tx_acc_standalone_debt_receivable amount l =
     ledger_add COA_AR amount (tx_acc_revenue_line amount False False l)"

definition tx_acc_standalone_debt_payable :: "i64 \<Rightarrow> AccLedger \<Rightarrow> AccLedger" where
  "tx_acc_standalone_debt_payable amount l =
     ledger_add COA_AP (- amount) (ledger_add COA_INVENTORY amount l)"

definition tx_cash_movement_amount :: "Tx \<Rightarrow> i64" where
  "tx_cash_movement_amount tx =
     (case find (\<lambda>p. tx_payment_method (p_method p) \<noteq> Pm_Debt \<and> 0 <s p_amount p) (t_payments tx) of
        Some p \<Rightarrow> p_amount p
      | None \<Rightarrow> if 0 <s t_total tx then t_total tx else tx_debt_principal tx)"

definition tx_cash_acc_code :: "Tx \<Rightarrow> string" where
  "tx_cash_acc_code tx =
     (case find (\<lambda>p. p_amount p \<noteq> 0) (t_payments tx) of
        Some p \<Rightarrow> tx_payment_acc_code p
      | None \<Rightarrow> COA_CASH)"

definition new_ledger :: "Tx \<Rightarrow> AccLedger" where
  "new_ledger tx = AccLedger_new\<lparr> l_note := tx_acc_generated_note tx \<rparr>"

definition tx_acc_cash_movement :: "coa_order \<Rightarrow> Tx \<Rightarrow> i64 \<Rightarrow> bool \<Rightarrow> TxAcc list" where
  "tx_acc_cash_movement order tx ts receipt =
     (let amount = tx_cash_movement_amount tx
      in if amount \<le>s 0 then []
         else let l = new_ledger tx;
                  cash_code = tx_cash_acc_code tx;
                  l = (if receipt then ledger_add COA_AR (- amount) (ledger_add cash_code amount l)
                       else ledger_add cash_code (- amount) (ledger_add COA_AP amount l))
              in snd (ledger_build order ts l))"

definition tx_compute_generated_accs :: "coa_order \<Rightarrow> Tx \<Rightarrow> i64 \<Rightarrow> i64 \<Rightarrow> TxAcc list" where
  "tx_compute_generated_accs order tx gross ts =
     (let ty = tx_type (t_type tx)
      in case ty of
           Ty_Payment \<Rightarrow> tx_acc_cash_movement order tx ts False
         | Ty_Receipt \<Rightarrow> tx_acc_cash_movement order tx ts True
         | Ty_DebtReceivable \<Rightarrow>
             (let amount = tx_debt_principal tx
              in if 0 <s amount
                 then snd (ledger_build order ts (tx_acc_standalone_debt_receivable amount (new_ledger tx)))
                 else [])
         | Ty_DebtPayable \<Rightarrow>
             (let amount = tx_debt_principal tx
              in if 0 <s amount
                 then snd (ledger_build order ts (tx_acc_standalone_debt_payable amount (new_ledger tx)))
                 else [])
         | _ \<Rightarrow>
             (let l = new_ledger tx;
                  l = (case ty of
                         Ty_Sale \<Rightarrow> tx_acc_sale_or_return tx gross False l
                       | Ty_Reservation \<Rightarrow> tx_acc_sale_or_return tx gross False l
                       | Ty_ReturnSale \<Rightarrow> tx_acc_sale_or_return tx gross True l
                       | Ty_Purchase \<Rightarrow> tx_acc_purchase tx gross False l
                       | Ty_ReturnPurchase \<Rightarrow> tx_acc_purchase tx gross True l
                       | _ \<Rightarrow> if gross \<noteq> 0 then tx_acc_revenue_line gross False False l else l)
              in snd (ledger_build order ts l)))"

section \<open>Account lines of a transaction\<close>

definition tx_manual_accs_balanced :: "TxAcc list \<Rightarrow> bool" where
  "tx_manual_accs_balanced accs =
     (if length accs < 2 then False else (\<Sum>a\<leftarrow>accs. acc_signed_amount a) = 0)"

definition tx_acc_skip_generated :: "TxAcc list \<Rightarrow> TxType \<Rightarrow> bool" where
  "tx_acc_skip_generated manual ty =
     (if manual = [] then False
      else case ty of
             Ty_Payment \<Rightarrow> tx_manual_accs_balanced manual
           | Ty_Receipt \<Rightarrow> tx_manual_accs_balanced manual
           | _ \<Rightarrow> False)"

definition tx_items_gross :: "Tx \<Rightarrow> i64" where
  "tx_items_gross tx =
     (\<Sum>item\<leftarrow>t_items tx. if i_total_price item \<noteq> 0 then i_total_price item
                         else i_price item * scast (i_qty item))"

definition tx_compute_accs :: "coa_order \<Rightarrow> i64 \<Rightarrow> Tx \<Rightarrow> Tx" where
  "tx_compute_accs order ts tx =
     (let manual = filter (\<lambda>a. \<not> a_is_tx_generated a) (t_accs tx);
          ty = tx_type (t_type tx)
      in if tx_acc_skip_generated manual ty then tx\<lparr> t_accs := manual \<rparr>
         else let gross = tx_items_gross tx;
                  generated = tx_compute_generated_accs order tx gross ts
              in tx\<lparr> t_accs := manual @ generated \<rparr>)"

definition tx_compute_acc_meta :: "Tx \<Rightarrow> Tx" where
  "tx_compute_acc_meta tx =
     (let sum = (\<Sum>acc\<leftarrow>t_accs tx. acc_signed_amount acc);
          manual = (of_nat (length (filter (\<lambda>acc. \<not> a_is_tx_generated acc) (t_accs tx))) :: i32)
      in tx\<lparr> t_acc_line_count := of_nat (length (t_accs tx)), t_acc_sum := sum,
             t_acc_balanced := (sum = 0), t_has_manual_lines := (0 <s manual) \<rparr>)"

section \<open>Posting rules as lists of postings\<close>

text \<open>Every rule is a list of postings, so the contract of \<open>posting\<close> gives its effect on the
  balance and on each account.\<close>

lemma ledger_add_0 [simp]: "ledger_add c 0 l = l"
  by (simp add: ledger_add_def)

lemma bool_sign_0 [simp]: "bool_sign b 0 = 0"
  by (simp add: bool_sign_def)

definition payment_entries :: "Tx \<Rightarrow> bool \<Rightarrow> (string \<times> i64) list" where
  "payment_entries tx inflow =
     map (\<lambda>p. (tx_payment_acc_code p, if inflow then p_amount p else - p_amount p)) (t_payments tx)"

definition sale_entries :: "Tx \<Rightarrow> i64 \<Rightarrow> bool \<Rightarrow> (string \<times> i64) list" where
  "sale_entries tx gross is_return =
     (if is_return then COA_SALES_RETURNS else COA_REVENUE, bool_sign is_return gross) #
     map (\<lambda>d. (COA_SALES_DISCOUNT, c_amount d)) (t_discounts tx) @
     map (\<lambda>t. (tx_tax_acc_code t False, - x_amount t)) (t_taxes tx) @
     payment_entries tx (\<not> is_return)"

definition interest_entries :: "Tx \<Rightarrow> bool \<Rightarrow> (string \<times> i64) list" where
  "interest_entries tx is_return =
     concat (map (\<lambda>p. [(COA_AR, bool_sign is_return (p_debt_interest p)),
                       (COA_INTEREST, bool_sign (\<not> is_return) (p_debt_interest p))])
              (filter is_debt (t_payments tx)))"

definition purchase_tax_sign :: "TxTax \<Rightarrow> i64" where
  "purchase_tax_sign t = (if tx_tax_acc_code t True = COA_INPUT_VAT then 1 else - 1)"

definition purchase_entries :: "Tx \<Rightarrow> i64 \<Rightarrow> bool \<Rightarrow> (string \<times> i64) list" where
  "purchase_entries tx gross is_return =
     (COA_INVENTORY, if is_return then - gross else gross) #
     map (\<lambda>d. (COA_PURCHASE_DISC, if is_return then c_amount d else - c_amount d)) (t_discounts tx) @
     map (\<lambda>t. (tx_tax_acc_code t True,
               (if is_return then - x_amount t else x_amount t) * purchase_tax_sign t)) (t_taxes tx) @
     payment_entries tx is_return"

lemma tx_acc_payments_post: "tx_acc_payments tx inflow l = ldg.post (payment_entries tx inflow) l"
proof -
  have "fold (\<lambda>p l. if p_amount p = 0 then l
               else ledger_add (tx_payment_acc_code p) (if inflow then p_amount p else - p_amount p) l) ps l =
      ldg.post (map (\<lambda>p. (tx_payment_acc_code p, if inflow then p_amount p else - p_amount p)) ps) l" for ps
    by (induction ps arbitrary: l) (simp_all add: ldg.post_Nil ldg.post_Cons)
  then show ?thesis by (simp add: tx_acc_payments_def payment_entries_def)
qed

lemma fold_discounts_post:
  "fold (\<lambda>d. ledger_add_discount d False) ds l = ldg.post (map (\<lambda>d. (COA_SALES_DISCOUNT, c_amount d)) ds) l"
  by (induction ds arbitrary: l) (simp_all add: ldg.post_Nil ldg.post_Cons ledger_add_discount_def)

lemma fold_taxes_post:
  "fold (\<lambda>t. ledger_add_tax t False) ts l =
     ldg.post (map (\<lambda>t. (tx_tax_acc_code t False, - x_amount t)) ts) l"
  by (induction ts arbitrary: l) (simp_all add: ldg.post_Nil ldg.post_Cons ledger_add_tax_def Let_def)

lemma payment_acc_debt: "is_debt p \<Longrightarrow> tx_payment_acc_code p = COA_AR"
  by (simp add: is_debt_def tx_payment_acc_code_def)

lemma tx_acc_interest_post: "tx_acc_interest tx r l = ldg.post (interest_entries tx r) l"
proof -
  have "fold (\<lambda>p l. if tx_payment_method (p_method p) \<noteq> Pm_Debt \<or> p_debt_interest p = 0 then l
                else let interest = p_debt_interest p
                     in ledger_add COA_INTEREST (bool_sign (\<not> r) interest)
                          (ledger_add (tx_payment_acc_code p) (bool_sign r interest) l)) ps l =
      ldg.post (concat (map (\<lambda>p. [(COA_AR, bool_sign r (p_debt_interest p)),
                       (COA_INTEREST, bool_sign (\<not> r) (p_debt_interest p))])
              (filter is_debt ps))) l" for ps
    by (induction ps arbitrary: l)
      (auto simp: ldg.post_Nil ldg.post_Cons is_debt_def Let_def tx_payment_acc_code_def)
  then show ?thesis by (simp add: tx_acc_interest_def interest_entries_def)
qed

lemma tx_acc_sale_post:
  "tx_acc_sale_or_return tx gross r l =
     ldg.post (interest_entries tx r) (tx_balance_unpaid False r (ldg.post (sale_entries tx gross r) l))"
  by (auto simp: tx_acc_sale_or_return_def sale_entries_def tx_acc_interest_post tx_acc_payments_post
      fold_discounts_post fold_taxes_post ldg.post_append ldg.post_Cons tx_acc_revenue_line_def Let_def)

lemma tx_acc_purchase_post:
  "tx_acc_purchase tx gross r l = tx_balance_unpaid True r (ldg.post (purchase_entries tx gross r) l)"
proof -
  have d: "fold (\<lambda>d l. if r then ledger_add COA_PURCHASE_DISC (c_amount d) l
                       else ledger_add_discount d True l) ds l =
      ldg.post (map (\<lambda>d. (COA_PURCHASE_DISC, if r then c_amount d else - c_amount d)) ds) l" for ds l
    by (induction ds arbitrary: l) (simp_all add: ldg.post_Nil ldg.post_Cons ledger_add_discount_def)
  have t: "fold (\<lambda>t l. if r then let code = tx_tax_acc_code t True;
                                     sign = (if code = COA_INPUT_VAT then 1 else - 1)
                                 in ledger_add code (- x_amount t * sign) l
                       else ledger_add_tax t True l) ts l =
      ldg.post (map (\<lambda>t. (tx_tax_acc_code t True,
               (if r then - x_amount t else x_amount t) * purchase_tax_sign t)) ts) l" for ts l
    by (induction ts arbitrary: l)
      (simp_all add: ldg.post_Nil ldg.post_Cons ledger_add_tax_def Let_def purchase_tax_sign_def)
  show ?thesis
    by (auto simp: tx_acc_purchase_def purchase_entries_def d t tx_acc_payments_post
        ldg.post_append ldg.post_Cons)
qed

text \<open>Codes a rule can post to; the rounding account is never one of them.\<close>

lemma tax_code_not_rounding [simp]: "tx_tax_acc_code t b \<noteq> COA_ROUNDING"
  by (simp add: tx_tax_acc_code_def Let_def coa_defs)

lemma payment_code_not_rounding [simp]: "tx_payment_acc_code p \<noteq> COA_ROUNDING"
  by (simp add: tx_payment_acc_code_def coa_defs split: TxPaymentMethod.splits)

lemma rounding_not_posted:
  "COA_ROUNDING \<notin> fst ` set (sale_entries tx g r)"
  "COA_ROUNDING \<notin> fst ` set (purchase_entries tx g r)"
  "COA_ROUNDING \<notin> fst ` set (interest_entries tx r)"
  by (auto simp: sale_entries_def purchase_entries_def interest_entries_def payment_entries_def
      dest: sym)

text \<open>What each rule does to the balance and to an account.\<close>

lemma post_note [simp]: "l_note (ldg.post es l) = l_note l"
  by (induction es arbitrary: l) (simp_all add: ldg.post_Nil ldg.post_Cons)

lemma new_ledger_simps [simp]:
  "ledger_wf (new_ledger tx)" "ledger_balance (new_ledger tx) = 0" "ledger_amount (new_ledger tx) c = 0"
  "l_note (new_ledger tx) = tx_acc_generated_note tx"
  by (simp_all add: new_ledger_def)

lemma balance_unpaid_wf [simp]: "ledger_wf l \<Longrightarrow> ledger_wf (tx_balance_unpaid pu r l)"
  by (simp add: tx_balance_unpaid_def Let_def ldg.wf_add)

lemma balance_unpaid_note [simp]: "l_note (tx_balance_unpaid pu r l) = l_note l"
  by (simp add: tx_balance_unpaid_def Let_def)

lemma balance_unpaid_balance:
  "ledger_wf l \<Longrightarrow> ledger_balance (tx_balance_unpaid pu r l) = (if r then 2 * ledger_balance l else 0)"
  by (simp add: tx_balance_unpaid_def Let_def ldg.balance_add bool_sign_def)

lemma balance_unpaid_amount:
  "ledger_wf l \<Longrightarrow> ledger_amount (tx_balance_unpaid pu r l) c =
     ledger_amount l c + (if c = (if pu then COA_AP else COA_AR) then bool_sign r (ledger_balance l) else 0)"
  by (simp add: tx_balance_unpaid_def Let_def ldg.amount_add)

lemma sum_interest_entries [simp]: "sum_list (map snd (interest_entries tx r)) = 0"
proof -
  have "sum_list (map snd (concat (map (\<lambda>p. [(COA_AR, bool_sign r (p_debt_interest p)),
      (COA_INTEREST, bool_sign (\<not> r) (p_debt_interest p))]) ps))) = 0" for ps
    by (induction ps) (simp_all add: bool_sign_def)
  then show ?thesis by (simp add: interest_entries_def)
qed

lemma sum_list_uminus: "(\<Sum>x\<leftarrow>xs. - f x :: 'a::ab_group_add) = - (\<Sum>x\<leftarrow>xs. f x)"
  by (induction xs) simp_all

lemma sum_payment_entries:
  "sum_list (map snd (payment_entries tx inflow)) =
     bool_sign inflow (\<Sum>p\<leftarrow>t_payments tx. p_amount p)"
  by (simp add: payment_entries_def comp_def bool_sign_def sum_list_uminus)

lemma sum_sale_entries:
  "sum_list (map snd (sale_entries tx gross r)) =
     bool_sign r gross + (\<Sum>d\<leftarrow>t_discounts tx. c_amount d) - (\<Sum>t\<leftarrow>t_taxes tx. x_amount t)
     + bool_sign (\<not> r) (\<Sum>p\<leftarrow>t_payments tx. p_amount p)"
  by (simp add: sale_entries_def sum_payment_entries comp_def sum_list_uminus)

lemma sum_purchase_entries:
  "sum_list (map snd (purchase_entries tx gross r)) =
     bool_sign (\<not> r) (gross - (\<Sum>d\<leftarrow>t_discounts tx. c_amount d)
        + (\<Sum>t\<leftarrow>t_taxes tx. x_amount t * purchase_tax_sign t) - (\<Sum>p\<leftarrow>t_payments tx. p_amount p))"
  by (simp add: purchase_entries_def sum_payment_entries comp_def sum_list_uminus bool_sign_def)

lemma sale_wf [simp]: "ledger_wf l \<Longrightarrow> ledger_wf (tx_acc_sale_or_return tx g r l)"
  by (simp add: tx_acc_sale_post ldg.wf_post)

lemma purchase_wf [simp]: "ledger_wf l \<Longrightarrow> ledger_wf (tx_acc_purchase tx g r l)"
  by (simp add: tx_acc_purchase_post ldg.wf_post)

lemma sale_note [simp]: "l_note (tx_acc_sale_or_return tx g r l) = l_note l"
  by (simp add: tx_acc_sale_post)

lemma purchase_note [simp]: "l_note (tx_acc_purchase tx g r l) = l_note l"
  by (simp add: tx_acc_purchase_post)

lemma sale_balance:
  "ledger_wf l \<Longrightarrow> ledger_balance (tx_acc_sale_or_return tx g r l) =
     (if r then 2 * (ledger_balance l + sum_list (map snd (sale_entries tx g r))) else 0)"
  by (simp add: tx_acc_sale_post ldg.balance_post ldg.wf_post balance_unpaid_balance)

lemma purchase_balance:
  "ledger_wf l \<Longrightarrow> ledger_balance (tx_acc_purchase tx g r l) =
     (if r then 2 * (ledger_balance l + sum_list (map snd (purchase_entries tx g r))) else 0)"
  by (simp add: tx_acc_purchase_post ldg.balance_post ldg.wf_post balance_unpaid_balance)

lemma rounding_untouched:
  assumes "ledger_wf l"
  shows "ledger_amount (tx_acc_sale_or_return tx g r l) COA_ROUNDING = ledger_amount l COA_ROUNDING"
    and "ledger_amount (tx_acc_purchase tx g r l) COA_ROUNDING = ledger_amount l COA_ROUNDING"
  using assms
  by (simp_all add: tx_acc_sale_post tx_acc_purchase_post ldg.untouched_post ldg.wf_post
      balance_unpaid_amount rounding_not_posted)

lemma sale_amount:
  assumes "ledger_wf l"
  shows "ledger_amount (tx_acc_sale_or_return tx g r l) c =
    ledger_amount l c + sum_list (map snd (filter (\<lambda>e. fst e = c) (sale_entries tx g r @ interest_entries tx r)))
    + (if c = COA_AR then bool_sign r (ledger_balance l + sum_list (map snd (sale_entries tx g r))) else 0)"
  using assms
  by (simp add: tx_acc_sale_post ldg.amount_post ldg.balance_post ldg.wf_post balance_unpaid_amount)

lemma purchase_amount:
  assumes "ledger_wf l"
  shows "ledger_amount (tx_acc_purchase tx g r l) c =
    ledger_amount l c + sum_list (map snd (filter (\<lambda>e. fst e = c) (purchase_entries tx g r)))
    + (if c = COA_AP then bool_sign r (ledger_balance l + sum_list (map snd (purchase_entries tx g r))) else 0)"
  using assms
  by (simp add: tx_acc_purchase_post ldg.amount_post ldg.balance_post ldg.wf_post balance_unpaid_amount)

text \<open>The generated lines are always the lines of one well-formed ledger (or none).\<close>

definition ledger_lines :: "coa_order \<Rightarrow> Tx \<Rightarrow> i64 \<Rightarrow> TxAcc list \<Rightarrow> bool" where
  "ledger_lines order tx ts accs \<longleftrightarrow> accs = [] \<or>
     (\<exists>l. ledger_wf l \<and> l_note l = tx_acc_generated_note tx \<and> accs = snd (ledger_build order ts l))"

lemma ledger_lines_Nil [simp]: "ledger_lines order tx ts []"
  by (simp add: ledger_lines_def)

lemma ledger_lines_build [simp]:
  "ledger_wf l \<Longrightarrow> l_note l = tx_acc_generated_note tx \<Longrightarrow>
     ledger_lines order tx ts (snd (ledger_build order ts l))"
  by (auto simp: ledger_lines_def)

lemma cash_movement_lines: "ledger_lines order tx ts (tx_acc_cash_movement order tx ts b)"
  by (simp add: tx_acc_cash_movement_def Let_def ldg.wf_add)

lemma generated_from_ledger: "ledger_lines order tx ts (tx_compute_generated_accs order tx gross ts)"
  by (cases "tx_type (t_type tx)")
    (simp_all add: tx_compute_generated_accs_def Let_def cash_movement_lines tx_acc_revenue_line_def
      tx_acc_standalone_debt_receivable_def tx_acc_standalone_debt_payable_def ldg.wf_add)

lemma ledger_lines_total: "ledger_lines order tx ts accs \<Longrightarrow> permuting order \<Longrightarrow> acc_total accs = 0"
  by (elim ledger_lines_def [THEN iffD1, THEN disjE]) (auto simp: build_total, simp add: acc_total_def)

lemma ledger_lines_distinct:
  "ledger_lines order tx ts accs \<Longrightarrow> permuting order \<Longrightarrow> distinct (map a_acc_code accs)"
  by (auto simp: ledger_lines_def build_codes_distinct)

lemma ledger_lines_line:
  assumes "ledger_lines order tx ts accs" and "a \<in> set accs"
  shows "a_is_tx_generated a" "a_ts_ms a = ts" "a_note a = tx_acc_generated_note tx"
    "acc_signed_amount a \<noteq> 0" "0 <s a_amount a \<or> a_amount a = word_of_int (- (2 ^ 63))"
    "a_side a = TxAccSide_i32 Side_Credit \<or> a_side a = TxAccSide_i32 Side_Debit"
proof -
  from assms obtain l where l: "l_note l = tx_acc_generated_note tx"
      "a \<in> set (snd (ledger_build order ts l))"
    by (auto simp: ledger_lines_def)
  note bl = build_lines [OF l(2)]
  show "a_is_tx_generated a" "a_ts_ms a = ts" "acc_signed_amount a \<noteq> 0" by (fact bl)+
  show "a_note a = tx_acc_generated_note tx" using bl(3) l(1) by simp
  show "0 <s a_amount a \<or> a_amount a = word_of_int (- (2 ^ 63))" by (fact bl)
  show "a_side a = TxAccSide_i32 Side_Credit \<or> a_side a = TxAccSide_i32 Side_Debit" by (fact bl)
qed

lemmas generated_total = ledger_lines_total [OF generated_from_ledger]
lemmas generated_distinct = ledger_lines_distinct [OF generated_from_ledger]
lemmas generated_line = ledger_lines_line [OF generated_from_ledger]

text \<open>A line of an account is that account's total, so an account whose total is zero has no line.\<close>

lemma ledger_lines_code_total:
  assumes "ledger_lines order tx ts accs" and "permuting order" and "a \<in> set accs"
  shows "acc_code_total (a_acc_code a) accs = acc_signed_amount a"
proof -
  have "distinct (map a_acc_code accs)" by (rule ledger_lines_distinct [OF assms(1,2)])
  with assms(3) have "filter (\<lambda>b. a_acc_code b = a_acc_code a) accs = [a]"
    by (induction accs) (auto simp: filter_empty_conv rev_image_eqI)
  then show ?thesis by (simp add: acc_code_total_def acc_total_def)
qed

lemma ledger_lines_no_line:
  assumes "ledger_lines order tx ts accs" and "permuting order" and "acc_code_total c accs = 0"
  shows "c \<notin> set (map a_acc_code accs)"
  using ledger_lines_code_total [OF assms(1,2)] ledger_lines_line(4) [OF assms(1)] assms(3) by force

section \<open>Accounts of sales and purchases\<close>

lemma tax_code_cases: "tx_tax_acc_code t b \<in> {COA_WITHHOLDING, COA_INPUT_VAT, COA_TAX_PAYABLE}"
  by (simp add: tx_tax_acc_code_def Let_def)

lemma payment_code_cases: "tx_payment_acc_code p \<in> {COA_CASH, COA_BANK, COA_EWALLET, COA_AR}"
  by (simp add: tx_payment_acc_code_def split: TxPaymentMethod.splits)

lemma payment_code_AR: "tx_payment_acc_code p = COA_AR \<longleftrightarrow> is_debt p"
  by (simp add: tx_payment_acc_code_def is_debt_def split: TxPaymentMethod.splits)

lemma tax_code_ne [simp]:
  "tx_tax_acc_code t b \<noteq> COA_REVENUE" "tx_tax_acc_code t b \<noteq> COA_SALES_DISCOUNT"
  "tx_tax_acc_code t b \<noteq> COA_AR" "tx_tax_acc_code t b \<noteq> COA_INTEREST"
  "tx_tax_acc_code t b \<noteq> COA_INVENTORY" "tx_tax_acc_code t b \<noteq> COA_PURCHASE_DISC"
  "tx_tax_acc_code t b \<noteq> COA_AP" "tx_tax_acc_code t b \<noteq> COA_SALES_RETURNS"
  using tax_code_cases [of t b] by auto

lemma payment_code_ne [simp]:
  "tx_payment_acc_code p \<noteq> COA_REVENUE" "tx_payment_acc_code p \<noteq> COA_SALES_DISCOUNT"
  "tx_payment_acc_code p \<noteq> COA_INTEREST" "tx_payment_acc_code p \<noteq> COA_INVENTORY"
  "tx_payment_acc_code p \<noteq> COA_PURCHASE_DISC" "tx_payment_acc_code p \<noteq> COA_AP"
  "tx_payment_acc_code p \<noteq> COA_SALES_RETURNS"
  using payment_code_cases [of p] by auto

definition entries_at :: "string \<Rightarrow> (string \<times> i64) list \<Rightarrow> i64" where
  "entries_at c es = sum_list (map snd (filter (\<lambda>e. fst e = c) es))"

lemma entries_at_simps [simp]:
  "entries_at c [] = 0"
  "entries_at c (e # es) = (if fst e = c then snd e else 0) + entries_at c es"
  "entries_at c (es @ fs) = entries_at c es + entries_at c fs"
  by (simp_all add: entries_at_def)

lemma entries_at_map: "entries_at c (map (\<lambda>x. (k x, v x)) xs) = (\<Sum>x\<leftarrow>filter (\<lambda>x. k x = c) xs. v x)"
  by (simp add: entries_at_def filter_map comp_def)

lemma entries_at_interest:
  "entries_at c (interest_entries tx r) =
     (if c = COA_AR then bool_sign r (\<Sum>p\<leftarrow>filter is_debt (t_payments tx). p_debt_interest p)
      else if c = COA_INTEREST then bool_sign (\<not> r) (\<Sum>p\<leftarrow>filter is_debt (t_payments tx). p_debt_interest p)
      else 0)"
proof -
  have "entries_at c (concat (map (\<lambda>p. [(COA_AR, bool_sign r (p_debt_interest p)),
                       (COA_INTEREST, bool_sign (\<not> r) (p_debt_interest p))]) ps)) =
     (if c = COA_AR then bool_sign r (\<Sum>p\<leftarrow>ps. p_debt_interest p)
      else if c = COA_INTEREST then bool_sign (\<not> r) (\<Sum>p\<leftarrow>ps. p_debt_interest p)
      else 0)" for ps
    by (induction ps) (auto simp: bool_sign_def)
  then show ?thesis unfolding interest_entries_def by blast
qed

text \<open>Payments that are not on credit.\<close>

definition settled :: "Tx \<Rightarrow> i64" where
  "settled tx = (\<Sum>p\<leftarrow>filter (\<lambda>p. \<not> is_debt p) (t_payments tx). p_amount p)"

lemma paid_split: "(\<Sum>p\<leftarrow>t_payments tx. p_amount p) = settled tx + (\<Sum>p\<leftarrow>filter is_debt (t_payments tx). p_amount p)"
  using sum_list_filter_split [of p_amount "t_payments tx" "\<lambda>p. \<not> is_debt p"] by (simp add: settled_def)

lemma sale_amounts:
  fixes tx g
  defines "l \<equiv> tx_acc_sale_or_return tx g False (new_ledger tx)"
  shows "ledger_amount l COA_REVENUE = - g"
    and "ledger_amount l COA_SALES_DISCOUNT = (\<Sum>d\<leftarrow>t_discounts tx. c_amount d)"
    and "ledger_amount l COA_INTEREST = (\<Sum>p\<leftarrow>filter is_debt (t_payments tx). p_debt_interest p)"
    and "ledger_amount l COA_AR = g - (\<Sum>d\<leftarrow>t_discounts tx. c_amount d) + (\<Sum>t\<leftarrow>t_taxes tx. x_amount t)
      - settled tx - (\<Sum>p\<leftarrow>filter is_debt (t_payments tx). p_debt_interest p)"
  unfolding l_def
  by (simp_all add: sale_amount entries_at_def [symmetric] entries_at_interest sum_sale_entries)
    (simp_all add: sale_entries_def payment_entries_def entries_at_map bool_sign_def payment_code_AR paid_split)

lemma purchase_amounts:
  fixes tx g
  defines "l \<equiv> tx_acc_purchase tx g False (new_ledger tx)"
  shows "ledger_amount l COA_INVENTORY = g"
    and "ledger_amount l COA_PURCHASE_DISC = - (\<Sum>d\<leftarrow>t_discounts tx. c_amount d)"
    and "ledger_amount l COA_AP = - (g - (\<Sum>d\<leftarrow>t_discounts tx. c_amount d)
      + (\<Sum>t\<leftarrow>t_taxes tx. x_amount t * purchase_tax_sign t) - (\<Sum>p\<leftarrow>t_payments tx. p_amount p))"
  unfolding l_def
  by (simp_all add: purchase_amount entries_at_def [symmetric] sum_purchase_entries)
    (simp_all add: purchase_entries_def payment_entries_def entries_at_map bool_sign_def sum_list_uminus)

end
