(* ===== verification/Finalize.thy ===== *)
theory Finalize
  imports Tx_Totals Tx_Stocks Tx_Accs
begin

text \<open>
  \<open>tx_finalize\<close> (\<open>servers/crates/mod_tx/src/finalize.rs\<close>), the recomputation of every derived
  field of a transaction before it is stored or previewed, and the account names of a preview.
\<close>

definition tx_derive :: "clock \<Rightarrow> i64 \<Rightarrow> Tx \<Rightarrow> Tx" where
  "tx_derive ck ts tx =
     tx_compute_stock ts (tx_compute_debt_installments ck ts
       (tx_compute_standalone_debt (tx_compute_totals (tx_compute_items tx))))"

definition tx_finalize :: "clock \<Rightarrow> coa_order \<Rightarrow> Tx \<Rightarrow> Tx" where
  "tx_finalize ck order tx =
     (let ts = tx_time_ms ck tx
      in tx_compute_acc_meta (tx_compute_accs order ts (tx_derive ck ts tx)))"

definition coa_labels :: "(string \<times> string) list" where
  "coa_labels =
     [(COA_CASH, ''Kas''), (COA_BANK, ''Bank''), (COA_EWALLET, ''E-Wallet''), (COA_AR, ''Piutang''),
      (COA_INVENTORY, ''Persediaan''), (COA_INPUT_VAT, ''PPN Masukan''), (COA_AP, ''Hutang''),
      (COA_TAX_PAYABLE, ''PPN Keluaran''), (COA_REVENUE, ''Pendapatan''),
      (COA_SALES_DISCOUNT, ''Diskon Penjualan''), (COA_SALES_RETURNS, ''Retur Penjualan''),
      (COA_ROUNDING, ''Pembulatan''), (COA_INTEREST, ''Bunga'')]"

fun coa_names_loop :: "TxAcc list \<Rightarrow> (string \<times> string) list \<Rightarrow> (string \<times> string) list" where
  "coa_names_loop [] out = out"
| "coa_names_loop (acc # accs) out =
     (let code = trim (a_acc_code acc)
      in if code = [] \<or> map_of out code \<noteq> None then coa_names_loop accs out
         else let name = (case find (\<lambda>(c, _). c = code) coa_labels of Some (_, n) \<Rightarrow> n | None \<Rightarrow> code)
              in coa_names_loop accs (hm_insert code name out))"

definition tx_preview_coa_names :: "TxAcc list \<Rightarrow> (string \<times> string) list" where
  "tx_preview_coa_names accs = coa_names_loop accs []"

section \<open>Stages\<close>

lemma item_compute_simps [simp]:
  "i_qty (item_compute i) = i_qty i"
  "i_price (item_compute i) = i_price i"
  "i_sources (item_compute i) = i_sources i"
  "i_product_id (item_compute i) = i_product_id i"
  "i_reservations (item_compute i) = i_reservations i"
  "i_total_price (item_compute i) = i_price i * item_line_qty i"
  "i_total_qty (item_compute i) = scast (item_line_qty i)"
  by (simp_all add: item_compute_def Let_def)

lemma item_compute_idem [simp]: "item_compute (item_compute i) = item_compute i"
  by (simp add: item_compute_def item_line_qty_def Let_def)

lemma inst_compute_simps [simp]:
  "n_amount (inst_compute ck now d i) = n_amount i"
  "inst_paid (inst_compute ck now d i) = inst_paid i"
  "n_debt_payments (inst_compute ck now d i) = n_debt_payments i"
  by (simp_all add: inst_compute_def inst_paid_def Let_def)

lemma inst_compute_idem [simp]:
  "inst_compute ck now d (inst_compute ck now d i) = inst_compute ck now d i"
  by (simp add: inst_compute_def inst_paid_def Let_def)

definition pay_compute :: "clock \<Rightarrow> datetime \<Rightarrow> i64 \<Rightarrow> TxPayment \<Rightarrow> TxPayment" where
  "pay_compute ck now ts p =
     (if \<not> is_debt p then p
      else let due_default = (if 0 <s p_ts_ms p then p_ts_ms p else ts)
           in p\<lparr> p_installments := map (inst_compute ck now due_default) (p_installments p) \<rparr>)"

lemma pay_compute_simps [simp]:
  "is_debt (pay_compute ck now ts p) = is_debt p"
  "p_amount (pay_compute ck now ts p) = p_amount p"
  "p_method (pay_compute ck now ts p) = p_method p"
  "p_debt_interest (pay_compute ck now ts p) = p_debt_interest p"
  by (simp_all add: pay_compute_def is_debt_def Let_def)

lemma pay_compute_idem [simp]: "pay_compute ck now ts (pay_compute ck now ts p) = pay_compute ck now ts p"
  by (simp add: pay_compute_def is_debt_def Let_def comp_def)

lemma pay_compute_sums [simp]:
  "(\<Sum>inst\<leftarrow>p_installments (pay_compute ck now ts p). n_amount inst) = (\<Sum>inst\<leftarrow>p_installments p. n_amount inst)"
  "(\<Sum>inst\<leftarrow>p_installments (pay_compute ck now ts p). inst_paid inst) = (\<Sum>inst\<leftarrow>p_installments p. inst_paid inst)"
  by (simp_all add: pay_compute_def Let_def comp_def)

lemma filter_is_debt_pay [simp]:
  "filter is_debt (map (pay_compute ck now ts) ps) = map (pay_compute ck now ts) (filter is_debt ps)"
  by (simp add: filter_map comp_def)

lemma debt_installments_eq:
  "tx_compute_debt_installments ck ts tx =
     tx\<lparr> t_payments := map (pay_compute ck (case ts_from_ms ck ts of Some d \<Rightarrow> d | None \<Rightarrow> now_due ck) ts)
           (t_payments tx) \<rparr>"
  by (simp add: tx_compute_debt_installments_def pay_compute_def [abs_def] Let_def)

lemma stock_lines_cong:
  assumes "t_type tx' = t_type tx" "t_store_id tx' = t_store_id tx"
    "t_store_tgt_id tx' = t_store_tgt_id tx" "t_items tx' = t_items tx"
  shows "tx_stock_lines ts tx' = tx_stock_lines ts tx"
  by (simp only: tx_stock_lines_def assms)

lemma stock_lines_frame [simp]:
  "tx_stock_lines ts (tx\<lparr>t_payments := v\<rparr>) = tx_stock_lines ts tx"
  "tx_stock_lines ts (tx\<lparr>t_stocks := vk, t_stock_line_count := v1, t_stock_qty_in := v2, t_stock_qty_out := v3\<rparr>) = tx_stock_lines ts tx"
  "tx_stock_lines ts (tx_compute_totals tx) = tx_stock_lines ts tx"
  "tx_stock_lines ts (tx_compute_standalone_debt tx) = tx_stock_lines ts tx"
  by (rule stock_lines_cong; simp add: tx_compute_totals_def tx_compute_standalone_debt_def Let_def)+

text \<open>The stages write disjoint fields, so they commute, and each is idempotent.\<close>

lemma totals_comm:
  "tx_compute_totals (tx_compute_stock ts tx) = tx_compute_stock ts (tx_compute_totals tx)"
  "tx_compute_totals (tx_compute_debt_installments ck ts tx) =
     tx_compute_debt_installments ck ts (tx_compute_totals tx)"
  "tx_compute_totals (tx_compute_totals tx) = tx_compute_totals tx"
  by (simp add: tx_compute_stock_def Let_def, simp add: tx_compute_totals_def Let_def)
     (simp_all add: tx_compute_totals_def debt_installments_eq Let_def comp_def)

lemma standalone_cases:
  obtains "tx_compute_standalone_debt tx = tx"
  | a b c where "tx_compute_standalone_debt tx = tx\<lparr>t_debt_total := a, t_debt_unpaid := b, t_is_paid := c\<rparr>"
  unfolding tx_compute_standalone_debt_def Let_def by metis

lemma totals_standalone:
  "tx_compute_totals (tx_compute_standalone_debt tx) = tx_compute_totals tx"
  by (cases tx rule: standalone_cases) (simp_all add: tx_compute_totals_def Let_def)

lemma standalone_comm:
  "tx_compute_standalone_debt (tx_compute_stock ts tx) = tx_compute_stock ts (tx_compute_standalone_debt tx)"
  "tx_compute_standalone_debt (tx_compute_debt_installments ck ts tx) =
     tx_compute_debt_installments ck ts (tx_compute_standalone_debt tx)"
  by (simp add: tx_compute_stock_def Let_def, simp add: tx_compute_standalone_debt_def Let_def)
     (simp add: tx_compute_standalone_debt_def debt_installments_eq Let_def)

lemma installments_comm:
  "tx_compute_debt_installments ck ts (tx_compute_stock ts' tx) =
     tx_compute_stock ts' (tx_compute_debt_installments ck ts tx)"
  "tx_compute_debt_installments ck ts (tx_compute_debt_installments ck ts tx) =
     tx_compute_debt_installments ck ts tx"
proof -
  show "tx_compute_debt_installments ck ts (tx_compute_stock ts' tx) =
     tx_compute_stock ts' (tx_compute_debt_installments ck ts tx)"
    by (rule Tx.equality; simp add: debt_installments_eq tx_compute_stock_def Let_def)
qed (simp add: debt_installments_eq comp_def)

lemma stock_idem: "tx_compute_stock ts (tx_compute_stock ts tx) = tx_compute_stock ts tx"
  by (simp add: tx_compute_stock_def Let_def)

lemma stage_items [simp]:
  "t_items (tx_compute_totals tx) = t_items tx"
  "t_items (tx_compute_standalone_debt tx) = t_items tx"
  "t_items (tx_compute_debt_installments ck ts tx) = t_items tx"
  "t_items (tx_compute_stock ts tx) = t_items tx"
  "t_items (tx_compute_items tx) = map item_compute (t_items tx)"
  by (simp_all add: tx_compute_totals_def tx_compute_standalone_debt_def
      tx_compute_debt_installments_def tx_compute_stock_def tx_compute_items_def Let_def)

lemma items_computed: "map item_compute (t_items tx) = t_items tx \<Longrightarrow> tx_compute_items tx = tx"
  by (simp add: tx_compute_items_def)

lemma derive_idem: "tx_derive ck ts (tx_derive ck ts tx) = tx_derive ck ts tx"
proof -
  have "tx_compute_items (tx_derive ck ts tx) = tx_derive ck ts tx"
    by (rule items_computed) (simp add: tx_derive_def)
  then show ?thesis
    by (simp add: tx_derive_def totals_comm totals_standalone standalone_comm installments_comm stock_idem)
qed

text \<open>Account lines depend on none of the fields the accounting stages write.\<close>

lemma generated_accs_cong:
  assumes "t_type tx' = t_type tx" "t_subject_name tx' = t_subject_name tx" "t_desc tx' = t_desc tx"
    "t_discounts tx' = t_discounts tx" "t_taxes tx' = t_taxes tx" "t_payments tx' = t_payments tx"
    "t_debt_total tx' = t_debt_total tx" "t_total tx' = t_total tx"
  shows "tx_compute_generated_accs order tx' g ts = tx_compute_generated_accs order tx g ts"
  by (simp only: tx_compute_generated_accs_def tx_acc_cash_movement_def tx_cash_movement_amount_def
      tx_cash_acc_code_def new_ledger_def tx_acc_generated_note_def tx_debt_principal_def
      tx_acc_sale_or_return_def tx_acc_purchase_def tx_acc_payments_def tx_acc_interest_def assms)

definition manual_accs :: "Tx \<Rightarrow> TxAcc list" where
  "manual_accs tx = filter (\<lambda>a. \<not> a_is_tx_generated a) (t_accs tx)"

definition generated_accs :: "Tx \<Rightarrow> TxAcc list" where
  "generated_accs tx = filter a_is_tx_generated (t_accs tx)"

lemma accs_compute_accs:
  "t_accs (tx_compute_accs order ts tx) =
     manual_accs tx @ (if tx_acc_skip_generated (manual_accs tx) (tx_type (t_type tx)) then []
       else tx_compute_generated_accs order tx (tx_items_gross tx) ts)"
  by (simp add: tx_compute_accs_def manual_accs_def Let_def)

lemma compute_accs_eq: "tx_compute_accs order ts tx = tx\<lparr>t_accs := t_accs (tx_compute_accs order ts tx)\<rparr>"
  by (simp add: tx_compute_accs_def Let_def)

lemma generated_filters [simp]:
  "filter (\<lambda>a. \<not> a_is_tx_generated a) (tx_compute_generated_accs order tx g ts) = []"
  "filter a_is_tx_generated (tx_compute_generated_accs order tx g ts) = tx_compute_generated_accs order tx g ts"
  by (auto simp: filter_empty_conv filter_id_conv dest: generated_line(1))

lemma manual_compute_accs [simp]: "manual_accs (tx_compute_accs order ts tx) = manual_accs tx"
  by (simp add: manual_accs_def [of "tx_compute_accs order ts tx"] accs_compute_accs)
    (simp add: manual_accs_def)

lemma generated_compute_accs:
  "generated_accs (tx_compute_accs order ts tx) =
     (if tx_acc_skip_generated (manual_accs tx) (tx_type (t_type tx)) then []
      else tx_compute_generated_accs order tx (tx_items_gross tx) ts)"
  by (simp add: generated_accs_def accs_compute_accs) (simp add: manual_accs_def)

definition with_accs :: "TxAcc list \<Rightarrow> Tx \<Rightarrow> Tx" where
  "with_accs accs tx = tx_compute_acc_meta (tx\<lparr> t_accs := accs \<rparr>)"

lemma finalize_with_accs:
  "tx_finalize ck order tx =
     with_accs (t_accs (tx_compute_accs order (tx_time_ms ck tx) (tx_derive ck (tx_time_ms ck tx) tx)))
       (tx_derive ck (tx_time_ms ck tx) tx)"
  by (simp add: tx_finalize_def with_accs_def Let_def flip: compute_accs_eq)

lemma with_accs_eq:
  "with_accs a tx = tx\<lparr> t_accs := a, t_acc_line_count := of_nat (length a), t_acc_sum := acc_total a,
     t_acc_balanced := (acc_total a = 0),
     t_has_manual_lines := (0 <s (of_nat (length (filter (\<lambda>acc. \<not> a_is_tx_generated acc) a)) :: i32)) \<rparr>"
  by (simp add: with_accs_def tx_compute_acc_meta_def Let_def acc_total_def)

lemma with_accs_simps [simp]:
  "t_accs (with_accs a tx) = a" "t_items (with_accs a tx) = t_items tx" "t_type (with_accs a tx) = t_type tx"
  "t_payments (with_accs a tx) = t_payments tx" "t_debt_total (with_accs a tx) = t_debt_total tx"
  "t_total (with_accs a tx) = t_total tx" "t_discounts (with_accs a tx) = t_discounts tx"
  "t_taxes (with_accs a tx) = t_taxes tx" "t_subject_name (with_accs a tx) = t_subject_name tx"
  "t_desc (with_accs a tx) = t_desc tx" "t_time_ts_ms (with_accs a tx) = t_time_ts_ms tx"
  "t_created_ts_ms (with_accs a tx) = t_created_ts_ms tx" "with_accs b (with_accs a tx) = with_accs b tx"
  by (simp_all add: with_accs_def tx_compute_acc_meta_def Let_def)


lemma stock_lines_with_accs [simp]: "tx_stock_lines ts (with_accs a tx) = tx_stock_lines ts tx"
  by (rule stock_lines_cong) (simp_all add: with_accs_eq)

lemma items_with_accs: "tx_compute_items (with_accs a tx) = with_accs a (tx_compute_items tx)"
  by (simp add: tx_compute_items_def with_accs_eq)

lemma totals_with_accs: "tx_compute_totals (with_accs a tx) = with_accs a (tx_compute_totals tx)"
  by (simp add: tx_compute_totals_def with_accs_eq Let_def)

lemma standalone_with_accs:
  "tx_compute_standalone_debt (with_accs a tx) = with_accs a (tx_compute_standalone_debt tx)"
  by (simp add: tx_compute_standalone_debt_def with_accs_eq Let_def)

lemma installments_with_accs:
  "tx_compute_debt_installments ck ts (with_accs a tx) = with_accs a (tx_compute_debt_installments ck ts tx)"
  by (simp add: debt_installments_eq with_accs_eq)

lemma stock_with_accs: "tx_compute_stock ts (with_accs a tx) = with_accs a (tx_compute_stock ts tx)"
  unfolding tx_compute_stock_def Let_def stock_lines_with_accs by (simp add: with_accs_eq)

lemmas stages_with_accs = items_with_accs totals_with_accs standalone_with_accs installments_with_accs
  stock_with_accs

lemma derive_with_accs: "tx_derive ck ts (with_accs a tx) = with_accs a (tx_derive ck ts tx)"
  by (simp only: tx_derive_def stages_with_accs)


lemma standalone_frame [frame]:
  "t_site_iid (tx_compute_standalone_debt tx) = t_site_iid tx"
  "t_tx_id (tx_compute_standalone_debt tx) = t_tx_id tx"
  "t_type (tx_compute_standalone_debt tx) = t_type tx"
  "t_state (tx_compute_standalone_debt tx) = t_state tx"
  "t_subject_name (tx_compute_standalone_debt tx) = t_subject_name tx"
  "t_desc (tx_compute_standalone_debt tx) = t_desc tx"
  "t_time_ts_ms (tx_compute_standalone_debt tx) = t_time_ts_ms tx"
  "t_created_ts_ms (tx_compute_standalone_debt tx) = t_created_ts_ms tx"
  "t_discounts (tx_compute_standalone_debt tx) = t_discounts tx"
  "t_taxes (tx_compute_standalone_debt tx) = t_taxes tx"
  "t_accs (tx_compute_standalone_debt tx) = t_accs tx"
  "t_store_id (tx_compute_standalone_debt tx) = t_store_id tx"
  "t_store_tgt_id (tx_compute_standalone_debt tx) = t_store_tgt_id tx"
  "t_tx_data (tx_compute_standalone_debt tx) = t_tx_data tx"
  "t_is_archived (tx_compute_standalone_debt tx) = t_is_archived tx"
  "t_deleted_ts_ms (tx_compute_standalone_debt tx) = t_deleted_ts_ms tx"
  "t_created_by_iid (tx_compute_standalone_debt tx) = t_created_by_iid tx"
  "t_payments (tx_compute_standalone_debt tx) = t_payments tx"
  "t_total (tx_compute_standalone_debt tx) = t_total tx"
  by (cases tx rule: standalone_cases; simp)+

lemma derive_frame [frame]:
  "t_site_iid (tx_derive ck ts tx) = t_site_iid tx"
  "t_tx_id (tx_derive ck ts tx) = t_tx_id tx"
  "t_type (tx_derive ck ts tx) = t_type tx"
  "t_state (tx_derive ck ts tx) = t_state tx"
  "t_subject_name (tx_derive ck ts tx) = t_subject_name tx"
  "t_desc (tx_derive ck ts tx) = t_desc tx"
  "t_time_ts_ms (tx_derive ck ts tx) = t_time_ts_ms tx"
  "t_created_ts_ms (tx_derive ck ts tx) = t_created_ts_ms tx"
  "t_discounts (tx_derive ck ts tx) = t_discounts tx"
  "t_taxes (tx_derive ck ts tx) = t_taxes tx"
  "t_accs (tx_derive ck ts tx) = t_accs tx"
  "t_store_id (tx_derive ck ts tx) = t_store_id tx"
  "t_store_tgt_id (tx_derive ck ts tx) = t_store_tgt_id tx"
  "t_tx_data (tx_derive ck ts tx) = t_tx_data tx"
  "t_is_archived (tx_derive ck ts tx) = t_is_archived tx"
  "t_deleted_ts_ms (tx_derive ck ts tx) = t_deleted_ts_ms tx"
  "t_created_by_iid (tx_derive ck ts tx) = t_created_by_iid tx"
  by (simp_all add: tx_derive_def tx_compute_stock_def debt_installments_eq Let_def standalone_frame
      tx_compute_totals_def tx_compute_items_def)

lemma time_ms_derive [simp]: "tx_time_ms ck (tx_derive ck' ts tx) = tx_time_ms ck tx"
  by (simp add: tx_time_ms_def frame)

lemma time_ms_with_accs [simp]: "tx_time_ms ck (with_accs a tx) = tx_time_ms ck tx"
  by (simp add: tx_time_ms_def)

lemma manual_accs_frame [simp]:
  "manual_accs (tx_derive ck ts tx) = manual_accs tx"
  "manual_accs (with_accs (t_accs (tx_compute_accs order ts tx)) tx) = manual_accs tx"
  by (simp add: manual_accs_def frame) (metis manual_accs_def manual_compute_accs with_accs_simps(1))

lemma gross_with_accs [simp]: "tx_items_gross (with_accs a tx) = tx_items_gross tx"
  by (simp add: tx_items_gross_def)

lemma generated_with_accs [simp]:
  "tx_compute_generated_accs order (with_accs a tx) g ts = tx_compute_generated_accs order tx g ts"
  by (rule generated_accs_cong) simp_all

text \<open>A transaction that carries its time does not read the clock.\<close>

lemma clock_frame [simp]:
  "ts_from_ms (ck\<lparr>now_time := a, now_due := b\<rparr>) = ts_from_ms ck"
  "inst_compute (ck\<lparr>now_time := a, now_due := b\<rparr>) = inst_compute ck"
  by (simp_all add: ts_from_ms_def inst_compute_def fun_eq_iff Let_def)

lemma pay_compute_clock [simp]:
  "pay_compute (ck\<lparr>now_time := a, now_due := b\<rparr>) = pay_compute ck"
  by (simp add: pay_compute_def fun_eq_iff)

lemma derive_clock:
  "ts_from_ms ck ts \<noteq> None \<Longrightarrow> tx_derive (ck\<lparr>now_time := a, now_due := b\<rparr>) ts tx = tx_derive ck ts tx"
  by (auto simp: tx_derive_def debt_installments_eq)

text \<open>Finalizing is idempotent, also when the second run reads a later clock: once a
  transaction carries its time, \<open>tx_finalize\<close> of a finalized transaction changes nothing, so
  saving a loaded transaction again rewrites the same derived values.\<close>

theorem tx_finalize_idempotent:
  assumes "0 <s t_time_ts_ms tx" and "ts_from_ms ck (t_time_ts_ms tx) \<noteq> None"
  shows "tx_finalize (ck\<lparr>now_time := a, now_due := b\<rparr>) order (tx_finalize ck order tx) =
    tx_finalize ck order tx"
proof -
  define ts where "ts = tx_time_ms ck tx"
  have ts: "ts = t_time_ts_ms tx" using assms(1) by (simp add: ts_def tx_time_ms_def)
  define y where "y = tx_derive ck ts tx"
  have z: "tx_finalize ck order tx = with_accs (t_accs (tx_compute_accs order ts y)) y"
    by (simp add: finalize_with_accs ts_def y_def)
  have d: "tx_derive ck ts y = y" by (simp add: y_def derive_idem)
  have "t_accs (tx_compute_accs order ts (with_accs (t_accs (tx_compute_accs order ts y)) y)) =
      t_accs (tx_compute_accs order ts y)"
    by (simp add: accs_compute_accs [of _ _ "with_accs _ _"]) (simp add: accs_compute_accs)
  moreover have "tx_time_ms (ck\<lparr>now_time := a, now_due := b\<rparr>) y = ts"
    using assms(1) by (simp add: y_def ts tx_time_ms_def frame)
  ultimately show ?thesis
    using assms(2) unfolding z by (simp add: finalize_with_accs derive_with_accs derive_clock d [unfolded ts] ts)
qed

section \<open>Double entry\<close>

lemma finalize_accs [simp]:
  "manual_accs (tx_finalize ck order tx) = manual_accs tx"
  "t_accs (tx_finalize ck order tx) = manual_accs tx @ generated_accs (tx_finalize ck order tx)"
proof -
  show "manual_accs (tx_finalize ck order tx) = manual_accs tx"
    by (simp add: finalize_with_accs)
  show "t_accs (tx_finalize ck order tx) = manual_accs tx @ generated_accs (tx_finalize ck order tx)"
    by (simp add: finalize_with_accs accs_compute_accs generated_accs_def) (simp add: manual_accs_def)
qed

lemma generated_finalize:
  "generated_accs (tx_finalize ck order tx) =
     (if tx_acc_skip_generated (manual_accs tx) (tx_type (t_type tx)) then []
      else tx_compute_generated_accs order (tx_finalize ck order tx)
             (tx_items_gross (tx_finalize ck order tx)) (tx_time_ms ck tx))"
proof -
  have "generated_accs (with_accs (t_accs (tx_compute_accs order ts y)) y) =
      generated_accs (tx_compute_accs order ts y)" for ts y
    by (simp add: generated_accs_def)
  then show ?thesis by (simp add: finalize_with_accs generated_compute_accs frame)
qed

lemma finalize_lines: "ledger_lines order (tx_finalize ck order tx) (tx_time_ms ck tx)
    (generated_accs (tx_finalize ck order tx))"
  by (subst generated_finalize) (simp add: generated_from_ledger)

lemma finalize_meta:
  "t_acc_sum (tx_finalize ck order tx) = acc_total (t_accs (tx_finalize ck order tx))"
  "t_acc_balanced (tx_finalize ck order tx) \<longleftrightarrow> acc_total (t_accs (tx_finalize ck order tx)) = 0"
  "t_acc_line_count (tx_finalize ck order tx) = of_nat (length (t_accs (tx_finalize ck order tx)))"
  by (simp_all add: tx_finalize_def tx_compute_acc_meta_def acc_total_def Let_def)

lemma acc_total_append [simp]: "acc_total (xs @ ys) = acc_total xs + acc_total ys"
  by (simp add: acc_total_def)

text \<open>Claim C3. Double entry: the lines \<open>tx_finalize\<close> generates always sum to zero, whatever the
  type, the amounts, the overflow of \<open>i64\<close> and the iteration order of the ledger; so a
  transaction is marked balanced exactly when its hand-entered lines balance, and the
  hand-entered lines themselves are kept as they are.\<close>

theorem tx_finalize_double_entry:
  assumes "permuting order"
  shows "acc_total (generated_accs (tx_finalize ck order tx)) = 0 \<and>
    manual_accs (tx_finalize ck order tx) = manual_accs tx \<and>
    t_acc_sum (tx_finalize ck order tx) = acc_total (manual_accs tx) \<and>
    (t_acc_balanced (tx_finalize ck order tx) \<longleftrightarrow> acc_total (manual_accs tx) = 0)"
  using ledger_lines_total [OF finalize_lines assms] by (simp add: finalize_meta)

text \<open>Claim C24. The generated lines are a proper journal: one line per account, each marked as
  generated, stamped with the transaction's time and note, on the debit or the credit side with
  a positive amount (\<open>i64::MIN\<close>, its own negation, is the one exception).\<close>

theorem tx_finalize_journal:
  assumes "permuting order" and "a \<in> set (generated_accs (tx_finalize ck order tx))"
  shows "distinct (map a_acc_code (generated_accs (tx_finalize ck order tx))) \<and>
    a_is_tx_generated a \<and>
    a_ts_ms a = tx_time_ms ck tx \<and>
    a_note a = tx_acc_generated_note tx \<and>
    (a_side a = TxAccSide_i32 Side_Credit \<or> a_side a = TxAccSide_i32 Side_Debit) \<and>
    (0 <s a_amount a \<or> a_amount a = word_of_int (- (2 ^ 63)))"
proof (intro conjI)
  have nt: "tx_acc_generated_note (tx_finalize ck order tx) = tx_acc_generated_note tx"
    by (simp add: finalize_with_accs tx_acc_generated_note_def frame)
  note line = ledger_lines_line [OF finalize_lines assms(2)]
  show "distinct (map a_acc_code (generated_accs (tx_finalize ck order tx)))"
    by (rule ledger_lines_distinct [OF finalize_lines assms(1)])
  show "a_is_tx_generated a" "a_ts_ms a = tx_time_ms ck tx" by (fact line)+
  show "a_note a = tx_acc_generated_note tx" using line(3) nt by simp
  show "a_side a = TxAccSide_i32 Side_Credit \<or> a_side a = TxAccSide_i32 Side_Debit" by (fact line(6))
  show "0 <s a_amount a \<or> a_amount a = word_of_int (- (2 ^ 63))" by (fact line(5))
qed

section \<open>Totals\<close>

lemma standalone_totals [simp]:
  "t_total_taxes (tx_compute_standalone_debt tx) = t_total_taxes tx"
  "t_total_discounts (tx_compute_standalone_debt tx) = t_total_discounts tx"
  "t_total_interest (tx_compute_standalone_debt tx) = t_total_interest tx"
  "t_total_paid (tx_compute_standalone_debt tx) = t_total_paid tx"
  "t_total_unpaid (tx_compute_standalone_debt tx) = t_total_unpaid tx"
  "t_items_total (tx_compute_standalone_debt tx) = t_items_total tx"
  "t_items_count (tx_compute_standalone_debt tx) = t_items_count tx"
  "t_items_qty (tx_compute_standalone_debt tx) = t_items_qty tx"
  "t_debt_paid (tx_compute_standalone_debt tx) = t_debt_paid tx"
  by (cases tx rule: standalone_cases; simp)+

lemma finalize_totals:
  fixes ck order tx
  defines "tx' \<equiv> tx_finalize ck order tx"
  shows "t_type tx' = t_type tx"
    and "t_items_count tx' = of_nat (length (t_items tx'))"
    and "t_items_qty tx' = (\<Sum>i\<leftarrow>t_items tx'. scast (i_qty i))"
    and "t_items_total tx' = (\<Sum>i\<leftarrow>t_items tx'. item_net i)"
    and "t_total_taxes tx' = (\<Sum>t\<leftarrow>t_taxes tx'. x_amount t)"
    and "t_total_discounts tx' = (\<Sum>d\<leftarrow>t_discounts tx'. c_amount d)"
    and "t_total_paid tx' = (\<Sum>p\<leftarrow>t_payments tx'. p_amount p)"
    and "t_total_interest tx' = (\<Sum>p\<leftarrow>filter is_debt (t_payments tx'). p_debt_interest p)"
    and "t_total tx' = t_items_total tx' + t_total_taxes tx' - t_total_discounts tx' + t_total_interest tx'"
    and "t_total_unpaid tx' = smax (t_total tx' - t_total_paid tx') 0"
  unfolding tx'_def
  by (simp_all add: finalize_with_accs with_accs_eq tx_derive_def tx_compute_stock_def
      debt_installments_eq Let_def comp_def frame)
    (simp_all add: tx_compute_totals_def tx_compute_items_def Let_def comp_def)

section \<open>Accounts\<close>

text \<open>Claim C23. Where a sale goes: revenue is credited the gross amount, the discount account
  debited the discounts, and receivables carry exactly what is not settled by a payment that is
  not on credit (less the interest, which is moved to the interest account). Nothing is sent to
  the rounding account. Holds for reservations too, for every amount, modulo \<open>2^64\<close>.\<close>

theorem sale_accounts:
  fixes ck order tx
  defines "tx' \<equiv> tx_finalize ck order tx"
  assumes "permuting order" and "tx_type (t_type tx) = Ty_Sale \<or> tx_type (t_type tx) = Ty_Reservation"
  shows "COA_ROUNDING \<notin> set (map a_acc_code (generated_accs tx')) \<and>
    acc_code_total COA_REVENUE (generated_accs tx') = - tx_items_gross tx' \<and>
    acc_code_total COA_SALES_DISCOUNT (generated_accs tx') = t_total_discounts tx' \<and>
    acc_code_total COA_INTEREST (generated_accs tx') = t_total_interest tx' \<and>
    acc_code_total COA_AR (generated_accs tx') =
      tx_items_gross tx' - t_total_discounts tx' + t_total_taxes tx' - settled tx' - t_total_interest tx'"
proof (intro conjI)
  let ?l = "tx_acc_sale_or_return tx' (tx_items_gross tx') False (new_ledger tx')"
  have g: "generated_accs tx' = snd (ledger_build order (tx_time_ms ck tx) ?l)"
    unfolding tx'_def using assms(3)
    by (subst generated_finalize)
      (auto simp: tx_acc_skip_generated_def tx_compute_generated_accs_def finalize_totals(1) Let_def)
  have c: "acc_code_total k (generated_accs tx') = ledger_amount ?l k" for k
    by (simp add: g build_code_total assms(2) sale_balance)
  have "acc_code_total COA_ROUNDING (generated_accs tx') = 0"
    by (simp add: c rounding_untouched)
  then show "COA_ROUNDING \<notin> set (map a_acc_code (generated_accs tx'))"
    using finalize_lines assms(2) ledger_lines_no_line unfolding tx'_def by blast
  show "acc_code_total COA_REVENUE (generated_accs tx') = - tx_items_gross tx'"
    by (simp add: c sale_amounts)
  show "acc_code_total COA_SALES_DISCOUNT (generated_accs tx') = t_total_discounts tx'"
    "acc_code_total COA_INTEREST (generated_accs tx') = t_total_interest tx'"
    "acc_code_total COA_AR (generated_accs tx') =
      tx_items_gross tx' - t_total_discounts tx' + t_total_taxes tx' - settled tx' - t_total_interest tx'"
    by (simp_all add: c sale_amounts) (simp_all add: tx'_def finalize_totals)
qed

text \<open>Where a purchase goes: inventory is debited the gross amount, and payables are
  credited exactly what the payments leave open. Nothing is sent to the rounding account.\<close>

theorem purchase_accounts:
  fixes ck order tx
  defines "tx' \<equiv> tx_finalize ck order tx"
  assumes "permuting order" and "tx_type (t_type tx) = Ty_Purchase"
  shows "COA_ROUNDING \<notin> set (map a_acc_code (generated_accs tx')) \<and>
    acc_code_total COA_INVENTORY (generated_accs tx') = tx_items_gross tx' \<and>
    acc_code_total COA_PURCHASE_DISC (generated_accs tx') = - t_total_discounts tx' \<and>
    acc_code_total COA_AP (generated_accs tx') =
      - (tx_items_gross tx' - t_total_discounts tx'
         + (\<Sum>t\<leftarrow>t_taxes tx'. x_amount t * purchase_tax_sign t) - t_total_paid tx')"
proof (intro conjI)
  let ?l = "tx_acc_purchase tx' (tx_items_gross tx') False (new_ledger tx')"
  have g: "generated_accs tx' = snd (ledger_build order (tx_time_ms ck tx) ?l)"
    unfolding tx'_def using assms(3)
    by (subst generated_finalize)
      (auto simp: tx_acc_skip_generated_def tx_compute_generated_accs_def finalize_totals(1) Let_def)
  have c: "acc_code_total k (generated_accs tx') = ledger_amount ?l k" for k
    by (simp add: g build_code_total assms(2) purchase_balance)
  have "acc_code_total COA_ROUNDING (generated_accs tx') = 0"
    by (simp add: c rounding_untouched)
  then show "COA_ROUNDING \<notin> set (map a_acc_code (generated_accs tx'))"
    using finalize_lines assms(2) ledger_lines_no_line unfolding tx'_def by blast
  show "acc_code_total COA_INVENTORY (generated_accs tx') = tx_items_gross tx'"
    by (simp add: c purchase_amounts)
  show "acc_code_total COA_PURCHASE_DISC (generated_accs tx') = - t_total_discounts tx'"
    "acc_code_total COA_AP (generated_accs tx') =
      - (tx_items_gross tx' - t_total_discounts tx'
         + (\<Sum>t\<leftarrow>t_taxes tx'. x_amount t * purchase_tax_sign t) - t_total_paid tx')"
    by (simp_all add: c purchase_amounts) (simp_all add: tx'_def finalize_totals)
qed

text \<open>A return is not closed against receivables or payables: the remainder is added to
  the account with the sign that doubles it, so the rounding account absorbs twice the amount the
  refund left open. (The remainder is what the postings before \<open>tx_balance_unpaid\<close> sum to.)\<close>

theorem return_rounding:
  fixes ck order tx
  defines "tx' \<equiv> tx_finalize ck order tx"
  assumes "permuting order"
  shows "(tx_type (t_type tx) = Ty_ReturnSale \<longrightarrow>
      acc_code_total COA_ROUNDING (generated_accs tx') =
        - 2 * (tx_items_gross tx' + t_total_discounts tx' - t_total_taxes tx' - t_total_paid tx')) \<and>
    (tx_type (t_type tx) = Ty_ReturnPurchase \<longrightarrow>
      acc_code_total COA_ROUNDING (generated_accs tx') =
        2 * (tx_items_gross tx' - t_total_discounts tx'
          + (\<Sum>t\<leftarrow>t_taxes tx'. x_amount t * purchase_tax_sign t) - t_total_paid tx'))"
proof (intro conjI impI)
  assume t: "tx_type (t_type tx) = Ty_ReturnSale"
  have g: "generated_accs tx' = snd (ledger_build order (tx_time_ms ck tx)
      (tx_acc_sale_or_return tx' (tx_items_gross tx') True (new_ledger tx')))"
    unfolding tx'_def using t
    by (subst generated_finalize)
      (simp add: tx_acc_skip_generated_def tx_compute_generated_accs_def finalize_totals(1) Let_def)
  show "acc_code_total COA_ROUNDING (generated_accs tx') =
        - 2 * (tx_items_gross tx' + t_total_discounts tx' - t_total_taxes tx' - t_total_paid tx')"
    by (simp add: g build_code_total assms(2) sale_balance rounding_untouched sum_sale_entries bool_sign_def)
      (simp add: tx'_def finalize_totals)
next
  assume t: "tx_type (t_type tx) = Ty_ReturnPurchase"
  have g: "generated_accs tx' = snd (ledger_build order (tx_time_ms ck tx)
      (tx_acc_purchase tx' (tx_items_gross tx') True (new_ledger tx')))"
    unfolding tx'_def using t
    by (subst generated_finalize)
      (simp add: tx_acc_skip_generated_def tx_compute_generated_accs_def finalize_totals(1) Let_def)
  show "acc_code_total COA_ROUNDING (generated_accs tx') =
        2 * (tx_items_gross tx' - t_total_discounts tx'
          + (\<Sum>t\<leftarrow>t_taxes tx'. x_amount t * purchase_tax_sign t) - t_total_paid tx')"
    by (simp add: g build_code_total assms(2) purchase_balance rounding_untouched sum_purchase_entries bool_sign_def)
      (simp add: tx'_def finalize_totals)
qed

section \<open>Examples\<close>

text \<open>The sale of the crate's own test (\<open>tx_finalize_test_sale\<close>) at a fixed time, and a clock
  that counts nanoseconds.\<close>

definition clock_ns :: clock where
  "clock_ns = \<lparr> from_timestamp_millis = (\<lambda>ms. Some (sint ms * 1000000)),
     timestamp_millis = (\<lambda>d. word_of_int (d div 1000000)), now_time = 0, now_due = 0 \<rparr>"

definition test_sale :: Tx where
  "test_sale = Tx_default\<lparr> t_site_iid := 1, t_type := TxType_i32 Ty_Sale, t_state := TxState_i32 St_Ok,
     t_time_ts_ms := 1700000000000, t_store_id := 10,
     t_items := [TxItem_default\<lparr> i_product_id := 100, i_price := 5000, i_qty := 2 \<rparr>],
     t_payments := [TxPayment_default\<lparr> p_method := TxPaymentMethod_i32 Pm_Cash, p_amount := 10000 \<rparr>] \<rparr>"

theorem tx_finalize_idempotent_witness:
  "0 <s t_time_ts_ms test_sale \<and> ts_from_ms clock_ns (t_time_ts_ms test_sale) \<noteq> None \<and>
   tx_finalize (clock_ns\<lparr>now_time := 5, now_due := 7\<rparr>) rev (tx_finalize clock_ns rev test_sale) =
     tx_finalize clock_ns rev test_sale"
proof -
  have t: "0 <s t_time_ts_ms test_sale" by code_simp
  have d: "ts_from_ms clock_ns (t_time_ts_ms test_sale) \<noteq> None"
    by code_simp
  show ?thesis using t d tx_finalize_idempotent [OF t d] by blast
qed

theorem tx_finalize_double_entry_witness:
  "permuting rev \<and> acc_total (generated_accs (tx_finalize clock_ns rev test_sale)) = 0 \<and>
   t_acc_balanced (tx_finalize clock_ns rev test_sale)"
  using tx_finalize_double_entry [OF permuting_rev, of clock_ns test_sale]
  by (simp add: permuting_rev test_sale_def manual_accs_def Tx_default_def acc_total_def)

theorem tx_finalize_journal_witness:
  "permuting rev \<and> (\<exists>a \<in> set (generated_accs (tx_finalize clock_ns rev test_sale)).
     a_acc_code a = COA_REVENUE \<and> a_side a = TxAccSide_i32 Side_Credit \<and> a_amount a = 10000 \<and>
     a_ts_ms a = 1700000000000 \<and> a_note a = ''Penjualan'')"
proof -
  let ?a = "build_line 1700000000000 ''Penjualan'' (COA_REVENUE, - 10000)"
  have a: "?a \<in> set (generated_accs (tx_finalize clock_ns rev test_sale))" by code_simp
  have "a_ts_ms ?a = tx_time_ms clock_ns test_sale" "a_note ?a = tx_acc_generated_note test_sale"
    using tx_finalize_journal [OF permuting_rev a] by blast+
  moreover have "a_acc_code ?a = COA_REVENUE \<and> a_side ?a = TxAccSide_i32 Side_Credit \<and> a_amount ?a = 10000"
    by code_simp
  ultimately show ?thesis using a permuting_rev by force
qed

definition test_purchase :: Tx where
  "test_purchase = test_sale\<lparr> t_type := TxType_i32 Ty_Purchase,
     t_taxes := [TxTax_default\<lparr> x_tax_type := ''PPN'', x_amount := 1100 \<rparr>] \<rparr>"

definition test_return :: Tx where
  "test_return = test_sale\<lparr> t_type := TxType_i32 Ty_ReturnSale,
     t_payments := [TxPayment_default\<lparr> p_method := TxPaymentMethod_i32 Pm_Cash, p_amount := 4000 \<rparr>] \<rparr>"

theorem sale_accounts_witness:
  "permuting rev \<and> tx_type (t_type test_sale) = Ty_Sale \<and>
   acc_code_total COA_REVENUE (generated_accs (tx_finalize clock_ns rev test_sale)) = - 10000 \<and>
   acc_code_total COA_AR (generated_accs (tx_finalize clock_ns rev test_sale)) = 0"
proof -
  have t: "tx_type (t_type test_sale) = Ty_Sale" by code_simp
  then have "tx_type (t_type test_sale) = Ty_Sale \<or> tx_type (t_type test_sale) = Ty_Reservation" ..
  note s = sale_accounts [OF permuting_rev this, of clock_ns]
  have "tx_items_gross (tx_finalize clock_ns rev test_sale) = 10000" by code_simp
  moreover have "tx_items_gross (tx_finalize clock_ns rev test_sale)
      - t_total_discounts (tx_finalize clock_ns rev test_sale)
      + t_total_taxes (tx_finalize clock_ns rev test_sale) - settled (tx_finalize clock_ns rev test_sale)
      - t_total_interest (tx_finalize clock_ns rev test_sale) = 0" by code_simp
  ultimately show ?thesis using t s permuting_rev by simp
qed

theorem purchase_accounts_witness:
  "permuting rev \<and> tx_type (t_type test_purchase) = Ty_Purchase \<and>
   acc_code_total COA_INVENTORY (generated_accs (tx_finalize clock_ns rev test_purchase)) = 10000 \<and>
   acc_code_total COA_AP (generated_accs (tx_finalize clock_ns rev test_purchase)) = - 1100"
proof -
  have t: "tx_type (t_type test_purchase) = Ty_Purchase" by code_simp
  note s = purchase_accounts [OF permuting_rev t, of clock_ns]
  have "tx_items_gross (tx_finalize clock_ns rev test_purchase) = 10000" by code_simp
  moreover have "- (tx_items_gross (tx_finalize clock_ns rev test_purchase)
      - t_total_discounts (tx_finalize clock_ns rev test_purchase)
      + (\<Sum>t\<leftarrow>t_taxes (tx_finalize clock_ns rev test_purchase). x_amount t * purchase_tax_sign t)
      - t_total_paid (tx_finalize clock_ns rev test_purchase)) = - 1100" by code_simp
  ultimately show ?thesis using t s permuting_rev by simp
qed

text \<open>A return of goods worth 10000 of which 4000 are refunded books 12000 to the rounding account.\<close>

theorem return_rounding_witness:
  "permuting rev \<and> tx_type (t_type test_return) = Ty_ReturnSale \<and>
   acc_code_total COA_ROUNDING (generated_accs (tx_finalize clock_ns rev test_return)) = - 12000"
proof -
  have t: "tx_type (t_type test_return) = Ty_ReturnSale" by code_simp
  have "- 2 * (tx_items_gross (tx_finalize clock_ns rev test_return)
      + t_total_discounts (tx_finalize clock_ns rev test_return)
      - t_total_taxes (tx_finalize clock_ns rev test_return)
      - t_total_paid (tx_finalize clock_ns rev test_return)) = - 12000" by code_simp
  then show ?thesis using t permuting_rev return_rounding [OF permuting_rev, of test_return clock_ns] by simp
qed

end
