(* ===== verification/Json.thy ===== *)
theory Json
  imports Rust_Prelude
begin

text \<open>
  The JSON values the server exchanges and stores (\<open>serde_json::Value\<close>): the enumeration with
  its documented accessors. An object is an association list with distinct keys, read by
  \<open>get\<close>. A number is a non-negative integer, a negative integer, or a float given by its bits,
  which no accessor of the modelled code reads. Printing and parsing text
  (\<open>Value::to_string\<close>, \<open>serde_json::from_str\<close>) are not modelled: code that calls them takes them
  as arguments.
\<close>

datatype Number = PosInt u64 | NegInt i64 | Float u64

datatype Value = Null | Bool bool | Number Number | String string | Array "Value list"
  | Object "(string \<times> Value) list"

fun get_val :: "Value \<Rightarrow> string \<Rightarrow> Value option" where
  "get_val (Object m) key = map_of m key"
| "get_val _ key = None"

fun as_i64 :: "Value \<Rightarrow> i64 option" where
  "as_i64 (Number (PosInt n)) = (if n < 2 ^ 63 then Some n else None)"
| "as_i64 (Number (NegInt n)) = Some n"
| "as_i64 _ = None"

fun as_bool :: "Value \<Rightarrow> bool option" where
  "as_bool (Bool b) = Some b"
| "as_bool _ = None"

fun as_str :: "Value \<Rightarrow> string option" where
  "as_str (String s) = Some s"
| "as_str _ = None"

fun as_array :: "Value \<Rightarrow> Value list option" where
  "as_array (Array a) = Some a"
| "as_array _ = None"

fun as_object :: "Value \<Rightarrow> (string \<times> Value) list option" where
  "as_object (Object m) = Some m"
| "as_object _ = None"

fun is_null :: "Value \<Rightarrow> bool" where
  "is_null Null = True"
| "is_null _ = False"

text \<open>\<open>json!(n)\<close> for an \<open>i64\<close> and an \<open>i32\<close>, and for an \<open>Option\<close>.\<close>

definition json_i64 :: "i64 \<Rightarrow> Value" where
  "json_i64 n = Number (if n <s 0 then NegInt n else PosInt n)"

definition json_i32 :: "i32 \<Rightarrow> Value" where
  "json_i32 n = json_i64 (scast n)"

definition json_opt :: "('a \<Rightarrow> Value) \<Rightarrow> 'a option \<Rightarrow> Value" where
  "json_opt f x = (case x of None \<Rightarrow> Null | Some a \<Rightarrow> f a)"

definition unwrap_or :: "'a \<Rightarrow> 'a option \<Rightarrow> 'a" where
  "unwrap_or d x = (case x of None \<Rightarrow> d | Some a \<Rightarrow> a)"

lemma unwrap_or_simps [simp]: "unwrap_or d None = d" "unwrap_or d (Some a) = a"
  by (simp_all add: unwrap_or_def)

lemma nonneg_word_small:
  assumes "\<not> (n :: i64) <s 0"
  shows "n < 2 ^ 63"
proof (rule ccontr)
  assume "\<not> n < 2 ^ 63"
  then have ge: "2 ^ 63 \<le> uint n" by (simp add: word_less_def)
  have lt: "uint n < 2 ^ 64" using uint_lt2p [of n] by simp
  have "(uint n + 2 ^ 63) mod 2 ^ 64 = (uint n + 2 ^ 63 - 2 ^ 64) mod 2 ^ 64"
    by (simp only: minus_mod_self2)
  also have "\<dots> = uint n + 2 ^ 63 - 2 ^ 64"
    by (rule mod_pos_pos_trivial) (use ge lt in simp_all)
  finally have "signed_take_bit 63 (uint n) = uint n - 2 ^ 64"
    by (simp add: signed_take_bit_eq_take_bit_shift take_bit_eq_mod)
  with assms lt show False by (simp add: word_sless_alt sint_uint)
qed

lemma as_i64_json [simp]: "as_i64 (json_i64 n) = Some n"
  using nonneg_word_small [of n] by (auto simp: json_i64_def)

lemma as_i64_json_i32 [simp]: "as_i64 (json_i32 n) = Some (scast n)"
  by (simp add: json_i32_def)

lemma json_i64_not_null [simp]: "json_i64 n \<noteq> Null" "json_i64 n \<noteq> String s"
  by (simp_all add: json_i64_def)

end
