(* ===== verification/Tx_Json.thy ===== *)
theory Tx_Json
  imports Json Tx_Types
begin

text \<open>
  Transactions as JSON (\<open>servers/crates/mod_tx/src/tx_json.rs\<close>, the tool interface) and the
  \<open>tx_data_json\<close> column (\<open>tx_data.rs\<close>), with what survives a round trip. \<open>to_string\<close> is
  \<open>Value::to_string\<close> and \<open>from_str\<close> is \<open>serde_json::from_str\<close>.
\<close>

section \<open>Fields\<close>

definition i64_field :: "Value \<Rightarrow> string \<Rightarrow> i64" where
  "i64_field v key = unwrap_or 0 (Option.bind (get_val v key) as_i64)"

definition i32_field :: "Value \<Rightarrow> string \<Rightarrow> i32" where
  "i32_field v key = unwrap_or 0 (map_option scast (Option.bind (get_val v key) as_i64))"

definition bool_field :: "Value \<Rightarrow> string \<Rightarrow> bool" where
  "bool_field v key = unwrap_or False (Option.bind (get_val v key) as_bool)"

definition str_field :: "Value \<Rightarrow> string \<Rightarrow> string" where
  "str_field v key = unwrap_or [] (Option.bind (get_val v key) as_str)"

definition arr_field :: "Value \<Rightarrow> string \<Rightarrow> (Value \<Rightarrow> 'a) \<Rightarrow> 'a list" where
  "arr_field v key f = unwrap_or [] (map_option (map f) (Option.bind (get_val v key) as_array))"

definition str_list_field :: "Value \<Rightarrow> string \<Rightarrow> string list" where
  "str_list_field v key =
     unwrap_or [] (map_option (List.map_filter as_str) (Option.bind (get_val v key) as_array))"

definition enum_i32 :: "Value \<Rightarrow> string \<Rightarrow> (string \<Rightarrow> 'e) \<Rightarrow> (i32 \<Rightarrow> 'e) \<Rightarrow> ('e \<Rightarrow> i32) \<Rightarrow> i32" where
  "enum_i32 v key from_str from_i32 into =
     (case get_val v key of
        Some (String s) \<Rightarrow> into (from_str s)
      | Some (Number n) \<Rightarrow> into (from_i32 (scast (unwrap_or 0 (as_i64 (Number n)))))
      | _ \<Rightarrow> into (from_str []))"

text \<open>The \<open>payment_json\<close> field of a payment: the member printed again, unless it prints as nothing
  or \<open>null\<close>.\<close>

definition payment_json_field :: "(Value \<Rightarrow> string) \<Rightarrow> Value \<Rightarrow> string" where
  "payment_json_field to_string v =
     (case get_val v ''payment_json'' of
        None \<Rightarrow> []
      | Some p \<Rightarrow> let s = to_string p in if s \<noteq> [] \<and> s \<noteq> ''null'' then s else [])"

section \<open>\<open>tx_data\<close>\<close>

definition tx_prompt_to_json :: "TxPrompt \<Rightarrow> Value" where
  "tx_prompt_to_json p = Object [(''pics'', Array (map String (pr_pics p))), (''desc'', String (pr_desc p))]"

definition tx_delivery_to_to_json :: "TxDeliveryTo \<Rightarrow> Value" where
  "tx_delivery_to_to_json t = Object [(''name'', String (dt_name t)), (''phone'', String (dt_phone t)),
     (''address'', String (dt_address t)), (''email'', String (dt_email t))]"

definition tx_delivery_service_to_json :: "TxDeliveryService \<Rightarrow> Value" where
  "tx_delivery_service_to_json s = Object [(''name'', String (ds_name s)),
     (''tracking_number'', String (ds_tracking_number s)),
     (''tracking_url'', String (ds_tracking_url s)), (''note'', String (ds_note s))]"

definition tx_delivery_to_json :: "TxDelivery \<Rightarrow> Value" where
  "tx_delivery_to_json d = Object [
     (''obj_id'', json_i64 (dl_obj_id d)), (''contact_id'', json_i64 (dl_contact_id d)),
     (''user_iid'', json_i64 (dl_user_iid d)), (''state'', String (dl_state d)),
     (''to'', json_opt tx_delivery_to_to_json (dl_to d)),
     (''service'', json_opt tx_delivery_service_to_json (dl_service d))]"

definition tx_promo_to_json :: "TxPromo \<Rightarrow> Value" where
  "tx_promo_to_json p = Object [(''promo_id'', String (pm_promo_id p)), (''code'', String (pm_code p)),
     (''name'', String (pm_name p)), (''amount'', json_i64 (pm_amount p))]"

definition tx_data_to_json :: "TxData \<Rightarrow> Value" where
  "tx_data_to_json data =
     (let prompt = json_opt tx_prompt_to_json (td_prompt data);
          delivery = json_opt tx_delivery_to_json (td_delivery data);
          promos = map tx_promo_to_json (td_promos data)
      in Object [(''proofs'', Array (map String (td_proofs data))), (''prompt'', prompt),
           (''delivery'', delivery), (''promos'', Array promos)])"

definition tx_prompt_from_json :: "Value \<Rightarrow> TxPrompt" where
  "tx_prompt_from_json p = \<lparr> pr_pics = str_list_field p ''pics'', pr_desc = str_field p ''desc'' \<rparr>"

definition tx_delivery_to_from_json :: "Value \<Rightarrow> TxDeliveryTo" where
  "tx_delivery_to_from_json t = \<lparr> dt_name = str_field t ''name'', dt_phone = str_field t ''phone'',
     dt_address = str_field t ''address'', dt_email = str_field t ''email'' \<rparr>"

definition tx_delivery_service_from_json :: "Value \<Rightarrow> TxDeliveryService" where
  "tx_delivery_service_from_json s = \<lparr> ds_name = str_field s ''name'',
     ds_tracking_number = str_field s ''tracking_number'',
     ds_tracking_url = str_field s ''tracking_url'', ds_note = str_field s ''note'' \<rparr>"

definition tx_delivery_from_json :: "Value \<Rightarrow> TxDelivery" where
  "tx_delivery_from_json d = \<lparr>
     dl_obj_id = i64_field d ''obj_id'', dl_contact_id = i64_field d ''contact_id'',
     dl_user_iid = i64_field d ''user_iid'',
     dl_to = map_option tx_delivery_to_from_json (get_val d ''to''),
     dl_service = map_option tx_delivery_service_from_json (get_val d ''service''),
     dl_state = str_field d ''state'' \<rparr>"

definition tx_promo_from_json :: "Value \<Rightarrow> TxPromo" where
  "tx_promo_from_json p = \<lparr> pm_promo_id = str_field p ''promo_id'', pm_code = str_field p ''code'',
     pm_name = str_field p ''name'', pm_amount = i64_field p ''amount'' \<rparr>"

definition tx_data_from_json :: "Value \<Rightarrow> TxData option" where
  "tx_data_from_json v =
     (if is_null v then None
      else Some \<lparr>
        td_proofs = str_list_field v ''proofs'',
        td_prompt = map_option tx_prompt_from_json (get_val v ''prompt''),
        td_delivery = map_option tx_delivery_from_json (get_val v ''delivery''),
        td_promos = arr_field v ''promos'' tx_promo_from_json \<rparr>)"

section \<open>Messages\<close>

definition tx_item_reservation_from_json :: "Value \<Rightarrow> TxItemReservation" where
  "tx_item_reservation_from_json v = \<lparr>
     r_res_id = i64_field v ''res_id'',
     r_product_id = i64_field v ''product_id'',
     r_qty = i32_field v ''qty'',
     r_duration_qty = i32_field v ''duration_qty'',
     r_note = str_field v ''note'',
     r_site_object_id = i64_field v ''site_object_id'',
     r_start_ts_ms = i64_field v ''start_ts_ms'',
     r_end_ts_ms = i64_field v ''end_ts_ms'',
     r_state = str_field v ''state'',
     r_is_no_show = bool_field v ''is_no_show'',
     r_is_unavailable = bool_field v ''is_unavailable'' \<rparr>"

definition tx_item_reservation_to_json :: "TxItemReservation \<Rightarrow> Value" where
  "tx_item_reservation_to_json r = Object [
     (''res_id'', json_i64 (r_res_id r)),
     (''product_id'', json_i64 (r_product_id r)),
     (''qty'', json_i32 (r_qty r)),
     (''duration_qty'', json_i32 (r_duration_qty r)),
     (''note'', String (r_note r)),
     (''site_object_id'', json_i64 (r_site_object_id r)),
     (''start_ts_ms'', json_i64 (r_start_ts_ms r)),
     (''end_ts_ms'', json_i64 (r_end_ts_ms r)),
     (''state'', String (r_state r)),
     (''is_no_show'', Bool (r_is_no_show r)),
     (''is_unavailable'', Bool (r_is_unavailable r))]"

definition tx_item_source_from_json :: "Value \<Rightarrow> TxItemSource" where
  "tx_item_source_from_json v = \<lparr>
     s_src_id = i64_field v ''src_id'',
     s_obj_id = i64_field v ''obj_id'',
     s_product_id = i64_field v ''product_id'',
     s_qty = i32_field v ''qty'',
     s_note = str_field v ''note'' \<rparr>"

definition tx_item_source_to_json :: "TxItemSource \<Rightarrow> Value" where
  "tx_item_source_to_json s = Object [
     (''src_id'', json_i64 (s_src_id s)),
     (''obj_id'', json_i64 (s_obj_id s)),
     (''product_id'', json_i64 (s_product_id s)),
     (''qty'', json_i32 (s_qty s)),
     (''note'', String (s_note s))]"

definition tx_item_from_json :: "Value \<Rightarrow> TxItem" where
  "tx_item_from_json v = \<lparr>
     i_site_iid = i64_field v ''site_iid'',
     i_tx_id = i64_field v ''tx_id'',
     i_item_id = i64_field v ''item_id'',
     i_owner_iid = i64_field v ''owner_iid'',
     i_product_id = i64_field v ''product_id'',
     i_product_rev = i64_field v ''product_rev'',
     i_obj_id = i64_field v ''obj_id'',
     i_price = i64_field v ''price'',
     i_qty = i32_field v ''qty'',
     i_note = str_field v ''note'',
     i_batch_number = str_field v ''batch_number'',
     i_serial_number = str_field v ''serial_number'',
     i_fulfillment_state = enum_i32 v ''fulfillment_state'' tx_fulfillment_from_str (\<lambda>n. unwrap_or Ful_Unspecified (TxItemFulfillmentState_try_from n)) TxItemFulfillmentState_i32,
     i_total_qty = i32_field v ''total_qty'',
     i_total_price = i64_field v ''total_price'',
     i_total_discount = i64_field v ''total_discount'',
     i_total_tax = i64_field v ''total_tax'',
     i_total_net = i64_field v ''total_net'',
     i_total_paid = i64_field v ''total_paid'',
     i_total_unpaid = i64_field v ''total_unpaid'',
     i_reservations = arr_field v ''reservations'' tx_item_reservation_from_json,
     i_sources = arr_field v ''sources'' tx_item_source_from_json \<rparr>"

definition tx_item_to_json :: "TxItem \<Rightarrow> Value" where
  "tx_item_to_json i = Object [
     (''site_iid'', json_i64 (i_site_iid i)),
     (''tx_id'', json_i64 (i_tx_id i)),
     (''item_id'', json_i64 (i_item_id i)),
     (''owner_iid'', json_i64 (i_owner_iid i)),
     (''product_id'', json_i64 (i_product_id i)),
     (''product_rev'', json_i64 (i_product_rev i)),
     (''obj_id'', json_i64 (i_obj_id i)),
     (''price'', json_i64 (i_price i)),
     (''qty'', json_i32 (i_qty i)),
     (''note'', String (i_note i)),
     (''batch_number'', String (i_batch_number i)),
     (''serial_number'', String (i_serial_number i)),
     (''fulfillment_state'', String (tx_fulfillment_str (unwrap_or Ful_Unspecified (TxItemFulfillmentState_try_from (i_fulfillment_state i))))),
     (''total_qty'', json_i32 (i_total_qty i)),
     (''total_price'', json_i64 (i_total_price i)),
     (''total_discount'', json_i64 (i_total_discount i)),
     (''total_tax'', json_i64 (i_total_tax i)),
     (''total_net'', json_i64 (i_total_net i)),
     (''total_paid'', json_i64 (i_total_paid i)),
     (''total_unpaid'', json_i64 (i_total_unpaid i)),
     (''reservations'', Array (map tx_item_reservation_to_json (i_reservations i))),
     (''sources'', Array (map tx_item_source_to_json (i_sources i)))]"

definition tx_debt_payment_from_json :: "(Value \<Rightarrow> string) \<Rightarrow> Value \<Rightarrow> TxDebtPayment" where
  "tx_debt_payment_from_json to_string v = \<lparr>
     d_pay_id = i64_field v ''pay_id'',
     d_ts_ms = i64_field v ''ts_ms'',
     d_method = enum_i32 v ''method'' tx_debt_payment_method_from_str (\<lambda>n. unwrap_or Dpm_Unspecified (TxDebtPaymentMethod_try_from n)) TxDebtPaymentMethod_i32,
     d_amount = i64_field v ''amount'',
     d_note = str_field v ''note'',
     d_overdue_interest = i64_field v ''overdue_interest'',
     d_payment_json = payment_json_field to_string v \<rparr>"

definition tx_debt_payment_to_json :: "TxDebtPayment \<Rightarrow> Value" where
  "tx_debt_payment_to_json p = Object [
     (''pay_id'', json_i64 (d_pay_id p)),
     (''ts_ms'', json_i64 (d_ts_ms p)),
     (''method'', String (tx_debt_payment_method_str (unwrap_or Dpm_Unspecified (TxDebtPaymentMethod_try_from (d_method p))))),
     (''amount'', json_i64 (d_amount p)),
     (''note'', String (d_note p)),
     (''overdue_interest'', json_i64 (d_overdue_interest p)),
     (''payment_json'', String (d_payment_json p))]"

definition tx_installment_from_json :: "(Value \<Rightarrow> string) \<Rightarrow> Value \<Rightarrow> TxInstallment" where
  "tx_installment_from_json to_string v = \<lparr>
     n_inst_id = i64_field v ''inst_id'',
     n_due_ts_ms = i64_field v ''due_ts_ms'',
     n_amount = i64_field v ''amount'',
     n_note = str_field v ''note'',
     n_is_paid = bool_field v ''is_paid'',
     n_is_overdue = bool_field v ''is_overdue'',
     n_debt_payments = arr_field v ''debt_payments'' (tx_debt_payment_from_json to_string) \<rparr>"

definition tx_installment_to_json :: "TxInstallment \<Rightarrow> Value" where
  "tx_installment_to_json i = Object [
     (''inst_id'', json_i64 (n_inst_id i)),
     (''due_ts_ms'', json_i64 (n_due_ts_ms i)),
     (''amount'', json_i64 (n_amount i)),
     (''note'', String (n_note i)),
     (''is_paid'', Bool (n_is_paid i)),
     (''is_overdue'', Bool (n_is_overdue i)),
     (''debt_payments'', Array (map tx_debt_payment_to_json (n_debt_payments i)))]"

definition tx_payment_from_json :: "(Value \<Rightarrow> string) \<Rightarrow> Value \<Rightarrow> TxPayment" where
  "tx_payment_from_json to_string v = \<lparr>
     p_payment_id = i64_field v ''payment_id'',
     p_method = enum_i32 v ''method'' tx_payment_method_from_str (\<lambda>n. unwrap_or Pm_Unspecified (TxPaymentMethod_try_from n)) TxPaymentMethod_i32,
     p_ts_ms = i64_field v ''ts_ms'',
     p_amount = i64_field v ''amount'',
     p_note = str_field v ''note'',
     p_from_wallet = str_field v ''from_wallet'',
     p_to_wallet = str_field v ''to_wallet'',
     p_debt_interest = i64_field v ''debt_interest'',
     p_payment_json = payment_json_field to_string v,
     p_installments = arr_field v ''installments'' (tx_installment_from_json to_string) \<rparr>"

definition tx_payment_to_json :: "TxPayment \<Rightarrow> Value" where
  "tx_payment_to_json p = Object [
     (''payment_id'', json_i64 (p_payment_id p)),
     (''method'', String (tx_payment_method_str (unwrap_or Pm_Unspecified (TxPaymentMethod_try_from (p_method p))))),
     (''ts_ms'', json_i64 (p_ts_ms p)),
     (''amount'', json_i64 (p_amount p)),
     (''note'', String (p_note p)),
     (''from_wallet'', String (p_from_wallet p)),
     (''to_wallet'', String (p_to_wallet p)),
     (''debt_interest'', json_i64 (p_debt_interest p)),
     (''payment_json'', String (p_payment_json p)),
     (''installments'', Array (map tx_installment_to_json (p_installments p)))]"

definition tx_acc_from_json :: "Value \<Rightarrow> TxAcc" where
  "tx_acc_from_json v = \<lparr>
     a_acc_id = i64_field v ''acc_id'',
     a_acc_code = str_field v ''acc_code'',
     a_ts_ms = i64_field v ''ts_ms'',
     a_side = enum_i32 v ''side'' tx_acc_side_from_str (\<lambda>n. unwrap_or Side_Unspecified (TxAccSide_try_from n)) TxAccSide_i32,
     a_amount = i64_field v ''amount'',
     a_note = str_field v ''note'',
     a_is_tx_generated = bool_field v ''is_tx_generated'' \<rparr>"

definition tx_acc_to_json :: "TxAcc \<Rightarrow> Value" where
  "tx_acc_to_json a = Object [
     (''acc_id'', json_i64 (a_acc_id a)),
     (''acc_code'', String (a_acc_code a)),
     (''ts_ms'', json_i64 (a_ts_ms a)),
     (''side'', String (tx_acc_side_str (unwrap_or Side_Unspecified (TxAccSide_try_from (a_side a))))),
     (''amount'', json_i64 (a_amount a)),
     (''note'', String (a_note a)),
     (''is_tx_generated'', Bool (a_is_tx_generated a))]"

definition tx_stock_from_json :: "Value \<Rightarrow> TxStock" where
  "tx_stock_from_json v = \<lparr>
     k_stock_id = i64_field v ''stock_id'',
     k_product_id = i64_field v ''product_id'',
     k_ts_ms = i64_field v ''ts_ms'',
     k_obj_from_id = i64_field v ''obj_from_id'',
     k_obj_to_id = i64_field v ''obj_to_id'',
     k_qty = i32_field v ''qty'',
     k_qty_signed = i32_field v ''qty_signed'',
     k_direction = str_field v ''direction'',
     k_note = str_field v ''note'' \<rparr>"

definition tx_stock_to_json :: "TxStock \<Rightarrow> Value" where
  "tx_stock_to_json s = Object [
     (''stock_id'', json_i64 (k_stock_id s)),
     (''product_id'', json_i64 (k_product_id s)),
     (''ts_ms'', json_i64 (k_ts_ms s)),
     (''obj_from_id'', json_i64 (k_obj_from_id s)),
     (''obj_to_id'', json_i64 (k_obj_to_id s)),
     (''qty'', json_i32 (k_qty s)),
     (''qty_signed'', json_i32 (k_qty_signed s)),
     (''direction'', String (k_direction s)),
     (''note'', String (k_note s))]"

definition tx_tax_from_json :: "Value \<Rightarrow> TxTax" where
  "tx_tax_from_json v = \<lparr>
     x_tax_id = i64_field v ''tax_id'',
     x_tax_type = str_field v ''tax_type'',
     x_amount = i64_field v ''amount'',
     x_note = str_field v ''note'' \<rparr>"

definition tx_tax_to_json :: "TxTax \<Rightarrow> Value" where
  "tx_tax_to_json t = Object [
     (''tax_id'', json_i64 (x_tax_id t)),
     (''tax_type'', String (x_tax_type t)),
     (''amount'', json_i64 (x_amount t)),
     (''note'', String (x_note t))]"

definition tx_discount_from_json :: "Value \<Rightarrow> TxDiscount" where
  "tx_discount_from_json v = \<lparr>
     c_discount_id = i64_field v ''discount_id'',
     c_discount_type = str_field v ''discount_type'',
     c_amount = i64_field v ''amount'',
     c_note = str_field v ''note'' \<rparr>"

definition tx_discount_to_json :: "TxDiscount \<Rightarrow> Value" where
  "tx_discount_to_json d = Object [
     (''discount_id'', json_i64 (c_discount_id d)),
     (''discount_type'', String (c_discount_type d)),
     (''amount'', json_i64 (c_amount d)),
     (''note'', String (c_note d))]"

definition tx_from_json :: "(Value \<Rightarrow> string) \<Rightarrow> Value \<Rightarrow> string + Tx" where
  "tx_from_json to_string v = Inr \<lparr>
     t_site_iid = i64_field v ''site_iid'',
     t_tx_id = i64_field v ''tx_id'',
     t_type = enum_i32 v ''type'' tx_type_from_str tx_type TxType_i32,
     t_state = enum_i32 v ''state'' tx_state_from_str tx_state TxState_i32,
     t_input_mode = enum_i32 v ''input_mode'' tx_input_mode_from_str (\<lambda>n. unwrap_or Mode_Normal (TxInputMode_try_from n)) TxInputMode_i32,
     t_input_source = enum_i32 v ''input_source'' tx_input_source_from_str (\<lambda>n. unwrap_or Src_Unspecified (TxInputSource_try_from n)) TxInputSource_i32,
     t_is_archived = bool_field v ''is_archived'',
     t_desc = str_field v ''desc'',
     t_time_ts_ms = i64_field v ''time_ts_ms'',
     t_created_by_iid = i64_field v ''created_by_iid'',
     t_cancel_reason = str_field v ''cancel_reason'',
     t_subject_contact_id = i64_field v ''subject_contact_id'',
     t_subject_name = str_field v ''subject_name'',
     t_subject_phone = str_field v ''subject_phone'',
     t_subject_address = str_field v ''subject_address'',
     t_cashier_name = str_field v ''cashier_name'',
     t_store_id = i64_field v ''store_id'',
     t_store_tgt_id = i64_field v ''store_tgt_id'',
     t_delivery_state = str_field v ''delivery_state'',
     t_obj_id = i64_field v ''obj_id'',
     t_promo_code = str_field v ''promo_code'',
     t_is_paid = bool_field v ''is_paid'',
     t_is_task_assigned = bool_field v ''is_task_assigned'',
     t_order_pay_at = enum_i32 v ''order_pay_at'' tx_order_pay_at_from_str (\<lambda>n. unwrap_or PayAt_Unspecified (TxOrderPayAt_try_from n)) TxOrderPayAt_i32,
     t_items_count = i64_field v ''items_count'',
     t_items_qty = i64_field v ''items_qty'',
     t_items_total = i64_field v ''items_total'',
     t_debt_total = i64_field v ''debt_total'',
     t_debt_paid = i64_field v ''debt_paid'',
     t_debt_unpaid = i64_field v ''debt_unpaid'',
     t_total_taxes = i64_field v ''total_taxes'',
     t_total_discounts = i64_field v ''total_discounts'',
     t_total_interest = i64_field v ''total_interest'',
     t_total_paid = i64_field v ''total_paid'',
     t_total_unpaid = i64_field v ''total_unpaid'',
     t_total = i64_field v ''total'',
     t_stock_line_count = i32_field v ''stock_line_count'',
     t_stock_qty_in = i32_field v ''stock_qty_in'',
     t_stock_qty_out = i32_field v ''stock_qty_out'',
     t_acc_line_count = i32_field v ''acc_line_count'',
     t_acc_sum = i64_field v ''acc_sum'',
     t_acc_balanced = bool_field v ''acc_balanced'',
     t_has_manual_lines = bool_field v ''has_manual_lines'',
     t_tx_data = Option.bind (get_val v ''tx_data'') tx_data_from_json,
     t_items = arr_field v ''items'' tx_item_from_json,
     t_payments = arr_field v ''payments'' (tx_payment_from_json to_string),
     t_accs = arr_field v ''accs'' tx_acc_from_json,
     t_stocks = arr_field v ''stocks'' tx_stock_from_json,
     t_taxes = arr_field v ''taxes'' tx_tax_from_json,
     t_discounts = arr_field v ''discounts'' tx_discount_from_json,
     t_created_ts_ms = i64_field v ''created_ts_ms'',
     t_updated_ts_ms = i64_field v ''updated_ts_ms'',
     t_deleted_ts_ms = i64_field v ''deleted_ts_ms'' \<rparr>"

definition tx_to_json :: "Tx \<Rightarrow> Value" where
  "tx_to_json tx = Object ([
     (''site_iid'', json_i64 (t_site_iid tx)),
     (''tx_id'', json_i64 (t_tx_id tx)),
     (''type'', String (tx_type_str (tx_type (t_type tx)))),
     (''state'', String (tx_state_str (tx_state (t_state tx)))),
     (''input_mode'', String (tx_input_mode_str (unwrap_or Mode_Normal (TxInputMode_try_from (t_input_mode tx))))),
     (''input_source'', String (tx_input_source_str (unwrap_or Src_Unspecified (TxInputSource_try_from (t_input_source tx))))),
     (''is_archived'', Bool (t_is_archived tx)),
     (''desc'', String (t_desc tx)),
     (''time_ts_ms'', json_i64 (t_time_ts_ms tx)),
     (''created_by_iid'', json_i64 (t_created_by_iid tx)),
     (''cancel_reason'', String (t_cancel_reason tx)),
     (''subject_contact_id'', json_i64 (t_subject_contact_id tx)),
     (''subject_name'', String (t_subject_name tx)),
     (''subject_phone'', String (t_subject_phone tx)),
     (''subject_address'', String (t_subject_address tx)),
     (''cashier_name'', String (t_cashier_name tx)),
     (''store_id'', json_i64 (t_store_id tx)),
     (''store_tgt_id'', json_i64 (t_store_tgt_id tx)),
     (''delivery_state'', String (t_delivery_state tx)),
     (''obj_id'', json_i64 (t_obj_id tx)),
     (''promo_code'', String (t_promo_code tx)),
     (''is_paid'', Bool (t_is_paid tx)),
     (''is_task_assigned'', Bool (t_is_task_assigned tx)),
     (''order_pay_at'', String (tx_order_pay_at_str (unwrap_or PayAt_Unspecified (TxOrderPayAt_try_from (t_order_pay_at tx))))),
     (''items_count'', json_i64 (t_items_count tx)),
     (''items_qty'', json_i64 (t_items_qty tx)),
     (''items_total'', json_i64 (t_items_total tx)),
     (''debt_total'', json_i64 (t_debt_total tx)),
     (''debt_paid'', json_i64 (t_debt_paid tx)),
     (''debt_unpaid'', json_i64 (t_debt_unpaid tx)),
     (''total_taxes'', json_i64 (t_total_taxes tx)),
     (''total_discounts'', json_i64 (t_total_discounts tx)),
     (''total_interest'', json_i64 (t_total_interest tx)),
     (''total_paid'', json_i64 (t_total_paid tx)),
     (''total_unpaid'', json_i64 (t_total_unpaid tx)),
     (''total'', json_i64 (t_total tx)),
     (''stock_line_count'', json_i32 (t_stock_line_count tx)),
     (''stock_qty_in'', json_i32 (t_stock_qty_in tx)),
     (''stock_qty_out'', json_i32 (t_stock_qty_out tx)),
     (''acc_line_count'', json_i32 (t_acc_line_count tx)),
     (''acc_sum'', json_i64 (t_acc_sum tx)),
     (''acc_balanced'', Bool (t_acc_balanced tx)),
     (''has_manual_lines'', Bool (t_has_manual_lines tx))] @
    (case t_tx_data tx of Some data \<Rightarrow> [(''tx_data'', tx_data_to_json data)] | None \<Rightarrow> []) @ [
     (''items'', Array (map tx_item_to_json (t_items tx))),
     (''payments'', Array (map tx_payment_to_json (t_payments tx))),
     (''accs'', Array (map tx_acc_to_json (t_accs tx))),
     (''stocks'', Array (map tx_stock_to_json (t_stocks tx))),
     (''taxes'', Array (map tx_tax_to_json (t_taxes tx))),
     (''discounts'', Array (map tx_discount_to_json (t_discounts tx))),
     (''created_ts_ms'', json_i64 (t_created_ts_ms tx)),
     (''updated_ts_ms'', json_i64 (t_updated_ts_ms tx)),
     (''deleted_ts_ms'', json_i64 (t_deleted_ts_ms tx))])"

definition tx_json_parse ::
  "(Value \<Rightarrow> string) \<Rightarrow> (string \<Rightarrow> string + Value) \<Rightarrow> Value \<Rightarrow> string + Tx" where
  "tx_json_parse to_string from_str args =
     (case Option.bind (get_val args ''tx_json'') as_str of
        Some raw \<Rightarrow> (case from_str raw of
            Inl e \<Rightarrow> Inl (''invalid tx_json: '' @ e)
          | Inr v \<Rightarrow> tx_from_json to_string v)
      | None \<Rightarrow> (case get_val args ''tx'' of
            Some tx \<Rightarrow> tx_from_json to_string tx
          | None \<Rightarrow> Inl ''tx_json or tx is required''))"

definition tx_debt_payment_json_parse ::
  "(Value \<Rightarrow> string) \<Rightarrow> (string \<Rightarrow> string + Value) \<Rightarrow> Value \<Rightarrow> string + TxDebtPayment" where
  "tx_debt_payment_json_parse to_string from_str args =
     (case Option.bind (get_val args ''payment_json'') as_str of
        Some raw \<Rightarrow> (case from_str raw of
            Inl e \<Rightarrow> Inl (''invalid payment_json: '' @ e)
          | Inr v \<Rightarrow> Inr (tx_debt_payment_from_json to_string v))
      | None \<Rightarrow> (case get_val args ''payment'' of
            Some p \<Rightarrow> Inr (tx_debt_payment_from_json to_string p)
          | None \<Rightarrow> Inl ''payment or payment_json is required''))"

definition tx_header_compact_json :: "Tx \<Rightarrow> Value" where
  "tx_header_compact_json tx = Object [
     (''site_iid'', json_i64 (t_site_iid tx)), (''tx_id'', json_i64 (t_tx_id tx)),
     (''type'', String (tx_type_str (tx_type (t_type tx)))),
     (''state'', String (tx_state_str (tx_state (t_state tx)))),
     (''desc'', String (t_desc tx)), (''time_ts_ms'', json_i64 (t_time_ts_ms tx)),
     (''total'', json_i64 (t_total tx)), (''total_paid'', json_i64 (t_total_paid tx)),
     (''cashier_name'', String (t_cashier_name tx)), (''subject_name'', String (t_subject_name tx))]"

definition tx_result_json :: "Tx \<Rightarrow> Value" where
  "tx_result_json tx = Object [
     (''ok'', Bool True), (''site_iid'', json_i64 (t_site_iid tx)), (''tx_id'', json_i64 (t_tx_id tx)),
     (''total'', json_i64 (t_total tx)), (''state'', String (tx_state_str (tx_state (t_state tx)))),
     (''tx'', tx_to_json tx)]"

section \<open>Round trips\<close>

lemmas field_defs = i64_field_def i32_field_def bool_field_def str_field_def arr_field_def
  str_list_field_def enum_i32_def payment_json_field_def

lemma map_filter_as_str [simp]: "List.map_filter as_str (map String xs) = xs"
  by (induction xs) (simp_all add: List.map_filter_simps)

lemma map_id_law: "(\<And>x. f (g x) = h x) \<Longrightarrow> map (f \<circ> g) xs = map h xs"
  by simp

lemma reservation_roundtrip [simp]: "tx_item_reservation_from_json (tx_item_reservation_to_json r) = r"
  by (simp add: tx_item_reservation_from_json_def tx_item_reservation_to_json_def field_defs)

lemma source_roundtrip [simp]: "tx_item_source_from_json (tx_item_source_to_json s) = s"
  by (simp add: tx_item_source_from_json_def tx_item_source_to_json_def field_defs)

lemma stock_roundtrip [simp]: "tx_stock_from_json (tx_stock_to_json s) = s"
  by (simp add: tx_stock_from_json_def tx_stock_to_json_def field_defs)

lemma tax_roundtrip [simp]: "tx_tax_from_json (tx_tax_to_json t) = t"
  by (simp add: tx_tax_from_json_def tx_tax_to_json_def field_defs)

lemma discount_roundtrip [simp]: "tx_discount_from_json (tx_discount_to_json d) = d"
  by (simp add: tx_discount_from_json_def tx_discount_to_json_def field_defs)

text \<open>What a round trip makes of an item, an account line and a payment: unknown enumeration
  numbers become their default, and \<open>payment_json\<close> is quoted once more.\<close>

definition item_json_norm :: "TxItem \<Rightarrow> TxItem" where
  "item_json_norm i = i\<lparr> i_fulfillment_state :=
     TxItemFulfillmentState_i32 (unwrap_or Ful_Unspecified (TxItemFulfillmentState_try_from (i_fulfillment_state i))) \<rparr>"

definition acc_json_norm :: "TxAcc \<Rightarrow> TxAcc" where
  "acc_json_norm a = a\<lparr> a_side :=
     TxAccSide_i32 (stored_side (unwrap_or Side_Unspecified (TxAccSide_try_from (a_side a)))) \<rparr>"

definition requoted :: "(Value \<Rightarrow> string) \<Rightarrow> string \<Rightarrow> string" where
  "requoted to_string s = (let r = to_string (String s) in if r \<noteq> [] \<and> r \<noteq> ''null'' then r else [])"

definition debt_payment_json_norm :: "(Value \<Rightarrow> string) \<Rightarrow> TxDebtPayment \<Rightarrow> TxDebtPayment" where
  "debt_payment_json_norm to_string d = d\<lparr>
     d_method := TxDebtPaymentMethod_i32 (stored_debt_method
       (unwrap_or Dpm_Unspecified (TxDebtPaymentMethod_try_from (d_method d)))),
     d_payment_json := requoted to_string (d_payment_json d) \<rparr>"

definition installment_json_norm :: "(Value \<Rightarrow> string) \<Rightarrow> TxInstallment \<Rightarrow> TxInstallment" where
  "installment_json_norm to_string n =
     n\<lparr> n_debt_payments := map (debt_payment_json_norm to_string) (n_debt_payments n) \<rparr>"

definition payment_json_norm :: "(Value \<Rightarrow> string) \<Rightarrow> TxPayment \<Rightarrow> TxPayment" where
  "payment_json_norm to_string p = p\<lparr>
     p_method := TxPaymentMethod_i32 (stored_method (tx_payment_method (p_method p))),
     p_payment_json := requoted to_string (p_payment_json p),
     p_installments := map (installment_json_norm to_string) (p_installments p) \<rparr>"

lemma item_roundtrip: "tx_item_from_json (tx_item_to_json i) = item_json_norm i"
  by (simp add: tx_item_from_json_def tx_item_to_json_def item_json_norm_def field_defs comp_def)

lemma acc_roundtrip: "tx_acc_from_json (tx_acc_to_json a) = acc_json_norm a"
  by (simp add: tx_acc_from_json_def tx_acc_to_json_def acc_json_norm_def field_defs comp_def)

lemma debt_payment_roundtrip:
  "tx_debt_payment_from_json ts (tx_debt_payment_to_json d) = debt_payment_json_norm ts d"
  by (simp add: tx_debt_payment_from_json_def tx_debt_payment_to_json_def debt_payment_json_norm_def
      requoted_def field_defs comp_def)

lemma installment_roundtrip:
  "tx_installment_from_json ts (tx_installment_to_json n) = installment_json_norm ts n"
  by (simp add: tx_installment_from_json_def tx_installment_to_json_def installment_json_norm_def
      field_defs comp_def debt_payment_roundtrip)

lemma payment_roundtrip: "tx_payment_from_json ts (tx_payment_to_json p) = payment_json_norm ts p"
  by (simp add: tx_payment_from_json_def tx_payment_to_json_def payment_json_norm_def
      requoted_def field_defs comp_def installment_roundtrip tx_payment_method_def unwrap_or_def)

text \<open>An absent prompt or delivery is written as \<open>null\<close> and read back as an empty one.\<close>

definition delivery_json_norm :: "TxDelivery \<Rightarrow> TxDelivery" where
  "delivery_json_norm d = d\<lparr>
     dl_to := Some (unwrap_or TxDeliveryTo_default (dl_to d)),
     dl_service := Some (unwrap_or TxDeliveryService_default (dl_service d)) \<rparr>"

definition tx_data_json_norm :: "TxData \<Rightarrow> TxData" where
  "tx_data_json_norm t = t\<lparr>
     td_prompt := Some (unwrap_or TxPrompt_default (td_prompt t)),
     td_delivery := Some (case td_delivery t of Some d \<Rightarrow> delivery_json_norm d | None \<Rightarrow> TxDelivery_default) \<rparr>"

lemma tx_data_part_roundtrips [simp]:
  "tx_prompt_from_json (tx_prompt_to_json p) = p"
  "tx_delivery_to_from_json (tx_delivery_to_to_json t) = t"
  "tx_delivery_service_from_json (tx_delivery_service_to_json s) = s"
  "tx_promo_from_json (tx_promo_to_json m) = m"
  by (simp_all add: tx_prompt_from_json_def tx_prompt_to_json_def tx_delivery_to_from_json_def
      tx_delivery_to_to_json_def tx_delivery_service_from_json_def tx_delivery_service_to_json_def
      tx_promo_from_json_def tx_promo_to_json_def field_defs)

lemma tx_data_part_null [simp]:
  "tx_prompt_from_json Null = TxPrompt_default"
  "tx_delivery_to_from_json Null = TxDeliveryTo_default"
  "tx_delivery_service_from_json Null = TxDeliveryService_default"
  "tx_delivery_from_json Null = TxDelivery_default"
  by (simp_all add: tx_prompt_from_json_def tx_delivery_to_from_json_def tx_delivery_service_from_json_def
      tx_delivery_from_json_def TxPrompt_default_def TxDeliveryTo_default_def
      TxDeliveryService_default_def TxDelivery_default_def field_defs)

lemma delivery_roundtrip: "tx_delivery_from_json (tx_delivery_to_json d) = delivery_json_norm d"
  by (cases "dl_to d"; cases "dl_service d")
    (simp_all add: tx_delivery_from_json_def tx_delivery_to_json_def delivery_json_norm_def field_defs
      json_opt_def)

lemma tx_data_roundtrip: "tx_data_from_json (tx_data_to_json t) = Some (tx_data_json_norm t)"
  by (cases "td_prompt t"; cases "td_delivery t")
    (simp_all add: tx_data_from_json_def tx_data_to_json_def tx_data_json_norm_def Let_def
      json_opt_def delivery_roundtrip field_defs comp_def)

lemma tx_get0:
  "get_val (tx_to_json tx) ''site_iid'' = Some (json_i64 (t_site_iid tx))"
  "get_val (tx_to_json tx) ''tx_id'' = Some (json_i64 (t_tx_id tx))"
  "get_val (tx_to_json tx) ''type'' = Some (String (tx_type_str (tx_type (t_type tx))))"
  "get_val (tx_to_json tx) ''state'' = Some (String (tx_state_str (tx_state (t_state tx))))"
  "get_val (tx_to_json tx) ''input_mode'' = Some (String (tx_input_mode_str (unwrap_or Mode_Normal (TxInputMode_try_from (t_input_mode tx)))))"
  "get_val (tx_to_json tx) ''input_source'' = Some (String (tx_input_source_str (unwrap_or Src_Unspecified (TxInputSource_try_from (t_input_source tx)))))"
  "get_val (tx_to_json tx) ''is_archived'' = Some (Bool (t_is_archived tx))"
  "get_val (tx_to_json tx) ''desc'' = Some (String (t_desc tx))"
  "get_val (tx_to_json tx) ''time_ts_ms'' = Some (json_i64 (t_time_ts_ms tx))"
  by (simp_all add: tx_to_json_def split: option.split)

lemma tx_get1:
  "get_val (tx_to_json tx) ''created_by_iid'' = Some (json_i64 (t_created_by_iid tx))"
  "get_val (tx_to_json tx) ''cancel_reason'' = Some (String (t_cancel_reason tx))"
  "get_val (tx_to_json tx) ''subject_contact_id'' = Some (json_i64 (t_subject_contact_id tx))"
  "get_val (tx_to_json tx) ''subject_name'' = Some (String (t_subject_name tx))"
  "get_val (tx_to_json tx) ''subject_phone'' = Some (String (t_subject_phone tx))"
  "get_val (tx_to_json tx) ''subject_address'' = Some (String (t_subject_address tx))"
  "get_val (tx_to_json tx) ''cashier_name'' = Some (String (t_cashier_name tx))"
  "get_val (tx_to_json tx) ''store_id'' = Some (json_i64 (t_store_id tx))"
  "get_val (tx_to_json tx) ''store_tgt_id'' = Some (json_i64 (t_store_tgt_id tx))"
  by (simp_all add: tx_to_json_def split: option.split)

lemma tx_get2:
  "get_val (tx_to_json tx) ''delivery_state'' = Some (String (t_delivery_state tx))"
  "get_val (tx_to_json tx) ''obj_id'' = Some (json_i64 (t_obj_id tx))"
  "get_val (tx_to_json tx) ''promo_code'' = Some (String (t_promo_code tx))"
  "get_val (tx_to_json tx) ''is_paid'' = Some (Bool (t_is_paid tx))"
  "get_val (tx_to_json tx) ''is_task_assigned'' = Some (Bool (t_is_task_assigned tx))"
  "get_val (tx_to_json tx) ''order_pay_at'' = Some (String (tx_order_pay_at_str (unwrap_or PayAt_Unspecified (TxOrderPayAt_try_from (t_order_pay_at tx)))))"
  "get_val (tx_to_json tx) ''items_count'' = Some (json_i64 (t_items_count tx))"
  "get_val (tx_to_json tx) ''items_qty'' = Some (json_i64 (t_items_qty tx))"
  "get_val (tx_to_json tx) ''items_total'' = Some (json_i64 (t_items_total tx))"
  by (simp_all add: tx_to_json_def split: option.split)

lemma tx_get3:
  "get_val (tx_to_json tx) ''debt_total'' = Some (json_i64 (t_debt_total tx))"
  "get_val (tx_to_json tx) ''debt_paid'' = Some (json_i64 (t_debt_paid tx))"
  "get_val (tx_to_json tx) ''debt_unpaid'' = Some (json_i64 (t_debt_unpaid tx))"
  "get_val (tx_to_json tx) ''total_taxes'' = Some (json_i64 (t_total_taxes tx))"
  "get_val (tx_to_json tx) ''total_discounts'' = Some (json_i64 (t_total_discounts tx))"
  "get_val (tx_to_json tx) ''total_interest'' = Some (json_i64 (t_total_interest tx))"
  "get_val (tx_to_json tx) ''total_paid'' = Some (json_i64 (t_total_paid tx))"
  "get_val (tx_to_json tx) ''total_unpaid'' = Some (json_i64 (t_total_unpaid tx))"
  "get_val (tx_to_json tx) ''total'' = Some (json_i64 (t_total tx))"
  by (simp_all add: tx_to_json_def split: option.split)

lemma tx_get4:
  "get_val (tx_to_json tx) ''stock_line_count'' = Some (json_i32 (t_stock_line_count tx))"
  "get_val (tx_to_json tx) ''stock_qty_in'' = Some (json_i32 (t_stock_qty_in tx))"
  "get_val (tx_to_json tx) ''stock_qty_out'' = Some (json_i32 (t_stock_qty_out tx))"
  "get_val (tx_to_json tx) ''acc_line_count'' = Some (json_i32 (t_acc_line_count tx))"
  "get_val (tx_to_json tx) ''acc_sum'' = Some (json_i64 (t_acc_sum tx))"
  "get_val (tx_to_json tx) ''acc_balanced'' = Some (Bool (t_acc_balanced tx))"
  "get_val (tx_to_json tx) ''has_manual_lines'' = Some (Bool (t_has_manual_lines tx))"
  "get_val (tx_to_json tx) ''items'' = Some (Array (map tx_item_to_json (t_items tx)))"
  "get_val (tx_to_json tx) ''payments'' = Some (Array (map tx_payment_to_json (t_payments tx)))"
  by (simp_all add: tx_to_json_def split: option.split)

lemma tx_get5:
  "get_val (tx_to_json tx) ''accs'' = Some (Array (map tx_acc_to_json (t_accs tx)))"
  "get_val (tx_to_json tx) ''stocks'' = Some (Array (map tx_stock_to_json (t_stocks tx)))"
  "get_val (tx_to_json tx) ''taxes'' = Some (Array (map tx_tax_to_json (t_taxes tx)))"
  "get_val (tx_to_json tx) ''discounts'' = Some (Array (map tx_discount_to_json (t_discounts tx)))"
  "get_val (tx_to_json tx) ''created_ts_ms'' = Some (json_i64 (t_created_ts_ms tx))"
  "get_val (tx_to_json tx) ''updated_ts_ms'' = Some (json_i64 (t_updated_ts_ms tx))"
  "get_val (tx_to_json tx) ''deleted_ts_ms'' = Some (json_i64 (t_deleted_ts_ms tx))"
  by (simp_all add: tx_to_json_def split: option.split)

lemmas tx_get = tx_get0 tx_get1 tx_get2 tx_get3 tx_get4 tx_get5

lemma tx_get_data:
  "get_val (tx_to_json tx) ''tx_data'' = map_option tx_data_to_json (t_tx_data tx)"
  by (simp add: tx_to_json_def split: option.split)

definition tx_json_norm :: "(Value \<Rightarrow> string) \<Rightarrow> Tx \<Rightarrow> Tx" where
  "tx_json_norm to_string tx = tx\<lparr>
     t_type := TxType_i32 (stored_type (tx_type (t_type tx))),
     t_state := TxState_i32 (tx_state (t_state tx)),
     t_input_mode := TxInputMode_i32 (unwrap_or Mode_Normal (TxInputMode_try_from (t_input_mode tx))),
     t_input_source := TxInputSource_i32 (stored_source (unwrap_or Src_Unspecified (TxInputSource_try_from (t_input_source tx)))),
     t_order_pay_at := TxOrderPayAt_i32 (unwrap_or PayAt_Unspecified (TxOrderPayAt_try_from (t_order_pay_at tx))),
     t_tx_data := map_option tx_data_json_norm (t_tx_data tx),
     t_items := map item_json_norm (t_items tx),
     t_payments := map (payment_json_norm to_string) (t_payments tx),
     t_accs := map acc_json_norm (t_accs tx) \<rparr>"

lemma tx_roundtrip: "tx_from_json to_string (tx_to_json tx) = Inr (tx_json_norm to_string tx)"
  by (cases "t_tx_data tx")
    (simp_all add: tx_from_json_def tx_json_norm_def tx_get tx_get_data field_defs comp_def
      item_roundtrip acc_roundtrip payment_roundtrip tx_data_roundtrip)

text \<open>Claim C26. A transaction handed out as a tool result can be handed back as a tool argument:
  \<open>tx_json_parse\<close> of \<open>tx_result_json\<close> gives the transaction with every field kept, except that
  unknown or unspecified enumeration numbers become their defaults, an absent prompt or delivery
  becomes an empty one, and \<open>payment_json\<close> is printed again (\<open>tx_json_norm\<close>).\<close>

theorem tx_json_result_roundtrip:
  "tx_json_parse to_string from_str (tx_result_json tx) = Inr (tx_json_norm to_string tx)"
  by (simp add: tx_json_parse_def tx_result_json_def tx_roundtrip)

text \<open>The \<open>tx_data_json\<close> column is read back with proofs, prompt, delivery and promotions
  as written, but an absent prompt or delivery (and an absent recipient or carrier) comes back as
  an empty one; after two round trips the value is stable.\<close>

theorem tx_data_json_reload:
  "tx_data_from_json (tx_data_to_json t) = Some (tx_data_json_norm t) \<and>
   tx_data_json_norm (tx_data_json_norm (tx_data_json_norm t)) = tx_data_json_norm (tx_data_json_norm t) \<and>
   td_prompt (tx_data_json_norm t) \<noteq> None \<and> td_delivery (tx_data_json_norm t) \<noteq> None"
  by (auto simp: tx_data_roundtrip tx_data_json_norm_def delivery_json_norm_def TxDelivery_default_def
      split: option.split)

text \<open>\<open>payment_json\<close> does not survive a round trip: the text is stored as a JSON string and
  read back by printing that string, so it gains a pair of quotes each time (an empty text
  becomes a pair of quotes).\<close>

theorem payment_json_requoted:
  assumes "\<And>s. \<exists>r. to_string (String s) = CHR 0x22 # r \<and> length s < length r"
  shows "tx_payment_from_json to_string (tx_payment_to_json p) \<noteq> p \<and>
    length (p_payment_json p) + 2 \<le>
      length (p_payment_json (tx_payment_from_json to_string (tx_payment_to_json p)))"
proof (intro conjI)
  obtain r where r: "to_string (String (p_payment_json p)) = CHR 0x22 # r" "length (p_payment_json p) < length r"
    using assms by blast
  then have "p_payment_json (tx_payment_from_json to_string (tx_payment_to_json p)) = CHR 0x22 # r"
    by (simp add: payment_roundtrip payment_json_norm_def requoted_def)
  with r(2) show len: "length (p_payment_json p) + 2 \<le>
      length (p_payment_json (tx_payment_from_json to_string (tx_payment_to_json p)))" by simp
  then show "tx_payment_from_json to_string (tx_payment_to_json p) \<noteq> p" by auto
qed

definition quote_str :: "Value \<Rightarrow> string" where
  "quote_str v = (case v of String s \<Rightarrow> CHR 0x22 # s @ [CHR 0x22] | _ \<Rightarrow> ''null'')"

theorem payment_json_requoted_witness:
  "(\<forall>s. \<exists>r. quote_str (String s) = CHR 0x22 # r \<and> length s < length r) \<and>
   tx_payment_from_json quote_str (tx_payment_to_json TxPayment_default) \<noteq> TxPayment_default"
proof -
  have q: "\<And>s. \<exists>r. quote_str (String s) = CHR 0x22 # r \<and> length s < length r"
    by (simp add: quote_str_def)
  show ?thesis using q payment_json_requoted [OF q, of TxPayment_default] by blast
qed

end
