(* ===== verification/Tx_Db.thy ===== *)
theory Tx_Db
  imports Tx_Json Tx_Totals
begin

text \<open>
  The tables behind transactions (\<open>_/schemas/tx.sql\<close>), the rows the code writes to them
  (\<open>servers/crates/mod_tx/src/persist.rs\<close>) and how it reads them (\<open>rows.rs\<close>).

  A connection (\<open>conn\<close>) holds the tables, the number of ids drawn from \<open>snowflake_id\<close> and the
  number of readings of \<open>Utc::now\<close>. A statement returns the new connection or an error; the
  errors are those the schema's constraints raise: a duplicate primary key, a failed \<open>CHECK\<close>,
  a missing identity, a text too long for its column. What a call finds around it is a
  \<open>penv\<close>: the ids and clock readings to come, \<open>NOW()\<close> of the transaction, the identities, and
  the functions of \<open>chrono\<close> and \<open>serde_json\<close>.
\<close>

section \<open>Statements\<close>

definition bindE :: "'e + 'a \<Rightarrow> ('a \<Rightarrow> 'e + 'b) \<Rightarrow> 'e + 'b" where
  "bindE x f = (case x of Inl e \<Rightarrow> Inl e | Inr a \<Rightarrow> f a)"

fun forE :: "('x \<Rightarrow> 's \<Rightarrow> 'e + 's) \<Rightarrow> 'x list \<Rightarrow> 's \<Rightarrow> 'e + 's" where
  "forE f [] s = Inr s"
| "forE f (x # xs) s = bindE (f x s) (forE f xs)"

fun mapE :: "('x \<Rightarrow> 's \<Rightarrow> 'e + 'y \<times> 's) \<Rightarrow> 'x list \<Rightarrow> 's \<Rightarrow> 'e + 'y list \<times> 's" where
  "mapE f [] s = Inr ([], s)"
| "mapE f (x # xs) s = bindE (f x s) (\<lambda>(y, s). bindE (mapE f xs s) (\<lambda>(ys, s). Inr (y # ys, s)))"

section \<open>Rows\<close>

record 'a row =
  w_site :: i64
  w_tx :: i64
  w_created :: datetime
  w_updated :: datetime
  w_deleted :: "datetime option"
  w_cols :: 'a

record TxCols =
  h_owner_iid :: i64
  h_ty :: string
  h_state :: string
  h_input_mode :: string
  h_input_source :: string
  h_is_archived :: bool
  h_desc :: string
  h_time_ts :: datetime
  h_created_by_iid :: "i64 option"
  h_cancel_reason :: "string option"
  h_subject_contact_id :: i64
  h_subject_name :: string
  h_subject_phone :: string
  h_subject_address :: string
  h_cashier_name :: string
  h_store_id :: i64
  h_store_tgt_id :: i64
  h_delivery_state :: string
  h_obj_id :: i64
  h_promo_code :: string
  h_is_paid :: bool
  h_is_task_assigned :: bool
  h_order_pay_at :: string
  h_items_count :: i64
  h_items_qty :: i64
  h_items_total :: i64
  h_debt_total :: i64
  h_debt_paid :: i64
  h_debt_unpaid :: i64
  h_total_taxes :: i64
  h_total_discounts :: i64
  h_total_interest :: i64
  h_total_paid :: i64
  h_total_unpaid :: i64
  h_total :: i64
  h_stock_line_count :: i32
  h_stock_qty_in :: i32
  h_stock_qty_out :: i32
  h_acc_line_count :: i32
  h_acc_sum :: i64
  h_acc_balanced :: bool
  h_has_manual_lines :: bool
  h_generated_count :: i32
  h_manual_count :: i32
  h_tx_data_json :: Value

record ItemCols =
  ci_item_id :: i64
  ci_owner_iid :: i64
  ci_obj_id :: i64
  ci_product_id :: i64
  ci_product_rev :: i64
  ci_price :: i64
  ci_qty :: i32
  ci_note :: string
  ci_batch_number :: string
  ci_serial_number :: string
  ci_fulfillment_state :: string
  ci_total_qty :: i32
  ci_total_price :: i64
  ci_total_discount :: i64
  ci_total_tax :: i64
  ci_total_net :: i64
  ci_total_paid :: i64
  ci_total_unpaid :: i64

record SourceCols =
  cs_item_id :: i64
  cs_src_id :: i64
  cs_obj_id :: i64
  cs_product_id :: i64
  cs_qty :: i32
  cs_note :: string

record ReservationCols =
  cr_item_id :: i64
  cr_res_id :: i64
  cr_product_id :: i64
  cr_site_object_id :: i64
  cr_qty :: i32
  cr_duration_qty :: i32
  cr_note :: string
  cr_start_ts :: "datetime option"
  cr_end_ts :: "datetime option"
  cr_state :: string
  cr_is_no_show :: bool
  cr_is_unavailable :: bool

record PaymentCols =
  cp_payment_id :: i64
  cp_method :: string
  cp_ts :: datetime
  cp_amount :: i64
  cp_note :: string
  cp_from_wallet :: string
  cp_to_wallet :: string
  cp_debt_interest :: i64
  cp_payment_json :: Value

record InstallmentCols =
  cn_payment_id :: i64
  cn_inst_id :: i64
  cn_due_ts :: "datetime option"
  cn_amount :: i64
  cn_note :: string
  cn_is_paid :: bool
  cn_is_overdue :: bool

record DebtPaymentCols =
  cd_payment_id :: i64
  cd_inst_id :: i64
  cd_pay_id :: i64
  cd_ts :: datetime
  cd_method :: string
  cd_amount :: i64
  cd_note :: string
  cd_overdue_interest :: i64
  cd_payment_json :: Value
  cd_is_paid :: bool
  cd_is_overdue :: bool

record AccCols =
  ca_acc_id :: i64
  ca_acc_code :: string
  ca_ts :: datetime
  ca_side :: string
  ca_amount :: i64
  ca_note :: string
  ca_is_tx_generated :: bool

record StockCols =
  ck_stock_id :: i64
  ck_product_id :: i64
  ck_ts :: datetime
  ck_obj_from_id :: i64
  ck_obj_to_id :: i64
  ck_qty :: i32
  ck_qty_signed :: i32
  ck_direction :: string
  ck_note :: string

text \<open>The columns of a tax or discount line are the fields of its message.\<close>

record ProductRow =
  pd_site_iid :: i64
  pd_product_id :: i64
  pd_can_reserve :: bool
  pd_track_stock :: bool
  pd_stock_qty :: i32
  pd_is_used :: bool
  pd_can_sell :: bool
  pd_is_archived :: bool
  pd_price :: i64
  pd_rev :: i64
  pd_json :: string
  pd_owner_iid :: i64
  pd_type :: i32
  pd_name :: string
  pd_desc :: string
  pd_unit :: string
  pd_sku :: string
  pd_pic :: string
  pd_category :: string
  pd_search_text :: string
  pd_sort_order :: i32
  pd_recommended_guest :: bool
  pd_created :: datetime
  pd_updated :: datetime
  pd_deleted :: "datetime option"

record conn =
  q_tx :: "TxCols row list"
  q_item :: "ItemCols row list"
  q_source :: "SourceCols row list"
  q_reservation :: "ReservationCols row list"
  q_payment :: "PaymentCols row list"
  q_installment :: "InstallmentCols row list"
  q_debt_payment :: "DebtPaymentCols row list"
  q_acc :: "AccCols row list"
  q_stock :: "StockCols row list"
  q_tax :: "TxTax row list"
  q_discount :: "TxDiscount row list"
  q_product :: "ProductRow list"
  c_next :: nat
  c_tick :: nat

record penv =
  p_ids :: "nat \<Rightarrow> i64"
  p_utc :: "nat \<Rightarrow> datetime"
  p_now :: datetime
  p_identity :: "i64 \<Rightarrow> bool"
  p_clock :: clock
  p_from_str :: "string \<Rightarrow> string + Value"
  p_to_string :: "Value \<Rightarrow> string"

definition snowflake_draw :: "penv \<Rightarrow> conn \<Rightarrow> i64 \<times> conn" where
  "snowflake_draw e s = (p_ids e (c_next s), s\<lparr> c_next := c_next s + 1 \<rparr>)"

definition utc_now :: "penv \<Rightarrow> conn \<Rightarrow> datetime \<times> conn" where
  "utc_now e s = (p_utc e (c_tick s), s\<lparr> c_tick := c_tick s + 1 \<rparr>)"

text \<open>\<open>if id > 0 { id } else { snowflake_id() }\<close> and \<open>ts_from_ms(ms).unwrap_or_else(Utc::now)\<close>.\<close>

definition id_or_draw :: "penv \<Rightarrow> i64 \<Rightarrow> conn \<Rightarrow> i64 \<times> conn" where
  "id_or_draw e i s = (if 0 <s i then (i, s) else snowflake_draw e s)"

definition ts_or_now :: "penv \<Rightarrow> i64 \<Rightarrow> conn \<Rightarrow> datetime \<times> conn" where
  "ts_or_now e ms s = (case ts_from_ms (p_clock e) ms of Some t \<Rightarrow> (t, s) | None \<Rightarrow> utc_now e s)"

definition new_row :: "penv \<Rightarrow> i64 \<Rightarrow> i64 \<Rightarrow> 'a \<Rightarrow> 'a row" where
  "new_row e site tx c = \<lparr> w_site = site, w_tx = tx, w_created = p_now e, w_updated = p_now e,
     w_deleted = None, w_cols = c \<rparr>"

definition of_tx :: "i64 \<Rightarrow> i64 \<Rightarrow> 'a row \<Rightarrow> bool" where
  "of_tx site tx r \<longleftrightarrow> w_site r = site \<and> w_tx r = tx"

definition live_of_tx :: "i64 \<Rightarrow> i64 \<Rightarrow> 'a row \<Rightarrow> bool" where
  "live_of_tx site tx r \<longleftrightarrow> of_tx site tx r \<and> w_deleted r = None"

text \<open>\<open>INSERT\<close>: the column checks, then the primary key \<open>(site_iid, tx_id, key)\<close>.\<close>

definition insert_row :: "('a \<Rightarrow> 'k) \<Rightarrow> ('a \<Rightarrow> bool) \<Rightarrow> 'a row \<Rightarrow> 'a row list \<Rightarrow> string + 'a row list" where
  "insert_row key ok r t =
     (if \<not> ok (w_cols r) then Inl ''constraint''
      else if \<exists>q \<in> set t. of_tx (w_site r) (w_tx r) q \<and> key (w_cols q) = key (w_cols r)
      then Inl ''duplicate key''
      else Inr (t @ [r]))"

definition delete_rows :: "i64 \<Rightarrow> i64 \<Rightarrow> 'a row list \<Rightarrow> 'a row list" where
  "delete_rows site tx t = filter (\<lambda>r. \<not> of_tx site tx r) t"

definition varchar32 :: "string \<Rightarrow> bool" where
  "varchar32 s \<longleftrightarrow> length s \<le> 32"

section \<open>Writing\<close>

definition tx_children_del :: "i64 \<Rightarrow> i64 \<Rightarrow> conn \<Rightarrow> string + conn" where
  "tx_children_del site tx s = Inr (s\<lparr>
     q_debt_payment := delete_rows site tx (q_debt_payment s),
     q_installment := delete_rows site tx (q_installment s),
     q_reservation := delete_rows site tx (q_reservation s),
     q_source := delete_rows site tx (q_source s),
     q_item := delete_rows site tx (q_item s),
     q_payment := delete_rows site tx (q_payment s),
     q_acc := delete_rows site tx (q_acc s),
     q_stock := delete_rows site tx (q_stock s),
     q_tax := delete_rows site tx (q_tax s),
     q_discount := delete_rows site tx (q_discount s) \<rparr>)"

definition header_cols :: "i64 \<Rightarrow> datetime \<Rightarrow> i32 \<Rightarrow> i32 \<Rightarrow> Tx \<Rightarrow> TxCols" where
  "header_cols owner_iid time_ts generated_count manual_count tx = \<lparr>
     h_owner_iid = owner_iid,
     h_ty = tx_type_str (unwrap_or Ty_Unspecified (TxType_try_from (t_type tx))),
     h_state = tx_state_str (unwrap_or St_Ok (TxState_try_from (t_state tx))),
     h_input_mode = tx_input_mode_str (unwrap_or Mode_Normal (TxInputMode_try_from (t_input_mode tx))),
     h_input_source = tx_input_source_str (unwrap_or Src_Manual (TxInputSource_try_from (t_input_source tx))),
     h_is_archived = t_is_archived tx, h_desc = t_desc tx, h_time_ts = time_ts,
     h_created_by_iid = (if 0 <s t_created_by_iid tx then Some (t_created_by_iid tx) else None),
     h_cancel_reason = (if t_cancel_reason tx = [] then None else Some (t_cancel_reason tx)),
     h_subject_contact_id = t_subject_contact_id tx, h_subject_name = t_subject_name tx,
     h_subject_phone = t_subject_phone tx, h_subject_address = t_subject_address tx,
     h_cashier_name = t_cashier_name tx, h_store_id = t_store_id tx,
     h_store_tgt_id = t_store_tgt_id tx, h_delivery_state = t_delivery_state tx,
     h_obj_id = t_obj_id tx, h_promo_code = t_promo_code tx, h_is_paid = t_is_paid tx,
     h_is_task_assigned = t_is_task_assigned tx,
     h_order_pay_at = tx_order_pay_at_str (unwrap_or PayAt_Unspecified (TxOrderPayAt_try_from (t_order_pay_at tx))),
     h_items_count = t_items_count tx, h_items_qty = t_items_qty tx,
     h_items_total = t_items_total tx, h_debt_total = t_debt_total tx,
     h_debt_paid = t_debt_paid tx, h_debt_unpaid = t_debt_unpaid tx,
     h_total_taxes = t_total_taxes tx, h_total_discounts = t_total_discounts tx,
     h_total_interest = t_total_interest tx, h_total_paid = t_total_paid tx,
     h_total_unpaid = t_total_unpaid tx, h_total = t_total tx,
     h_stock_line_count = t_stock_line_count tx, h_stock_qty_in = t_stock_qty_in tx,
     h_stock_qty_out = t_stock_qty_out tx, h_acc_line_count = t_acc_line_count tx,
     h_acc_sum = t_acc_sum tx, h_acc_balanced = t_acc_balanced tx,
     h_has_manual_lines = t_has_manual_lines tx, h_generated_count = generated_count,
     h_manual_count = manual_count,
     h_tx_data_json = (case t_tx_data tx of Some data \<Rightarrow> tx_data_to_json data | None \<Rightarrow> Object []) \<rparr>"

definition chk_tx :: "penv \<Rightarrow> i64 \<Rightarrow> TxCols \<Rightarrow> bool" where
  "chk_tx e site c \<longleftrightarrow>
     h_ty c \<in> {''sale'', ''purchase'', ''transfer'', ''adjustment'', ''return_sale'', ''return_purchase'',
       ''reservation'', ''ship'', ''payment'', ''receipt'', ''debt_payable'', ''debt_receivable'', ''inventory''} \<and>
     h_state c \<in> {''ok'', ''draft'', ''pending'', ''waiting_payment'', ''cancelled''} \<and>
     h_input_mode c \<in> {''normal'', ''accounting'', ''sell'', ''purchase''} \<and>
     h_input_source c \<in> {''manual'', ''web'', ''ai'', ''api''} \<and>
     varchar32 (h_delivery_state c) \<and>
     p_identity e site \<and> p_identity e (h_owner_iid c) \<and>
     (case h_created_by_iid c of None \<Rightarrow> True | Some i \<Rightarrow> p_identity e i)"

definition tx_header_put :: "penv \<Rightarrow> i64 \<Rightarrow> Tx \<Rightarrow> i32 \<Rightarrow> i32 \<Rightarrow> conn \<Rightarrow> string + conn" where
  "tx_header_put e owner_iid tx generated_count manual_count s =
     (let (time_ts, s) = ts_or_now e (t_time_ts_ms tx) s;
          c = header_cols owner_iid time_ts generated_count manual_count tx;
          mine = of_tx (t_site_iid tx) (t_tx_id tx)
      in if \<not> chk_tx e (t_site_iid tx) c then Inl ''constraint''
         else if \<exists>q \<in> set (q_tx s). mine q
         then Inr (s\<lparr> q_tx := map (\<lambda>q. if mine q
                then q\<lparr> w_updated := p_now e, w_deleted := None, w_cols := c \<rparr> else q) (q_tx s) \<rparr>)
         else Inr (s\<lparr> q_tx := q_tx s @ [new_row e (t_site_iid tx) (t_tx_id tx) c] \<rparr>))"

definition tx_items_ensure_ids :: "penv \<Rightarrow> TxItem list \<Rightarrow> conn \<Rightarrow> string + TxItem list \<times> conn" where
  "tx_items_ensure_ids e items s =
     mapE (\<lambda>item s. if i_item_id item = 0
                    then let (i, s) = snowflake_draw e s in Inr (item\<lparr> i_item_id := i \<rparr>, s)
                    else Inr (item, s)) items s"

definition item_cols :: "i64 \<Rightarrow> TxItem \<Rightarrow> ItemCols" where
  "item_cols site item = \<lparr>
     ci_item_id = i_item_id item,
     ci_owner_iid = (if 0 <s i_owner_iid item then i_owner_iid item else site),
     ci_obj_id = i_obj_id item, ci_product_id = i_product_id item, ci_product_rev = i_product_rev item,
     ci_price = i_price item, ci_qty = i_qty item, ci_note = i_note item,
     ci_batch_number = i_batch_number item, ci_serial_number = i_serial_number item,
     ci_fulfillment_state = tx_fulfillment_str
       (unwrap_or Ful_Unspecified (TxItemFulfillmentState_try_from (i_fulfillment_state item))),
     ci_total_qty = i_total_qty item, ci_total_price = i_total_price item,
     ci_total_discount = i_total_discount item, ci_total_tax = i_total_tax item,
     ci_total_net = i_total_net item, ci_total_paid = i_total_paid item,
     ci_total_unpaid = i_total_unpaid item \<rparr>"

definition site_product_mark_used :: "penv \<Rightarrow> i64 \<Rightarrow> i64 \<Rightarrow> conn \<Rightarrow> string + conn" where
  "site_product_mark_used e site product s =
     (if site \<le>s 0 \<or> product \<le>s 0 then Inr s
      else Inr (s\<lparr> q_product := map (\<lambda>p.
        if pd_site_iid p = site \<and> pd_product_id p = product \<and> \<not> pd_is_used p \<and> pd_deleted p = None
        then p\<lparr> pd_is_used := True, pd_updated := p_now e \<rparr> else p) (q_product s) \<rparr>))"

definition source_put :: "penv \<Rightarrow> i64 \<Rightarrow> i64 \<Rightarrow> i64 \<Rightarrow> TxItemSource \<Rightarrow> conn \<Rightarrow> string + conn" where
  "source_put e site tx item_id src s =
     (let (src_id, s) = id_or_draw e (s_src_id src) s;
          c = \<lparr> cs_item_id = item_id, cs_src_id = src_id, cs_obj_id = s_obj_id src,
                cs_product_id = s_product_id src, cs_qty = s_qty src, cs_note = s_note src \<rparr>
      in bindE (insert_row (\<lambda>c. (cs_item_id c, cs_src_id c)) (\<lambda>_. True) (new_row e site tx c) (q_source s))
           (\<lambda>t. Inr (s\<lparr> q_source := t \<rparr>)))"

definition reservation_put :: "penv \<Rightarrow> i64 \<Rightarrow> i64 \<Rightarrow> i64 \<Rightarrow> TxItemReservation \<Rightarrow> conn \<Rightarrow> string + conn" where
  "reservation_put e site tx item_id res s =
     (let (res_id, s) = id_or_draw e (r_res_id res) s;
          c = \<lparr> cr_item_id = item_id, cr_res_id = res_id, cr_product_id = r_product_id res,
                cr_site_object_id = r_site_object_id res, cr_qty = r_qty res,
                cr_duration_qty = r_duration_qty res, cr_note = r_note res,
                cr_start_ts = ts_from_ms (p_clock e) (r_start_ts_ms res),
                cr_end_ts = ts_from_ms (p_clock e) (r_end_ts_ms res), cr_state = r_state res,
                cr_is_no_show = r_is_no_show res, cr_is_unavailable = r_is_unavailable res \<rparr>
      in bindE (insert_row (\<lambda>c. (cr_item_id c, cr_res_id c)) (\<lambda>c. varchar32 (cr_state c))
             (new_row e site tx c) (q_reservation s))
           (\<lambda>t. Inr (s\<lparr> q_reservation := t \<rparr>)))"

definition item_put :: "penv \<Rightarrow> i64 \<Rightarrow> i64 \<Rightarrow> TxItem \<Rightarrow> conn \<Rightarrow> string + conn" where
  "item_put e site tx item s =
     bindE (insert_row ci_item_id (\<lambda>c. p_identity e (ci_owner_iid c))
              (new_row e site tx (item_cols site item)) (q_item s)) (\<lambda>t.
     bindE (if 0 <s i_product_id item then site_product_mark_used e site (i_product_id item) (s\<lparr> q_item := t \<rparr>)
            else Inr (s\<lparr> q_item := t \<rparr>)) (\<lambda>s.
     bindE (forE (source_put e site tx (i_item_id item)) (i_sources item) s) (\<lambda>s.
     forE (reservation_put e site tx (i_item_id item)) (i_reservations item) s)))"

text \<open>\<open>payment_json\<close> is stored as JSON; text that does not parse becomes an empty object.\<close>

definition payment_json_value :: "penv \<Rightarrow> string \<Rightarrow> Value" where
  "payment_json_value e s =
     (if s = [] then Object [] else case p_from_str e s of Inl _ \<Rightarrow> Object [] | Inr v \<Rightarrow> v)"

definition debt_payment_put ::
  "penv \<Rightarrow> i64 \<Rightarrow> i64 \<Rightarrow> i64 \<Rightarrow> i64 \<Rightarrow> TxDebtPayment \<Rightarrow> conn \<Rightarrow> string + TxDebtPayment \<times> conn" where
  "debt_payment_put e site tx payment_id inst_id dp s =
     (let (pay_id, s) = id_or_draw e (d_pay_id dp) s;
          dp_method = unwrap_or Dpm_Unspecified (TxDebtPaymentMethod_try_from (d_method dp));
          (ts, s) = ts_or_now e (d_ts_ms dp) s;
          c = \<lparr> cd_payment_id = payment_id, cd_inst_id = inst_id, cd_pay_id = pay_id, cd_ts = ts,
                cd_method = tx_debt_payment_method_str dp_method, cd_amount = d_amount dp,
                cd_note = d_note dp, cd_overdue_interest = d_overdue_interest dp,
                cd_payment_json = payment_json_value e (d_payment_json dp),
                cd_is_paid = (0 <s d_amount dp), cd_is_overdue = False \<rparr>
      in bindE (insert_row (\<lambda>c. (cd_payment_id c, cd_inst_id c, cd_pay_id c)) (\<lambda>_. True)
             (new_row e site tx c) (q_debt_payment s))
           (\<lambda>t. Inr (dp\<lparr> d_pay_id := pay_id \<rparr>, s\<lparr> q_debt_payment := t \<rparr>)))"

definition installment_put ::
  "penv \<Rightarrow> i64 \<Rightarrow> i64 \<Rightarrow> i64 \<Rightarrow> TxInstallment \<Rightarrow> conn \<Rightarrow> string + TxInstallment \<times> conn" where
  "installment_put e site tx payment_id inst s =
     (let (inst_id, s) = id_or_draw e (n_inst_id inst) s;
          c = \<lparr> cn_payment_id = payment_id, cn_inst_id = inst_id,
                cn_due_ts = ts_from_ms (p_clock e) (n_due_ts_ms inst), cn_amount = n_amount inst,
                cn_note = n_note inst, cn_is_paid = n_is_paid inst, cn_is_overdue = n_is_overdue inst \<rparr>
      in bindE (insert_row (\<lambda>c. (cn_payment_id c, cn_inst_id c)) (\<lambda>_. True)
             (new_row e site tx c) (q_installment s)) (\<lambda>t.
         bindE (mapE (debt_payment_put e site tx payment_id inst_id) (n_debt_payments inst)
             (s\<lparr> q_installment := t \<rparr>)) (\<lambda>(dps, s).
         Inr (inst\<lparr> n_inst_id := inst_id, n_debt_payments := dps \<rparr>, s))))"

definition payment_put :: "penv \<Rightarrow> i64 \<Rightarrow> i64 \<Rightarrow> TxPayment \<Rightarrow> conn \<Rightarrow> string + TxPayment \<times> conn" where
  "payment_put e site tx p s =
     (let (payment_id, s) = id_or_draw e (p_payment_id p) s;
          pm = unwrap_or Pm_Unspecified (TxPaymentMethod_try_from (p_method p));
          (ts, s) = ts_or_now e (p_ts_ms p) s;
          c = \<lparr> cp_payment_id = payment_id, cp_method = tx_payment_method_str pm, cp_ts = ts,
                cp_amount = p_amount p, cp_note = p_note p, cp_from_wallet = p_from_wallet p,
                cp_to_wallet = p_to_wallet p, cp_debt_interest = p_debt_interest p,
                cp_payment_json = payment_json_value e (p_payment_json p) \<rparr>
      in bindE (insert_row cp_payment_id
             (\<lambda>c. cp_method c \<in> {''cash'', ''card'', ''transfer'', ''qris'', ''debt'', ''wallet''})
             (new_row e site tx c) (q_payment s)) (\<lambda>t.
         bindE (mapE (installment_put e site tx payment_id) (p_installments p)
             (s\<lparr> q_payment := t \<rparr>)) (\<lambda>(insts, s).
         Inr (p\<lparr> p_payment_id := payment_id, p_installments := insts \<rparr>, s))))"

definition chk_acc :: "AccCols \<Rightarrow> bool" where
  "chk_acc c \<longleftrightarrow> varchar32 (ca_acc_code c) \<and> 0 \<le>s ca_amount c \<and> ca_side c \<in> {''debit'', ''credit''}"

definition acc_put :: "penv \<Rightarrow> i64 \<Rightarrow> i64 \<Rightarrow> TxAcc \<Rightarrow> conn \<Rightarrow> string + TxAcc \<times> conn" where
  "acc_put e site tx acc s =
     (let (acc_id, s) = id_or_draw e (a_acc_id acc) s;
          side = unwrap_or Side_Unspecified (TxAccSide_try_from (a_side acc));
          (ts, s) = ts_or_now e (a_ts_ms acc) s;
          c = \<lparr> ca_acc_id = acc_id, ca_acc_code = a_acc_code acc, ca_ts = ts,
                ca_side = tx_acc_side_str side, ca_amount = a_amount acc, ca_note = a_note acc,
                ca_is_tx_generated = a_is_tx_generated acc \<rparr>
      in bindE (insert_row ca_acc_id chk_acc (new_row e site tx c) (q_acc s))
           (\<lambda>t. Inr (acc\<lparr> a_acc_id := acc_id \<rparr>, s\<lparr> q_acc := t \<rparr>)))"

definition stock_put :: "penv \<Rightarrow> i64 \<Rightarrow> i64 \<Rightarrow> TxStock \<Rightarrow> conn \<Rightarrow> string + TxStock \<times> conn" where
  "stock_put e site tx st s =
     (let (stock_id, s) = id_or_draw e (k_stock_id st) s;
          (ts, s) = ts_or_now e (k_ts_ms st) s;
          c = \<lparr> ck_stock_id = stock_id, ck_product_id = k_product_id st, ck_ts = ts,
                ck_obj_from_id = k_obj_from_id st, ck_obj_to_id = k_obj_to_id st, ck_qty = k_qty st,
                ck_qty_signed = k_qty_signed st, ck_direction = k_direction st, ck_note = k_note st \<rparr>
      in bindE (insert_row ck_stock_id (\<lambda>c. varchar32 (ck_direction c)) (new_row e site tx c) (q_stock s))
           (\<lambda>t. Inr (st\<lparr> k_stock_id := stock_id \<rparr>, s\<lparr> q_stock := t \<rparr>)))"

definition tax_put :: "penv \<Rightarrow> i64 \<Rightarrow> i64 \<Rightarrow> TxTax \<Rightarrow> conn \<Rightarrow> string + TxTax \<times> conn" where
  "tax_put e site tx tax s =
     (let (tax_id, s) = id_or_draw e (x_tax_id tax) s;
          tax = tax\<lparr> x_tax_id := tax_id \<rparr>
      in bindE (insert_row x_tax_id (\<lambda>c. varchar32 (x_tax_type c)) (new_row e site tx tax) (q_tax s))
           (\<lambda>t. Inr (tax, s\<lparr> q_tax := t \<rparr>)))"

definition discount_put :: "penv \<Rightarrow> i64 \<Rightarrow> i64 \<Rightarrow> TxDiscount \<Rightarrow> conn \<Rightarrow> string + TxDiscount \<times> conn" where
  "discount_put e site tx disc s =
     (let (discount_id, s) = id_or_draw e (c_discount_id disc) s;
          disc = disc\<lparr> c_discount_id := discount_id \<rparr>
      in bindE (insert_row c_discount_id (\<lambda>c. varchar32 (c_discount_type c)) (new_row e site tx disc) (q_discount s))
           (\<lambda>t. Inr (disc, s\<lparr> q_discount := t \<rparr>)))"

definition tx_children_put :: "penv \<Rightarrow> Tx \<Rightarrow> conn \<Rightarrow> string + Tx \<times> conn" where
  "tx_children_put e tx s =
     (let site = t_site_iid tx; tx_id = t_tx_id tx
      in bindE (tx_items_ensure_ids e (t_items tx) s) (\<lambda>(items, s).
         bindE (forE (item_put e site tx_id) items s) (\<lambda>s.
         bindE (mapE (payment_put e site tx_id) (t_payments tx) s) (\<lambda>(payments, s).
         bindE (mapE (acc_put e site tx_id) (t_accs tx) s) (\<lambda>(accs, s).
         bindE (mapE (stock_put e site tx_id) (t_stocks tx) s) (\<lambda>(stocks, s).
         bindE (mapE (tax_put e site tx_id) (t_taxes tx) s) (\<lambda>(taxes, s).
         bindE (mapE (discount_put e site tx_id) (t_discounts tx) s) (\<lambda>(discounts, s).
         Inr (tx\<lparr> t_items := items, t_payments := payments, t_accs := accs, t_stocks := stocks,
                  t_taxes := taxes, t_discounts := discounts \<rparr>, s)))))))))"

definition tx_acc_counts :: "Tx \<Rightarrow> i32 \<times> i32" where
  "tx_acc_counts tx =
     (of_nat (length (filter a_is_tx_generated (t_accs tx))),
      of_nat (length (filter (\<lambda>a. \<not> a_is_tx_generated a) (t_accs tx))))"

section \<open>Reading\<close>

definition tx_header_from_row :: "clock \<Rightarrow> TxCols row \<Rightarrow> Tx" where
  "tx_header_from_row ck r = (let c = w_cols r in Tx_default\<lparr>
     t_site_iid := w_site r, t_tx_id := w_tx r,
     t_type := TxType_i32 (tx_type_from_str (h_ty c)),
     t_state := TxState_i32 (tx_state_from_str (h_state c)),
     t_input_mode := TxInputMode_i32 (tx_input_mode_from_str (h_input_mode c)),
     t_input_source := TxInputSource_i32 (tx_input_source_from_str (h_input_source c)),
     t_is_archived := h_is_archived c, t_desc := h_desc c,
     t_time_ts_ms := ts_ms ck (Some (h_time_ts c)),
     t_created_by_iid := unwrap_or 0 (h_created_by_iid c),
     t_cancel_reason := unwrap_or [] (h_cancel_reason c),
     t_subject_contact_id := h_subject_contact_id c, t_subject_name := h_subject_name c,
     t_subject_phone := h_subject_phone c, t_subject_address := h_subject_address c,
     t_cashier_name := h_cashier_name c, t_store_id := h_store_id c,
     t_store_tgt_id := h_store_tgt_id c, t_delivery_state := h_delivery_state c,
     t_obj_id := h_obj_id c, t_promo_code := h_promo_code c, t_is_paid := h_is_paid c,
     t_is_task_assigned := h_is_task_assigned c,
     t_order_pay_at := TxOrderPayAt_i32 (tx_order_pay_at_from_str (h_order_pay_at c)),
     t_items_count := h_items_count c, t_items_qty := h_items_qty c,
     t_items_total := h_items_total c, t_debt_total := h_debt_total c,
     t_debt_paid := h_debt_paid c, t_debt_unpaid := h_debt_unpaid c,
     t_total_taxes := h_total_taxes c, t_total_discounts := h_total_discounts c,
     t_total_interest := h_total_interest c, t_total_paid := h_total_paid c,
     t_total_unpaid := h_total_unpaid c, t_total := h_total c,
     t_stock_line_count := h_stock_line_count c, t_stock_qty_in := h_stock_qty_in c,
     t_stock_qty_out := h_stock_qty_out c, t_acc_line_count := h_acc_line_count c,
     t_acc_sum := h_acc_sum c, t_acc_balanced := h_acc_balanced c,
     t_has_manual_lines := h_has_manual_lines c, t_tx_data := tx_data_from_json (h_tx_data_json c),
     t_created_ts_ms := ts_ms ck (Some (w_created r)), t_updated_ts_ms := ts_ms ck (Some (w_updated r)),
     t_deleted_ts_ms := ts_ms ck (w_deleted r) \<rparr>)"

definition tx_item_from_row :: "ItemCols row \<Rightarrow> TxItem" where
  "tx_item_from_row r = (let c = w_cols r in TxItem_default\<lparr>
     i_site_iid := w_site r, i_tx_id := w_tx r, i_item_id := ci_item_id c, i_owner_iid := ci_owner_iid c,
     i_product_id := ci_product_id c, i_product_rev := ci_product_rev c, i_obj_id := ci_obj_id c,
     i_price := ci_price c, i_qty := ci_qty c, i_note := ci_note c,
     i_batch_number := ci_batch_number c, i_serial_number := ci_serial_number c,
     i_fulfillment_state := TxItemFulfillmentState_i32 (tx_fulfillment_from_str (ci_fulfillment_state c)),
     i_total_qty := ci_total_qty c, i_total_price := ci_total_price c,
     i_total_discount := ci_total_discount c, i_total_tax := ci_total_tax c, i_total_net := ci_total_net c,
     i_total_paid := ci_total_paid c, i_total_unpaid := ci_total_unpaid c \<rparr>)"

definition tx_item_source_from_row :: "SourceCols row \<Rightarrow> TxItemSource" where
  "tx_item_source_from_row r = (let c = w_cols r in \<lparr> s_src_id = cs_src_id c, s_obj_id = cs_obj_id c,
     s_product_id = cs_product_id c, s_qty = cs_qty c, s_note = cs_note c \<rparr>)"

definition tx_item_reservation_from_row :: "clock \<Rightarrow> ReservationCols row \<Rightarrow> TxItemReservation" where
  "tx_item_reservation_from_row ck r = (let c = w_cols r in \<lparr> r_res_id = cr_res_id c,
     r_product_id = cr_product_id c, r_qty = cr_qty c, r_duration_qty = cr_duration_qty c,
     r_note = cr_note c, r_site_object_id = cr_site_object_id c, r_start_ts_ms = ts_ms ck (cr_start_ts c),
     r_end_ts_ms = ts_ms ck (cr_end_ts c), r_state = cr_state c, r_is_no_show = cr_is_no_show c,
     r_is_unavailable = cr_is_unavailable c \<rparr>)"

definition tx_payment_from_row :: "penv \<Rightarrow> PaymentCols row \<Rightarrow> TxPayment" where
  "tx_payment_from_row e r = (let c = w_cols r in \<lparr> p_payment_id = cp_payment_id c,
     p_method = TxPaymentMethod_i32 (tx_payment_method_from_str (cp_method c)),
     p_ts_ms = ts_ms (p_clock e) (Some (cp_ts c)), p_amount = cp_amount c, p_note = cp_note c,
     p_from_wallet = cp_from_wallet c, p_to_wallet = cp_to_wallet c, p_debt_interest = cp_debt_interest c,
     p_payment_json = p_to_string e (cp_payment_json c), p_installments = [] \<rparr>)"

definition tx_installment_from_row :: "clock \<Rightarrow> InstallmentCols row \<Rightarrow> TxInstallment" where
  "tx_installment_from_row ck r = (let c = w_cols r in \<lparr> n_inst_id = cn_inst_id c,
     n_due_ts_ms = ts_ms ck (cn_due_ts c), n_amount = cn_amount c, n_note = cn_note c,
     n_is_paid = cn_is_paid c, n_is_overdue = cn_is_overdue c, n_debt_payments = [] \<rparr>)"

definition tx_debt_payment_from_row :: "penv \<Rightarrow> DebtPaymentCols row \<Rightarrow> TxDebtPayment" where
  "tx_debt_payment_from_row e r = (let c = w_cols r in \<lparr> d_pay_id = cd_pay_id c,
     d_ts_ms = ts_ms (p_clock e) (Some (cd_ts c)),
     d_method = TxDebtPaymentMethod_i32 (tx_debt_payment_method_from_str (cd_method c)),
     d_amount = cd_amount c, d_note = cd_note c, d_overdue_interest = cd_overdue_interest c,
     d_payment_json = p_to_string e (cd_payment_json c) \<rparr>)"

definition tx_acc_from_row :: "clock \<Rightarrow> AccCols row \<Rightarrow> TxAcc" where
  "tx_acc_from_row ck r = (let c = w_cols r in \<lparr> a_acc_id = ca_acc_id c, a_acc_code = ca_acc_code c,
     a_ts_ms = ts_ms ck (Some (ca_ts c)), a_side = TxAccSide_i32 (tx_acc_side_from_str (ca_side c)),
     a_amount = ca_amount c, a_note = ca_note c, a_is_tx_generated = ca_is_tx_generated c \<rparr>)"

definition tx_stock_from_row :: "clock \<Rightarrow> StockCols row \<Rightarrow> TxStock" where
  "tx_stock_from_row ck r = (let c = w_cols r in \<lparr> k_stock_id = ck_stock_id c,
     k_product_id = ck_product_id c, k_ts_ms = ts_ms ck (Some (ck_ts c)), k_obj_from_id = ck_obj_from_id c,
     k_obj_to_id = ck_obj_to_id c, k_qty = ck_qty c, k_qty_signed = ck_qty_signed c,
     k_direction = ck_direction c, k_note = ck_note c \<rparr>)"

definition tx_tax_from_row :: "TxTax row \<Rightarrow> TxTax" where
  "tx_tax_from_row r = w_cols r"

definition tx_discount_from_row :: "TxDiscount row \<Rightarrow> TxDiscount" where
  "tx_discount_from_row r = w_cols r"

end
