(* ===== verification/Tx_Load.thy ===== *)
theory Tx_Load
  imports Tx_Db
begin

text \<open>
  Loading a transaction with its lines (\<open>servers/crates/mod_tx/src/load.rs\<close>), and what a saved
  transaction is read back as. Orders the code leaves open (the iteration of a \<open>HashMap\<close>, a
  query without \<open>ORDER BY\<close>) are the fields of \<open>lorder\<close>, each a permutation.
\<close>

record lorder =
  lo_items :: "(i64 \<times> TxItem) list \<Rightarrow> (i64 \<times> TxItem) list"
  lo_payments :: "(i64 \<times> TxPayment) list \<Rightarrow> (i64 \<times> TxPayment) list"
  lo_insts :: "((i64 \<times> i64) \<times> TxInstallment) list \<Rightarrow> ((i64 \<times> i64) \<times> TxInstallment) list"
  lo_source_scan :: "SourceCols row list \<Rightarrow> SourceCols row list"
  lo_res_scan :: "ReservationCols row list \<Rightarrow> ReservationCols row list"
  lo_inst_scan :: "InstallmentCols row list \<Rightarrow> InstallmentCols row list"
  lo_dpay_scan :: "DebtPaymentCols row list \<Rightarrow> DebtPaymentCols row list"
  lo_stock_scan :: "StockCols row list \<Rightarrow> StockCols row list"

definition hm_adjust :: "'k \<Rightarrow> ('v \<Rightarrow> 'v) \<Rightarrow> ('k \<times> 'v) list \<Rightarrow> ('k \<times> 'v) list" where
  "hm_adjust k f m = map (\<lambda>(k', v). if k' = k then (k', f v) else (k', v)) m"

definition select_rows :: "i64 \<Rightarrow> i64 \<Rightarrow> 'a row list \<Rightarrow> 'a row list" where
  "select_rows site tx t = filter (live_of_tx site tx) t"

definition order_by :: "('a \<Rightarrow> i64) \<Rightarrow> 'a row list \<Rightarrow> 'a row list" where
  "order_by key t = sort_key (\<lambda>r. sint (key (w_cols r))) t"

definition load_items :: "lorder \<Rightarrow> penv \<Rightarrow> conn \<Rightarrow> i64 \<Rightarrow> i64 \<Rightarrow> TxItem list" where
  "load_items lo e s site tx_id =
     (let items = order_by ci_item_id (select_rows site tx_id (q_item s));
          item_map = fold (\<lambda>r m. let item = tx_item_from_row r in hm_insert (i_item_id item) item m) items [];
          item_map = (if item_map = [] then item_map
            else let sources = lo_source_scan lo (select_rows site tx_id (q_source s));
                     item_map = fold (\<lambda>r. hm_adjust (cs_item_id (w_cols r))
                        (\<lambda>item. item\<lparr> i_sources := i_sources item @ [tx_item_source_from_row r] \<rparr>)) sources item_map;
                     reservations = lo_res_scan lo (select_rows site tx_id (q_reservation s))
                 in fold (\<lambda>r. hm_adjust (cr_item_id (w_cols r))
                        (\<lambda>item. item\<lparr> i_reservations := i_reservations item @
                           [tx_item_reservation_from_row (p_clock e) r] \<rparr>)) reservations item_map)
      in map snd (lo_items lo item_map))"

definition load_payments :: "lorder \<Rightarrow> penv \<Rightarrow> conn \<Rightarrow> i64 \<Rightarrow> i64 \<Rightarrow> TxPayment list" where
  "load_payments lo e s site tx_id =
     (let payments = order_by cp_payment_id (select_rows site tx_id (q_payment s));
          pay_map = fold (\<lambda>r m. let p = tx_payment_from_row e r in hm_insert (p_payment_id p) p m) payments [];
          pay_map = (if pay_map = [] then pay_map
            else let installments = lo_inst_scan lo (select_rows site tx_id (q_installment s));
                     inst_map = fold (\<lambda>r m. let inst = tx_installment_from_row (p_clock e) r
                         in hm_insert (cn_payment_id (w_cols r), n_inst_id inst) inst m) installments [];
                     debt_pays = lo_dpay_scan lo (select_rows site tx_id (q_debt_payment s));
                     inst_map = fold (\<lambda>r. hm_adjust (cd_payment_id (w_cols r), cd_inst_id (w_cols r))
                        (\<lambda>inst. inst\<lparr> n_debt_payments := n_debt_payments inst @ [tx_debt_payment_from_row e r] \<rparr>))
                        debt_pays inst_map
                 in fold (\<lambda>((payment_id, _), inst). hm_adjust payment_id
                        (\<lambda>p. p\<lparr> p_installments := p_installments p @ [inst] \<rparr>)) (lo_insts lo inst_map) pay_map)
      in map snd (lo_payments lo pay_map))"

definition tx_children_attach :: "lorder \<Rightarrow> penv \<Rightarrow> conn \<Rightarrow> i64 \<Rightarrow> i64 \<Rightarrow> Tx \<Rightarrow> Tx" where
  "tx_children_attach lo e s site tx_id tx = tx\<lparr>
     t_items := load_items lo e s site tx_id,
     t_payments := load_payments lo e s site tx_id,
     t_accs := map (tx_acc_from_row (p_clock e)) (order_by ca_acc_id (select_rows site tx_id (q_acc s))),
     t_stocks := map (tx_stock_from_row (p_clock e)) (order_by ck_stock_id (select_rows site tx_id (q_stock s))),
     t_taxes := map tx_tax_from_row (order_by x_tax_id (select_rows site tx_id (q_tax s))),
     t_discounts := map tx_discount_from_row
       (order_by c_discount_id (select_rows site tx_id (q_discount s))) \<rparr>"

definition tx_load :: "lorder \<Rightarrow> penv \<Rightarrow> conn \<Rightarrow> i64 \<Rightarrow> i64 \<Rightarrow> Tx option" where
  "tx_load lo e s site tx_id =
     (case find (live_of_tx site tx_id) (q_tx s) of
        None \<Rightarrow> None
      | Some row \<Rightarrow> Some (tx_children_attach lo e s site tx_id (tx_header_from_row (p_clock e) row)))"

definition tx_stocks_load :: "lorder \<Rightarrow> penv \<Rightarrow> conn \<Rightarrow> i64 \<Rightarrow> i64 \<Rightarrow> TxStock list" where
  "tx_stocks_load lo e s site tx_id =
     map (tx_stock_from_row (p_clock e)) (lo_stock_scan lo (select_rows site tx_id (q_stock s)))"

definition tx_require :: "lorder \<Rightarrow> penv \<Rightarrow> conn \<Rightarrow> i64 \<Rightarrow> i64 \<Rightarrow> string + Tx" where
  "tx_require lo e s site tx_id =
     (case tx_load lo e s site tx_id of None \<Rightarrow> Inl ''tx not found'' | Some tx \<Rightarrow> Inr tx)"

section \<open>Loops of statements\<close>

lemma bindE_simps [simp]: "bindE (Inl err) f = Inl err" "bindE (Inr a) f = f a"
  by (simp_all add: bindE_def)

lemma bindE_Inr: "bindE x f = Inr b \<longleftrightarrow> (\<exists>a. x = Inr a \<and> f a = Inr b)"
  by (cases x) auto

text \<open>A property every step keeps is kept by the loop.\<close>

lemma forE_frame:
  assumes "\<And>x s s'. x \<in> set xs \<Longrightarrow> f x s = Inr s' \<Longrightarrow> g s' = g s"
    and "forE f xs s = Inr s'"
  shows "g s' = g s"
  using assms by (induction xs arbitrary: s) (fastforce simp: bindE_Inr)+

lemma mapE_frame:
  assumes "\<And>x s y s'. x \<in> set xs \<Longrightarrow> f x s = Inr (y, s') \<Longrightarrow> g s' = g s"
    and "mapE f xs s = Inr (ys, s')"
  shows "g s' = g s"
  using assms by (induction xs arbitrary: s ys) (fastforce simp: bindE_Inr)+

text \<open>A step that appends one row makes a loop that appends one row per element.\<close>

lemma mapE_appends:
  assumes "\<And>x s y s'. x \<in> set xs \<Longrightarrow> f x s = Inr (y, s') \<Longrightarrow> \<exists>r. g s' = g s @ [r] \<and> Q r \<and> F r = G y \<and> K y = L x"
    and "mapE f xs s = Inr (ys, s')"
  shows "\<exists>rs. g s' = g s @ rs \<and> (\<forall>r \<in> set rs. Q r) \<and> map F rs = map G ys \<and> map K ys = map L xs"
  using assms
proof (induction xs arbitrary: s ys)
  case Nil
  then show ?case by simp
next
  case (Cons x xs)
  from Cons.prems(2) obtain y s1 zs where x: "f x s = Inr (y, s1)" "mapE f xs s1 = Inr (zs, s')" "ys = y # zs"
    by (auto simp: bindE_Inr)
  from Cons.prems(1) [OF _ x(1)] obtain r where r: "g s1 = g s @ [r]" "Q r" "F r = G y" "K y = L x" by auto
  from Cons.IH [OF _ x(2)] Cons.prems(1) obtain rs where
    rs: "g s' = g s1 @ rs" "\<forall>r \<in> set rs. Q r" "map F rs = map G zs" "map K zs = map L xs"
    by (metis list.set_intros(2))
  show ?case
    by (rule exI [of _ "r # rs"]) (use x(3) r rs in auto)
qed

lemma forE_appends:
  assumes "\<And>x s s'. x \<in> set xs \<Longrightarrow> f x s = Inr s' \<Longrightarrow> g s' = g s @ [h x]"
    and "forE f xs s = Inr s'"
  shows "g s' = g s @ map h xs"
  using assms
proof (induction xs arbitrary: s)
  case (Cons x xs)
  then obtain s1 where "f x s = Inr s1" "forE f xs s1 = Inr s'" by (auto simp: bindE_Inr)
  with Cons show ?case by fastforce
qed simp

lemma insert_row_Inr: "insert_row key ok r t = Inr t' \<longleftrightarrow>
    ok (w_cols r) \<and> (\<forall>q \<in> set t. of_tx (w_site r) (w_tx r) q \<longrightarrow> key (w_cols q) \<noteq> key (w_cols r)) \<and> t' = t @ [r]"
  by (auto simp: insert_row_def)

section \<open>Frames\<close>

lemma id_or_draw_frame [simp]:
  "q_tx (snd (id_or_draw e i s)) = q_tx s"
  "q_item (snd (id_or_draw e i s)) = q_item s"
  "q_source (snd (id_or_draw e i s)) = q_source s"
  "q_reservation (snd (id_or_draw e i s)) = q_reservation s"
  "q_payment (snd (id_or_draw e i s)) = q_payment s"
  "q_installment (snd (id_or_draw e i s)) = q_installment s"
  "q_debt_payment (snd (id_or_draw e i s)) = q_debt_payment s"
  "q_acc (snd (id_or_draw e i s)) = q_acc s"
  "q_stock (snd (id_or_draw e i s)) = q_stock s"
  "q_tax (snd (id_or_draw e i s)) = q_tax s"
  "q_discount (snd (id_or_draw e i s)) = q_discount s"
  "q_product (snd (id_or_draw e i s)) = q_product s"
  by (simp_all add: id_or_draw_def snowflake_draw_def)

lemma ts_or_now_frame [simp]:
  "q_tx (snd (ts_or_now e i s)) = q_tx s"
  "q_item (snd (ts_or_now e i s)) = q_item s"
  "q_source (snd (ts_or_now e i s)) = q_source s"
  "q_reservation (snd (ts_or_now e i s)) = q_reservation s"
  "q_payment (snd (ts_or_now e i s)) = q_payment s"
  "q_installment (snd (ts_or_now e i s)) = q_installment s"
  "q_debt_payment (snd (ts_or_now e i s)) = q_debt_payment s"
  "q_acc (snd (ts_or_now e i s)) = q_acc s"
  "q_stock (snd (ts_or_now e i s)) = q_stock s"
  "q_tax (snd (ts_or_now e i s)) = q_tax s"
  "q_discount (snd (ts_or_now e i s)) = q_discount s"
  "q_product (snd (ts_or_now e i s)) = q_product s"
  by (simp_all add: ts_or_now_def utc_now_def split: option.split)

lemma ensure_ids_frame:
  assumes "tx_items_ensure_ids e items s = Inr (items', s')"
    and "\<And>n. g (s\<lparr>c_next := n\<rparr>) = g s" and "\<And>t n. g (t\<lparr>c_next := n\<rparr>) = g t"
  shows "g s' = g s"
proof (rule mapE_frame [OF _ assms(1) [unfolded tx_items_ensure_ids_def]])
  fix x and t :: conn and y t'
  assume "(if i_item_id x = 0 then let (i, s) = snowflake_draw e t in Inr (x\<lparr>i_item_id := i\<rparr>, s)
      else Inr (x, t)) = (Inr (y, t') :: string + TxItem \<times> conn)"
  then show "g t' = g t" using assms(3) by (auto simp: snowflake_draw_def split: if_splits)
qed

text \<open>Every insert touches its own table and the tables of its nested lines only.\<close>

definition line_tables :: "conn \<Rightarrow> _" where
  "line_tables s = (q_tx s, q_acc s, q_stock s, q_tax s, q_discount s)"

lemma source_put_frame: "source_put e site tx i x s = Inr s' \<Longrightarrow>
    line_tables s' = line_tables s \<and> q_item s' = q_item s \<and> q_payment s' = q_payment s \<and>
    q_installment s' = q_installment s \<and> q_debt_payment s' = q_debt_payment s \<and> q_product s' = q_product s"
  by (auto simp: source_put_def line_tables_def Let_def split_beta bindE_Inr)

lemma reservation_put_frame: "reservation_put e site tx i x s = Inr s' \<Longrightarrow>
    line_tables s' = line_tables s \<and> q_item s' = q_item s \<and> q_payment s' = q_payment s \<and>
    q_installment s' = q_installment s \<and> q_debt_payment s' = q_debt_payment s \<and> q_product s' = q_product s"
  by (auto simp: reservation_put_def line_tables_def Let_def split_beta bindE_Inr)

lemma mark_used_frame: "site_product_mark_used e site p s = Inr s' \<Longrightarrow>
    line_tables s' = line_tables s \<and> q_item s' = q_item s \<and> q_payment s' = q_payment s \<and>
    q_installment s' = q_installment s \<and> q_debt_payment s' = q_debt_payment s"
  by (auto simp: site_product_mark_used_def line_tables_def split: if_splits)

lemma item_put_frame:
  assumes "item_put e site tx item s = Inr s'"
  shows "line_tables s' = line_tables s" and "q_payment s' = q_payment s"
    and "q_installment s' = q_installment s" and "q_debt_payment s' = q_debt_payment s"
    and "q_item s' = q_item s @ [new_row e site tx (item_cols site item)]"
proof -
  from assms obtain t s1 s2 where
    ins: "insert_row ci_item_id (\<lambda>c. p_identity e (ci_owner_iid c)) (new_row e site tx (item_cols site item)) (q_item s) = Inr t"
    and mk: "(if 0 <s i_product_id item then site_product_mark_used e site (i_product_id item) (s\<lparr>q_item := t\<rparr>)
        else Inr (s\<lparr>q_item := t\<rparr>)) = Inr s1"
    and src: "forE (source_put e site tx (i_item_id item)) (i_sources item) s1 = Inr s2"
    and res: "forE (reservation_put e site tx (i_item_id item)) (i_reservations item) s2 = Inr s'"
    by (auto simp: item_put_def bindE_Inr)
  have t: "t = q_item s @ [new_row e site tx (item_cols site item)]"
    using ins by (simp add: insert_row_Inr)
  have m: "line_tables s1 = line_tables s \<and> q_item s1 = t \<and> q_payment s1 = q_payment s \<and>
      q_installment s1 = q_installment s \<and> q_debt_payment s1 = q_debt_payment s"
    using mk mark_used_frame [of e site "i_product_id item" "s\<lparr>q_item := t\<rparr>" s1]
    by (auto simp: line_tables_def split: if_splits)
  let ?v = "\<lambda>s. (line_tables s, q_item s, q_payment s, q_installment s, q_debt_payment s)"
  have "?v s2 = ?v s1" by (rule forE_frame [OF _ src]) (simp add: source_put_frame)
  moreover have "?v s' = ?v s2" by (rule forE_frame [OF _ res]) (simp add: reservation_put_frame)
  ultimately show "line_tables s' = line_tables s" "q_payment s' = q_payment s"
    "q_installment s' = q_installment s" "q_debt_payment s' = q_debt_payment s"
    "q_item s' = q_item s @ [new_row e site tx (item_cols site item)]"
    using m t by simp_all
qed

lemma debt_payment_put_frame: "debt_payment_put e site tx p i x s = Inr (y, s') \<Longrightarrow>
    line_tables s' = line_tables s \<and> q_item s' = q_item s \<and> q_payment s' = q_payment s \<and>
    q_installment s' = q_installment s"
  by (auto simp: debt_payment_put_def line_tables_def Let_def split_beta bindE_Inr)

lemma installment_put_frame:
  assumes "installment_put e site tx p x s = Inr (y, s')"
  shows "line_tables s' = line_tables s \<and> q_item s' = q_item s \<and> q_payment s' = q_payment s"
proof -
  let ?v = "\<lambda>s. (line_tables s, q_item s, q_payment s)"
  from assms obtain j s0 t dps where
    m: "mapE (debt_payment_put e site tx p j) (n_debt_payments x) (s0\<lparr>q_installment := t\<rparr>) = Inr (dps, s')"
    and s0: "s0 = snd (id_or_draw e (n_inst_id x) s)"
    by (auto simp: installment_put_def Let_def split_beta bindE_Inr)
  have "?v s' = ?v (s0\<lparr>q_installment := t\<rparr>)"
    by (rule mapE_frame [OF _ m]) (simp add: debt_payment_put_frame)
  then show ?thesis by (simp add: s0 line_tables_def)
qed

lemma payment_put_frame:
  assumes "payment_put e site tx x s = Inr (y, s')"
  shows "line_tables s' = line_tables s \<and> q_item s' = q_item s"
proof -
  let ?v = "\<lambda>s. (line_tables s, q_item s)"
  from assms obtain j s0 t dps where
    m: "mapE (installment_put e site tx j) (p_installments x) (s0\<lparr>q_payment := t\<rparr>) = Inr (dps, s')"
    and s0: "s0 = snd (ts_or_now e (p_ts_ms x) (snd (id_or_draw e (p_payment_id x) s)))"
    by (auto simp: payment_put_def Let_def split_beta bindE_Inr)
  have "?v s' = ?v (s0\<lparr>q_payment := t\<rparr>)"
    by (rule mapE_frame [OF _ m]) (simp add: installment_put_frame)
  then show ?thesis by (simp add: s0 line_tables_def)
qed

lemma acc_put_frame: "acc_put e site tx x s = Inr (y, s') \<Longrightarrow>
    q_tx s' = q_tx s \<and> q_item s' = q_item s \<and> q_stock s' = q_stock s \<and> q_tax s' = q_tax s \<and> q_discount s' = q_discount s"
  by (auto simp: acc_put_def Let_def split_beta bindE_Inr)

lemma stock_put_frame: "stock_put e site tx x s = Inr (y, s') \<Longrightarrow>
    q_tx s' = q_tx s \<and> q_item s' = q_item s \<and> q_acc s' = q_acc s \<and> q_tax s' = q_tax s \<and> q_discount s' = q_discount s"
  by (auto simp: stock_put_def Let_def split_beta bindE_Inr)

lemma tax_put_frame: "tax_put e site tx x s = Inr (y, s') \<Longrightarrow>
    q_tx s' = q_tx s \<and> q_item s' = q_item s \<and> q_acc s' = q_acc s \<and> q_stock s' = q_stock s \<and> q_discount s' = q_discount s"
  by (auto simp: tax_put_def Let_def split_beta bindE_Inr)

lemma discount_put_frame: "discount_put e site tx x s = Inr (y, s') \<Longrightarrow>
    q_tx s' = q_tx s \<and> q_item s' = q_item s \<and> q_acc s' = q_acc s \<and> q_stock s' = q_stock s \<and> q_tax s' = q_tax s"
  by (auto simp: discount_put_def Let_def split_beta bindE_Inr)

section \<open>What a save leaves in the tables\<close>

lemma acc_put_row:
  assumes "acc_put e site tx a s = Inr (b, s')"
  shows "\<exists>r. q_acc s' = q_acc s @ [r] \<and> live_of_tx site tx r \<and>
    (tx_acc_from_row (p_clock e) r)\<lparr>a_ts_ms := 0\<rparr> = (acc_json_norm b)\<lparr>a_ts_ms := 0\<rparr> \<and>
    b\<lparr>a_acc_id := 0\<rparr> = a\<lparr>a_acc_id := 0\<rparr>"
  using assms
  by (auto simp: acc_put_def Let_def split_beta bindE_Inr insert_row_Inr new_row_def live_of_tx_def of_tx_def
      tx_acc_from_row_def acc_json_norm_def)

lemma stock_put_row:
  assumes "stock_put e site tx a s = Inr (b, s')"
  shows "\<exists>r. q_stock s' = q_stock s @ [r] \<and> live_of_tx site tx r \<and>
    (tx_stock_from_row (p_clock e) r)\<lparr>k_ts_ms := 0\<rparr> = b\<lparr>k_ts_ms := 0\<rparr> \<and>
    b\<lparr>k_stock_id := 0\<rparr> = a\<lparr>k_stock_id := 0\<rparr>"
  using assms
  by (auto simp: stock_put_def Let_def split_beta bindE_Inr insert_row_Inr new_row_def live_of_tx_def of_tx_def
      tx_stock_from_row_def)

lemma tax_put_row:
  assumes "tax_put e site tx a s = Inr (b, s')"
  shows "\<exists>r. q_tax s' = q_tax s @ [r] \<and> live_of_tx site tx r \<and> tx_tax_from_row r = b \<and>
    b\<lparr>x_tax_id := 0\<rparr> = a\<lparr>x_tax_id := 0\<rparr>"
  using assms
  by (auto simp: tax_put_def Let_def split_beta bindE_Inr insert_row_Inr new_row_def live_of_tx_def of_tx_def
      tx_tax_from_row_def)

lemma discount_put_row:
  assumes "discount_put e site tx a s = Inr (b, s')"
  shows "\<exists>r. q_discount s' = q_discount s @ [r] \<and> live_of_tx site tx r \<and> tx_discount_from_row r = b \<and>
    b\<lparr>c_discount_id := 0\<rparr> = a\<lparr>c_discount_id := 0\<rparr>"
  using assms
  by (auto simp: discount_put_def Let_def split_beta bindE_Inr insert_row_Inr new_row_def live_of_tx_def of_tx_def
      tx_discount_from_row_def)

text \<open>The table \<open>tbl\<close> gained one live row per line; \<open>F\<close> of the row is \<open>G\<close> of the saved line, and the
  saved line is the given one up to what \<open>K\<close> forgets (its id).\<close>

definition appended ::
  "(conn \<Rightarrow> 'a row list) \<Rightarrow> ('a row \<Rightarrow> 'b) \<Rightarrow> ('y \<Rightarrow> 'b) \<Rightarrow> ('y \<Rightarrow> 'y) \<Rightarrow> i64 \<Rightarrow> i64 \<Rightarrow> conn \<Rightarrow> conn \<Rightarrow>
   'y list \<Rightarrow> 'y list \<Rightarrow> bool" where
  "appended tbl F G K site i s s' xs ys \<longleftrightarrow>
     (\<exists>rs. tbl s' = tbl s @ rs \<and> (\<forall>r \<in> set rs. live_of_tx site i r) \<and> map F rs = map G ys \<and> map K ys = map K xs)"

lemma appended_mapE:
  assumes "\<And>x s y s'. x \<in> set xs \<Longrightarrow> f x s = Inr (y, s') \<Longrightarrow>
      \<exists>r. tbl s' = tbl s @ [r] \<and> live_of_tx site i r \<and> F r = G y \<and> K y = K x"
    and "mapE f xs s = Inr (ys, s')" and "tbl s0 = tbl s" and "tbl s1 = tbl s'"
  shows "appended tbl F G K site i s0 s1 xs ys"
  using mapE_appends [OF assms(1,2)] assms(3,4) by (simp add: appended_def)

abbreviation "acc_untimed ck \<equiv> \<lambda>r. (tx_acc_from_row ck r)\<lparr>a_ts_ms := 0\<rparr>"
abbreviation "stock_untimed ck \<equiv> \<lambda>r. (tx_stock_from_row ck r)\<lparr>k_ts_ms := 0\<rparr>"

text \<open>The loops of \<open>tx_children_put\<close>, with the tables each starts from.\<close>

lemma tx_children_put_loops:
  assumes "tx_children_put e tx s = Inr (tx', s')"
  obtains s1 s2 s3 s4 s5 s6 where
    "tx' = tx\<lparr>t_items := t_items tx', t_payments := t_payments tx', t_accs := t_accs tx',
      t_stocks := t_stocks tx', t_taxes := t_taxes tx', t_discounts := t_discounts tx'\<rparr>"
    and "tx_items_ensure_ids e (t_items tx) s = Inr (t_items tx', s1)"
    and "forE (item_put e (t_site_iid tx) (t_tx_id tx)) (t_items tx') s1 = Inr s2"
    and "mapE (payment_put e (t_site_iid tx) (t_tx_id tx)) (t_payments tx) s2 = Inr (t_payments tx', s3)"
    and "mapE (acc_put e (t_site_iid tx) (t_tx_id tx)) (t_accs tx) s3 = Inr (t_accs tx', s4)"
    and "mapE (stock_put e (t_site_iid tx) (t_tx_id tx)) (t_stocks tx) s4 = Inr (t_stocks tx', s5)"
    and "mapE (tax_put e (t_site_iid tx) (t_tx_id tx)) (t_taxes tx) s5 = Inr (t_taxes tx', s6)"
    and "mapE (discount_put e (t_site_iid tx) (t_tx_id tx)) (t_discounts tx) s6 = Inr (t_discounts tx', s')"
  using assms unfolding tx_children_put_def by (auto simp: Let_def split_beta bindE_Inr)

lemma tx_children_put_rows:
  assumes "tx_children_put e tx s = Inr (tx', s')"
  defines "site \<equiv> t_site_iid tx" and "i \<equiv> t_tx_id tx"
  shows "q_tx s' = q_tx s"
    and "appended q_acc (acc_untimed (p_clock e)) (\<lambda>a. (acc_json_norm a)\<lparr>a_ts_ms := 0\<rparr>) (\<lambda>a. a\<lparr>a_acc_id := 0\<rparr>)
      site i s s' (t_accs tx) (t_accs tx')"
    and "appended q_stock (stock_untimed (p_clock e)) (\<lambda>k. k\<lparr>k_ts_ms := 0\<rparr>) (\<lambda>k. k\<lparr>k_stock_id := 0\<rparr>)
      site i s s' (t_stocks tx) (t_stocks tx')"
    and "appended q_tax tx_tax_from_row (\<lambda>x. x) (\<lambda>x. x\<lparr>x_tax_id := 0\<rparr>) site i s s' (t_taxes tx) (t_taxes tx')"
    and "appended q_discount tx_discount_from_row (\<lambda>x. x) (\<lambda>x. x\<lparr>c_discount_id := 0\<rparr>) site i s s'
      (t_discounts tx) (t_discounts tx')"
    and "q_item s' = q_item s @ map (\<lambda>x. new_row e site i (item_cols site x)) (t_items tx')"
proof -
  from assms(1) obtain s1 s2 s3 s4 s5 s6 where
    a: "tx_items_ensure_ids e (t_items tx) s = Inr (t_items tx', s1)"
    and b: "forE (item_put e site i) (t_items tx') s1 = Inr s2"
    and c: "mapE (payment_put e site i) (t_payments tx) s2 = Inr (t_payments tx', s3)"
    and d: "mapE (acc_put e site i) (t_accs tx) s3 = Inr (t_accs tx', s4)"
    and f: "mapE (stock_put e site i) (t_stocks tx) s4 = Inr (t_stocks tx', s5)"
    and g: "mapE (tax_put e site i) (t_taxes tx) s5 = Inr (t_taxes tx', s6)"
    and h: "mapE (discount_put e site i) (t_discounts tx) s6 = Inr (t_discounts tx', s')"
    unfolding site_def i_def by (rule tx_children_put_loops)
  have fa: "(line_tables s1, q_item s1) = (line_tables s, q_item s)"
    by (rule ensure_ids_frame [OF a, where g = "\<lambda>s. (line_tables s, q_item s)"]) (simp_all add: line_tables_def)
  have fb: "line_tables s2 = line_tables s1"
    by (rule forE_frame [OF item_put_frame(1) b])
  have items: "q_item s2 = q_item s1 @ map (\<lambda>x. new_row e site i (item_cols site x)) (t_items tx')"
    by (rule forE_appends [OF item_put_frame(5) b])
  have fc: "(line_tables s3, q_item s3) = (line_tables s2, q_item s2)"
    by (rule mapE_frame [OF _ c, where g = "\<lambda>s. (line_tables s, q_item s)"]) (simp add: payment_put_frame)
  have fd: "(q_tx s4, q_item s4, q_stock s4, q_tax s4, q_discount s4) =
      (q_tx s3, q_item s3, q_stock s3, q_tax s3, q_discount s3)"
    by (rule mapE_frame [OF _ d, where g = "\<lambda>s. (q_tx s, q_item s, q_stock s, q_tax s, q_discount s)"])
      (simp add: acc_put_frame)
  have ff: "(q_tx s5, q_item s5, q_acc s5, q_tax s5, q_discount s5) =
      (q_tx s4, q_item s4, q_acc s4, q_tax s4, q_discount s4)"
    by (rule mapE_frame [OF _ f, where g = "\<lambda>s. (q_tx s, q_item s, q_acc s, q_tax s, q_discount s)"])
      (simp add: stock_put_frame)
  have fg: "(q_tx s6, q_item s6, q_acc s6, q_stock s6, q_discount s6) =
      (q_tx s5, q_item s5, q_acc s5, q_stock s5, q_discount s5)"
    by (rule mapE_frame [OF _ g, where g = "\<lambda>s. (q_tx s, q_item s, q_acc s, q_stock s, q_discount s)"])
      (simp add: tax_put_frame)
  have fh: "(q_tx s', q_item s', q_acc s', q_stock s', q_tax s') =
      (q_tx s6, q_item s6, q_acc s6, q_stock s6, q_tax s6)"
    by (rule mapE_frame [OF _ h, where g = "\<lambda>s. (q_tx s, q_item s, q_acc s, q_stock s, q_tax s)"])
      (simp add: discount_put_frame)
  note frames = fa fb fc fd ff fg fh line_tables_def
  show "q_tx s' = q_tx s"
    and "q_item s' = q_item s @ map (\<lambda>x. new_row e site i (item_cols site x)) (t_items tx')"
    using frames items by simp_all
  show "appended q_acc (acc_untimed (p_clock e)) (\<lambda>a. (acc_json_norm a)\<lparr>a_ts_ms := 0\<rparr>) (\<lambda>a. a\<lparr>a_acc_id := 0\<rparr>)
      site i s s' (t_accs tx) (t_accs tx')"
    by (rule appended_mapE [OF acc_put_row d]) (use frames in simp_all)
  show "appended q_stock (stock_untimed (p_clock e)) (\<lambda>k. k\<lparr>k_ts_ms := 0\<rparr>) (\<lambda>k. k\<lparr>k_stock_id := 0\<rparr>)
      site i s s' (t_stocks tx) (t_stocks tx')"
    by (rule appended_mapE [OF stock_put_row f]) (use frames in simp_all)
  show "appended q_tax tx_tax_from_row (\<lambda>x. x) (\<lambda>x. x\<lparr>x_tax_id := 0\<rparr>) site i s s' (t_taxes tx) (t_taxes tx')"
    by (rule appended_mapE [OF tax_put_row g]) (use frames in simp_all)
  show "appended q_discount tx_discount_from_row (\<lambda>x. x) (\<lambda>x. x\<lparr>c_discount_id := 0\<rparr>) site i s s'
      (t_discounts tx) (t_discounts tx')"
    by (rule appended_mapE [OF discount_put_row h]) (use frames in simp_all)
qed

section \<open>Reading back\<close>

lemma header_put_row:
  assumes "tx_header_put e owner tx g m s = Inr s'"
  shows "\<exists>row. find (live_of_tx (t_site_iid tx) (t_tx_id tx)) (q_tx s') = Some row \<and>
    w_site row = t_site_iid tx \<and> w_tx row = t_tx_id tx \<and> w_deleted row = None \<and> w_updated row = p_now e \<and>
    w_cols row = header_cols owner (fst (ts_or_now e (t_time_ts_ms tx) s)) g m tx"
proof -
  let ?c = "header_cols owner (fst (ts_or_now e (t_time_ts_ms tx) s)) g m tx"
  let ?mine = "of_tx (t_site_iid tx) (t_tx_id tx) :: TxCols row \<Rightarrow> bool"
  let ?upd = "\<lambda>q. if ?mine q then q\<lparr>w_updated := p_now e, w_deleted := None, w_cols := ?c\<rparr> else q"
  have upd: "\<exists>q \<in> set t. ?mine q \<Longrightarrow> \<exists>row. find (live_of_tx (t_site_iid tx) (t_tx_id tx)) (map ?upd t) = Some row \<and>
      ?mine row \<and> w_deleted row = None \<and> w_updated row = p_now e \<and> w_cols row = ?c" for t
    by (induction t) (auto simp: live_of_tx_def of_tx_def)
  have new: "\<forall>q \<in> set t. \<not> ?mine q \<Longrightarrow>
      find (live_of_tx (t_site_iid tx) (t_tx_id tx)) (t @ [new_row e (t_site_iid tx) (t_tx_id tx) ?c]) =
      Some (new_row e (t_site_iid tx) (t_tx_id tx) ?c)" for t
    by (induction t) (auto simp: live_of_tx_def of_tx_def new_row_def)
  show ?thesis
  proof (cases "\<exists>q \<in> set (q_tx s). ?mine q")
    case True
    then show ?thesis using assms upd [OF True]
      by (auto simp: tx_header_put_def Let_def split_beta of_tx_def split: if_splits)
  next
    case False
    then show ?thesis using assms new [of "q_tx s"]
      by (auto simp: tx_header_put_def Let_def split_beta new_row_def split: if_splits)
  qed
qed

lemma header_put_frame:
  "tx_header_put e owner tx g m s = Inr s' \<Longrightarrow>
    (q_item s', q_source s', q_reservation s', q_payment s', q_installment s', q_debt_payment s') =
    (q_item s, q_source s, q_reservation s, q_payment s, q_installment s, q_debt_payment s) \<and>
    (q_acc s', q_stock s', q_tax s', q_discount s', q_product s') =
    (q_acc s, q_stock s, q_tax s, q_discount s, q_product s)"
  by (auto simp: tx_header_put_def Let_def split_beta split: if_splits)

text \<open>The header fields as they are read back from the row \<open>header_cols\<close> writes.\<close>

definition header_norm :: "i64 \<Rightarrow> Tx \<Rightarrow> Tx" where
  "header_norm time tx = tx\<lparr>
     t_type := TxType_i32 (stored_type (tx_type (t_type tx))),
     t_state := TxState_i32 (tx_state (t_state tx)),
     t_input_mode := TxInputMode_i32 (unwrap_or Mode_Normal (TxInputMode_try_from (t_input_mode tx))),
     t_input_source := TxInputSource_i32 (stored_source (unwrap_or Src_Manual (TxInputSource_try_from (t_input_source tx)))),
     t_time_ts_ms := time,
     t_created_by_iid := smax (t_created_by_iid tx) 0,
     t_order_pay_at := TxOrderPayAt_i32 (unwrap_or PayAt_Unspecified (TxOrderPayAt_try_from (t_order_pay_at tx))),
     t_tx_data := Some (case t_tx_data tx of Some d \<Rightarrow> tx_data_json_norm d | None \<Rightarrow> TxData_default) \<rparr>"

lemma smax_unwrap: "unwrap_or 0 (if 0 <s a then Some a else None) = smax a (0 :: i64)"
  by (cases "0 <s a") (auto simp: smax_def signed.not_less signed.not_le [symmetric])

lemma tx_data_column:
  "tx_data_from_json (case t_tx_data tx of Some d \<Rightarrow> tx_data_to_json d | None \<Rightarrow> Object []) =
     Some (case t_tx_data tx of Some d \<Rightarrow> tx_data_json_norm d | None \<Rightarrow> TxData_default)"
proof (cases "t_tx_data tx")
  case None
  then show ?thesis by (simp add: tx_data_from_json_def field_defs TxData_default_def)
qed (simp add: tx_data_roundtrip)

lemma header_reload:
  assumes "w_cols row = header_cols owner time g m tx" and "w_site row = t_site_iid tx"
    and "w_tx row = t_tx_id tx" and "w_deleted row = None"
  shows "tx_header_from_row ck row = (header_norm (timestamp_millis ck time) tx)\<lparr>
    t_items := [], t_payments := [], t_accs := [], t_stocks := [], t_taxes := [], t_discounts := [],
    t_created_ts_ms := ts_ms ck (Some (w_created row)), t_updated_ts_ms := ts_ms ck (Some (w_updated row)),
    t_deleted_ts_ms := 0\<rparr>"
  unfolding tx_header_from_row_def Let_def assms header_cols_def header_norm_def
  by (rule Tx.equality; simp add: Tx_default_def ts_ms_def smax_unwrap tx_data_column tx_type_def tx_state_def
      unwrap_or_def [of Ty_Unspecified] unwrap_or_def [of St_Ok] unwrap_or_def [of "[]"])

lemma select_append_live:
  "\<forall>r \<in> set rs. live_of_tx site i r \<Longrightarrow> select_rows site i (delete_rows site i t @ rs) = rs"
  by (auto simp: select_rows_def delete_rows_def live_of_tx_def filter_empty_conv filter_id_conv)

lemma mset_order_by [simp]: "mset (order_by key t) = mset t"
  by (simp add: order_by_def)

lemma appended_reload:
  assumes "appended tbl F G K site i s s' xs ys" and "tbl s = delete_rows site i t"
  shows "mset (map F (order_by key (select_rows site i (tbl s')))) = mset (map G ys)"
proof -
  from assms obtain rs where "tbl s' = delete_rows site i t @ rs" "\<forall>r \<in> set rs. live_of_tx site i r"
    "map F rs = map G ys" by (auto simp: appended_def)
  then show ?thesis by (metis mset_map mset_order_by select_append_live)
qed

definition header_of :: "Tx \<Rightarrow> Tx" where
  "header_of tx = tx\<lparr> t_items := [], t_payments := [], t_accs := [], t_stocks := [], t_taxes := [],
     t_discounts := [], t_created_ts_ms := 0, t_updated_ts_ms := 0, t_deleted_ts_ms := 0 \<rparr>"

text \<open>\<open>l\<close> is what a load finds after \<open>tx\<close> was saved and got its ids as \<open>tx'\<close>.\<close>

definition reloaded :: "penv \<Rightarrow> datetime \<Rightarrow> Tx \<Rightarrow> Tx \<Rightarrow> Tx \<Rightarrow> bool" where
  "reloaded e time tx tx' l \<longleftrightarrow>
     header_of l = header_of (header_norm (timestamp_millis (p_clock e) time) tx) \<and>
     mset (map (\<lambda>a. a\<lparr>a_ts_ms := 0\<rparr>) (t_accs l)) = mset (map (\<lambda>a. (acc_json_norm a)\<lparr>a_ts_ms := 0\<rparr>) (t_accs tx')) \<and>
     mset (map (\<lambda>k. k\<lparr>k_ts_ms := 0\<rparr>) (t_stocks l)) = mset (map (\<lambda>k. k\<lparr>k_ts_ms := 0\<rparr>) (t_stocks tx')) \<and>
     mset (t_taxes l) = mset (t_taxes tx') \<and> mset (t_discounts l) = mset (t_discounts tx')"

lemma save_reload:
  assumes del: "tx_children_del (t_site_iid tx) (t_tx_id tx) s = Inr s1"
    and hdr: "tx_header_put e owner tx g m s1 = Inr s2"
    and put: "tx_children_put e tx s2 = Inr (tx', s3)"
  shows "\<exists>l. tx_load lo e s3 (t_site_iid tx) (t_tx_id tx) = Some l \<and>
    reloaded e (fst (ts_or_now e (t_time_ts_ms tx) s1)) tx tx' l"
proof -
  let ?site = "t_site_iid tx" and ?i = "t_tx_id tx" and ?ck = "p_clock e"
  note rows = tx_children_put_rows [OF put]
  have tabs: "q_acc s2 = delete_rows ?site ?i (q_acc s)" "q_stock s2 = delete_rows ?site ?i (q_stock s)"
    "q_tax s2 = delete_rows ?site ?i (q_tax s)" "q_discount s2 = delete_rows ?site ?i (q_discount s)"
    using header_put_frame [OF hdr] del by (auto simp: tx_children_del_def)
  from header_put_row [OF hdr] obtain row where
    row: "find (live_of_tx ?site ?i) (q_tx s3) = Some row" "w_site row = ?site" "w_tx row = ?i"
      "w_deleted row = None" "w_cols row = header_cols owner (fst (ts_or_now e (t_time_ts_ms tx) s1)) g m tx"
    using rows(1) by auto
  let ?l = "tx_children_attach lo e s3 ?site ?i (tx_header_from_row ?ck row)"
  have l: "tx_load lo e s3 ?site ?i = Some ?l" by (simp add: tx_load_def row(1))
  have "header_of ?l = header_of (header_norm (timestamp_millis ?ck (fst (ts_or_now e (t_time_ts_ms tx) s1))) tx)"
    by (simp add: tx_children_attach_def header_reload [OF row(5,2,3,4)] header_of_def)
  moreover have "mset (map (\<lambda>a. a\<lparr>a_ts_ms := 0\<rparr>) (t_accs ?l)) =
      mset (map (\<lambda>a. (acc_json_norm a)\<lparr>a_ts_ms := 0\<rparr>) (t_accs tx'))"
    using appended_reload [OF rows(2) tabs(1), of ca_acc_id]
    by (simp add: tx_children_attach_def comp_def image_mset.compositionality)
  moreover have "mset (map (\<lambda>k. k\<lparr>k_ts_ms := 0\<rparr>) (t_stocks ?l)) = mset (map (\<lambda>k. k\<lparr>k_ts_ms := 0\<rparr>) (t_stocks tx'))"
    using appended_reload [OF rows(3) tabs(2), of ck_stock_id]
    by (simp add: tx_children_attach_def comp_def image_mset.compositionality)
  moreover have "mset (t_taxes ?l) = mset (t_taxes tx')"
    using appended_reload [OF rows(4) tabs(3), of x_tax_id] by (simp add: tx_children_attach_def)
  moreover have "mset (t_discounts ?l) = mset (t_discounts tx')"
    using appended_reload [OF rows(5) tabs(4), of c_discount_id] by (simp add: tx_children_attach_def)
  ultimately show ?thesis using l by (auto simp: reloaded_def)
qed

lemma load_product_frame [simp]:
  "load_items lo e (s\<lparr>q_product := p\<rparr>) = load_items lo e s"
  "load_payments lo e (s\<lparr>q_product := p\<rparr>) = load_payments lo e s"
  "tx_children_attach lo e (s\<lparr>q_product := p\<rparr>) = tx_children_attach lo e s"
  "tx_load lo e (s\<lparr>q_product := p\<rparr>) = tx_load lo e s"
  by (simp_all add: fun_eq_iff load_items_def load_payments_def tx_children_attach_def tx_load_def Let_def
      split: option.split)

end
