(* ===== verification/Stock_Apply.thy ===== *)
theory Stock_Apply
  imports Tx_Db Tx_Stocks
begin

text \<open>
  Stock counters (\<open>servers/crates/mod_tx/src/stock_apply.rs\<close>): a save moves \<open>site.product.stock_qty\<close>
  by the difference between the new and the old stock lines of the transaction.

  \<open>stock_counter_deltas\<close> is a map from a place (0 for the site as a whole) to a map from a
  product to a signed quantity; only place 0 is read. The keys of the \<open>HashMap\<close>s are iterated in
  the order the argument \<open>order\<close> gives.
\<close>

type_synonym counters = "(i64 \<times> (i64 \<times> i64) list) list"

definition stock_counter_add :: "i64 \<Rightarrow> i64 \<Rightarrow> i64 \<Rightarrow> counters \<Rightarrow> counters" where
  "stock_counter_add obj_id product_id delta m =
     (let inner = (case map_of m obj_id of None \<Rightarrow> [] | Some i \<Rightarrow> i);
          inner' = hm_insert product_id
            (case map_of inner product_id of None \<Rightarrow> delta | Some v \<Rightarrow> v + delta) inner
      in hm_insert obj_id inner' m)"

definition stock_signed :: "TxStock \<Rightarrow> i64" where
  "stock_signed s =
     (if k_qty_signed s \<noteq> 0 then scast (k_qty_signed s)
      else scast (stock_direction_signed (k_direction s) (k_qty s)))"

definition stock_counter_step :: "TxStock \<Rightarrow> counters \<Rightarrow> counters" where
  "stock_counter_step s out =
     (if k_product_id s = 0 \<or> k_qty s = 0 then out
      else let out = stock_counter_add 0 (k_product_id s) (stock_signed s) out
           in if k_direction s = ''in''
              then stock_counter_add (k_obj_to_id s) (k_product_id s) (scast (k_qty s)) out
              else if k_direction s = ''out''
              then stock_counter_add (k_obj_from_id s) (k_product_id s) (- scast (k_qty s)) out
              else if k_direction s = ''transfer''
              then stock_counter_add (k_obj_to_id s) (k_product_id s) (scast (k_qty s))
                     (stock_counter_add (k_obj_from_id s) (k_product_id s) (- scast (k_qty s)) out)
              else out)"

definition stock_counter_deltas :: "TxStock list \<Rightarrow> counters" where
  "stock_counter_deltas stocks = fold stock_counter_step stocks []"

definition counter_at :: "counters \<Rightarrow> i64 \<Rightarrow> i64 \<Rightarrow> i64" where
  "counter_at m obj_id product_id =
     (case map_of m obj_id of None \<Rightarrow> 0
      | Some i \<Rightarrow> (case map_of i product_id of None \<Rightarrow> 0 | Some v \<Rightarrow> v))"

definition counter_products :: "counters \<Rightarrow> i64 list" where
  "counter_products m = concat (map (\<lambda>(_, i). map fst i) m)"

definition product_live :: "i64 \<Rightarrow> i64 \<Rightarrow> ProductRow \<Rightarrow> bool" where
  "product_live site product_id p \<longleftrightarrow>
     pd_site_iid p = site \<and> pd_product_id p = product_id \<and> pd_deleted p = None"

definition product_can_reserve_map :: "i64 \<Rightarrow> i64 list \<Rightarrow> conn \<Rightarrow> (i64 \<times> bool) list" where
  "product_can_reserve_map site product_ids s =
     fold (\<lambda>pid m. hm_insert pid
            (case find (product_live site pid) (q_product s) of None \<Rightarrow> False | Some p \<Rightarrow> pd_can_reserve p) m)
       product_ids []"

text \<open>\<open>stock_qty\<close> is an \<open>INT\<close> column: PostgreSQL refuses a sum out of its range.\<close>

definition product_stock_update :: "penv \<Rightarrow> i64 \<Rightarrow> i64 \<Rightarrow> i32 \<Rightarrow> conn \<Rightarrow> string + conn" where
  "product_stock_update e site product_id delta s =
     (let hit = (\<lambda>p. product_live site product_id p \<and> pd_track_stock p)
      in if \<exists>p \<in> set (q_product s). hit p \<and> \<not> fits TYPE(32) (sint (pd_stock_qty p) + sint delta)
         then Inl ''integer out of range''
         else Inr (s\<lparr> q_product := map (\<lambda>p. if hit p
           then p\<lparr> pd_stock_qty := pd_stock_qty p + delta, pd_updated := p_now e \<rparr> else p) (q_product s) \<rparr>))"

definition product_stock_apply ::
  "(i64 list \<Rightarrow> i64 list) \<Rightarrow> penv \<Rightarrow> i64 \<Rightarrow> TxStock list \<Rightarrow> TxStock list \<Rightarrow> conn \<Rightarrow> string + conn" where
  "product_stock_apply order e site old_stocks new_stocks s =
     (let old_d = stock_counter_deltas old_stocks;
          new_d = stock_counter_deltas new_stocks;
          product_ids = remdups (counter_products old_d @ counter_products new_d)
      in if product_ids = [] then Inr s
         else let can_reserve = product_can_reserve_map site (order product_ids) s
              in forE (\<lambda>product_id s.
                   if (case map_of can_reserve product_id of None \<Rightarrow> False | Some b \<Rightarrow> b) then Inr s
                   else let old_qty = counter_at old_d 0 product_id;
                            new_qty = counter_at new_d 0 product_id;
                            delta = new_qty - old_qty
                        in if delta = 0 then Inr s
                           else product_stock_update e site product_id (scast delta) s)
                 (order product_ids) s)"

section \<open>Counters\<close>

lemma counter_at_Nil [simp]: "counter_at [] o' p = 0"
  by (simp add: counter_at_def)

lemma counter_at_add [simp]:
  "counter_at (stock_counter_add ob p d m) ob' p' = counter_at m ob' p' + (if ob' = ob \<and> p' = p then d else 0)"
  by (auto simp: counter_at_def stock_counter_add_def Let_def split: option.split)

text \<open>What a stock line adds to the counter of the whole site (place 0). The line of a place whose id
  is 0 is counted there a second time.\<close>

definition place_zero :: "TxStock \<Rightarrow> i64" where
  "place_zero s =
     (if k_direction s = ''in'' then (if k_obj_to_id s = 0 then scast (k_qty s) else 0)
      else if k_direction s = ''out'' then (if k_obj_from_id s = 0 then - scast (k_qty s) else 0)
      else if k_direction s = ''transfer''
      then (if k_obj_from_id s = 0 then - scast (k_qty s) else 0)
           + (if k_obj_to_id s = 0 then scast (k_qty s) else 0)
      else 0)"

definition line_move :: "i64 \<Rightarrow> TxStock \<Rightarrow> i64" where
  "line_move product_id s =
     (if k_product_id s = product_id \<and> product_id \<noteq> 0 \<and> k_qty s \<noteq> 0 then stock_signed s + place_zero s else 0)"

definition net_move :: "TxStock list \<Rightarrow> i64 \<Rightarrow> i64" where
  "net_move stocks product_id = (\<Sum>s\<leftarrow>stocks. line_move product_id s)"

lemma counter_step:
  "counter_at (stock_counter_step s m) 0 p = counter_at m 0 p + line_move p s"
  by (auto simp: stock_counter_step_def line_move_def place_zero_def Let_def)

lemma counter_deltas: "counter_at (stock_counter_deltas stocks) 0 p = net_move stocks p"
proof -
  have "counter_at (fold stock_counter_step stocks m) 0 p = counter_at m 0 p + net_move stocks p" for m
    by (induction stocks arbitrary: m) (simp_all add: net_move_def counter_step)
  then show ?thesis by (simp add: stock_counter_deltas_def)
qed

lemma counter_absent: "p \<notin> set (counter_products m) \<Longrightarrow> counter_at m ob p = 0"
  by (force simp: counter_at_def counter_products_def dest: map_of_SomeD split: option.split)

lemma net_move_absent:
  "p \<notin> set (counter_products (stock_counter_deltas stocks)) \<Longrightarrow> net_move stocks p = 0"
  by (metis counter_absent counter_deltas)

section \<open>Product rows\<close>

definition product_pk :: "conn \<Rightarrow> bool" where
  "product_pk s \<longleftrightarrow> distinct (map (\<lambda>p. (pd_site_iid p, pd_product_id p)) (q_product s))"

definition stock_moved :: "i64 \<Rightarrow> (i64 \<Rightarrow> i64) \<Rightarrow> ProductRow \<Rightarrow> bool" where
  "stock_moved site d p \<longleftrightarrow>
     product_live site (pd_product_id p) p \<and> pd_track_stock p \<and> \<not> pd_can_reserve p \<and> d (pd_product_id p) \<noteq> 0"

definition stock_row :: "penv \<Rightarrow> i64 \<Rightarrow> (i64 \<Rightarrow> i64) \<Rightarrow> ProductRow \<Rightarrow> ProductRow" where
  "stock_row e site d p =
     (if stock_moved site d p
      then p\<lparr> pd_stock_qty := pd_stock_qty p + scast (d (pd_product_id p)), pd_updated := p_now e \<rparr> else p)"

text \<open>The new quantity does not fit the column.\<close>

definition stock_over :: "i64 \<Rightarrow> (i64 \<Rightarrow> i64) \<Rightarrow> ProductRow \<Rightarrow> bool" where
  "stock_over site d p \<longleftrightarrow> stock_moved site d p \<and>
     \<not> fits TYPE(32) (sint (pd_stock_qty p) + sint (scast (d (pd_product_id p)) :: i32))"

lemma for_product_update:
  fixes ids skip d site s
  defines "hit ids' p \<equiv> pd_product_id p \<in> set ids' \<and> \<not> skip (pd_product_id p) \<and> d (pd_product_id p) \<noteq> 0 \<and>
      product_live site (pd_product_id p) p \<and> pd_track_stock p"
  assumes "distinct ids"
  shows "forE (\<lambda>pid s. if skip pid then Inr s else if d pid = 0 then Inr s
            else product_stock_update e site pid (scast (d pid)) s) ids s =
    (if \<exists>p \<in> set (q_product s). hit ids p \<and> \<not> fits TYPE(32) (sint (pd_stock_qty p) + sint (scast (d (pd_product_id p)) :: i32))
     then Inl ''integer out of range''
     else Inr (s\<lparr> q_product := map (\<lambda>p. if hit ids p
       then p\<lparr> pd_stock_qty := pd_stock_qty p + scast (d (pd_product_id p)), pd_updated := p_now e \<rparr>
       else p) (q_product s) \<rparr>))"
  using assms(2)
proof (induction ids arbitrary: s)
  case Nil
  then show ?case by (simp add: hit_def map_idI)
next
  case (Cons pid ids)
  let ?over = "\<lambda>p. \<not> fits TYPE(32) (sint (pd_stock_qty p) + sint (scast (d (pd_product_id p)) :: i32))"
  let ?step = "\<lambda>pid s. if skip pid then Inr s else if d pid = 0 then Inr s
    else product_stock_update e site pid (scast (d pid)) s"
  have split: "hit (pid # ids) p \<longleftrightarrow> hit [pid] p \<or> hit ids p" for p by (auto simp: hit_def)
  have one: "\<not> (hit [pid] p \<and> hit ids p)" for p using Cons.prems by (auto simp: hit_def)
  show ?case
  proof (cases "skip pid \<or> d pid = 0")
    case True
    then have "hit (pid # ids) = hit ids" by (auto simp: hit_def fun_eq_iff)
    with True Cons show ?thesis by (auto simp: bindE_def)
  next
    case False
    let ?upd = "\<lambda>p. p\<lparr>pd_stock_qty := pd_stock_qty p + scast (d (pd_product_id p)), pd_updated := p_now e\<rparr>"
    have h: "hit [pid] p \<longleftrightarrow> product_live site pid p \<and> pd_track_stock p" for p
      using False by (auto simp: hit_def product_live_def)
    have stp: "?step pid s = (if \<exists>p \<in> set (q_product s). hit [pid] p \<and> ?over p then Inl ''integer out of range''
        else Inr (s\<lparr>q_product := map (\<lambda>p. if hit [pid] p then ?upd p else p) (q_product s)\<rparr>))"
      using False by (auto simp: product_stock_update_def h product_live_def intro!: conn.equality)
    have keep: "hit ids (?upd p) \<longleftrightarrow> hit ids p" for p by (simp add: hit_def product_live_def)
    show ?thesis
    proof (cases "\<exists>p \<in> set (q_product s). hit [pid] p \<and> ?over p")
      case True
      then show ?thesis using stp split by (auto simp: bindE_def)
    next
      case no: False
      let ?s = "s\<lparr>q_product := map (\<lambda>p. if hit [pid] p then ?upd p else p) (q_product s)\<rparr>"
      have ex: "(\<exists>p \<in> set (q_product ?s). hit ids p \<and> ?over p) \<longleftrightarrow> (\<exists>p \<in> set (q_product s). hit (pid # ids) p \<and> ?over p)"
        using no one keep split by (auto simp: image_iff split: if_splits)
      have mp: "map (\<lambda>p. if hit ids p then ?upd p else p) (q_product ?s) =
          map (\<lambda>p. if hit (pid # ids) p then ?upd p else p) (q_product s)"
        using one keep split by auto
      from no stp have "?step pid s = Inr ?s" by simp
      then have "forE ?step (pid # ids) s = forE ?step ids ?s" by (simp add: bindE_def)
      also have "\<dots> = (if \<exists>p \<in> set (q_product ?s). hit ids p \<and> ?over p then Inl ''integer out of range''
          else Inr (?s\<lparr>q_product := map (\<lambda>p. if hit ids p then ?upd p else p) (q_product ?s)\<rparr>))"
        using Cons by simp
      finally show ?thesis unfolding ex mp by simp
    qed
  qed
qed

lemma can_reserve_map:
  "map_of (product_can_reserve_map site ids s) =
     (\<lambda>pid. if pid \<in> set ids then Some (case find (product_live site pid) (q_product s) of None \<Rightarrow> False
        | Some p \<Rightarrow> pd_can_reserve p) else None)"
proof -
  have "map_of (fold (\<lambda>pid. hm_insert pid (c pid)) ids m) =
      (\<lambda>pid. if pid \<in> set ids then Some (c pid) else map_of m pid)" for c :: "i64 \<Rightarrow> bool" and m
    by (induction ids arbitrary: m) (auto simp: fun_eq_iff)
  then show ?thesis by (simp add: product_can_reserve_map_def fun_eq_iff)
qed

lemma find_product:
  assumes "product_pk s" and "p \<in> set (q_product s)" and "product_live site (pd_product_id p) p"
  shows "find (product_live site (pd_product_id p)) (q_product s) = Some p"
proof -
  have "find (product_live site (pd_product_id p)) ps = Some p"
    if "distinct (map (\<lambda>p. (pd_site_iid p, pd_product_id p)) ps)" "p \<in> set ps" for ps
    using that assms(3) by (induction ps) (auto simp: product_live_def rev_image_eqI)
  with assms(1,2) show ?thesis by (simp add: product_pk_def)
qed

lemma stock_apply_rows:
  assumes "permuting order" and "product_pk s"
  defines "d \<equiv> \<lambda>old new p. net_move new p - net_move old p"
  shows "product_stock_apply order e site old new s =
    (if \<exists>p \<in> set (q_product s). stock_over site (d old new) p then Inl ''integer out of range''
     else Inr (s\<lparr> q_product := map (stock_row e site (d old new)) (q_product s) \<rparr>))"
proof -
  let ?ids = "remdups (counter_products (stock_counter_deltas old) @ counter_products (stock_counter_deltas new))"
  let ?d = "\<lambda>p. net_move new p - net_move old p"
  let ?skip = "\<lambda>pid. case map_of (product_can_reserve_map site (order ?ids) s) pid of None \<Rightarrow> False | Some b \<Rightarrow> b"
  have out: "?d p = 0" if "p \<notin> set ?ids" for p
    using that net_move_absent by simp
  have dist: "distinct (order ?ids)"
    using permuting_distinct_map [OF assms(1), of id ?ids] by simp
  have set: "set (order ?ids) = set ?ids" by (rule permuting_set [OF assms(1)])
  have hit: "(pd_product_id p \<in> set ?ids \<and> \<not> ?skip (pd_product_id p) \<and> ?d (pd_product_id p) \<noteq> 0 \<and>
      product_live site (pd_product_id p) p \<and> pd_track_stock p) \<longleftrightarrow> stock_moved site ?d p" if "p \<in> set (q_product s)" for p
    using out [of "pd_product_id p"] find_product [OF assms(2) that]
    by (auto simp: stock_moved_def can_reserve_map set)
  show ?thesis
  proof (cases "?ids = []")
    case True
    then have "\<not> stock_moved site ?d p" for p using out by (simp add: stock_moved_def)
    with True show ?thesis
      by (simp add: product_stock_apply_def Let_def map_idI d_def stock_row_def stock_over_def)
  next
    case False
    have "product_stock_apply order e site old new s = forE (\<lambda>pid s. if ?skip pid then Inr s else if ?d pid = 0 then Inr s
            else product_stock_update e site pid (scast (?d pid)) s) (order ?ids) s"
      using False by (simp only: product_stock_apply_def Let_def counter_deltas if_False)
    also have "\<dots> = (if \<exists>p \<in> set (q_product s). stock_over site ?d p then Inl ''integer out of range''
        else Inr (s\<lparr> q_product := map (stock_row e site ?d) (q_product s) \<rparr>))"
      unfolding for_product_update [OF dist] set stock_over_def stock_row_def
      using hit by (auto simp: hit cong: map_cong)
    finally show ?thesis unfolding d_def .
  qed
qed

lemma stock_apply_Inr:
  assumes "product_stock_apply order e site old new s = Inr s'" and "permuting order" and "product_pk s"
  shows "s' = s\<lparr> q_product := map (stock_row e site (\<lambda>p. net_move new p - net_move old p)) (q_product s) \<rparr>"
  using assms(1) unfolding stock_apply_rows [OF assms(2,3)] by (auto split: if_splits)

section \<open>Properties\<close>

text \<open>Saving moves each product by the difference of the transaction's new and old stock
  lines: \<open>product_stock_apply\<close> adds \<open>net_move new - net_move old\<close> to every live product of the site
  that tracks stock and is not reservable, and leaves every other product and every other table
  alone, whatever order the products are visited in. It fails exactly when a new quantity leaves
  the range of the column, so a quantity never wraps.\<close>

theorem product_stock_apply_effect:
  assumes "permuting order" and "product_pk s"
  shows "product_stock_apply order e site old new s =
    (if \<exists>p \<in> set (q_product s). stock_over site (\<lambda>p. net_move new p - net_move old p) p
     then Inl ''integer out of range''
     else Inr (s\<lparr> q_product := map (stock_row e site (\<lambda>p. net_move new p - net_move old p)) (q_product s) \<rparr>))"
  by (rule stock_apply_rows [OF assms])

lemma take_bit_narrow: "take_bit 32 (signed_take_bit 63 a + signed_take_bit 63 b :: int) = take_bit 32 (a + b)"
  using take_bit_add [of 32 "signed_take_bit 63 a" "signed_take_bit 63 b"] take_bit_add [of 32 a b]
  by (simp add: take_bit_signed_take_bit)

lemma scast_add_narrow: "(scast (a + b :: i64) :: i32) = scast a + scast b"
  by transfer (simp add: take_bit_signed_take_bit take_bit_narrow)

lemma product_live_upd [simp]:
  "product_live site i (p\<lparr>pd_stock_qty := q, pd_updated := t\<rparr>) = product_live site i p"
  by (simp add: product_live_def)

lemma product_pk_rows:
  "product_pk s \<Longrightarrow> product_pk (s\<lparr>q_product := map (stock_row e site d) (q_product s)\<rparr>)"
  by (simp add: product_pk_def comp_def stock_row_def if_distrib cong: if_cong)

lemma stock_row_qty:
  "pd_stock_qty (stock_row e site d2 (stock_row e' site d1 p)) = pd_stock_qty (stock_row e' site (\<lambda>p. d1 p + d2 p) p)"
proof -
  have "d1 (pd_product_id p) + d2 (pd_product_id p) = 0 \<Longrightarrow>
      (scast (d1 (pd_product_id p)) :: i32) + scast (d2 (pd_product_id p)) = 0"
    by (metis scast_add_narrow signed_0)
  then show ?thesis by (auto simp: stock_row_def stock_moved_def scast_add_narrow ac_simps)
qed

text \<open>Stock movements telescope: saving a transaction again replaces its old effect on the
  stock counters. Two saves in a row, from the lines \<open>a\<close> to \<open>b\<close> and from \<open>b\<close> to \<open>c\<close>, leave the same
  quantities as one save from \<open>a\<close> to \<open>c\<close>; saving the same lines again changes no quantity.\<close>

theorem stock_apply_telescopes:
  assumes "permuting order" and "product_pk s"
    and "product_stock_apply order e site a b s = Inr s1"
    and "product_stock_apply order e' site b c s1 = Inr s2"
    and "product_stock_apply order e site a c s = Inr t"
  shows "map pd_stock_qty (q_product s2) = map pd_stock_qty (q_product t)"
proof -
  note s1 = stock_apply_Inr [OF assms(3,1,2)]
  have "product_pk s1" unfolding s1 by (rule product_pk_rows [OF assms(2)])
  from stock_apply_Inr [OF assms(4,1) this] stock_apply_Inr [OF assms(5,1,2)] show ?thesis
    by (simp add: s1 stock_row_qty)
qed

text \<open>A sale of whole items: the site counter moves by the sold quantity, and by twice that
  quantity when the sale names no store.\<close>

lemma widen_neg_pos: "0 <s q \<Longrightarrow> (scast (- q :: i32) :: i64) = - scast q"
proof -
  assume "0 <s q"
  then have "fits TYPE(32) (sint (0 :: i32) - sint q)" "fits TYPE(64) (sint (0::i64) - sint q)"
    using sint_lt [of q] sint_ge [of q] by (simp_all add: fits_def word_sless_alt)
  then have "sint (scast (- q :: i32) :: i64) = sint (- scast q :: i64)"
    using sint_diff_fits [of "0 :: i32" q] sint_diff_fits [of "0 :: i64" "scast q"] by simp
  then have "(of_int (sint (scast (- q :: i32) :: i64)) :: i64) = of_int (sint (- scast q :: i64))"
    by (simp only:)
  then show ?thesis by (simp only: of_int_sint scast_id)
qed

definition sold_qty :: "i64 \<Rightarrow> TxItem list \<Rightarrow> i64" where
  "sold_qty p items = (\<Sum>i\<leftarrow>filter (\<lambda>i. i_product_id i = p) items. scast (i_qty i))"

lemma line_move_sale:
  assumes "0 <s q" and "p \<noteq> 0"
  shows "line_move p ((stock_out_line ts ''out'' pid store q)\<lparr>k_qty_signed := stock_direction_signed ''out'' q\<rparr>) =
    (if pid = p then (if store = 0 then - 2 else - 1) * scast q else 0)"
proof -
  have "q \<noteq> 0" using assms(1) by auto
  then show ?thesis using assms
    by (simp add: line_move_def stock_signed_def place_zero_def stock_out_line_def TxStock_default_def
        stock_direction_signed_def widen_neg_pos)
qed

lemma net_move_sale:
  assumes "\<forall>i \<in> set items. 0 <s i_qty i \<and> i_sources i = []" and "p \<noteq> 0"
  shows "net_move (map (\<lambda>s. s\<lparr>k_qty_signed := stock_direction_signed (k_direction s) (k_qty s)\<rparr>)
      (tx_append_item_stocks ts store ''out'' items)) p = (if store = 0 then - 2 else - 1) * sold_qty p items"
  using assms(1)
proof (induction items)
  case Nil
  then show ?case by (simp add: net_move_def tx_append_item_stocks_def sold_qty_def)
next
  case (Cons i items)
  from Cons.prems have i: "0 <s i_qty i" "i_qty i \<noteq> 0" "i_sources i = []" by auto
  have "stock_out_line ts ''out'' (i_product_id i) store (i_qty i) =
      (stock_out_line ts ''out'' (i_product_id i) store (i_qty i))\<lparr>k_direction := ''out'', k_qty := i_qty i\<rparr>"
    by (simp add: stock_out_line_def)
  with Cons i line_move_sale [OF i(1) assms(2), of ts "i_product_id i" store] show ?case
    by (simp add: net_move_def tx_append_item_stocks_def sold_qty_def stock_out_line_def algebra_simps)
qed

text \<open>What a sale takes from stock. For a sale of positive quantities without source
  allocation, the site counter of a product moves by minus the quantity sold when the sale names
  a store, but by minus twice that quantity when it names none: the line of place 0 is added to the
  counter of the whole site, which has the same key.\<close>

theorem sale_stock_move:
  assumes "tx_type (t_type tx) = Ty_Sale" and "\<forall>i \<in> set (t_items tx). 0 <s i_qty i \<and> i_sources i = []"
    and "p \<noteq> 0"
  shows "net_move (t_stocks (tx_compute_stock ts tx)) p =
    (if t_store_id tx = 0 then - 2 else - 1) * sold_qty p (t_items tx)"
  using net_move_sale [OF assms(2,3)] assms(1) by (simp add: tx_compute_stock_def tx_stock_lines_def Let_def)

section \<open>Examples\<close>

definition test_env :: penv where
  "test_env = \<lparr> p_ids = (\<lambda>n. of_nat n + 1000), p_utc = (\<lambda>n. 1700000000000000000), p_now = 1700000000000000000,
     p_identity = (\<lambda>_. True),
     p_clock = \<lparr> from_timestamp_millis = (\<lambda>ms. Some (sint ms * 1000000)),
       timestamp_millis = (\<lambda>d. word_of_int (d div 1000000)), now_time = 0, now_due = 0 \<rparr>,
     p_from_str = (\<lambda>_. Inl ''eof''), p_to_string = quote_str \<rparr>"

definition empty_conn :: conn where
  "empty_conn = \<lparr> q_tx = [], q_item = [], q_source = [], q_reservation = [], q_payment = [],
     q_installment = [], q_debt_payment = [], q_acc = [], q_stock = [], q_tax = [], q_discount = [],
     q_product = [], c_next = 0, c_tick = 0 \<rparr>"

definition test_product :: ProductRow where
  "test_product = \<lparr> pd_site_iid = 1, pd_product_id = 100, pd_can_reserve = False, pd_track_stock = True,
     pd_stock_qty = 10, pd_is_used = False, pd_can_sell = True, pd_is_archived = False, pd_price = 5000,
     pd_rev = 1, pd_json = ''{}'', pd_owner_iid = 50, pd_type = 0, pd_name = ''Kopi'', pd_desc = [], pd_unit = [], pd_sku = ''K1'',
     pd_pic = [], pd_category = [], pd_search_text = ''Kopi K1 '', pd_sort_order = 0, pd_recommended_guest = False, pd_created = 0, pd_updated = 0, pd_deleted = None \<rparr>"

definition test_line :: "i32 \<Rightarrow> TxStock" where
  "test_line q = TxStock_default\<lparr> k_product_id := 100, k_obj_from_id := 7, k_qty := q,
     k_direction := ''out'', k_qty_signed := - q \<rparr>"

lemma test_pk: "product_pk (empty_conn\<lparr>q_product := [test_product]\<rparr>)"
  by (simp add: product_pk_def)

theorem product_stock_apply_effect_witness:
  "permuting rev \<and> product_pk (empty_conn\<lparr>q_product := [test_product]\<rparr>) \<and>
   (\<exists>s'. product_stock_apply rev test_env 1 [test_line 3] [test_line 5] (empty_conn\<lparr>q_product := [test_product]\<rparr>) =
      Inr s' \<and> map pd_stock_qty (q_product s') = [8])"
proof -
  note r = product_stock_apply_effect [OF permuting_rev test_pk, of test_env 1 "[test_line 3]" "[test_line 5]"]
  have "map pd_stock_qty (map (stock_row test_env 1 (\<lambda>p. net_move [test_line 5] p - net_move [test_line 3] p)) [test_product]) = [8]"
    "\<not> stock_over 1 (\<lambda>p. net_move [test_line 5] p - net_move [test_line 3] p) test_product"
    by code_simp+
  with r permuting_rev test_pk show ?thesis by simp
qed

theorem stock_apply_telescopes_witness:
  "\<exists>s1 s2 t. product_stock_apply rev test_env 1 [] [test_line 3] (empty_conn\<lparr>q_product := [test_product]\<rparr>) = Inr s1 \<and>
     product_stock_apply rev test_env 1 [test_line 3] [test_line 5] s1 = Inr s2 \<and>
     product_stock_apply rev test_env 1 [] [test_line 5] (empty_conn\<lparr>q_product := [test_product]\<rparr>) = Inr t \<and>
     map pd_stock_qty (q_product s2) = map pd_stock_qty (q_product t) \<and> map pd_stock_qty (q_product t) = [5]"
proof -
  let ?s = "empty_conn\<lparr>q_product := [test_product]\<rparr>"
  let ?d = "\<lambda>old new p. net_move new p - net_move old p"
  let ?s1 = "?s\<lparr>q_product := map (stock_row test_env 1 (?d [] [test_line 3])) [test_product]\<rparr>"
  have pk1: "product_pk ?s1" using product_pk_rows [OF test_pk] by simp
  have over: "\<not> stock_over 1 (?d [] [test_line 3]) test_product" "\<not> stock_over 1 (?d [] [test_line 5]) test_product"
    "\<not> stock_over 1 (?d [test_line 3] [test_line 5]) (stock_row test_env 1 (?d [] [test_line 3]) test_product)"
    by code_simp+
  have 1: "product_stock_apply rev test_env 1 [] [test_line 3] ?s = Inr ?s1"
    unfolding stock_apply_rows [OF permuting_rev test_pk] using over(1) by simp
  obtain s2 where 2: "product_stock_apply rev test_env 1 [test_line 3] [test_line 5] ?s1 = Inr s2"
    unfolding stock_apply_rows [OF permuting_rev pk1] using over(3) by simp
  have 3: "product_stock_apply rev test_env 1 [] [test_line 5] ?s =
      Inr (?s\<lparr>q_product := map (stock_row test_env 1 (?d [] [test_line 5])) [test_product]\<rparr>)"
    unfolding stock_apply_rows [OF permuting_rev test_pk] using over(2) by simp
  have "map pd_stock_qty (map (stock_row test_env 1 (?d [] [test_line 5])) [test_product]) = [5]"
    by code_simp
  with 1 2 3 stock_apply_telescopes [OF permuting_rev test_pk 1 2 3] show ?thesis by auto
qed

text \<open>Selling two units of a product without naming a store takes four from the counter.\<close>

theorem sale_stock_move_witness:
  "\<exists>tx. tx_type (t_type tx) = Ty_Sale \<and> t_store_id tx = 0 \<and> sold_qty 100 (t_items tx) = 2 \<and>
     net_move (t_stocks (tx_compute_stock 5 tx)) 100 = - 4"
proof -
  let ?tx = "Tx_default\<lparr> t_type := TxType_i32 Ty_Sale,
    t_items := [TxItem_default\<lparr> i_product_id := 100, i_qty := 2 \<rparr>] \<rparr>"
  have t: "tx_type (t_type ?tx) = Ty_Sale" by code_simp
  have i: "\<forall>i \<in> set (t_items ?tx). 0 <s i_qty i \<and> i_sources i = []" by code_simp
  have q: "sold_qty 100 (t_items ?tx) = 2" "t_store_id ?tx = 0" by code_simp+
  show ?thesis
    by (rule exI [of _ ?tx]) (use sale_stock_move [OF t i, of 100 5] t q in simp)
qed

end
