(* ===== verification/Site_Access.thy ===== *)
theory Site_Access
  imports Json
begin

text \<open>
  Who may act on a site, and what a site has switched on: \<open>servers/crates/mod_site/src/grant.rs\<close>,
  \<open>staff.rs\<close>, \<open>site_config.rs\<close>, \<open>site_publish.rs\<close> (\<open>site_published\<close>) and
  \<open>servers/crates/mod_tx/src/tx_owner_resolve.rs\<close>. The tables they read are the lists of an
  \<open>access\<close> record; \<open>Site_Handle\<close> and \<open>Site_Team\<close> write them. A query that fetches at most one row takes the first
  that matches (\<open>id\<close> is the primary key of identities, a grant is unique per resource and grantee).
\<close>

record IdentityRow =
  id_id :: i64
  id_kind :: string
  id_owner_iid :: i64
  id_alien_id :: "string option"
  id_name :: string
  id_meta :: Value
  id_is_active :: bool
  id_deleted :: bool

record GrantRow =
  gr_resource_iid :: i64
  gr_grantee_iid :: i64
  gr_role :: string
  gr_deleted :: bool

record PublishRow =
  pb_site_iid :: i64
  pb_version_id :: string
  pb_owner_iid :: i64
  pb_doc_json :: Value
  pb_render_hash :: string
  pb_published_ts :: int
  pb_is_active :: bool
  pb_deleted :: bool

record ConfigRow =
  cf_site_iid :: i64
  cf_owner_iid :: i64
  cf_published_version_id :: "string option"
  cf_guest_render_version :: i32
  cf_inventory_costing_method :: string
  cf_tz :: string
  cf_payroll_policy :: Value
  cf_presence_policy :: Value
  cf_alien_id_changed :: "int option"
  cf_capabilities :: Value
  cf_assistant_bot_iid :: "i64 option"
  cf_created_ts :: int
  cf_updated_ts :: int
  cf_deleted :: bool

record access =
  z_identity :: "IdentityRow list"
  z_grant :: "GrantRow list"
  z_publish :: "PublishRow list"
  z_config :: "ConfigRow list"

section \<open>Roles\<close>

definition site_role_rank :: "string \<Rightarrow> int" where
  "site_role_rank role =
     (if role = ''owner'' then 4 else if role = ''manage'' then 3 else if role = ''staff'' then 2
      else if role = ''guest'' then 1 else 0)"

definition site_role_allows :: "string \<Rightarrow> bool \<Rightarrow> bool" where
  "site_role_allows role write =
     (if write then site_role_rank ''manage'' \<le> site_role_rank role
      else site_role_rank ''guest'' \<le> site_role_rank role)"

definition meta_is_root :: "Value \<Rightarrow> bool" where
  "meta_is_root meta =
     (case Option.bind (get_val meta ''is_root'') as_bool of
        Some b \<Rightarrow> b
      | None \<Rightarrow> unwrap_or False (map_option (\<lambda>s. s = ''true'') (Option.bind (get_val meta ''is_root'') as_str)))"

definition meta_is_director :: "Value \<Rightarrow> bool" where
  "meta_is_director meta =
     unwrap_or False (map_option (list_ex (\<lambda>x. as_str x = Some ''director''))
       (Option.bind (get_val meta ''global_roles'') as_array))"

definition caller_root_or_director :: "access \<Rightarrow> i64 \<Rightarrow> bool" where
  "caller_root_or_director z caller =
     (if caller = 99000 then True
      else if caller \<le>s 0 then False
      else case find (\<lambda>i. id_id i = caller \<and> \<not> id_deleted i \<and> id_is_active i) (z_identity z) of
             None \<Rightarrow> False
           | Some i \<Rightarrow> meta_is_root (id_meta i) \<or> meta_is_director (id_meta i))"

definition site_row :: "access \<Rightarrow> i64 \<Rightarrow> IdentityRow option" where
  "site_row z site = find (\<lambda>i. id_id i = site \<and> id_kind i = ''site'' \<and> \<not> id_deleted i) (z_identity z)"

definition grant_role :: "access \<Rightarrow> i64 \<Rightarrow> i64 \<Rightarrow> string option" where
  "grant_role z site caller =
     map_option gr_role
       (find (\<lambda>g. gr_resource_iid g = site \<and> gr_grantee_iid g = caller \<and> \<not> gr_deleted g) (z_grant z))"

definition site_grant_check :: "access \<Rightarrow> i64 \<Rightarrow> i64 \<Rightarrow> bool \<Rightarrow> string + i64" where
  "site_grant_check z caller site write =
     (case site_row z site of
        None \<Rightarrow> Inl ''site not found''
      | Some row \<Rightarrow>
          (let owner = id_owner_iid row
           in if caller_root_or_director z caller then Inr owner
              else if owner = caller then Inr owner
              else let role = unwrap_or [] (grant_role z site caller)
                   in if site_role_allows role write then Inr owner else Inl ''forbidden''))"

definition tx_owner_resolve :: "access \<Rightarrow> i64 \<Rightarrow> i64 \<Rightarrow> bool \<Rightarrow> string + i64" where
  "tx_owner_resolve z caller site write =
     (if site = caller then
        (if find (\<lambda>i. id_id i = caller \<and> id_kind i = ''user'' \<and> \<not> id_deleted i) (z_identity z) = None
         then Inl ''user not found'' else Inr caller)
      else site_grant_check z caller site write)"

section \<open>Capabilities\<close>

definition site_capability_enabled :: "Value \<Rightarrow> string \<Rightarrow> bool" where
  "site_capability_enabled caps key = unwrap_or True (Option.bind (get_val caps key) as_bool)"

definition site_order_fulfillment_enabled :: "Value \<Rightarrow> bool" where
  "site_order_fulfillment_enabled caps =
     (case Option.bind (get_val caps ''order_fulfillment'') as_bool of
        Some b \<Rightarrow> b
      | None \<Rightarrow> site_capability_enabled caps ''commerce'')"

definition site_assistant_capabilities_merge :: "Value \<Rightarrow> i64 \<Rightarrow> Value" where
  "site_assistant_capabilities_merge caps bot_iid =
     (let m = unwrap_or [] (as_object caps)
      in Object (if 0 <s bot_iid then hm_insert ''assistant_bot_iid'' (json_i64 bot_iid) m else m))"

definition site_capabilities_get :: "access \<Rightarrow> i64 \<Rightarrow> Value" where
  "site_capabilities_get z site =
     (let (caps, bot_iid) =
            (case find (\<lambda>c. cf_site_iid c = site \<and> \<not> cf_deleted c) (z_config z) of
               Some r \<Rightarrow> (cf_capabilities r, unwrap_or 0 (cf_assistant_bot_iid r))
             | None \<Rightarrow> (Object [], 0))
      in site_assistant_capabilities_merge caps bot_iid)"

definition site_published :: "access \<Rightarrow> i64 \<Rightarrow> bool" where
  "site_published z site =
     list_ex (\<lambda>p. pb_site_iid p = site \<and> pb_is_active p \<and> \<not> pb_deleted p) (z_publish z)"

section \<open>Access\<close>

text \<open>The abstract rule: root and directors everywhere, the owner on its site, a grantee up to its
  role.\<close>

definition may_access :: "access \<Rightarrow> i64 \<Rightarrow> IdentityRow \<Rightarrow> bool \<Rightarrow> bool" where
  "may_access z caller row write \<longleftrightarrow>
     caller_root_or_director z caller \<or> id_owner_iid row = caller \<or>
     (\<exists>role. grant_role z (id_id row) caller = Some role \<and>
        role \<in> (if write then {''owner'', ''manage''} else {''owner'', ''manage'', ''staff'', ''guest''}))"

lemma role_allows_iff:
  "site_role_allows role write \<longleftrightarrow>
     role \<in> (if write then {''owner'', ''manage''} else {''owner'', ''manage'', ''staff'', ''guest''})"
  by (auto simp: site_role_allows_def site_role_rank_def)

lemma site_row_id: "site_row z site = Some row \<Longrightarrow> id_id row = site"
  by (auto simp: site_row_def find_Some_iff)

text \<open>Claim C25. Access to a site: \<open>site_grant_check\<close> answers with the site's owner exactly when the site
  exists and the caller is root, a director, the owner, or holds a live grant whose role is
  \<open>owner\<close> or \<open>manage\<close> for writing, or any of the four roles for reading. A missing, deleted or
  unknown role is refused.\<close>

theorem site_grant_check_spec:
  "site_grant_check z caller site write = Inr owner \<longleftrightarrow>
     (\<exists>row. site_row z site = Some row \<and> id_owner_iid row = owner \<and> may_access z caller row write)"
  by (auto simp: site_grant_check_def may_access_def role_allows_iff Let_def unwrap_or_def
      dest: site_row_id split: option.splits if_splits)

text \<open>Rights only grow: whoever may write to a site may read it, and the check answers with
  the same owner.\<close>

theorem site_write_implies_read:
  assumes "site_grant_check z caller site True = Inr owner"
  shows "site_grant_check z caller site False = Inr owner"
  using assms
  by (auto simp: site_grant_check_def site_role_allows_def site_role_rank_def Let_def
      split: option.splits if_splits)

text \<open>The personal ledger: a user may read and write transactions kept under its own id,
  but the operations that check \<open>site_grant_check\<close> directly (\<open>tx_get\<close>, \<open>tx_preview\<close>, \<open>tx_debt_pay\<close>)
  refuse the same caller, since that id is not a site.\<close>

theorem personal_ledger_access:
  assumes "tx_owner_resolve z caller caller write = Inr owner"
    and "distinct (map id_id (z_identity z))"
  shows "owner = caller \<and> site_grant_check z caller caller write' = Inl ''site not found''"
proof (intro conjI)
  have "find (\<lambda>i. id_id i = caller \<and> id_kind i = ''user'' \<and> \<not> id_deleted i) (z_identity z) \<noteq> None"
    using assms(1) by (auto simp: tx_owner_resolve_def split: if_splits)
  then obtain i where i: "i \<in> set (z_identity z)" "id_id i = caller" "id_kind i = ''user''"
    unfolding find_None_iff by blast
  show "owner = caller" using assms(1) by (simp add: tx_owner_resolve_def split: if_splits)
  have "j = i" if "j \<in> set (z_identity z)" "id_id j = caller" for j
    using that i assms(2) by (auto simp: distinct_map dest: inj_onD)
  then have "\<not> (\<exists>j. j \<in> set (z_identity z) \<and> id_id j = caller \<and> id_kind j = ''site'' \<and> \<not> id_deleted j)"
    using i(3) by force
  then have "site_row z caller = None" unfolding site_row_def find_None_iff .
  then show "site_grant_check z caller caller write' = Inl ''site not found''"
    by (simp add: site_grant_check_def)
qed

section \<open>Examples\<close>

definition test_access :: access where
  "test_access = \<lparr>
     z_identity = [
       \<lparr> id_id = 1, id_kind = ''site'', id_owner_iid = 50, id_alien_id = None, id_name = ''Shop'', id_meta = Object [], id_is_active = True, id_deleted = False \<rparr>,
       \<lparr> id_id = 50, id_kind = ''user'', id_owner_iid = 50, id_alien_id = None, id_name = ''Owner'', id_meta = Object [], id_is_active = True, id_deleted = False \<rparr>,
       \<lparr> id_id = 60, id_kind = ''user'', id_owner_iid = 60, id_alien_id = None, id_name = ''Helper'', id_meta = Object [], id_is_active = True, id_deleted = False \<rparr>],
     z_grant = [\<lparr> gr_resource_iid = 1, gr_grantee_iid = 60, gr_role = ''manage'', gr_deleted = False \<rparr>],
     z_publish = [\<lparr> pb_site_iid = 1, pb_version_id = ''v1'', pb_owner_iid = 50, pb_doc_json = Object [], pb_render_hash = ''h1'', pb_published_ts = 0,
       pb_is_active = True, pb_deleted = False \<rparr>],
     z_config = [] \<rparr>"

theorem site_write_implies_read_witness:
  "site_grant_check test_access 60 1 True = Inr 50 \<and> site_grant_check test_access 60 1 False = Inr 50"
proof -
  have w: "site_grant_check test_access 60 1 True = Inr 50" by code_simp
  show ?thesis using w site_write_implies_read [OF w] by blast
qed

theorem personal_ledger_access_witness:
  "tx_owner_resolve test_access 60 60 True = Inr 60 \<and> distinct (map id_id (z_identity test_access)) \<and>
   site_grant_check test_access 60 60 False = Inl ''site not found''"
proof -
  have w: "tx_owner_resolve test_access 60 60 True = Inr 60" "distinct (map id_id (z_identity test_access))"
    by code_simp+
  show ?thesis using w personal_ledger_access [OF w] by blast
qed

end
