(* ===== verification/Tx_Ops.thy ===== *)
theory Tx_Ops
  imports Tx_Load Stock_Apply Finalize Site_Access
begin

text \<open>
  The transaction handlers of \<open>servers/crates/mod_tx/src\<close>: \<open>tx_put\<close>, \<open>tx_delete\<close>, \<open>tx_get\<close>,
  \<open>tx_list\<close>, \<open>tx_preview\<close>, \<open>tx_debt_pay\<close> and the fulfillment gate. A handler takes the tables
  before the call and returns its answer, the tables after it and the transactions it pushes to
  the caller's other sessions. A database transaction that fails leaves the tables as they were.
  \<open>server\<close> holds what a call finds: its \<open>penv\<close>, the open iteration orders and the access tables.
  The counters of drawn ids and clock readings start at zero in every call.
\<close>

record server =
  v_env :: penv
  v_lo :: lorder
  v_coa :: coa_order
  v_products :: "i64 list \<Rightarrow> i64 list"
  v_access :: access

definition call_start :: "conn \<Rightarrow> conn" where
  "call_start s = s\<lparr> c_next := 0, c_tick := 0 \<rparr>"

section \<open>Saving\<close>

definition tx_coerce_sale_without_fulfillment :: "Tx \<Rightarrow> Tx" where
  "tx_coerce_sale_without_fulfillment tx =
     (if TxType_try_from (t_type tx) \<noteq> Some Ty_Sale then tx
      else if TxState_try_from (t_state tx) \<noteq> Some St_Pending then tx
      else tx\<lparr> t_state := TxState_i32 St_Ok,
               t_items := map (\<lambda>i. i\<lparr> i_fulfillment_state := TxItemFulfillmentState_i32 Ful_Done \<rparr>) (t_items tx) \<rparr>)"

definition tx_put_prepare :: "server \<Rightarrow> i64 \<Rightarrow> Tx \<Rightarrow> conn \<Rightarrow> Tx \<times> conn" where
  "tx_put_prepare v caller tx s =
     (let site = t_site_iid tx;
          has_existing = (0 <s t_tx_id tx \<and> tx_load (v_lo v) (v_env v) s site (t_tx_id tx) \<noteq> None);
          (tx, s) = (if t_tx_id tx = 0
                     then let (i, s) = snowflake_draw (v_env v) s in (tx\<lparr> t_tx_id := i \<rparr>, s)
                     else (tx, s));
          tx = tx\<lparr> t_site_iid := site \<rparr>;
          tx = (if \<not> has_existing \<and> t_created_by_iid tx = 0 then tx\<lparr> t_created_by_iid := caller \<rparr> else tx);
          tx = tx_finalize (p_clock (v_env v)) (v_coa v) tx;
          caps = site_capabilities_get (v_access v) site;
          tx = (if \<not> site_order_fulfillment_enabled caps then tx_coerce_sale_without_fulfillment tx else tx)
      in (tx, s))"

definition tx_put_commit :: "server \<Rightarrow> i64 \<Rightarrow> TxStock list \<Rightarrow> Tx \<Rightarrow> conn \<Rightarrow> string + Tx \<times> conn" where
  "tx_put_commit v owner old_stocks tx s =
     (let e = v_env v;
          site = t_site_iid tx;
          (generated_count, manual_count) = tx_acc_counts tx
      in bindE (tx_children_del site (t_tx_id tx) s) (\<lambda>s.
         bindE (tx_header_put e owner tx generated_count manual_count s) (\<lambda>s.
         bindE (tx_children_put e tx s) (\<lambda>(tx, s).
         if unwrap_or St_Ok (TxState_try_from (t_state tx)) = St_Ok
         then bindE (product_stock_apply (v_products v) e site old_stocks (t_stocks tx) s) (\<lambda>s. Inr (tx, s))
         else Inr (tx, s)))))"

definition tx_put ::
  "server \<Rightarrow> i64 \<Rightarrow> Tx option \<Rightarrow> bool \<Rightarrow> conn \<Rightarrow> (string + Tx option) \<times> conn \<times> Tx list" where
  "tx_put v caller req out s =
     (case req of
        None \<Rightarrow> (Inl ''tx required'', s, [])
      | Some tx \<Rightarrow>
          if \<not> 0 <s t_site_iid tx then (Inl ''site_iid required'', s, [])
          else (case tx_owner_resolve (v_access v) caller (t_site_iid tx) True of
              Inl err \<Rightarrow> (Inl err, s, [])
            | Inr owner \<Rightarrow>
                (let site = t_site_iid tx;
                     old_stocks = (if 0 <s t_tx_id tx then tx_stocks_load (v_lo v) (v_env v) s site (t_tx_id tx) else []);
                     (tx, s1) = tx_put_prepare v caller tx (call_start s)
                 in case tx_put_commit v owner old_stocks tx s1 of
                      Inl err \<Rightarrow> (Inl err, s, [])
                    | Inr (tx, s') \<Rightarrow>
                        (let saved = tx_load (v_lo v) (v_env v) s' site (t_tx_id tx)
                         in (Inr saved, s', if out then (case saved of None \<Rightarrow> [] | Some t \<Rightarrow> [t]) else [])))))"

section \<open>Deleting\<close>

definition soft_delete :: "penv \<Rightarrow> i64 \<Rightarrow> i64 \<Rightarrow> 'a row list \<Rightarrow> 'a row list" where
  "soft_delete e site tx t =
     map (\<lambda>r. if live_of_tx site tx r then r\<lparr> w_deleted := Some (p_now e), w_updated := p_now e \<rparr> else r) t"

definition tx_delete :: "server \<Rightarrow> i64 \<Rightarrow> i64 \<Rightarrow> i64 \<Rightarrow> conn \<Rightarrow> (string + bool) \<times> conn" where
  "tx_delete v caller site tx_id s =
     (case tx_owner_resolve (v_access v) caller site True of
        Inl err \<Rightarrow> (Inl err, s)
      | Inr owner \<Rightarrow>
          if tx_id \<le>s 0 then (Inl ''tx_id required'', s)
          else let mine = (\<lambda>r. live_of_tx site tx_id r \<and> h_owner_iid (w_cols r) = owner);
                   e = v_env v
               in if \<not> list_ex mine (q_tx s) then (Inr False, s)
                  else (Inr True, s\<lparr>
                    q_tx := map (\<lambda>r. if mine r then r\<lparr> w_deleted := Some (p_now e), w_updated := p_now e \<rparr> else r) (q_tx s),
                    q_item := soft_delete e site tx_id (q_item s),
                    q_payment := soft_delete e site tx_id (q_payment s),
                    q_acc := soft_delete e site tx_id (q_acc s),
                    q_stock := soft_delete e site tx_id (q_stock s),
                    q_tax := soft_delete e site tx_id (q_tax s),
                    q_discount := soft_delete e site tx_id (q_discount s) \<rparr>))"

section \<open>Reading\<close>

definition tx_get :: "server \<Rightarrow> i64 \<Rightarrow> i64 \<Rightarrow> i64 \<Rightarrow> conn \<Rightarrow> string + Tx option" where
  "tx_get v caller site tx_id s =
     (case site_grant_check (v_access v) caller site False of
        Inl err \<Rightarrow> Inl err
      | Inr _ \<Rightarrow> Inr (tx_load (v_lo v) (v_env v) s site tx_id))"

record ReqTxList =
  rl_site_iid :: i64
  rl_q :: string
  rl_after_tx_id :: i64
  rl_limit :: i32
  rl_include_archived :: bool
  rl_type :: i32
  rl_state :: i32
  rl_subject_contact_id :: i64
  rl_time_from_ms :: i64
  rl_time_to_ms :: i64
  rl_open_only :: bool

definition tx_list_limit :: "ReqTxList \<Rightarrow> i32" where
  "tx_list_limit req = (if 0 <s rl_limit req then smin (rl_limit req) 200 else 50)"

text \<open>The \<open>WHERE\<close> clause. \<open>ilike\<close> is PostgreSQL's \<open>ILIKE\<close> (text, pattern).\<close>

definition tx_list_where :: "(string \<Rightarrow> string \<Rightarrow> bool) \<Rightarrow> penv \<Rightarrow> ReqTxList \<Rightarrow> TxCols row \<Rightarrow> bool" where
  "tx_list_where ilike e req r =
     (let c = w_cols r; ty = unwrap_or Ty_Unspecified (TxType_try_from (rl_type req))
      in w_site r = rl_site_iid req \<and> w_deleted r = None \<and>
         (rl_include_archived req \<or> \<not> h_is_archived c) \<and>
         (ty = Ty_Unspecified \<or> h_ty c = tx_type_str ty) \<and>
         (\<not> 0 <s rl_state req \<or> h_state c = tx_state_str (unwrap_or St_Ok (TxState_try_from (rl_state req)))) \<and>
         (\<not> 0 <s rl_subject_contact_id req \<or> h_subject_contact_id c = rl_subject_contact_id req) \<and>
         (\<not> 0 <s rl_time_from_ms req \<or>
            (case ts_from_ms (p_clock e) (rl_time_from_ms req) of Some t \<Rightarrow> t | None \<Rightarrow> p_utc e 0) \<le> h_time_ts c) \<and>
         (\<not> 0 <s rl_time_to_ms req \<or>
            h_time_ts c \<le> (case ts_from_ms (p_clock e) (rl_time_to_ms req) of Some t \<Rightarrow> t | None \<Rightarrow> p_utc e 1)) \<and>
         (\<not> rl_open_only req \<or> h_ty c = ''sale'' \<and> h_state c \<in> {''ok'', ''pending'', ''waiting_payment''}) \<and>
         (rl_q req = [] \<or> ilike (h_desc c) (''%'' @ rl_q req @ ''%'')) \<and>
         (\<not> 0 <s rl_after_tx_id req \<or> rl_after_tx_id req <s w_tx r))"

definition tx_list :: "(string \<Rightarrow> string \<Rightarrow> bool) \<Rightarrow> server \<Rightarrow> i64 \<Rightarrow> ReqTxList \<Rightarrow> conn \<Rightarrow> string + Tx list" where
  "tx_list ilike v caller req s =
     (case tx_owner_resolve (v_access v) caller (rl_site_iid req) False of
        Inl err \<Rightarrow> Inl err
      | Inr _ \<Rightarrow> Inr (map (tx_header_from_row (p_clock (v_env v)))
          (take (unat (tx_list_limit req))
            (sort_key (\<lambda>r. sint (w_tx r)) (filter (tx_list_where ilike (v_env v) req) (q_tx s))))))"

definition tx_preview :: "server \<Rightarrow> i64 \<Rightarrow> Tx option \<Rightarrow> string + Tx \<times> (string \<times> string) list" where
  "tx_preview v caller req =
     (case req of
        None \<Rightarrow> Inl ''tx required''
      | Some tx \<Rightarrow>
          if \<not> 0 <s t_site_iid tx then Inl ''site_iid required''
          else (case site_grant_check (v_access v) caller (t_site_iid tx) False of
              Inl err \<Rightarrow> Inl err
            | Inr _ \<Rightarrow>
                (let tx = (if unwrap_or St_Ok (TxState_try_from (t_state tx)) = St_Draft
                           then tx\<lparr> t_state := TxState_i32 St_Ok \<rparr> else tx);
                     tx = tx_finalize (p_clock (v_env v)) (v_coa v) tx
                 in Inr (tx, tx_preview_coa_names (t_accs tx)))))"

section \<open>Paying a debt\<close>

text \<open>The loop over the installments of one payment, and over the payments: the result says whether
  the payment was applied.\<close>

fun pay_installments :: "penv \<Rightarrow> TxDebtPayment \<Rightarrow> TxInstallment list \<Rightarrow> conn \<Rightarrow> string + bool \<times> TxInstallment list \<times> conn" where
  "pay_installments e payment [] s = Inr (False, [], s)"
| "pay_installments e payment (inst # insts) s =
     (let paid = inst_paid inst; remaining = n_amount inst - paid
      in if remaining \<le>s 0 then
           bindE (pay_installments e payment insts s) (\<lambda>(b, insts, s). Inr (b, inst # insts, s))
         else if 0 <s d_amount payment then
           (let pay = smin (d_amount payment) remaining;
                dp = payment\<lparr> d_amount := pay \<rparr>;
                (dp, s) = (if d_pay_id dp = 0
                           then let (i, s) = snowflake_draw e s in (dp\<lparr> d_pay_id := i \<rparr>, s)
                           else (dp, s))
            in Inr (True, inst\<lparr> n_debt_payments := n_debt_payments inst @ [dp] \<rparr> # insts, s))
         else Inl ''amount required'')"

fun pay_payments :: "penv \<Rightarrow> TxDebtPayment \<Rightarrow> TxPayment list \<Rightarrow> conn \<Rightarrow> string + bool \<times> TxPayment list \<times> conn" where
  "pay_payments e payment [] s = Inr (False, [], s)"
| "pay_payments e payment (p # ps) s =
     (if tx_payment_method (p_method p) \<noteq> Pm_Debt then
        bindE (pay_payments e payment ps s) (\<lambda>(b, ps, s). Inr (b, p # ps, s))
      else
        bindE (pay_installments e payment (p_installments p) s) (\<lambda>(b, insts, s).
          if b then Inr (True, p\<lparr> p_installments := insts \<rparr> # ps, s)
          else bindE (pay_payments e payment ps s) (\<lambda>(b, ps, s). Inr (b, p\<lparr> p_installments := insts \<rparr> # ps, s))))"

definition apply_debt_payment :: "penv \<Rightarrow> Tx \<Rightarrow> TxDebtPayment \<Rightarrow> conn \<Rightarrow> string + bool \<times> Tx \<times> conn" where
  "apply_debt_payment e tx payment s =
     bindE (pay_payments e payment (t_payments tx) s) (\<lambda>(b, ps, s). Inr (b, tx\<lparr> t_payments := ps \<rparr>, s))"

definition tx_debt_pay ::
  "server \<Rightarrow> server \<Rightarrow> i64 \<Rightarrow> i64 \<Rightarrow> i64 \<Rightarrow> TxDebtPayment option \<Rightarrow> bool \<Rightarrow> conn \<Rightarrow>
   (string + Tx option) \<times> conn \<times> Tx list" where
  "tx_debt_pay v v_put caller site tx_id req out s =
     (case req of
        None \<Rightarrow> (Inl ''payment required'', s, [])
      | Some payment \<Rightarrow>
          (case site_grant_check (v_access v) caller site True of
             Inl err \<Rightarrow> (Inl err, s, [])
           | Inr _ \<Rightarrow>
              (case tx_require (v_lo v) (v_env v) s site tx_id of
                 Inl err \<Rightarrow> (Inl err, s, [])
               | Inr tx \<Rightarrow>
                  (let s0 = call_start s;
                       (payment, s0) = (if d_ts_ms payment = 0
                          then let (now, s0) = utc_now (v_env v) s0
                               in (payment\<lparr> d_ts_ms := timestamp_millis (p_clock (v_env v)) now \<rparr>, s0)
                          else (payment, s0))
                   in case apply_debt_payment (v_env v) tx payment s0 of
                        Inl err \<Rightarrow> (Inl err, s, [])
                      | Inr (applied, tx, _) \<Rightarrow>
                          if \<not> applied then (Inl ''no open debt installment'', s, [])
                          else tx_put v_put caller (Some tx) out s))))"

end
