(* ===== verification/Tx_Lines.thy ===== *)
theory Tx_Lines
  imports Tx_Load
begin

text \<open>
  The nested lines of a saved transaction (\<open>persist.rs\<close>) and what a load (\<open>load.rs\<close>) makes of
  them: items with their sources and reservations, payments with their installments and the
  payments of those. A load may list them in any order (\<open>lorder\<close>), so the relation between what
  is saved and what is found is one between multisets, at every level.
\<close>

section \<open>What is stored of a line\<close>

text \<open>An id that was given is kept, a missing one is drawn; a time that \<open>chrono\<close> reads is kept, for
  any other one the time of the save is stored. \<open>e\<close> is what the save found around it, \<open>e'\<close> what
  the reader finds.\<close>

definition id_stored :: "penv \<Rightarrow> bool \<Rightarrow> i64 \<Rightarrow> i64 \<Rightarrow> bool" where
  "id_stored e given i j \<longleftrightarrow> (if given then j = i else \<exists>n. j = p_ids e n)"

definition time_stored :: "penv \<Rightarrow> penv \<Rightarrow> i64 \<Rightarrow> i64 \<Rightarrow> bool" where
  "time_stored e e' ms ms' \<longleftrightarrow> (case ts_from_ms (p_clock e) ms of
     Some t \<Rightarrow> ms' = timestamp_millis (p_clock e') t
   | None \<Rightarrow> \<exists>n. ms' = timestamp_millis (p_clock e') (p_utc e n))"

definition due_stored :: "penv \<Rightarrow> penv \<Rightarrow> i64 \<Rightarrow> i64" where
  "due_stored e e' ms = ts_ms (p_clock e') (ts_from_ms (p_clock e) ms)"

definition json_stored :: "penv \<Rightarrow> penv \<Rightarrow> string \<Rightarrow> string" where
  "json_stored e e' s = p_to_string e' (payment_json_value e s)"

definition source_saved :: "penv \<Rightarrow> TxItemSource \<Rightarrow> TxItemSource \<Rightarrow> bool" where
  "source_saved e x y \<longleftrightarrow> id_stored e (0 <s s_src_id x) (s_src_id x) (s_src_id y) \<and> y = x\<lparr> s_src_id := s_src_id y \<rparr>"

definition reservation_saved :: "penv \<Rightarrow> penv \<Rightarrow> TxItemReservation \<Rightarrow> TxItemReservation \<Rightarrow> bool" where
  "reservation_saved e e' x y \<longleftrightarrow> id_stored e (0 <s r_res_id x) (r_res_id x) (r_res_id y) \<and>
     y = x\<lparr> r_res_id := r_res_id y, r_start_ts_ms := due_stored e e' (r_start_ts_ms x),
            r_end_ts_ms := due_stored e e' (r_end_ts_ms x) \<rparr>"

definition item_head :: "penv \<Rightarrow> i64 \<Rightarrow> i64 \<Rightarrow> TxItem \<Rightarrow> TxItem \<Rightarrow> bool" where
  "item_head e site i x y \<longleftrightarrow> id_stored e (i_item_id x \<noteq> 0) (i_item_id x) (i_item_id y) \<and>
     y = x\<lparr> i_site_iid := site, i_tx_id := i, i_item_id := i_item_id y,
            i_owner_iid := (if 0 <s i_owner_iid x then i_owner_iid x else site),
            i_fulfillment_state := TxItemFulfillmentState_i32
              (unwrap_or Ful_Unspecified (TxItemFulfillmentState_try_from (i_fulfillment_state x))),
            i_reservations := i_reservations y, i_sources := i_sources y \<rparr>"

definition item_saved :: "penv \<Rightarrow> penv \<Rightarrow> i64 \<Rightarrow> i64 \<Rightarrow> TxItem \<Rightarrow> TxItem \<Rightarrow> bool" where
  "item_saved e e' site i x y \<longleftrightarrow> item_head e site i x y \<and>
     rel_mset (source_saved e) (mset (i_sources x)) (mset (i_sources y)) \<and>
     rel_mset (reservation_saved e e') (mset (i_reservations x)) (mset (i_reservations y))"

definition debt_payment_saved :: "penv \<Rightarrow> penv \<Rightarrow> TxDebtPayment \<Rightarrow> TxDebtPayment \<Rightarrow> bool" where
  "debt_payment_saved e e' x y \<longleftrightarrow> id_stored e (0 <s d_pay_id x) (d_pay_id x) (d_pay_id y) \<and>
     time_stored e e' (d_ts_ms x) (d_ts_ms y) \<and>
     y = x\<lparr> d_pay_id := d_pay_id y, d_ts_ms := d_ts_ms y,
            d_method := TxDebtPaymentMethod_i32 (stored_debt_method
              (unwrap_or Dpm_Unspecified (TxDebtPaymentMethod_try_from (d_method x)))),
            d_payment_json := json_stored e e' (d_payment_json x) \<rparr>"

definition installment_head :: "penv \<Rightarrow> penv \<Rightarrow> TxInstallment \<Rightarrow> TxInstallment \<Rightarrow> bool" where
  "installment_head e e' x y \<longleftrightarrow> id_stored e (0 <s n_inst_id x) (n_inst_id x) (n_inst_id y) \<and>
     y = x\<lparr> n_inst_id := n_inst_id y, n_due_ts_ms := due_stored e e' (n_due_ts_ms x),
            n_debt_payments := n_debt_payments y \<rparr>"

definition installment_saved :: "penv \<Rightarrow> penv \<Rightarrow> TxInstallment \<Rightarrow> TxInstallment \<Rightarrow> bool" where
  "installment_saved e e' x y \<longleftrightarrow> installment_head e e' x y \<and>
     rel_mset (debt_payment_saved e e') (mset (n_debt_payments x)) (mset (n_debt_payments y))"

definition payment_head :: "penv \<Rightarrow> penv \<Rightarrow> TxPayment \<Rightarrow> TxPayment \<Rightarrow> bool" where
  "payment_head e e' x y \<longleftrightarrow> id_stored e (0 <s p_payment_id x) (p_payment_id x) (p_payment_id y) \<and>
     time_stored e e' (p_ts_ms x) (p_ts_ms y) \<and>
     y = x\<lparr> p_payment_id := p_payment_id y, p_ts_ms := p_ts_ms y,
            p_method := TxPaymentMethod_i32 (stored_method (tx_payment_method (p_method x))),
            p_payment_json := json_stored e e' (p_payment_json x), p_installments := p_installments y \<rparr>"

definition payment_saved :: "penv \<Rightarrow> penv \<Rightarrow> TxPayment \<Rightarrow> TxPayment \<Rightarrow> bool" where
  "payment_saved e e' x y \<longleftrightarrow> payment_head e e' x y \<and>
     rel_mset (installment_saved e e') (mset (p_installments x)) (mset (p_installments y))"

definition lines_saved :: "penv \<Rightarrow> penv \<Rightarrow> Tx \<Rightarrow> Tx \<Rightarrow> bool" where
  "lines_saved e e' tx l \<longleftrightarrow>
     rel_mset (item_saved e e' (t_site_iid tx) (t_tx_id tx)) (mset (t_items tx)) (mset (t_items l)) \<and>
     rel_mset (payment_saved e e') (mset (t_payments tx)) (mset (t_payments l))"

text \<open>The orders of a load are permutations.\<close>

definition lorder_ok :: "lorder \<Rightarrow> bool" where
  "lorder_ok lo \<longleftrightarrow> permuting (lo_items lo) \<and> permuting (lo_payments lo) \<and> permuting (lo_insts lo) \<and>
     permuting (lo_source_scan lo) \<and> permuting (lo_res_scan lo) \<and> permuting (lo_inst_scan lo) \<and>
     permuting (lo_dpay_scan lo)"

section \<open>Multisets of lines\<close>

lemma rel_mset_lists: "list_all2 R xs ys \<Longrightarrow> mset ys = Y \<Longrightarrow> rel_mset R (mset xs) Y"
  by (auto simp: rel_mset_def)

lemma rel_mset_sum:
  assumes "rel_mset R (mset xs) (mset ys)" and "\<And>x y. R x y \<Longrightarrow> f x = g y"
  shows "(\<Sum>x\<leftarrow>xs. f x) = (\<Sum>y\<leftarrow>ys. g y :: 'a :: comm_monoid_add)"
proof -
  obtain us vs where m: "mset us = mset xs" "mset vs = mset ys" and r: "list_all2 R us vs"
    using assms(1) by (auto simp: rel_mset_def)
  have "map f us = map g vs" using r assms(2) by (induction rule: list_all2_induct) auto
  then have "sum_list (map f us) = sum_list (map g vs)" by simp
  moreover have "sum_list (map f us) = sum_list (map f xs)" "sum_list (map g vs) = sum_list (map g ys)"
    using m by (metis mset_map sum_mset_sum_list)+
  ultimately show ?thesis by simp
qed

lemma rel_mset_length: "rel_mset R (mset xs) (mset ys) \<Longrightarrow> length xs = length ys"
  unfolding rel_mset_def by (metis list_all2_lengthD size_mset)

lemma rel_mset_nil: "rel_mset R (mset xs) (mset ys) \<Longrightarrow> xs = [] \<longleftrightarrow> ys = []"
  using rel_mset_length by (metis length_0_conv)

lemma rel_mset_ball:
  assumes "rel_mset R (mset xs) (mset ys)" and "\<And>x y. R x y \<Longrightarrow> P x \<Longrightarrow> Q y" and "\<forall>x \<in> set xs. P x"
  shows "\<forall>y \<in> set ys. Q y"
proof -
  obtain us vs where m: "mset us = mset xs" "mset vs = mset ys" and r: "list_all2 R us vs"
    using assms(1) by (auto simp: rel_mset_def)
  have "\<forall>x \<in> set us. P x" using assms(3) m(1) by (metis set_mset_mset)
  then have "\<forall>y \<in> set vs. Q y" using r assms(2) by (metis in_set_conv_nth list_all2_conv_all_nth)
  then show ?thesis using m(2) by (metis set_mset_mset)
qed

text \<open>Sums over the lines that satisfy a test.\<close>

lemma sum_list_filter: "(\<Sum>x\<leftarrow>filter P xs. f x) = (\<Sum>x\<leftarrow>xs. if P x then f x else (0 :: 'a :: comm_monoid_add))"
  by (induction xs) auto

section \<open>Writing lines\<close>

text \<open>Every step of a loop adds a group of rows to up to three tables.\<close>

lemma forE_grows:
  assumes "forE f xs s = Inr s'" and "I s"
    and "\<And>x s s'. I s \<Longrightarrow> f x s = Inr s' \<Longrightarrow> I s' \<and> (\<exists>g. P x g \<and> A s' = A s @ a g \<and> B s' = B s @ b g \<and> C s' = C s @ c g)"
  shows "I s' \<and> (\<exists>gs. list_all2 P xs gs \<and> A s' = A s @ concat (map a gs) \<and> B s' = B s @ concat (map b gs) \<and>
    C s' = C s @ concat (map c gs))"
  using assms(1,2)
proof (induction xs arbitrary: s)
  case (Cons x xs)
  then obtain s1 where 1: "f x s = Inr s1" "forE f xs s1 = Inr s'" by (auto simp: bindE_Inr)
  from assms(3) [OF Cons.prems(2) 1(1)] obtain g where
    g: "I s1" "P x g" "A s1 = A s @ a g" "B s1 = B s @ b g" "C s1 = C s @ c g" by blast
  from Cons.IH [OF 1(2) g(1)] obtain gs where gs: "I s'" "list_all2 P xs gs" "A s' = A s1 @ concat (map a gs)"
    "B s' = B s1 @ concat (map b gs)" "C s' = C s1 @ concat (map c gs)" by blast
  show ?case by (intro conjI gs(1) exI [of _ "g # gs"]) (simp_all add: g gs)
qed simp

lemma mapE_grows:
  assumes "mapE f xs s = Inr (ys, s')" and "I s"
    and "\<And>x s y s'. I s \<Longrightarrow> f x s = Inr (y, s') \<Longrightarrow> I s' \<and> (\<exists>g. P x g \<and> A s' = A s @ a g \<and> B s' = B s @ b g \<and> C s' = C s @ c g)"
  shows "I s' \<and> (\<exists>gs. list_all2 P xs gs \<and> A s' = A s @ concat (map a gs) \<and> B s' = B s @ concat (map b gs) \<and>
    C s' = C s @ concat (map c gs))"
  using assms(1,2)
proof (induction xs arbitrary: s ys)
  case (Cons x xs)
  then obtain s1 y zs where 1: "f x s = Inr (y, s1)" "mapE f xs s1 = Inr (zs, s')" by (auto simp: bindE_Inr)
  from assms(3) [OF Cons.prems(2) 1(1)] obtain g where
    g: "I s1" "P x g" "A s1 = A s @ a g" "B s1 = B s @ b g" "C s1 = C s @ c g" by blast
  from Cons.IH [OF 1(2) g(1)] obtain gs where gs: "I s'" "list_all2 P xs gs" "A s' = A s1 @ concat (map a gs)"
    "B s' = B s1 @ concat (map b gs)" "C s' = C s1 @ concat (map c gs)" by blast
  show ?case by (intro conjI gs(1) exI [of _ "g # gs"]) (simp_all add: g gs)
qed simp

lemma concat_map_nil [simp]: "concat (map (\<lambda>_. []) xs) = []"
  by (induction xs) simp_all

text \<open>The primary key of the rows of one transaction.\<close>

definition line_pk :: "('a \<Rightarrow> 'k) \<Rightarrow> i64 \<Rightarrow> i64 \<Rightarrow> 'a row list \<Rightarrow> bool" where
  "line_pk key site i t \<longleftrightarrow> distinct (map (\<lambda>r. key (w_cols r)) (filter (of_tx site i) t))"

lemma line_pk_deleted: "line_pk key site i (delete_rows site i t)"
  by (simp add: line_pk_def delete_rows_def)

lemma line_pk_insert:
  "insert_row key ok (new_row e site i c) t = Inr t' \<Longrightarrow> line_pk key site i t \<Longrightarrow> line_pk key site i t'"
  by (auto simp: insert_row_Inr line_pk_def new_row_def of_tx_def)

lemma line_pk_appended:
  assumes "line_pk key site i (delete_rows site i t @ rs)" and "\<forall>r \<in> set rs. live_of_tx site i r"
  shows "distinct (map (\<lambda>r. key (w_cols r)) rs)"
proof -
  have "filter (of_tx site i) rs = rs" using assms(2) by (auto simp: filter_id_conv live_of_tx_def)
  then show ?thesis using assms(1) by (simp add: line_pk_def delete_rows_def)
qed

lemma id_or_draw_stored [simp]: "id_stored e (0 <s i) i (fst (id_or_draw e i s))"
  by (auto simp: id_stored_def id_or_draw_def snowflake_draw_def)

lemma ts_or_now_stored [simp]: "time_stored e e' ms (timestamp_millis (p_clock e') (fst (ts_or_now e ms s)))"
  by (auto simp: time_stored_def ts_or_now_def utc_now_def split: option.splits)

lemma new_row_sel [simp]: "w_cols (new_row e site i c) = c" "w_site (new_row e site i c) = site"
  "w_tx (new_row e site i c) = i" "live_of_tx site i (new_row e site i c)"
  by (simp_all add: new_row_def live_of_tx_def of_tx_def)

subsection \<open>Items\<close>

definition source_row :: "penv \<Rightarrow> i64 \<Rightarrow> i64 \<Rightarrow> i64 \<Rightarrow> TxItemSource \<Rightarrow> SourceCols row \<Rightarrow> bool" where
  "source_row e site i j x r \<longleftrightarrow> live_of_tx site i r \<and> cs_item_id (w_cols r) = j \<and>
     source_saved e x (tx_item_source_from_row r)"

definition reservation_row :: "penv \<Rightarrow> i64 \<Rightarrow> i64 \<Rightarrow> i64 \<Rightarrow> TxItemReservation \<Rightarrow> ReservationCols row \<Rightarrow> bool" where
  "reservation_row e site i j x r \<longleftrightarrow> live_of_tx site i r \<and> cr_item_id (w_cols r) = j \<and>
     (\<forall>e'. reservation_saved e e' x (tx_item_reservation_from_row (p_clock e') r))"

definition item_rows :: "penv \<Rightarrow> i64 \<Rightarrow> i64 \<Rightarrow> TxItem \<Rightarrow> ItemCols row \<times> SourceCols row list \<times> ReservationCols row list \<Rightarrow> bool" where
  "item_rows e site i x g \<longleftrightarrow> (case g of (r, ss, rs) \<Rightarrow>
     r = new_row e site i (item_cols site x) \<and> list_all2 (source_row e site i (i_item_id x)) (i_sources x) ss \<and>
     list_all2 (reservation_row e site i (i_item_id x)) (i_reservations x) rs)"

lemma source_put_row:
  assumes "source_put e site i j x s = Inr s'"
  shows "\<exists>r. source_row e site i j x r \<and> q_source s' = q_source s @ [r] \<and> q_item s' = q_item s \<and>
    q_reservation s' = q_reservation s"
  using assms
  by (auto simp: source_put_def Let_def split_beta bindE_Inr insert_row_Inr source_row_def source_saved_def
      tx_item_source_from_row_def)

lemma reservation_put_row:
  assumes "reservation_put e site i j x s = Inr s'"
  shows "\<exists>r. reservation_row e site i j x r \<and> q_reservation s' = q_reservation s @ [r] \<and> q_item s' = q_item s \<and>
    q_source s' = q_source s"
  using assms
  by (auto simp: reservation_put_def Let_def split_beta bindE_Inr insert_row_Inr reservation_row_def
      reservation_saved_def tx_item_reservation_from_row_def due_stored_def)

lemma mark_used_rows: "(if 0 <s p then site_product_mark_used e site p s else Inr s) = Inr s' \<Longrightarrow>
    q_item s' = q_item s \<and> q_source s' = q_source s \<and> q_reservation s' = q_reservation s"
  by (auto simp: site_product_mark_used_def split: if_splits)

lemma item_put_rows:
  assumes "item_put e site i x s = Inr s'" and "line_pk ci_item_id site i (q_item s)"
  shows "line_pk ci_item_id site i (q_item s') \<and> (\<exists>g. item_rows e site i x g \<and> q_item s' = q_item s @ [fst g] \<and>
    q_source s' = q_source s @ fst (snd g) \<and> q_reservation s' = q_reservation s @ snd (snd g))"
proof -
  let ?r = "new_row e site i (item_cols site x)"
  from assms(1) obtain t s1 s2 where
    ins: "insert_row ci_item_id (\<lambda>c. p_identity e (ci_owner_iid c)) ?r (q_item s) = Inr t"
    and mk: "(if 0 <s i_product_id x then site_product_mark_used e site (i_product_id x) (s\<lparr>q_item := t\<rparr>)
        else Inr (s\<lparr>q_item := t\<rparr>)) = Inr s1"
    and src: "forE (source_put e site i (i_item_id x)) (i_sources x) s1 = Inr s2"
    and res: "forE (reservation_put e site i (i_item_id x)) (i_reservations x) s2 = Inr s'"
    by (auto simp: item_put_def bindE_Inr)
  have t: "t = q_item s @ [?r]" using ins by (simp add: insert_row_Inr)
  note m = mark_used_rows [OF mk]
  obtain ss where ss: "list_all2 (source_row e site i (i_item_id x)) (i_sources x) ss"
    "q_source s2 = q_source s1 @ ss" "q_item s2 = q_item s1" "q_reservation s2 = q_reservation s1"
    using forE_grows [OF src, where I = "\<lambda>_. True" and A = q_source and a = "\<lambda>r. [r]" and B = q_item and b = "\<lambda>_. []"
        and C = q_reservation and c = "\<lambda>_. []" and P = "source_row e site i (i_item_id x)"] source_put_row
    by (auto simp: concat_map_singleton)
  obtain rs where rs: "list_all2 (reservation_row e site i (i_item_id x)) (i_reservations x) rs"
    "q_reservation s' = q_reservation s2 @ rs" "q_item s' = q_item s2" "q_source s' = q_source s2"
    using forE_grows [OF res, where I = "\<lambda>_. True" and A = q_reservation and a = "\<lambda>r. [r]" and B = q_item and b = "\<lambda>_. []"
        and C = q_source and c = "\<lambda>_. []" and P = "reservation_row e site i (i_item_id x)"] reservation_put_row
    by (auto simp: concat_map_singleton)
  have "line_pk ci_item_id site i t" by (rule line_pk_insert [OF ins assms(2)])
  then show ?thesis using m t ss rs
    by (intro conjI exI [of _ "(?r, ss, rs)"]) (simp_all add: item_rows_def)
qed

definition item_numbered :: "penv \<Rightarrow> TxItem \<Rightarrow> TxItem \<Rightarrow> bool" where
  "item_numbered e x y \<longleftrightarrow> id_stored e (i_item_id x \<noteq> 0) (i_item_id x) (i_item_id y) \<and> y = x\<lparr>i_item_id := i_item_id y\<rparr>"

lemma ensure_ids_numbered:
  assumes "tx_items_ensure_ids e xs s = Inr (ys, s')"
  shows "list_all2 (item_numbered e) xs ys"
  using assms unfolding tx_items_ensure_ids_def
proof (induction xs arbitrary: s ys)
  case (Cons x xs)
  from Cons.prems obtain y s1 zs where 1: "(if i_item_id x = 0
      then let (i, s) = snowflake_draw e s in Inr (x\<lparr>i_item_id := i\<rparr>, s) else Inr (x, s)) = (Inr (y, s1) :: string + _)"
    and 2: "ys = y # zs" and 3: "list_all2 (item_numbered e) xs zs"
    using Cons.IH by (auto simp: bindE_Inr)
  from 1 have "item_numbered e x y"
    by (auto simp: item_numbered_def id_stored_def snowflake_draw_def split: if_splits)
  with 2 3 show ?case by simp
qed simp

subsection \<open>Payments\<close>

type_synonym inst_group = "InstallmentCols row \<times> DebtPaymentCols row list"

definition debt_payment_row :: "penv \<Rightarrow> i64 \<Rightarrow> i64 \<Rightarrow> i64 \<Rightarrow> i64 \<Rightarrow> TxDebtPayment \<Rightarrow> DebtPaymentCols row \<Rightarrow> bool" where
  "debt_payment_row e site i p j x r \<longleftrightarrow> live_of_tx site i r \<and> cd_payment_id (w_cols r) = p \<and> cd_inst_id (w_cols r) = j \<and>
     (\<forall>e'. debt_payment_saved e e' x (tx_debt_payment_from_row e' r))"

definition installment_rows :: "penv \<Rightarrow> i64 \<Rightarrow> i64 \<Rightarrow> i64 \<Rightarrow> TxInstallment \<Rightarrow> inst_group \<Rightarrow> bool" where
  "installment_rows e site i p x g \<longleftrightarrow> (case g of (r, ds) \<Rightarrow>
     live_of_tx site i r \<and> cn_payment_id (w_cols r) = p \<and>
     (\<forall>e'. installment_head e e' x (tx_installment_from_row (p_clock e') r)) \<and>
     list_all2 (debt_payment_row e site i p (cn_inst_id (w_cols r))) (n_debt_payments x) ds)"

definition payment_rows :: "penv \<Rightarrow> i64 \<Rightarrow> i64 \<Rightarrow> TxPayment \<Rightarrow> PaymentCols row \<times> inst_group list \<Rightarrow> bool" where
  "payment_rows e site i x g \<longleftrightarrow> (case g of (r, gs) \<Rightarrow>
     live_of_tx site i r \<and> (\<forall>e'. payment_head e e' x (tx_payment_from_row e' r)) \<and>
     list_all2 (installment_rows e site i (cp_payment_id (w_cols r))) (p_installments x) gs)"

lemma debt_payment_put_row:
  assumes "debt_payment_put e site i p j x s = Inr (y, s')"
  shows "\<exists>r. debt_payment_row e site i p j x r \<and> q_debt_payment s' = q_debt_payment s @ [r] \<and>
    q_installment s' = q_installment s \<and> q_payment s' = q_payment s"
  using assms
  by (auto simp: debt_payment_put_def Let_def split_beta bindE_Inr insert_row_Inr debt_payment_row_def
      debt_payment_saved_def tx_debt_payment_from_row_def json_stored_def ts_ms_def)

abbreviation "inst_pk site i s \<equiv> line_pk (\<lambda>c. (cn_payment_id c, cn_inst_id c)) site i (q_installment s)"

lemma installment_put_rows:
  assumes "installment_put e site i p x s = Inr (y, s')" and "inst_pk site i s"
  shows "inst_pk site i s' \<and> (\<exists>g. installment_rows e site i p x g \<and> q_installment s' = q_installment s @ [fst g] \<and>
    q_debt_payment s' = q_debt_payment s @ snd g \<and> q_payment s' = q_payment s)"
proof -
  from assms(1) obtain j s0 t dps c where
    ins: "insert_row (\<lambda>c. (cn_payment_id c, cn_inst_id c)) (\<lambda>_. True) (new_row e site i c) (q_installment s) = Inr t"
    and c: "c = \<lparr> cn_payment_id = p, cn_inst_id = j,
                cn_due_ts = ts_from_ms (p_clock e) (n_due_ts_ms x), cn_amount = n_amount x,
                cn_note = n_note x, cn_is_paid = n_is_paid x, cn_is_overdue = n_is_overdue x \<rparr>"
    and m: "mapE (debt_payment_put e site i p j) (n_debt_payments x) (s0\<lparr>q_installment := t\<rparr>) = Inr (dps, s')"
    and s0: "j = fst (id_or_draw e (n_inst_id x) s)" "s0 = snd (id_or_draw e (n_inst_id x) s)"
    by (auto simp: installment_put_def Let_def split_beta bindE_Inr)
  have t: "t = q_installment s @ [new_row e site i c]" using ins by (simp add: insert_row_Inr)
  obtain ds where ds: "list_all2 (debt_payment_row e site i p j) (n_debt_payments x) ds"
    "q_debt_payment s' = q_debt_payment s @ ds" "q_installment s' = t" "q_payment s' = q_payment s"
    using mapE_grows [OF m, where I = "\<lambda>_. True" and A = q_debt_payment and a = "\<lambda>r. [r]" and B = q_installment
        and b = "\<lambda>_. []" and C = q_payment and c = "\<lambda>_. []" and P = "debt_payment_row e site i p j"]
      debt_payment_put_row [of e site i p j]
    by (auto simp: concat_map_singleton s0(2))
  have "line_pk (\<lambda>c. (cn_payment_id c, cn_inst_id c)) site i t" by (rule line_pk_insert [OF ins assms(2)])
  then show ?thesis using t ds
    by (intro conjI exI [of _ "(new_row e site i c, ds)"])
      (simp_all add: installment_rows_def installment_head_def tx_installment_from_row_def c s0 due_stored_def)
qed

abbreviation "pay_pk site i s \<equiv> line_pk cp_payment_id site i (q_payment s)"

lemma payment_put_rows:
  assumes "payment_put e site i x s = Inr (y, s')" and "pay_pk site i s \<and> inst_pk site i s"
  shows "(pay_pk site i s' \<and> inst_pk site i s') \<and> (\<exists>g. payment_rows e site i x g \<and> q_payment s' = q_payment s @ [fst g] \<and>
    q_installment s' = q_installment s @ map fst (snd g) \<and> q_debt_payment s' = q_debt_payment s @ concat (map snd (snd g)))"
proof -
  let ?j = "fst (id_or_draw e (p_payment_id x) s)" and ?s1 = "snd (id_or_draw e (p_payment_id x) s)"
  let ?s2 = "snd (ts_or_now e (p_ts_ms x) ?s1)"
  from assms(1) obtain t insts c where
    ins: "insert_row cp_payment_id (\<lambda>c. cp_method c \<in> {''cash'', ''card'', ''transfer'', ''qris'', ''debt'', ''wallet''})
        (new_row e site i c) (q_payment s) = Inr t"
    and c: "c = \<lparr> cp_payment_id = ?j,
                cp_method = tx_payment_method_str (unwrap_or Pm_Unspecified (TxPaymentMethod_try_from (p_method x))),
                cp_ts = fst (ts_or_now e (p_ts_ms x) ?s1),
                cp_amount = p_amount x, cp_note = p_note x, cp_from_wallet = p_from_wallet x,
                cp_to_wallet = p_to_wallet x, cp_debt_interest = p_debt_interest x,
                cp_payment_json = payment_json_value e (p_payment_json x) \<rparr>"
    and m: "mapE (installment_put e site i ?j) (p_installments x) (?s2\<lparr>q_payment := t\<rparr>) = Inr (insts, s')"
    by (auto simp: payment_put_def Let_def split_beta bindE_Inr)
  have t: "t = q_payment s @ [new_row e site i c]" using ins by (simp add: insert_row_Inr)
  obtain gs where gs: "list_all2 (installment_rows e site i ?j) (p_installments x) gs" "inst_pk site i s'"
    "q_installment s' = q_installment s @ map fst gs" "q_debt_payment s' = q_debt_payment s @ concat (map snd gs)"
    "q_payment s' = t"
    using mapE_grows [OF m, where I = "inst_pk site i" and A = q_installment and a = "\<lambda>g. [fst g]" and B = q_debt_payment
        and b = snd and C = q_payment and c = "\<lambda>_. []" and P = "installment_rows e site i ?j"]
      installment_put_rows [of e site i ?j] assms(2)
    by (auto simp: concat_map_singleton)
  have "line_pk cp_payment_id site i t" by (rule line_pk_insert [OF ins]) (simp add: assms(2))
  then show ?thesis using t gs
    by (intro conjI exI [of _ "(new_row e site i c, gs)"])
      (simp_all add: payment_rows_def payment_head_def tx_payment_from_row_def c json_stored_def tx_payment_method_def
        unwrap_or_def ts_ms_def)
qed

section \<open>Reading lines\<close>

text \<open>A \<open>HashMap\<close> filled from rows with distinct keys, and one whose values are changed row by row.\<close>

lemma hm_insert_new: "k \<notin> fst ` set m \<Longrightarrow> hm_insert k v m = m @ [(k, v)]"
  by (induction k v m rule: hm_insert.induct) auto

lemma fold_hm_insert:
  "distinct (map fst m @ map k rs) \<Longrightarrow> fold (\<lambda>r m. hm_insert (k r) (v r) m) rs m = m @ map (\<lambda>r. (k r, v r)) rs"
proof (induction rs arbitrary: m)
  case (Cons r rs)
  then have "hm_insert (k r) (v r) m = m @ [(k r, v r)]" by (intro hm_insert_new) auto
  then show ?case using Cons.IH [of "m @ [(k r, v r)]"] Cons.prems by simp
qed simp

lemma fold_hm_adjust:
  "fold (\<lambda>r. hm_adjust (k r) (u r)) rs m = map (\<lambda>(j, v). (j, fold u (filter (\<lambda>r. k r = j) rs) v)) m"
proof (induction rs arbitrary: m)
  case Nil
  then show ?case by (induction m) auto
next
  case (Cons r rs)
  show ?case by (simp add: Cons.IH, induction m) (auto simp: hm_adjust_def)
qed

lemma fold_append_sources:
  "fold (\<lambda>r it. it\<lparr>i_sources := i_sources it @ [f r]\<rparr>) rs it = it\<lparr>i_sources := i_sources it @ map f rs\<rparr>"
  by (induction rs arbitrary: it) simp_all

lemma fold_append_reservations:
  "fold (\<lambda>r it. it\<lparr>i_reservations := i_reservations it @ [f r]\<rparr>) rs it = it\<lparr>i_reservations := i_reservations it @ map f rs\<rparr>"
  by (induction rs arbitrary: it) simp_all

lemma fold_append_debt_payments:
  "fold (\<lambda>r n. n\<lparr>n_debt_payments := n_debt_payments n @ [f r]\<rparr>) rs n = n\<lparr>n_debt_payments := n_debt_payments n @ map f rs\<rparr>"
  by (induction rs arbitrary: n) simp_all

lemma fold_append_installments:
  "fold (\<lambda>r p. p\<lparr>p_installments := p_installments p @ [f r]\<rparr>) rs p = p\<lparr>p_installments := p_installments p @ map f rs\<rparr>"
  by (induction rs arbitrary: p) simp_all

text \<open>Rows that carry the key of their group are found again by it.\<close>

lemma filter_group:
  assumes "distinct (map key gs)" and "\<forall>g \<in> set gs. \<forall>c \<in> set (children g). ck c = key g" and "g \<in> set gs"
  shows "filter (\<lambda>c. ck c = key g) (concat (map children gs)) = children g"
  using assms
proof (induction gs)
  case (Cons h gs)
  have none: "filter (\<lambda>c. ck c = key a) (concat (map children bs)) = []"
    if "key a \<notin> key ` set bs" "\<forall>b \<in> set bs. \<forall>c \<in> set (children b). ck c = key b" for a bs
    using that by (fastforce simp: filter_empty_conv image_iff)
  show ?case
  proof (cases "g = h")
    case True
    have "filter (\<lambda>c. ck c = key h) (children h) = children h" using Cons.prems(2) by (simp add: filter_id_conv)
    then show ?thesis using True none [of h gs] Cons.prems by simp
  next
    case False
    with Cons.prems have g: "g \<in> set gs" by simp
    then have "key h \<noteq> key g" using Cons.prems(1) by auto
    then have "filter (\<lambda>c. ck c = key g) (children h) = []" using Cons.prems(2) by (auto simp: filter_empty_conv)
    then show ?thesis using Cons.IH [OF _ _ g] Cons.prems by simp
  qed
qed simp

lemma mset_filter_scan: "permuting scan \<Longrightarrow> mset (filter P (scan xs)) = mset (filter P xs)"
  by (simp add: mset_filter permuting_def)

lemma from_row_sel [simp]:
  "i_item_id (tx_item_from_row r) = ci_item_id (w_cols r)" "i_sources (tx_item_from_row r) = []"
  "i_reservations (tx_item_from_row r) = []" "p_payment_id (tx_payment_from_row e q) = cp_payment_id (w_cols q)"
  "p_installments (tx_payment_from_row e q) = []" "n_inst_id (tx_installment_from_row ck n) = cn_inst_id (w_cols n)"
  "n_debt_payments (tx_installment_from_row ck n) = []"
  by (simp_all add: tx_item_from_row_def tx_payment_from_row_def tx_installment_from_row_def TxItem_default_def Let_def)

type_synonym item_group = "ItemCols row \<times> SourceCols row list \<times> ReservationCols row list"

definition item_found :: "clock \<Rightarrow> item_group \<Rightarrow> TxItem \<Rightarrow> bool" where
  "item_found ck g y \<longleftrightarrow>
     y = (tx_item_from_row (fst g))\<lparr>i_sources := i_sources y, i_reservations := i_reservations y\<rparr> \<and>
     mset (i_sources y) = mset (map tx_item_source_from_row (fst (snd g))) \<and>
     mset (i_reservations y) = mset (map (tx_item_reservation_from_row ck) (snd (snd g)))"

lemma load_items_found:
  assumes lo: "lorder_ok lo"
    and t: "select_rows site i (q_item s) = map fst G"
      "select_rows site i (q_source s) = concat (map (\<lambda>g. fst (snd g)) G)"
      "select_rows site i (q_reservation s) = concat (map (\<lambda>g. snd (snd g)) G)"
    and d: "distinct (map (\<lambda>g. ci_item_id (w_cols (fst g))) G)"
    and k: "\<forall>g \<in> set G. \<forall>r \<in> set (fst (snd g)). cs_item_id (w_cols r) = ci_item_id (w_cols (fst g))"
      "\<forall>g \<in> set G. \<forall>r \<in> set (snd (snd g)). cr_item_id (w_cols r) = ci_item_id (w_cols (fst g))"
  shows "\<exists>ys. mset (load_items lo e s site i) = mset ys \<and> list_all2 (item_found (p_clock e)) G ys"
proof -
  let ?rows = "order_by ci_item_id (map fst G)"
  let ?ss = "lo_source_scan lo (select_rows site i (q_source s))"
  let ?rs = "lo_res_scan lo (select_rows site i (q_reservation s))"
  let ?key = "\<lambda>g :: item_group. ci_item_id (w_cols (fst g))"
  define h where "h = (\<lambda>r. (tx_item_from_row r)\<lparr>
    i_sources := map tx_item_source_from_row (filter (\<lambda>q. cs_item_id (w_cols q) = ci_item_id (w_cols r)) ?ss),
    i_reservations := map (tx_item_reservation_from_row (p_clock e))
      (filter (\<lambda>q. cr_item_id (w_cols q) = ci_item_id (w_cols r)) ?rs)\<rparr>)"
  have "mset (map (\<lambda>r. ci_item_id (w_cols r)) ?rows) = mset (map ?key G)"
    by (simp add: image_mset.compositionality comp_def)
  then have dr: "distinct (map (\<lambda>r. ci_item_id (w_cols r)) ?rows)" using d by (metis mset_eq_imp_distinct_iff)
  have "load_items lo e s site i = map snd (lo_items lo (map (\<lambda>r. (ci_item_id (w_cols r), h r)) ?rows))"
    unfolding load_items_def t(1) Let_def
    by (simp add: fold_hm_insert [where m = "[]", simplified, OF dr] fold_hm_adjust fold_append_sources
        fold_append_reservations comp_def split_beta h_def)
  then have "mset (load_items lo e s site i) = mset (map h (map fst G))"
    using lo by (simp add: lorder_ok_def permuting_def comp_def flip: mset_map)
      (simp add: comp_def image_mset.compositionality)
  moreover have "item_found (p_clock e) g (h (fst g))" if g: "g \<in> set G" for g
  proof -
    have "mset (filter (\<lambda>q. cs_item_id (w_cols q) = ?key g) ?ss) = mset (fst (snd g))"
      using filter_group [OF d k(1) g] lo by (simp only: mset_filter_scan lorder_ok_def t(2))
    moreover have "mset (filter (\<lambda>q. cr_item_id (w_cols q) = ?key g) ?rs) = mset (snd (snd g))"
      using filter_group [OF d k(2) g] lo by (simp only: mset_filter_scan lorder_ok_def t(3))
    ultimately show ?thesis by (simp add: item_found_def h_def del: mset_filter)
  qed
  ultimately show ?thesis by (intro exI [of _ "map h (map fst G)"]) (simp add: list_all2_conv_all_nth)
qed

definition installment_found :: "penv \<Rightarrow> inst_group \<Rightarrow> TxInstallment \<Rightarrow> bool" where
  "installment_found e n z \<longleftrightarrow> z = (tx_installment_from_row (p_clock e) (fst n))\<lparr>n_debt_payments := n_debt_payments z\<rparr> \<and>
     mset (n_debt_payments z) = mset (map (tx_debt_payment_from_row e) (snd n))"

definition payment_found :: "penv \<Rightarrow> PaymentCols row \<times> inst_group list \<Rightarrow> TxPayment \<Rightarrow> bool" where
  "payment_found e g y \<longleftrightarrow> y = (tx_payment_from_row e (fst g))\<lparr>p_installments := p_installments y\<rparr> \<and>
     (\<exists>zs. mset (p_installments y) = mset zs \<and> list_all2 (installment_found e) (snd g) zs)"

abbreviation "inst_key r \<equiv> (cn_payment_id (w_cols r), cn_inst_id (w_cols r))"

lemma load_payments_found:
  fixes G :: "(PaymentCols row \<times> inst_group list) list"
  defines "N \<equiv> concat (map snd G)"
  assumes lo: "lorder_ok lo"
    and t: "select_rows site i (q_payment s) = map fst G"
      "select_rows site i (q_installment s) = map fst N"
      "select_rows site i (q_debt_payment s) = concat (map snd N)"
    and d: "distinct (map (\<lambda>g. cp_payment_id (w_cols (fst g))) G)" "distinct (map (\<lambda>n. inst_key (fst n)) N)"
    and k: "\<forall>g \<in> set G. \<forall>n \<in> set (snd g). cn_payment_id (w_cols (fst n)) = cp_payment_id (w_cols (fst g))"
      "\<forall>n \<in> set N. \<forall>r \<in> set (snd n). (cd_payment_id (w_cols r), cd_inst_id (w_cols r)) = inst_key (fst n)"
  shows "\<exists>ys. mset (load_payments lo e s site i) = mset ys \<and> list_all2 (payment_found e) G ys"
proof -
  let ?rows = "order_by cp_payment_id (map fst G)"
  let ?ns = "lo_inst_scan lo (map fst N)"
  let ?ds = "lo_dpay_scan lo (concat (map snd N))"
  let ?pid = "\<lambda>r :: PaymentCols row. cp_payment_id (w_cols r)"
  define hn where "hn = (\<lambda>r. (tx_installment_from_row (p_clock e) r)\<lparr>n_debt_payments :=
    map (tx_debt_payment_from_row e) (filter (\<lambda>q. (cd_payment_id (w_cols q), cd_inst_id (w_cols q)) = inst_key r) ?ds)\<rparr>)"
  let ?im = "map (\<lambda>r. (inst_key r, hn r)) ?ns"
  define hp where "hp = (\<lambda>r. (tx_payment_from_row e r)\<lparr>p_installments :=
    map snd (filter (\<lambda>x. fst (fst x) = ?pid r) (lo_insts lo ?im))\<rparr>)"
  have m: "mset (map ?pid ?rows) = mset (map (\<lambda>g. ?pid (fst g)) G)"
    "mset (map (\<lambda>r. inst_key r) ?ns) = mset (map (\<lambda>n. inst_key (fst n)) N)"
    using lo by (simp_all add: image_mset.compositionality comp_def lorder_ok_def permuting_def)
  have dr: "distinct (map ?pid ?rows)" "distinct (map (\<lambda>r. inst_key r) ?ns)"
    by (rule mset_eq_imp_distinct_iff [OF m(1), THEN iffD2, OF d(1)] mset_eq_imp_distinct_iff [OF m(2), THEN iffD2, OF d(2)])+
  have im: "fold (\<lambda>r. hm_adjust (cd_payment_id (w_cols r), cd_inst_id (w_cols r))
        (\<lambda>inst. inst\<lparr> n_debt_payments := n_debt_payments inst @ [tx_debt_payment_from_row e r] \<rparr>)) ?ds
      (fold (\<lambda>r m. let inst = tx_installment_from_row (p_clock e) r
         in hm_insert (cn_payment_id (w_cols r), n_inst_id inst) inst m) ?ns []) = ?im"
  proof -
    have "fold (\<lambda>r m. let inst = tx_installment_from_row (p_clock e) r
         in hm_insert (cn_payment_id (w_cols r), n_inst_id inst) inst m) ?ns [] =
        map (\<lambda>r. (inst_key r, tx_installment_from_row (p_clock e) r)) ?ns"
      using fold_hm_insert [of "[]" "\<lambda>r. inst_key r" ?ns "tx_installment_from_row (p_clock e)"] dr(2)
      by (simp only: Let_def from_row_sel list.map(1) append.left_neutral)
    then show ?thesis
      by (simp only: fold_hm_adjust fold_append_debt_payments hn_def list.map_comp comp_def prod.case from_row_sel append_Nil)
  qed
  define pm where "pm = map (\<lambda>r. (?pid r, tx_payment_from_row e r)) ?rows"
  have pm: "fold (\<lambda>r m. let p = tx_payment_from_row e r in hm_insert (p_payment_id p) p m) ?rows [] = pm"
    by (simp add: Let_def fold_hm_insert [where m = "[]", simplified, OF dr(1)] pm_def)
  have adj: "fold (\<lambda>((payment_id, _), inst). hm_adjust payment_id (\<lambda>p. p\<lparr> p_installments := p_installments p @ [inst] \<rparr>)) xs pm =
      map (\<lambda>r. (?pid r, (tx_payment_from_row e r)\<lparr>p_installments := map snd (filter (\<lambda>x. fst (fst x) = ?pid r) xs)\<rparr>)) ?rows" for xs
    by (simp add: case_prod_unfold fold_hm_adjust fold_append_installments pm_def comp_def)
  have "load_payments lo e s site i = map snd (lo_payments lo (if pm = [] then pm
      else map (\<lambda>r. (?pid r, hp r)) ?rows))"
    by (simp only: load_payments_def t Let_def pm [unfolded Let_def] im [unfolded Let_def] adj hp_def)
  also have "(if pm = [] then pm else map (\<lambda>r. (?pid r, hp r)) ?rows) = map (\<lambda>r. (?pid r, hp r)) ?rows"
    by (simp add: pm_def)
  finally have "load_payments lo e s site i = map snd (lo_payments lo (map (\<lambda>r. (?pid r, hp r)) ?rows))" .
  then have "mset (load_payments lo e s site i) = mset (map hp (map fst G))"
    using lo by (simp add: lorder_ok_def permuting_def image_mset.compositionality comp_def)
  moreover have "payment_found e g (hp (fst g))" if g: "g \<in> set G" for g
  proof -
    have "filter (\<lambda>r. cn_payment_id (w_cols r) = ?pid (fst g)) (map fst N) = map fst (snd g)"
      using filter_group [OF d(1) k(1) g] by (simp add: filter_map comp_def N_def)
    then have "mset (map hn (filter (\<lambda>r. cn_payment_id (w_cols r) = ?pid (fst g)) ?ns)) = mset (map hn (map fst (snd g)))"
      using lo by (simp only: mset_map mset_filter_scan lorder_ok_def)
    moreover have "mset (p_installments (hp (fst g))) =
        mset (map hn (filter (\<lambda>r. cn_payment_id (w_cols r) = ?pid (fst g)) ?ns))"
    proof -
      have "mset (p_installments (hp (fst g))) = mset (map snd (filter (\<lambda>x. fst (fst x) = ?pid (fst g)) ?im))"
      proof -
        have "p_installments (hp (fst g)) = map snd (filter (\<lambda>x. fst (fst x) = ?pid (fst g)) (lo_insts lo ?im))"
          by (simp add: hp_def)
        then show ?thesis using lo by (simp only: mset_map mset_filter_scan lorder_ok_def)
      qed
      then show ?thesis by (simp add: filter_map comp_def image_mset.compositionality del: mset_filter)
    qed
    moreover have "installment_found e n (hn (fst n))" if n: "n \<in> set (snd g)" for n
    proof -
      have "n \<in> set N" using n g by (auto simp: N_def)
      from filter_group [OF d(2) k(2) this]
      have "mset (filter (\<lambda>q. (cd_payment_id (w_cols q), cd_inst_id (w_cols q)) = inst_key (fst n)) ?ds) = mset (snd n)"
        using lo by (simp only: mset_filter_scan lorder_ok_def)
      then show ?thesis by (simp add: installment_found_def hn_def del: mset_filter)
    qed
    ultimately show ?thesis unfolding payment_found_def
      by (intro conjI exI [of _ "map hn (map fst (snd g))"]) (simp_all add: hp_def list_all2_conv_all_nth)
  qed
  ultimately show ?thesis by (intro exI [of _ "map hp (map fst G)"]) (simp add: list_all2_conv_all_nth)
qed

section \<open>What a save leaves for a load\<close>

definition item_tables :: "conn \<Rightarrow> _" where
  "item_tables s = (q_item s, q_source s, q_reservation s)"

definition payment_tables :: "conn \<Rightarrow> _" where
  "payment_tables s = (q_payment s, q_installment s, q_debt_payment s)"

lemma payment_put_items:
  assumes "payment_put e site i x s = Inr (y, s')"
  shows "item_tables s' = item_tables s"
proof -
  have d: "debt_payment_put e site i p j x s = Inr (y, s') \<Longrightarrow> item_tables s' = item_tables s" for p j x y s s'
    by (auto simp: debt_payment_put_def item_tables_def Let_def split_beta bindE_Inr)
  have n: "item_tables s' = item_tables s" if put: "installment_put e site i p x s = Inr (y, s')" for p x y s s'
  proof -
    from put obtain j s0 t dps where
      m: "mapE (debt_payment_put e site i p j) (n_debt_payments x) (s0\<lparr>q_installment := t\<rparr>) = Inr (dps, s')"
      and s0: "s0 = snd (id_or_draw e (n_inst_id x) s)"
      by (auto simp: installment_put_def Let_def split_beta bindE_Inr)
    have "item_tables s' = item_tables (s0\<lparr>q_installment := t\<rparr>)" by (rule mapE_frame [OF d m])
    then show ?thesis by (simp add: s0 item_tables_def)
  qed
  from assms obtain j s0 t dps where
    m: "mapE (installment_put e site i j) (p_installments x) (s0\<lparr>q_payment := t\<rparr>) = Inr (dps, s')"
    and s0: "s0 = snd (ts_or_now e (p_ts_ms x) (snd (id_or_draw e (p_payment_id x) s)))"
    by (auto simp: payment_put_def Let_def split_beta bindE_Inr)
  have "item_tables s' = item_tables (s0\<lparr>q_payment := t\<rparr>)" by (rule mapE_frame [OF n m])
  then show ?thesis by (simp add: s0 item_tables_def)
qed

lemma books_put_lines:
  "acc_put e site i a s = Inr (a', s') \<Longrightarrow> item_tables s' = item_tables s \<and> payment_tables s' = payment_tables s"
  "stock_put e site i k s = Inr (k', s') \<Longrightarrow> item_tables s' = item_tables s \<and> payment_tables s' = payment_tables s"
  "tax_put e site i x s = Inr (x', s') \<Longrightarrow> item_tables s' = item_tables s \<and> payment_tables s' = payment_tables s"
  "discount_put e site i c s = Inr (c', s') \<Longrightarrow> item_tables s' = item_tables s \<and> payment_tables s' = payment_tables s"
  by (auto simp: acc_put_def stock_put_def tax_put_def discount_put_def item_tables_def payment_tables_def Let_def
      split_beta bindE_Inr)

lemma children_put_groups:
  assumes "tx_children_put e tx s = Inr (tx', s')" and "line_pk ci_item_id (t_site_iid tx) (t_tx_id tx) (q_item s)"
    and "pay_pk (t_site_iid tx) (t_tx_id tx) s" and "inst_pk (t_site_iid tx) (t_tx_id tx) s"
  obtains G H where "list_all2 (item_numbered e) (t_items tx) (t_items tx')"
    and "list_all2 (item_rows e (t_site_iid tx) (t_tx_id tx)) (t_items tx') G"
    and "q_item s' = q_item s @ map fst G" and "q_source s' = q_source s @ concat (map (\<lambda>g. fst (snd g)) G)"
    and "q_reservation s' = q_reservation s @ concat (map (\<lambda>g. snd (snd g)) G)"
    and "line_pk ci_item_id (t_site_iid tx) (t_tx_id tx) (q_item s')"
    and "list_all2 (payment_rows e (t_site_iid tx) (t_tx_id tx)) (t_payments tx) H"
    and "q_payment s' = q_payment s @ map fst H" and "q_installment s' = q_installment s @ map fst (concat (map snd H))"
    and "q_debt_payment s' = q_debt_payment s @ concat (map snd (concat (map snd H)))"
    and "pay_pk (t_site_iid tx) (t_tx_id tx) s'" and "inst_pk (t_site_iid tx) (t_tx_id tx) s'"
proof -
  let ?site = "t_site_iid tx" and ?i = "t_tx_id tx"
  from assms(1) obtain s1 s2 s3 s4 s5 s6 where
    a: "tx_items_ensure_ids e (t_items tx) s = Inr (t_items tx', s1)"
    and b: "forE (item_put e ?site ?i) (t_items tx') s1 = Inr s2"
    and c: "mapE (payment_put e ?site ?i) (t_payments tx) s2 = Inr (t_payments tx', s3)"
    and d: "mapE (acc_put e ?site ?i) (t_accs tx) s3 = Inr (t_accs tx', s4)"
    and f: "mapE (stock_put e ?site ?i) (t_stocks tx) s4 = Inr (t_stocks tx', s5)"
    and g: "mapE (tax_put e ?site ?i) (t_taxes tx) s5 = Inr (t_taxes tx', s6)"
    and h: "mapE (discount_put e ?site ?i) (t_discounts tx) s6 = Inr (t_discounts tx', s')"
    by (rule tx_children_put_loops)
  let ?v = "\<lambda>s. (item_tables s, payment_tables s)"
  have fa: "?v s1 = ?v s"
    by (rule ensure_ids_frame [OF a, where g = ?v]) (simp_all add: item_tables_def payment_tables_def)
  have fb: "payment_tables s2 = payment_tables s1"
    by (rule forE_frame [OF _ b]) (simp add: item_put_frame payment_tables_def)
  have fc: "item_tables s3 = item_tables s2" by (rule mapE_frame [OF payment_put_items c])
  have fd: "?v s4 = ?v s3" by (rule mapE_frame [OF _ d]) (simp add: books_put_lines)
  have ff: "?v s5 = ?v s4" by (rule mapE_frame [OF _ f]) (simp add: books_put_lines)
  have fg: "?v s6 = ?v s5" by (rule mapE_frame [OF _ g]) (simp add: books_put_lines)
  have fh: "?v s' = ?v s6" by (rule mapE_frame [OF _ h]) (simp add: books_put_lines)
  note it = fa fb fc fd ff fg fh item_tables_def payment_tables_def
  have i0: "line_pk ci_item_id ?site ?i (q_item s1)" using assms(2) fa by (simp add: item_tables_def)
  obtain G where G: "list_all2 (item_rows e ?site ?i) (t_items tx') G" "line_pk ci_item_id ?site ?i (q_item s2)"
    "q_item s2 = q_item s1 @ map fst G" "q_source s2 = q_source s1 @ concat (map (\<lambda>g. fst (snd g)) G)"
    "q_reservation s2 = q_reservation s1 @ concat (map (\<lambda>g. snd (snd g)) G)"
    using forE_grows [OF b, where I = "\<lambda>s. line_pk ci_item_id ?site ?i (q_item s)" and A = q_item and a = "\<lambda>g. [fst g]"
        and B = q_source and b = "\<lambda>g. fst (snd g)" and C = q_reservation and c = "\<lambda>g. snd (snd g)"
        and P = "item_rows e ?site ?i", OF i0] item_put_rows [of e ?site ?i]
    by (auto simp: concat_map_singleton)
  have p0: "pay_pk ?site ?i s2 \<and> inst_pk ?site ?i s2" using assms(3,4) fa fb by (simp add: payment_tables_def)
  obtain H where H: "list_all2 (payment_rows e ?site ?i) (t_payments tx) H" "pay_pk ?site ?i s3" "inst_pk ?site ?i s3"
    "q_payment s3 = q_payment s2 @ map fst H" "q_installment s3 = q_installment s2 @ concat (map (\<lambda>g. map fst (snd g)) H)"
    "q_debt_payment s3 = q_debt_payment s2 @ concat (map (\<lambda>g. concat (map snd (snd g))) H)"
    using mapE_grows [OF c, where I = "\<lambda>s. pay_pk ?site ?i s \<and> inst_pk ?site ?i s" and A = q_payment and a = "\<lambda>g. [fst g]"
        and B = q_installment and b = "\<lambda>g. map fst (snd g)" and C = q_debt_payment and c = "\<lambda>g. concat (map snd (snd g))"
        and P = "payment_rows e ?site ?i", OF p0] payment_put_rows [of e ?site ?i]
    by (auto simp: concat_map_singleton)
  have cc: "concat (map (\<lambda>g. map fst (snd g)) H) = map fst (concat (map snd H))"
    "concat (map (\<lambda>g. concat (map snd (snd g))) H) = concat (map snd (concat (map snd H)))"
    by (induction H) simp_all
  show ?thesis
    by (rule that [of G H]) (use it G H cc ensure_ids_numbered [OF a] in simp_all)
qed

lemma list_all2_set2: "list_all2 P xs ys \<Longrightarrow> y \<in> set ys \<Longrightarrow> \<exists>x. P x y"
  by (metis in_set_conv_nth list_all2_conv_all_nth)

lemma item_rows_keys:
  assumes "item_rows e site i x g"
  shows "live_of_tx site i (fst g)" and "\<forall>r \<in> set (fst (snd g)). live_of_tx site i r \<and> cs_item_id (w_cols r) = ci_item_id (w_cols (fst g))"
    and "\<forall>r \<in> set (snd (snd g)). live_of_tx site i r \<and> cr_item_id (w_cols r) = ci_item_id (w_cols (fst g))"
  using assms by (auto simp: item_rows_def item_cols_def source_row_def reservation_row_def dest!: list_all2_set2)

lemma payment_rows_keys:
  assumes "payment_rows e site i x g"
  shows "live_of_tx site i (fst g)"
    and "\<forall>n \<in> set (snd g). live_of_tx site i (fst n) \<and> cn_payment_id (w_cols (fst n)) = cp_payment_id (w_cols (fst g)) \<and>
      (\<forall>r \<in> set (snd n). live_of_tx site i r \<and> (cd_payment_id (w_cols r), cd_inst_id (w_cols r)) = inst_key (fst n))"
  using assms
  by (auto simp: payment_rows_def installment_rows_def debt_payment_row_def split: prod.splits dest!: list_all2_set2)

lemma item_saved_found:
  assumes "item_numbered e x x'" and "item_rows e site i x' g" and "item_found (p_clock e') g y"
  shows "item_saved e e' site i x y"
proof -
  obtain ss rs where g: "g = (new_row e site i (item_cols site x'), ss, rs)"
    and ss: "list_all2 (source_row e site i (i_item_id x')) (i_sources x') ss"
    and rs: "list_all2 (reservation_row e site i (i_item_id x')) (i_reservations x') rs"
    using assms(2) by (cases g) (auto simp: item_rows_def)
  have x': "x' = x\<lparr>i_item_id := i_item_id x'\<rparr>" and id: "id_stored e (i_item_id x \<noteq> 0) (i_item_id x) (i_item_id x')"
    using assms(1) by (auto simp: item_numbered_def)
  have n: "i_sources x' = i_sources x" "i_reservations x' = i_reservations x" by (subst x', simp)+
  have y: "y = (tx_item_from_row (fst g))\<lparr>i_sources := i_sources y, i_reservations := i_reservations y\<rparr>"
    using assms(3) by (simp add: item_found_def)
  have "list_all2 (source_saved e) (i_sources x) (map tx_item_source_from_row ss)"
    using ss n by (auto simp: list_all2_conv_all_nth source_row_def)
  moreover have "list_all2 (reservation_saved e e') (i_reservations x) (map (tx_item_reservation_from_row (p_clock e')) rs)"
    using rs n by (auto simp: list_all2_conv_all_nth reservation_row_def)
  ultimately have "rel_mset (source_saved e) (mset (i_sources x)) (mset (i_sources y))"
    "rel_mset (reservation_saved e e') (mset (i_reservations x)) (mset (i_reservations y))"
    using assms(3) by (auto simp: item_found_def g intro: rel_mset_lists)
  moreover have "item_head e site i x (z\<lparr>i_sources := a, i_reservations := b\<rparr>)"
    if "z = tx_item_from_row (new_row e site i (item_cols site (x\<lparr>i_item_id := j\<rparr>)))"
      "id_stored e (i_item_id x \<noteq> 0) (i_item_id x) j" for z a b j
    using that by (cases x) (simp add: item_head_def tx_item_from_row_def item_cols_def TxItem_default_def)
  then have "item_head e site i x y" using y g x' id by (metis fst_conv)
  ultimately show ?thesis by (simp add: item_saved_def)
qed

lemma payment_saved_found:
  assumes "payment_rows e site i x g" and "payment_found e' g y"
  shows "payment_saved e e' x y"
proof -
  obtain r gs where g: "g = (r, gs)" and h: "payment_head e e' x (tx_payment_from_row e' r)"
    and gs: "list_all2 (installment_rows e site i (cp_payment_id (w_cols r))) (p_installments x) gs"
    using assms(1) by (cases g) (auto simp: payment_rows_def)
  obtain zs where zs: "mset (p_installments y) = mset zs" "list_all2 (installment_found e') gs zs"
    and y: "y = (tx_payment_from_row e' r)\<lparr>p_installments := p_installments y\<rparr>"
    using assms(2) by (auto simp: payment_found_def g)
  have inst: "installment_saved e e' n z"
    if nq: "installment_rows e site i p n q" "installment_found e' q z" for n q z p
  proof -
    obtain q0 ds where q: "q = (q0, ds)" and hd: "installment_head e e' n (tx_installment_from_row (p_clock e') q0)"
      and ds: "list_all2 (debt_payment_row e site i p (cn_inst_id (w_cols q0))) (n_debt_payments n) ds"
      using nq(1) by (cases q) (auto simp: installment_rows_def)
    have z: "z = (tx_installment_from_row (p_clock e') q0)\<lparr>n_debt_payments := n_debt_payments z\<rparr>"
      and mz: "mset (n_debt_payments z) = mset (map (tx_debt_payment_from_row e') ds)"
      using nq(2) by (auto simp: installment_found_def q)
    have "list_all2 (debt_payment_saved e e') (n_debt_payments n) (map (tx_debt_payment_from_row e') ds)"
      using ds by (auto simp: list_all2_conv_all_nth debt_payment_row_def)
    moreover have "installment_head e e' n (w\<lparr>n_debt_payments := v\<rparr>)" if "installment_head e e' n w" for w v
      using that unfolding installment_head_def by (cases n; cases w) simp
    ultimately show ?thesis using hd z mz by (metis installment_saved_def rel_mset_lists)
  qed
  have "list_all2 (installment_saved e e') (p_installments x) zs"
    using gs zs(2) inst unfolding list_all2_conv_all_nth by metis
  then have "rel_mset (installment_saved e e') (mset (p_installments x)) (mset (p_installments y))"
    using zs(1) by (simp add: rel_mset_lists)
  moreover have "payment_head e e' x (w\<lparr>p_installments := v\<rparr>)" if "payment_head e e' x w" for w v
    using that unfolding payment_head_def by (cases x; cases w) simp
  ultimately show ?thesis using h y by (metis payment_saved_def)
qed

theorem save_lines:
  assumes del: "tx_children_del (t_site_iid tx) (t_tx_id tx) s = Inr s1"
    and hdr: "tx_header_put e owner tx g m s1 = Inr s2"
    and put: "tx_children_put e tx s2 = Inr (tx', s3)"
    and lo: "lorder_ok lo" and load: "tx_load lo e' s3 (t_site_iid tx) (t_tx_id tx) = Some l"
  shows "lines_saved e e' tx l"
proof -
  let ?site = "t_site_iid tx" and ?i = "t_tx_id tx"
  have tabs: "q_item s2 = delete_rows ?site ?i (q_item s)" "q_source s2 = delete_rows ?site ?i (q_source s)"
    "q_reservation s2 = delete_rows ?site ?i (q_reservation s)" "q_payment s2 = delete_rows ?site ?i (q_payment s)"
    "q_installment s2 = delete_rows ?site ?i (q_installment s)"
    "q_debt_payment s2 = delete_rows ?site ?i (q_debt_payment s)"
    using header_put_frame [OF hdr] del by (auto simp: tx_children_del_def)
  note pk0 = line_pk_deleted [where site = ?site and i = ?i]
  obtain G H where N: "list_all2 (item_numbered e) (t_items tx) (t_items tx')"
    and G: "list_all2 (item_rows e ?site ?i) (t_items tx') G"
    and tG: "q_item s3 = delete_rows ?site ?i (q_item s) @ map fst G"
      "q_source s3 = delete_rows ?site ?i (q_source s) @ concat (map (\<lambda>g. fst (snd g)) G)"
      "q_reservation s3 = delete_rows ?site ?i (q_reservation s) @ concat (map (\<lambda>g. snd (snd g)) G)"
    and pG: "line_pk ci_item_id ?site ?i (q_item s3)"
    and H: "list_all2 (payment_rows e ?site ?i) (t_payments tx) H"
    and tH: "q_payment s3 = delete_rows ?site ?i (q_payment s) @ map fst H"
      "q_installment s3 = delete_rows ?site ?i (q_installment s) @ map fst (concat (map snd H))"
      "q_debt_payment s3 = delete_rows ?site ?i (q_debt_payment s) @ concat (map snd (concat (map snd H)))"
    and pH: "pay_pk ?site ?i s3" "inst_pk ?site ?i s3"
    by (rule children_put_groups [OF put, unfolded tabs, OF pk0 pk0 pk0])
  have gG: "\<exists>x. item_rows e ?site ?i x g" if "g \<in> set G" for g using list_all2_set2 [OF G that] .
  have gH: "\<exists>x. payment_rows e ?site ?i x g" if "g \<in> set H" for g using list_all2_set2 [OF H that] .
  have liveG: "\<forall>r \<in> set (map fst G). live_of_tx ?site ?i r"
    "\<forall>r \<in> set (concat (map (\<lambda>g. fst (snd g)) G)). live_of_tx ?site ?i r"
    "\<forall>r \<in> set (concat (map (\<lambda>g. snd (snd g)) G)). live_of_tx ?site ?i r"
    using gG item_rows_keys by fastforce+
  have liveH: "\<forall>r \<in> set (map fst H). live_of_tx ?site ?i r"
    "\<forall>r \<in> set (map fst (concat (map snd H))). live_of_tx ?site ?i r"
    "\<forall>r \<in> set (concat (map snd (concat (map snd H)))). live_of_tx ?site ?i r"
    using gH payment_rows_keys by fastforce+
  obtain ys where ys: "mset (load_items lo e' s3 ?site ?i) = mset ys" "list_all2 (item_found (p_clock e')) G ys"
  proof -
    have "distinct (map (\<lambda>g. ci_item_id (w_cols (fst g))) G)"
      using line_pk_appended [OF pG [unfolded tG] liveG(1)] by (simp add: comp_def)
    then show ?thesis
      using that load_items_found [OF lo, of ?site ?i s3 G e'] select_append_live [OF liveG(1)]
        select_append_live [OF liveG(2)] select_append_live [OF liveG(3)] gG item_rows_keys
      unfolding tG by meson
  qed
  obtain zs where zs: "mset (load_payments lo e' s3 ?site ?i) = mset zs" "list_all2 (payment_found e') H zs"
  proof -
    have "distinct (map (\<lambda>g. cp_payment_id (w_cols (fst g))) H)"
      "distinct (map (\<lambda>n. inst_key (fst n)) (concat (map snd H)))"
      using line_pk_appended [OF pH(1) [unfolded tH] liveH(1)] line_pk_appended [OF pH(2) [unfolded tH] liveH(2)]
      by (simp_all add: comp_def map_concat)
    moreover have "\<forall>g \<in> set H. \<forall>n \<in> set (snd g). cn_payment_id (w_cols (fst n)) = cp_payment_id (w_cols (fst g))"
      "\<forall>n \<in> set (concat (map snd H)). \<forall>r \<in> set (snd n). (cd_payment_id (w_cols r), cd_inst_id (w_cols r)) = inst_key (fst n)"
      using gH payment_rows_keys by fastforce+
    ultimately show ?thesis
      using that load_payments_found [OF lo, of ?site ?i s3 H e'] select_append_live [OF liveH(1)]
        select_append_live [OF liveH(2)] select_append_live [OF liveH(3)]
      unfolding tH by blast
  qed
  have l: "t_items l = load_items lo e' s3 ?site ?i" "t_payments l = load_payments lo e' s3 ?site ?i"
    using load by (auto simp: tx_load_def tx_children_attach_def split: option.splits)
  have "list_all2 (item_saved e e' ?site ?i) (t_items tx) ys"
    using N G ys(2) item_saved_found unfolding list_all2_conv_all_nth by metis
  moreover have "list_all2 (payment_saved e e') (t_payments tx) zs"
    using H zs(2) payment_saved_found unfolding list_all2_conv_all_nth by metis
  ultimately show ?thesis using l ys(1) zs(1) by (simp add: lines_saved_def rel_mset_lists)
qed

end
