(* ===== verification/Tx_Line_Books.thy ===== *)
theory Tx_Line_Books
  imports Tx_Lines Finalize
begin

text \<open>
  The books of the items and payments of a transaction: what \<open>tx_finalize\<close>
  (\<open>servers/crates/mod_tx/src/finalize.rs\<close>) writes to the header is what the lines say, and it
  still is for the lines a load finds after they were stored.
\<close>

section \<open>Books\<close>

text \<open>Counts and totals of the header are those of the lines, an item's amounts are those of its
  price, quantity and reservations, and the debt is what the installments of the payments on
  credit say. A debt without such installments is the total.\<close>

definition debt_total_of :: "Tx \<Rightarrow> i64" where
  "debt_total_of tx = (\<Sum>p\<leftarrow>filter is_debt (t_payments tx). \<Sum>inst\<leftarrow>p_installments p. n_amount inst)"

definition debt_paid_of :: "Tx \<Rightarrow> i64" where
  "debt_paid_of tx = (\<Sum>p\<leftarrow>filter is_debt (t_payments tx). \<Sum>inst\<leftarrow>p_installments p. inst_paid inst)"

definition debt_alone :: "Tx \<Rightarrow> bool" where
  "debt_alone tx \<longleftrightarrow> tx_type (t_type tx) \<in> {Ty_DebtPayable, Ty_DebtReceivable} \<and>
     \<not> 0 <s debt_total_of tx \<and> 0 <s t_total tx"

definition item_amounts_ok :: "TxItem \<Rightarrow> bool" where
  "item_amounts_ok item \<longleftrightarrow> i_total_qty item = scast (item_line_qty item) \<and>
     i_total_price item = i_price item * item_line_qty item"

definition line_books_ok :: "Tx \<Rightarrow> bool" where
  "line_books_ok tx \<longleftrightarrow>
     t_items_count tx = of_nat (length (t_items tx)) \<and>
     t_items_qty tx = (\<Sum>item\<leftarrow>t_items tx. scast (i_qty item)) \<and>
     t_items_total tx = (\<Sum>item\<leftarrow>t_items tx. item_net item) \<and>
     (\<forall>item \<in> set (t_items tx). item_amounts_ok item) \<and>
     t_total_paid tx = (\<Sum>p\<leftarrow>t_payments tx. p_amount p) \<and>
     t_total_interest tx = (\<Sum>p\<leftarrow>filter is_debt (t_payments tx). p_debt_interest p) \<and>
     t_debt_paid tx = debt_paid_of tx \<and>
     t_debt_total tx = (if debt_alone tx then t_total tx else debt_total_of tx) \<and>
     t_debt_unpaid tx = (if debt_alone tx then smax (t_total tx - debt_paid_of tx) 0
       else debt_total_of tx - debt_paid_of tx) \<and>
     (t_is_paid tx \<longleftrightarrow> t_debt_unpaid tx \<le>s 0)"

lemma finalize_debts:
  fixes ck order tx
  defines "f \<equiv> tx_finalize ck order tx"
  shows "t_items f = map item_compute (t_items tx)" and "t_debt_paid f = debt_paid_of f"
    and "t_debt_total f = (if debt_alone f then t_total f else debt_total_of f)"
    and "t_debt_unpaid f = (if debt_alone f then smax (t_total f - debt_paid_of f) 0 else debt_total_of f - debt_paid_of f)"
    and "t_is_paid f \<longleftrightarrow> t_debt_unpaid f \<le>s 0"
proof -
  let ?t = "tx_compute_totals (tx_compute_items tx)"
  let ?d = "tx_compute_standalone_debt ?t"
  have ty: "t_type f = t_type tx" using finalize_totals(1) by (simp add: f_def)
  have fd: "t_debt_paid f = t_debt_paid ?d" "t_debt_total f = t_debt_total ?d" "t_debt_unpaid f = t_debt_unpaid ?d"
    "t_is_paid f = t_is_paid ?d" "t_total f = t_total ?d"
    by (simp_all add: f_def finalize_with_accs with_accs_eq tx_derive_def tx_compute_stock_def debt_installments_eq Let_def)
  have pay: "debt_total_of f = t_debt_total ?t" "debt_paid_of f = t_debt_paid ?t"
    by (simp_all add: f_def debt_total_of_def debt_paid_of_def finalize_with_accs with_accs_eq tx_derive_def
        tx_compute_stock_def debt_installments_eq Let_def comp_def frame)
      (simp_all add: tx_compute_totals_def tx_compute_items_def Let_def)
  have tt: "t_total ?d = t_total ?t" "t_debt_paid ?d = t_debt_paid ?t" "t_type ?t = t_type tx"
    "t_debt_unpaid ?t = t_debt_total ?t - t_debt_paid ?t" "t_is_paid ?t \<longleftrightarrow> t_debt_unpaid ?t \<le>s 0"
    by (simp_all add: tx_compute_standalone_debt_def Let_def tx_compute_totals_def tx_compute_items_def)
  show "t_items f = map item_compute (t_items tx)"
    by (simp add: f_def finalize_with_accs with_accs_eq tx_derive_def tx_compute_stock_def debt_installments_eq Let_def frame
        tx_compute_totals_def tx_compute_items_def)
  show "t_debt_paid f = debt_paid_of f" using fd pay tt by simp
  have al: "debt_alone f \<longleftrightarrow> tx_type (t_type ?t) \<in> {Ty_DebtPayable, Ty_DebtReceivable} \<and>
      \<not> 0 <s t_debt_total ?t \<and> 0 <s t_total ?t"
    unfolding debt_alone_def using ty tt fd pay by simp
  show "t_debt_total f = (if debt_alone f then t_total f else debt_total_of f)"
    "t_debt_unpaid f = (if debt_alone f then smax (t_total f - debt_paid_of f) 0 else debt_total_of f - debt_paid_of f)"
    "t_is_paid f \<longleftrightarrow> t_debt_unpaid f \<le>s 0"
    unfolding al fd pay using tt
    by (auto simp: tx_compute_standalone_debt_def Let_def signed.not_less signed.not_le)
qed

lemma finalize_line_books: "line_books_ok (tx_finalize ck order tx)"
proof -
  have am: "item_amounts_ok (item_compute x)" for x
  proof -
    have "item_line_qty (item_compute x) = item_line_qty x" by (simp add: item_line_qty_def Let_def)
    then show ?thesis by (simp add: item_amounts_ok_def)
  qed
  then have "\<forall>x \<in> set (t_items (tx_finalize ck order tx)). item_amounts_ok x"
    by (simp add: finalize_debts(1))
  then show ?thesis
    unfolding line_books_ok_def
    by (intro conjI finalize_totals(2-4) finalize_totals(7,8) finalize_debts(2-5))
qed

section \<open>What a line keeps of its amounts\<close>

lemma item_kept:
  assumes "item_saved e e' site i x y"
  shows "i_qty y = i_qty x" and "item_net y = item_net x" and "item_amounts_ok x \<Longrightarrow> item_amounts_ok y"
proof -
  have y: "y = x\<lparr> i_site_iid := site, i_tx_id := i, i_item_id := i_item_id y,
            i_owner_iid := (if 0 <s i_owner_iid x then i_owner_iid x else site),
            i_fulfillment_state := TxItemFulfillmentState_i32
              (unwrap_or Ful_Unspecified (TxItemFulfillmentState_try_from (i_fulfillment_state x))),
            i_reservations := i_reservations y, i_sources := i_sources y \<rparr>"
    and r: "rel_mset (reservation_saved e e') (mset (i_reservations x)) (mset (i_reservations y))"
    using assms by (simp_all only: item_saved_def item_head_def)
  have f: "i_price y = i_price x" "i_total_net y = i_total_net x" "i_total_qty y = i_total_qty x"
    "i_total_price y = i_total_price x" by (subst y, simp)+
  show q: "i_qty y = i_qty x" by (subst y, simp)
  show "item_net y = item_net x" by (simp add: item_net_def f q)
  have k: "r_qty b = r_qty a" "r_duration_qty b = r_duration_qty a" if "reservation_saved e e' a b" for a b
  proof -
    have b: "b = a\<lparr> r_res_id := r_res_id b, r_start_ts_ms := due_stored e e' (r_start_ts_ms a),
            r_end_ts_ms := due_stored e e' (r_end_ts_ms a) \<rparr>"
      using that by (simp only: reservation_saved_def)
    show "r_qty b = r_qty a" "r_duration_qty b = r_duration_qty a" by (subst b, simp)+
  qed
  have "reservation_billable_qty (i_reservations y) = reservation_billable_qty (i_reservations x)"
    "(\<Sum>r\<leftarrow>i_reservations y. scast (smax (r_duration_qty r) 1)) = (\<Sum>r\<leftarrow>i_reservations x. scast (smax (r_duration_qty r) 1) :: i64)"
    unfolding reservation_billable_qty_def by (rule rel_mset_sum [OF r, symmetric], simp add: k)+
  then have "item_line_qty y = item_line_qty x"
    using rel_mset_nil [OF r] by (simp add: item_line_qty_def Let_def q)
  then show "item_amounts_ok x \<Longrightarrow> item_amounts_ok y" by (simp add: item_amounts_ok_def f)
qed

lemma payment_kept:
  assumes "payment_saved e e' x y"
  shows "p_amount y = p_amount x" and "p_debt_interest y = p_debt_interest x" and "is_debt y = is_debt x"
    and "(\<Sum>inst\<leftarrow>p_installments y. n_amount inst) = (\<Sum>inst\<leftarrow>p_installments x. n_amount inst)"
    and "(\<Sum>inst\<leftarrow>p_installments y. inst_paid inst) = (\<Sum>inst\<leftarrow>p_installments x. inst_paid inst)"
proof -
  have y: "y = x\<lparr> p_payment_id := p_payment_id y, p_ts_ms := p_ts_ms y,
            p_method := TxPaymentMethod_i32 (stored_method (tx_payment_method (p_method x))),
            p_payment_json := json_stored e e' (p_payment_json x), p_installments := p_installments y \<rparr>"
    and r: "rel_mset (installment_saved e e') (mset (p_installments x)) (mset (p_installments y))"
    using assms by (simp_all only: payment_saved_def payment_head_def)
  show "p_amount y = p_amount x" "p_debt_interest y = p_debt_interest x" by (subst y, simp)+
  have "p_method y = TxPaymentMethod_i32 (stored_method (tx_payment_method (p_method x)))" by (subst y, simp)
  moreover have "tx_payment_method (TxPaymentMethod_i32 m) = m" for m by (simp add: tx_payment_method_def)
  ultimately show "is_debt y = is_debt x" by (simp add: is_debt_def stored_method_def)
  have k: "n_amount b = n_amount a" "inst_paid b = inst_paid a" if "installment_saved e e' a b" for a b
  proof -
    have b: "b = a\<lparr> n_inst_id := n_inst_id b, n_due_ts_ms := due_stored e e' (n_due_ts_ms a), n_debt_payments := n_debt_payments b \<rparr>"
      and d: "rel_mset (debt_payment_saved e e') (mset (n_debt_payments a)) (mset (n_debt_payments b))"
      using that by (simp_all only: installment_saved_def installment_head_def)
    show "n_amount b = n_amount a" by (subst b, simp)
    have "d_amount w = d_amount z" if "debt_payment_saved e e' z w" for z w
    proof -
      have w: "w = z\<lparr> d_pay_id := d_pay_id w, d_ts_ms := d_ts_ms w,
            d_method := TxDebtPaymentMethod_i32 (stored_debt_method
              (unwrap_or Dpm_Unspecified (TxDebtPaymentMethod_try_from (d_method z)))),
            d_payment_json := json_stored e e' (d_payment_json z) \<rparr>"
        using that by (simp only: debt_payment_saved_def)
      show ?thesis by (subst w, simp)
    qed
    then show "inst_paid b = inst_paid a" unfolding inst_paid_def by (intro rel_mset_sum [OF d, symmetric]) simp
  qed
  show "(\<Sum>inst\<leftarrow>p_installments y. n_amount inst) = (\<Sum>inst\<leftarrow>p_installments x. n_amount inst)"
    "(\<Sum>inst\<leftarrow>p_installments y. inst_paid inst) = (\<Sum>inst\<leftarrow>p_installments x. inst_paid inst)"
    by (rule rel_mset_sum [OF r, symmetric], simp add: k)+
qed

text \<open>The header fields the books of the lines are about.\<close>

definition line_header :: "Tx \<Rightarrow> _" where
  "line_header tx = (t_items_count tx, t_items_qty tx, t_items_total tx, t_total_paid tx, t_total_interest tx,
     t_debt_paid tx, t_debt_total tx, t_debt_unpaid tx, t_is_paid tx, t_total tx,
     tx_type (t_type tx) \<in> {Ty_DebtPayable, Ty_DebtReceivable})"

lemma line_books_saved:
  assumes "line_books_ok p" and "lines_saved e e' p l" and "line_header l = line_header p"
  shows "line_books_ok l"
proof -
  have i: "rel_mset (item_saved e e' (t_site_iid p) (t_tx_id p)) (mset (t_items p)) (mset (t_items l))"
    and r: "rel_mset (payment_saved e e') (mset (t_payments p)) (mset (t_payments l))"
    using assms(2) by (simp_all add: lines_saved_def)
  have len: "length (t_items l) = length (t_items p)" using rel_mset_length [OF i] by simp
  have items: "(\<Sum>item\<leftarrow>t_items l. scast (i_qty item)) = (\<Sum>item\<leftarrow>t_items p. scast (i_qty item) :: i64)"
    "(\<Sum>item\<leftarrow>t_items l. item_net item) = (\<Sum>item\<leftarrow>t_items p. item_net item)"
    by (rule rel_mset_sum [OF i, symmetric], simp add: item_kept)+
  have am: "\<forall>item \<in> set (t_items l). item_amounts_ok item"
    by (rule rel_mset_ball [OF i, of item_amounts_ok]) (use item_kept(3) assms(1) in \<open>auto simp: line_books_ok_def\<close>)
  have pays: "(\<Sum>p\<leftarrow>t_payments l. p_amount p) = (\<Sum>p\<leftarrow>t_payments p. p_amount p)"
    "(\<Sum>p\<leftarrow>filter is_debt (t_payments l). p_debt_interest p) = (\<Sum>p\<leftarrow>filter is_debt (t_payments p). p_debt_interest p)"
    "debt_total_of l = debt_total_of p" "debt_paid_of l = debt_paid_of p"
    unfolding debt_total_of_def debt_paid_of_def sum_list_filter
    by (rule rel_mset_sum [OF r, symmetric], simp add: payment_kept)+
  have "debt_alone l = debt_alone p" using assms(3) pays by (auto simp: debt_alone_def line_header_def)
  then show ?thesis using assms(1,3) len items am pays by (simp add: line_books_ok_def line_header_def)
qed

end
