(* ===== verification/Tx_Store.thy ===== *)
theory Tx_Store
  imports Tx_Ops Tx_Line_Books
begin

text \<open>
  What the saving and deleting handlers leave in the tables, call after call: a saved transaction
  is read back as it was finalized, no call touches another transaction, and the stored totals
  agree with the stored lines in every state the handlers reach.
\<close>

section \<open>What a save stores\<close>

lemma stock_update_frame: "product_stock_update e site i d s = Inr s' \<Longrightarrow> \<exists>p. s' = s\<lparr>q_product := p\<rparr>"
  by (auto simp: product_stock_update_def Let_def split: if_splits)

lemma conn_product_id: "\<exists>p. s = s\<lparr>q_product := p\<rparr>" for s :: conn
  by (rule exI [of _ "q_product s"]) simp

lemma for_product_frame:
  assumes "\<And>i s s'. f i s = Inr s' \<Longrightarrow> \<exists>p. s' = s\<lparr>q_product := p\<rparr>"
  shows "forE f ids s = Inr s' \<Longrightarrow> \<exists>p. s' = (s :: conn)\<lparr>q_product := p\<rparr>"
proof (induction ids arbitrary: s)
  case (Cons i ids)
  then obtain s1 where 1: "f i s = Inr s1" "forE f ids s1 = Inr s'" by (auto simp: bindE_Inr)
  from assms [OF 1(1)] obtain p where "s1 = s\<lparr>q_product := p\<rparr>" ..
  with Cons.IH [OF 1(2)] show ?case by auto
qed (simp add: conn_product_id)

lemma stock_apply_frame:
  assumes "product_stock_apply order e site old new s = Inr s'"
  shows "\<exists>p. s' = s\<lparr>q_product := p\<rparr>"
  using assms conn_product_id [of s]
  by (auto simp: product_stock_apply_def Let_def conn_product_id
      dest: stock_update_frame elim!: for_product_frame [rotated] split: if_splits)

definition same_lines :: "Tx \<Rightarrow> Tx \<Rightarrow> bool" where
  "same_lines tx tx' \<longleftrightarrow>
     map (\<lambda>a. a\<lparr>a_acc_id := 0\<rparr>) (t_accs tx') = map (\<lambda>a. a\<lparr>a_acc_id := 0\<rparr>) (t_accs tx) \<and>
     map (\<lambda>k. k\<lparr>k_stock_id := 0\<rparr>) (t_stocks tx') = map (\<lambda>k. k\<lparr>k_stock_id := 0\<rparr>) (t_stocks tx) \<and>
     map (\<lambda>x. x\<lparr>x_tax_id := 0\<rparr>) (t_taxes tx') = map (\<lambda>x. x\<lparr>x_tax_id := 0\<rparr>) (t_taxes tx) \<and>
     map (\<lambda>c. c\<lparr>c_discount_id := 0\<rparr>) (t_discounts tx') = map (\<lambda>c. c\<lparr>c_discount_id := 0\<rparr>) (t_discounts tx)"

lemma children_put_same:
  assumes "tx_children_put e tx s = Inr (tx', s')"
  shows "same_lines tx tx'" and "t_site_iid tx' = t_site_iid tx" and "t_tx_id tx' = t_tx_id tx"
    and "t_state tx' = t_state tx"
proof -
  show "same_lines tx tx'"
    using tx_children_put_rows(2-5) [OF assms] by (simp add: same_lines_def appended_def) auto
  from assms obtain s1 s2 s3 s4 s5 s6 where
    e: "tx' = tx\<lparr>t_items := t_items tx', t_payments := t_payments tx', t_accs := t_accs tx',
      t_stocks := t_stocks tx', t_taxes := t_taxes tx', t_discounts := t_discounts tx'\<rparr>"
    by (rule tx_children_put_loops)
  show "t_site_iid tx' = t_site_iid tx" "t_tx_id tx' = t_tx_id tx" "t_state tx' = t_state tx"
    by (subst e, simp)+
qed

lemma commit_steps:
  assumes "tx_put_commit v owner old tx s = Inr (tx', s')"
  obtains s1 s2 s3 p where "tx_children_del (t_site_iid tx) (t_tx_id tx) s = Inr s1"
    and "tx_header_put (v_env v) owner tx (fst (tx_acc_counts tx)) (snd (tx_acc_counts tx)) s1 = Inr s2"
    and "tx_children_put (v_env v) tx s2 = Inr (tx', s3)" and "s' = s3\<lparr>q_product := p\<rparr>"
proof -
  from assms obtain s1 s2 s3 where 1: "tx_children_del (t_site_iid tx) (t_tx_id tx) s = Inr s1"
    "tx_header_put (v_env v) owner tx (fst (tx_acc_counts tx)) (snd (tx_acc_counts tx)) s1 = Inr s2"
    "tx_children_put (v_env v) tx s2 = Inr (tx', s3)"
    and st: "s' = s3 \<or> product_stock_apply (v_products v) (v_env v) (t_site_iid tx) old (t_stocks tx') s3 = Inr s'"
    by (auto simp: tx_put_commit_def Let_def split_beta bindE_Inr split: if_splits)
  have "\<exists>p. s3 = s3\<lparr>q_product := p\<rparr>" by (rule exI [of _ "q_product s3"]) simp
  with st stock_apply_frame obtain p where "s' = s3\<lparr>q_product := p\<rparr>" by metis
  with 1 that show ?thesis by blast
qed

lemma commit_reload:
  assumes "tx_put_commit v owner old tx s = Inr (tx', s')"
  shows "\<exists>l time. tx_load lo (v_env v) s' (t_site_iid tx) (t_tx_id tx) = Some l \<and>
    reloaded (v_env v) time tx tx' l \<and> same_lines tx tx' \<and> t_tx_id tx' = t_tx_id tx"
proof -
  from assms obtain s1 s2 s3 p where c: "tx_children_del (t_site_iid tx) (t_tx_id tx) s = Inr s1"
    "tx_header_put (v_env v) owner tx (fst (tx_acc_counts tx)) (snd (tx_acc_counts tx)) s1 = Inr s2"
    "tx_children_put (v_env v) tx s2 = Inr (tx', s3)" "s' = s3\<lparr>q_product := p\<rparr>"
    by (rule commit_steps)
  show ?thesis using save_reload [OF c(1,2,3), of lo] children_put_same [OF c(3)] c(4) by auto
qed

lemma commit_lines:
  assumes "tx_put_commit v owner old tx s = Inr (tx', s')" and "lorder_ok lo"
    and "tx_load lo e' s' (t_site_iid tx) (t_tx_id tx) = Some l"
  shows "lines_saved (v_env v) e' tx l"
proof -
  from assms(1) obtain s1 s2 s3 p where c: "tx_children_del (t_site_iid tx) (t_tx_id tx) s = Inr s1"
    "tx_header_put (v_env v) owner tx (fst (tx_acc_counts tx)) (snd (tx_acc_counts tx)) s1 = Inr s2"
    "tx_children_put (v_env v) tx s2 = Inr (tx', s3)" "s' = s3\<lparr>q_product := p\<rparr>"
    by (rule commit_steps)
  show ?thesis using save_lines [OF c(1,2,3) assms(2)] assms(3) c(4) by simp
qed

lemma tx_put_success:
  assumes "tx_put v caller (Some tx) out s = (Inr saved, s', pushed)"
  obtains owner old p s1 tx' where "tx_owner_resolve (v_access v) caller (t_site_iid tx) True = Inr owner"
    and "tx_put_prepare v caller tx (call_start s) = (p, s1)"
    and "tx_put_commit v owner old p s1 = Inr (tx', s')"
    and "saved = tx_load (v_lo v) (v_env v) s' (t_site_iid tx) (t_tx_id tx')"
    and "pushed = (if out then (case saved of None \<Rightarrow> [] | Some t \<Rightarrow> [t]) else [])"
    and "0 <s t_site_iid tx"
    and "old = (if 0 <s t_tx_id tx then tx_stocks_load (v_lo v) (v_env v) s (t_site_iid tx) (t_tx_id tx) else [])"
proof -
  define old where "old = (if 0 <s t_tx_id tx then tx_stocks_load (v_lo v) (v_env v) s (t_site_iid tx) (t_tx_id tx) else [])"
  obtain p s1 where p: "tx_put_prepare v caller tx (call_start s) = (p, s1)" by (rule prod.exhaust)
  have pos: "0 <s t_site_iid tx" using assms by (auto simp: tx_put_def split: if_splits)
  obtain owner where o: "tx_owner_resolve (v_access v) caller (t_site_iid tx) True = Inr owner"
    using assms pos by (cases "tx_owner_resolve (v_access v) caller (t_site_iid tx) True") (auto simp: tx_put_def)
  obtain tx' s'' where c: "tx_put_commit v owner old p s1 = Inr (tx', s'')"
    using assms pos o p by (cases "tx_put_commit v owner old p s1") (auto simp: tx_put_def Let_def old_def)
  have "saved = tx_load (v_lo v) (v_env v) s' (t_site_iid tx) (t_tx_id tx') \<and> s'' = s' \<and>
      pushed = (if out then (case saved of None \<Rightarrow> [] | Some t \<Rightarrow> [t]) else [])"
    using assms pos o p c by (auto simp: tx_put_def Let_def old_def)
  with that [OF o p _ _ _ pos old_def] c show ?thesis by blast
qed

section \<open>Other transactions\<close>

text \<open>The rows of every transaction but one.\<close>

definition others :: "i64 \<Rightarrow> i64 \<Rightarrow> conn \<Rightarrow> _" where
  "others site i s =
     (delete_rows site i (q_tx s), delete_rows site i (q_item s), delete_rows site i (q_source s),
      delete_rows site i (q_reservation s), delete_rows site i (q_payment s), delete_rows site i (q_installment s),
      delete_rows site i (q_debt_payment s), delete_rows site i (q_acc s), delete_rows site i (q_stock s),
      delete_rows site i (q_tax s), delete_rows site i (q_discount s))"

text \<open>What a save may not change of a product but through its stock lines.\<close>

definition product_view :: "ProductRow \<Rightarrow> _" where
  "product_view p = (pd_site_iid p, pd_product_id p, pd_can_reserve p, pd_track_stock p, pd_stock_qty p, pd_deleted p,
     pd_can_sell p, pd_is_archived p, pd_price p, pd_rev p, pd_json p, pd_owner_iid p, pd_type p, pd_name p, pd_desc p, pd_unit p,
     pd_sku p, pd_pic p, pd_category p, pd_search_text p, pd_sort_order p, pd_recommended_guest p, pd_created p)"

definition kept :: "i64 \<Rightarrow> i64 \<Rightarrow> conn \<Rightarrow> _" where
  "kept site i s = (others site i s, map product_view (q_product s))"

lemma delete_rows_new [simp]: "delete_rows site i (t @ [new_row e site i c]) = delete_rows site i t"
  by (simp add: delete_rows_def new_row_def of_tx_def)

lemma delete_rows_idem [simp]: "delete_rows site i (delete_rows site i t) = delete_rows site i t"
  by (simp add: delete_rows_def)

lemma mark_used_kept: "site_product_mark_used e site' p s = Inr s' \<Longrightarrow> kept site i s' = kept site i s"
  by (auto simp: site_product_mark_used_def kept_def others_def product_view_def split: if_splits)

lemmas put_kept_simps = Let_def split_beta bindE_Inr insert_row_Inr kept_def others_def

lemma source_put_kept: "source_put e site i j x s = Inr s' \<Longrightarrow> kept site i s' = kept site i s"
  by (auto simp: source_put_def put_kept_simps)

lemma reservation_put_kept: "reservation_put e site i j x s = Inr s' \<Longrightarrow> kept site i s' = kept site i s"
  by (auto simp: reservation_put_def put_kept_simps)

lemma item_put_kept:
  assumes "item_put e site i item s = Inr s'"
  shows "kept site i s' = kept site i s"
proof -
  from assms obtain t s1 s2 where
    t: "t = q_item s @ [new_row e site i (item_cols site item)]"
    and mk: "(if 0 <s i_product_id item then site_product_mark_used e site (i_product_id item) (s\<lparr>q_item := t\<rparr>)
        else Inr (s\<lparr>q_item := t\<rparr>)) = Inr s1"
    and src: "forE (source_put e site i (i_item_id item)) (i_sources item) s1 = Inr s2"
    and res: "forE (reservation_put e site i (i_item_id item)) (i_reservations item) s2 = Inr s'"
    by (auto simp: item_put_def bindE_Inr insert_row_Inr)
  have "kept site i s' = kept site i s2" by (rule forE_frame [OF reservation_put_kept res])
  also have "\<dots> = kept site i s1" by (rule forE_frame [OF source_put_kept src])
  also have "\<dots> = kept site i (s\<lparr>q_item := t\<rparr>)"
    using mk mark_used_kept by (auto split: if_splits)
  also have "\<dots> = kept site i s" by (simp add: t kept_def others_def)
  finally show ?thesis .
qed

lemma debt_payment_put_kept: "debt_payment_put e site i p j x s = Inr (y, s') \<Longrightarrow> kept site i s' = kept site i s"
  by (auto simp: debt_payment_put_def put_kept_simps)

lemma installment_put_kept:
  assumes "installment_put e site i p x s = Inr (y, s')"
  shows "kept site i s' = kept site i s"
proof -
  from assms obtain j s0 t dps c where
    m: "mapE (debt_payment_put e site i p j) (n_debt_payments x) (s0\<lparr>q_installment := t\<rparr>) = Inr (dps, s')"
    and s0: "s0 = snd (id_or_draw e (n_inst_id x) s)" and t: "t = q_installment s @ [new_row e site i c]"
    by (auto simp: installment_put_def Let_def split_beta bindE_Inr insert_row_Inr)
  have "kept site i s' = kept site i (s0\<lparr>q_installment := t\<rparr>)"
    by (rule mapE_frame [OF debt_payment_put_kept m])
  then show ?thesis by (simp add: s0 t kept_def others_def)
qed

lemma payment_put_kept:
  assumes "payment_put e site i x s = Inr (y, s')"
  shows "kept site i s' = kept site i s"
proof -
  from assms obtain j s0 t dps c where
    m: "mapE (installment_put e site i j) (p_installments x) (s0\<lparr>q_payment := t\<rparr>) = Inr (dps, s')"
    and s0: "s0 = snd (ts_or_now e (p_ts_ms x) (snd (id_or_draw e (p_payment_id x) s)))"
    and t: "t = q_payment s @ [new_row e site i c]"
    by (auto simp: payment_put_def Let_def split_beta bindE_Inr insert_row_Inr)
  have "kept site i s' = kept site i (s0\<lparr>q_payment := t\<rparr>)"
    by (rule mapE_frame [OF installment_put_kept m])
  then show ?thesis by (simp add: s0 t kept_def others_def)
qed

lemma acc_put_kept: "acc_put e site i x s = Inr (y, s') \<Longrightarrow> kept site i s' = kept site i s"
  by (auto simp: acc_put_def put_kept_simps)

lemma stock_put_kept: "stock_put e site i x s = Inr (y, s') \<Longrightarrow> kept site i s' = kept site i s"
  by (auto simp: stock_put_def put_kept_simps)

lemma tax_put_kept: "tax_put e site i x s = Inr (y, s') \<Longrightarrow> kept site i s' = kept site i s"
  by (auto simp: tax_put_def put_kept_simps)

lemma discount_put_kept: "discount_put e site i x s = Inr (y, s') \<Longrightarrow> kept site i s' = kept site i s"
  by (auto simp: discount_put_def put_kept_simps)

lemma children_put_kept:
  assumes "tx_children_put e tx s = Inr (tx', s')"
  shows "kept (t_site_iid tx) (t_tx_id tx) s' = kept (t_site_iid tx) (t_tx_id tx) s" (is "?k s' = ?k s")
proof -
  from assms obtain s1 s2 s3 s4 s5 s6 where
    a: "tx_items_ensure_ids e (t_items tx) s = Inr (t_items tx', s1)"
    and b: "forE (item_put e (t_site_iid tx) (t_tx_id tx)) (t_items tx') s1 = Inr s2"
    and c: "mapE (payment_put e (t_site_iid tx) (t_tx_id tx)) (t_payments tx) s2 = Inr (t_payments tx', s3)"
    and d: "mapE (acc_put e (t_site_iid tx) (t_tx_id tx)) (t_accs tx) s3 = Inr (t_accs tx', s4)"
    and f: "mapE (stock_put e (t_site_iid tx) (t_tx_id tx)) (t_stocks tx) s4 = Inr (t_stocks tx', s5)"
    and g: "mapE (tax_put e (t_site_iid tx) (t_tx_id tx)) (t_taxes tx) s5 = Inr (t_taxes tx', s6)"
    and h: "mapE (discount_put e (t_site_iid tx) (t_tx_id tx)) (t_discounts tx) s6 = Inr (t_discounts tx', s')"
    by (rule tx_children_put_loops)
  have "?k s' = ?k s6" by (rule mapE_frame [OF discount_put_kept h])
  also have "\<dots> = ?k s5" by (rule mapE_frame [OF tax_put_kept g])
  also have "\<dots> = ?k s4" by (rule mapE_frame [OF stock_put_kept f])
  also have "\<dots> = ?k s3" by (rule mapE_frame [OF acc_put_kept d])
  also have "\<dots> = ?k s2" by (rule mapE_frame [OF payment_put_kept c])
  also have "\<dots> = ?k s1" by (rule forE_frame [OF item_put_kept b])
  also have "\<dots> = ?k s" by (rule ensure_ids_frame [OF a]) (simp_all add: kept_def others_def)
  finally show ?thesis .
qed

lemma header_put_kept:
  assumes "tx_header_put e owner tx g m s = Inr s'"
  shows "kept (t_site_iid tx) (t_tx_id tx) s' = kept (t_site_iid tx) (t_tx_id tx) s"
proof -
  have "delete_rows site i (map (\<lambda>q. if of_tx site i q then q\<lparr>w_updated := u, w_deleted := d, w_cols := c\<rparr> else q) t) =
      delete_rows site i t" for site i u d c and t :: "TxCols row list"
    by (induction t) (auto simp: delete_rows_def of_tx_def)
  then show ?thesis using assms
    by (auto simp: tx_header_put_def kept_def others_def Let_def split_beta split: if_splits)
qed

lemma children_del_kept: "tx_children_del site i s = Inr s' \<Longrightarrow> kept site i s' = kept site i s"
  by (auto simp: tx_children_del_def kept_def others_def)

lemma select_other: "(site', i') \<noteq> (site, i) \<Longrightarrow> select_rows site' i' (delete_rows site i t) = select_rows site' i' t"
  by (auto simp: select_rows_def delete_rows_def live_of_tx_def of_tx_def intro!: filter_cong)

lemma find_other: "(site', i') \<noteq> (site, i) \<Longrightarrow>
    find (live_of_tx site' i') (delete_rows site i t) = find (live_of_tx site' i') t"
  by (induction t) (auto simp: delete_rows_def live_of_tx_def of_tx_def)

lemma select_others: "delete_rows site i t' = delete_rows site i t \<Longrightarrow> (site', i') \<noteq> (site, i) \<Longrightarrow>
    select_rows site' i' t' = select_rows site' i' t"
  by (metis select_other)

lemma find_others: "delete_rows site i t' = delete_rows site i t \<Longrightarrow> (site', i') \<noteq> (site, i) \<Longrightarrow>
    find (live_of_tx site' i') t' = find (live_of_tx site' i') t"
  by (metis find_other)

lemma load_others:
  assumes "others site i s' = others site i s" and k: "(site', i') \<noteq> (site, i)"
  shows "tx_load lo e s' site' i' = tx_load lo e s site' i'"
proof -
  note t = assms(1) [unfolded others_def prod.inject]
  have "select_rows site' i' (q_item s') = select_rows site' i' (q_item s)"
    "select_rows site' i' (q_source s') = select_rows site' i' (q_source s)"
    "select_rows site' i' (q_reservation s') = select_rows site' i' (q_reservation s)"
    "select_rows site' i' (q_payment s') = select_rows site' i' (q_payment s)"
    "select_rows site' i' (q_installment s') = select_rows site' i' (q_installment s)"
    "select_rows site' i' (q_debt_payment s') = select_rows site' i' (q_debt_payment s)"
    "select_rows site' i' (q_acc s') = select_rows site' i' (q_acc s)"
    "select_rows site' i' (q_stock s') = select_rows site' i' (q_stock s)"
    "select_rows site' i' (q_tax s') = select_rows site' i' (q_tax s)"
    "select_rows site' i' (q_discount s') = select_rows site' i' (q_discount s)"
    "find (live_of_tx site' i') (q_tx s') = find (live_of_tx site' i') (q_tx s)"
    by (rule select_others [OF _ k] find_others [OF _ k], use t in blast)+
  then show ?thesis
    unfolding tx_load_def tx_children_attach_def load_items_def load_payments_def by (simp only:)
qed

lemma others_product [simp]: "others site i (s\<lparr>q_product := p\<rparr>) = others site i s"
  by (simp add: others_def)

lemma commit_others:
  assumes "tx_put_commit v owner old tx s = Inr (tx', s')"
  shows "others (t_site_iid tx) (t_tx_id tx) s' = others (t_site_iid tx) (t_tx_id tx) s"
proof -
  from assms obtain s1 s2 s3 p where c: "tx_children_del (t_site_iid tx) (t_tx_id tx) s = Inr s1"
    "tx_header_put (v_env v) owner tx (fst (tx_acc_counts tx)) (snd (tx_acc_counts tx)) s1 = Inr s2"
    "tx_children_put (v_env v) tx s2 = Inr (tx', s3)" "s' = s3\<lparr>q_product := p\<rparr>"
    by (rule commit_steps)
  then show ?thesis
    using children_del_kept [OF c(1)] header_put_kept [OF c(2)] children_put_kept [OF c(3)]
    by (simp add: kept_def)
qed

lemma finalize_key [simp]:
  "t_site_iid (tx_finalize ck order tx) = t_site_iid tx" "t_tx_id (tx_finalize ck order tx) = t_tx_id tx"
  "t_state (tx_finalize ck order tx) = t_state tx"
  by (simp_all add: finalize_with_accs with_accs_eq frame)

lemma coerce_update: "\<exists>st items. tx_coerce_sale_without_fulfillment tx = tx\<lparr>t_state := st, t_items := items\<rparr>"
proof -
  have "tx = tx\<lparr>t_state := t_state tx, t_items := t_items tx\<rparr>" by simp
  then show ?thesis unfolding tx_coerce_sale_without_fulfillment_def by metis
qed

text \<open>What is stored is the finalized transaction, up to the fulfillment gate.\<close>

lemma prepare_cases:
  assumes "tx_put_prepare v caller tx (call_start s) = (p, s1)"
  obtains i c st items n where "p = (tx_finalize (p_clock (v_env v)) (v_coa v)
        (tx\<lparr>t_tx_id := i, t_created_by_iid := c\<rparr>))\<lparr>t_state := st, t_items := items\<rparr>"
    and "i = (if t_tx_id tx = 0 then p_ids (v_env v) 0 else t_tx_id tx)"
    and "s1 = s\<lparr>c_tick := 0, c_next := n\<rparr>"
proof -
  let ?i = "if t_tx_id tx = 0 then p_ids (v_env v) 0 else t_tx_id tx"
  from assms obtain c where c: "p = tx_finalize (p_clock (v_env v)) (v_coa v) (tx\<lparr>t_tx_id := ?i, t_created_by_iid := c\<rparr>) \<or>
      p = tx_coerce_sale_without_fulfillment
        (tx_finalize (p_clock (v_env v)) (v_coa v) (tx\<lparr>t_tx_id := ?i, t_created_by_iid := c\<rparr>))"
  proof -
    have same: "tx\<lparr>t_tx_id := j, t_created_by_iid := t_created_by_iid tx\<rparr> = tx\<lparr>t_tx_id := j\<rparr>"
      "tx\<lparr>t_tx_id := t_tx_id tx, t_created_by_iid := d\<rparr> = tx\<lparr>t_created_by_iid := d\<rparr>" for j d by simp_all
    show ?thesis
      using assms that [of caller] that [of "t_created_by_iid tx"]
      by (auto simp: tx_put_prepare_def Let_def snowflake_draw_def call_start_def split: if_splits)
  qed
  have n: "s1 = s\<lparr>c_tick := 0, c_next := c_next s1\<rparr>"
    using assms by (auto simp: tx_put_prepare_def Let_def snowflake_draw_def call_start_def split: if_splits)
  let ?y = "tx_finalize (p_clock (v_env v)) (v_coa v) (tx\<lparr>t_tx_id := ?i, t_created_by_iid := c\<rparr>)"
  have "?y = ?y\<lparr>t_state := t_state ?y, t_items := t_items ?y\<rparr>" by simp
  with c coerce_update [of ?y] have "\<exists>st items. p = ?y\<lparr>t_state := st, t_items := items\<rparr>" by blast
  then show ?thesis using that n by blast
qed

lemma coerce_line_books: "line_books_ok (tx_coerce_sale_without_fulfillment tx) = line_books_ok tx"
proof -
  have i: "item_net (x\<lparr>i_fulfillment_state := f\<rparr>) = item_net x"
    "item_amounts_ok (x\<lparr>i_fulfillment_state := f\<rparr>) = item_amounts_ok x" for x f
    by (simp_all add: item_net_def item_amounts_ok_def item_line_qty_def Let_def)
  show ?thesis
    by (auto simp: tx_coerce_sale_without_fulfillment_def line_books_ok_def debt_alone_def debt_total_of_def debt_paid_of_def
        comp_def i)
qed

lemma prepare_line_books:
  assumes "tx_put_prepare v caller tx s = (p, s1)"
  shows "line_books_ok p"
  using assms by (auto simp: tx_put_prepare_def Let_def split_beta coerce_line_books finalize_line_books split: if_splits)








section \<open>The books of a stored transaction\<close>

definition books_ok :: "Tx \<Rightarrow> bool" where
  "books_ok tx \<longleftrightarrow>
     t_acc_sum tx = acc_total (t_accs tx) \<and> (t_acc_balanced tx \<longleftrightarrow> acc_total (t_accs tx) = 0) \<and>
     t_acc_line_count tx = of_nat (length (t_accs tx)) \<and>
     (\<forall>k \<in> set (t_stocks tx). line_ok k) \<and>
     (\<Sum>k\<leftarrow>t_stocks tx. k_qty_signed k) = t_stock_qty_in tx - t_stock_qty_out tx \<and>
     t_stock_line_count tx = of_nat (length (t_stocks tx)) \<and>
     t_total_taxes tx = (\<Sum>x\<leftarrow>t_taxes tx. x_amount x) \<and>
     t_total_discounts tx = (\<Sum>c\<leftarrow>t_discounts tx. c_amount c) \<and>
     t_total tx = t_items_total tx + t_total_taxes tx - t_total_discounts tx + t_total_interest tx \<and>
     t_total_unpaid tx = smax (t_total tx - t_total_paid tx) 0"

lemma finalize_books: "books_ok (tx_finalize ck order tx)"
proof -
  have "t_stocks (tx_finalize ck order tx) = t_stocks (tx_derive ck (tx_time_ms ck tx) tx)"
    "t_stock_qty_in (tx_finalize ck order tx) = t_stock_qty_in (tx_derive ck (tx_time_ms ck tx) tx)"
    "t_stock_qty_out (tx_finalize ck order tx) = t_stock_qty_out (tx_derive ck (tx_time_ms ck tx) tx)"
    "t_stock_line_count (tx_finalize ck order tx) = t_stock_line_count (tx_derive ck (tx_time_ms ck tx) tx)"
    by (simp_all add: finalize_with_accs with_accs_eq)
  then show ?thesis
    unfolding books_ok_def using finalize_meta [of ck order tx] finalize_totals [of ck order tx]
    by (simp add: tx_derive_def compute_stock_books)
qed

lemma acc_signed_norm [simp]: "acc_signed_amount (acc_json_norm a) = acc_signed_amount a"
  by (auto simp: acc_signed_amount_def acc_json_norm_def unwrap_or_def stored_side_def Let_def split: option.splits)

lemma sum_list_reordered:
  assumes "mset (map g xs) = mset (map h ys)" and "\<And>x. f (g x) = f x"
  shows "(\<Sum>x\<leftarrow>xs. f x) = (\<Sum>y\<leftarrow>ys. f (h y) :: 'a :: comm_monoid_add)"
proof -
  have "(\<Sum>x\<leftarrow>xs. f x) = sum_mset (image_mset f (mset (map g xs)))"
    by (simp add: assms(2) image_mset.compositionality comp_def flip: sum_mset_sum_list)
  also have "\<dots> = sum_mset (image_mset f (mset (map h ys)))" by (simp only: assms(1))
  also have "\<dots> = (\<Sum>y\<leftarrow>ys. f (h y))"
    by (simp add: image_mset.compositionality comp_def flip: sum_mset_sum_list)
  finally show ?thesis .
qed

lemma sum_list_same:
  assumes "map g xs = map g ys" and "\<And>x. f (g x) = f x"
  shows "(\<Sum>x\<leftarrow>xs. f x) = (\<Sum>y\<leftarrow>ys. f y :: 'a :: comm_monoid_add)"
  using sum_list_reordered [of g xs g ys f] assms by simp

lemma acc_signed_kept [simp]:
  "acc_signed_amount (a\<lparr>a_ts_ms := t\<rparr>) = acc_signed_amount a"
  "acc_signed_amount (a\<lparr>a_acc_id := j\<rparr>) = acc_signed_amount a"
  by (simp_all add: acc_signed_amount_def)

text \<open>What a save stores and a load finds differs from the finalized lines in ids and times only.\<close>

lemma reloaded_lines:
  assumes "same_lines p tx'" and "reloaded e time p tx' l"
  shows "acc_total (t_accs l) = acc_total (t_accs p)" and "length (t_accs l) = length (t_accs p)"
    and "(\<Sum>k\<leftarrow>t_stocks l. k_qty_signed k) = (\<Sum>k\<leftarrow>t_stocks p. k_qty_signed k)"
    and "length (t_stocks l) = length (t_stocks p)" and "net_move (t_stocks l) = net_move (t_stocks p)"
    and "(\<Sum>x\<leftarrow>t_taxes l. x_amount x) = (\<Sum>x\<leftarrow>t_taxes p. x_amount x)"
    and "(\<Sum>c\<leftarrow>t_discounts l. c_amount c) = (\<Sum>c\<leftarrow>t_discounts p. c_amount c)"
    and "line_ok ` set (t_stocks l) = line_ok ` set (t_stocks p)"
proof -
  note r = assms(2) [unfolded reloaded_def] and sl = assms(1) [unfolded same_lines_def]
  from r have a: "mset (map (\<lambda>a. a\<lparr>a_ts_ms := 0\<rparr>) (t_accs l)) = mset (map (\<lambda>a. (acc_json_norm a)\<lparr>a_ts_ms := 0\<rparr>) (t_accs tx'))"
    and k: "mset (map (\<lambda>k. k\<lparr>k_ts_ms := 0\<rparr>) (t_stocks l)) = mset (map (\<lambda>k. k\<lparr>k_ts_ms := 0\<rparr>) (t_stocks tx'))"
    and x: "mset (map id (t_taxes l)) = mset (map id (t_taxes tx'))"
    and c: "mset (map id (t_discounts l)) = mset (map id (t_discounts tx'))" by simp_all
  from sl have a': "map (\<lambda>a. a\<lparr>a_acc_id := 0\<rparr>) (t_accs tx') = map (\<lambda>a. a\<lparr>a_acc_id := 0\<rparr>) (t_accs p)"
    and k': "map (\<lambda>k. k\<lparr>k_stock_id := 0\<rparr>) (t_stocks tx') = map (\<lambda>k. k\<lparr>k_stock_id := 0\<rparr>) (t_stocks p)"
    and x': "map (\<lambda>x. x\<lparr>x_tax_id := 0\<rparr>) (t_taxes tx') = map (\<lambda>x. x\<lparr>x_tax_id := 0\<rparr>) (t_taxes p)"
    and c': "map (\<lambda>c. c\<lparr>c_discount_id := 0\<rparr>) (t_discounts tx') = map (\<lambda>c. c\<lparr>c_discount_id := 0\<rparr>) (t_discounts p)"
    by simp_all
  show "acc_total (t_accs l) = acc_total (t_accs p)"
    unfolding acc_total_def
    using sum_list_reordered [OF a, of acc_signed_amount] sum_list_same [OF a', of acc_signed_amount] by simp
  show "length (t_accs l) = length (t_accs p)" "length (t_stocks l) = length (t_stocks p)"
    using a a' k k' by (metis length_map size_mset)+
  show "(\<Sum>k\<leftarrow>t_stocks l. k_qty_signed k) = (\<Sum>k\<leftarrow>t_stocks p. k_qty_signed k)"
    using sum_list_reordered [OF k, of k_qty_signed] sum_list_same [OF k', of k_qty_signed] by simp
  have lm: "line_move q (k\<lparr>k_ts_ms := t\<rparr>) = line_move q k" "line_move q (k\<lparr>k_stock_id := j\<rparr>) = line_move q k" for q k t j
    by (simp_all add: line_move_def stock_signed_def place_zero_def)
  show "net_move (t_stocks l) = net_move (t_stocks p)"
    using sum_list_reordered [OF k, of "line_move _"] sum_list_same [OF k', of "line_move _"]
    by (simp add: fun_eq_iff net_move_def lm)
  show "(\<Sum>x\<leftarrow>t_taxes l. x_amount x) = (\<Sum>x\<leftarrow>t_taxes p. x_amount x)"
    using sum_list_reordered [OF x, of x_amount] sum_list_same [OF x', of x_amount] by simp
  show "(\<Sum>c\<leftarrow>t_discounts l. c_amount c) = (\<Sum>c\<leftarrow>t_discounts p. c_amount c)"
    using sum_list_reordered [OF c, of c_amount] sum_list_same [OF c', of c_amount] by simp
  have ln: "line_ok (k\<lparr>k_ts_ms := t\<rparr>) = line_ok k" "line_ok (k\<lparr>k_stock_id := j\<rparr>) = line_ok k" for k t j
    by (simp_all add: line_ok_def)
  have "line_ok ` set (map (\<lambda>k. k\<lparr>k_ts_ms := 0\<rparr>) (t_stocks l)) = line_ok ` set (map (\<lambda>k. k\<lparr>k_ts_ms := 0\<rparr>) (t_stocks tx'))"
    by (metis k set_mset_mset)
  moreover have "line_ok ` set (map (\<lambda>k. k\<lparr>k_stock_id := 0\<rparr>) (t_stocks tx')) = line_ok ` set (map (\<lambda>k. k\<lparr>k_stock_id := 0\<rparr>) (t_stocks p))"
    by (metis k')
  ultimately show "line_ok ` set (t_stocks l) = line_ok ` set (t_stocks p)"
    by (simp add: image_image ln)
qed

lemma header_field:
  assumes "reloaded e time p tx' l" and "\<And>x. f (header_of x) = f x"
  shows "f l = f (header_norm (timestamp_millis (p_clock e) time) p)"
  by (metis assms reloaded_def)

lemma reloaded_header:
  assumes "reloaded e time p tx' l"
  shows
    "t_site_iid l = t_site_iid p" "t_tx_id l = t_tx_id p" "t_acc_sum l = t_acc_sum p"
    "t_acc_balanced l = t_acc_balanced p" "t_acc_line_count l = t_acc_line_count p" "t_stock_qty_in l = t_stock_qty_in p"
    "t_stock_qty_out l = t_stock_qty_out p" "t_stock_line_count l = t_stock_line_count p" "t_total_taxes l = t_total_taxes p"
    "t_total_discounts l = t_total_discounts p" "t_total l = t_total p" "t_items_total l = t_items_total p"
    "t_total_interest l = t_total_interest p" "t_total_paid l = t_total_paid p" "t_total_unpaid l = t_total_unpaid p"
    "t_state l = TxState_i32 (tx_state (t_state p))"
  using
    header_field [OF assms, of t_site_iid] header_field [OF assms, of t_tx_id] header_field [OF assms, of t_acc_sum]
    header_field [OF assms, of t_acc_balanced] header_field [OF assms, of t_acc_line_count] header_field [OF assms, of t_stock_qty_in]
    header_field [OF assms, of t_stock_qty_out] header_field [OF assms, of t_stock_line_count] header_field [OF assms, of t_total_taxes]
    header_field [OF assms, of t_total_discounts] header_field [OF assms, of t_total] header_field [OF assms, of t_items_total]
    header_field [OF assms, of t_total_interest] header_field [OF assms, of t_total_paid] header_field [OF assms, of t_total_unpaid]
    header_field [OF assms, of t_state]
  by (simp_all add: header_of_def header_norm_def)

lemma reloaded_line_header:
  assumes "reloaded e time p tx' l"
  shows "line_header l = line_header p"
proof -
  have "tx_type (t_type l) = stored_type (tx_type (t_type p))"
    using header_field [OF assms, of t_type] by (simp add: header_of_def header_norm_def tx_type_def)
  then show ?thesis
    using reloaded_header [OF assms] header_field [OF assms, of t_items_count] header_field [OF assms, of t_items_qty]
      header_field [OF assms, of t_debt_paid] header_field [OF assms, of t_debt_total]
      header_field [OF assms, of t_debt_unpaid] header_field [OF assms, of t_is_paid]
    by (simp add: line_header_def header_of_def header_norm_def stored_type_def)
qed

lemma load_line_header:
  assumes "tx_load lo e s site i = Some l" and "tx_load lo' e' s site i = Some l'"
  shows "line_header l' = line_header l"
  using assms by (auto simp: tx_load_def tx_children_attach_def tx_header_from_row_def line_header_def Let_def split: option.splits)

lemma books_reloaded:
  assumes "books_ok p" and "same_lines p tx'" and "reloaded e time p tx' l"
  shows "books_ok l"
proof -
  have "\<forall>k \<in> set (t_stocks l). line_ok k"
    using assms(1) reloaded_lines(8) [OF assms(2,3)] by (auto simp: books_ok_def)
  then show ?thesis
    using assms(1) reloaded_lines [OF assms(2,3)] reloaded_header [OF assms(3)] by (simp add: books_ok_def)
qed

text \<open>A successful save, in one step: the prepared transaction is read back, and nothing else moved.\<close>

lemma tx_put_effect:
  assumes "tx_put v caller (Some tx) out s = (Inr saved, s', pushed)"
  obtains l p tx' time where "saved = Some l" and "pushed = (if out then [l] else [])"
    and "p = fst (tx_put_prepare v caller tx (call_start s))" and "reloaded (v_env v) time p tx' l"
    and "same_lines p tx'" and "tx_load (v_lo v) (v_env v) s' (t_site_iid l) (t_tx_id l) = Some l"
    and "t_site_iid l = t_site_iid tx"
    and "t_tx_id l = (if t_tx_id tx = 0 then p_ids (v_env v) 0 else t_tx_id tx)"
    and "others (t_site_iid l) (t_tx_id l) s' = others (t_site_iid l) (t_tx_id l) s"
    and "books_ok l"
    and "\<forall>lo e' y. lorder_ok lo \<longrightarrow> tx_load lo e' s' (t_site_iid l) (t_tx_id l) = Some y \<longrightarrow>
      lines_saved (v_env v) e' p y \<and> line_books_ok y"
proof -
  from assms obtain owner old p s1 tx' where
    p: "tx_put_prepare v caller tx (call_start s) = (p, s1)" and c: "tx_put_commit v owner old p s1 = Inr (tx', s')"
    and sv: "saved = tx_load (v_lo v) (v_env v) s' (t_site_iid tx) (t_tx_id tx')"
    and ps: "pushed = (if out then (case saved of None \<Rightarrow> [] | Some t \<Rightarrow> [t]) else [])"
    by (rule tx_put_success)
  obtain i c st items n where
    pe: "p = (tx_finalize (p_clock (v_env v)) (v_coa v)
        (tx\<lparr>t_tx_id := i, t_created_by_iid := c\<rparr>))\<lparr>t_state := st, t_items := items\<rparr>"
    and i: "i = (if t_tx_id tx = 0 then p_ids (v_env v) 0 else t_tx_id tx)"
    and s1: "s1 = s\<lparr>c_tick := 0, c_next := n\<rparr>"
    by (rule prepare_cases [OF p])
  have key: "t_site_iid p = t_site_iid tx" "t_tx_id p = i" by (simp_all add: pe)
  have bk: "books_ok p" using finalize_books unfolding pe by (simp add: books_ok_def)
  obtain l time where l: "tx_load (v_lo v) (v_env v) s' (t_site_iid p) (t_tx_id p) = Some l"
    and r: "reloaded (v_env v) time p tx' l" and sl: "same_lines p tx'" and j: "t_tx_id tx' = t_tx_id p"
    using commit_reload [OF c, of "v_lo v"] by blast
  note h = reloaded_header [OF r]
  show ?thesis
  proof (rule that [of l p time tx'])
    show "saved = Some l" using sv l j key by simp
    then show "pushed = (if out then [l] else [])" using ps by simp
    show "p = fst (tx_put_prepare v caller tx (call_start s))" by (simp add: p)
    show "others (t_site_iid l) (t_tx_id l) s' = others (t_site_iid l) (t_tx_id l) s"
      using commit_others [OF c] h by (simp add: s1 others_def)
    show "books_ok l" by (rule books_reloaded [OF bk sl r])
    show "\<forall>lo e' y. lorder_ok lo \<longrightarrow> tx_load lo e' s' (t_site_iid l) (t_tx_id l) = Some y \<longrightarrow>
      lines_saved (v_env v) e' p y \<and> line_books_ok y"
    proof (intro allI impI)
      fix lo e' y
      assume lo: "lorder_ok lo" and y: "tx_load lo e' s' (t_site_iid l) (t_tx_id l) = Some y"
      have ls: "lines_saved (v_env v) e' p y" using commit_lines [OF c lo] y h by simp
      moreover have "line_header y = line_header p"
        using load_line_header [OF l, of lo e' y] y h reloaded_line_header [OF r] by simp
      ultimately show "lines_saved (v_env v) e' p y \<and> line_books_ok y"
        using line_books_saved [OF prepare_line_books [OF p] ls] by simp
    qed
  qed (use r sl l h key i in simp_all)
qed

section \<open>Deleting\<close>

definition tx_pk :: "conn \<Rightarrow> bool" where
  "tx_pk s \<longleftrightarrow> distinct (map (\<lambda>r. (w_site r, w_tx r)) (q_tx s))"

lemma delete_rows_mapped:
  assumes "\<And>r. of_tx site i (f r) = of_tx site i r" and "\<And>r. \<not> of_tx site i r \<Longrightarrow> f r = r"
  shows "delete_rows site i (map f t) = delete_rows site i t"
  using assms by (induction t) (auto simp: delete_rows_def)

lemma soft_delete_others [simp]: "delete_rows site i (soft_delete e site i t) = delete_rows site i t"
  unfolding soft_delete_def by (rule delete_rows_mapped) (auto simp: live_of_tx_def of_tx_def)

lemma distinct_key_unique:
  "distinct (map f xs) \<Longrightarrow> a \<in> set xs \<Longrightarrow> b \<in> set xs \<Longrightarrow> f a = f b \<Longrightarrow> a = b"
  by (induction xs) (auto simp: rev_image_eqI)

lemma tx_delete_effect:
  assumes "tx_delete v caller site i s = (Inr b, s')" and "tx_pk s"
  shows "others site i s' = others site i s" and "q_product s' = q_product s" and "tx_pk s'"
    and "b \<Longrightarrow> tx_load lo e s' site i = None" and "\<not> b \<Longrightarrow> s' = s"
proof -
  obtain owner where o: "tx_owner_resolve (v_access v) caller site True = Inr owner" and i: "\<not> i \<le>s 0"
    using assms(1) by (auto simp: tx_delete_def split: sum.splits if_splits)
  let ?mine = "\<lambda>r :: TxCols row. live_of_tx site i r \<and> h_owner_iid (w_cols r) = owner"
  let ?del = "\<lambda>r. if ?mine r then r\<lparr>w_deleted := Some (p_now (v_env v)), w_updated := p_now (v_env v)\<rparr> else r"
  have nb: "list_ex ?mine (q_tx s)" if b using assms(1) o i that by (auto simp: tx_delete_def Let_def split: if_splits)
  show st: "\<not> b \<Longrightarrow> s' = s" using assms(1) o i by (auto simp: tx_delete_def Let_def split: if_splits)
  have t: "q_tx s' = map ?del (q_tx s)" if b
    using assms(1) o i that by (auto simp: tx_delete_def Let_def split: if_splits)
  have od: "delete_rows site i (map ?del (q_tx s)) = delete_rows site i (q_tx s)"
    by (rule delete_rows_mapped) (auto simp: live_of_tx_def of_tx_def)
  show "others site i s' = others site i s" "q_product s' = q_product s"
    using assms(1) o i od by (auto simp: tx_delete_def Let_def others_def split: if_splits)
  have "map (\<lambda>r. (w_site r, w_tx r)) (map ?del (q_tx s)) = map (\<lambda>r. (w_site r, w_tx r)) (q_tx s)" by simp
  then show "tx_pk s'" using assms(2) t st by (cases b) (simp_all only: tx_pk_def simp_thms)
  show "tx_load lo e s' site i = None" if b
  proof -
    from nb [OF that] obtain r0 where r0: "r0 \<in> set (q_tx s)" "?mine r0" by (auto simp: list_ex_iff)
    have "\<not> live_of_tx site i (?del r)" if "r \<in> set (q_tx s)" for r
    proof (cases "of_tx site i r")
      case True
      then have "r = r0"
        using distinct_key_unique [OF assms(2) [unfolded tx_pk_def] that r0(1)] r0(2)
        by (simp add: live_of_tx_def of_tx_def)
      then show ?thesis using r0(2) by (simp add: live_of_tx_def)
    qed (simp add: live_of_tx_def)
    then have "\<forall>r \<in> set (q_tx s'). \<not> live_of_tx site i r" unfolding t [OF that] set_map by blast
    then have "find (live_of_tx site i) (q_tx s') = None" by (auto simp: find_None_iff)
    then show ?thesis by (simp add: tx_load_def)
  qed
qed

lemma header_put_pk:
  assumes "tx_header_put e owner tx g m s = Inr s'" and "tx_pk s"
  shows "tx_pk s'"
proof -
  define c where "c = header_cols owner (fst (ts_or_now e (t_time_ts_ms tx) s)) g m tx"
  let ?mine = "of_tx (t_site_iid tx) (t_tx_id tx) :: TxCols row \<Rightarrow> bool"
  let ?upd = "\<lambda>q. if ?mine q then q\<lparr>w_updated := p_now e, w_deleted := None, w_cols := c\<rparr> else q"
  have t: "q_tx s' = (if \<exists>q \<in> set (q_tx s). ?mine q then map ?upd (q_tx s)
      else q_tx s @ [new_row e (t_site_iid tx) (t_tx_id tx) c])"
    using assms(1) by (auto simp: tx_header_put_def c_def Let_def split_beta split: if_splits)
  have k: "map (\<lambda>r. (w_site r, w_tx r)) (map ?upd (q_tx s)) = map (\<lambda>r. (w_site r, w_tx r)) (q_tx s)" by simp
  show ?thesis
  proof (cases "\<exists>q \<in> set (q_tx s). ?mine q")
    case True
    with t have "q_tx s' = map ?upd (q_tx s)" by simp
    then show ?thesis using k assms(2) by (simp only: tx_pk_def)
  next
    case False
    with t assms(2) show ?thesis by (auto simp: tx_pk_def new_row_def of_tx_def)
  qed
qed

lemma tx_put_pk:
  assumes "tx_put v caller (Some tx) out s = (Inr saved, s', pushed)" and "tx_pk s"
  shows "tx_pk s'"
proof -
  from assms(1) obtain owner old p s1 tx' where
    p: "tx_put_prepare v caller tx (call_start s) = (p, s1)" and c: "tx_put_commit v owner old p s1 = Inr (tx', s')"
    by (rule tx_put_success)
  from p obtain n where "s1 = s\<lparr>c_tick := 0, c_next := n\<rparr>" by (rule prepare_cases)
  with assms(2) have 1: "tx_pk s1" by (simp add: tx_pk_def)
  from c obtain s2 s3 s4 q where d: "tx_children_del (t_site_iid p) (t_tx_id p) s1 = Inr s2"
    "tx_header_put (v_env v) owner p (fst (tx_acc_counts p)) (snd (tx_acc_counts p)) s2 = Inr s3"
    "tx_children_put (v_env v) p s3 = Inr (tx', s4)" "s' = s4\<lparr>q_product := q\<rparr>"
    by (rule commit_steps)
  have "tx_pk s2" using d(1) 1 by (auto simp: tx_children_del_def tx_pk_def)
  then have "tx_pk s3" by (rule header_put_pk [OF d(2)])
  then show ?thesis using tx_children_put_rows(1) [OF d(3)] d(4) by (simp add: tx_pk_def)
qed

section \<open>Histories of calls\<close>

text \<open>A store of values under keys, whose steps write or remove at most one key. The laws are what
  a client of the handlers may rely on between calls; the lemmas are about any history.\<close>

inductive steps :: "('o \<Rightarrow> 's \<Rightarrow> 's \<Rightarrow> bool) \<Rightarrow> 'o list \<Rightarrow> 's \<Rightarrow> 's \<Rightarrow> bool" for R where
  steps_nil: "steps R [] s s"
| steps_cons: "R x s s' \<Longrightarrow> steps R xs s' s'' \<Longrightarrow> steps R (x # xs) s s''"

inductive_simps steps_Nil_iff [simp]: "steps R [] s s'"
inductive_simps steps_Cons_iff [simp]: "steps R (x # xs) s s'"

definition settle :: "('o \<Rightarrow> ('k \<times> bool) option) \<Rightarrow> 'k \<Rightarrow> 'o \<Rightarrow> bool \<Rightarrow> bool" where
  "settle touches k x p = (case touches x of Some (k', b) \<Rightarrow> if k' = k then b else p | None \<Rightarrow> p)"

locale keyed_store =
  fixes step :: "'o \<Rightarrow> 's \<Rightarrow> 's \<Rightarrow> bool" and inv :: "'s \<Rightarrow> bool" and view :: "'s \<Rightarrow> 'k \<Rightarrow> 'v option"
    and touches :: "'o \<Rightarrow> ('k \<times> bool) option" and good :: "'v \<Rightarrow> bool"
  assumes step_inv: "step x s s' \<Longrightarrow> inv s \<Longrightarrow> inv s'"
    and step_other: "step x s s' \<Longrightarrow> inv s \<Longrightarrow> \<forall>b. touches x \<noteq> Some (k, b) \<Longrightarrow> view s' k = view s k"
    and step_same: "step x s s' \<Longrightarrow> inv s \<Longrightarrow> touches x = Some (k, b) \<Longrightarrow> view s' k \<noteq> None \<longleftrightarrow> b"
    and step_good: "step x s s' \<Longrightarrow> inv s \<Longrightarrow> touches x = Some (k, True) \<Longrightarrow> view s' k = Some y \<Longrightarrow> good y"
begin

lemma run_inv: "steps step xs s s' \<Longrightarrow> inv s \<Longrightarrow> inv s'"
  by (induction rule: steps.induct) (auto intro: step_inv)

lemma run_other:
  "steps step xs s s' \<Longrightarrow> inv s \<Longrightarrow> \<forall>x \<in> set xs. \<forall>b. touches x \<noteq> Some (k, b) \<Longrightarrow> view s' k = view s k"
proof (induction rule: steps.induct)
  case (steps_cons x s s' xs s'')
  then show ?case using step_other [of x s s' k] step_inv [of x s s'] by simp
qed simp

lemma step_settle:
  assumes "step x s s'" and "inv s"
  shows "view s' k \<noteq> None \<longleftrightarrow> settle touches k x (view s k \<noteq> None)"
proof (cases "\<exists>b. touches x = Some (k, b)")
  case True
  then show ?thesis using step_same [OF assms] by (auto simp: settle_def)
next
  case False
  then show ?thesis using step_other [OF assms, of k] by (auto simp: settle_def split: option.splits)
qed

lemma run_presence:
  "steps step xs s s' \<Longrightarrow> inv s \<Longrightarrow> view s' k \<noteq> None \<longleftrightarrow> fold (settle touches k) xs (view s k \<noteq> None)"
proof (induction rule: steps.induct)
  case (steps_cons x s s' xs s'')
  then show ?case using step_settle [of x s s' k] step_inv [of x s s'] by simp
qed simp

lemma run_good:
  assumes "steps step xs s s'" and "inv s" and "\<And>k y. view s k = Some y \<Longrightarrow> good y"
  shows "view s' k = Some y \<Longrightarrow> good y"
  using assms
proof (induction arbitrary: k y rule: steps.induct)
  case (steps_cons x s s' xs s'')
  have "good z" if "view s' j = Some z" for j z
  proof (cases "\<exists>b. touches x = Some (j, b)")
    case True
    then show ?thesis
      using step_same [OF steps_cons.hyps(1) steps_cons.prems(2)] step_good [OF steps_cons.hyps(1) steps_cons.prems(2)] that
      by (metis option.discI)
  next
    case False
    then show ?thesis
      using step_other [OF steps_cons.hyps(1) steps_cons.prems(2)] steps_cons.prems(3) that by metis
  qed
  then show ?case
    using steps_cons.IH steps_cons.prems(1) step_inv [OF steps_cons.hyps(1) steps_cons.prems(2)] by blast
qed simp

end

datatype store_op = Put i64 i64 | Del i64 i64 | Idle

text \<open>A call of a handler, by what it did to the tables. Every call may find its own server state.\<close>

inductive tx_step :: "store_op \<Rightarrow> conn \<Rightarrow> conn \<Rightarrow> bool" where
  step_put: "tx_put v caller (Some tx) out s = (Inr (Some l), s', pushed) \<Longrightarrow> tx_step (Put (t_site_iid l) (t_tx_id l)) s s'"
| step_put_err: "tx_put v caller req out s = (Inl err, s', pushed) \<Longrightarrow> tx_step Idle s s'"
| step_pay: "tx_debt_pay v v' caller site i req out s = (Inr (Some l), s', pushed) \<Longrightarrow>
    tx_step (Put (t_site_iid l) (t_tx_id l)) s s'"
| step_pay_err: "tx_debt_pay v v' caller site i req out s = (Inl err, s', pushed) \<Longrightarrow> tx_step Idle s s'"
| step_del: "tx_delete v caller site i s = (Inr True, s') \<Longrightarrow> tx_step (Del site i) s s'"
| step_del_none: "tx_delete v caller site i s = (Inr False, s') \<Longrightarrow> tx_step Idle s s'"
| step_del_err: "tx_delete v caller site i s = (Inl err, s') \<Longrightarrow> tx_step Idle s s'"

inductive_cases tx_step_PutE: "tx_step (Put site i) s s'"
inductive_cases tx_step_DelE: "tx_step (Del site i) s s'"
inductive_cases tx_step_IdleE: "tx_step Idle s s'"

lemma put_err_state: "tx_put v caller req out s = (Inl err, s', pushed) \<Longrightarrow> s' = s"
  by (auto simp: tx_put_def Let_def split_beta split: option.splits sum.splits if_splits prod.splits)

lemma pay_is_put:
  assumes "tx_debt_pay v v' caller site i req out s = (r, s', pushed)"
  shows "(\<exists>err. r = Inl err \<and> s' = s) \<or> (\<exists>tx. tx_put v' caller (Some tx) out s = (r, s', pushed))"
  using assms
  by (auto simp: tx_debt_pay_def Let_def split_beta split: option.splits sum.splits if_splits prod.splits)

lemma delete_err_state: "tx_delete v caller site i s = (Inl err, s') \<Longrightarrow> s' = s"
  by (auto simp: tx_delete_def Let_def split: sum.splits if_splits)

text \<open>The three shapes of a step.\<close>

lemma step_put_ex:
  assumes "tx_step (Put site i) s s'"
  obtains v caller tx out l pushed where "tx_put v caller (Some tx) out s = (Inr (Some l), s', pushed)"
    and "site = t_site_iid l" and "i = t_tx_id l"
  using assms
proof (rule tx_step_PutE)
  fix v v' caller site' i' req out l pushed
  assume "tx_debt_pay v v' caller site' i' req out s = (Inr (Some l), s', pushed)" "site = t_site_iid l" "i = t_tx_id l"
  then show thesis using pay_is_put [of v v' caller site' i' req out s "Inr (Some l)" s' pushed] that by auto
qed (use that in blast)

lemma step_idle: "tx_step Idle s s' \<Longrightarrow> tx_pk s \<Longrightarrow> s' = s"
  by (erule tx_step_IdleE)
    (blast dest: put_err_state delete_err_state pay_is_put tx_delete_effect(5))+

text \<open>Whether the books are right does not depend on the clock a load reads times with.\<close>

lemma books_any_env:
  assumes "tx_load lo e s site i = Some l" and "tx_load lo' e' s site i = Some l'" and "books_ok l"
  shows "books_ok l'"
proof -
  have 1: "acc_signed_amount (tx_acc_from_row ck r) = acc_signed_amount (tx_acc_from_row ck' r)"
    "k_qty_signed (tx_stock_from_row ck q) = k_qty_signed (tx_stock_from_row ck' q)"
    "line_ok (tx_stock_from_row ck q) = line_ok (tx_stock_from_row ck' q)" for ck ck' r q
    by (simp_all add: acc_signed_amount_def tx_acc_from_row_def tx_stock_from_row_def line_ok_def Let_def)
  obtain row where row: "find (live_of_tx site i) (q_tx s) = Some row"
    using assms(1) by (auto simp: tx_load_def split: option.splits)
  have l: "l = tx_children_attach lo e s site i (tx_header_from_row (p_clock e) row)"
    and l': "l' = tx_children_attach lo' e' s site i (tx_header_from_row (p_clock e') row)"
    using assms(1,2) row by (simp_all add: tx_load_def)
  show ?thesis
    using assms(3)
    by (simp add: l l' books_ok_def tx_children_attach_def tx_header_from_row_def Let_def acc_total_def comp_def
        1(1) [of "p_clock e'" _ "p_clock e"] 1(2) [of "p_clock e'" _ "p_clock e"] 1(3) [of "p_clock e'" _ "p_clock e"])
qed

lemma load_present: "tx_load lo e s site i = None \<longleftrightarrow> tx_load lo' e' s site i = None"
  by (simp add: tx_load_def split: option.splits)

fun op_touches :: "store_op \<Rightarrow> ((i64 \<times> i64) \<times> bool) option" where
  "op_touches (Put site i) = Some ((site, i), True)"
| "op_touches (Del site i) = Some ((site, i), False)"
| "op_touches Idle = None"

lemma tx_step_pk: "tx_step x s s' \<Longrightarrow> tx_pk s \<Longrightarrow> tx_pk s'"
proof (cases x)
  case (Put site i)
  assume "tx_step x s s'" "tx_pk s"
  then show ?thesis using Put by (auto elim!: step_put_ex intro: tx_put_pk)
next
  case (Del site i)
  assume "tx_step x s s'" "tx_pk s"
  then show ?thesis using Del by (auto elim!: tx_step_DelE dest: tx_delete_effect(3))
next
  case Idle
  assume "tx_step x s s'" "tx_pk s"
  then show ?thesis using Idle step_idle by blast
qed

lemma tx_step_other:
  assumes "tx_step x s s'" and "tx_pk s" and "\<forall>b. op_touches x \<noteq> Some ((site, i), b)"
  shows "tx_load lo e s' site i = tx_load lo e s site i"
proof (cases x)
  case (Put site' i')
  from assms(1) [unfolded Put] obtain v caller tx out l pushed where
    p: "tx_put v caller (Some tx) out s = (Inr (Some l), s', pushed)" and k: "site' = t_site_iid l" "i' = t_tx_id l"
    by (rule step_put_ex)
  from p obtain l' where "Some l = Some l'" "others (t_site_iid l') (t_tx_id l') s' = others (t_site_iid l') (t_tx_id l') s"
    by (rule tx_put_effect)
  with k assms(3) Put show ?thesis by (intro load_others [of site' i']) auto
next
  case (Del site' i')
  from assms(1) [unfolded Del] obtain v caller where "tx_delete v caller site' i' s = (Inr True, s')"
    by (rule tx_step_DelE)
  from tx_delete_effect(1) [OF this assms(2)] assms(3) Del show ?thesis by (intro load_others [of site' i']) auto
next
  case Idle
  then show ?thesis using assms step_idle by blast
qed

lemma tx_step_same:
  assumes "tx_step x s s'" and "tx_pk s" and "op_touches x = Some ((site, i), b)"
  shows "(\<exists>l. tx_load lo e s' site i = Some l) \<longleftrightarrow> b"
    and "b \<Longrightarrow> tx_load lo e s' site i = Some y \<Longrightarrow> books_ok y \<and> (lorder_ok lo \<longrightarrow> line_books_ok y)"
proof -
  have del: "tx_load lo e s' site i = None" if "x = Del site i"
    using assms(1,2) that by (auto elim!: tx_step_DelE dest: tx_delete_effect(4))
  have put: "\<exists>l lo e. tx_load lo e s' site i = Some l \<and> books_ok l \<and>
      (\<forall>lo e y. lorder_ok lo \<longrightarrow> tx_load lo e s' site i = Some y \<longrightarrow> line_books_ok y)" if "x = Put site i"
  proof -
    from assms(1) [unfolded that] obtain v caller tx out l pushed where
      p: "tx_put v caller (Some tx) out s = (Inr (Some l), s', pushed)" and k: "site = t_site_iid l" "i = t_tx_id l"
      by (rule step_put_ex)
    from p obtain l' where "Some l = Some l'" "tx_load (v_lo v) (v_env v) s' (t_site_iid l') (t_tx_id l') = Some l'"
      "books_ok l'" "\<forall>lo e y. lorder_ok lo \<longrightarrow> tx_load lo e s' (t_site_iid l') (t_tx_id l') = Some y \<longrightarrow>
        lines_saved (v_env v) e (fst (tx_put_prepare v caller tx (call_start s))) y \<and> line_books_ok y"
      by (rule tx_put_effect) blast
    with k show ?thesis by (intro exI [of _ l] exI [of _ "v_lo v"] exI [of _ "v_env v"]) auto
  qed
  have x: "x = (if b then Put site i else Del site i)" using assms(3) by (cases x) auto
  show "(\<exists>l. tx_load lo e s' site i = Some l) \<longleftrightarrow> b"
  proof (cases b)
    case True
    with x put obtain l lo' e' where "tx_load lo' e' s' site i = Some l" by auto
    then have "tx_load lo e s' site i \<noteq> None" using load_present [of lo e s' site i lo' e'] by simp
    with True show ?thesis by simp
  next
    case False
    with x del show ?thesis by simp
  qed
  show "books_ok y \<and> (lorder_ok lo \<longrightarrow> line_books_ok y)" if b "tx_load lo e s' site i = Some y"
  proof -
    from x that(1) put obtain l lo' e' where l: "tx_load lo' e' s' site i = Some l" "books_ok l"
      and ln: "\<forall>lo e y. lorder_ok lo \<longrightarrow> tx_load lo e s' site i = Some y \<longrightarrow> line_books_ok y" by auto
    show ?thesis using books_any_env [OF l(1) that(2) l(2)] ln that(2) by blast
  qed
qed

interpretation txs: keyed_store tx_step tx_pk "\<lambda>s (site, i). tx_load lo e s site i" op_touches
    "\<lambda>l. books_ok l \<and> (lorder_ok lo \<longrightarrow> line_books_ok l)" for lo e
  using tx_step_pk tx_step_other tx_step_same by unfold_locales (auto, blast+)

section \<open>Properties\<close>


text \<open>Claim C4. A call changes no transaction but its own, and a refused call changes nothing: after any
  call of a saving, paying or deleting handler every other transaction of every site is loaded as
  before.\<close>

theorem tx_step_isolated:
  assumes "tx_step x s s'" and "tx_pk s" and "op_touches x \<noteq> Some ((site, i), True)"
    and "op_touches x \<noteq> Some ((site, i), False)"
  shows "tx_load lo e s' site i = tx_load lo e s site i \<and>
    (x = Idle \<longrightarrow> s' = s)"
proof (intro conjI impI)
  have "\<forall>b. op_touches x \<noteq> Some ((site, i), b)" using assms(3,4) by (metis (full_types))
  then show "tx_load lo e s' site i = tx_load lo e s site i"
    using txs.step_other [OF assms(1,2), of "(site, i)" lo e] by simp
  show "s' = s" if "x = Idle" using assms(1,2) step_idle that by blast
qed

text \<open>The last call on a transaction decides whether it exists: after any history of calls a
  transaction is found exactly when the last call that touched it saved it (or none touched it
  and it was there), and one that no call touched is loaded as it was.\<close>

theorem tx_history:
  assumes "steps tx_step ops s s'" and "tx_pk s"
  shows "(tx_load lo e s' site i \<noteq> None \<longleftrightarrow>
      fold (settle op_touches (site, i)) ops (tx_load lo e s site i \<noteq> None)) \<and>
    ((\<forall>x \<in> set ops. \<forall>b. op_touches x \<noteq> Some ((site, i), b)) \<longrightarrow>
      tx_load lo e s' site i = tx_load lo e s site i)"
  using txs.run_presence [OF assms, of lo e "(site, i)"] txs.run_other [OF assms, of "(site, i)" lo e] by simp

text \<open>Claim C2. The stored books are always right: in every state the handlers reach from empty tables,
  whatever was requested, every transaction a load finds has an account sum, a balanced flag,
  line counts, stock quantities, tax, discount, total and unpaid amounts that agree with its own
  stored lines (\<open>books_ok\<close>); and the count, quantity and total of its items, every item's amounts
  and its reservations, what was paid, the interest and the debt with what is paid on it agree with
  the items, payments and installments the load finds, in whatever order it lists them
  (\<open>line_books_ok\<close>).\<close>

theorem stored_books_ok:
  assumes "steps tx_step ops empty_conn s" and "tx_load lo e s site i = Some l" and "lorder_ok lo"
  shows "books_ok l \<and> line_books_ok l"
proof -
  have "tx_pk empty_conn" by (simp add: tx_pk_def empty_conn_def)
  moreover have "books_ok y \<and> (lorder_ok lo \<longrightarrow> line_books_ok y)"
    if "(case k of (site, i) \<Rightarrow> tx_load lo e empty_conn site i) = Some y" for k y
    using that by (simp add: tx_load_def empty_conn_def split: prod.splits)
  ultimately show ?thesis
    using txs.run_good [OF assms(1), of lo e "(site, i)" l] assms(2,3) by simp
qed

section \<open>Stock\<close>

lemma view_stock_row:
  "product_view p = product_view p' \<Longrightarrow> product_view (stock_row e site d p) = product_view (stock_row e site d p')"
  by (simp add: product_view_def stock_row_def stock_moved_def product_live_def)

lemma pk_view: "map product_view (q_product s') = map product_view (q_product s) \<Longrightarrow> product_pk s \<Longrightarrow> product_pk s'"
proof -
  assume v: "map product_view (q_product s') = map product_view (q_product s)"
  have k: "(\<lambda>p. (pd_site_iid p, pd_product_id p)) = (\<lambda>(a, b, _). (a, b)) \<circ> product_view"
    by (simp add: fun_eq_iff product_view_def)
  show "product_pk s \<Longrightarrow> product_pk s'"
    unfolding product_pk_def k using v by (simp flip: map_map)
qed

lemma map_view_cong:
  assumes "map product_view ps = map product_view qs" and "\<And>p q. product_view p = product_view q \<Longrightarrow> product_view (f p) = product_view (f q)"
  shows "map (product_view \<circ> f) ps = map (product_view \<circ> f) qs"
  using map_eq_imp_length_eq [OF assms(1)] assms(1) by (induction ps qs rule: list_induct2) (auto intro: assms(2))

definition old_lines :: "server \<Rightarrow> conn \<Rightarrow> Tx \<Rightarrow> TxStock list" where
  "old_lines v s tx = (if 0 <s t_tx_id tx then tx_stocks_load (v_lo v) (v_env v) s (t_site_iid tx) (t_tx_id tx) else [])"

lemma commit_apply:
  assumes "tx_put_commit v owner old tx s = Inr (tx', s')"
  obtains s1 s2 s3 where "tx_children_del (t_site_iid tx) (t_tx_id tx) s = Inr s1"
    and "tx_header_put (v_env v) owner tx (fst (tx_acc_counts tx)) (snd (tx_acc_counts tx)) s1 = Inr s2"
    and "tx_children_put (v_env v) tx s2 = Inr (tx', s3)"
    and "(if tx_state (t_state tx') = St_Ok
      then product_stock_apply (v_products v) (v_env v) (t_site_iid tx) old (t_stocks tx') s3 else Inr s3) = Inr s'"
proof -
  have st: "tx_state x = unwrap_or St_Ok (TxState_try_from x)" for x
    by (simp add: tx_state_def unwrap_or_def)
  from assms that show ?thesis
    unfolding tx_put_commit_def Let_def st by (auto simp: split_beta bindE_Inr split: if_splits)
qed

lemma prepare_frame:
  assumes "tx_put_prepare v caller tx (call_start s) = (p, s1)"
  shows "t_site_iid p = t_site_iid tx" and "q_product s1 = q_product s" and "others site j s1 = others site j s"
proof -
  obtain i c st items n where
    "p = (tx_finalize (p_clock (v_env v)) (v_coa v)
        (tx\<lparr>t_tx_id := i, t_created_by_iid := c\<rparr>))\<lparr>t_state := st, t_items := items\<rparr>"
    and "s1 = s\<lparr>c_tick := 0, c_next := n\<rparr>"
    using assms by (rule prepare_cases)
  then show "t_site_iid p = t_site_iid tx" "q_product s1 = q_product s" "others site j s1 = others site j s"
    by (simp_all add: others_def)
qed

lemma tx_put_products:
  assumes "tx_put v caller (Some tx) out s = (Inr (Some l), s', pushed)" and "product_pk s"
    and "permuting (v_products v)"
  shows "map product_view (q_product s') = map (product_view \<circ> stock_row (v_env v) (t_site_iid tx)
      (\<lambda>q. if t_state l = TxState_i32 St_Ok then net_move (t_stocks l) q - net_move (old_lines v s tx) q else 0)) (q_product s)"
proof -
  from assms(1) obtain owner old p s1 tx' where
    p: "tx_put_prepare v caller tx (call_start s) = (p, s1)" and c: "tx_put_commit v owner old p s1 = Inr (tx', s')"
    and sv: "Some l = tx_load (v_lo v) (v_env v) s' (t_site_iid tx) (t_tx_id tx')"
    and old: "old = old_lines v s tx"
    by (rule tx_put_success) (simp add: old_lines_def)
  note site = prepare_frame(1) [OF p] and s1 = prepare_frame(2) [OF p]
  from c obtain s2 s3 s4 where d: "tx_children_del (t_site_iid p) (t_tx_id p) s1 = Inr s2"
    "tx_header_put (v_env v) owner p (fst (tx_acc_counts p)) (snd (tx_acc_counts p)) s2 = Inr s3"
    "tx_children_put (v_env v) p s3 = Inr (tx', s4)"
    and a: "(if tx_state (t_state tx') = St_Ok then product_stock_apply (v_products v) (v_env v) (t_site_iid p) old (t_stocks tx') s4
        else Inr s4) = Inr s'"
    by (rule commit_apply)
  note cs = children_put_same [OF d(3)]
  have v4: "map product_view (q_product s4) = map product_view (q_product s)"
    using children_del_kept [OF d(1)] header_put_kept [OF d(2)] children_put_kept [OF d(3)]
    by (simp add: kept_def s1)
  then have pk4: "product_pk s4" by (rule pk_view [OF _ assms(2)])
  obtain time where r: "reloaded (v_env v) time p tx' l"
    using commit_reload [OF c, of "v_lo v"] sv site cs(3) by auto
  have mv: "net_move (t_stocks l) = net_move (t_stocks tx')"
  proof -
    have lm: "line_move q (k\<lparr>k_stock_id := j\<rparr>) = line_move q k" for q k j
      by (simp add: line_move_def stock_signed_def place_zero_def)
    have "net_move (t_stocks tx') = net_move (t_stocks p)"
      using cs(1) sum_list_same [of "\<lambda>k. k\<lparr>k_stock_id := 0\<rparr>" "t_stocks tx'" "t_stocks p" "line_move _"]
      by (simp add: fun_eq_iff net_move_def lm same_lines_def)
    then show ?thesis using reloaded_lines(5) [OF cs(1) r] by simp
  qed
  have st: "t_state l = TxState_i32 St_Ok \<longleftrightarrow> tx_state (t_state tx') = St_Ok"
    using reloaded_header(16) [OF r] cs(4) st.to_i32_inj [of _ St_Ok] by simp
  show ?thesis
  proof (cases "tx_state (t_state tx') = St_Ok")
    case True
    with a have ap: "product_stock_apply (v_products v) (v_env v) (t_site_iid p) old (t_stocks tx') s4 = Inr s'" by simp
    have "q_product s' = map (stock_row (v_env v) (t_site_iid p) (\<lambda>q. net_move (t_stocks tx') q - net_move old q)) (q_product s4)"
      by (subst stock_apply_Inr [OF ap assms(3) pk4]) simp
    then show ?thesis using True st mv old site map_view_cong [OF v4 view_stock_row] by simp
  next
    case False
    then have "q_product s' = q_product s4" using a by simp
    then show ?thesis using False st v4 by (simp add: stock_row_def stock_moved_def comp_def)
  qed
qed

text \<open>The lines a later save finds move what the stored transaction says they move.\<close>

lemma old_lines_move:
  assumes "tx_load lo e s (t_site_iid tx) (t_tx_id tx) = Some l" and "permuting (lo_stock_scan (v_lo v))"
    and "0 <s t_tx_id tx"
  shows "net_move (old_lines v s tx) = net_move (t_stocks l)"
proof -
  let ?rows = "select_rows (t_site_iid tx) (t_tx_id tx) (q_stock s)"
  have 1: "line_move q (tx_stock_from_row ck r) = line_move q (tx_stock_from_row ck' r)" for q ck ck' r
    by (simp add: line_move_def stock_signed_def place_zero_def tx_stock_from_row_def Let_def)
  have "t_stocks l = map (tx_stock_from_row (p_clock e)) (order_by ck_stock_id ?rows)"
    using assms(1) by (auto simp: tx_load_def tx_children_attach_def split: option.splits)
  moreover have "mset (lo_stock_scan (v_lo v) ?rows) = mset (order_by ck_stock_id ?rows)"
    using assms(2) by (simp add: permuting_def)
  moreover have "mset xs = mset ys \<Longrightarrow> net_move (map (tx_stock_from_row ck) xs) = net_move (map (tx_stock_from_row ck') ys)"
    for xs ys ck ck'
    using sum_list_reordered [of id xs id ys "\<lambda>r. line_move _ (tx_stock_from_row ck r)"]
    by (simp add: fun_eq_iff net_move_def comp_def 1 [of _ ck' _ ck])
  ultimately show ?thesis using assms(3) by (simp add: old_lines_def tx_stocks_load_def)
qed

text \<open>Claim C11. What a save does to stock: when the saved transaction is in state Ok every tracked,
  not reservable product of the site moves by what the transaction's lines move less what the
  lines it had before would have moved; in any other state no stock moves. The key and the flags
  of every product stay.\<close>

theorem tx_put_stock:
  assumes "tx_put v caller (Some tx) out s = (Inr (Some l), s', pushed)" and "product_pk s"
    and "permuting (v_products v)"
  shows "map product_view (q_product s') = map (product_view \<circ> stock_row (v_env v) (t_site_iid tx)
      (\<lambda>q. if t_state l = TxState_i32 St_Ok then net_move (t_stocks l) q - net_move (old_lines v s tx) q else 0)) (q_product s)"
  by (rule tx_put_products [OF assms])

text \<open>Confirming moves no stock: a transaction first saved in a state other than Ok (a draft, a
  pending or an unpaid order) and saved again with the same movements leaves every stock counter
  as it was before the first save, also when the second save puts it in state Ok. The lines of
  the first save count as the old lines of the second although they were never applied.\<close>

theorem confirm_moves_no_stock:
  assumes "tx_put v caller (Some tx) out s = (Inr (Some l), s1, pushed)" and "t_state l \<noteq> TxState_i32 St_Ok"
    and "tx_put w caller' (Some tx2) out' s1 = (Inr (Some l2), s2, pushed')"
    and "t_site_iid tx2 = t_site_iid l" and "t_tx_id tx2 = t_tx_id l" and "0 <s t_tx_id l"
    and "net_move (t_stocks l2) = net_move (t_stocks l)"
    and "product_pk s" and "permuting (v_products v)" and "permuting (v_products w)"
    and "permuting (lo_stock_scan (v_lo w))"
  shows "map pd_stock_qty (q_product s2) = map pd_stock_qty (q_product s)"
proof -
  have q: "pd_stock_qty = (\<lambda>(_, _, _, _, n, _). n) \<circ> product_view" by (simp add: fun_eq_iff product_view_def)
  have id: "stock_row e site (\<lambda>_. 0) = (\<lambda>p. p)" for e site by (simp add: fun_eq_iff stock_row_def stock_moved_def)
  have v1: "map product_view (q_product s1) = map product_view (q_product s)"
    using tx_put_products [OF assms(1,8,9)] assms(2) by (simp add: id comp_def)
  from assms(1) have ld: "tx_load (v_lo v) (v_env v) s1 (t_site_iid tx2) (t_tx_id tx2) = Some l"
    by (rule tx_put_effect) (simp add: assms(4,5))
  have "net_move (old_lines w s1 tx2) = net_move (t_stocks l2)"
    using old_lines_move [OF ld assms(11)] assms(5-7) by simp
  then have "map product_view (q_product s2) = map product_view (q_product s1)"
    using tx_put_products [OF assms(3) pk_view [OF v1 assms(8)] assms(10)] by (simp add: id comp_def cong: if_cong)
  with v1 show ?thesis unfolding q map_map [symmetric] by simp
qed

section \<open>Examples\<close>

definition test_lorder :: lorder where
  "test_lorder = \<lparr> lo_items = id, lo_payments = id, lo_insts = id, lo_source_scan = id, lo_res_scan = id,
     lo_inst_scan = id, lo_dpay_scan = id, lo_stock_scan = id \<rparr>"

definition test_server :: server where
  "test_server = \<lparr> v_env = test_env, v_lo = test_lorder, v_coa = id, v_products = id, v_access = test_access \<rparr>"

definition test_conn :: conn where
  "test_conn = empty_conn\<lparr> q_product := [test_product] \<rparr>"

definition test_put :: "Tx \<Rightarrow> conn \<Rightarrow> (string + Tx option) \<times> conn \<times> Tx list" where
  "test_put tx s = tx_put test_server 50 (Some tx) True s"

definition saved_tx :: "(string + Tx option) \<times> conn \<times> Tx list \<Rightarrow> Tx" where
  "saved_tx r = (case fst r of Inr (Some l) \<Rightarrow> l | _ \<Rightarrow> Tx_default)"

definition is_saved :: "(string + Tx option) \<times> conn \<times> Tx list \<Rightarrow> bool" where
  "is_saved r = (case fst r of Inr (Some l) \<Rightarrow> True | _ \<Rightarrow> False)"

lemma is_savedD: "is_saved r \<Longrightarrow> r = (Inr (Some (saved_tx r)), fst (snd r), snd (snd r))"
  by (cases r) (auto simp: is_saved_def saved_tx_def split: sum.splits option.splits)

definition draft_sale :: Tx where
  "draft_sale = test_sale\<lparr> t_state := TxState_i32 St_Draft \<rparr>"

definition confirm :: "(string + Tx option) \<times> conn \<times> Tx list \<Rightarrow> (string + Tx option) \<times> conn \<times> Tx list" where
  "confirm r = test_put ((saved_tx r)\<lparr> t_state := TxState_i32 St_Ok \<rparr>) (fst (snd r))"

lemma test_put_facts:
  "let r = test_put test_sale empty_conn; l = saved_tx r in is_saved r \<and> t_tx_id l = 1000 \<and> t_site_iid l = 1"
  by code_simp

lemmas test_put_saved = test_put_facts [unfolded Let_def, THEN conjunct1]
lemmas test_put_key = test_put_facts [unfolded Let_def, THEN conjunct2, THEN conjunct1]
  test_put_facts [unfolded Let_def, THEN conjunct2, THEN conjunct2]

lemma test_step: "tx_step (Put 1 1000) empty_conn (fst (snd (test_put test_sale empty_conn)))"
  using step_put [OF is_savedD [OF test_put_saved, unfolded test_put_def], folded test_put_def] test_put_key by simp

lemma empty_pk: "tx_pk empty_conn" "product_pk test_conn"
  by (simp_all add: tx_pk_def product_pk_def empty_conn_def test_conn_def)

lemma draft_facts:
  "let r = test_put draft_sale test_conn; r2 = confirm r; l = saved_tx r; l2 = saved_tx r2
   in is_saved r \<and> is_saved r2 \<and> t_state l \<noteq> TxState_i32 St_Ok \<and> t_state l2 = TxState_i32 St_Ok \<and> 0 <s t_tx_id l \<and>
     map (\<lambda>k. k\<lparr>k_stock_id := 0\<rparr>) (t_stocks l2) = map (\<lambda>k. k\<lparr>k_stock_id := 0\<rparr>) (t_stocks l) \<and>
     net_move (t_stocks l2) 100 = - 2"
  by code_simp

lemma draft_saved:
  "is_saved (test_put draft_sale test_conn)" "is_saved (confirm (test_put draft_sale test_conn))"
  "t_state (saved_tx (test_put draft_sale test_conn)) \<noteq> TxState_i32 St_Ok"
  "t_state (saved_tx (confirm (test_put draft_sale test_conn))) = TxState_i32 St_Ok"
  "0 <s t_tx_id (saved_tx (test_put draft_sale test_conn))"
  "map (\<lambda>k. k\<lparr>k_stock_id := 0\<rparr>) (t_stocks (saved_tx (confirm (test_put draft_sale test_conn)))) =
   map (\<lambda>k. k\<lparr>k_stock_id := 0\<rparr>) (t_stocks (saved_tx (test_put draft_sale test_conn)))"
  "net_move (t_stocks (saved_tx (confirm (test_put draft_sale test_conn)))) 100 = - 2"
  using draft_facts unfolding Let_def by blast+

lemma net_move_ids:
  "map (\<lambda>k. k\<lparr>k_stock_id := 0\<rparr>) xs = map (\<lambda>k. k\<lparr>k_stock_id := 0\<rparr>) ys \<Longrightarrow> net_move xs = net_move ys"
proof -
  have lm: "line_move q (k\<lparr>k_stock_id := j\<rparr>) = line_move q k" for q k j
    by (simp add: line_move_def stock_signed_def place_zero_def)
  show "map (\<lambda>k. k\<lparr>k_stock_id := 0\<rparr>) xs = map (\<lambda>k. k\<lparr>k_stock_id := 0\<rparr>) ys \<Longrightarrow> net_move xs = net_move ys"
    using sum_list_same [of "\<lambda>k. k\<lparr>k_stock_id := 0\<rparr>" xs ys "line_move _"] by (simp add: fun_eq_iff net_move_def lm)
qed

text \<open>A sale on credit with a reserved item: every kind of nested line is stored and found.\<close>

definition booked_sale :: Tx where
  "booked_sale = test_sale\<lparr>
     t_items := [TxItem_default\<lparr> i_product_id := 100, i_price := 5000, i_qty := 2,
       i_sources := [TxItemSource_default\<lparr> s_product_id := 7, s_qty := 3 \<rparr>],
       i_reservations := [TxItemReservation_default\<lparr> r_product_id := 100, r_qty := 1, r_duration_qty := 3 \<rparr>] \<rparr>],
     t_payments := [TxPayment_default\<lparr> p_method := TxPaymentMethod_i32 Pm_Debt, p_amount := 15000,
       p_installments := [TxInstallment_default\<lparr> n_amount := 15000,
         n_debt_payments := [TxDebtPayment_default\<lparr> d_method := 1, d_amount := 4000 \<rparr>] \<rparr>] \<rparr>] \<rparr>"

lemma booked_facts:
  "let r = test_put booked_sale empty_conn; l = saved_tx r in is_saved r \<and> t_tx_id l = 1000 \<and> t_site_iid l = 1 \<and>
     map (\<lambda>x. (map s_qty (i_sources x), map r_duration_qty (i_reservations x), i_total_price x)) (t_items l) =
       [([3], [3], 15000)] \<and>
     map (\<lambda>p. map (\<lambda>n. (n_amount n, map d_amount (n_debt_payments n))) (p_installments p)) (t_payments l) =
       [[(15000, [4000])]] \<and> t_debt_unpaid l = 11000"
  by code_simp

lemmas booked_saved = booked_facts [unfolded Let_def, THEN conjunct1]
lemmas booked_lines = booked_facts [unfolded Let_def, THEN conjunct2]

lemma booked_step: "tx_step (Put 1 1000) empty_conn (fst (snd (test_put booked_sale empty_conn)))"
  using step_put [OF is_savedD [OF booked_saved, unfolded test_put_def], folded test_put_def] booked_lines by simp

lemma test_lorder_ok: "lorder_ok test_lorder"
  by (simp add: lorder_ok_def test_lorder_def permuting_def)


theorem tx_step_isolated_witness:
  "\<exists>s'. tx_step (Put 1 1000) empty_conn s' \<and> tx_pk empty_conn \<and>
     tx_load test_lorder test_env s' 1 1001 = tx_load test_lorder test_env empty_conn 1 1001"
  using test_step empty_pk(1) tx_step_isolated [OF test_step empty_pk(1), of 1 1001 test_lorder test_env] by auto

theorem tx_history_witness:
  "\<exists>s'. steps tx_step [Put 1 1000] empty_conn s' \<and> tx_pk empty_conn \<and>
     tx_load test_lorder test_env s' 1 1000 \<noteq> None \<and> tx_load test_lorder test_env s' 2 1000 = None"
proof -
  let ?s = "fst (snd (test_put test_sale empty_conn))"
  have st: "steps tx_step [Put 1 1000] empty_conn ?s" using test_step by simp
  have n: "tx_load test_lorder test_env empty_conn 2 1000 = None" by code_simp
  show ?thesis
    using st empty_pk(1) n tx_history [OF st empty_pk(1), of test_lorder test_env 1 1000]
      tx_history [OF st empty_pk(1), of test_lorder test_env 2 1000]
    by (intro exI [of _ ?s]) (simp add: settle_def)
qed

theorem stored_books_ok_witness:
  "\<exists>s l. steps tx_step [Put 1 1000] empty_conn s \<and> tx_load test_lorder test_env s 1 1000 = Some l \<and>
     lorder_ok test_lorder \<and> books_ok l \<and> line_books_ok l"
proof -
  let ?s = "fst (snd (test_put booked_sale empty_conn))"
  have st: "steps tx_step [Put 1 1000] empty_conn ?s" using booked_step by simp
  have "\<exists>l. tx_load test_lorder test_env ?s 1 1000 = Some l"
    using txs.step_same [OF booked_step empty_pk(1), of "(1, 1000)" True test_lorder test_env] by auto
  then obtain l where l: "tx_load test_lorder test_env ?s 1 1000 = Some l" ..
  show ?thesis using st l test_lorder_ok stored_books_ok [OF st l test_lorder_ok] by blast
qed

theorem tx_put_stock_witness:
  "\<exists>s' l pushed. tx_put test_server 50 (Some draft_sale) True test_conn = (Inr (Some l), s', pushed) \<and>
     product_pk test_conn \<and> permuting (v_products test_server) \<and> t_state l \<noteq> TxState_i32 St_Ok \<and>
     map product_view (q_product s') = map product_view [test_product]"
proof -
  let ?r = "test_put draft_sale test_conn"
  have pm: "permuting (v_products test_server)" by (simp add: test_server_def permuting_def)
  have id: "stock_row e site (\<lambda>_. 0) = (\<lambda>p. p)" for e site by (simp add: fun_eq_iff stock_row_def stock_moved_def)
  note r = is_savedD [OF draft_saved(1)]
  have "map product_view (q_product (fst (snd ?r))) = map product_view [test_product]"
    using tx_put_stock [OF r [unfolded test_put_def] empty_pk(2) pm, folded test_put_def] draft_saved(3)
    by (simp add: id comp_def test_conn_def)
  with r pm empty_pk(2) draft_saved(3) show ?thesis by (metis test_put_def)
qed

theorem confirm_moves_no_stock_witness:
  "\<exists>l s1 p1 l2 s2 p2. tx_put test_server 50 (Some draft_sale) True test_conn = (Inr (Some l), s1, p1) \<and>
     tx_put test_server 50 (Some (l\<lparr>t_state := TxState_i32 St_Ok\<rparr>)) True s1 = (Inr (Some l2), s2, p2) \<and>
     t_state l2 = TxState_i32 St_Ok \<and> net_move (t_stocks l2) 100 = - 2 \<and>
     map pd_stock_qty (q_product s2) = [10] \<and> map pd_stock_qty (q_product test_conn) = [10]"
proof -
  let ?r = "test_put draft_sale test_conn" and ?r2 = "confirm (test_put draft_sale test_conn)"
  have pm: "permuting (v_products test_server)" "permuting (lo_stock_scan (v_lo test_server))"
    by (simp_all add: test_server_def test_lorder_def permuting_def)
  note r = is_savedD [OF draft_saved(1)] and r2 = is_savedD [OF draft_saved(2)]
  note p1 = r [unfolded test_put_def, folded test_put_def]
  have q: "map pd_stock_qty (q_product test_conn) = [10]" by code_simp
  have t1: "tx_put test_server 50 (Some draft_sale) True test_conn = (Inr (Some (saved_tx ?r)), fst (snd ?r), snd (snd ?r))"
    using r by (simp add: test_put_def)
  have t2: "tx_put test_server 50 (Some ((saved_tx ?r)\<lparr>t_state := TxState_i32 St_Ok\<rparr>)) True (fst (snd ?r)) =
      (Inr (Some (saved_tx ?r2)), fst (snd ?r2), snd (snd ?r2))"
    using r2 unfolding confirm_def test_put_def by simp
  have "map pd_stock_qty (q_product (fst (snd ?r2))) = map pd_stock_qty (q_product test_conn)"
    by (rule confirm_moves_no_stock [OF t1 draft_saved(3) t2 _ _ draft_saved(5) net_move_ids [OF draft_saved(6)]
          empty_pk(2) pm(1) pm(1) pm(2)]) simp_all
  with t1 t2 draft_saved(4,7) q show ?thesis by metis
qed

end
