(* ===== verification/Tx_Queries.thy ===== *)
theory Tx_Queries
  imports Tx_Store
begin

text \<open>
  Laws of the listing and paying handlers of \<open>Tx_Ops\<close>: the pages of \<open>tx_list\<close> and where a debt
  payment goes.
\<close>

section \<open>Pages\<close>

definition list_rows :: "(string \<Rightarrow> string \<Rightarrow> bool) \<Rightarrow> penv \<Rightarrow> ReqTxList \<Rightarrow> conn \<Rightarrow> TxCols row list" where
  "list_rows ilike e req s = sort_key (\<lambda>r. sint (w_tx r)) (filter (tx_list_where ilike e req) (q_tx s))"

lemma tx_list_rows:
  assumes "tx_list ilike v caller req s = Inr page"
  shows "page = map (tx_header_from_row (p_clock (v_env v))) (take (unat (tx_list_limit req)) (list_rows ilike (v_env v) req s))"
  using assms by (auto simp: tx_list_def list_rows_def split: sum.splits)

lemma tx_list_limit_bounds: "1 \<le> unat (tx_list_limit req) \<and> unat (tx_list_limit req) \<le> 200"
proof -
  have "unat x = nat (sint x)" if "0 \<le> sint x" for x :: i32
  proof -
    have "uint x = uint (word_of_int (sint x) :: i32)" by simp
    also have "\<dots> = sint x"
      using that sint_lt [of x] by (simp only: uint_word_of_int take_bit_eq_mod) (simp add: mod_pos_pos_trivial)
    finally show ?thesis by (simp add: unat_eq_nat_uint)
  qed
  then show ?thesis
    by (auto simp: tx_list_limit_def word_sless_alt min_def)
qed

lemma list_rows_mem: "r \<in> set (list_rows ilike e req s) \<longleftrightarrow> r \<in> set (q_tx s) \<and> tx_list_where ilike e req r"
  by (auto simp: list_rows_def)

lemma header_id [simp]: "t_tx_id (tx_header_from_row ck r) = w_tx r" "t_site_iid (tx_header_from_row ck r) = w_site r"
  by (simp_all add: tx_header_from_row_def Let_def)

lemma list_rows_strict:
  assumes "tx_pk s"
  shows "sorted_wrt (\<lambda>a b. sint (w_tx a) < sint (w_tx b)) (list_rows ilike e req s)"
proof -
  let ?f = "filter (tx_list_where ilike e req) (q_tx s)"
  have "distinct (map (\<lambda>r. (w_site r, w_tx r)) ?f)"
    using assms by (simp add: tx_pk_def distinct_map_filter)
  then have "inj_on (\<lambda>r. (w_site r, w_tx r)) (set ?f)" "distinct ?f" by (auto simp: distinct_map)
  moreover have "w_site r = rl_site_iid req" if "r \<in> set ?f" for r using that by (simp add: tx_list_where_def Let_def)
  ultimately have "inj_on (\<lambda>r. sint (w_tx r)) (set ?f)"
    by (auto simp: inj_on_def signed_word_eqI)
  then have "distinct (map (\<lambda>r. sint (w_tx r)) (list_rows ilike e req s))"
    using \<open>distinct ?f\<close> by (simp add: list_rows_def distinct_map)
  then have "sorted_wrt (<) (map (\<lambda>r. sint (w_tx r)) (list_rows ilike e req s))"
    by (simp add: strict_sorted_iff list_rows_def)
  then show ?thesis by (simp add: sorted_wrt_map)
qed

lemma filter_after:
  assumes "sorted_wrt (\<lambda>a b. f a < f b) xs" and "k < length xs"
  shows "filter (\<lambda>x. f (xs ! k) < (f x :: 'b :: linorder)) xs = drop (Suc k) xs"
proof -
  have "filter (\<lambda>x. f (xs ! k) < f x) (take (Suc k) xs) = []"
  proof (rule filter_False, rule ballI)
    fix x assume "x \<in> set (take (Suc k) xs)"
    then obtain j where "j \<le> k" "x = xs ! j" using assms(2) by (auto simp: in_set_conv_nth less_Suc_eq_le)
    then show "\<not> f (xs ! k) < f x" using sorted_wrt_nth_less [OF assms(1), of j k] assms(2) by (cases "j = k") auto
  qed
  moreover have "filter (\<lambda>x. f (xs ! k) < f x) (drop (Suc k) xs) = drop (Suc k) xs"
  proof (rule filter_True, rule ballI)
    fix x assume "x \<in> set (drop (Suc k) xs)"
    then obtain j where "j < length (drop (Suc k) xs)" "x = drop (Suc k) xs ! j" by (auto simp only: in_set_conv_nth)
    then show "f (xs ! k) < f x" using sorted_wrt_nth_less [OF assms(1), of k "Suc k + j"] by simp
  qed
  ultimately show ?thesis by (metis append_Nil append_take_drop_id filter_append)
qed

lemma where_cursor:
  "tx_list_where ilike e req r \<longleftrightarrow> tx_list_where ilike e (req\<lparr>rl_after_tx_id := 0\<rparr>) r \<and>
     (\<not> 0 <s rl_after_tx_id req \<or> rl_after_tx_id req <s w_tx r)"
  by (simp add: tx_list_where_def Let_def)

lemma list_rows_after:
  assumes "0 <s c" and "0 <s rl_after_tx_id req \<Longrightarrow> rl_after_tx_id req \<le>s c"
  shows "list_rows ilike e (req\<lparr>rl_after_tx_id := c\<rparr>) s =
    filter (\<lambda>r. sint c < sint (w_tx r)) (list_rows ilike e req s)"
proof -
  have "tx_list_where ilike e (req\<lparr>rl_after_tx_id := c\<rparr>) r \<longleftrightarrow> tx_list_where ilike e req r \<and> sint c < sint (w_tx r)" for r
    using assms unfolding where_cursor [of _ _ req] where_cursor [of _ _ "req\<lparr>rl_after_tx_id := c\<rparr>"]
    by (auto simp: word_sless_alt word_sle_eq)
  then have "tx_list_where ilike e (req\<lparr>rl_after_tx_id := c\<rparr>) = (\<lambda>r. tx_list_where ilike e req r \<and> sint c < sint (w_tx r))"
    by (rule ext)
  then have "filter (tx_list_where ilike e (req\<lparr>rl_after_tx_id := c\<rparr>)) (q_tx s) =
      filter (\<lambda>r. sint c < sint (w_tx r)) (filter (tx_list_where ilike e req) (q_tx s))"
    by (simp add: conj_commute)
  then show ?thesis by (simp add: list_rows_def filter_sort)
qed

text \<open>A page of \<open>tx_list\<close>: at most two hundred headers, in strictly increasing order of id, each of
  a live transaction of the requested site that passes every filter of the request and lies after
  its cursor; and no such transaction is left out between two that are listed, or at all when
  fewer than the limit match.\<close>

theorem tx_list_page:
  assumes "tx_list ilike v caller req s = Inr page" and "tx_pk s"
  shows "length page \<le> 200 \<and> sorted_wrt (\<lambda>a b. sint (t_tx_id a) < sint (t_tx_id b)) page \<and>
    (\<forall>t \<in> set page. \<exists>r \<in> set (q_tx s). t = tx_header_from_row (p_clock (v_env v)) r \<and> w_site r = rl_site_iid req \<and>
       w_deleted r = None \<and> tx_list_where ilike (v_env v) req r) \<and>
    (\<forall>r \<in> set (q_tx s). tx_list_where ilike (v_env v) req r \<longrightarrow>
       tx_header_from_row (p_clock (v_env v)) r \<in> set page \<or>
       length page = unat (tx_list_limit req) \<and> (\<forall>t \<in> set page. sint (t_tx_id t) < sint (w_tx r)))"
proof -
  let ?F = "list_rows ilike (v_env v) req s" and ?n = "unat (tx_list_limit req)"
  note page = tx_list_rows [OF assms(1)] and st = list_rows_strict [OF assms(2), of ilike "v_env v" req]
  have len: "length page = min (length ?F) ?n" by (simp add: page)
  have "sorted_wrt (\<lambda>a b. sint (w_tx a) < sint (w_tx b)) (take ?n ?F)"
    using st by (metis append_take_drop_id sorted_wrt_append)
  then have so: "sorted_wrt (\<lambda>a b. sint (t_tx_id a) < sint (t_tx_id b)) page" by (simp add: page sorted_wrt_map)
  have sound: "\<exists>r \<in> set (q_tx s). t = tx_header_from_row (p_clock (v_env v)) r \<and> w_site r = rl_site_iid req \<and>
       w_deleted r = None \<and> tx_list_where ilike (v_env v) req r" if "t \<in> set page" for t
  proof -
    obtain r where r: "r \<in> set ?F" "t = tx_header_from_row (p_clock (v_env v)) r"
      using \<open>t \<in> set page\<close> by (auto simp: page dest: in_set_takeD)
    then have "tx_list_where ilike (v_env v) req r" "r \<in> set (q_tx s)" by (simp_all add: list_rows_mem)
    moreover from this have "w_site r = rl_site_iid req" "w_deleted r = None" by (simp_all add: tx_list_where_def Let_def)
    ultimately show ?thesis using r(2) by blast
  qed
  have complete: "tx_header_from_row (p_clock (v_env v)) r \<in> set page \<or>
      length page = ?n \<and> (\<forall>t \<in> set page. sint (t_tx_id t) < sint (w_tx r))"
    if "r \<in> set (q_tx s)" "tx_list_where ilike (v_env v) req r" for r
  proof (cases "r \<in> set (take ?n ?F)")
    case True
    then show ?thesis by (auto simp: page)
  next
    case False
    have "r \<in> set ?F" using that by (simp add: list_rows_mem)
    then have d: "r \<in> set (drop ?n ?F)" using False by (metis Un_iff append_take_drop_id set_append)
    then have "length page = ?n" by (cases "length ?F \<le> ?n") (auto simp: len)
    moreover have "\<forall>a \<in> set (take ?n ?F). sint (w_tx a) < sint (w_tx r)"
      using st d by (metis append_take_drop_id sorted_wrt_append)
    ultimately show ?thesis by (auto simp: page)
  qed
  show ?thesis using so sound complete len tx_list_limit_bounds [of req] by auto
qed

text \<open>Following the cursor loses and repeats nothing: the page after the last id of a page continues
  the list of matching transactions exactly where that page ended.\<close>

theorem tx_list_pages:
  assumes "tx_list ilike v caller req s = Inr page" and "tx_pk s" and "page \<noteq> []" and "0 <s t_tx_id (last page)"
    and "tx_list ilike v caller (req\<lparr>rl_after_tx_id := t_tx_id (last page)\<rparr>) s = Inr page2"
  shows "page @ page2 = map (tx_header_from_row (p_clock (v_env v)))
    (take (length page + unat (tx_list_limit req)) (list_rows ilike (v_env v) req s))"
proof -
  let ?F = "list_rows ilike (v_env v) req s" and ?n = "unat (tx_list_limit req)"
  note page = tx_list_rows [OF assms(1)] and st = list_rows_strict [OF assms(2), of ilike "v_env v" req]
  define k where "k = length page - 1"
  have len: "length page = min (length ?F) ?n" by (simp add: page)
  have k: "k < length ?F" "length page = Suc k"
    using assms(3) len by (auto simp: k_def simp flip: length_greater_0_conv)
  then have "take ?n ?F = take (Suc k) ?F" using len by (cases "?n \<le> length ?F") auto
  note k = k this
  have last: "t_tx_id (last page) = w_tx (?F ! k)"
  proof -
    have "last page = page ! k" using assms(3) by (simp add: last_conv_nth k_def)
    also have "\<dots> = tx_header_from_row (p_clock (v_env v)) (take (Suc k) ?F ! k)" using k by (subst page) simp
    finally show ?thesis by simp
  qed
  have "?F ! k \<in> set ?F" using k(1) by simp
  then have "tx_list_where ilike (v_env v) req (?F ! k)" by (simp add: list_rows_mem)
  then have "0 <s rl_after_tx_id req \<Longrightarrow> rl_after_tx_id req \<le>s w_tx (?F ! k)"
    unfolding where_cursor [of _ _ req] by (simp add: word_sless_alt word_sle_eq)
  then have "list_rows ilike (v_env v) (req\<lparr>rl_after_tx_id := t_tx_id (last page)\<rparr>) s = drop (Suc k) ?F"
    using list_rows_after [of "w_tx (?F ! k)" req] assms(4) filter_after [OF st k(1)] by (simp add: last)
  moreover have "tx_list_limit (req\<lparr>rl_after_tx_id := t_tx_id (last page)\<rparr>) = tx_list_limit req" by (simp add: tx_list_limit_def)
  ultimately have "page2 = map (tx_header_from_row (p_clock (v_env v))) (take ?n (drop (Suc k) ?F))"
    using tx_list_rows [OF assms(5)] by simp
  moreover have "page = map (tx_header_from_row (p_clock (v_env v))) (take (Suc k) ?F)" using page k(3) by simp
  ultimately show ?thesis unfolding k(2) take_add map_append by (simp only:)
qed

section \<open>Debt payments\<close>

definition left_of :: "TxInstallment \<Rightarrow> i64" where
  "left_of inst = n_amount inst - inst_paid inst"

definition open_inst :: "TxInstallment \<Rightarrow> bool" where
  "open_inst inst \<longleftrightarrow> 0 <s left_of inst"

text \<open>The installments of a transaction's debts, in the order of its payments.\<close>

definition debts :: "TxPayment list \<Rightarrow> TxInstallment list" where
  "debts ps = concat (map p_installments (filter is_debt ps))"

definition paid_one :: "TxDebtPayment \<Rightarrow> TxInstallment list \<Rightarrow> TxInstallment list \<Rightarrow> bool" where
  "paid_one payment xs ys \<longleftrightarrow> (\<exists>pre inst post dp. xs = pre @ inst # post \<and> (\<forall>x \<in> set pre. \<not> open_inst x) \<and> open_inst inst \<and>
     ys = pre @ inst\<lparr>n_debt_payments := n_debt_payments inst @ [dp]\<rparr> # post \<and>
     dp\<lparr>d_amount := d_amount payment, d_pay_id := d_pay_id payment\<rparr> = payment \<and>
     d_amount dp = smin (d_amount payment) (left_of inst))"

lemma paid_one_append:
  assumes "paid_one payment xs ys" and "\<forall>x \<in> set as. \<not> open_inst x"
  shows "paid_one payment (as @ xs @ bs) (as @ ys @ bs)"
proof -
  from assms(1) obtain pre inst post dp where "xs = pre @ inst # post" "\<forall>x \<in> set pre. \<not> open_inst x" "open_inst inst"
    "ys = pre @ inst\<lparr>n_debt_payments := n_debt_payments inst @ [dp]\<rparr> # post"
    "dp\<lparr>d_amount := d_amount payment, d_pay_id := d_pay_id payment\<rparr> = payment"
    "d_amount dp = smin (d_amount payment) (left_of inst)" unfolding paid_one_def by blast
  then show ?thesis unfolding paid_one_def
    using assms(2) by (intro exI [of _ "as @ pre"] exI [of _ inst] exI [of _ "post @ bs"] exI [of _ dp]) auto
qed

lemma pay_installments_spec:
  "case pay_installments e payment xs s of
     Inl err \<Rightarrow> err = ''amount required'' \<and> d_amount payment \<le>s 0 \<and> list_ex open_inst xs
   | Inr (b, ys, s') \<Rightarrow> if b then paid_one payment xs ys \<and> 0 <s d_amount payment else ys = xs \<and> s' = s \<and> \<not> list_ex open_inst xs"
proof (induction xs)
  case (Cons x xs)
  consider "\<not> open_inst x" | "open_inst x" "0 <s d_amount payment" | "open_inst x" "d_amount payment \<le>s 0"
    by (cases "0 <s d_amount payment"; cases "open_inst x") (auto simp: word_sle_eq word_sless_alt)
  then show ?case
  proof cases
    case 1
    then have "n_amount x - inst_paid x \<le>s 0" by (simp add: open_inst_def left_of_def word_sle_eq word_sless_alt)
    then show ?thesis
      using Cons 1 paid_one_append [of payment xs _ "[x]" "[]"]
      by (auto simp: Let_def bindE_def split: sum.splits prod.splits if_splits)
  next
    case 2
    then have r: "\<not> n_amount x - inst_paid x \<le>s 0" by (simp add: open_inst_def left_of_def word_sle_eq word_sless_alt)
    define dp where "dp = (let dp = payment\<lparr>d_amount := smin (d_amount payment) (left_of x)\<rparr>
        in if d_pay_id dp = 0 then dp\<lparr>d_pay_id := p_ids e (c_next s)\<rparr> else dp)"
    have "paid_one payment (x # xs) (x\<lparr>n_debt_payments := n_debt_payments x @ [dp]\<rparr> # xs)"
      unfolding paid_one_def using 2
      by (intro exI [of _ "[]"] exI [of _ x] exI [of _ xs] exI [of _ dp]) (auto simp: dp_def Let_def)
    then show ?thesis
      using r 2(2) by (auto simp: Let_def snowflake_draw_def dp_def left_of_def)
  next
    case 3
    then show ?thesis by (auto simp: open_inst_def left_of_def word_sle_eq word_sless_alt)
  qed
qed simp

lemma debt_method: "tx_payment_method (p_method p) \<noteq> Pm_Debt \<longleftrightarrow> \<not> is_debt p"
  by (simp add: is_debt_def)

lemma is_debt_installments [simp]: "is_debt (p\<lparr>p_installments := x\<rparr>) = is_debt p"
  by (simp add: is_debt_def)

lemma pay_payments_spec:
  "case pay_payments e payment ps s of
     Inl err \<Rightarrow> err = ''amount required'' \<and> d_amount payment \<le>s 0 \<and> list_ex open_inst (debts ps)
   | Inr (b, qs, s') \<Rightarrow> map (\<lambda>p. p\<lparr>p_installments := []\<rparr>) qs = map (\<lambda>p. p\<lparr>p_installments := []\<rparr>) ps \<and>
       (if b then paid_one payment (debts ps) (debts qs) \<and> 0 <s d_amount payment else qs = ps \<and> s' = s \<and> \<not> list_ex open_inst (debts ps))"
proof (induction ps)
  case (Cons p ps)
  show ?case
  proof (cases "is_debt p")
    case False
    then show ?thesis using Cons by (auto simp: debt_method debts_def bindE_def split: sum.splits prod.splits if_splits)
  next
    case True
    note d = pay_installments_spec [where e = e and payment = payment and xs = "p_installments p" and s = s]
    show ?thesis
    proof (cases "pay_installments e payment (p_installments p) s")
      case (Inl err)
      then show ?thesis using True d by (simp add: is_debt_def debts_def)
    next
      case (Inr r)
      obtain b ys s1 where r: "r = (b, ys, s1)" by (rule prod_cases3)
      show ?thesis
      proof (cases b)
        case b: True
        then have "paid_one payment (p_installments p) ys" "0 <s d_amount payment" using d Inr r by auto
        then show ?thesis
          using True Inr r b paid_one_append [of payment "p_installments p" ys "[]" "debts ps"]
          by (simp add: is_debt_def debts_def)
      next
        case b: False
        then have "ys = p_installments p" "s1 = s" "\<not> list_ex open_inst (p_installments p)" using d Inr r by auto
        then show ?thesis
          using True Inr r b Cons paid_one_append [of payment "debts ps" _ "p_installments p" "[]"]
          by (auto simp: is_debt_def debts_def bindE_def list_ex_iff split: sum.splits prod.splits if_splits)
      qed
    qed
  qed
qed (simp add: debts_def)

lemma left_after:
  assumes "open_inst inst" and "0 <s a" and "d_amount dp = smin a (left_of inst)"
  shows "sint (left_of (inst\<lparr>n_debt_payments := n_debt_payments inst @ [dp]\<rparr>)) = max 0 (sint (left_of inst) - sint a)"
proof -
  have l: "left_of (inst\<lparr>n_debt_payments := n_debt_payments inst @ [dp]\<rparr>) = left_of inst - d_amount dp"
    by (simp add: left_of_def inst_paid_def)
  have "fits TYPE(64) (sint (left_of inst) - sint (d_amount dp))"
    using assms sint_lt [of "left_of inst"] by (auto simp: fits_def open_inst_def word_sless_alt)
  from sint_diff_fits [OF this] show ?thesis by (simp add: l assms(3))
qed

text \<open>Where a debt payment goes: to the first installment, in the order of the payments, that is not
  fully paid, which then owes what it owed less the amount and never less than nothing; every
  other installment and payment stays. With no open installment nothing changes and the caller
  is told so; a payment without a positive amount is refused when there is something to pay. What
  the amount exceeds the installment by is not carried to the next one.\<close>

theorem apply_debt_payment_spec:
  "case apply_debt_payment e tx payment s of
     Inl err \<Rightarrow> err = ''amount required'' \<and> d_amount payment \<le>s 0 \<and> list_ex open_inst (debts (t_payments tx))
   | Inr (False, tx', s') \<Rightarrow> tx' = tx \<and> s' = s \<and> \<not> list_ex open_inst (debts (t_payments tx))
   | Inr (True, tx', s') \<Rightarrow> (\<exists>pre inst inst' post. debts (t_payments tx) = pre @ inst # post \<and>
       debts (t_payments tx') = pre @ inst' # post \<and> \<not> list_ex open_inst pre \<and> open_inst inst \<and>
       n_amount inst' = n_amount inst \<and> sint (left_of inst') = max 0 (sint (left_of inst) - sint (d_amount payment)) \<and>
       tx'\<lparr>t_payments := []\<rparr> = tx\<lparr>t_payments := []\<rparr> \<and>
       map (\<lambda>p. p\<lparr>p_installments := []\<rparr>) (t_payments tx') = map (\<lambda>p. p\<lparr>p_installments := []\<rparr>) (t_payments tx))"
proof -
  note d = pay_payments_spec [where e = e and payment = payment and ps = "t_payments tx" and s = s]
  show ?thesis
  proof (cases "pay_payments e payment (t_payments tx) s")
    case (Inl err)
    then show ?thesis using d by (simp add: apply_debt_payment_def)
  next
    case (Inr r)
    obtain b qs s1 where r: "r = (b, qs, s1)" by (rule prod_cases3)
    show ?thesis
    proof (cases b)
      case True
      with d Inr r have k: "paid_one payment (debts (t_payments tx)) (debts qs)" "0 <s d_amount payment"
        "map (\<lambda>p. p\<lparr>p_installments := []\<rparr>) qs = map (\<lambda>p. p\<lparr>p_installments := []\<rparr>) (t_payments tx)" by simp_all
      from k(1) obtain pre inst post dp where p: "debts (t_payments tx) = pre @ inst # post" "\<forall>x \<in> set pre. \<not> open_inst x"
        "open_inst inst" "debts qs = pre @ inst\<lparr>n_debt_payments := n_debt_payments inst @ [dp]\<rparr> # post"
        "d_amount dp = smin (d_amount payment) (left_of inst)" unfolding paid_one_def by blast
      show ?thesis
        using Inr r True k(3) p left_after [OF p(3) k(2) p(5)]
        by (simp add: apply_debt_payment_def)
          (intro exI [of _ pre] exI [of _ inst] exI [of _ "inst\<lparr>n_debt_payments := n_debt_payments inst @ [dp]\<rparr>"] exI [of _ post],
            simp add: list_ex_iff)
    next
      case False
      with d Inr r show ?thesis by (simp add: apply_debt_payment_def)
    qed
  qed
qed

section \<open>Examples\<close>

definition test_list_req :: ReqTxList where
  "test_list_req = \<lparr> rl_site_iid = 1, rl_q = [], rl_after_tx_id = 0, rl_limit = 1, rl_include_archived = True, rl_type = 0,
     rl_state = 0, rl_subject_contact_id = 0, rl_time_from_ms = 0, rl_time_to_ms = 0, rl_open_only = False \<rparr>"

definition stored_two :: conn where
  "stored_two = (let s = fst (snd (test_put test_sale empty_conn))
     in fst (snd (test_put (test_sale\<lparr> t_tx_id := 2000 \<rparr>) s)))"

definition listed :: "i64 \<Rightarrow> Tx list" where
  "listed after = projr (tx_list (\<lambda>_ _. True) test_server 50 (test_list_req\<lparr> rl_after_tx_id := after \<rparr>) stored_two)"

lemma listed_facts:
  "\<not> isl (tx_list (\<lambda>_ _. True) test_server 50 (test_list_req\<lparr> rl_after_tx_id := 0 \<rparr>) stored_two)"
  "\<not> isl (tx_list (\<lambda>_ _. True) test_server 50 (test_list_req\<lparr> rl_after_tx_id := 1000 \<rparr>) stored_two)"
  "map t_tx_id (listed 0) = [1000]" "map t_tx_id (listed 1000) = [2000]"
  by code_simp+

lemma listed_eq:
  "tx_list (\<lambda>_ _. True) test_server 50 (test_list_req\<lparr> rl_after_tx_id := 0 \<rparr>) stored_two = Inr (listed 0)"
  "tx_list (\<lambda>_ _. True) test_server 50 (test_list_req\<lparr> rl_after_tx_id := 1000 \<rparr>) stored_two = Inr (listed 1000)"
  using listed_facts(1,2) by (simp_all add: listed_def)

lemma stored_two_pk: "tx_pk stored_two"
proof -
  have "map (\<lambda>r. (w_site r, w_tx r)) (q_tx stored_two) = [(1, 1000), (1, 2000)]" by code_simp
  then show ?thesis by (simp add: tx_pk_def)
qed

theorem tx_list_page_witness:
  "tx_list (\<lambda>_ _. True) test_server 50 (test_list_req\<lparr> rl_after_tx_id := 0 \<rparr>) stored_two = Inr (listed 0) \<and>
   tx_pk stored_two \<and> map t_tx_id (listed 0) = [1000] \<and> length (listed 0) \<le> 200"
  using tx_list_page [OF listed_eq(1) stored_two_pk] listed_eq(1) stored_two_pk listed_facts(3) by blast

theorem tx_list_pages_witness:
  "\<exists>rows. listed 0 @ listed 1000 = map (tx_header_from_row (p_clock (v_env test_server))) rows \<and>
     map t_tx_id (listed 0 @ listed 1000) = [1000, 2000]"
proof -
  have ne: "listed 0 \<noteq> []" using listed_facts(3) by auto
  then have l: "t_tx_id (last (listed 0)) = 1000" using listed_facts(3) by (metis last.simps last_map)
  have p: "0 <s t_tx_id (last (listed 0))" unfolding l by code_simp
  show ?thesis
    using tx_list_pages [OF listed_eq(1) stored_two_pk ne p] listed_eq(2) listed_facts(3,4) l by auto
qed

end
