(* ===== verification/Normalizer.thy ===== *)
theory Normalizer
  imports Rust_Prelude
begin

text \<open>
  Slugs of product and object names (\<open>servers/crates/mod_tx/src/normalizer.rs\<close>). Characters are
  those below U+0100, where \<open>char::is_alphanumeric\<close> is \<open>is_alphanumeric\<close>.
\<close>

fun slug_loop :: "bool \<Rightarrow> string \<Rightarrow> string" where
  "slug_loop prev_is_sep [] = []"
| "slug_loop prev_is_sep (c # cs) =
     (if is_ascii_alphanumeric c then ascii_lower c # slug_loop False cs
      else if \<not> prev_is_sep then CHR ''_'' # slug_loop True cs
      else slug_loop prev_is_sep cs)"

definition slug_normalize :: "string \<Rightarrow> string" where
  "slug_normalize raw =
     (let trimmed = trim raw
      in if trimmed = [] then []
         else let out = slug_loop True trimmed
              in if out \<noteq> [] \<and> last out = CHR ''_'' then butlast out else out)"

definition word_expand_tokens :: "string list \<Rightarrow> (string \<times> string) list \<Rightarrow> string list" where
  "word_expand_tokens tokens dict =
     map (\<lambda>t. let lower = to_ascii_lowercase t
              in case map_of dict lower of Some w \<Rightarrow> w | None \<Rightarrow> lower) tokens"

text \<open>\<open>char::is_alphanumeric\<close> below U+0100: the ASCII letters and digits and the Latin-1 letters and
  numeric signs.\<close>

definition is_alphanumeric :: "char \<Rightarrow> bool" where
  "is_alphanumeric c = (let n = of_char c :: nat in
     is_ascii_alphanumeric c \<or> n \<in> {170, 178, 179, 181, 185, 186, 188, 189, 190} \<or>
     (192 \<le> n \<and> n \<noteq> 215 \<and> n \<noteq> 247))"

text \<open>\<open>str::split\<close> on the characters that satisfy \<open>p\<close>.\<close>

fun split_on :: "(char \<Rightarrow> bool) \<Rightarrow> string \<Rightarrow> string list" where
  "split_on p [] = [[]]"
| "split_on p (c # cs) =
     (if p c then [] # split_on p cs
      else case split_on p cs of [] \<Rightarrow> [[c]] | w # ws \<Rightarrow> (c # w) # ws)"

fun join_space :: "string list \<Rightarrow> string" where
  "join_space [] = []"
| "join_space [w] = w"
| "join_space (w # ws) = w @ CHR '' '' # join_space ws"

definition text_normalize_with_dict :: "string \<Rightarrow> (string \<times> string) list \<Rightarrow> string" where
  "text_normalize_with_dict raw dict =
     (let tokens = filter (\<lambda>s. s \<noteq> []) (split_on (\<lambda>c. \<not> is_alphanumeric c) raw)
      in slug_normalize (join_space (word_expand_tokens tokens dict)))"

section \<open>Slugs\<close>

text \<open>What a slug looks like: words of lower case letters and digits, one underscore between two
  words and none at either end.\<close>

definition slug_char :: "char \<Rightarrow> bool" where
  "slug_char c \<longleftrightarrow> is_ascii_alphanumeric c \<and> ascii_lower c = c"

definition is_slug :: "string \<Rightarrow> bool" where
  "is_slug s \<longleftrightarrow> (\<forall>c \<in> set s. slug_char c \<or> c = CHR ''_'') \<and>
     successively (\<lambda>a b. \<not> (a = CHR ''_'' \<and> b = CHR ''_'')) s \<and>
     (s \<noteq> [] \<longrightarrow> hd s \<noteq> CHR ''_'' \<and> last s \<noteq> CHR ''_'')"

lemma alnum_cases:
  "is_ascii_alphanumeric c \<longleftrightarrow> (48 \<le> (of_char c :: nat) \<and> (of_char c :: nat) \<le> 57) \<or>
     (65 \<le> (of_char c :: nat) \<and> (of_char c :: nat) \<le> 90) \<or> (97 \<le> (of_char c :: nat) \<and> (of_char c :: nat) \<le> 122)"
  by (simp add: is_ascii_alphanumeric_def Let_def)

lemma slug_char_lower: "is_ascii_alphanumeric c \<Longrightarrow> slug_char (ascii_lower c)"
  by (auto simp: slug_char_def alnum_cases ascii_lower_def Let_def)

lemma underscore_not_alnum [simp]: "\<not> is_ascii_alphanumeric CHR ''_''" "\<not> slug_char CHR ''_''"
  by (simp_all add: slug_char_def is_ascii_alphanumeric_def)

lemma slug_char_not_space: "slug_char c \<Longrightarrow> \<not> is_whitespace c \<and> c \<noteq> CHR ''_''"
  by (auto simp: slug_char_def alnum_cases is_whitespace_def Let_def)

lemma slug_loop_form:
  "(\<forall>c \<in> set (slug_loop prev cs). slug_char c \<or> c = CHR ''_'') \<and>
   successively (\<lambda>a b. \<not> (a = CHR ''_'' \<and> b = CHR ''_'')) (slug_loop prev cs) \<and>
   (prev \<longrightarrow> slug_loop prev cs \<noteq> [] \<longrightarrow> hd (slug_loop prev cs) \<noteq> CHR ''_'')"
  by (induction prev cs rule: slug_loop.induct)
    (auto simp: slug_char_lower successively_Cons dest: slug_char_not_space [OF slug_char_lower])

lemma slug_loop_fixed:
  assumes "\<forall>c \<in> set s. slug_char c \<or> c = CHR ''_''"
    and "successively (\<lambda>a b. \<not> (a = CHR ''_'' \<and> b = CHR ''_'')) s"
    and "prev \<longrightarrow> s \<noteq> [] \<longrightarrow> hd s \<noteq> CHR ''_''"
  shows "slug_loop prev s = s"
  using assms
proof (induction prev s rule: slug_loop.induct)
  case (2 prev c cs)
  then show ?case by (cases "c = CHR ''_''") (auto simp: slug_char_def successively_Cons)
qed simp

lemma is_slug_drop_last:
  assumes "\<forall>c \<in> set out. slug_char c \<or> c = CHR ''_''"
    and "successively (\<lambda>a b. \<not> (a = CHR ''_'' \<and> b = CHR ''_'')) out"
    and "out \<noteq> [] \<longrightarrow> hd out \<noteq> CHR ''_''"
  shows "is_slug (if out \<noteq> [] \<and> last out = CHR ''_'' then butlast out else out)"
proof (cases "out \<noteq> [] \<and> last out = CHR ''_''")
  case True
  then obtain ys where out: "out = ys @ [CHR ''_'']" by (metis append_butlast_last_id)
  with assms show ?thesis
    by (auto simp: is_slug_def successively_append_iff hd_append split: if_splits)
next
  case False
  with assms show ?thesis by (auto simp: is_slug_def)
qed

lemma slug_normalize_slug: "is_slug (slug_normalize raw)"
proof (cases "trim raw = []")
  case True
  then show ?thesis by (simp add: slug_normalize_def is_slug_def)
next
  case False
  then show ?thesis
    using is_slug_drop_last [of "slug_loop True (trim raw)"] slug_loop_form [of True "trim raw"]
    by (simp add: slug_normalize_def Let_def)
qed

lemma dropWhile_hd: "s \<noteq> [] \<Longrightarrow> \<not> P (hd s) \<Longrightarrow> dropWhile P s = s"
  by (cases s) auto

lemma slug_ends: "is_slug s \<Longrightarrow> s \<noteq> [] \<Longrightarrow> \<not> is_whitespace (hd s) \<and> \<not> is_whitespace (last s)"
  by (metis hd_in_set is_slug_def last_in_set slug_char_not_space)

lemma trim_slug: "is_slug s \<Longrightarrow> trim s = s"
proof (cases "s = []")
  case False
  assume "is_slug s"
  with False slug_ends show ?thesis by (simp add: trim_def dropWhile_hd hd_rev)
qed simp

lemma slug_normalize_fixed: "is_slug s \<Longrightarrow> slug_normalize s = s"
  using slug_loop_fixed [of s True] by (auto simp: slug_normalize_def trim_slug Let_def is_slug_def)

text \<open>Slugs are normal forms: the result of \<open>slug_normalize\<close> consists of lower case ASCII
  letters, digits and underscores, with no underscore at either end and never two in a row, and
  normalizing it again changes nothing; a text that has this form already is left alone.\<close>

theorem slug_normalize_normal:
  "is_slug (slug_normalize raw) \<and> slug_normalize (slug_normalize raw) = slug_normalize raw \<and>
   (is_slug s \<longrightarrow> slug_normalize s = s) \<and> is_slug (text_normalize_with_dict raw dict)"
  by (simp add: slug_normalize_slug slug_normalize_fixed text_normalize_with_dict_def Let_def)

theorem slug_normalize_normal_witness:
  "slug_normalize ''  Nasi -- Goreng! '' = ''nasi_goreng'' \<and> is_slug ''nasi_goreng'' \<and>
   slug_normalize ''nasi_goreng'' = ''nasi_goreng'' \<and>
   text_normalize_with_dict ''NASI grg'' [(''grg'', ''goreng'')] = ''nasi_goreng''"
proof -
  have 1: "slug_normalize ''  Nasi -- Goreng! '' = ''nasi_goreng''" by code_simp
  have 2: "text_normalize_with_dict ''NASI grg'' [(''grg'', ''goreng'')] = ''nasi_goreng''" by code_simp
  show ?thesis using slug_normalize_normal [of "''  Nasi -- Goreng! ''" "''nasi_goreng''"] 1 2 by metis
qed

end
