(* ===== verification/Guest_Display.thy ===== *)
theory Guest_Display
  imports Json
begin

text \<open>
  What a guest page shows of a product: prices, pictures, stock and layout
  (\<open>servers/crates/mod_site/src/guest_product_display.rs\<close>, with \<open>guest_layout_mode\<close> and the contact
  label of \<open>guest_i18n.rs\<close>), and the reservation settings read from \<open>product_json\<close>
  (\<open>guest_product.rs\<close>). \<open>show_i64\<close> is \<open>to_string\<close> of an integer.
\<close>

section \<open>Decimal text\<close>

definition digit :: "nat \<Rightarrow> char" where
  "digit d = char_of (48 + d)"

fun show_nat :: "nat \<Rightarrow> string" where
  "show_nat n = (if n < 10 then [digit n] else show_nat (n div 10) @ [digit (n mod 10)])"

declare show_nat.simps [simp del]

definition show_i64 :: "i64 \<Rightarrow> string" where
  "show_i64 n = (if n <s 0 then CHR ''-'' # show_nat (nat (- sint n)) else show_nat (nat (sint n)))"

section \<open>Prices\<close>

definition GUEST_PRODUCT_PRICE_CONTACT :: i64 where
  "GUEST_PRODUCT_PRICE_CONTACT = - 1"

text \<open>The loop cuts groups of three digits off the end; \<open>abs\<close> of \<open>i64::MIN\<close> wraps to itself.\<close>

function idr_loop :: "string \<Rightarrow> string \<Rightarrow> string" where
  "idr_loop s out =
     (if 3 < length s
      then let split = length s - 3 in idr_loop (take split s) (CHR ''.'' # drop split s @ out)
      else s @ out)"
  by pat_completeness auto
termination by (relation "measure (length \<circ> fst)") auto

declare idr_loop.simps [simp del]

definition format_idr :: "i64 \<Rightarrow> string" where
  "format_idr amount =
     (let neg = amount <s 0;
          s = show_i64 (if amount <s 0 then - amount else amount);
          out = idr_loop s []
      in if neg then ''-Rp '' @ out else ''Rp '' @ out)"

definition price_contact :: "bool \<Rightarrow> string" where
  "price_contact indonesian = (if indonesian then ''Hubungi kami'' else ''Contact us'')"

definition guest_product_price_label_i18n :: "i64 \<Rightarrow> bool \<Rightarrow> string" where
  "guest_product_price_label_i18n price indonesian =
     (if price = GUEST_PRODUCT_PRICE_CONTACT then price_contact indonesian
      else if price \<le>s 0 then [] else format_idr price)"

definition guest_product_can_add_to_cart :: "i64 \<Rightarrow> bool" where
  "guest_product_can_add_to_cart price \<longleftrightarrow> 0 <s price"

section \<open>Layout\<close>

definition guest_layout_mode :: "Value \<Rightarrow> string" where
  "guest_layout_mode meta =
     (case Option.bind (case get_val meta ''guest_layout'' of Some v \<Rightarrow> Some v | None \<Rightarrow> get_val meta ''layout_mode'') as_str of
        Some v \<Rightarrow> (let t = to_ascii_lowercase (trim v)
                   in if t = ''store'' then ''store'' else if t = ''hub'' then ''hub'' else ''hub'')
      | None \<Rightarrow> ''hub'')"

definition nonempty_trimmed :: "Value option \<Rightarrow> string option" where
  "nonempty_trimmed v =
     (case Option.bind v as_str of
        None \<Rightarrow> None
      | Some s \<Rightarrow> (if trim s = [] then None else Some (trim s)))"

definition product_grid_display :: "Value \<Rightarrow> Value \<Rightarrow> string" where
  "product_grid_display props meta =
     (let raw = nonempty_trimmed (get_val props ''display'');
          is_list = (\<lambda>d. eq_ignore_ascii_case d ''list'');
          is_grid = (\<lambda>d. eq_ignore_ascii_case d ''grid'' \<or> eq_ignore_ascii_case d ''card'');
          on = (\<lambda>p x. case x of None \<Rightarrow> False | Some d \<Rightarrow> p d);
          meta_raw = nonempty_trimmed (get_val meta ''catalog_display'')
      in if on is_list raw then ''list''
         else if on is_grid raw then ''grid''
         else if on is_list meta_raw then ''list''
         else if on is_grid meta_raw then ''grid''
         else if guest_layout_mode meta = ''store'' then ''list''
         else ''grid'')"

section \<open>Pictures\<close>

definition is_url :: "string \<Rightarrow> bool" where
  "is_url s \<longleftrightarrow> starts_with s ''http://'' \<or> starts_with s ''https://''"

definition pic_hash_only :: "string \<Rightarrow> string" where
  "pic_hash_only pic =
     (let p = trim pic
      in if p = [] then []
         else if is_url p then p
         else let path = (if starts_with p ''/fs/'' then drop 4 p else p)
              in takeWhile (\<lambda>c. c \<noteq> CHR ''?'') path)"

definition pic_url_thumb :: "string \<Rightarrow> string" where
  "pic_url_thumb pic =
     (let h = pic_hash_only pic
      in if h = [] then [] else if is_url h then h else ''/fs/'' @ h @ ''?v=thumb'')"

definition pic_url_display :: "string \<Rightarrow> string" where
  "pic_url_display pic =
     (let h = pic_hash_only pic
      in if h = [] then [] else if is_url h then h else ''/fs/'' @ h @ ''?v=small'')"

definition pic_url :: "string \<Rightarrow> string" where
  "pic_url pic = pic_url_thumb pic"

fun gallery_loop :: "string list \<Rightarrow> string list \<Rightarrow> string list" where
  "gallery_loop [] out = out"
| "gallery_loop (extra # pics) out =
     (let e = trim extra
      in if e = [] then gallery_loop pics out
         else if e \<in> set out then gallery_loop pics out
         else gallery_loop pics (out @ [e]))"

definition product_gallery_paths :: "string \<Rightarrow> string list \<Rightarrow> string list" where
  "product_gallery_paths pic pics =
     gallery_loop pics (let primary = trim pic in if primary = [] then [] else [primary])"

section \<open>Stock\<close>

definition guest_product_stock_customer_label :: "bool \<Rightarrow> i64 option \<Rightarrow> string \<Rightarrow> i64 \<Rightarrow> string option" where
  "guest_product_stock_customer_label show_to_customer stock_qty stock_unit stock_show_max_qty =
     (if \<not> show_to_customer then None
      else case stock_qty of
        None \<Rightarrow> None
      | Some qty \<Rightarrow>
          if \<not> 0 <s qty then None
          else let unit = trim stock_unit;
                   unit_suffix = (if unit = [] then [] else CHR '' '' # unit);
                   display = (if 0 <s stock_show_max_qty \<and> stock_show_max_qty <s qty
                              then show_i64 stock_show_max_qty @ ''+'' else show_i64 qty)
               in Some (''Stock: '' @ display @ unit_suffix))"

section \<open>Settings in \<open>product_json\<close>\<close>

text \<open>\<open>f.trunc() as i64\<close> of a double given by its bits: the cast saturates and maps NaN to 0.\<close>

definition f64_trunc_i64 :: "u64 \<Rightarrow> i64" where
  "f64_trunc_i64 b =
     (let bits = unat b;
          neg = (2 ^ 63 \<le> bits);
          ex = bits div 2 ^ 52 mod 2 ^ 11;
          man = bits mod 2 ^ 52;
          mag = (if ex < 1023 then 0
                 else if ex < 1075 then (2 ^ 52 + man) div 2 ^ (1075 - ex)
                 else if ex < 1087 then (2 ^ 52 + man) * 2 ^ (ex - 1075)
                 else 2 ^ 64)
      in if ex = 2047 \<and> man \<noteq> 0 then 0
         else if neg then word_of_int (max (- (2 ^ 63)) (- int mag))
         else word_of_int (min (2 ^ 63 - 1) (int mag)))"

fun json_num_to_int :: "Value \<Rightarrow> i64 option" where
  "json_num_to_int (Number (PosInt n)) = Some (if n < 2 ^ 63 then n else word_of_int (2 ^ 63 - 1))"
| "json_num_to_int (Number (NegInt n)) = Some n"
| "json_num_to_int (Number (Float b)) = Some (f64_trunc_i64 b)"
| "json_num_to_int _ = None"

definition json_trim_string :: "(Value \<Rightarrow> string) \<Rightarrow> Value \<Rightarrow> string" where
  "json_trim_string to_string v =
     (case v of String s \<Rightarrow> trim s | Null \<Rightarrow> [] | _ \<Rightarrow> to_string v)"

definition positive_or :: "i64 \<Rightarrow> i64 option \<Rightarrow> i64" where
  "positive_or d x = (case x of Some n \<Rightarrow> if 0 <s n then n else d | None \<Rightarrow> d)"

definition parsed_or_null :: "(string \<Rightarrow> string + Value) \<Rightarrow> string \<Rightarrow> Value" where
  "parsed_or_null from_str raw = (case from_str raw of Inl _ \<Rightarrow> Null | Inr v \<Rightarrow> v)"

definition reservation_fields_from_product_json ::
  "(string \<Rightarrow> string + Value) \<Rightarrow> (Value \<Rightarrow> string) \<Rightarrow> string \<Rightarrow> i64 \<times> string \<times> string" where
  "reservation_fields_from_product_json from_str to_string raw =
     (case as_object (parsed_or_null from_str raw) of
        None \<Rightarrow> (1, ''day'', ''system'')
      | Some m \<Rightarrow>
          (let text = (\<lambda>k. case map_of m k of None \<Rightarrow> [] | Some v \<Rightarrow> json_trim_string to_string v);
               duration_value = positive_or 1 (Option.bind (map_of m ''duration_value'') json_num_to_int);
               unit_raw = text ''duration_unit'';
               duration_unit = (if unit_raw = [] then ''day'' else unit_raw);
               selection = (if text ''reservation_unit_selection'' = ''guest_picks'' then ''guest_picks'' else ''system'')
           in (duration_value, duration_unit, selection)))"

definition DEFAULT_RESERVATION_HOLD_TTL_SECONDS :: i64 where
  "DEFAULT_RESERVATION_HOLD_TTL_SECONDS = 3600"

definition reservation_inventory_from_json_value :: "(Value \<Rightarrow> string) \<Rightarrow> Value \<Rightarrow> string \<times> i64" where
  "reservation_inventory_from_json_value to_string v =
     (case as_object v of
        None \<Rightarrow> (''capacity'', 1)
      | Some m \<Rightarrow>
          (let mode_raw = (case map_of m ''reservation_inventory_mode'' of None \<Rightarrow> [] | Some v \<Rightarrow> json_trim_string to_string v);
               mode = (if eq_ignore_ascii_case mode_raw ''objects'' then ''objects'' else ''capacity'');
               cap = positive_or 1 (Option.bind (map_of m ''reservation_capacity'') json_num_to_int)
           in (mode, cap)))"

definition reservation_inventory_from_product_json ::
  "(string \<Rightarrow> string + Value) \<Rightarrow> (Value \<Rightarrow> string) \<Rightarrow> string \<Rightarrow> string \<times> i64" where
  "reservation_inventory_from_product_json from_str to_string raw =
     reservation_inventory_from_json_value to_string (parsed_or_null from_str raw)"

definition reservation_hold_ttl_from_json_value :: "Value \<Rightarrow> i64" where
  "reservation_hold_ttl_from_json_value v =
     positive_or DEFAULT_RESERVATION_HOLD_TTL_SECONDS
       (Option.bind (Option.bind (as_object v) (\<lambda>m. map_of m ''reservation_hold_ttl_seconds'')) json_num_to_int)"

definition reservation_hold_ttl_from_product_json :: "(string \<Rightarrow> string + Value) \<Rightarrow> string \<Rightarrow> i64" where
  "reservation_hold_ttl_from_product_json from_str raw =
     reservation_hold_ttl_from_json_value (parsed_or_null from_str raw)"

definition stock_show_to_customer_from_product_json :: "Value \<Rightarrow> bool" where
  "stock_show_to_customer_from_product_json v \<longleftrightarrow>
     Option.bind (Option.bind (as_object v) (\<lambda>m. map_of m ''stock_show_to_customer'')) as_bool = Some True"

definition stock_unit_from_product_json :: "Value \<Rightarrow> string" where
  "stock_unit_from_product_json v =
     unwrap_or [] (nonempty_trimmed (Option.bind (as_object v) (\<lambda>m. map_of m ''stock_unit'')))"

definition stock_show_max_qty_from_product_json :: "Value \<Rightarrow> i64" where
  "stock_show_max_qty_from_product_json v =
     positive_or 0 (Option.bind (Option.bind (as_object v) (\<lambda>m. map_of m ''stock_show_max_qty'')) as_i64)"

section \<open>Properties\<close>

definition nat_of_digits :: "string \<Rightarrow> nat" where
  "nat_of_digits s = foldl (\<lambda>a c. 10 * a + (of_char c - 48)) 0 s"

lemma show_nat_digits: "nat_of_digits (show_nat n) = n"
proof (induction n rule: show_nat.induct)
  case (1 n)
  have d: "of_char (digit k) - 48 = k" if "k < 10" for k
    using that by (simp add: digit_def)
  show ?case
  proof (cases "n < 10")
    case True
    then show ?thesis by (simp add: show_nat.simps [of n] nat_of_digits_def d)
  next
    case False
    then show ?thesis
      using 1 by (simp add: show_nat.simps [of n] nat_of_digits_def d)
  qed
qed

lemma show_nat_nonempty [simp]: "show_nat n \<noteq> []"
  by (subst show_nat.simps) simp

text \<open>Groups of three digits behind a first group of one to three.\<close>

definition grouped :: "string \<Rightarrow> string \<Rightarrow> bool" where
  "grouped digits text \<longleftrightarrow> (\<exists>first groups. text = first @ concat (map ((#) CHR ''.'') groups) \<and>
     first @ concat groups = digits \<and> 1 \<le> length first \<and> length first \<le> 3 \<and> (\<forall>g \<in> set groups. length g = 3))"

lemma idr_loop_groups:
  assumes "s \<noteq> []" and "\<forall>g \<in> set gs. length g = 3"
  shows "grouped (s @ concat gs) (idr_loop s (concat (map ((#) CHR ''.'') gs)))"
  using assms
proof (induction "length s" arbitrary: s gs rule: less_induct)
  case less
  show ?case
  proof (cases "3 < length s")
    case True
    let ?a = "take (length s - 3) s" and ?g = "drop (length s - 3) s"
    have "grouped (?a @ concat (?g # gs)) (idr_loop ?a (concat (map ((#) CHR ''.'') (?g # gs))))"
      using True less.prems by (intro less.hyps) auto
    moreover have "idr_loop s (concat (map ((#) CHR ''.'') gs)) = idr_loop ?a (concat (map ((#) CHR ''.'') (?g # gs)))"
      using True by (subst idr_loop.simps) (simp add: Let_def)
    ultimately show ?thesis by (simp flip: append_assoc)
  next
    case False
    then have "idr_loop s (concat (map ((#) CHR ''.'') gs)) = s @ concat (map ((#) CHR ''.'') gs)"
      by (subst idr_loop.simps) simp
    moreover have "1 \<le> length s" using less.prems(1) by (simp add: Suc_le_eq)
    ultimately show ?thesis using False less.prems unfolding grouped_def by (intro exI [of _ s] exI [of _ gs]) auto
  qed
qed

text \<open>A price is shown in full and in groups: \<open>format_idr\<close> prints a sign, the currency and the
  decimal digits of the amount in groups of three separated by points, the first group having
  one to three digits; reading the digits back gives the amount. (\<open>i64::MIN\<close>, whose \<open>abs\<close> wraps, is the
  one exception.)\<close>

theorem format_idr_spec:
  assumes "amount \<noteq> word_of_int (- (2 ^ 63))"
  shows "\<exists>digits text. format_idr amount = (if amount <s 0 then ''-Rp '' else ''Rp '') @ text \<and>
    grouped digits text \<and> int (nat_of_digits digits) = \<bar>sint amount\<bar>"
proof -
  let ?a = "if amount <s 0 then - amount else amount"
  have fit: "amount <s 0 \<Longrightarrow> sint (- amount) = - sint amount"
  proof -
    assume "amount <s 0"
    moreover have "sint amount \<noteq> - (2 ^ 63)"
    proof
      assume "sint amount = - (2 ^ 63)"
      then have "(of_int (sint amount) :: i64) = of_int (- (2 ^ 63))" by simp
      with assms show False by (simp add: of_int_sint)
    qed
    ultimately have "fits TYPE(64) (sint (0 :: i64) - sint amount)"
      using sint_ge [of amount] sint_lt [of amount] by (simp add: fits_def word_sless_alt)
    from sint_diff_fits [OF this] show ?thesis by simp
  qed
  have abs: "sint ?a = \<bar>sint amount\<bar>" and pos: "\<not> ?a <s 0"
    using fit by (auto simp: word_sless_alt split: if_splits)
  let ?d = "show_nat (nat (sint ?a))"
  have "format_idr amount = (if amount <s 0 then ''-Rp '' else ''Rp '') @ idr_loop ?d []"
    using pos by (auto simp: format_idr_def show_i64_def Let_def)
  moreover have "grouped ?d (idr_loop ?d [])" using idr_loop_groups [of ?d "[]"] by simp
  moreover have "int (nat_of_digits ?d) = \<bar>sint amount\<bar>" by (simp add: show_nat_digits abs)
  ultimately show ?thesis by blast
qed

lemma show_1500: "show_nat 1500 = ''1500''"
proof -
  have "digit 1 = CHR ''1''" "digit 5 = CHR ''5''" "digit 0 = CHR ''0''" by code_simp+
  moreover have "show_nat 1 = [digit 1]" by (simp only: show_nat.simps [of 1]) simp
  ultimately show ?thesis
    by (simp add: show_nat.simps [of 1500] show_nat.simps [of 150] show_nat.simps [of 15])
qed

lemma format_1500: "format_idr 1500 = ''Rp 1.500''"
  by (simp add: format_idr_def show_i64_def show_1500 idr_loop.simps [of "''1500''"] idr_loop.simps [of "''1''"]
      word_sless_alt Let_def)

theorem format_idr_spec_witness:
  "(1500 :: i64) \<noteq> word_of_int (- (2 ^ 63)) \<and> format_idr 1500 = ''Rp 1.500'' \<and>
   (\<exists>digits text. ''Rp 1.500'' = ''Rp '' @ text \<and> grouped digits text \<and> int (nat_of_digits digits) = 1500)"
proof -
  have n: "(1500 :: i64) \<noteq> word_of_int (- (2 ^ 63))" "\<not> (1500 :: i64) <s 0" "sint (1500 :: i64) = 1500" by code_simp+
  from format_idr_spec [OF n(1)] n(2,3) show ?thesis using n(1) by (simp add: format_1500)
qed

lemma positive_or_pos: "0 <s d \<Longrightarrow> 0 <s positive_or d x"
  by (simp add: positive_or_def split: option.splits)

text \<open>Whatever \<open>product_json\<close> holds, also text that is not JSON, the settings read from it are
  usable: the capacity, the duration and the lifetime of a hold are at least one, the inventory
  mode is one of the two known modes, the unit is not empty.\<close>

theorem reservation_settings_bounds:
  "0 <s snd (reservation_inventory_from_product_json from_str to_string raw) \<and>
   fst (reservation_inventory_from_product_json from_str to_string raw) \<in> {''objects'', ''capacity''} \<and>
   0 <s reservation_hold_ttl_from_product_json from_str raw \<and>
   0 <s fst (reservation_fields_from_product_json from_str to_string raw) \<and>
   fst (snd (reservation_fields_from_product_json from_str to_string raw)) \<noteq> []"
proof -
  have one: "0 <s (1 :: i64)" "0 <s DEFAULT_RESERVATION_HOLD_TTL_SECONDS" by code_simp+
  show ?thesis
    by (auto simp: reservation_inventory_from_product_json_def reservation_inventory_from_json_value_def
        reservation_hold_ttl_from_product_json_def reservation_hold_ttl_from_json_value_def
        reservation_fields_from_product_json_def Let_def positive_or_pos one split: option.splits)
qed

end
