(* ===== verification/Guest_Reservation.thy ===== *)
theory Guest_Reservation
  imports Stock_Apply Guest_Display
begin

text \<open>
  Availability of reservable products (\<open>servers/crates/mod_site/src/guest_reservation.rs\<close>): the
  windows that overlap, the pool of units, the holds that still block, and the objects of the
  site (tables, rooms, units) that are free. \<open>renv\<close> is what a call finds besides the transaction
  tables: the rows of \<open>site.object\<close>, \<open>NOW()\<close> of the query, and PostgreSQL's comparison
  \<open>EXTRACT(EPOCH FROM interval) <= seconds\<close>.
\<close>

record ObjectRow =
  ob_id :: i64
  ob_site_iid :: i64
  ob_name :: string
  ob_code :: string
  ob_product_id :: "i64 option"
  ob_can_be_reserved :: bool
  ob_is_active :: bool
  ob_sort_order :: i32
  ob_pic :: string
  ob_deleted :: bool

record renv =
  rv_objects :: "ObjectRow list"
  rv_now :: datetime
  rv_epoch_le :: "int \<Rightarrow> i64 \<Rightarrow> bool"

section \<open>Windows and pools\<close>

definition reservation_windows_overlap :: "i64 \<Rightarrow> i64 \<Rightarrow> i64 \<Rightarrow> i64 \<Rightarrow> bool" where
  "reservation_windows_overlap existing_start existing_end requested_start requested_end \<longleftrightarrow>
     existing_start <s requested_end \<and> requested_start <s existing_end"

definition units_left :: "i64 \<Rightarrow> i64 \<Rightarrow> i64" where
  "units_left pool_size overlapping_qty =
     (if pool_size \<le>s 0 then 0 else smax (pool_size - overlapping_qty) 0)"

definition reservation_pool_size :: "i64 \<Rightarrow> string \<Rightarrow> i64 \<Rightarrow> i64" where
  "reservation_pool_size linked_object_count inventory_mode capacity =
     (if 0 <s linked_object_count then linked_object_count
      else if eq_ignore_ascii_case (trim inventory_mode) ''objects'' then 0
      else smax capacity 1)"

definition hold_blocks_availability :: "string \<Rightarrow> bool \<Rightarrow> i64 \<Rightarrow> i64 \<Rightarrow> bool" where
  "hold_blocks_availability state_text is_paid age_secs ttl_secs =
     (if is_paid then True
      else let state = to_ascii_lowercase (trim state_text)
           in if state = ''cancelled'' then False
              else if state = ''ok'' then True
              else if state \<in> {''waiting_payment'', ''pending'', ''draft''}
              then age_secs \<le>s smax ttl_secs 1
              else True)"

definition availability_ok :: "i64 \<Rightarrow> i64 \<Rightarrow> i64 \<Rightarrow> i64 \<Rightarrow> bool" where
  "availability_ok units_available units start_ts_ms end_ts_ms \<longleftrightarrow>
     units \<le>s units_available \<and> 1 \<le>s units \<and> start_ts_ms <s end_ts_ms"

section \<open>Availability\<close>

record FreeObject =
  fo_id :: i64
  fo_name :: string
  fo_code :: string
  fo_pic :: string

record Availability =
  av_ok :: bool
  av_units_available :: i64
  av_free_objects :: "FreeObject list"

definition Availability_to_json :: "Availability \<Rightarrow> Value" where
  "Availability_to_json a = Object [
     (''ok'', Bool (av_ok a)),
     (''units_available'', json_i64 (av_units_available a)),
     (''free_objects'', Array (map (\<lambda>p. Object [
        (''id'', json_i64 (fo_id p)), (''name'', String (fo_name p)),
        (''code'', String (fo_code p)), (''pic'', String (fo_pic p))]) (av_free_objects a)))]"

text \<open>The \<open>WHERE\<close> clause of the load query on one joined row; \<open>i\<close> is absent when the left join
  finds no item. A comparison with \<open>NULL\<close> is not true.\<close>

definition hold_counts :: "renv \<Rightarrow> i64 \<Rightarrow> TxCols row \<Rightarrow> bool" where
  "hold_counts rv ttl t \<longleftrightarrow>
     w_deleted t = None \<and> h_state (w_cols t) \<noteq> ''cancelled'' \<and>
     (h_is_paid (w_cols t) \<or> h_state (w_cols t) \<notin> {''waiting_payment'', ''pending'', ''draft''} \<or>
      rv_epoch_le rv (rv_now rv - w_created t) (smax ttl 1))"

definition load_where ::
  "renv \<Rightarrow> i64 \<Rightarrow> i64 \<Rightarrow> datetime \<Rightarrow> datetime \<Rightarrow> i64 \<Rightarrow> ReservationCols row \<Rightarrow> TxCols row \<Rightarrow> ItemCols row option \<Rightarrow> bool" where
  "load_where rv site product start end ttl r t i \<longleftrightarrow>
     w_site r = site \<and> w_deleted r = None \<and> hold_counts rv ttl t \<and>
     (case i of None \<Rightarrow> True | Some i \<Rightarrow> w_deleted i = None) \<and>
     (cr_product_id (w_cols r) = product \<or>
      cr_product_id (w_cols r) = 0 \<and> (case i of None \<Rightarrow> False | Some i \<Rightarrow> ci_product_id (w_cols i) = product)) \<and>
     (case cr_start_ts (w_cols r) of None \<Rightarrow> False | Some x \<Rightarrow> x < end) \<and>
     (case cr_end_ts (w_cols r) of None \<Rightarrow> False | Some x \<Rightarrow> start < x)"

definition left_join :: "('a \<Rightarrow> bool) \<Rightarrow> 'a list \<Rightarrow> 'a option list" where
  "left_join p t = (let m = filter p t in if m = [] then [None] else map Some m)"

definition load_rows :: "renv \<Rightarrow> conn \<Rightarrow> i64 \<Rightarrow> i64 \<Rightarrow> datetime \<Rightarrow> datetime \<Rightarrow> i64 \<Rightarrow> ReservationCols row list" where
  "load_rows rv s site product start end ttl =
     concat (map (\<lambda>r. concat (map (\<lambda>t. map (\<lambda>_. r) (filter (load_where rv site product start end ttl r t)
         (left_join (\<lambda>i. of_tx (w_site r) (w_tx r) i \<and> ci_item_id (w_cols i) = cr_item_id (w_cols r)) (q_item s))))
       (filter (of_tx (w_site r) (w_tx r)) (q_tx s)))) (q_reservation s))"

text \<open>The loop over the rows: the quantities are summed and the objects collected, in any order.\<close>

definition overlapping_reservation_load ::
  "renv \<Rightarrow> clock \<Rightarrow> conn \<Rightarrow> i64 \<Rightarrow> i64 \<Rightarrow> i64 \<Rightarrow> i64 \<Rightarrow> i64 \<Rightarrow> i64 \<times> i64 set" where
  "overlapping_reservation_load rv ck s site product start_ts_ms end_ts_ms ttl =
     (case (from_timestamp_millis ck start_ts_ms, from_timestamp_millis ck end_ts_ms) of
        (Some start, Some end) \<Rightarrow>
          (let rows = load_rows rv s site product start end ttl
           in (\<Sum>r\<leftarrow>rows. scast (smax (cr_qty (w_cols r)) 0),
               set (filter (\<lambda>i. 0 <s i) (map (\<lambda>r. cr_site_object_id (w_cols r)) rows))))
      | _ \<Rightarrow> (0, {}))"

definition linked_objects :: "renv \<Rightarrow> i64 \<Rightarrow> i64 \<Rightarrow> ObjectRow list" where
  "linked_objects rv site product =
     sort_key (\<lambda>b. sint (ob_sort_order b)) (sort_key (\<lambda>b. sint (ob_id b))
       (filter (\<lambda>b. ob_site_iid b = site \<and> ob_product_id b = Some product \<and> \<not> ob_deleted b \<and>
          ob_is_active b \<and> ob_can_be_reserved b) (rv_objects rv)))"

definition product_json_text :: "conn \<Rightarrow> i64 \<Rightarrow> i64 \<Rightarrow> string" where
  "product_json_text s site product =
     (case find (\<lambda>p. pd_site_iid p = site \<and> pd_product_id p = product \<and> pd_deleted p = None) (q_product s) of
        None \<Rightarrow> ''{}'' | Some p \<Rightarrow> pd_json p)"

definition guest_reservation_availability ::
  "renv \<Rightarrow> penv \<Rightarrow> conn \<Rightarrow> i64 \<Rightarrow> i64 \<Rightarrow> i64 \<Rightarrow> i64 \<Rightarrow> i64 \<Rightarrow> Availability" where
  "guest_reservation_availability rv e s site product start_ts_ms end_ts_ms units =
     (if site \<le>s 0 \<or> product \<le>s 0
      then \<lparr> av_ok = False, av_units_available = 0, av_free_objects = [] \<rparr>
      else let json = product_json_text s site product;
               (inventory_mode, capacity) = reservation_inventory_from_product_json (p_from_str e) (p_to_string e) json;
               hold_ttl = reservation_hold_ttl_from_product_json (p_from_str e) json;
               objects = linked_objects rv site product;
               linked = of_nat (length objects);
               pool_size = reservation_pool_size linked inventory_mode capacity;
               (overlapping_qty, busy) =
                 overlapping_reservation_load rv (p_clock e) s site product start_ts_ms end_ts_ms hold_ttl;
               units_available = units_left pool_size overlapping_qty;
               free_objects = map (\<lambda>b. \<lparr> fo_id = ob_id b, fo_name = ob_name b, fo_code = ob_code b,
                   fo_pic = pic_url (ob_pic b) \<rparr>) (filter (\<lambda>b. ob_id b \<notin> busy) objects)
           in \<lparr> av_ok = availability_ok units_available units start_ts_ms end_ts_ms,
                av_units_available = units_available, av_free_objects = free_objects \<rparr>)"

section \<open>Properties\<close>

text \<open>The overlap test is the intersection of half-open windows: for two windows with a positive
  length, \<open>reservation_windows_overlap\<close> holds exactly when some instant lies in both; a window
  that starts when another ends does not overlap it.\<close>

theorem windows_overlap_iff:
  assumes "es <s ee" and "rs <s re"
  shows "reservation_windows_overlap es ee rs re \<longleftrightarrow> {sint es..<sint ee} \<inter> {sint rs..<sint re} \<noteq> {}"
proof -
  have "{sint es..<sint ee} \<inter> {sint rs..<sint re} = {max (sint es) (sint rs)..<min (sint ee) (sint re)}"
    by (simp add: Int_atLeastLessThan)
  then show ?thesis
    using assms by (auto simp: reservation_windows_overlap_def word_sless_alt)
qed

theorem windows_overlap_iff_witness:
  "(0 :: i64) <s 10 \<and> (9 :: i64) <s 12 \<and> reservation_windows_overlap 0 10 9 12 \<and>
   {sint (0 :: i64)..<sint (10 :: i64)} \<inter> {sint (9 :: i64)..<sint (12 :: i64)} \<noteq> {}"
proof -
  have a: "(0 :: i64) <s 10" "(9 :: i64) <s 12" "reservation_windows_overlap 0 10 9 12" by code_simp+
  then show ?thesis using windows_overlap_iff [OF a(1,2)] by blast
qed

definition tx_states :: "string list" where
  "tx_states = [''ok'', ''draft'', ''pending'', ''waiting_payment'', ''cancelled'']"

lemma states_lower: "list_all (\<lambda>st. to_ascii_lowercase (trim st) = st) tx_states"
  by code_simp

text \<open>The query agrees with the rule it mirrors: on the five states the table admits, a hold is
  counted by the availability query exactly when its transaction is live, is not cancelled and
  \<open>hold_blocks_availability\<close> says that it blocks, for a query that compares the age in seconds.\<close>

theorem hold_query_mirrors:
  assumes "h_state (w_cols t) \<in> set tx_states"
    and "\<forall>ttl. rv_epoch_le rv (rv_now rv - w_created t) ttl \<longleftrightarrow> age \<le>s ttl"
  shows "hold_counts rv ttl t \<longleftrightarrow> w_deleted t = None \<and> h_state (w_cols t) \<noteq> ''cancelled'' \<and>
    hold_blocks_availability (h_state (w_cols t)) (h_is_paid (w_cols t)) age ttl"
proof -
  define st where "st = h_state (w_cols t)"
  have lo: "to_ascii_lowercase (trim st) = st"
    using states_lower assms(1) by (simp add: list_all_iff st_def)
  have "st \<in> {''waiting_payment'', ''pending'', ''draft''} \<or> st = ''ok'' \<or> st = ''cancelled''"
    using assms(1) unfolding tx_states_def st_def [symmetric] by auto
  moreover have "''ok'' \<notin> {''waiting_payment'', ''pending'', ''draft'' :: string}"
    "''cancelled'' \<notin> {''waiting_payment'', ''pending'', ''draft'' :: string}"
    "''ok'' \<noteq> (''cancelled'' :: string)" by simp_all
  ultimately show ?thesis
    unfolding hold_counts_def hold_blocks_availability_def Let_def st_def [symmetric] lo using assms(2) by metis
qed

lemma units_left_bounds:
  assumes "0 \<le>s q" and "0 \<le>s pool"
  shows "sint (units_left pool q) = max 0 (sint pool - sint q)"
proof -
  have "fits TYPE(64) (sint pool - sint q)"
    using assms sint_ge [of pool] sint_lt [of pool] sint_ge [of q] sint_lt [of q]
    by (simp add: fits_def word_sle_eq)
  from sint_diff_fits [OF this] assms show ?thesis
    by (auto simp: units_left_def word_sle_eq max_def)
qed

text \<open>The rows the query counts.\<close>

lemma load_rows_iff:
  "r \<in> set (load_rows rv s site product start end ttl) \<longleftrightarrow> r \<in> set (q_reservation s) \<and>
     (\<exists>t \<in> set (q_tx s). of_tx (w_site r) (w_tx r) t \<and>
       (\<exists>i \<in> set (left_join (\<lambda>i. of_tx (w_site r) (w_tx r) i \<and> ci_item_id (w_cols i) = cr_item_id (w_cols r)) (q_item s)).
          load_where rv site product start end ttl r t i))"
  by (auto simp: load_rows_def)

definition product_pool :: "renv \<Rightarrow> penv \<Rightarrow> conn \<Rightarrow> i64 \<Rightarrow> i64 \<Rightarrow> i64" where
  "product_pool rv e s site product =
     (let (mode, capacity) = reservation_inventory_from_product_json (p_from_str e) (p_to_string e) (product_json_text s site product)
      in reservation_pool_size (of_nat (length (linked_objects rv site product))) mode capacity)"

definition counted_rows :: "renv \<Rightarrow> penv \<Rightarrow> conn \<Rightarrow> i64 \<Rightarrow> i64 \<Rightarrow> datetime \<Rightarrow> datetime \<Rightarrow> ReservationCols row list" where
  "counted_rows rv e s site product start end =
     load_rows rv s site product start end
       (reservation_hold_ttl_from_product_json (p_from_str e) (product_json_text s site product))"

definition row_qty :: "ReservationCols row \<Rightarrow> int" where
  "row_qty r = max 0 (sint (cr_qty (w_cols r)))"

lemma pool_nonneg: "0 \<le>s product_pool rv e s site product"
  by (auto simp: product_pool_def reservation_pool_size_def split_beta Let_def word_sle_eq word_sless_alt)

lemma row_qty_sum_nonneg: "0 \<le> (\<Sum>r\<leftarrow>rows. row_qty r)"
  by (induction rows) (auto simp: row_qty_def)

lemma availability_unfold:
  assumes "0 <s site" and "0 <s product"
    and "from_timestamp_millis (p_clock e) st = Some start" and "from_timestamp_millis (p_clock e) en = Some end"
  shows "guest_reservation_availability rv e s site product st en units =
    (let rows = counted_rows rv e s site product start end;
         n = units_left (product_pool rv e s site product) (\<Sum>r\<leftarrow>rows. scast (smax (cr_qty (w_cols r)) 0))
     in \<lparr> av_ok = availability_ok n units st en, av_units_available = n,
          av_free_objects = map (\<lambda>b. \<lparr> fo_id = ob_id b, fo_name = ob_name b, fo_code = ob_code b, fo_pic = pic_url (ob_pic b) \<rparr>)
            (filter (\<lambda>b. ob_id b \<notin> set (filter (\<lambda>i. 0 <s i) (map (\<lambda>r. cr_site_object_id (w_cols r)) rows)))
              (linked_objects rv site product)) \<rparr>)"
  using assms
  by (simp add: guest_reservation_availability_def overlapping_reservation_load_def product_pool_def counted_rows_def
      split_beta Let_def word_sle_eq word_sless_alt)

text \<open>Claim C10. What a guest is told about a product in a window: the units are the pool less the quantities
  of the reservations the query counts, and never negative; the objects listed are the linked
  objects no counted reservation holds; the answer is positive exactly when the window has a
  positive length and at least the requested number of units, one or more, is left. The sum of
  the counted quantities is taken to fit an \<open>i64\<close>.\<close>

theorem availability_spec:
  assumes "0 <s site" and "0 <s product"
    and "from_timestamp_millis (p_clock e) st = Some start" and "from_timestamp_millis (p_clock e) en = Some end"
    and "fits TYPE(64) (\<Sum>r\<leftarrow>counted_rows rv e s site product start end. row_qty r)"
  shows "let a = guest_reservation_availability rv e s site product st en units; rows = counted_rows rv e s site product start end;
      left = max 0 (sint (product_pool rv e s site product) - (\<Sum>r\<leftarrow>rows. row_qty r))
    in sint (av_units_available a) = left \<and>
       (av_ok a \<longleftrightarrow> 1 \<le> sint units \<and> sint units \<le> left \<and> sint st < sint en) \<and>
       (\<forall>i. i \<in> fo_id ` set (av_free_objects a) \<longleftrightarrow> i \<in> ob_id ` set (linked_objects rv site product) \<and>
          \<not> (0 <s i \<and> (\<exists>r \<in> set rows. cr_site_object_id (w_cols r) = i)))"
proof -
  let ?rows = "counted_rows rv e s site product start end"
  let ?q = "(\<Sum>r\<leftarrow>?rows. scast (smax (cr_qty (w_cols r)) 0)) :: i64"
  have rq: "row_qty = (\<lambda>r. sint (scast (smax (cr_qty (w_cols r)) 0) :: i64))"
    by (simp add: fun_eq_iff row_qty_def max.commute)
  have q: "sint ?q = (\<Sum>r\<leftarrow>?rows. row_qty r)"
    using sint_sum_list_fits [of "\<lambda>r. scast (smax (cr_qty (w_cols r)) 0) :: i64" ?rows] assms(5) by (simp only: rq)
  then have "0 \<le>s ?q" by (simp add: word_sle_eq row_qty_sum_nonneg)
  from units_left_bounds [OF this pool_nonneg]
  have u: "sint (units_left (product_pool rv e s site product) ?q) =
      max 0 (sint (product_pool rv e s site product) - (\<Sum>r\<leftarrow>?rows. row_qty r))" by (simp add: q)
  show ?thesis
    unfolding availability_unfold [OF assms(1-4)] Let_def
    by (auto simp: u availability_ok_def word_sle_eq word_sless_alt image_iff) (metis)
qed

section \<open>Examples\<close>

definition test_renv :: renv where
  "test_renv = \<lparr> rv_objects = [\<lparr> ob_id = 101, ob_site_iid = 1, ob_name = ''Room A'', ob_code = ''A'', ob_product_id = Some 200,
       ob_can_be_reserved = True, ob_is_active = True, ob_sort_order = 0, ob_pic = [], ob_deleted = False \<rparr>],
     rv_now = 100, rv_epoch_le = (\<lambda>d secs. d \<le> sint secs) \<rparr>"

definition held_tx :: "TxCols row" where
  "held_tx = \<lparr> w_site = 1, w_tx = 5, w_created = 0, w_updated = 0, w_deleted = None,
     w_cols = header_cols 1 0 0 0 (Tx_default\<lparr> t_state := TxState_i32 St_WaitingPayment \<rparr>) \<rparr>"

theorem hold_query_mirrors_witness:
  "h_state (w_cols held_tx) \<in> set tx_states \<and>
   (hold_counts test_renv 60 held_tx \<longleftrightarrow> hold_blocks_availability ''waiting_payment'' False 100 60)"
proof -
  have st: "h_state (w_cols held_tx) = ''waiting_payment''" "h_is_paid (w_cols held_tx) = False" "w_deleted held_tx = None"
    by code_simp+
  have m: "h_state (w_cols held_tx) \<in> set tx_states" by (simp add: st tx_states_def)
  have ep: "\<forall>ttl. rv_epoch_le test_renv (rv_now test_renv - w_created held_tx) ttl \<longleftrightarrow> (100 :: i64) \<le>s ttl"
    by (simp add: test_renv_def held_tx_def word_sle_eq)
  show ?thesis using m hold_query_mirrors [OF m ep, of 60] by (simp add: st)
qed

theorem availability_spec_witness:
  "sint (av_units_available (guest_reservation_availability test_renv test_env empty_conn 1 200 1000 2000 1)) = 1 \<and>
   av_ok (guest_reservation_availability test_renv test_env empty_conn 1 200 1000 2000 1) \<and>
   101 \<in> fo_id ` set (av_free_objects (guest_reservation_availability test_renv test_env empty_conn 1 200 1000 2000 1))"
proof -
  have pos: "(0 :: i64) <s 1" "(0 :: i64) <s 200" "sint (1000 :: i64) = 1000" "sint (2000 :: i64) = 2000" by code_simp+
  have ts: "from_timestamp_millis (p_clock test_env) 1000 = Some 1000000000"
    "from_timestamp_millis (p_clock test_env) 2000 = Some 2000000000" by code_simp+
  have rows: "counted_rows test_renv test_env empty_conn 1 200 1000000000 2000000000 = []"
    by (simp add: counted_rows_def load_rows_def empty_conn_def)
  have f: "fits TYPE(64) (\<Sum>r\<leftarrow>counted_rows test_renv test_env empty_conn 1 200 1000000000 2000000000. row_qty r)"
    by (simp add: rows fits_def)
  have pool: "product_pool test_renv test_env empty_conn 1 200 = 1" by code_simp
  have ob: "map ob_id (linked_objects test_renv 1 200) = [101]" by code_simp
  then have "101 \<in> ob_id ` set (linked_objects test_renv 1 200)" by (metis list.set_intros(1) set_map)
  then show ?thesis
    using availability_spec [OF pos(1,2) ts f, of 1] by (simp add: Let_def rows pool pos(3,4))
qed

end
