(* ===== verification/Guest_Order.thy ===== *)
theory Guest_Order
  imports Tx_Store Guest_Reservation
begin

text \<open>
  Orders a guest places on a published site (\<open>servers/crates/mod_tx/src/guest_order.rs\<close>,
  \<open>guest_order_list.rs\<close> and \<open>guest_tx_meta.rs\<close>): repricing against the catalogue, holding
  reservations, saving, and who may read an order afterwards. The server of a call is \<open>server\<close>
  as for the staff handlers, with the reservation environment \<open>renv\<close>. Statements outside the
  database transaction run at \<open>rv_now\<close>.
\<close>

section \<open>Guest metadata\<close>

definition guest_tx_meta_merge :: "Value \<Rightarrow> i64 \<Rightarrow> string \<Rightarrow> Value" where
  "guest_tx_meta_merge base buyer_user_iid visitor_id =
     (let guest = Object [(''buyer_user_iid'', json_i64 buyer_user_iid), (''visitor_id'', String (trim visitor_id))];
          obj = (case as_object base of Some m \<Rightarrow> m | None \<Rightarrow> [])
      in Object (hm_insert ''guest'' guest obj))"

definition guest_tx_buyer_user_iid :: "Value \<Rightarrow> i64" where
  "guest_tx_buyer_user_iid tx_data_json =
     unwrap_or 0 (Option.bind (Option.bind (get_val tx_data_json ''guest'') (\<lambda>g. get_val g ''buyer_user_iid'')) as_i64)"

definition guest_tx_visitor_id :: "Value \<Rightarrow> string" where
  "guest_tx_visitor_id tx_data_json =
     trim (unwrap_or [] (Option.bind (Option.bind (get_val tx_data_json ''guest'') (\<lambda>g. get_val g ''visitor_id'')) as_str))"

definition set_tx_data :: "datetime \<Rightarrow> Value \<Rightarrow> TxCols row \<Rightarrow> TxCols row" where
  "set_tx_data now v r = r\<lparr> w_updated := now, w_cols := (w_cols r)\<lparr> h_tx_data_json := v \<rparr> \<rparr>"

definition guest_tx_meta_patch :: "datetime \<Rightarrow> i64 \<Rightarrow> i64 \<Rightarrow> i64 \<Rightarrow> string \<Rightarrow> conn \<Rightarrow> conn" where
  "guest_tx_meta_patch now site tx_id buyer_user_iid visitor_id s =
     (if buyer_user_iid \<le>s 0 \<and> trim visitor_id = [] then s
      else let base = (case find (live_of_tx site tx_id) (q_tx s) of
                         None \<Rightarrow> Object [] | Some r \<Rightarrow> h_tx_data_json (w_cols r));
               merged = guest_tx_meta_merge base buyer_user_iid visitor_id
           in s\<lparr> q_tx := map (\<lambda>r. if of_tx site tx_id r then set_tx_data now merged r else r) (q_tx s) \<rparr>)"

section \<open>Placing an order\<close>

record GuestOrderPutContext =
  gx_buyer_user_iid :: i64
  gx_visitor_id :: string

definition guest_site_owner :: "access \<Rightarrow> i64 \<Rightarrow> string + i64" where
  "guest_site_owner z site =
     (if \<not> site_published z site then Inl ''site not published''
      else case site_row z site of None \<Rightarrow> Inl ''site not found'' | Some row \<Rightarrow> Inr (id_owner_iid row))"

definition guest_order_normalize :: "penv \<Rightarrow> i64 \<Rightarrow> Tx \<Rightarrow> conn \<Rightarrow> Tx \<times> conn" where
  "guest_order_normalize e site tx s =
     (let (i, s) = snowflake_draw e s;
          tx = tx\<lparr> t_tx_id := i, t_site_iid := site, t_type := TxType_i32 Ty_Sale,
                   t_state := TxState_i32 St_WaitingPayment, t_input_mode := TxInputMode_i32 Mode_Sell,
                   t_input_source := TxInputSource_i32 Src_Web, t_is_task_assigned := True \<rparr>;
          (tx, s) = (if t_time_ts_ms tx = 0
                     then let (now, s) = utc_now e s in (tx\<lparr> t_time_ts_ms := timestamp_millis (p_clock e) now \<rparr>, s)
                     else (tx, s));
          tx = (if t_created_ts_ms tx = 0 then tx\<lparr> t_created_ts_ms := t_time_ts_ms tx \<rparr> else tx)
      in (tx, s))"

record ReservationHold =
  rh_product_id :: i64
  rh_start_ts_ms :: i64
  rh_end_ts_ms :: i64
  rh_site_object_id :: i64
  rh_qty :: i32

definition hold_blocks :: "i64 \<Rightarrow> i64 \<Rightarrow> i64 \<Rightarrow> ReservationHold \<Rightarrow> bool" where
  "hold_blocks product_id start_ts_ms end_ts_ms hold \<longleftrightarrow>
     rh_product_id hold = product_id \<and>
     reservation_windows_overlap (rh_start_ts_ms hold) (rh_end_ts_ms hold) start_ts_ms end_ts_ms"

fun holds_loop :: "i64 \<Rightarrow> i64 \<Rightarrow> i64 \<Rightarrow> ReservationHold list \<Rightarrow> i64 list \<times> i64 \<Rightarrow> i64 list \<times> i64" where
  "holds_loop product_id start_ts_ms end_ts_ms [] (free_ids, units_available) = (free_ids, units_available)"
| "holds_loop product_id start_ts_ms end_ts_ms (hold # holds) (free_ids, units_available) =
     (if \<not> hold_blocks product_id start_ts_ms end_ts_ms hold
      then holds_loop product_id start_ts_ms end_ts_ms holds (free_ids, units_available)
      else holds_loop product_id start_ts_ms end_ts_ms holds
        (if 0 <s rh_site_object_id hold then filter (\<lambda>i. i \<noteq> rh_site_object_id hold) free_ids else free_ids,
         smax (units_available - scast (rh_qty hold)) 0))"

definition availability_after_holds ::
  "Availability \<Rightarrow> i64 \<Rightarrow> i64 \<Rightarrow> i64 \<Rightarrow> ReservationHold list \<Rightarrow> i64 list \<times> i64" where
  "availability_after_holds avail product_id start_ts_ms end_ts_ms holds =
     holds_loop product_id start_ts_ms end_ts_ms holds
       (map fo_id (av_free_objects avail), av_units_available avail)"

definition guest_reservation_slot_ok :: "i64 \<Rightarrow> i32 \<Rightarrow> i64 list \<Rightarrow> i64 \<Rightarrow> string + unit" where
  "guest_reservation_slot_ok site_object_id qty free_object_ids units_available =
     (if qty <s 1 then Inl ''reservation qty required''
      else if 0 <s site_object_id then
        (if site_object_id \<notin> set free_object_ids then Inl ''reservation unit is not available'' else Inr ())
      else if units_available <s scast qty then Inl ''not enough units available''
      else Inr ())"

definition hold_put ::
  "renv \<Rightarrow> penv \<Rightarrow> conn \<Rightarrow> i64 \<Rightarrow> i64 \<Rightarrow> TxItemReservation \<Rightarrow> ReservationHold list \<Rightarrow> string + ReservationHold list" where
  "hold_put rv e s site product_id res holds =
     (if r_end_ts_ms res \<le>s r_start_ts_ms res then Inl ''reservation end must be after start''
      else if r_qty res <s 1 then Inl ''reservation qty required''
      else let avail = guest_reservation_availability rv e s site product_id (r_start_ts_ms res) (r_end_ts_ms res)
                         (scast (r_qty res));
               (free_ids, units_available) =
                 availability_after_holds avail product_id (r_start_ts_ms res) (r_end_ts_ms res) holds
           in bindE (guest_reservation_slot_ok (r_site_object_id res) (r_qty res) free_ids units_available) (\<lambda>_.
              Inr (holds @ [\<lparr> rh_product_id = product_id, rh_start_ts_ms = r_start_ts_ms res,
                rh_end_ts_ms = r_end_ts_ms res, rh_site_object_id = r_site_object_id res, rh_qty = r_qty res \<rparr>])))"

definition catalog_row :: "conn \<Rightarrow> i64 \<Rightarrow> i64 \<Rightarrow> ProductRow option" where
  "catalog_row s site product =
     find (\<lambda>p. pd_site_iid p = site \<and> pd_product_id p = product \<and> pd_deleted p = None \<and> \<not> pd_is_archived p) (q_product s)"

definition guest_item_qty :: "TxItem \<Rightarrow> string + TxItem" where
  "guest_item_qty item =
     (if i_reservations item \<noteq> [] then
        (let billable = reservation_billable_qty (i_reservations item)
         in if billable <s 1 \<or> word_of_int (2 ^ 31 - 1) <s billable then Inl ''reservation qty required''
            else Inr (item\<lparr> i_qty := scast billable \<rparr>))
      else if i_qty item \<le>s 0 then Inr (item\<lparr> i_qty := 1 \<rparr>) else Inr item)"

definition guest_item_reprice ::
  "renv \<Rightarrow> penv \<Rightarrow> conn \<Rightarrow> i64 \<Rightarrow> TxItem \<Rightarrow> ReservationHold list \<Rightarrow> string + TxItem \<times> ReservationHold list" where
  "guest_item_reprice rv e s site item holds =
     (if i_product_id item \<le>s 0 then Inl ''product_id required''
      else bindE (guest_item_qty item) (\<lambda>item.
        case catalog_row s site (i_product_id item) of
          None \<Rightarrow> Inl (''product not found: '' @ show_i64 (i_product_id item))
        | Some row \<Rightarrow>
            if i_reservations item \<noteq> [] \<and> \<not> pd_can_reserve row
            then Inl (''product cannot be reserved: '' @ show_i64 (i_product_id item))
            else if \<not> pd_can_sell row then Inl (''product not for sale: '' @ show_i64 (i_product_id item))
            else let item = (if i_price item \<le>s 0 then item\<lparr> i_price := pd_price row \<rparr> else item);
                     item = item\<lparr> i_product_rev := pd_rev row \<rparr>
                 in bindE (forE (hold_put rv e s site (i_product_id item)) (i_reservations item) holds)
                      (\<lambda>holds. Inr (item, holds))))"

definition guest_order_reprice :: "renv \<Rightarrow> penv \<Rightarrow> conn \<Rightarrow> i64 \<Rightarrow> Tx \<Rightarrow> string + Tx" where
  "guest_order_reprice rv e s site tx =
     (if trim (t_subject_name tx) = [] then Inl ''subject_name required''
      else if t_items tx = [] then Inl ''items required''
      else bindE (mapE (guest_item_reprice rv e s site) (t_items tx) []) (\<lambda>(items, _).
        Inr (tx\<lparr> t_items := items \<rparr>)))"

definition guest_order_commit :: "server \<Rightarrow> i64 \<Rightarrow> Tx \<Rightarrow> conn \<Rightarrow> string + Tx \<times> conn" where
  "guest_order_commit v owner tx s =
     (let e = v_env v;
          site = t_site_iid tx;
          (generated_count, manual_count) = tx_acc_counts tx
      in bindE (tx_children_del site (t_tx_id tx) s) (\<lambda>s.
         bindE (tx_header_put e owner tx generated_count manual_count s) (\<lambda>s.
         bindE (tx_children_put e tx s) (\<lambda>(tx, s).
         if unwrap_or St_WaitingPayment (TxState_try_from (t_state tx)) = St_Ok
         then bindE (product_stock_apply (v_products v) e site [] (t_stocks tx) s) (\<lambda>s. Inr (tx, s))
         else Inr (tx, s)))))"

definition guest_order_put ::
  "server \<Rightarrow> renv \<Rightarrow> i64 \<Rightarrow> Tx option \<Rightarrow> GuestOrderPutContext \<Rightarrow> conn \<Rightarrow> (string + Tx option) \<times> conn" where
  "guest_order_put v rv site req ctx s =
     (if site \<le>s 0 then (Inl ''site_iid required'', s)
      else case guest_site_owner (v_access v) site of
        Inl err \<Rightarrow> (Inl err, s)
      | Inr owner \<Rightarrow>
         (case req of
            None \<Rightarrow> (Inl ''tx required'', s)
          | Some tx \<Rightarrow>
             if 0 <s t_tx_id tx then (Inl ''guest orders cannot update existing tx'', s)
             else (case guest_order_reprice rv (v_env v) s site tx of
                Inl err \<Rightarrow> (Inl err, s)
              | Inr tx \<Rightarrow>
                 (let (tx, s1) = guest_order_normalize (v_env v) site tx (call_start s);
                      tx = tx_finalize (p_clock (v_env v)) (v_coa v) tx
                  in case guest_order_commit v owner tx s1 of
                       Inl err \<Rightarrow> (Inl err, s)
                     | Inr (tx, s2) \<Rightarrow>
                        (let s3 = guest_tx_meta_patch (rv_now rv) site (t_tx_id tx)
                                    (gx_buyer_user_iid ctx) (gx_visitor_id ctx) s2
                         in (Inr (tx_load (v_lo v) (v_env v) s3 site (t_tx_id tx)), s3))))))"

section \<open>Reading orders\<close>

definition guest_order_get_allowed :: "conn \<Rightarrow> i64 \<Rightarrow> i64 \<Rightarrow> i64 option \<Rightarrow> string option \<Rightarrow> bool" where
  "guest_order_get_allowed s site tx_id buyer_user_iid visitor_id =
     (case find (live_of_tx site tx_id) (q_tx s) of
        None \<Rightarrow> False
      | Some row \<Rightarrow>
          if h_input_source (w_cols row) \<noteq> ''web'' then False
          else let data = h_tx_data_json (w_cols row);
                   buyer = guest_tx_buyer_user_iid data
               in if 0 <s buyer then buyer_user_iid = Some buyer
                  else let vid = guest_tx_visitor_id data
                       in if vid = [] then True
                          else (case visitor_id of Some v \<Rightarrow> trim v = vid | None \<Rightarrow> False))"

definition guest_order_get ::
  "server \<Rightarrow> conn \<Rightarrow> i64 \<Rightarrow> i64 \<Rightarrow> i64 option \<Rightarrow> string option \<Rightarrow> string + Tx option" where
  "guest_order_get v s site tx_id buyer_user_iid visitor_id =
     (if site \<le>s 0 \<or> tx_id \<le>s 0 then Inl ''site_iid and tx_id required''
      else bindE (guest_site_owner (v_access v) site) (\<lambda>_.
        if \<not> guest_order_get_allowed s site tx_id buyer_user_iid visitor_id then Inl ''order not found''
        else Inr (case tx_load (v_lo v) (v_env v) s site tx_id of
                    None \<Rightarrow> None
                  | Some t \<Rightarrow> if t_input_source t = TxInputSource_i32 Src_Web then Some t else None)))"

definition guest_progress_label :: "string \<Rightarrow> string" where
  "guest_progress_label state =
     (if state = ''waiting_payment'' then ''Menunggu pembayaran''
      else if state = ''pending'' then ''Diproses''
      else if state = ''ok'' then ''Selesai''
      else if state = ''cancelled'' then ''Dibatalkan''
      else ''Diproses'')"

record SiteGuestOrderSummary =
  so_tx_id :: i64
  so_state :: string
  so_total :: i64
  so_time_ts_ms :: i64
  so_progress_label :: string

text \<open>\<open>pg_buyer\<close> is PostgreSQL's \<open>(tx_data_json->'guest'->>'buyer_user_iid')::bigint\<close>, whose cast may
  fail or give \<open>NULL\<close>; \<open>scan\<close> is the order in which rows of the same time come.\<close>

definition guest_order_list ::
  "(Value \<Rightarrow> string + i64 option) \<Rightarrow> (TxCols row list \<Rightarrow> TxCols row list) \<Rightarrow> server \<Rightarrow> conn \<Rightarrow> i64 \<Rightarrow> i64 \<Rightarrow>
   string + SiteGuestOrderSummary list" where
  "guest_order_list pg_buyer scan v s site buyer_user_iid =
     (if site \<le>s 0 \<or> buyer_user_iid \<le>s 0 then Inl ''site_iid and auth required''
      else bindE (guest_site_owner (v_access v) site) (\<lambda>_.
        bindE (mapE (\<lambda>r (). bindE (pg_buyer (h_tx_data_json (w_cols r))) (\<lambda>b. Inr ((r, b), ())))
            (filter (\<lambda>r. w_site r = site \<and> w_deleted r = None \<and> h_input_source (w_cols r) = ''web'') (scan (q_tx s))) ())
          (\<lambda>(rows, _). Inr (map (\<lambda>r. \<lparr> so_tx_id = w_tx r, so_state = h_state (w_cols r), so_total = h_total (w_cols r),
              so_time_ts_ms = timestamp_millis (p_clock (v_env v)) (h_time_ts (w_cols r)),
              so_progress_label = guest_progress_label (h_state (w_cols r)) \<rparr>)
            (take 50 (sort_key (\<lambda>r. - h_time_ts (w_cols r))
              (map fst (filter (\<lambda>(r, b). b = Some buyer_user_iid) rows))))))))"

section \<open>Claiming orders\<close>

definition may_merge :: "i64 \<Rightarrow> string \<Rightarrow> TxCols row \<Rightarrow> bool" where
  "may_merge buyer_user_iid visitor row \<longleftrightarrow>
     h_input_source (w_cols row) = ''web'' \<and>
     (let data = h_tx_data_json (w_cols row);
          existing_buyer = guest_tx_buyer_user_iid data;
          tx_visitor = guest_tx_visitor_id data
      in \<not> (0 <s existing_buyer \<and> existing_buyer \<noteq> buyer_user_iid) \<and>
         \<not> (visitor \<noteq> [] \<and> tx_visitor \<noteq> [] \<and> tx_visitor \<noteq> visitor))"

fun merge_loop :: "datetime \<Rightarrow> i64 \<Rightarrow> i64 \<Rightarrow> string \<Rightarrow> i64 list \<Rightarrow> i32 \<times> conn \<Rightarrow> i32 \<times> conn" where
  "merge_loop now site buyer_user_iid visitor [] (merged, s) = (merged, s)"
| "merge_loop now site buyer_user_iid visitor (tx_id # ids) (merged, s) =
     (if tx_id \<le>s 0 then merge_loop now site buyer_user_iid visitor ids (merged, s)
      else case find (live_of_tx site tx_id) (q_tx s) of
        None \<Rightarrow> merge_loop now site buyer_user_iid visitor ids (merged, s)
      | Some row \<Rightarrow>
          if \<not> may_merge buyer_user_iid visitor row
          then merge_loop now site buyer_user_iid visitor ids (merged, s)
          else let merged_json = guest_tx_meta_merge (h_tx_data_json (w_cols row)) buyer_user_iid visitor
               in merge_loop now site buyer_user_iid visitor ids
                    (merged + 1, s\<lparr> q_tx := map (\<lambda>r. if live_of_tx site tx_id r then set_tx_data now merged_json r else r) (q_tx s) \<rparr>))"

definition guest_member_merge :: "server \<Rightarrow> datetime \<Rightarrow> i64 \<Rightarrow> string \<Rightarrow> i64 list \<Rightarrow> i64 \<Rightarrow> conn \<Rightarrow> string + i32 \<times> conn" where
  "guest_member_merge v now site visitor_id order_ids buyer_user_iid s =
     (if site \<le>s 0 \<or> buyer_user_iid \<le>s 0 then Inl ''site_iid and auth required''
      else bindE (guest_site_owner (v_access v) site) (\<lambda>_.
        Inr (merge_loop now site buyer_user_iid (trim visitor_id) order_ids (0, s))))"

section \<open>Holds of one order\<close>

definition hold_of :: "i64 \<Rightarrow> TxItemReservation \<Rightarrow> ReservationHold" where
  "hold_of product_id res = \<lparr> rh_product_id = product_id, rh_start_ts_ms = r_start_ts_ms res,
     rh_end_ts_ms = r_end_ts_ms res, rh_site_object_id = r_site_object_id res, rh_qty = r_qty res \<rparr>"

definition item_holds :: "TxItem \<Rightarrow> ReservationHold list" where
  "item_holds item = map (hold_of (i_product_id item)) (i_reservations item)"

definition order_holds :: "Tx \<Rightarrow> ReservationHold list" where
  "order_holds tx = concat (map item_holds (t_items tx))"

text \<open>A hold fits beside the reservations in the tables and the holds before it.\<close>

definition admits :: "renv \<Rightarrow> penv \<Rightarrow> conn \<Rightarrow> i64 \<Rightarrow> ReservationHold list \<Rightarrow> ReservationHold \<Rightarrow> bool" where
  "admits rv e s site holds h \<longleftrightarrow>
     (let avail = guest_reservation_availability rv e s site (rh_product_id h) (rh_start_ts_ms h) (rh_end_ts_ms h)
            (scast (rh_qty h));
          before = filter (hold_blocks (rh_product_id h) (rh_start_ts_ms h) (rh_end_ts_ms h)) holds
      in rh_start_ts_ms h <s rh_end_ts_ms h \<and> 1 \<le>s rh_qty h \<and>
         (if 0 <s rh_site_object_id h
          then rh_site_object_id h \<in> fo_id ` set (av_free_objects avail) \<and>
               (\<forall>g \<in> set before. rh_site_object_id g \<noteq> rh_site_object_id h)
          else (\<Sum>g\<leftarrow>before. sint (rh_qty g)) + sint (rh_qty h) \<le> sint (av_units_available avail)))"

definition holds_ok :: "renv \<Rightarrow> penv \<Rightarrow> conn \<Rightarrow> i64 \<Rightarrow> ReservationHold list \<Rightarrow> bool" where
  "holds_ok rv e s site hs \<longleftrightarrow> (\<forall>k < length hs. admits rv e s site (take k hs) (hs ! k))"

lemma holds_ok_Nil [simp]: "holds_ok rv e s site []"
  by (simp add: holds_ok_def)

lemma holds_ok_snoc: "holds_ok rv e s site (hs @ [h]) \<longleftrightarrow> holds_ok rv e s site hs \<and> admits rv e s site hs h"
  by (auto simp: holds_ok_def less_Suc_eq nth_append)

lemma admitsD: "admits rv e s site holds h \<Longrightarrow> 1 \<le>s rh_qty h"
  by (simp add: admits_def Let_def)

lemma holds_ok_qty: "holds_ok rv e s site hs \<Longrightarrow> h \<in> set hs \<Longrightarrow> 0 \<le> sint (rh_qty h)"
  by (fastforce simp: holds_ok_def in_set_conv_nth word_sle_eq dest: admitsD)

lemma avail_units_nonneg: "0 \<le> sint (av_units_available (guest_reservation_availability rv e s site p a b n))"
  by (simp add: guest_reservation_availability_def Let_def split_beta units_left_def)

lemma holds_loop_free: "set (fst (holds_loop p a b hs (free, u))) =
    {i \<in> set free. \<forall>g \<in> set (filter (hold_blocks p a b) hs). 0 <s rh_site_object_id g \<longrightarrow> rh_site_object_id g \<noteq> i}"
  by (induction hs arbitrary: free u) auto

lemma sint_sub_qty:
  assumes "0 \<le> sint (u :: i64)" and "0 \<le> sint (q :: i32)"
  shows "sint (smax (u - scast q) 0) = max 0 (sint u - sint q)"
proof -
  have "fits TYPE(64) (sint u - sint (scast q :: i64))"
    using assms sint_lt [of u] sint_lt [of q] by (simp add: fits_def)
  from sint_diff_fits [OF this] show ?thesis by (simp add: max.commute)
qed

lemma holds_loop_units:
  assumes "\<forall>g \<in> set hs. 0 \<le> sint (rh_qty g)" and "0 \<le> sint u"
  shows "sint (snd (holds_loop p a b hs (free, u))) =
    max 0 (sint u - (\<Sum>g\<leftarrow>filter (hold_blocks p a b) hs. sint (rh_qty g)))"
  using assms
proof (induction hs arbitrary: free u)
  case (Cons h hs)
  have nonneg: "0 \<le> (\<Sum>g\<leftarrow>filter (hold_blocks p a b) hs. sint (rh_qty g))"
    using Cons.prems(1) by (intro sum_list_nonneg) auto
  show ?case
    using Cons.prems Cons.IH [of "smax (u - scast (rh_qty h)) 0"] nonneg sint_sub_qty [of u "rh_qty h"]
      Cons.IH [of u] by auto
qed simp

lemma hold_put_admits:
  assumes "hold_put rv e s site p res holds = Inr holds'" and "holds_ok rv e s site holds"
  shows "holds' = holds @ [hold_of p res] \<and> holds_ok rv e s site holds'"
proof -
  let ?avail = "guest_reservation_availability rv e s site p (r_start_ts_ms res) (r_end_ts_ms res) (scast (r_qty res))"
  let ?fu = "availability_after_holds ?avail p (r_start_ts_ms res) (r_end_ts_ms res) holds"
  have win: "r_start_ts_ms res <s r_end_ts_ms res" and qty: "1 \<le>s r_qty res"
    and ok: "guest_reservation_slot_ok (r_site_object_id res) (r_qty res) (fst ?fu) (snd ?fu) = Inr ()"
    and h: "holds' = holds @ [hold_of p res]"
    using assms(1)
    by (auto simp: hold_put_def bindE_Inr Let_def split_beta hold_of_def word_sle_eq word_sless_alt split: if_splits)
  have q: "\<forall>g \<in> set holds. 0 \<le> sint (rh_qty g)" using holds_ok_qty [OF assms(2)] by blast
  note free = holds_loop_free [of p "r_start_ts_ms res" "r_end_ts_ms res" holds "map fo_id (av_free_objects ?avail)" "av_units_available ?avail"]
  note units = holds_loop_units [OF q avail_units_nonneg, of p "r_start_ts_ms res" "r_end_ts_ms res" "map fo_id (av_free_objects ?avail)"]
  have "admits rv e s site holds (hold_of p res)"
  proof (cases "0 <s r_site_object_id res")
    case True
    then have "r_site_object_id res \<in> set (fst ?fu)"
      using ok qty by (auto simp: guest_reservation_slot_ok_def split: if_splits)
    then show ?thesis
      using True win qty free by (auto simp: admits_def hold_of_def Let_def availability_after_holds_def)
  next
    case False
    then have "sint (r_qty res) \<le> sint (snd ?fu)" using ok qty
      by (auto simp: guest_reservation_slot_ok_def word_sless_alt word_sle_eq split: if_splits)
    then show ?thesis
      using False win qty units by (auto simp: admits_def hold_of_def Let_def availability_after_holds_def word_sle_eq)
  qed
  with h assms(2) show ?thesis by (simp add: holds_ok_snoc)
qed

lemma holds_put_admits:
  assumes "forE (hold_put rv e s site p) rs holds = Inr holds'" and "holds_ok rv e s site holds"
  shows "holds' = holds @ map (hold_of p) rs \<and> holds_ok rv e s site holds'"
  using assms
proof (induction rs arbitrary: holds)
  case (Cons r rs)
  from Cons.prems(1) obtain h1 where 1: "hold_put rv e s site p r holds = Inr h1" and
    2: "forE (hold_put rv e s site p) rs h1 = Inr holds'" by (auto simp: bindE_Inr)
  note h = hold_put_admits [OF 1 Cons.prems(2)]
  from Cons.IH [OF 2 conjunct2 [OF h]] h show ?case by auto
qed simp

lemma sint_narrow:
  assumes "fits TYPE(32) (sint (x :: i64))"
  shows "sint (scast x :: i32) = sint x"
  using sint_of_int_fits [OF assms] by (simp add: of_int_sint)

text \<open>What repricing an item leaves of it.\<close>

lemma item_reprice_Inr:
  assumes "guest_item_reprice rv e s site item holds = Inr (item', holds')"
  obtains row q where "catalog_row s site (i_product_id item) = Some row" and "pd_can_sell row"
    and "item' = item\<lparr> i_qty := q, i_price := (if i_price item \<le>s 0 then pd_price row else i_price item), i_product_rev := pd_rev row \<rparr>"
    and "0 <s i_product_id item" and "1 \<le>s q" and "i_reservations item \<noteq> [] \<Longrightarrow> pd_can_reserve row"
    and "forE (hold_put rv e s site (i_product_id item)) (i_reservations item) holds = Inr holds'"
proof -
  from assms obtain it where it: "guest_item_qty item = Inr it" and pos: "0 <s i_product_id item"
    by (auto simp: guest_item_reprice_def bindE_Inr word_sle_eq word_sless_alt split: if_splits)
  have q: "it = item\<lparr> i_qty := i_qty it \<rparr> \<and> 1 \<le>s i_qty it"
  proof (cases "i_reservations item = []")
    case True
    then show ?thesis using it by (auto simp: guest_item_qty_def word_sle_eq split: if_splits)
  next
    case False
    let ?b = "reservation_billable_qty (i_reservations item)"
    have b: "it = item\<lparr> i_qty := scast ?b \<rparr>" "1 \<le> sint ?b" "sint ?b \<le> 2 ^ 31 - 1"
      using it False by (auto simp: guest_item_qty_def Let_def word_sle_eq word_sless_alt sint_of_int_fits fits_def split: if_splits)
    have "sint (scast ?b :: i32) = sint ?b" by (rule sint_narrow) (use b(2,3) in \<open>simp add: fits_def\<close>)
    then show ?thesis using b by (simp add: word_sle_eq)
  qed
  then obtain n where n: "it = item\<lparr> i_qty := n \<rparr>" "1 \<le>s n" by blast
  have u: "guest_item_reprice rv e s site item holds =
      (case catalog_row s site (i_product_id item) of
          None \<Rightarrow> Inl (''product not found: '' @ show_i64 (i_product_id item))
        | Some row \<Rightarrow>
            if i_reservations item \<noteq> [] \<and> \<not> pd_can_reserve row
            then Inl (''product cannot be reserved: '' @ show_i64 (i_product_id item))
            else if \<not> pd_can_sell row then Inl (''product not for sale: '' @ show_i64 (i_product_id item))
            else bindE (forE (hold_put rv e s site (i_product_id item)) (i_reservations item) holds)
              (\<lambda>holds. Inr (item\<lparr> i_qty := n, i_price := (if i_price item \<le>s 0 then pd_price row else i_price item),
                 i_product_rev := pd_rev row \<rparr>, holds)))"
    using pos by (auto simp: guest_item_reprice_def it n(1) Let_def word_sle_eq word_sless_alt split: option.split)
  obtain row where row: "catalog_row s site (i_product_id item) = Some row"
    using assms u by (cases "catalog_row s site (i_product_id item)") auto
  show ?thesis
  proof (rule that [OF row _ _ pos n(2)])
    show "pd_can_sell row" "i_reservations item \<noteq> [] \<Longrightarrow> pd_can_reserve row"
      using assms unfolding u row by (auto split: if_splits)
    show "item' = item\<lparr>i_qty := n, i_price := (if i_price item \<le>s 0 then pd_price row else i_price item), i_product_rev := pd_rev row\<rparr>"
      "forE (hold_put rv e s site (i_product_id item)) (i_reservations item) holds = Inr holds'"
      using assms unfolding u row by (auto simp: bindE_Inr split: if_splits)
  qed
qed

lemma items_reprice_holds:
  assumes "mapE (guest_item_reprice rv e s site) items holds = Inr (items', holds')" and "holds_ok rv e s site holds"
  shows "holds' = holds @ concat (map item_holds items') \<and> holds_ok rv e s site holds'"
  using assms
proof (induction items arbitrary: holds items')
  case (Cons i js)
  from Cons.prems(1) obtain i' h1 js' where 1: "guest_item_reprice rv e s site i holds = Inr (i', h1)" and
    2: "mapE (guest_item_reprice rv e s site) js h1 = Inr (js', holds')" and e: "items' = i' # js'"
    by (auto simp: bindE_Inr)
  from 1 have f: "forE (hold_put rv e s site (i_product_id i)) (i_reservations i) holds = Inr h1"
    and same: "i_product_id i' = i_product_id i" "i_reservations i' = i_reservations i"
    by (rule item_reprice_Inr, simp)+
  note h = holds_put_admits [OF f Cons.prems(2)]
  from Cons.IH [OF 2 conjunct2 [OF h]] h show ?case by (auto simp: e item_holds_def same)
qed simp

lemma reprice_holds:
  assumes "guest_order_reprice rv e s site tx = Inr tx'"
  shows "holds_ok rv e s site (order_holds tx')"
  using assms items_reprice_holds [of rv e s site "t_items tx" "[]"]
  by (auto simp: guest_order_reprice_def bindE_Inr order_holds_def split: if_splits)

section \<open>Properties\<close>

definition object_pk :: "renv \<Rightarrow> bool" where
  "object_pk rv \<longleftrightarrow> distinct (map ob_id (rv_objects rv))"

lemma free_object_linked:
  assumes "i \<in> fo_id ` set (av_free_objects (guest_reservation_availability rv e s site p a b n))"
  obtains ob where "ob \<in> set (linked_objects rv site p)" and "ob_id ob = i"
  using assms by (auto simp: guest_reservation_availability_def Let_def split_beta split: if_splits)

lemma free_object_product:
  assumes "object_pk rv" and "i \<in> fo_id ` set (av_free_objects (guest_reservation_availability rv e s site p a b n))"
    and "i \<in> fo_id ` set (av_free_objects (guest_reservation_availability rv e s site q a' b' n'))"
  shows "p = q"
proof -
  obtain x y where "x \<in> set (linked_objects rv site p)" "ob_id x = i" "y \<in> set (linked_objects rv site q)" "ob_id y = i"
    using assms(2,3) by (metis free_object_linked)
  then have xy: "x \<in> set (rv_objects rv)" "y \<in> set (rv_objects rv)" "ob_id x = ob_id y"
    "ob_product_id x = Some p" "ob_product_id y = Some q" by (auto simp: linked_objects_def)
  then have "x = y" using assms(1) by (metis distinct_key_unique object_pk_def)
  then show ?thesis using xy by simp
qed

text \<open>Claim C8. A guest order books no unit twice. When the order is accepted, every reservation that names an
  object, the first and a lone one too, names an active, reservable object of its product that no
  reservation in the tables holds in its window; and no two of the order's reservations whose
  windows overlap name the same object, whether they are for the same product or not. The ids of
  objects are their primary key.\<close>

theorem guest_order_no_double_booking:
  assumes "guest_order_reprice rv e s site tx = Inr tx'" and "object_pk rv"
  shows "(\<forall>h \<in> set (order_holds tx'). 0 <s rh_site_object_id h \<longrightarrow>
      rh_site_object_id h \<in> ob_id ` set (linked_objects rv site (rh_product_id h)) \<and>
      rh_site_object_id h \<in> fo_id ` set (av_free_objects (guest_reservation_availability rv e s site (rh_product_id h)
        (rh_start_ts_ms h) (rh_end_ts_ms h) (scast (rh_qty h))))) \<and>
    (\<forall>j k g h. j < length (order_holds tx') \<and> k < length (order_holds tx') \<and> j \<noteq> k \<and>
      g = order_holds tx' ! j \<and> h = order_holds tx' ! k \<and> 0 <s rh_site_object_id g \<and>
      reservation_windows_overlap (rh_start_ts_ms g) (rh_end_ts_ms g) (rh_start_ts_ms h) (rh_end_ts_ms h) \<longrightarrow>
      rh_site_object_id g \<noteq> rh_site_object_id h)"
proof -
  let ?hs = "order_holds tx'"
  let ?free = "\<lambda>h. fo_id ` set (av_free_objects (guest_reservation_availability rv e s site (rh_product_id h)
        (rh_start_ts_ms h) (rh_end_ts_ms h) (scast (rh_qty h))))"
  have ad: "admits rv e s site (take k ?hs) (?hs ! k)" if "k < length ?hs" for k
    using reprice_holds [OF assms(1)] that by (simp add: holds_ok_def)
  have free: "rh_site_object_id h \<in> ?free h" if hh: "h \<in> set ?hs" "0 <s rh_site_object_id h" for h
  proof -
    obtain k where "k < length ?hs" "?hs ! k = h" using hh(1) by (auto simp: in_set_conv_nth)
    with ad [of k] hh(2) show ?thesis by (simp add: admits_def Let_def)
  qed
  have later: "rh_site_object_id (?hs ! j) \<noteq> rh_site_object_id (?hs ! k)"
    if "j < k" "k < length ?hs" "0 <s rh_site_object_id (?hs ! k)"
      "reservation_windows_overlap (rh_start_ts_ms (?hs ! j)) (rh_end_ts_ms (?hs ! j)) (rh_start_ts_ms (?hs ! k)) (rh_end_ts_ms (?hs ! k))"
    for j k
  proof
    assume same: "rh_site_object_id (?hs ! j) = rh_site_object_id (?hs ! k)"
    have "rh_site_object_id (?hs ! k) \<in> ?free (?hs ! j)" "rh_site_object_id (?hs ! k) \<in> ?free (?hs ! k)"
      using free [of "?hs ! j"] free [of "?hs ! k"] that(1-3) same by simp_all
    then have "rh_product_id (?hs ! j) = rh_product_id (?hs ! k)" by (rule free_object_product [OF assms(2)])
    moreover have "?hs ! j \<in> set (take k ?hs)"
      using that(1,2) by (auto simp: in_set_conv_nth intro!: exI [of _ j])
    ultimately show False using ad [OF that(2)] that(3,4) same by (auto simp: admits_def Let_def hold_blocks_def)
  qed
  have sym: "reservation_windows_overlap a b c d = reservation_windows_overlap c d a b" for a b c d
    by (auto simp: reservation_windows_overlap_def)
  have "rh_site_object_id h \<in> ob_id ` set (linked_objects rv site (rh_product_id h))"
    if "h \<in> set ?hs" "0 <s rh_site_object_id h" for h
    using free [OF that] by (metis free_object_linked imageI)
  then show ?thesis using free later sym by (metis linorder_neqE_nat)
qed

text \<open>Claim C9. A guest order takes no more units than are left: for every reservation of an accepted order
  that names no object, its quantity and those of the order's earlier reservations of the same
  product with an overlapping window are together at most the units available, counted in
  unbounded integers.\<close>

theorem guest_order_within_units:
  assumes "guest_order_reprice rv e s site tx = Inr tx'" and "k < length (order_holds tx')"
    and "h = order_holds tx' ! k" and "\<not> 0 <s rh_site_object_id h"
  shows "(\<Sum>g\<leftarrow>filter (hold_blocks (rh_product_id h) (rh_start_ts_ms h) (rh_end_ts_ms h)) (take k (order_holds tx')). sint (rh_qty g))
      + sint (rh_qty h) \<le> sint (av_units_available (guest_reservation_availability rv e s site (rh_product_id h)
          (rh_start_ts_ms h) (rh_end_ts_ms h) (scast (rh_qty h)))) \<and> 1 \<le> sint (rh_qty h)"
proof -
  have "admits rv e s site (take k (order_holds tx')) h"
    using reprice_holds [OF assms(1)] assms(2,3) by (simp add: holds_ok_def)
  then show ?thesis using assms(4) by (simp add: admits_def Let_def word_sle_eq)
qed

lemma items_reprice_rel:
  assumes "mapE (guest_item_reprice rv e s site) items holds = Inr (items', holds')"
  shows "list_all2 (\<lambda>i i'. \<exists>holds holds'. guest_item_reprice rv e s site i holds = Inr (i', holds')) items items'"
  using assms by (induction items arbitrary: holds items') (auto simp: bindE_Inr)

text \<open>What an accepted guest order buys: every item is a product of the catalogue that is live, not
  archived and for sale, reservable when the item has reservations, in a quantity of at least one,
  at the catalogue's revision. Its price is the catalogue's only when the guest sent none: a
  positive price in the request is kept as it is.\<close>

theorem guest_order_prices:
  assumes "guest_order_reprice rv e s site tx = Inr tx'"
  shows "trim (t_subject_name tx') \<noteq> [] \<and> t_items tx' \<noteq> [] \<and>
    list_all2 (\<lambda>i i'. \<exists>row. catalog_row s site (i_product_id i) = Some row \<and> i_product_id i' = i_product_id i \<and>
        pd_can_sell row \<and> (i_reservations i' \<noteq> [] \<longrightarrow> pd_can_reserve row) \<and> 1 \<le>s i_qty i' \<and>
        i_product_rev i' = pd_rev row \<and> i_price i' = (if i_price i \<le>s 0 then pd_price row else i_price i))
      (t_items tx) (t_items tx')"
proof -
  from assms obtain items holds where m: "mapE (guest_item_reprice rv e s site) (t_items tx) [] = Inr (items, holds)"
    and tx': "tx' = tx\<lparr>t_items := items\<rparr>" and ne: "trim (t_subject_name tx) \<noteq> []" "t_items tx \<noteq> []"
    by (auto simp: guest_order_reprice_def bindE_Inr split: if_splits)
  have "items \<noteq> []" using list_all2_lengthD [OF items_reprice_rel [OF m]] ne(2) by auto
  moreover have "list_all2 (\<lambda>i i'. \<exists>row. catalog_row s site (i_product_id i) = Some row \<and> i_product_id i' = i_product_id i \<and>
        pd_can_sell row \<and> (i_reservations i' \<noteq> [] \<longrightarrow> pd_can_reserve row) \<and> 1 \<le>s i_qty i' \<and>
        i_product_rev i' = pd_rev row \<and> i_price i' = (if i_price i \<le>s 0 then pd_price row else i_price i))
      (t_items tx) items"
    using items_reprice_rel [OF m]
    by (rule list.rel_mono_strong) (elim exE, erule item_reprice_Inr, simp)
  ultimately show ?thesis using ne by (simp add: tx')
qed

section \<open>Examples\<close>

definition room_product :: ProductRow where
  "room_product = test_product\<lparr> pd_product_id := 200, pd_can_reserve := True \<rparr>"

definition room_night :: "i64 \<Rightarrow> i64 \<Rightarrow> i64 \<Rightarrow> TxItemReservation" where
  "room_night obj a b = TxItemReservation_default\<lparr> r_qty := 1, r_duration_qty := 1, r_site_object_id := obj,
     r_start_ts_ms := a, r_end_ts_ms := b \<rparr>"

definition room_order :: "TxItemReservation list \<Rightarrow> Tx" where
  "room_order rs = Tx_default\<lparr> t_subject_name := ''Guest'', t_time_ts_ms := 1700000000000,
     t_items := [TxItem_default\<lparr> i_product_id := 200, i_reservations := rs \<rparr>] \<rparr>"

definition room_conn :: conn where
  "room_conn = empty_conn\<lparr> q_product := [test_product, room_product] \<rparr>"

definition two_rooms :: renv where
  "two_rooms = test_renv\<lparr> rv_objects := rv_objects test_renv @ map (\<lambda>b. b\<lparr> ob_id := 102 \<rparr>) (rv_objects test_renv) \<rparr>"

definition repriced :: "TxItemReservation list \<Rightarrow> string + Tx" where
  "repriced rs = guest_order_reprice two_rooms test_env room_conn 1 (room_order rs)"

definition repriced_tx :: "TxItemReservation list \<Rightarrow> Tx" where
  "repriced_tx rs = (case repriced rs of Inr tx \<Rightarrow> tx | Inl _ \<Rightarrow> Tx_default)"

lemma repriced_ok: "isl (repriced rs) = False \<Longrightarrow> guest_order_reprice two_rooms test_env room_conn 1 (room_order rs) = Inr (repriced_tx rs)"
  by (cases "repriced rs") (auto simp: repriced_def repriced_tx_def)

definition picked_rooms :: "TxItemReservation list" where
  "picked_rooms = [room_night 101 1000 2000, room_night 102 1500 2500]"

definition any_rooms :: "TxItemReservation list" where
  "any_rooms = [room_night 0 1000 2000, room_night 0 1500 2500]"

lemma picked_facts: "isl (repriced picked_rooms) = False" "order_holds (repriced_tx picked_rooms) = map (hold_of 200) picked_rooms"
  by code_simp+

lemma any_facts: "isl (repriced any_rooms) = False" "order_holds (repriced_tx any_rooms) = map (hold_of 200) any_rooms"
  by code_simp+

theorem guest_order_no_double_booking_witness:
  "\<exists>tx'. guest_order_reprice two_rooms test_env room_conn 1 (room_order picked_rooms) = Inr tx' \<and> object_pk two_rooms \<and>
     order_holds tx' = map (hold_of 200) picked_rooms \<and> rh_site_object_id (order_holds tx' ! 0) \<noteq> rh_site_object_id (order_holds tx' ! 1) \<and>
     101 \<in> ob_id ` set (linked_objects two_rooms 1 200)"
proof -
  let ?tx = "repriced_tx picked_rooms"
  note r = repriced_ok [OF picked_facts(1)]
  have h: "order_holds ?tx ! 0 = hold_of 200 (room_night 101 1000 2000)" "order_holds ?tx ! 1 = hold_of 200 (room_night 102 1500 2500)"
    "length (order_holds ?tx) = 2" unfolding picked_facts(2) by (simp_all add: picked_rooms_def)
  have o: "0 <s rh_site_object_id (order_holds ?tx ! 0)"
    "reservation_windows_overlap (rh_start_ts_ms (order_holds ?tx ! 0)) (rh_end_ts_ms (order_holds ?tx ! 0))
       (rh_start_ts_ms (order_holds ?tx ! 1)) (rh_end_ts_ms (order_holds ?tx ! 1))"
    unfolding h by code_simp+
  have pk: "object_pk two_rooms" by (simp add: object_pk_def two_rooms_def test_renv_def)
  note g = guest_order_no_double_booking [OF r pk]
  have "order_holds ?tx ! 0 \<in> set (order_holds ?tx)" using h(3) by simp
  with conjunct1 [OF g] o(1) have "rh_site_object_id (order_holds ?tx ! 0) \<in>
      ob_id ` set (linked_objects two_rooms 1 (rh_product_id (order_holds ?tx ! 0)))" by blast
  then have "101 \<in> ob_id ` set (linked_objects two_rooms 1 200)"
    unfolding h(1) by (simp add: hold_of_def room_night_def)
  moreover have "rh_site_object_id (order_holds ?tx ! 0) \<noteq> rh_site_object_id (order_holds ?tx ! 1)"
    using conjunct2 [OF g, rule_format, of 0 1] o h(3) by simp
  ultimately show ?thesis using r picked_facts(2) pk by blast
qed

theorem guest_order_within_units_witness:
  "\<exists>tx'. guest_order_reprice two_rooms test_env room_conn 1 (room_order any_rooms) = Inr tx' \<and>
     order_holds tx' = map (hold_of 200) any_rooms \<and> 1 \<le> sint (rh_qty (order_holds tx' ! 1))"
proof -
  let ?tx = "repriced_tx any_rooms"
  note r = repriced_ok [OF any_facts(1)]
  have h: "order_holds ?tx ! 1 = hold_of 200 (room_night 0 1500 2500)" "1 < length (order_holds ?tx)"
    unfolding any_facts(2) by (simp_all add: any_rooms_def)
  have o: "\<not> 0 <s rh_site_object_id (order_holds ?tx ! 1)" unfolding h(1) by code_simp
  show ?thesis using guest_order_within_units [OF r h(2) refl o] r any_facts(2) by auto
qed

theorem guest_order_prices_witness:
  "\<exists>tx'. guest_order_reprice two_rooms test_env room_conn 1 (room_order picked_rooms) = Inr tx' \<and> t_items tx' \<noteq> [] \<and>
     map i_price (t_items tx') = [5000]"
proof -
  have p: "map i_price (t_items (repriced_tx picked_rooms)) = [5000]" by code_simp
  note r = repriced_ok [OF picked_facts(1)]
  from guest_order_prices [OF r] have "t_items (repriced_tx picked_rooms) \<noteq> []" by (elim conjE)
  with r p show ?thesis by (intro exI conjI)
qed

end
