(* ===== verification/Guest_Store.thy ===== *)
theory Guest_Store
  imports Guest_Order
begin

text \<open>
  What guest calls leave in the tables, alone and mixed with the calls of staff: a guest order is
  saved as an unpaid web sale that moves no stock and touches no other transaction, only its buyer
  or visitor may read it, and the laws of \<open>keyed_store\<close> hold for every mixture of calls.
\<close>

section \<open>Saving\<close>

lemma waiting_state [simp]: "TxState_try_from 3 = Some St_WaitingPayment"
  by code_simp

text \<open>The commit of a guest order is the commit of a transaction that waits for payment.\<close>

lemma guest_commit_eq:
  assumes "t_state tx = TxState_i32 St_WaitingPayment"
  shows "guest_order_commit v owner tx s = tx_put_commit v owner [] tx s"
proof -
  have "t_state (fst r) = TxState_i32 St_WaitingPayment" if "tx_children_put e tx s0 = Inr r" for e s0 r
    using children_put_same(4) [of e tx s0 "fst r" "snd r"] that assms by simp
  then have k: "bindE (tx_children_put e tx s0) (\<lambda>(tx, s). if unwrap_or St_WaitingPayment (TxState_try_from (t_state tx)) = St_Ok
         then f tx s else Inr (tx, s)) =
      bindE (tx_children_put e tx s0) (\<lambda>(tx, s). if unwrap_or St_Ok (TxState_try_from (t_state tx)) = St_Ok
         then f tx s else Inr (tx, s))" for e s0 f
    by (cases "tx_children_put e tx s0") (auto simp: split_beta)
  show ?thesis unfolding guest_order_commit_def tx_put_commit_def Let_def k ..
qed

text \<open>The row a save leaves, and the products as they were when it is not in state Ok.\<close>

lemma commit_row:
  assumes "tx_put_commit v owner old tx s = Inr (tx', s')"
  obtains row time where "find (live_of_tx (t_site_iid tx) (t_tx_id tx)) (q_tx s') = Some row"
    and "w_cols row = header_cols owner time (fst (tx_acc_counts tx)) (snd (tx_acc_counts tx)) tx"
proof -
  from assms obtain s1 s2 s3 p where c:
    "tx_header_put (v_env v) owner tx (fst (tx_acc_counts tx)) (snd (tx_acc_counts tx)) s1 = Inr s2"
    "tx_children_put (v_env v) tx s2 = Inr (tx', s3)" "s' = s3\<lparr>q_product := p\<rparr>"
    by (rule commit_steps)
  show ?thesis using header_put_row [OF c(1)] tx_children_put_rows(1) [OF c(2)] c(3) that by auto
qed

lemma commit_products:
  assumes "tx_put_commit v owner old tx s = Inr (tx', s')" and "t_state tx = TxState_i32 St_WaitingPayment"
  shows "map product_view (q_product s') = map product_view (q_product s)"
proof -
  from assms(1) obtain s1 s2 s3 where 1: "tx_children_del (t_site_iid tx) (t_tx_id tx) s = Inr s1"
    "tx_header_put (v_env v) owner tx (fst (tx_acc_counts tx)) (snd (tx_acc_counts tx)) s1 = Inr s2"
    "tx_children_put (v_env v) tx s2 = Inr (tx', s3)"
    and st: "unwrap_or St_Ok (TxState_try_from (t_state tx')) \<noteq> St_Ok \<longrightarrow> s' = s3"
    by (auto simp: tx_put_commit_def Let_def split_beta bindE_Inr split: if_splits)
  have "s' = s3" using st children_put_same(4) [OF 1(3)] assms(2) by simp
  then show ?thesis
    using children_del_kept [OF 1(1)] header_put_kept [OF 1(2)] children_put_kept [OF 1(3)] by (simp add: kept_def)
qed

section \<open>The metadata of a guest\<close>

lemma tx_data_guest [simp]: "tx_data_from_json (guest_tx_meta_merge (Object m) buyer vid) = tx_data_from_json (Object m)"
  by (simp add: guest_tx_meta_merge_def tx_data_from_json_def field_defs)

lemma tx_data_column_object: "\<exists>m. (case t_tx_data tx of Some d \<Rightarrow> tx_data_to_json d | None \<Rightarrow> Object []) = Object m \<and> map_of m ''guest'' = None"
  by (cases "t_tx_data tx") (simp_all add: tx_data_to_json_def Let_def)

lemma trim_idem [simp]: "trim (trim s) = trim s"
proof -
  have "dropWhile P (rev (dropWhile P (rev xs))) = rev (dropWhile P (rev xs))" if "dropWhile P xs = xs" for P and xs :: string
  proof -
    have "xs = rev (dropWhile P (rev xs)) @ rev (takeWhile P (rev xs))"
      by (metis rev_append rev_rev_ident takeWhile_dropWhile_id)
    then have "rev (dropWhile P (rev xs)) = [] \<or> hd (rev (dropWhile P (rev xs))) = hd xs" by (metis hd_append2)
    then show ?thesis using that unfolding dropWhile_eq_self_iff by (metis rev.simps(1) rev_rev_ident dropWhile.simps(1))
  qed
  then show ?thesis by (simp add: trim_def)
qed

lemma meta_merge_read [simp]:
  "guest_tx_buyer_user_iid (guest_tx_meta_merge base buyer vid) = buyer"
  "guest_tx_visitor_id (guest_tx_meta_merge base buyer vid) = trim vid"
  by (simp_all add: guest_tx_buyer_user_iid_def guest_tx_visitor_id_def guest_tx_meta_merge_def Let_def)

lemma meta_merge_idem: "guest_tx_meta_merge (guest_tx_meta_merge base b w) buyer vid = guest_tx_meta_merge base buyer vid"
proof -
  have "hm_insert k x (hm_insert k y m) = hm_insert k x m" for k :: string and x y :: Value and m
    by (induction m) auto
  then show ?thesis by (simp add: guest_tx_meta_merge_def Let_def)
qed

lemma patch_find:
  "find (live_of_tx site i) (map (\<lambda>r. if of_tx site i r then set_tx_data now v r else r) t) =
     map_option (set_tx_data now v) (find (live_of_tx site i) t)"
  by (induction t) (auto simp: live_of_tx_def of_tx_def set_tx_data_def)

lemma load_tx_frame [simp]:
  "load_items lo e (s\<lparr>q_tx := t\<rparr>) = load_items lo e s" "load_payments lo e (s\<lparr>q_tx := t\<rparr>) = load_payments lo e s"
  "tx_children_attach lo e (s\<lparr>q_tx := t\<rparr>) = tx_children_attach lo e s"
  by (simp_all add: fun_eq_iff load_items_def load_payments_def tx_children_attach_def Let_def)

lemma header_patched:
  assumes "tx_data_from_json v = tx_data_from_json (h_tx_data_json (w_cols row))"
  shows "tx_header_from_row ck (set_tx_data now v row) = (tx_header_from_row ck row)\<lparr>t_updated_ts_ms := timestamp_millis ck now\<rparr>"
  by (simp add: tx_header_from_row_def set_tx_data_def Let_def assms ts_ms_def)

lemma attach_updated: "tx_children_attach lo e s site i (tx\<lparr>t_updated_ts_ms := u\<rparr>) = (tx_children_attach lo e s site i tx)\<lparr>t_updated_ts_ms := u\<rparr>"
  by (simp add: tx_children_attach_def)

lemma others_counters: "others site i (s\<lparr>c_next := n, c_tick := m\<rparr>) = others site i s"
  by (simp add: others_def)

section \<open>A guest order, in one step\<close>

lemma normalize_facts:
  assumes "guest_order_normalize e site tx (call_start s) = (q, s1)"
  shows "t_site_iid q = site" and "t_tx_id q = p_ids e 0" and "t_state q = TxState_i32 St_WaitingPayment"
    and "t_type q = TxType_i32 Ty_Sale" and "t_input_source q = TxInputSource_i32 Src_Web"
    and "t_payments q = t_payments tx" and "t_items q = t_items tx" and "s1 = s\<lparr>c_next := c_next s1, c_tick := c_tick s1\<rparr>"
  using assms
  by (auto simp: guest_order_normalize_def snowflake_draw_def utc_now_def call_start_def Let_def split: if_splits)

lemma guest_put_success:
  assumes "guest_order_put v rv site req ctx s = (Inr saved, s')"
  obtains owner tx tx1 q s1 tx' s2 where "req = Some tx" and "guest_order_reprice rv (v_env v) s site tx = Inr tx1"
    and "guest_order_normalize (v_env v) site tx1 (call_start s) = (q, s1)"
    and "tx_put_commit v owner [] (tx_finalize (p_clock (v_env v)) (v_coa v) q) s1 = Inr (tx', s2)"
    and "s' = guest_tx_meta_patch (rv_now rv) site (p_ids (v_env v) 0) (gx_buyer_user_iid ctx) (gx_visitor_id ctx) s2"
    and "saved = tx_load (v_lo v) (v_env v) s' site (p_ids (v_env v) 0)"
    and "guest_site_owner (v_access v) site = Inr owner"
proof -
  from assms obtain owner tx tx1 where o: "guest_site_owner (v_access v) site = Inr owner" and r: "req = Some tx"
    and p: "guest_order_reprice rv (v_env v) s site tx = Inr tx1" and pos: "\<not> site \<le>s 0" "\<not> 0 <s t_tx_id tx"
    by (auto simp: guest_order_put_def Let_def split: if_splits sum.splits option.splits)
  obtain q s1 where n: "guest_order_normalize (v_env v) site tx1 (call_start s) = (q, s1)" by (rule prod.exhaust)
  let ?p = "tx_finalize (p_clock (v_env v)) (v_coa v) q"
  have st: "t_state ?p = TxState_i32 St_WaitingPayment" using normalize_facts(3) [OF n] by (simp only: finalize_key)
  obtain tx' s2 where c: "tx_put_commit v owner [] ?p s1 = Inr (tx', s2)"
    using assms pos o r p n guest_commit_eq [OF st, of v owner s1]
    by (cases "tx_put_commit v owner [] ?p s1") (auto simp: guest_order_put_def)
  have "t_tx_id tx' = p_ids (v_env v) 0"
    using commit_reload [OF c] normalize_facts(2) [OF n] by auto
  then show ?thesis
    using assms pos o r p n c guest_commit_eq [OF st, of v owner s1]
    by (intro that [OF r p n c _ _ o]) (auto simp: guest_order_put_def Let_def)
qed

text \<open>Patching the metadata changes only when the transaction was last updated.\<close>

lemma patch_others: "others site i (guest_tx_meta_patch now site i b w s) = others site i s"
proof -
  have "delete_rows site i (map (\<lambda>r. if of_tx site i r then set_tx_data now x r else r) t) = delete_rows site i t" for x t
    by (rule delete_rows_mapped) (auto simp: set_tx_data_def of_tx_def)
  then show ?thesis by (simp add: guest_tx_meta_patch_def Let_def others_def)
qed

lemma patch_product: "q_product (guest_tx_meta_patch now site i b w s) = q_product s"
  by (simp add: guest_tx_meta_patch_def Let_def)

lemma patch_load:
  assumes "find (live_of_tx site i) (q_tx s) = Some row" and "h_tx_data_json (w_cols row) = Object m"
    and "tx_load lo e s site i = Some l"
  shows "\<exists>u. tx_load lo e (guest_tx_meta_patch now site i b w s) site i = Some (l\<lparr>t_updated_ts_ms := u\<rparr>)"
proof (cases "b \<le>s 0 \<and> trim w = []")
  case True
  then show ?thesis using assms(3) by (intro exI [of _ "t_updated_ts_ms l"]) (simp add: guest_tx_meta_patch_def)
next
  case False
  let ?v = "guest_tx_meta_merge (Object m) b w"
  have "tx_header_from_row (p_clock e) (set_tx_data now ?v row) =
      (tx_header_from_row (p_clock e) row)\<lparr>t_updated_ts_ms := timestamp_millis (p_clock e) now\<rparr>"
    by (rule header_patched) (simp add: assms(2))
  then have "tx_load lo e (guest_tx_meta_patch now site i b w s) site i = Some (l\<lparr>t_updated_ts_ms := timestamp_millis (p_clock e) now\<rparr>)"
    using False assms by (auto simp: guest_tx_meta_patch_def tx_load_def patch_find attach_updated)
  then show ?thesis by blast
qed

lemma guest_put_effect:
  assumes "guest_order_put v rv site req ctx s = (Inr saved, s')"
  obtains l tx tx1 q p tx' time where "req = Some tx" and "saved = Some l" and "guest_order_reprice rv (v_env v) s site tx = Inr tx1"
    and "q = fst (guest_order_normalize (v_env v) site tx1 (call_start s))"
    and "p = tx_finalize (p_clock (v_env v)) (v_coa v) q"
    and "reloaded (v_env v) time p tx' l" and "same_lines p tx'"
    and "tx_load (v_lo v) (v_env v) s' site (p_ids (v_env v) 0) = Some l"
    and "t_site_iid l = site" and "t_tx_id l = p_ids (v_env v) 0" and "books_ok l"
    and "others site (p_ids (v_env v) 0) s' = others site (p_ids (v_env v) 0) s"
    and "map product_view (q_product s') = map product_view (q_product s)"
    and "\<forall>lo e' y. lorder_ok lo \<longrightarrow> tx_load lo e' s' site (p_ids (v_env v) 0) = Some y \<longrightarrow>
      lines_saved (v_env v) e' p y \<and> line_books_ok y"
proof -
  from assms obtain owner tx tx1 q s1 tx' s2 where r: "req = Some tx" "guest_order_reprice rv (v_env v) s site tx = Inr tx1"
    and n: "guest_order_normalize (v_env v) site tx1 (call_start s) = (q, s1)"
    and c: "tx_put_commit v owner [] (tx_finalize (p_clock (v_env v)) (v_coa v) q) s1 = Inr (tx', s2)"
    and s': "s' = guest_tx_meta_patch (rv_now rv) site (p_ids (v_env v) 0) (gx_buyer_user_iid ctx) (gx_visitor_id ctx) s2"
    and sv: "saved = tx_load (v_lo v) (v_env v) s' site (p_ids (v_env v) 0)"
    by (rule guest_put_success)
  note nf = normalize_facts [OF n]
  obtain j k where s1: "s1 = s\<lparr>c_next := j, c_tick := k\<rparr>" using nf(8) by blast
  define p where "p = tx_finalize (p_clock (v_env v)) (v_coa v) q"
  note c = c [folded p_def]
  have key: "t_site_iid p = site" "t_tx_id p = p_ids (v_env v) 0" "t_state p = TxState_i32 St_WaitingPayment"
    using nf(1,2,3) by (simp_all add: p_def)
  obtain l0 time where l0: "tx_load (v_lo v) (v_env v) s2 site (p_ids (v_env v) 0) = Some l0"
    and re: "reloaded (v_env v) time p tx' l0" and sl: "same_lines p tx'"
    using commit_reload [OF c, of "v_lo v"] key by auto
  obtain row t where row: "find (live_of_tx site (p_ids (v_env v) 0)) (q_tx s2) = Some row"
    "w_cols row = header_cols owner t (fst (tx_acc_counts p)) (snd (tx_acc_counts p)) p"
    using commit_row [OF c] key by metis
  obtain m where m: "h_tx_data_json (w_cols row) = Object m"
    using tx_data_column_object [of p] by (auto simp: row(2) header_cols_def)
  obtain u where l: "tx_load (v_lo v) (v_env v) s' site (p_ids (v_env v) 0) = Some (l0\<lparr>t_updated_ts_ms := u\<rparr>)"
    using patch_load [OF row(1) m l0] s' by blast
  have re': "reloaded (v_env v) time p tx' (l0\<lparr>t_updated_ts_ms := u\<rparr>)"
    using re by (simp add: reloaded_def header_of_def)
  show ?thesis
  proof (rule that [OF r(1) _ r(2) _ p_def re' sl l])
    show "saved = Some (l0\<lparr>t_updated_ts_ms := u\<rparr>)" using sv l by simp
    show "q = fst (guest_order_normalize (v_env v) site tx1 (call_start s))" by (simp add: n)
    show "t_site_iid (l0\<lparr>t_updated_ts_ms := u\<rparr>) = site" "t_tx_id (l0\<lparr>t_updated_ts_ms := u\<rparr>) = p_ids (v_env v) 0"
      using reloaded_header(1,2) [OF re'] key by simp_all
    show "books_ok (l0\<lparr>t_updated_ts_ms := u\<rparr>)"
      by (rule books_reloaded [OF _ sl re']) (simp add: p_def finalize_books)
    show "others site (p_ids (v_env v) 0) s' = others site (p_ids (v_env v) 0) s"
      using commit_others [OF c] key by (simp add: s' patch_others s1 others_counters)
    show "map product_view (q_product s') = map product_view (q_product s)"
      using commit_products [OF c key(3)] by (simp add: s' patch_product s1)
    show "\<forall>lo e' y. lorder_ok lo \<longrightarrow> tx_load lo e' s' site (p_ids (v_env v) 0) = Some y \<longrightarrow>
      lines_saved (v_env v) e' p y \<and> line_books_ok y"
    proof (intro allI impI)
      fix lo e' y
      assume lo: "lorder_ok lo" and y: "tx_load lo e' s' site (p_ids (v_env v) 0) = Some y"
      obtain l1 where l1: "tx_load lo e' s2 site (p_ids (v_env v) 0) = Some l1"
        using load_present [of lo e' s2 site _ "v_lo v" "v_env v"] l0 by (metis not_Some_eq)
      obtain w where w: "y = l1\<lparr>t_updated_ts_ms := w\<rparr>"
        using patch_load [OF row(1) m l1] s' y by (metis option.inject)
      have "lines_saved (v_env v) e' p l1" using commit_lines [OF c lo, of e' l1] l1 key by simp
      then have ls: "lines_saved (v_env v) e' p y" by (simp add: w lines_saved_def)
      have "line_header y = line_header p"
        using load_line_header [OF l y] reloaded_line_header [OF re'] by simp
      with ls show "lines_saved (v_env v) e' p y \<and> line_books_ok y"
        using line_books_saved [OF _ ls] finalize_line_books by (simp add: p_def)
    qed
  qed
qed

lemma guest_header:
  assumes "reloaded e time p tx' l" and "t_type p = TxType_i32 Ty_Sale" and "t_state p = TxState_i32 St_WaitingPayment"
    and "t_input_source p = TxInputSource_i32 Src_Web"
  shows "t_type l = TxType_i32 Ty_Sale" and "t_state l = TxState_i32 St_WaitingPayment"
    and "t_input_source l = TxInputSource_i32 Src_Web"
proof -
  have n: "TxType_i32 (stored_type (tx_type (TxType_i32 Ty_Sale))) = TxType_i32 Ty_Sale"
    "TxState_i32 (tx_state (TxState_i32 St_WaitingPayment)) = TxState_i32 St_WaitingPayment"
    "TxInputSource_i32 (stored_source (unwrap_or Src_Manual (TxInputSource_try_from (TxInputSource_i32 Src_Web)))) = TxInputSource_i32 Src_Web"
    by code_simp+
  show "t_type l = TxType_i32 Ty_Sale" "t_state l = TxState_i32 St_WaitingPayment" "t_input_source l = TxInputSource_i32 Src_Web"
    using header_field [OF assms(1), of t_type] header_field [OF assms(1), of t_state] header_field [OF assms(1), of t_input_source]
    unfolding header_of_def header_norm_def assms(2-4) n by (simp_all add: assms(2-4) n)
qed

lemma finalize_source [simp]: "t_input_source (tx_finalize ck order tx) = t_input_source tx"
  by (simp add: finalize_with_accs with_accs_eq tx_derive_def tx_compute_stock_def debt_installments_eq
      tx_compute_standalone_debt_def tx_compute_totals_def tx_compute_items_def Let_def)

text \<open>Claim C6. A guest order is saved as a web sale that waits for payment: the answer is what a load of the
  drawn id finds, of type Sale, state WaitingPayment and source Web whatever the request said;
  its books are right, those of its items, reservations and payments too, no product's stock,
  price or flags change, and every other transaction of every site is loaded as before.\<close>

theorem guest_order_saved:
  assumes "guest_order_put v rv site req ctx s = (Inr saved, s')"
  shows "\<exists>l. saved = Some l \<and> tx_load (v_lo v) (v_env v) s' site (p_ids (v_env v) 0) = Some l \<and>
    t_site_iid l = site \<and> t_tx_id l = p_ids (v_env v) 0 \<and> t_type l = TxType_i32 Ty_Sale \<and>
    t_state l = TxState_i32 St_WaitingPayment \<and> t_input_source l = TxInputSource_i32 Src_Web \<and> books_ok l \<and>
    (lorder_ok (v_lo v) \<longrightarrow> line_books_ok l) \<and>
    map product_view (q_product s') = map product_view (q_product s) \<and>
    (\<forall>lo e site' i. (site', i) \<noteq> (site, p_ids (v_env v) 0) \<longrightarrow> tx_load lo e s' site' i = tx_load lo e s site' i)"
proof -
  from assms obtain l tx1 q p tx' time where l: "saved = Some l"
    and q: "q = fst (guest_order_normalize (v_env v) site tx1 (call_start s))"
    and p: "p = tx_finalize (p_clock (v_env v)) (v_coa v) q" and r: "reloaded (v_env v) time p tx' l"
    and f: "tx_load (v_lo v) (v_env v) s' site (p_ids (v_env v) 0) = Some l"
      "t_site_iid l = site" "t_tx_id l = p_ids (v_env v) 0" "books_ok l"
      "map product_view (q_product s') = map product_view (q_product s)"
    and o: "others site (p_ids (v_env v) 0) s' = others site (p_ids (v_env v) 0) s"
    and ln: "\<forall>lo e' y. lorder_ok lo \<longrightarrow> tx_load lo e' s' site (p_ids (v_env v) 0) = Some y \<longrightarrow>
      lines_saved (v_env v) e' p y \<and> line_books_ok y"
    by (rule guest_put_effect)
  have "guest_order_normalize (v_env v) site tx1 (call_start s) = (q, snd (guest_order_normalize (v_env v) site tx1 (call_start s)))"
    by (simp add: q)
  note nf = normalize_facts(3-5) [OF this]
  have "t_type p = TxType_i32 Ty_Sale" "t_state p = TxState_i32 St_WaitingPayment" "t_input_source p = TxInputSource_i32 Src_Web"
    unfolding p finalize_key finalize_source finalize_totals(1) by (rule nf)+
  note h = guest_header [OF r this]
  show ?thesis using l f h ln load_others [OF o] by (intro exI [of _ l]) blast
qed

section \<open>Who may read an order\<close>

lemma sale_without_debt_paid:
  assumes "tx_type (t_type tx) = Ty_Sale" and "\<not> list_ex is_debt (t_payments tx)"
  shows "t_is_paid (tx_finalize ck order tx)"
proof -
  have f: "filter is_debt (t_payments tx) = []" using assms(2) by (auto simp: list_ex_iff filter_empty_conv)
  show ?thesis
    using assms(1) f
    by (simp add: finalize_with_accs with_accs_eq tx_derive_def tx_compute_stock_def debt_installments_eq
        tx_compute_standalone_debt_def tx_compute_totals_def tx_compute_items_def Let_def comp_def frame)
qed

lemma web_source: "TxInputSource_i32 (stored_source x) = TxInputSource_i32 Src_Web \<Longrightarrow> tx_input_source_str x = ''web''"
  by (cases x) (simp_all add: stored_source_def)

lemma get_allowed_row:
  assumes "find (live_of_tx site i) (q_tx s) = Some row" and "h_input_source (w_cols row) = ''web''"
  shows "guest_order_get_allowed s site i b w \<longleftrightarrow>
    (let buyer = guest_tx_buyer_user_iid (h_tx_data_json (w_cols row)); vid = guest_tx_visitor_id (h_tx_data_json (w_cols row))
     in if 0 <s buyer then b = Some buyer else vid = [] \<or> (\<exists>x. w = Some x \<and> trim x = vid))"
  using assms by (auto simp: guest_order_get_allowed_def Let_def split: option.splits)

lemma meta_absent:
  assumes "map_of m ''guest'' = None"
  shows "guest_tx_buyer_user_iid (Object m) = 0" "guest_tx_visitor_id (Object m) = []"
  using assms by (simp_all add: guest_tx_buyer_user_iid_def guest_tx_visitor_id_def)

lemma guest_put_row:
  assumes "guest_order_put v rv site req ctx s = (Inr saved, s')"
  obtains row where "find (live_of_tx site (p_ids (v_env v) 0)) (q_tx s') = Some row" and "h_input_source (w_cols row) = ''web''"
    and "h_state (w_cols row) = ''waiting_payment''"
    and "guest_tx_buyer_user_iid (h_tx_data_json (w_cols row)) =
      (if gx_buyer_user_iid ctx \<le>s 0 \<and> trim (gx_visitor_id ctx) = [] then 0 else gx_buyer_user_iid ctx)"
    and "guest_tx_visitor_id (h_tx_data_json (w_cols row)) = trim (gx_visitor_id ctx)"
    and "\<forall>tx. req = Some tx \<and> \<not> list_ex is_debt (t_payments tx) \<longrightarrow> h_is_paid (w_cols row)"
proof -
  from assms obtain owner tx tx1 q s1 tx' s2 where req: "req = Some tx"
    and rp: "guest_order_reprice rv (v_env v) s site tx = Inr tx1"
    and n: "guest_order_normalize (v_env v) site tx1 (call_start s) = (q, s1)"
    and c: "tx_put_commit v owner [] (tx_finalize (p_clock (v_env v)) (v_coa v) q) s1 = Inr (tx', s2)"
    and s': "s' = guest_tx_meta_patch (rv_now rv) site (p_ids (v_env v) 0) (gx_buyer_user_iid ctx) (gx_visitor_id ctx) s2"
    by (rule guest_put_success)
  note nf = normalize_facts [OF n]
  let ?p = "tx_finalize (p_clock (v_env v)) (v_coa v) q"
  obtain row t where row: "find (live_of_tx site (p_ids (v_env v) 0)) (q_tx s2) = Some row"
    "w_cols row = header_cols owner t (fst (tx_acc_counts ?p)) (snd (tx_acc_counts ?p)) ?p"
    using commit_row [OF c] nf(1,2) by (metis finalize_key(1,2))
  have src: "tx_input_source_str (unwrap_or Src_Manual (TxInputSource_try_from (TxInputSource_i32 Src_Web))) = ''web''" by code_simp
  have web: "h_input_source (w_cols row) = ''web''"
    unfolding row(2) header_cols_def using nf(5) src by simp
  have st: "h_state (w_cols row) = ''waiting_payment''"
    unfolding row(2) header_cols_def using nf(3) by simp
  obtain m where m: "h_tx_data_json (w_cols row) = Object m" "map_of m ''guest'' = None"
    using tx_data_column_object [of ?p] by (auto simp: row(2) header_cols_def)
  have paid: "h_is_paid (w_cols row)" if "\<not> list_ex is_debt (t_payments tx)"
  proof -
    have "t_payments q = t_payments tx" using nf(6) rp by (auto simp: guest_order_reprice_def bindE_Inr split: if_splits)
    moreover have "tx_type (t_type q) = Ty_Sale" unfolding nf(4) by code_simp
    ultimately have "t_is_paid ?p" using that by (intro sale_without_debt_paid) simp_all
    then show ?thesis by (simp add: row(2) header_cols_def)
  qed
  show ?thesis
  proof (cases "gx_buyer_user_iid ctx \<le>s 0 \<and> trim (gx_visitor_id ctx) = []")
    case True
    then have "s' = s2" by (simp add: s' guest_tx_meta_patch_def)
    then show ?thesis using that [of row] row(1) web st m meta_absent [OF m(2)] paid True req by simp
  next
    case False
    let ?row = "set_tx_data (rv_now rv) (guest_tx_meta_merge (Object m) (gx_buyer_user_iid ctx) (gx_visitor_id ctx)) row"
    have "find (live_of_tx site (p_ids (v_env v) 0)) (q_tx s') = Some ?row"
      using False row(1) m(1) by (auto simp: s' guest_tx_meta_patch_def patch_find)
    then show ?thesis using that [of ?row] web st paid False req by (simp add: set_tx_data_def)
  qed
qed

text \<open>Claim C7. A guest order is private: after it was placed by a signed-in buyer only that buyer may read
  it; placed by a visitor, only a request with the same visitor id may; placed with neither,
  everybody who knows the id may.\<close>

theorem guest_order_private:
  assumes "guest_order_put v rv site req ctx s = (Inr saved, s')"
  shows "guest_order_get_allowed s' site (p_ids (v_env v) 0) b w \<longleftrightarrow>
    (if 0 <s gx_buyer_user_iid ctx then b = Some (gx_buyer_user_iid ctx)
     else trim (gx_visitor_id ctx) = [] \<or> (\<exists>x. w = Some x \<and> trim x = trim (gx_visitor_id ctx)))"
proof -
  from assms obtain row where row: "find (live_of_tx site (p_ids (v_env v) 0)) (q_tx s') = Some row" "h_input_source (w_cols row) = ''web''"
    "guest_tx_buyer_user_iid (h_tx_data_json (w_cols row)) =
      (if gx_buyer_user_iid ctx \<le>s 0 \<and> trim (gx_visitor_id ctx) = [] then 0 else gx_buyer_user_iid ctx)"
    "guest_tx_visitor_id (h_tx_data_json (w_cols row)) = trim (gx_visitor_id ctx)"
    by (rule guest_put_row)
  show ?thesis
    unfolding get_allowed_row [OF row(1,2)] row(3,4) Let_def by (auto simp: word_sle_eq word_sless_alt)
qed

text \<open>A save by staff opens a guest order to everybody: saving a web transaction through \<open>tx_put\<close>
  rewrites its data without the guest metadata, after which \<open>guest_order_get_allowed\<close> admits any
  buyer and any visitor.\<close>

theorem staff_save_opens_guest_order:
  assumes "tx_put v caller (Some tx) out s = (Inr (Some l), s', pushed)" and "t_input_source l = TxInputSource_i32 Src_Web"
  shows "guest_order_get_allowed s' (t_site_iid l) (t_tx_id l) b w"
proof -
  from assms(1) obtain owner old p s1 tx' where c: "tx_put_commit v owner old p s1 = Inr (tx', s')"
    and sv: "Some l = tx_load (v_lo v) (v_env v) s' (t_site_iid tx) (t_tx_id tx')"
    and pr: "tx_put_prepare v caller tx (call_start s) = (p, s1)"
    by (rule tx_put_success)
  obtain row time where row: "find (live_of_tx (t_site_iid p) (t_tx_id p)) (q_tx s') = Some row"
    "w_cols row = header_cols owner time (fst (tx_acc_counts p)) (snd (tx_acc_counts p)) p"
    using commit_row [OF c] by blast
  obtain l' t where r: "tx_load (v_lo v) (v_env v) s' (t_site_iid p) (t_tx_id p) = Some l'" "reloaded (v_env v) t p tx' l'"
    "t_tx_id tx' = t_tx_id p" using commit_reload [OF c, of "v_lo v"] by blast
  have "t_site_iid p = t_site_iid tx" by (rule prepare_frame(1) [OF pr])
  with sv r have l: "l = l'" by simp
  have "tx_input_source_str (unwrap_or Src_Manual (TxInputSource_try_from (t_input_source p))) = ''web''"
    using header_field [OF r(2), of t_input_source] assms(2) by (intro web_source) (simp add: l header_of_def header_norm_def)
  then have "h_input_source (w_cols row) = ''web''" by (simp add: row(2) header_cols_def)
  moreover obtain m where "h_tx_data_json (w_cols row) = Object m" "map_of m ''guest'' = None"
    using tx_data_column_object [of p] by (auto simp: row(2) header_cols_def)
  ultimately show ?thesis
    using get_allowed_row [of "t_site_iid l" "t_tx_id l" s' row b w] row(1) reloaded_header(1,2) [OF r(2)]
    by (simp add: l meta_absent)
qed

text \<open>The hold of a guest order never runs out: an order without a debt payment is stored as paid,
  so its reservations block availability at any later time, whatever the hold time of the product
  and whatever the order still owes.\<close>

theorem guest_hold_never_expires:
  assumes "guest_order_put v rv site (Some tx) ctx s = (Inr saved, s')" and "\<not> list_ex is_debt (t_payments tx)"
  shows "\<exists>row. find (live_of_tx site (p_ids (v_env v) 0)) (q_tx s') = Some row \<and> hold_counts rv' ttl row"
proof -
  from assms(1) obtain row where row: "find (live_of_tx site (p_ids (v_env v) 0)) (q_tx s') = Some row"
    and st: "h_state (w_cols row) = ''waiting_payment''"
    and paid: "\<forall>tx'. Some tx = Some tx' \<and> \<not> list_ex is_debt (t_payments tx') \<longrightarrow> h_is_paid (w_cols row)"
    by (rule guest_put_row)
  have "w_deleted row = None" using row by (auto simp: find_Some_iff live_of_tx_def)
  then show ?thesis using row paid assms(2) st by (auto simp: hold_counts_def)
qed

section \<open>Claiming orders\<close>

text \<open>The rows a merge for a buyer may not change.\<close>

definition protected :: "i64 \<Rightarrow> i64 \<Rightarrow> TxCols row \<Rightarrow> bool" where
  "protected site buyer r \<longleftrightarrow> w_site r \<noteq> site \<or> w_deleted r \<noteq> None \<or> h_input_source (w_cols r) \<noteq> ''web'' \<or>
     (let b = guest_tx_buyer_user_iid (h_tx_data_json (w_cols r)) in 0 <s b \<and> b \<noteq> buyer)"

definition merge_row :: "datetime \<Rightarrow> i64 \<Rightarrow> i64 \<Rightarrow> Value \<Rightarrow> TxCols row \<Rightarrow> TxCols row" where
  "merge_row now site i v r = (if live_of_tx site i r then set_tx_data now v r else r)"

definition data_objects :: "conn \<Rightarrow> bool" where
  "data_objects s \<longleftrightarrow> (\<forall>r \<in> set (q_tx s). as_object (h_tx_data_json (w_cols r)) \<noteq> None)"

definition site_inv :: "conn \<Rightarrow> bool" where
  "site_inv s \<longleftrightarrow> tx_pk s \<and> data_objects s"

definition stable_view :: "Tx \<Rightarrow> Tx" where
  "stable_view l = l\<lparr> t_updated_ts_ms := 0 \<rparr>"

lemma filter_map_same:
  "\<forall>r \<in> set t. f r = r \<or> \<not> P r \<and> \<not> P (f r) \<Longrightarrow> filter P (map f t) = filter P t"
  by (induction t) auto

lemma merge_key [simp]: "w_site (merge_row now site i v r) = w_site r" "w_tx (merge_row now site i v r) = w_tx r"
  "w_deleted (merge_row now site i v r) = w_deleted r"
  by (simp_all add: merge_row_def set_tx_data_def)

lemma find_key:
  assumes "tx_pk s" and "find (live_of_tx site i) (q_tx s) = Some row" and "r \<in> set (q_tx s)" and "of_tx site i r"
  shows "r = row"
proof -
  have "row \<in> set (q_tx s)" "of_tx site i row"
    using assms(2) by (auto simp: find_Some_iff live_of_tx_def)
  then show ?thesis
    using distinct_key_unique [OF assms(1) [unfolded tx_pk_def] assms(3)] assms(4) by (simp add: of_tx_def)
qed

lemma merge_pk: "tx_pk (s\<lparr>q_tx := map (merge_row now site i v) (q_tx s)\<rparr>) = tx_pk s"
  by (simp add: tx_pk_def comp_def)

lemma merge_find:
  "find (live_of_tx site' i') (map (merge_row now site i v) t) =
     map_option (if (site', i') = (site, i) then set_tx_data now v else id) (find (live_of_tx site' i') t)"
proof (cases "(site', i') = (site, i)")
  case True
  then show ?thesis by (induction t) (auto simp: merge_row_def live_of_tx_def of_tx_def set_tx_data_def)
next
  case False
  then show ?thesis
    by (induction t) (auto simp: merge_row_def live_of_tx_def of_tx_def set_tx_data_def option.map_id)
qed

lemma merge_step:
  assumes "site_inv s" and "find (live_of_tx site i) (q_tx s) = Some row" and "may_merge buyer visitor row" and "0 <s buyer"
    and "s' = s\<lparr>q_tx := map (merge_row now site i (guest_tx_meta_merge (h_tx_data_json (w_cols row)) buyer visitor)) (q_tx s)\<rparr>"
  shows "site_inv s'" and "filter (protected site buyer) (q_tx s') = filter (protected site buyer) (q_tx s)"
    and "map_option stable_view (tx_load lo e s' site' i') = map_option stable_view (tx_load lo e s site' i')"
proof -
  let ?v = "guest_tx_meta_merge (h_tx_data_json (w_cols row)) buyer visitor"
  have row: "live_of_tx site i row" "row \<in> set (q_tx s)" using assms(2) by (auto simp: find_Some_iff)
  obtain m where m: "h_tx_data_json (w_cols row) = Object m"
    using assms(1) row(2) by (cases "h_tx_data_json (w_cols row)") (auto simp: site_inv_def data_objects_def)
  have mine: "live_of_tx site i r \<Longrightarrow> r \<in> set (q_tx s) \<Longrightarrow> r = row" for r
    using find_key [OF _ assms(2)] assms(1) by (auto simp: site_inv_def live_of_tx_def)
  have "as_object (h_tx_data_json (w_cols (merge_row now site i ?v r))) \<noteq> None" if "r \<in> set (q_tx s)" for r
    using assms(1) that
    by (auto simp: merge_row_def set_tx_data_def site_inv_def data_objects_def guest_tx_meta_merge_def Let_def)
  then show "site_inv s'" using assms(1) by (auto simp: assms(5) site_inv_def data_objects_def merge_pk)
  have "\<not> protected site buyer row"
    using assms(3) row(1) by (auto simp: protected_def may_merge_def live_of_tx_def of_tx_def Let_def)
  moreover have "\<not> protected site buyer (set_tx_data now ?v row)"
    using assms(3) row(1) by (simp add: protected_def may_merge_def live_of_tx_def of_tx_def Let_def set_tx_data_def)
  ultimately show "filter (protected site buyer) (q_tx s') = filter (protected site buyer) (q_tx s)"
    using mine by (simp add: assms(5)) (intro filter_map_same, auto simp: merge_row_def)
  have hp: "tx_header_from_row (p_clock e) (set_tx_data now ?v row) =
      (tx_header_from_row (p_clock e) row)\<lparr>t_updated_ts_ms := timestamp_millis (p_clock e) now\<rparr>"
    by (rule header_patched) (simp add: m)
  show "map_option stable_view (tx_load lo e s' site' i') = map_option stable_view (tx_load lo e s site' i')"
  proof (cases "(site', i') = (site, i)")
    case True
    then show ?thesis
      by (simp add: assms(2,5) tx_load_def merge_find hp attach_updated stable_view_def)
  next
    case False
    then show ?thesis by (auto simp: assms(5) tx_load_def merge_find option.map_id split: option.splits)
  qed
qed

lemma merge_loop_laws:
  assumes "merge_loop now site buyer visitor ids (n, s) = (n', s')" and "site_inv s" and "0 <s buyer"
  shows "site_inv s' \<and> filter (protected site buyer) (q_tx s') = filter (protected site buyer) (q_tx s) \<and>
    s' = s\<lparr>q_tx := q_tx s'\<rparr> \<and>
    map_option stable_view (tx_load lo e s' site' i') = map_option stable_view (tx_load lo e s site' i')"
  using assms
proof (induction ids arbitrary: n s)
  case (Cons i ids)
  show ?case
  proof (cases "i \<le>s 0 \<or> find (live_of_tx site i) (q_tx s) = None \<or>
      (\<exists>row. find (live_of_tx site i) (q_tx s) = Some row \<and> \<not> may_merge buyer visitor row)")
    case True
    then have "merge_loop now site buyer visitor ids (n, s) = (n', s')"
      using Cons.prems(1) by (auto split: if_splits option.splits)
    then show ?thesis using Cons.IH Cons.prems(2,3) by blast
  next
    case False
    then obtain row where row: "find (live_of_tx site i) (q_tx s) = Some row" "may_merge buyer visitor row" by auto
    define s1 where "s1 = s\<lparr>q_tx := map (merge_row now site i (guest_tx_meta_merge (h_tx_data_json (w_cols row)) buyer visitor)) (q_tx s)\<rparr>"
    have "merge_loop now site buyer visitor ids (n + 1, s1) = (n', s')"
      using Cons.prems(1) False row by (simp add: s1_def merge_row_def [abs_def] Let_def)
    note ih = Cons.IH [OF this merge_step(1) [OF Cons.prems(2) row Cons.prems(3) s1_def] Cons.prems(3)]
    have q: "s' = s1\<lparr>q_tx := q_tx s'\<rparr> \<Longrightarrow> s' = s\<lparr>q_tx := q_tx s'\<rparr>" by (simp add: s1_def)
    show ?thesis
      using ih q merge_step(2) [OF Cons.prems(2) row Cons.prems(3) s1_def]
        merge_step(3) [OF Cons.prems(2) row Cons.prems(3) s1_def, of lo e site' i'] by simp
  qed
qed simp

lemma member_merge_loop:
  assumes "guest_member_merge v now site visitor_id ids buyer s = Inr (n, s')"
  shows "merge_loop now site buyer (trim visitor_id) ids (0, s) = (n, s')" and "0 <s buyer" and "0 <s site"
  using assms by (auto simp: guest_member_merge_def bindE_Inr word_sle_eq word_sless_alt split: if_splits)

text \<open>Claiming orders touches nobody else's: after \<open>guest_member_merge\<close> every transaction of another
  site, every one that is deleted or did not come from the web, and every order that already has
  another buyer is exactly as before; no other table changes, and every transaction is loaded as
  before but for the time of its last update.\<close>

theorem member_merge_protects:
  assumes "guest_member_merge v now site visitor_id ids buyer s = Inr (n, s')" and "site_inv s"
  shows "filter (protected site buyer) (q_tx s') = filter (protected site buyer) (q_tx s) \<and> s' = s\<lparr>q_tx := q_tx s'\<rparr> \<and>
    map_option stable_view (tx_load lo e s' site' i) = map_option stable_view (tx_load lo e s site' i)"
  using merge_loop_laws [OF member_merge_loop(1) [OF assms(1)] assms(2) member_merge_loop(2) [OF assms(1)]] by blast

text \<open>A request without a visitor id claims any order that has no buyer yet: the order of another
  visitor becomes the caller's, who alone may read it afterwards.\<close>

theorem anonymous_order_claimed:
  assumes "find (live_of_tx site i) (q_tx s) = Some row" and "h_input_source (w_cols row) = ''web''"
    and "\<not> 0 <s guest_tx_buyer_user_iid (h_tx_data_json (w_cols row))" and "0 <s buyer" and "0 <s site" and "0 <s i"
    and "guest_site_owner (v_access v) site = Inr owner" and "trim visitor_id = []"
  shows "\<exists>s'. guest_member_merge v now site visitor_id [i] buyer s = Inr (1, s') \<and>
    (\<forall>b w. guest_order_get_allowed s' site i b w \<longleftrightarrow> b = Some buyer)"
proof -
  have mm: "may_merge buyer [] row" using assms(2,3) by (simp add: may_merge_def Let_def)
  let ?v = "guest_tx_meta_merge (h_tx_data_json (w_cols row)) buyer []"
  let ?s = "s\<lparr>q_tx := map (merge_row now site i ?v) (q_tx s)\<rparr>"
  have "guest_member_merge v now site visitor_id [i] buyer s = Inr (1, ?s)"
    using assms mm
    by (simp add: guest_member_merge_def word_sle_eq word_sless_alt merge_row_def [abs_def] Let_def)
  moreover have "find (live_of_tx site i) (q_tx ?s) = Some (set_tx_data now ?v row)"
    by (simp add: merge_find assms(1))
  then have "guest_order_get_allowed ?s site i b w \<longleftrightarrow> b = Some buyer" for b w
    using get_allowed_row [of site i ?s "set_tx_data now ?v row" b w] assms(2,4) by (simp add: set_tx_data_def)
  ultimately show ?thesis by blast
qed

section \<open>Staff and guests together\<close>

text \<open>A call on the shared tables: one of staff, or one of a guest. A merge writes no transaction's
  fields, so it counts as touching none.\<close>

inductive site_step :: "store_op \<Rightarrow> conn \<Rightarrow> conn \<Rightarrow> bool" where
  site_staff: "tx_step x s s' \<Longrightarrow> site_step x s s'"
| site_guest_put: "guest_order_put v rv site req ctx s = (Inr (Some l), s') \<Longrightarrow> site_step (Put (t_site_iid l) (t_tx_id l)) s s'"
| site_guest_err: "guest_order_put v rv site req ctx s = (Inl err, s') \<Longrightarrow> site_step Idle s s'"
| site_guest_merge: "guest_member_merge v now site vid ids buyer s = Inr (n, s') \<Longrightarrow> site_step Idle s s'"

inductive_cases site_step_E: "site_step x s s'"

lemma guest_err_state: "guest_order_put v rv site req ctx s = (Inl err, s') \<Longrightarrow> s' = s"
  by (auto simp: guest_order_put_def Let_def split_beta split: if_splits sum.splits option.splits prod.splits)

lemma header_put_objects:
  assumes "tx_header_put e owner tx g m s = Inr s'" and "data_objects s"
  shows "data_objects s'"
proof -
  have o: "as_object (h_tx_data_json (header_cols owner t g m tx)) \<noteq> None" for t
    using tx_data_column_object [of tx] by (auto simp: header_cols_def)
  show ?thesis
    using assms o unfolding tx_header_put_def data_objects_def Let_def split_beta
    by (auto simp: new_row_def split: if_splits)
qed

lemma commit_inv:
  assumes "tx_put_commit v owner old tx s = Inr (tx', s')" and "site_inv s"
  shows "site_inv s'"
proof -
  from assms(1) obtain s1 s2 s3 p where c: "tx_children_del (t_site_iid tx) (t_tx_id tx) s = Inr s1"
    "tx_header_put (v_env v) owner tx (fst (tx_acc_counts tx)) (snd (tx_acc_counts tx)) s1 = Inr s2"
    "tx_children_put (v_env v) tx s2 = Inr (tx', s3)" "s' = s3\<lparr>q_product := p\<rparr>"
    by (rule commit_steps)
  have "site_inv s1" using c(1) assms(2) by (auto simp: tx_children_del_def site_inv_def tx_pk_def data_objects_def)
  then have "site_inv s2" using header_put_pk [OF c(2)] header_put_objects [OF c(2)] by (simp add: site_inv_def)
  then show ?thesis using tx_children_put_rows(1) [OF c(3)] by (simp add: c(4) site_inv_def tx_pk_def data_objects_def)
qed

lemma tx_put_inv:
  assumes "tx_put v caller (Some tx) out s = (Inr saved, s', pushed)" and "site_inv s"
  shows "site_inv s'"
proof -
  from assms(1) obtain owner old p s1 tx' where
    p: "tx_put_prepare v caller tx (call_start s) = (p, s1)" and c: "tx_put_commit v owner old p s1 = Inr (tx', s')"
    by (rule tx_put_success)
  from p obtain n where "s1 = s\<lparr>c_tick := 0, c_next := n\<rparr>" by (rule prepare_cases)
  with assms(2) have "site_inv s1" by (simp add: site_inv_def tx_pk_def data_objects_def)
  then show ?thesis by (rule commit_inv [OF c])
qed

lemma tx_delete_inv:
  assumes "tx_delete v caller site i s = (Inr b, s')" and "site_inv s"
  shows "site_inv s'"
proof -
  have "map w_cols (q_tx s') = map w_cols (q_tx s)"
    using assms(1) by (auto simp: tx_delete_def Let_def split: sum.splits if_splits)
  moreover have "data_objects s \<longleftrightarrow> (\<forall>c \<in> set (map w_cols (q_tx s)). as_object (h_tx_data_json c) \<noteq> None)" for s
    by (simp add: data_objects_def)
  ultimately have "data_objects s'" using assms(2) [unfolded site_inv_def, THEN conjunct2] by (simp only:)
  moreover have "tx_pk s" using assms(2) by (simp add: site_inv_def)
  ultimately show ?thesis using tx_delete_effect(3) [OF assms(1)] by (simp add: site_inv_def)
qed

lemma tx_step_site_inv:
  assumes "tx_step x s s'" and "site_inv s"
  shows "site_inv s'"
proof (cases x)
  case (Put site i)
  from assms(1) [unfolded Put] obtain v caller tx out l pushed where
    "tx_put v caller (Some tx) out s = (Inr (Some l), s', pushed)" by (rule step_put_ex)
  then show ?thesis using assms(2) by (rule tx_put_inv)
next
  case (Del site i)
  with assms show ?thesis by (auto elim!: tx_step_DelE intro: tx_delete_inv)
next
  case Idle
  with assms show ?thesis using step_idle [of s s'] by (simp add: site_inv_def)
qed

lemma guest_put_inv:
  assumes "guest_order_put v rv site req ctx s = (Inr saved, s')" and "site_inv s"
  shows "site_inv s'"
proof -
  from assms(1) obtain owner tx tx1 q s1 tx' s2 where n: "guest_order_normalize (v_env v) site tx1 (call_start s) = (q, s1)"
    and c: "tx_put_commit v owner [] (tx_finalize (p_clock (v_env v)) (v_coa v) q) s1 = Inr (tx', s2)"
    and s': "s' = guest_tx_meta_patch (rv_now rv) site (p_ids (v_env v) 0) (gx_buyer_user_iid ctx) (gx_visitor_id ctx) s2"
    by (rule guest_put_success)
  obtain j k where "s1 = s\<lparr>c_next := j, c_tick := k\<rparr>" using normalize_facts(8) [OF n] by blast
  with assms(2) have "site_inv s1" by (simp add: site_inv_def tx_pk_def data_objects_def)
  from commit_inv [OF c this] show ?thesis
    by (auto simp: s' guest_tx_meta_patch_def site_inv_def tx_pk_def data_objects_def set_tx_data_def comp_def
        guest_tx_meta_merge_def Let_def if_distrib [of w_site] if_distrib [of w_tx] cong: if_cong)
qed

lemma site_step_inv:
  assumes "site_step x s s'" and "site_inv s"
  shows "site_inv s'"
  using assms(1)
proof (rule site_step_E)
  fix v now site vid ids buyer n
  assume m: "guest_member_merge v now site vid ids buyer s = Inr (n, s')"
  show ?thesis
    using merge_loop_laws [OF member_merge_loop(1) [OF m] assms(2) member_merge_loop(2) [OF m]] by blast
qed (use assms(2) in \<open>auto intro: tx_step_site_inv guest_put_inv dest: guest_err_state\<close>)

lemma site_step_other:
  assumes "site_step x s s'" and "site_inv s" and "\<forall>b. op_touches x \<noteq> Some ((site, i), b)"
  shows "map_option stable_view (tx_load lo e s' site i) = map_option stable_view (tx_load lo e s site i)"
  using assms(1)
proof (rule site_step_E)
  assume "tx_step x s s'"
  then show ?thesis using tx_step_other assms(2,3) by (simp add: site_inv_def)
next
  fix v rv site' req ctx l
  assume x: "x = Put (t_site_iid l) (t_tx_id l)" and g: "guest_order_put v rv site' req ctx s = (Inr (Some l), s')"
  from g obtain l' where "Some l = Some l'" "t_site_iid l' = site'" "t_tx_id l' = p_ids (v_env v) 0"
    "others site' (p_ids (v_env v) 0) s' = others site' (p_ids (v_env v) 0) s"
    by (rule guest_put_effect)
  then show ?thesis using assms(3) x load_others [of site' "p_ids (v_env v) 0" s' s site i] by auto
next
  fix v rv site' req ctx err
  assume "guest_order_put v rv site' req ctx s = (Inl err, s')"
  then show ?thesis using guest_err_state by blast
next
  fix v now site' vid ids buyer n
  assume m: "guest_member_merge v now site' vid ids buyer s = Inr (n, s')"
  show ?thesis
    using merge_loop_laws [OF member_merge_loop(1) [OF m] assms(2) member_merge_loop(2) [OF m]] by blast
qed

lemma site_step_same:
  assumes "site_step x s s'" and "site_inv s" and "op_touches x = Some ((site, i), b)"
  shows "(tx_load lo e s' site i \<noteq> None \<longleftrightarrow> b) \<and>
    (b \<longrightarrow> (\<forall>y. tx_load lo e s' site i = Some y \<longrightarrow> books_ok y \<and> (lorder_ok lo \<longrightarrow> line_books_ok y)))"
  using assms(1)
proof (rule site_step_E)
  assume "tx_step x s s'"
  then show ?thesis using tx_step_same [OF _ _ assms(3), of s s' lo e] assms(2) by (auto simp: site_inv_def)
next
  fix v rv site' req ctx l
  assume x: "x = Put (t_site_iid l) (t_tx_id l)" and g: "guest_order_put v rv site' req ctx s = (Inr (Some l), s')"
  from g obtain l' where l': "Some l = Some l'" "t_site_iid l' = site'" "t_tx_id l' = p_ids (v_env v) 0" "books_ok l'"
    and ld: "tx_load (v_lo v) (v_env v) s' site' (p_ids (v_env v) 0) = Some l'"
    and ln: "\<forall>lo e y. lorder_ok lo \<longrightarrow> tx_load lo e s' site' (p_ids (v_env v) 0) = Some y \<longrightarrow> line_books_ok y"
    by (rule guest_put_effect) blast
  have k: "site = site'" "i = p_ids (v_env v) 0" b using assms(3) x l' by auto
  then have "tx_load lo e s' site i \<noteq> None" using ld load_present [of lo e s' site i "v_lo v" "v_env v"] by simp
  moreover have "books_ok y \<and> (lorder_ok lo \<longrightarrow> line_books_ok y)" if "tx_load lo e s' site i = Some y" for y
    using books_any_env [OF ld] that k l'(4) ln by blast
  ultimately show ?thesis using k by simp
qed (use assms(3) in simp_all)

lemma books_stable [simp]: "books_ok (stable_view l) = books_ok l" "line_books_ok (stable_view l) = line_books_ok l"
  by (simp_all add: books_ok_def line_books_ok_def debt_alone_def debt_total_of_def debt_paid_of_def stable_view_def)

interpretation sites: keyed_store site_step site_inv "\<lambda>s (site, i). map_option stable_view (tx_load lo e s site i)" op_touches
    "\<lambda>l. books_ok l \<and> (lorder_ok lo \<longrightarrow> line_books_ok l)"
  for lo e
proof
  fix x s s' k b y
  assume st: "site_step x s s'" "site_inv s"
  show "site_inv s'" by (rule site_step_inv [OF st])
  show "(case k of (site, i) \<Rightarrow> map_option stable_view (tx_load lo e s' site i)) =
      (case k of (site, i) \<Rightarrow> map_option stable_view (tx_load lo e s site i))" if "\<forall>b. op_touches x \<noteq> Some (k, b)"
    using site_step_other [OF st, of "fst k" "snd k" lo e] that by (simp add: split_beta)
  show "((case k of (site, i) \<Rightarrow> map_option stable_view (tx_load lo e s' site i)) \<noteq> None) = b" if "op_touches x = Some (k, b)"
    using site_step_same [OF st, of "fst k" "snd k" b lo e] that by (simp add: split_beta)
  show "books_ok y \<and> (lorder_ok lo \<longrightarrow> line_books_ok y)" if "op_touches x = Some (k, True)"
    "(case k of (site, i) \<Rightarrow> map_option stable_view (tx_load lo e s' site i)) = Some y"
    using site_step_same [OF st, of "fst k" "snd k" True lo e] that by (auto simp: split_beta)
qed

text \<open>Claim C5. Staff and guests share one store: after any mixture of saves, payments, deletions, guest
  orders and claims, a transaction is found exactly when the last call on it saved it, one that
  no call touched is loaded as it was but for the time of its last update, and starting from empty
  tables every transaction's totals agree with its own stored lines, also those of its items,
  reservations and payments when the orders of the load are permutations.\<close>

theorem site_history:
  assumes "steps site_step ops s s'" and "site_inv s"
  shows "(tx_load lo e s' site i \<noteq> None \<longleftrightarrow> fold (settle op_touches (site, i)) ops (tx_load lo e s site i \<noteq> None)) \<and>
    ((\<forall>x \<in> set ops. \<forall>b. op_touches x \<noteq> Some ((site, i), b)) \<longrightarrow>
      map_option stable_view (tx_load lo e s' site i) = map_option stable_view (tx_load lo e s site i)) \<and>
    (s = empty_conn \<longrightarrow> (\<forall>l. tx_load lo e s' site i = Some l \<longrightarrow>
      books_ok l \<and> (lorder_ok lo \<longrightarrow> line_books_ok l)))"
proof -
  have e: "tx_load lo e empty_conn a j = None" for a j by (simp add: tx_load_def empty_conn_def)
  have g: "books_ok l \<and> (lorder_ok lo \<longrightarrow> line_books_ok l)" if "s = empty_conn" "tx_load lo e s' site i = Some l" for l
    using sites.run_good [OF assms, of lo e "(site, i)" "stable_view l"] that by (simp add: e split_beta)
  show ?thesis
    using sites.run_presence [OF assms, of lo e "(site, i)"] sites.run_other [OF assms, of "(site, i)" lo e] g by simp
qed

section \<open>Examples\<close>

definition visitor_ctx :: GuestOrderPutContext where
  "visitor_ctx = \<lparr> gx_buyer_user_iid = 0, gx_visitor_id = ''v1'' \<rparr>"

definition guest_call :: "(string + Tx option) \<times> conn" where
  "guest_call = guest_order_put test_server two_rooms 1 (Some (room_order picked_rooms)) visitor_ctx room_conn"

definition guest_tx :: Tx where
  "guest_tx = (case fst guest_call of Inr (Some l) \<Rightarrow> l | _ \<Rightarrow> Tx_default)"

definition staff_call :: "(string + Tx option) \<times> conn \<times> Tx list" where
  "staff_call = test_put guest_tx (snd guest_call)"

lemma guest_call_facts:
  "(case fst guest_call of Inr (Some l) \<Rightarrow> True | _ \<Rightarrow> False) \<and> t_total_unpaid guest_tx = 10000 \<and> t_site_iid guest_tx = 1 \<and> t_tx_id guest_tx = 1000"
  by code_simp

lemma staff_call_facts: "is_saved staff_call \<and> t_input_source (saved_tx staff_call) = TxInputSource_i32 Src_Web"
  by code_simp

lemma guest_call_eq: "guest_order_put test_server two_rooms 1 (Some (room_order picked_rooms)) visitor_ctx room_conn = (Inr (Some guest_tx), snd guest_call)"
  using guest_call_facts unfolding guest_call_def [symmetric] guest_tx_def
  by (auto intro: prod_eqI split: sum.splits option.splits)

lemma test_id [simp]: "p_ids (v_env test_server) 0 = 1000"
  by (simp add: test_server_def test_env_def)

lemma room_inv: "site_inv room_conn"
  by (simp add: site_inv_def tx_pk_def data_objects_def room_conn_def empty_conn_def)

lemma guest_call_inv: "site_inv (snd guest_call)"
  by (rule guest_put_inv [OF guest_call_eq room_inv])

theorem guest_order_saved_witness:
  "\<exists>l s'. guest_order_put test_server two_rooms 1 (Some (room_order picked_rooms)) visitor_ctx room_conn = (Inr (Some l), s') \<and>
     t_type l = TxType_i32 Ty_Sale \<and> t_state l = TxState_i32 St_WaitingPayment \<and> books_ok l"
  using guest_order_saved [OF guest_call_eq] guest_call_eq by auto

theorem guest_order_private_witness:
  "\<exists>s'. guest_order_put test_server two_rooms 1 (Some (room_order picked_rooms)) visitor_ctx room_conn = (Inr (Some guest_tx), s') \<and>
     guest_order_get_allowed s' 1 1000 None (Some '' v1'') \<and> \<not> guest_order_get_allowed s' 1 1000 (Some 7) (Some ''v2'')"
proof -
  have t: "trim '' v1'' = ''v1''" "trim ''v1'' = ''v1''" "trim ''v2'' = ''v2''" by code_simp+
  show ?thesis
    using guest_order_private [OF guest_call_eq, of None "Some '' v1''"] guest_order_private [OF guest_call_eq, of "Some 7" "Some ''v2''"]
      guest_call_eq t by (simp add: visitor_ctx_def)
qed

theorem staff_save_opens_guest_order_witness:
  "\<exists>l s' pushed. tx_put test_server 50 (Some guest_tx) True (snd guest_call) = (Inr (Some l), s', pushed) \<and>
     guest_order_get_allowed s' 1 1000 (Some 7) (Some ''v2'')"
proof -
  note r = is_savedD [OF conjunct1 [OF staff_call_facts]]
  have t: "tx_put test_server 50 (Some guest_tx) True (snd guest_call) =
      (Inr (Some (saved_tx staff_call)), fst (snd staff_call), snd (snd staff_call))"
    using r by (simp add: staff_call_def test_put_def)
  have k: "t_site_iid (saved_tx staff_call) = 1 \<and> t_tx_id (saved_tx staff_call) = 1000" by code_simp
  show ?thesis
    using t staff_save_opens_guest_order [OF t conjunct2 [OF staff_call_facts], of "Some 7" "Some ''v2''"] k by metis
qed

theorem guest_hold_never_expires_witness:
  "\<exists>row s'. guest_order_put test_server two_rooms 1 (Some (room_order picked_rooms)) visitor_ctx room_conn = (Inr (Some guest_tx), s') \<and>
     find (live_of_tx 1 1000) (q_tx s') = Some row \<and> t_total_unpaid guest_tx = 10000 \<and>
     hold_counts (two_rooms\<lparr>rv_now := 10 ^ 30\<rparr>) 60 row"
proof -
  have d: "\<not> list_ex is_debt (t_payments (room_order picked_rooms))" by (simp add: room_order_def Tx_default_def)
  have u: "t_total_unpaid guest_tx = 10000"
    using guest_call_facts by blast
  show ?thesis
    using guest_hold_never_expires [OF guest_call_eq d, of "two_rooms\<lparr>rv_now := 10 ^ 30\<rparr>" 60] guest_call_eq u by auto
qed

definition claim_call :: "string + i32 \<times> conn" where
  "claim_call = guest_member_merge test_server 0 1 '' '' [1000] 7 (snd guest_call)"

definition claim_state :: conn where
  "claim_state = snd (projr claim_call)"

lemma claim_eq: "claim_call = Inr (1, claim_state)"
proof -
  have "\<not> isl claim_call" "fst (projr claim_call) = 1" by code_simp+
  then show ?thesis unfolding claim_state_def by (metis prod.collapse sum.collapse(2))
qed

theorem member_merge_protects_witness:
  "guest_member_merge test_server 0 1 '' '' [1000] 7 (snd guest_call) = Inr (1, claim_state) \<and> site_inv (snd guest_call) \<and>
   claim_state = (snd guest_call)\<lparr>q_tx := q_tx claim_state\<rparr>"
  using claim_eq [unfolded claim_call_def] guest_call_inv
    member_merge_protects [OF claim_eq [unfolded claim_call_def] guest_call_inv] by blast

theorem anonymous_order_claimed_witness:
  "\<exists>s'. guest_member_merge test_server 0 1 '' '' [1000] 7 (snd guest_call) = Inr (1, s') \<and>
     \<not> guest_order_get_allowed s' 1 1000 None (Some ''v1'')"
proof -
  obtain row where row: "find (live_of_tx 1 1000) (q_tx (snd guest_call)) = Some row" "h_input_source (w_cols row) = ''web''"
    "guest_tx_buyer_user_iid (h_tx_data_json (w_cols row)) =
      (if gx_buyer_user_iid visitor_ctx \<le>s 0 \<and> trim (gx_visitor_id visitor_ctx) = [] then 0 else gx_buyer_user_iid visitor_ctx)"
    using guest_put_row [OF guest_call_eq] by (metis test_id)
  have b: "\<not> 0 <s guest_tx_buyer_user_iid (h_tx_data_json (w_cols row))" unfolding row(3) visitor_ctx_def by simp
  have p: "(0 :: i64) <s 7" "(0 :: i64) <s 1" "(0 :: i64) <s 1000" "guest_site_owner (v_access test_server) 1 = Inr 50" "trim '' '' = []"
    by code_simp+
  show ?thesis using anonymous_order_claimed [OF row(1,2) b p, of 0] by (metis option.distinct(1))
qed

theorem site_history_witness:
  "\<exists>s. steps site_step [Put 1 1000, Idle] room_conn s \<and> site_inv room_conn \<and> tx_load test_lorder test_env s 1 1000 \<noteq> None"
proof -
  have k: "t_site_iid guest_tx = 1" "t_tx_id guest_tx = 1000" using guest_call_facts by simp_all
  have st: "steps site_step [Put 1 1000, Idle] room_conn claim_state"
    using site_guest_put [OF guest_call_eq] site_guest_merge [OF claim_eq [unfolded claim_call_def]] k by auto
  show ?thesis
    using st room_inv site_history [OF st room_inv, of test_lorder test_env 1 1000] by (intro exI [of _ claim_state]) (simp add: settle_def)
qed

end
