(* ===== verification/Guest_Schedule.thy ===== *)
theory Guest_Schedule
  imports Guest_Display
begin

text \<open>
  Opening hours of a site (\<open>servers/crates/mod_site/src/guest_schedule.rs\<close>): the slots read from
  \<open>meta.open_hours\<close>, the minutes of the week they cover, and the status a guest sees. Days and
  minutes are clamped before any arithmetic, so the minutes of a week are integers far inside
  \<open>i32\<close>. The loop of \<open>slot_segments\<close> may not end: not returning is \<open>None\<close>.
\<close>

record GuestScheduleSlot =
  gs_start_day :: i32
  gs_start_min :: i32
  gs_end_day :: i32
  gs_end_min :: i32

section \<open>Slots\<close>

definition clamp :: "i32 \<Rightarrow> i32 \<Rightarrow> i32 \<Rightarrow> i32" where
  "clamp lo hi x = (if x <s lo then lo else if hi <s x then hi else x)"

definition int_field :: "(string \<times> Value) list \<Rightarrow> string \<Rightarrow> i32 \<Rightarrow> i32" where
  "int_field m key d =
     (case Option.bind (map_of m key) as_i64 of None \<Rightarrow> d | Some n \<Rightarrow> scast n)"

definition slots_from_meta :: "Value \<Rightarrow> GuestScheduleSlot list" where
  "slots_from_meta meta =
     (case Option.bind (get_val meta ''open_hours'') as_array of
        None \<Rightarrow> []
      | Some items \<Rightarrow>
          sort_key (\<lambda>s. sint (gs_start_day s * 1440 + gs_start_min s))
            (map (\<lambda>m. \<lparr> gs_start_day = clamp 0 6 (int_field m ''startDay'' 0),
                        gs_start_min = clamp 0 1439 (int_field m ''startMin'' (9 * 60)),
                        gs_end_day = clamp 0 6 (int_field m ''endDay'' 0),
                        gs_end_min = clamp 0 1439 (int_field m ''endMin'' (17 * 60)) \<rparr>)
              (List.map_filter as_object items)))"

definition day_of :: "i32 \<Rightarrow> int" where
  "day_of d = sint (clamp 0 6 d)"

definition min_of :: "i32 \<Rightarrow> int" where
  "min_of m = sint (clamp 0 1439 m)"

definition week_min :: "i32 \<Rightarrow> i32 \<Rightarrow> int" where
  "week_min d m = day_of d * 1440 + min_of m"

definition pad2 :: "nat \<Rightarrow> string" where
  "pad2 n = (if n < 10 then ''0'' @ show_nat n else show_nat n)"

definition format_min :: "int \<Rightarrow> string" where
  "format_min m = (let m = nat (max 0 (min 1439 m)) in pad2 (m div 60) @ '':'' @ pad2 (m mod 60))"

section \<open>Segments\<close>

type_synonym segment = "int \<times> int \<times> int"

partial_function (option) seg_loop :: "int \<Rightarrow> int \<Rightarrow> segment list \<Rightarrow> segment list option" where
  "seg_loop pos end out =
     (if pos < end then
        (let day = pos div 1440 mod 7;
             day_base = day * 1440;
             seg_start = pos - day_base;
             seg_end = (if end < day_base + 1440 then end - day_base else 1440);
             out = (if seg_start < seg_end then out @ [(day, seg_start, seg_end)] else out)
         in seg_loop (day_base + 1440) end out)
      else Some out)"

declare seg_loop.simps [code]

definition slot_segments :: "GuestScheduleSlot \<Rightarrow> segment list option" where
  "slot_segments slot =
     (let sd = day_of (gs_start_day slot); ed = day_of (gs_end_day slot);
          sm = min_of (gs_start_min slot); em = min_of (gs_end_min slot)
      in if sd < ed \<and> sm < em then Some (map (\<lambda>d. (d, sm, em)) [sd..ed])
         else if ed = sd then
           (if sm < em then Some [(sd, sm, em)]
            else if em < sm then Some [(sd, sm, 1440), ((sd + 1) mod 7, 0, em)]
            else Some [])
         else
           (let start = week_min (gs_start_day slot) (gs_start_min slot);
                end = week_min (gs_end_day slot) (gs_end_min slot);
                end = (if end \<le> start then end + 7 * 1440 else end)
            in seg_loop start end []))"

fun all_segments :: "GuestScheduleSlot list \<Rightarrow> segment list option" where
  "all_segments [] = Some []"
| "all_segments (slot # slots) =
     (case slot_segments slot of
        None \<Rightarrow> None
      | Some segs \<Rightarrow> map_option (\<lambda>rest. segs @ rest) (all_segments slots))"

definition slot_ranges :: "GuestScheduleSlot list \<Rightarrow> (int \<times> int) list option" where
  "slot_ranges slots =
     map_option (\<lambda>segs. sort_key fst (map (\<lambda>(day, start, end). (day * 1440 + start, day * 1440 + end)) segs))
       (all_segments slots)"

section \<open>Status\<close>

definition WEEKDAYS_LONG :: "string list" where
  "WEEKDAYS_LONG = [''Monday'', ''Tuesday'', ''Wednesday'', ''Thursday'', ''Friday'', ''Saturday'', ''Sunday'']"

definition open_label :: "int \<Rightarrow> string" where
  "open_label end =
     (let end_minute = end mod 1440
      in if end_minute = 0 then ''Open until midnight'' else ''Open until '' @ format_min end_minute)"

text \<open>\<open>((delta as f64) / 60.0).round().clamp(1.0, 23.0)\<close>: a quotient of whole minutes by 60 is a half
  exactly when it is one, and rounds up there.\<close>

definition next_label :: "int \<Rightarrow> int \<Rightarrow> string" where
  "next_label now_min next_start =
     (let delta = next_start - now_min
      in if delta < 24 * 60 then
           (if delta < 60 then ''Open in '' @ show_nat (nat (max delta 1)) @ '' min''
            else let h = max 1 (min 23 ((delta + 30) div 60))
                 in if h = 1 then ''Open in 1 hour'' else ''Open in '' @ show_nat (nat h) @ '' hours'')
         else ''Open next '' @ WEEKDAYS_LONG ! nat (next_start div 1440 mod 7))"

text \<open>\<open>now\<close> is the weekday from Monday, the hour and the minute of \<open>Utc::now()\<close>.\<close>

definition schedule_status :: "nat \<times> nat \<times> nat \<Rightarrow> GuestScheduleSlot list \<Rightarrow> (bool \<times> string) option" where
  "schedule_status now slots =
     (if slots = [] then Some (False, ''Closed'')
      else case now of (dow, hour, minute) \<Rightarrow>
        (let now_min = int dow * 1440 + int hour * 60 + int minute;
             week = 7 * 1440
         in map_option (\<lambda>ranges.
              let ranges = ranges @ map (\<lambda>(s, e). (s + week, e + week)) ranges
              in case find (\<lambda>(start, end). start \<le> now_min \<and> now_min < end) ranges of
                   Some (start, end) \<Rightarrow> (True, open_label end)
                 | None \<Rightarrow>
                    (case find (\<lambda>(start, _). now_min < start) ranges of
                       None \<Rightarrow> (False, ''Closed'')
                     | Some (next_start, _) \<Rightarrow> (False, next_label now_min next_start)))
              (slot_ranges slots)))"

definition hours_panel_rows :: "GuestScheduleSlot list \<Rightarrow> (string \<times> string \<times> string) list" where
  "hours_panel_rows slots =
     map (\<lambda>slot. (WEEKDAYS_LONG ! nat (day_of (gs_start_day slot)),
        format_min (sint (gs_start_min slot)), format_min (sint (gs_end_min slot)))) slots"

section \<open>Which minutes a slot covers\<close>

lemma clamp_bounds: "lo \<le>s hi \<Longrightarrow> sint lo \<le> sint (clamp lo hi x) \<and> sint (clamp lo hi x) \<le> sint hi"
  by (auto simp: clamp_def word_sle_eq word_sless_alt)

lemma day_of_bounds: "0 \<le> day_of d" "day_of d \<le> 6"
  using clamp_bounds [of 0 6 d] by (simp_all add: day_of_def word_sle_eq)

lemma min_of_bounds: "0 \<le> min_of m" "min_of m \<le> 1439"
  using clamp_bounds [of 0 1439 m] by (simp_all add: min_of_def word_sle_eq)

definition seg_minutes :: "segment \<Rightarrow> int set" where
  "seg_minutes seg = (case seg of (d, a, b) \<Rightarrow> {d * 1440 + a..<d * 1440 + b})"

definition covered :: "segment list \<Rightarrow> int set" where
  "covered segs = (\<Union>seg \<in> set segs. seg_minutes seg)"

text \<open>The rule: on one day from start to end, overnight when the end is not later; the same hours on
  every day of a span of days when the end hour is later; otherwise without a break from the first
  day's start to the last day's end.\<close>

definition slot_minutes :: "GuestScheduleSlot \<Rightarrow> int set" where
  "slot_minutes slot =
     (let sd = day_of (gs_start_day slot); ed = day_of (gs_end_day slot);
          sm = min_of (gs_start_min slot); em = min_of (gs_end_min slot)
      in if sd < ed \<and> sm < em then (\<Union>d \<in> {sd..ed}. {d * 1440 + sm..<d * 1440 + em})
         else if ed = sd then
           (if sm < em then {sd * 1440 + sm..<sd * 1440 + em}
            else if em < sm then {sd * 1440 + sm..<(sd + 1) * 1440} \<union> {((sd + 1) mod 7) * 1440..<((sd + 1) mod 7) * 1440 + em}
            else {})
         else if sd < ed then {sd * 1440 + sm..<ed * 1440 + em}
         else {sd * 1440 + sm..<7 * 1440} \<union> {0..<ed * 1440 + em})"

text \<open>The slots that end in the next week, after its first minute.\<close>

definition next_week :: "GuestScheduleSlot \<Rightarrow> bool" where
  "next_week slot \<longleftrightarrow> day_of (gs_end_day slot) < day_of (gs_start_day slot) \<and> 0 < week_min (gs_end_day slot) (gs_end_min slot)"

lemma seg_loop_within:
  assumes "0 \<le> pos" and "end \<le> 7 * 1440"
  shows "\<exists>segs. seg_loop pos end out = Some (out @ segs) \<and> covered segs = {pos..<end}"
  using assms
proof (induction "nat (end - pos)" arbitrary: pos out rule: less_induct)
  case less
  show ?case
  proof (cases "pos < end")
    case True
    define day where "day = pos div 1440"
    have d: "0 \<le> day" "day < 7" "day * 1440 \<le> pos" "pos < day * 1440 + 1440"
      using less.prems True unfolding day_def by auto
    then have m: "pos div 1440 mod 7 = day" unfolding day_def by (intro mod_pos_pos_trivial) auto
    define seg where "seg = (day, pos - day * 1440, if end < day * 1440 + 1440 then end - day * 1440 else 1440)"
    have step: "seg_loop pos end out = seg_loop (day * 1440 + 1440) end (out @ [seg])"
      using True d by (subst seg_loop.simps) (simp add: Let_def m seg_def)
    from less.hyps [of "day * 1440 + 1440" "out @ [seg]"] d less.prems obtain segs where
      ih: "seg_loop (day * 1440 + 1440) end (out @ [seg]) = Some ((out @ [seg]) @ segs)" "covered segs = {day * 1440 + 1440..<end}"
      using True by auto
    have "covered (seg # segs) = {pos..<end}"
      using ih(2) d True by (auto simp: covered_def seg_minutes_def seg_def)
    then show ?thesis using step ih(1) by auto
  next
    case False
    then show ?thesis by (subst seg_loop.simps) (simp add: covered_def)
  qed
qed

text \<open>Past the end of the week the position falls back to the first day: the loop never ends.\<close>

lemma seg_loop_beyond:
  assumes "0 \<le> pos" and "pos \<le> 7 * 1440" and "7 * 1440 < end"
  shows "seg_loop pos end out = None"
proof -
  have False if "seg_loop pos end out = Some y" for y
  proof -
    let ?P = "\<lambda>pos end out y. \<not> (0 \<le> pos \<and> pos \<le> 7 * 1440 \<and> 7 * 1440 < (end :: int))"
    have "?P pos end out y"
    proof (rule seg_loop.raw_induct [of ?P, OF _ that])
      fix f :: "int \<Rightarrow> int \<Rightarrow> segment list \<Rightarrow> segment list option" and pos "end" :: int and out y
      assume ih: "\<And>pos end out y. f pos end out = Some y \<Longrightarrow> ?P pos end out y"
        and body: "(if pos < end then
          (let day = pos div 1440 mod 7; day_base = day * 1440; seg_start = pos - day_base;
               seg_end = (if end < day_base + 1440 then end - day_base else 1440);
               out = (if seg_start < seg_end then out @ [(day, seg_start, seg_end)] else out)
           in f (day_base + 1440) end out) else Some out) = Some y"
      have "0 \<le> pos div 1440 mod 7" "pos div 1440 mod 7 \<le> 6" by auto
      then show "?P pos end out y"
        using body ih [of "pos div 1440 mod 7 * 1440 + 1440" "end"] by (auto simp: Let_def split: if_splits)
    qed
    with assms show False by blast
  qed
  then show ?thesis by (cases "seg_loop pos end out") auto
qed

lemma slot_segments_covers:
  assumes "\<not> next_week slot"
  shows "\<exists>segs. slot_segments slot = Some segs \<and> covered segs = slot_minutes slot"
proof -
  let ?sd = "day_of (gs_start_day slot)" and ?ed = "day_of (gs_end_day slot)"
  let ?sm = "min_of (gs_start_min slot)" and ?em = "min_of (gs_end_min slot)"
  note b = day_of_bounds [of "gs_start_day slot"] day_of_bounds [of "gs_end_day slot"]
    min_of_bounds [of "gs_start_min slot"] min_of_bounds [of "gs_end_min slot"]
  consider "?sd < ?ed \<and> ?sm < ?em" | "?ed = ?sd" | "?sd < ?ed" "?em \<le> ?sm" | "?ed < ?sd" by linarith
  then show ?thesis
  proof cases
    case 1
    then show ?thesis by (auto simp: slot_segments_def slot_minutes_def covered_def seg_minutes_def Let_def)
  next
    case 2
    then show ?thesis
      by (auto simp: slot_segments_def slot_minutes_def covered_def seg_minutes_def Let_def)
  next
    case 3
    then have "slot_segments slot = seg_loop (?sd * 1440 + ?sm) (?ed * 1440 + ?em) []"
      "slot_minutes slot = {?sd * 1440 + ?sm..<?ed * 1440 + ?em}"
      using b by (auto simp: slot_segments_def slot_minutes_def week_min_def Let_def)
    then show ?thesis using seg_loop_within [of "?sd * 1440 + ?sm" "?ed * 1440 + ?em" "[]"] b by auto
  next
    case 4
    then have z: "?ed * 1440 + ?em = 0" using assms b by (auto simp: next_week_def week_min_def)
    then have "slot_segments slot = seg_loop (?sd * 1440 + ?sm) (7 * 1440) []"
      "slot_minutes slot = {?sd * 1440 + ?sm..<7 * 1440}"
      using 4 b by (auto simp: slot_segments_def slot_minutes_def week_min_def Let_def)
    then show ?thesis using seg_loop_within [of "?sd * 1440 + ?sm" "7 * 1440" "[]"] b by auto
  qed
qed

lemma slot_segments_hangs:
  assumes "next_week slot"
  shows "slot_segments slot = None"
proof -
  let ?s = "week_min (gs_start_day slot) (gs_start_min slot)" and ?e = "week_min (gs_end_day slot) (gs_end_min slot)"
  note b = day_of_bounds [of "gs_start_day slot"] day_of_bounds [of "gs_end_day slot"]
    min_of_bounds [of "gs_start_min slot"] min_of_bounds [of "gs_end_min slot"]
  have "?e < ?s" using assms b by (auto simp: next_week_def week_min_def)
  then have "slot_segments slot = seg_loop ?s (?e + 7 * 1440) []"
    using assms by (auto simp: slot_segments_def next_week_def Let_def)
  also have "\<dots> = None" using assms b by (intro seg_loop_beyond) (auto simp: next_week_def week_min_def)
  finally show ?thesis .
qed

section \<open>Properties\<close>

text \<open>Claim C29. The segments of a slot are computed exactly when it does not run past the end of the week, and
  then cover exactly the minutes the slot means. For a slot that ends on an earlier weekday than it
  starts (Sunday night to Monday morning) the loop falls back to the start of the week and never
  returns, unless it ends with the last minute of Sunday.\<close>

theorem slot_segments_spec:
  "(slot_segments slot = None \<longleftrightarrow> next_week slot) \<and>
   (\<forall>segs. slot_segments slot = Some segs \<longrightarrow> covered segs = slot_minutes slot)"
  using slot_segments_covers [of slot] slot_segments_hangs [of slot] by force

lemma all_segments_covers:
  "\<forall>slot \<in> set slots. \<not> next_week slot \<Longrightarrow> \<exists>segs. all_segments slots = Some segs \<and> covered segs = (\<Union>slot \<in> set slots. slot_minutes slot)"
proof (induction slots)
  case (Cons slot slots)
  then obtain segs rest where "slot_segments slot = Some segs" "covered segs = slot_minutes slot"
    "all_segments slots = Some rest" "covered rest = (\<Union>slot \<in> set slots. slot_minutes slot)"
    using slot_segments_covers [of slot] by auto
  then show ?case by (auto simp: covered_def)
qed (simp add: covered_def)

lemma slot_minutes_nonneg: "x \<in> slot_minutes slot \<Longrightarrow> 0 \<le> x"
  using day_of_bounds [of "gs_start_day slot"] day_of_bounds [of "gs_end_day slot"]
    min_of_bounds [of "gs_start_min slot"] min_of_bounds [of "gs_end_min slot"]
  by (auto simp: slot_minutes_def Let_def split: if_splits)

lemma all_segments_hangs: "\<exists>slot \<in> set slots. next_week slot \<Longrightarrow> all_segments slots = None"
  by (induction slots) (auto simp: slot_segments_hangs split: option.split)

text \<open>A guest sees the site as open exactly in its hours: with no slot that runs into the next week
  the status is computed, and it is open exactly when the minute of the week lies in one of the
  slots; one slot that does is enough for the page never to be answered.\<close>

theorem schedule_status_spec:
  assumes "dow < 7" and "hour < 24" and "minute < 60"
  shows "if \<exists>slot \<in> set slots. next_week slot then schedule_status (dow, hour, minute) slots = None
    else \<exists>label. schedule_status (dow, hour, minute) slots =
      Some (int dow * 1440 + int hour * 60 + int minute \<in> (\<Union>slot \<in> set slots. slot_minutes slot), label)"
    (is "if ?hangs then ?none else ?shown")
proof (cases ?hangs)
  case True
  then have "slots \<noteq> []" by auto
  then show ?thesis using True all_segments_hangs [OF True] by (simp add: schedule_status_def slot_ranges_def Let_def)
next
  case no: False
  then have ok: "\<forall>slot \<in> set slots. \<not> next_week slot" by blast
  let ?now = "int dow * 1440 + int hour * 60 + int minute"
  have now: "0 \<le> ?now" "?now < 10080" using assms by auto
  have ?shown
  proof (cases "slots = []")
    case True
    then show ?thesis by (simp add: schedule_status_def)
  next
    case False
    obtain segs where segs: "all_segments slots = Some segs" "covered segs = (\<Union>slot \<in> set slots. slot_minutes slot)"
      using all_segments_covers [OF ok] by blast
    define ranges where "ranges = sort_key fst (map (\<lambda>(day, start, end). (day * 1440 + start, day * 1440 + end)) segs)"
    have r: "slot_ranges slots = Some ranges" by (simp add: slot_ranges_def segs(1) ranges_def)
    define p where "p = (\<lambda>(start, end). start \<le> ?now \<and> ?now < end)"
    have here: "(\<exists>x \<in> set ranges. p x) \<longleftrightarrow> ?now \<in> covered segs"
      by (force simp: ranges_def p_def covered_def seg_minutes_def)
    have pos: "0 \<le> s" if "(s, e) \<in> set ranges" "s < e" for s e
    proof -
      have "s \<in> covered segs" using that by (force simp: ranges_def covered_def seg_minutes_def)
      then show ?thesis using segs(2) slot_minutes_nonneg by auto
    qed
    have later: "\<not> p x" if "x \<in> set (map (\<lambda>(s, e). (s + 7 * 1440, e + 7 * 1440)) ranges)" for x
      using that pos now by (fastforce simp: p_def)
    let ?all = "ranges @ map (\<lambda>(s, e). (s + 7 * 1440, e + 7 * 1440)) ranges"
    have "find p ?all = None \<longleftrightarrow> \<not> (\<exists>x \<in> set ?all. p x)" unfolding find_None_iff by blast
    also have "\<dots> \<longleftrightarrow> ?now \<notin> covered segs" unfolding here [symmetric] set_append using later by blast
    finally have "find p ?all = None \<longleftrightarrow> ?now \<notin> covered segs" .
    moreover have "\<exists>label. schedule_status (dow, hour, minute) slots = Some (find p ?all \<noteq> None, label)"
      using False r by (simp add: schedule_status_def Let_def p_def split: option.splits prod.splits)
    ultimately show ?thesis using segs(2) by auto
  qed
  with no show ?thesis by simp
qed

section \<open>Examples\<close>

definition monday_hours :: GuestScheduleSlot where
  "monday_hours = \<lparr> gs_start_day = 0, gs_start_min = 540, gs_end_day = 0, gs_end_min = 1020 \<rparr>"

definition sunday_night :: GuestScheduleSlot where
  "sunday_night = \<lparr> gs_start_day = 6, gs_start_min = 1320, gs_end_day = 0, gs_end_min = 120 \<rparr>"

lemma example_bounds: "day_of 0 = 0" "day_of 6 = 6" "min_of 540 = 540" "min_of 1020 = 1020" "min_of 120 = 120"
  by code_simp+

theorem slot_segments_spec_witness:
  "slot_segments monday_hours = Some [(0, 540, 1020)] \<and> covered [(0, 540, 1020)] = slot_minutes monday_hours \<and>
   slot_segments sunday_night = None"
proof -
  have m: "slot_segments monday_hours = Some [(0, 540, 1020)]" by code_simp
  have "next_week sunday_night" by (simp add: next_week_def week_min_def sunday_night_def example_bounds)
  then show ?thesis using m slot_segments_spec [of monday_hours] slot_segments_spec [of sunday_night] by blast
qed

theorem schedule_status_spec_witness:
  "(1 :: nat) < 7 \<and> (\<exists>label. schedule_status (0, 12, 30) [monday_hours] = Some (True, label)) \<and>
   schedule_status (0, 12, 30) [monday_hours, sunday_night] = None"
proof -
  have n: "next_week sunday_night" "\<not> next_week monday_hours" "(750 :: int) \<in> slot_minutes monday_hours"
    by (simp_all add: next_week_def week_min_def sunday_night_def monday_hours_def slot_minutes_def example_bounds)
  show ?thesis
    using schedule_status_spec [of 0 12 30 "[monday_hours]"] schedule_status_spec [of 0 12 30 "[monday_hours, sunday_night]"] n by simp
qed

end
