(* ===== verification/Sql_Tables.thy ===== *)
theory Sql_Tables
  imports Rust_Prelude
begin

text \<open>
  Tables as lists of rows: \<open>INSERT ... ON CONFLICT DO UPDATE\<close>, \<open>VARCHAR(n)\<close> columns, and lookups after
  an update. A statement that violates a key or does not fit a column fails.
\<close>

text \<open>\<open>INSERT ... ON CONFLICT DO UPDATE\<close>: the rows of the conflicting key are updated, or the new row added.\<close>

definition upsert :: "('r \<Rightarrow> bool) \<Rightarrow> ('r \<Rightarrow> 'r) \<Rightarrow> 'r \<Rightarrow> 'r list \<Rightarrow> 'r list" where
  "upsert hit upd new rows =
     (if list_ex hit rows then map (\<lambda>r. if hit r then upd r else r) rows else rows @ [new])"

text \<open>A text longer than the column is refused, unless the excess is spaces, which are cut off.\<close>

definition varchar :: "nat \<Rightarrow> string \<Rightarrow> string option" where
  "varchar n s = (if length s \<le> n then Some s else if list_all (\<lambda>c. c = CHR '' '') (drop n s) then Some (take n s) else None)"

section \<open>Upserts\<close>

lemma upsert_elem:
  "r \<in> set (upsert hit upd new rows) \<Longrightarrow> r \<in> set rows \<and> \<not> hit r \<or> (\<exists>q\<in>set rows. hit q \<and> r = upd q) \<or> r = new"
  by (auto simp: upsert_def list_ex_iff split: if_splits)

lemma upsert_other: "\<not> hit r \<Longrightarrow> r \<in> set rows \<Longrightarrow> r \<in> set (upsert hit upd new rows)"
  by (force simp: upsert_def)

lemma upsert_hit: "(\<And>q. hit q \<Longrightarrow> P (upd q)) \<Longrightarrow> P new \<Longrightarrow> \<exists>r\<in>set (upsert hit upd new rows). P r"
  by (force simp: upsert_def list_ex_iff)

lemma upsert_keys:
  assumes "distinct (map key rows)" "\<And>r. key (upd r) = key r" "\<And>r. key r = key new \<Longrightarrow> hit r"
  shows "distinct (map key (upsert hit upd new rows))"
proof -
  have "distinct (map (key \<circ> (\<lambda>r. if hit r then upd r else r)) rows) = distinct (map key rows)"
    using assms(2) by (intro arg_cong [where f = distinct]) simp
  moreover have "key new \<notin> key ` set rows" if "\<not> list_ex hit rows"
    using that assms(3) by (force simp: list_ex_iff)
  ultimately show ?thesis using assms(1) by (cases "list_ex hit rows") (simp_all add: upsert_def)
qed

lemma find_map_same: "(\<And>x. P (f x) = P x) \<Longrightarrow> (\<And>x. P x \<Longrightarrow> f x = x) \<Longrightarrow> find P (map f xs) = find P xs"
  by (induction xs) auto

lemma find_upsert_other:
  assumes "\<And>r. hit r \<Longrightarrow> \<not> P r" "\<And>r. hit r \<Longrightarrow> \<not> P (upd r)" "\<not> P new"
  shows "find P (upsert hit upd new rows) = find P rows"
proof -
  have "find P (rows @ [new]) = find P rows" using assms(3) by (induction rows) auto
  moreover have "find P (map (\<lambda>r. if hit r then upd r else r) rows) = find P rows"
    using assms(1,2) by (intro find_map_same) auto
  ultimately show ?thesis by (simp add: upsert_def)
qed

lemma find_upsert_hit:
  assumes "\<And>r. P r \<Longrightarrow> hit r" "\<And>r. hit r \<Longrightarrow> P (upd r)" "P new"
  shows "\<exists>r. find P (upsert hit upd new rows) = Some r \<and> (r = new \<or> (\<exists>q. hit q \<and> r = upd q))"
proof (cases "list_ex hit rows")
  case True
  then have "\<exists>q. hit q \<and> find P (map (\<lambda>r. if hit r then upd r else r) rows) = Some (upd q)"
    using assms(1,2) by (induction rows) auto
  with True show ?thesis by (auto simp: upsert_def)
next
  case False
  then have "find P (rows @ [new]) = Some new" using assms(1,3) by (induction rows) auto
  with False show ?thesis by (simp add: upsert_def)
qed

lemma find_upsert:
  assumes "\<And>r. hit r \<Longrightarrow> hit (upd r)" "hit new"
  shows "find hit (upsert hit upd new rows) = Some (case find hit rows of None \<Rightarrow> new | Some q \<Rightarrow> upd q)"
proof (cases "list_ex hit rows")
  case True
  then have "find hit (map (\<lambda>r. if hit r then upd r else r) rows) = Some (case find hit rows of None \<Rightarrow> new | Some q \<Rightarrow> upd q)"
    using assms(1) by (induction rows) auto
  with True show ?thesis by (simp add: upsert_def)
next
  case False
  then have "find hit (rows @ [new]) = Some new" "find hit rows = None" using assms(2) by (induction rows) auto
  with False show ?thesis by (simp add: upsert_def)
qed

lemma upsert_related:
  assumes "p \<in> set rows" "\<And>q. R q (upd q)" "\<And>q. R q q"
  shows "\<exists>p'\<in>set (upsert hit upd new rows). R p p'"
proof (cases "hit p")
  case True
  then have "upd p \<in> set (upsert hit upd new rows)" using assms(1) by (auto simp: upsert_def list_ex_iff)
  then show ?thesis using assms(2) by blast
next
  case False
  then show ?thesis using upsert_other [of hit p rows upd new] assms(1,3) by blast
qed

lemma upsert_filter_other:
  assumes "\<And>r. hit r \<Longrightarrow> hit (upd r)" "hit new"
  shows "filter (\<lambda>r. \<not> hit r) (upsert hit upd new rows) = filter (\<lambda>r. \<not> hit r) rows"
proof -
  have "filter (\<lambda>r. \<not> hit r) (map (\<lambda>r. if hit r then upd r else r) rows) = filter (\<lambda>r. \<not> hit r) rows"
    using assms(1) by (induction rows) auto
  then show ?thesis using assms(2) by (simp add: upsert_def)
qed

lemma find_only: "x \<in> set xs \<Longrightarrow> P x \<Longrightarrow> (\<And>y. y \<in> set xs \<Longrightarrow> P y \<Longrightarrow> y = x) \<Longrightarrow> find P xs = Some x"
proof -
  assume x: "x \<in> set xs" "P x" and only: "\<And>y. y \<in> set xs \<Longrightarrow> P y \<Longrightarrow> y = x"
  have "find P xs \<noteq> None" using x unfolding find_None_iff by blast
  then obtain y where y: "find P xs = Some y" by blast
  then have "y \<in> set xs" "P y" by (auto simp: find_Some_iff)
  from y only [OF this] show ?thesis by simp
qed

lemma find_map_kept: "(\<And>x. P (f x) = P x) \<Longrightarrow> find P (map f xs) = map_option f (find P xs)"
  by (induction xs) auto

lemma distinct_key_eq: "distinct (map key xs) \<Longrightarrow> x \<in> set xs \<Longrightarrow> y \<in> set xs \<Longrightarrow> key x = key y \<Longrightarrow> x = y"
  by (auto simp: distinct_map dest: inj_onD)

end
