(* ===== verification/Site_Handle.thy ===== *)
theory Site_Handle
  imports Site_Access Guest_Display Normalizer Sql_Tables
begin

text \<open>
  Handles of sites: \<open>servers/crates/mod_site/src/slug.rs\<close>, \<open>site_handle.rs\<close> and the checks of
  \<open>platform_site.rs\<close>. The tables are those of \<open>access\<close>. \<open>lower\<close> is PostgreSQL's \<open>LOWER\<close>, \<open>rnd\<close> the
  number drawn by \<open>rand::random\<close>, \<open>now\<close> the transaction's \<open>NOW()\<close>. The unique index on
  \<open>LOWER(alien_id)\<close> spans identities of every kind, deleted ones included. Invalidating caches of
  other modules, whose result the code ignores, is left out.
\<close>

section \<open>Slugs\<close>

fun site_slug_loop :: "string \<Rightarrow> string \<Rightarrow> string" where
  "site_slug_loop [] out = out"
| "site_slug_loop (ch # chs) out =
     (if is_ascii_alphanumeric ch then site_slug_loop chs (out @ [ch])
      else if is_whitespace ch \<or> ch = CHR ''_'' \<or> ch = CHR ''-'' then
        (if out \<noteq> [] \<and> last out = CHR ''-'' then site_slug_loop chs out else site_slug_loop chs (out @ [CHR ''-'']))
      else site_slug_loop chs out)"

definition trim_end_hyphens :: "string \<Rightarrow> string" where
  "trim_end_hyphens s = rev (dropWhile (\<lambda>c. c = CHR ''-'') (rev s))"

definition trim_hyphens :: "string \<Rightarrow> string" where
  "trim_hyphens s = trim_end_hyphens (dropWhile (\<lambda>c. c = CHR ''-'') s)"

definition site_slug_generate :: "string \<Rightarrow> string" where
  "site_slug_generate name =
     (let trimmed = to_lowercase (trim name);
          cleaned = trim_hyphens (site_slug_loop trimmed []);
          limited = (if 48 < length cleaned then trim_end_hyphens (take 48 cleaned) else cleaned)
      in if limited = [] then ''site'' else limited)"

definition slug_taken :: "(string \<Rightarrow> string) \<Rightarrow> access \<Rightarrow> i64 option \<Rightarrow> string \<Rightarrow> bool" where
  "slug_taken lower z exclude slug =
     list_ex (\<lambda>i. id_kind i = ''site'' \<and> map_option lower (id_alien_id i) = Some (lower slug) \<and>
        (case exclude of None \<Rightarrow> True | Some x \<Rightarrow> id_id i \<noteq> x) \<and> \<not> id_deleted i) (z_identity z)"

definition site_slug_ensure_unique :: "(string \<Rightarrow> string) \<Rightarrow> u32 \<Rightarrow> access \<Rightarrow> string \<Rightarrow> i64 option \<Rightarrow> string" where
  "site_slug_ensure_unique lower rnd z base_slug exclude =
     (let clean_base = (if trim base_slug = [] then ''site'' else trim base_slug)
      in if \<not> slug_taken lower z exclude clean_base then clean_base
         else case find (\<lambda>c. \<not> slug_taken lower z exclude c)
                (map (\<lambda>counter. clean_base @ ''-'' @ show_nat counter) [2..<1000]) of
                Some candidate \<Rightarrow> candidate
              | None \<Rightarrow> clean_base @ ''-'' @ show_nat (unat (rnd mod 10000)))"

section \<open>Handles\<close>

definition HANDLE_MIN_LEN :: nat where "HANDLE_MIN_LEN = 3"

definition HANDLE_MAX_LEN :: nat where "HANDLE_MAX_LEN = 48"

definition is_ascii_digit :: "char \<Rightarrow> bool" where
  "is_ascii_digit c = (let n = of_char c :: nat in 48 \<le> n \<and> n \<le> 57)"

definition is_ascii_lowercase :: "char \<Rightarrow> bool" where
  "is_ascii_lowercase c = (let n = of_char c :: nat in 97 \<le> n \<and> n \<le> 122)"

definition site_handle_normalize :: "string \<Rightarrow> string + string" where
  "site_handle_normalize raw =
     (let clean = site_slug_generate (trim raw)
      in if length clean < HANDLE_MIN_LEN then Inl ''handle must be at least 3 characters''
         else if HANDLE_MAX_LEN < length clean then Inl ''handle must be at most 48 characters''
         else if list_all is_ascii_digit clean then Inl ''handle cannot be only numbers; pick a memorable name''
         else if \<not> list_all (\<lambda>c. is_ascii_lowercase c \<or> is_ascii_digit c \<or> c = CHR ''-'' \<or> c = CHR ''_'') clean
         then Inl ''invalid handle characters''
         else Inr clean)"

definition PLATFORM_SITE_ALIEN_ID :: string where
  "PLATFORM_SITE_ALIEN_ID = ''alienai''"

definition platform_site_alien_id_is :: "string \<Rightarrow> bool" where
  "platform_site_alien_id_is raw = eq_ignore_ascii_case (trim raw) PLATFORM_SITE_ALIEN_ID"

definition platform_site_handle_assign_check :: "string \<Rightarrow> string \<Rightarrow> string + unit" where
  "platform_site_handle_assign_check current_alien_id new_alien_id =
     (if platform_site_alien_id_is current_alien_id then Inl ''platform site handle is locked''
      else if platform_site_alien_id_is new_alien_id then Inl ''handle is reserved''
      else Inr ())"

text \<open>\<open>str::parse\<close> of a signed integer: an optional sign and at least one digit, in range.\<close>

definition parse_int :: "string \<Rightarrow> int option" where
  "parse_int s =
     (let (neg, ds) = (case s of [] \<Rightarrow> (False, []) | c # cs \<Rightarrow>
            if c = CHR ''-'' then (True, cs) else if c = CHR ''+'' then (False, cs) else (False, s));
          n = int (nat_of_digits ds)
      in if ds = [] \<or> \<not> list_all is_ascii_digit ds then None else Some (if neg then - n else n))"

definition parse_i64 :: "string \<Rightarrow> i64 option" where
  "parse_i64 s = Option.bind (parse_int s) (\<lambda>v. if - (2 ^ 63) \<le> v \<and> v < 2 ^ 63 then Some (word_of_int v) else None)"

definition handle_conflicts_with_site_id :: "access \<Rightarrow> string \<Rightarrow> i64 \<Rightarrow> string + unit" where
  "handle_conflicts_with_site_id z handle site =
     (case parse_i64 handle of
        None \<Rightarrow> Inr ()
      | Some num \<Rightarrow>
          if num = site then Inl ''choose a memorable handle, not your site ID number''
          else if site_row z num \<noteq> None then Inl (''handle '' @ [CHR 0x27] @ handle @ [CHR 0x27] @ '' conflicts with another site'' @ [CHR 0x27] @ ''s ID'')
          else Inr ())"

definition set_alien_id :: "access \<Rightarrow> i64 \<Rightarrow> string \<Rightarrow> access" where
  "set_alien_id z site slug = z\<lparr> z_identity :=
     map (\<lambda>i. if id_id i = site then i\<lparr> id_alien_id := Some slug \<rparr> else i) (z_identity z) \<rparr>"

definition alien_id_index :: "(string \<Rightarrow> string) \<Rightarrow> access \<Rightarrow> string list" where
  "alien_id_index lower z =
     map lower (filter (\<lambda>a. a \<noteq> []) (List.map_filter id_alien_id (z_identity z)))"

definition site_handle_put ::
  "(string \<Rightarrow> string) \<Rightarrow> u32 \<Rightarrow> int \<Rightarrow> access \<Rightarrow> i64 \<Rightarrow> i64 \<Rightarrow> string \<Rightarrow> (string + string) \<times> access" where
  "site_handle_put lower rnd now z caller site new_alien_id =
     (if site \<le>s 0 then (Inl ''site_iid required'', z)
      else case site_grant_check z caller site False of
        Inl err \<Rightarrow> (Inl err, z)
      | Inr _ \<Rightarrow>
        (case site_handle_normalize new_alien_id of
           Inl err \<Rightarrow> (Inl err, z)
         | Inr clean \<Rightarrow>
           (let current_alien = unwrap_or [] (Option.bind (site_row z site) id_alien_id)
            in case platform_site_handle_assign_check current_alien clean of
                 Inl err \<Rightarrow> (Inl err, z)
               | Inr _ \<Rightarrow>
                 (case handle_conflicts_with_site_id z clean site of
                    Inl err \<Rightarrow> (Inl err, z)
                  | Inr _ \<Rightarrow>
                    (let unique_slug = site_slug_ensure_unique lower rnd z clean (Some site)
                     in if unique_slug \<noteq> clean
                        then (Inl (''Handle '' @ [CHR 0x27] @ ''@'' @ clean @ [CHR 0x27] @ '' is already taken. Try '' @ [CHR 0x27] @ ''@'' @
                                unique_slug @ [CHR 0x27] @ '' or another name.''), z)
                        else let z' = set_alien_id z site unique_slug
                             in if \<not> distinct (alien_id_index lower z') then (Inl ''duplicate key'', z)
                                else (Inr unique_slug, z'\<lparr> z_config :=
                                  map (\<lambda>c. if cf_site_iid c = site then c\<lparr> cf_alien_id_changed := Some now \<rparr> else c) (z_config z') \<rparr>))))))"

section \<open>Slugs are normal forms\<close>

definition handle_char :: "char \<Rightarrow> bool" where
  "handle_char c \<longleftrightarrow> is_ascii_lowercase c \<or> is_ascii_digit c \<or> c = CHR ''-''"

definition no_hyphen_pair :: "string \<Rightarrow> bool" where
  "no_hyphen_pair s \<longleftrightarrow> \<not> str_contains s ''--''"

definition is_site_slug :: "string \<Rightarrow> bool" where
  "is_site_slug s \<longleftrightarrow> s \<noteq> [] \<and> length s \<le> 48 \<and> list_all handle_char s \<and>
     hd s \<noteq> CHR ''-'' \<and> last s \<noteq> CHR ''-'' \<and> no_hyphen_pair s"

lemma no_hyphen_pair_sublist: "no_hyphen_pair (a @ s @ b) \<Longrightarrow> no_hyphen_pair s"
  unfolding no_hyphen_pair_def str_contains_iff by (metis append.assoc)

lemma no_hyphen_pair_snoc:
  "no_hyphen_pair s \<Longrightarrow> c \<noteq> CHR ''-'' \<or> s = [] \<or> last s \<noteq> CHR ''-'' \<Longrightarrow> no_hyphen_pair (s @ [c])"
proof (rule ccontr)
  assume s: "no_hyphen_pair s" "c \<noteq> CHR ''-'' \<or> s = [] \<or> last s \<noteq> CHR ''-''" and "\<not> no_hyphen_pair (s @ [c])"
  then obtain a b where ab: "s @ [c] = a @ ''--'' @ b" by (auto simp: no_hyphen_pair_def str_contains_iff)
  show False
  proof (cases b rule: rev_cases)
    case Nil
    with ab have "s = a @ ''-'' \<and> c = CHR ''-''" by (metis append.assoc append_Cons append_Nil append_Nil2 append1_eq_conv)
    with s(2) show False by auto
  next
    case (snoc b' x)
    with ab have "s = a @ ''--'' @ b'" by (metis append.assoc append1_eq_conv)
    with s(1) show False by (auto simp: no_hyphen_pair_def str_contains_iff)
  qed
qed

lemma hyphen_not_alnum: "is_ascii_alphanumeric c \<Longrightarrow> c \<noteq> CHR ''-''"
  by (auto simp: is_ascii_alphanumeric_def)

lemma lower_alnum:
  assumes "is_ascii_alphanumeric (char_lower c)"
  shows "handle_char (char_lower c)"
proof -
  define n where "n = (of_char c :: nat)"
  have n: "n < 256" by (simp add: n_def)
  show ?thesis using assms n
    by (auto simp: is_ascii_alphanumeric_def handle_char_def is_ascii_lowercase_def is_ascii_digit_def char_lower_def
        Let_def n_def [symmetric] split: if_splits)
qed

lemma site_slug_loop_form:
  assumes "\<forall>c\<in>set cs. is_ascii_alphanumeric c \<longrightarrow> handle_char c" "list_all handle_char out" "no_hyphen_pair out"
  shows "list_all handle_char (site_slug_loop cs out) \<and> no_hyphen_pair (site_slug_loop cs out)"
  using assms
proof (induction cs arbitrary: out)
  case (Cons c cs)
  consider (alnum) "is_ascii_alphanumeric c" | (hyphen) "\<not> is_ascii_alphanumeric c" "out = [] \<or> last out \<noteq> CHR ''-''"
      "is_whitespace c \<or> c = CHR ''_'' \<or> c = CHR ''-''"
    | (skip) "\<not> is_ascii_alphanumeric c" "(is_whitespace c \<or> c = CHR ''_'' \<or> c = CHR ''-'') \<longrightarrow> out \<noteq> [] \<and> last out = CHR ''-''"
    by blast
  then show ?case
  proof cases
    case alnum
    moreover have "no_hyphen_pair (out @ [c])" using Cons.prems alnum hyphen_not_alnum by (auto intro: no_hyphen_pair_snoc)
    ultimately show ?thesis using Cons.prems Cons.IH [of "out @ [c]"] by simp
  next
    case hyphen
    moreover have "no_hyphen_pair (out @ ''-'')" using Cons.prems hyphen by (auto intro: no_hyphen_pair_snoc)
    moreover from hyphen have "site_slug_loop (c # cs) out = site_slug_loop cs (out @ ''-'')" by auto
    ultimately show ?thesis using Cons.prems Cons.IH [of "out @ ''-''"] by (simp add: handle_char_def [of "CHR ''-''"])
  next
    case skip
    then have "site_slug_loop (c # cs) out = site_slug_loop cs out" by simp
    then show ?thesis using Cons.prems Cons.IH [of out] by simp
  qed
qed simp

lemma trim_end_hyphens_prefix: "\<exists>b. s = trim_end_hyphens s @ b"
proof
  show "s = trim_end_hyphens s @ rev (takeWhile (\<lambda>c. c = CHR ''-'') (rev s))"
    unfolding trim_end_hyphens_def by (metis rev_append rev_rev_ident takeWhile_dropWhile_id)
qed

lemma trim_end_hyphens_last: "trim_end_hyphens s \<noteq> [] \<Longrightarrow> last (trim_end_hyphens s) \<noteq> CHR ''-''"
  unfolding trim_end_hyphens_def by (metis (mono_tags) hd_dropWhile last_rev rev_is_Nil_conv)

lemma trim_end_hyphens_id: "s = [] \<or> last s \<noteq> CHR ''-'' \<Longrightarrow> trim_end_hyphens s = s"
  by (cases s rule: rev_cases) (auto simp: trim_end_hyphens_def)

lemma trim_hyphens_infix: "\<exists>a b. s = a @ trim_hyphens s @ b"
  unfolding trim_hyphens_def by (metis takeWhile_dropWhile_id trim_end_hyphens_prefix)

lemma trim_hyphens_ends:
  assumes "trim_hyphens s \<noteq> []"
  shows "hd (trim_hyphens s) \<noteq> CHR ''-'' \<and> last (trim_hyphens s) \<noteq> CHR ''-''"
proof -
  let ?d = "dropWhile (\<lambda>c. c = CHR ''-'') s"
  obtain b where b: "?d = trim_hyphens s @ b" unfolding trim_hyphens_def using trim_end_hyphens_prefix by blast
  then have "hd ?d = hd (trim_hyphens s)" "?d \<noteq> []" using assms by auto
  moreover from this have "hd ?d \<noteq> CHR ''-''" by (metis (mono_tags) hd_dropWhile)
  ultimately show ?thesis using assms trim_end_hyphens_last by (simp add: trim_hyphens_def)
qed

lemma site_slug_generate_form: "is_site_slug (site_slug_generate name)"
proof -
  define out where "out = site_slug_loop (to_lowercase (trim name)) []"
  define cleaned where "cleaned = trim_hyphens out"
  define limited where "limited = (if 48 < length cleaned then trim_end_hyphens (take 48 cleaned) else cleaned)"
  have "list_all handle_char out \<and> no_hyphen_pair out" unfolding out_def
    by (rule site_slug_loop_form) (auto simp: to_lowercase_def lower_alnum no_hyphen_pair_def)
  moreover obtain a b where out: "out = a @ cleaned @ b" unfolding cleaned_def using trim_hyphens_infix by blast
  ultimately have cl: "list_all handle_char cleaned" "no_hyphen_pair cleaned" by (auto dest: no_hyphen_pair_sublist)
  obtain d where "take 48 cleaned = trim_end_hyphens (take 48 cleaned) @ d" using trim_end_hyphens_prefix by blast
  then have d: "cleaned = trim_end_hyphens (take 48 cleaned) @ d @ drop 48 cleaned"
      "length (trim_end_hyphens (take 48 cleaned)) + length d \<le> 48"
    by (metis append.assoc append_take_drop_id, metis length_append length_take min.cobounded2)
  then have "\<exists>e. cleaned = limited @ e \<and> length limited \<le> 48"
    by (cases "48 < length cleaned") (auto simp: limited_def)
  then obtain e where e: "cleaned = limited @ e" "length limited \<le> 48" by blast
  then have "list_all handle_char limited" "no_hyphen_pair limited"
    using cl no_hyphen_pair_sublist [of "[]" limited e] by simp_all
  moreover have "hd limited \<noteq> CHR ''-''" if "limited \<noteq> []"
  proof -
    have "hd cleaned \<noteq> CHR ''-''" using that e(1) trim_hyphens_ends [of out] cleaned_def by auto
    then show ?thesis using that e(1) by simp
  qed
  moreover have "last limited \<noteq> CHR ''-''" if "limited \<noteq> []"
    using that trim_hyphens_ends [of out] trim_end_hyphens_last [of "take 48 cleaned"]
    by (simp add: limited_def cleaned_def [symmetric] split: if_splits)
  moreover have "is_site_slug ''site''" by code_simp
  moreover have "site_slug_generate name = (if limited = [] then ''site'' else limited)"
    by (simp add: site_slug_generate_def Let_def out_def cleaned_def limited_def)
  ultimately show ?thesis using e by (auto simp: is_site_slug_def)
qed

lemma handle_char_cases:
  assumes "handle_char c"
  shows "char_lower c = c" "\<not> is_whitespace c" "c = CHR ''-'' \<or> is_ascii_alphanumeric c"
proof -
  define n where "n = (of_char c :: nat)"
  have n: "97 \<le> n \<and> n \<le> 122 \<or> 48 \<le> n \<and> n \<le> 57 \<or> n = 45"
    using assms by (auto simp: handle_char_def is_ascii_lowercase_def is_ascii_digit_def n_def Let_def)
  then show "char_lower c = c" "\<not> is_whitespace c"
    by (auto simp: char_lower_def is_whitespace_def Let_def n_def [symmetric])
  show "c = CHR ''-'' \<or> is_ascii_alphanumeric c"
    using assms by (auto simp: handle_char_def is_ascii_lowercase_def is_ascii_digit_def is_ascii_alphanumeric_def Let_def)
qed

lemma site_slug_loop_fixed:
  "list_all handle_char cs \<Longrightarrow> no_hyphen_pair (out @ cs) \<Longrightarrow> site_slug_loop cs out = out @ cs"
proof (induction cs arbitrary: out)
  case (Cons c cs)
  have "\<not> (out \<noteq> [] \<and> last out = CHR ''-'' \<and> c = CHR ''-'')"
  proof
    assume "out \<noteq> [] \<and> last out = CHR ''-'' \<and> c = CHR ''-''"
    then have "out @ c # cs = butlast out @ ''--'' @ cs" by (metis append.assoc append_Cons append_Nil append_butlast_last_id)
    with Cons.prems(2) show False by (auto simp: no_hyphen_pair_def str_contains_iff)
  qed
  then have "site_slug_loop (c # cs) out = site_slug_loop cs (out @ [c])"
    using handle_char_cases [of c] Cons.prems(1) hyphen_not_alnum [of c] by auto
  with Cons show ?case by simp
qed simp

lemma trim_handle: "list_all handle_char s \<Longrightarrow> trim s = s"
  using handle_char_cases(2)
  by (cases "s = []") (auto simp: trim_def list_all_iff dropWhile_hd hd_rev)

lemma lower_handle: "list_all handle_char s \<Longrightarrow> to_lowercase s = s"
  by (auto simp: to_lowercase_def list_all_iff handle_char_cases intro: map_idI)

lemma site_slug_generate_fixed: "is_site_slug s \<Longrightarrow> site_slug_generate s = s"
proof -
  assume s: "is_site_slug s"
  then have "site_slug_loop s [] = s" using site_slug_loop_fixed [of s "[]"] by (simp add: is_site_slug_def)
  moreover have "trim_hyphens s = s"
    using s by (simp add: trim_hyphens_def is_site_slug_def dropWhile_hd trim_end_hyphens_id)
  ultimately show ?thesis using s
    by (simp add: site_slug_generate_def is_site_slug_def trim_handle lower_handle Let_def)
qed

text \<open>Site slugs: whatever the name, \<open>site_slug_generate\<close> gives a text of 1 to 48 lower case
  ASCII letters, digits and hyphens, with no hyphen at either end and never two in a row; a text of
  this form is left alone, so generating twice changes nothing.\<close>

theorem site_slug_generate_normal:
  "is_site_slug (site_slug_generate name) \<and> site_slug_generate (site_slug_generate name) = site_slug_generate name"
  by (simp add: site_slug_generate_form site_slug_generate_fixed)

text \<open>The unique slug is free, unless the name and its 998 numbered variants are all taken.\<close>

theorem site_slug_ensure_unique_free:
  "\<not> slug_taken lower z exclude (site_slug_ensure_unique lower rnd z base exclude) \<or>
   (\<forall>n. 2 \<le> n \<and> n < 1000 \<longrightarrow>
      slug_taken lower z exclude ((if trim base = [] then ''site'' else trim base) @ ''-'' @ show_nat n))"
proof -
  let ?c = "if trim base = [] then ''site'' else trim base"
  let ?cands = "map (\<lambda>counter. ?c @ ''-'' @ show_nat counter) [2..<1000]"
  show ?thesis
  proof (cases "find (\<lambda>c. \<not> slug_taken lower z exclude c) ?cands")
    case None
    then have "\<forall>x \<in> set ?cands. slug_taken lower z exclude x" unfolding find_None_iff by blast
    then show ?thesis by (simp del: upt_rec_numeral)
  next
    case (Some c)
    then have "\<not> slug_taken lower z exclude c" unfolding find_Some_iff by blast
    with Some show ?thesis by (simp add: site_slug_ensure_unique_def Let_def del: upt_rec_numeral)
  qed
qed

section \<open>Renaming a site\<close>

lemma handle_normalize_form:
  assumes "site_handle_normalize raw = Inr h"
  shows "h = site_slug_generate (trim raw)" "is_site_slug h" "3 \<le> length h" "\<not> list_all is_ascii_digit h"
  using assms by (auto simp: site_handle_normalize_def Let_def HANDLE_MIN_LEN_def site_slug_generate_form split: if_splits)

lemma handle_not_number: "is_site_slug h \<Longrightarrow> \<not> list_all is_ascii_digit h \<Longrightarrow> parse_i64 h = None"
proof (cases h)
  case (Cons c cs)
  assume h: "is_site_slug h" "\<not> list_all is_ascii_digit h"
  have "\<not> handle_char (CHR ''+'')" by code_simp
  with h Cons have "c \<noteq> CHR ''-''" "c \<noteq> CHR ''+''" by (auto simp: is_site_slug_def)
  with h Cons show ?thesis by (simp add: parse_i64_def parse_int_def Let_def)
qed (simp add: is_site_slug_def)

abbreviation renamed :: "i64 \<Rightarrow> string \<Rightarrow> IdentityRow \<Rightarrow> IdentityRow" where
  "renamed site h i \<equiv> (if id_id i = site then i\<lparr> id_alien_id := Some h \<rparr> else i)"

lemma site_row_set_alien_id: "site_row (set_alien_id z site h) s = map_option (renamed site h) (site_row z s)"
  unfolding site_row_def set_alien_id_def by (simp add: find_map_kept)

lemma root_set_alien_id: "caller_root_or_director (set_alien_id z site h) c = caller_root_or_director z c"
  unfolding caller_root_or_director_def set_alien_id_def
  by (auto simp: find_map_kept split: option.splits)

lemma site_grant_check_cong:
  assumes "map_option id_owner_iid (site_row z' s) = map_option id_owner_iid (site_row z s)"
    and "caller_root_or_director z' c = caller_root_or_director z c" "grant_role z' s c = grant_role z s c"
  shows "site_grant_check z' c s w = site_grant_check z c s w"
  using assms by (cases "site_row z' s"; cases "site_row z s") (simp_all add: site_grant_check_def Let_def)

lemma rights_set_alien_id: "site_grant_check (set_alien_id z site h) c s w = site_grant_check z c s w"
proof (rule site_grant_check_cong)
  show "map_option id_owner_iid (site_row (set_alien_id z site h) s) = map_option id_owner_iid (site_row z s)"
    by (cases "site_row z s") (simp_all add: site_row_set_alien_id)
qed (simp_all add: root_set_alien_id, simp add: grant_role_def set_alien_id_def)

lemma rights_z_config: "site_grant_check (z\<lparr> z_config := x \<rparr>) c s w = site_grant_check z c s w"
  by (rule site_grant_check_cong) (simp_all add: site_row_def caller_root_or_director_def grant_role_def)

lemma index_distinct_pair:
  assumes "distinct (alien_id_index lower z)" "z_identity z = xs @ [i] @ ys" "id_alien_id i = Some h" "h \<noteq> []"
    and "j \<in> set xs \<union> set ys" "id_alien_id j = Some a" "a \<noteq> []"
  shows "lower a \<noteq> lower h"
proof -
  have "alien_id_index lower z = alien_id_index lower (z\<lparr> z_identity := xs \<rparr>) @ [lower h] @ alien_id_index lower (z\<lparr> z_identity := ys \<rparr>)"
    using assms(2,3,4) by (simp add: alien_id_index_def map_filter_def)
  moreover have "lower a \<in> set (alien_id_index lower (z\<lparr> z_identity := xs \<rparr>)) \<union> set (alien_id_index lower (z\<lparr> z_identity := ys \<rparr>))"
    using assms(5,6,7) by (force simp: alien_id_index_def map_filter_def)
  ultimately show ?thesis using assms(1) by auto
qed

lemma platform_normal: "list_all handle_char h \<Longrightarrow> platform_site_alien_id_is h \<longleftrightarrow> h = PLATFORM_SITE_ALIEN_ID"
proof -
  assume h: "list_all handle_char h"
  have lower: "to_ascii_lowercase s = s" if "list_all handle_char s" for s
  proof -
    have "ascii_lower c = c" if "handle_char c" for c
      using handle_char_cases(1) [OF that] that
      by (auto simp: ascii_lower_def char_lower_def handle_char_def is_ascii_lowercase_def is_ascii_digit_def Let_def)
    with that show ?thesis by (simp add: to_ascii_lowercase_def list_all_iff map_idI)
  qed
  have "list_all handle_char PLATFORM_SITE_ALIEN_ID" by code_simp
  with h show ?thesis by (simp add: platform_site_alien_id_is_def eq_ignore_ascii_case_def trim_handle lower)
qed

text \<open>What a successful rename goes through.\<close>

lemma site_handle_put_cases:
  assumes "site_handle_put lower rnd now z caller site raw = (r, z')"
  obtains (refused) e where "r = Inl e" "z' = z"
  | (ok) h owner row where "r = Inr h" "site_grant_check z caller site False = Inr owner" "site_row z site = Some row"
      "site_handle_normalize raw = Inr h" "\<not> platform_site_alien_id_is (unwrap_or [] (id_alien_id row))"
      "\<not> platform_site_alien_id_is h" "distinct (alien_id_index lower (set_alien_id z site h))"
      "z' = (set_alien_id z site h)\<lparr> z_config := z_config z' \<rparr>"
proof (cases r)
  case (Inl e)
  with assms have "z' = z" by (auto simp: site_handle_put_def Let_def split: sum.splits if_splits)
  with Inl show ?thesis by (rule refused)
next
  case (Inr h)
  with assms obtain owner where o: "site_grant_check z caller site False = Inr owner"
    by (auto simp: site_handle_put_def split: sum.splits if_splits)
  then obtain row where row: "site_row z site = Some row"
    by (auto simp: site_grant_check_def split: option.splits)
  show ?thesis using assms Inr o row
    by (intro ok [OF Inr o row])
      (auto simp: site_handle_put_def platform_site_handle_assign_check_def Let_def split: sum.splits if_splits)
qed

text \<open>Claim C28. Renaming a site: a refused \<open>site_handle_put\<close> changes nothing. A successful one gives the
  site a normal slug of at least 3 characters that is neither a number (so it cannot stand for a
  site id) nor the platform's \<open>alienai\<close>, only if the site does not hold \<open>alienai\<close> now; no other identity
  of any kind has that handle, up to \<open>LOWER\<close>; all other identities keep theirs; and nobody's rights
  on any site change.\<close>

theorem site_handle_put_spec:
  assumes "distinct (map id_id (z_identity z))"
  shows "case site_handle_put lower rnd now z caller site raw of
      (Inl e, z') \<Rightarrow> z' = z
    | (Inr h, z') \<Rightarrow>
        is_site_slug h \<and> 3 \<le> length h \<and> parse_i64 h = None \<and> h \<noteq> PLATFORM_SITE_ALIEN_ID \<and>
        (\<exists>row. site_row z site = Some row \<and> id_alien_id row \<noteq> Some PLATFORM_SITE_ALIEN_ID \<and>
           site_row z' site = Some (row\<lparr> id_alien_id := Some h \<rparr>)) \<and>
        filter (\<lambda>i. id_id i \<noteq> site) (z_identity z') = filter (\<lambda>i. id_id i \<noteq> site) (z_identity z) \<and>
        (\<forall>i a. i \<in> set (z_identity z') \<and> id_id i \<noteq> site \<and> id_alien_id i = Some a \<and> a \<noteq> [] \<longrightarrow> lower a \<noteq> lower h) \<and>
        (\<forall>c s w. site_grant_check z' c s w = site_grant_check z c s w)"
proof -
  obtain r z' where put: "site_handle_put lower rnd now z caller site raw = (r, z')" by fastforce
  from put show ?thesis
  proof (cases rule: site_handle_put_cases)
    case (refused e)
    with put show ?thesis by simp
  next
    case (ok h owner row)
    note form = handle_normalize_form [OF ok(4)]
    have h: "list_all handle_char h" "h \<noteq> []" using form(2) by (simp_all add: is_site_slug_def)
    have plat: "platform_site_alien_id_is PLATFORM_SITE_ALIEN_ID" by code_simp
    let ?z = "set_alien_id z site h"
    obtain cfg where z': "z' = ?z\<lparr> z_config := cfg \<rparr>" using ok(8) by blast
    have row: "row \<in> set (z_identity z)" "id_id row = site"
      using ok(3) by (auto simp: site_row_def find_Some_iff)
    obtain xs ys where split: "z_identity z = xs @ row # ys" using row(1) by (meson split_list)
    have others: "id_id i \<noteq> site" if "i \<in> set xs \<union> set ys" for i
    proof -
      have "id_id row \<notin> id_id ` (set xs \<union> set ys)" using assms by (simp add: split image_Un)
      with that row(2) show ?thesis by (metis imageI)
    qed
    have "map (renamed site h) xs = xs" "map (renamed site h) ys = ys" using others by (simp_all add: map_idI)
    then have ident: "z_identity ?z = xs @ [row\<lparr> id_alien_id := Some h \<rparr>] @ ys"
      by (simp add: set_alien_id_def split row(2))
    have "lower a \<noteq> lower h" if "i \<in> set (z_identity z')" "id_id i \<noteq> site" "id_alien_id i = Some a" "a \<noteq> []" for i a
      using index_distinct_pair [OF ok(7) ident _ h(2), of i a] that row(2) by (auto simp: z' ident)
    moreover have "filter (\<lambda>i. id_id i \<noteq> site) (z_identity z') = filter (\<lambda>i. id_id i \<noteq> site) (z_identity z)"
      by (simp add: z' ident split row(2))
    moreover have "site_row z' site = Some (row\<lparr> id_alien_id := Some h \<rparr>)"
      using site_row_set_alien_id [of z site h site] ok(3) row(2) by (simp add: z' site_row_def)
    moreover have "id_alien_id row \<noteq> Some PLATFORM_SITE_ALIEN_ID" using ok(5) plat by (auto simp: unwrap_or_def)
    moreover have "h \<noteq> PLATFORM_SITE_ALIEN_ID" using ok(6) plat by auto
    moreover have "site_grant_check z' c s w = site_grant_check z c s w" for c s w
      by (simp add: z' rights_z_config rights_set_alien_id)
    ultimately show ?thesis using put ok(1,3) form(2-4) handle_not_number [of h] by simp blast
  qed
qed

text \<open>Renaming asks for reading rights only: two callers who may read the site get the same
  result, so a member whose role is \<open>guest\<close> renames it exactly as its owner does.\<close>

theorem site_handle_put_reader:
  assumes "site_grant_check z reader site False = Inr owner" "site_grant_check z caller site False = Inr owner"
  shows "site_handle_put lower rnd now z reader site raw = site_handle_put lower rnd now z caller site raw"
  using assms by (simp add: site_handle_put_def)

section \<open>Examples\<close>

definition handle_access :: access where
  "handle_access = test_access\<lparr> z_grant := [\<lparr> gr_resource_iid = 1, gr_grantee_iid = 60, gr_role = ''guest'', gr_deleted = False \<rparr>] \<rparr>"

theorem site_handle_put_spec_witness:
  "distinct (map id_id (z_identity handle_access)) \<and>
   fst (site_handle_put to_lowercase 0 7 handle_access 50 1 '' Kopi Kita! '') = Inr ''kopi-kita'' \<and>
   is_site_slug ''kopi-kita'' \<and> parse_i64 ''kopi-kita'' = None"
proof -
  have d: "distinct (map id_id (z_identity handle_access))" by code_simp
  have r: "fst (site_handle_put to_lowercase 0 7 handle_access 50 1 '' Kopi Kita! '') = Inr ''kopi-kita''" by code_simp
  show ?thesis using d r site_handle_put_spec [OF d, where lower = to_lowercase and rnd = 0 and now = 7 and caller = 50 and site = 1 and raw = "'' Kopi Kita! ''"]
    by (auto split: prod.splits)
qed

theorem site_handle_put_reader_witness:
  "site_grant_check handle_access 60 1 False = Inr 50 \<and> site_grant_check handle_access 60 1 True = Inl ''forbidden'' \<and>
   site_handle_put to_lowercase 0 7 handle_access 60 1 ''Kopi'' = site_handle_put to_lowercase 0 7 handle_access 50 1 ''Kopi'' \<and>
   fst (site_handle_put to_lowercase 0 7 handle_access 60 1 ''Kopi'') = Inr ''kopi''"
proof -
  have w: "site_grant_check handle_access 60 1 False = Inr 50" "site_grant_check handle_access 50 1 False = Inr 50" by code_simp+
  have "site_grant_check handle_access 60 1 True = Inl ''forbidden''" by code_simp
  moreover have "fst (site_handle_put to_lowercase 0 7 handle_access 60 1 ''Kopi'') = Inr ''kopi''" by code_simp
  ultimately show ?thesis using w(1) site_handle_put_reader [OF w, where lower = to_lowercase and rnd = 0 and now = 7 and raw = "''Kopi''"] by blast
qed

end
