(* ===== verification/Site_Team.thy ===== *)
theory Site_Team
  imports Site_Handle Guest_Schedule Sql_Tables "HOL-Library.List_Lexorder"
begin

text \<open>
  The team of a site: \<open>servers/crates/mod_site/src/site_grant.rs\<close> (members, roles, ownership) and
  \<open>site_hr.rs\<close> (work shifts, shifts of members, face photos). A \<open>team\<close> is the \<open>access\<close> tables and the
  tables of \<open>site_hr.rs\<close>, without their time stamps. The keys the schema declares are checked where a
  row is inserted: a duplicate or a missing parent makes the statement fail, and its transaction
  roll back. \<open>lower\<close> is PostgreSQL's \<open>LOWER\<close>, \<open>render\<close> the text \<open>->>\<close> gives for a value that is not a
  string, the \<open>scan\<close>s the order in which an unordered query meets its rows, \<open>face_id\<close> the id drawn.
  \<open>owner_iid\<close> references an identity, so a grant to the owner has its parent. Ids drawn for grants, which nothing reads, and cache invalidations, whose result the code
  ignores, are left out; presence locations are polygons of floating point numbers.
\<close>

record ProviderRow =
  pv_identity_iid :: i64
  pv_kind :: string
  pv_identifier :: string
  pv_deleted :: bool

record WorkShiftRow =
  ws_site_iid :: i64
  ws_shift_id :: string
  ws_name :: string
  ws_attendance_method :: string
  ws_is_active :: bool
  ws_sort_order :: i32
  ws_deleted :: bool

record SiteWorkShiftSlot =
  sl_id :: string
  sl_start_day :: i32
  sl_start_min :: i32
  sl_end_day :: i32
  sl_end_min :: i32

record WorkShiftSlotRow =
  wl_site_iid :: i64
  wl_shift_id :: string
  wl_slot :: SiteWorkShiftSlot

record SiteWorkShift =
  sw_id :: string
  sw_name :: string
  sw_attendance_method :: string
  sw_slots :: "SiteWorkShiftSlot list"

record MemberShiftRow =
  ms_site_iid :: i64
  ms_grantee_iid :: i64
  ms_shift_id :: string

record MemberFaceRow =
  mf_face_id :: i64
  mf_site_iid :: i64
  mf_grantee_iid :: i64
  mf_file_hash :: string
  mf_pose :: string
  mf_is_active :: bool
  mf_sort_order :: i32
  mf_created_by_iid :: i64
  mf_deleted :: bool

record team =
  t_access :: access
  t_provider :: "ProviderRow list"
  t_work_shift :: "WorkShiftRow list"
  t_slot :: "WorkShiftSlotRow list"
  t_member_shift :: "MemberShiftRow list"
  t_face :: "MemberFaceRow list"

section \<open>Shifts of a member\<close>

definition site_member_shift_ids_normalize :: "string list \<Rightarrow> string list" where
  "site_member_shift_ids_normalize shift_ids =
     remdups_adj (sort_key (map (of_char :: char \<Rightarrow> nat)) (filter (\<lambda>s. s \<noteq> []) (map trim shift_ids)))"

definition shift_ids_known :: "team \<Rightarrow> i64 \<Rightarrow> string list \<Rightarrow> bool" where
  "shift_ids_known s site ids \<longleftrightarrow>
     ids = [] \<or> length (filter (\<lambda>w. ws_site_iid w = site \<and> \<not> ws_deleted w \<and> ws_shift_id w \<in> set ids) (t_work_shift s)) = length ids"

definition member_shift_clear :: "i64 \<Rightarrow> i64 \<Rightarrow> team \<Rightarrow> team" where
  "member_shift_clear site grantee s =
     s\<lparr> t_member_shift := filter (\<lambda>m. \<not> (ms_site_iid m = site \<and> ms_grantee_iid m = grantee)) (t_member_shift s) \<rparr>"

definition site_member_shift_sync :: "team \<Rightarrow> i64 \<Rightarrow> i64 \<Rightarrow> string list \<Rightarrow> (string + unit) \<times> team" where
  "site_member_shift_sync s site grantee work_shift_ids =
     (let ids = site_member_shift_ids_normalize work_shift_ids
      in if \<not> shift_ids_known s site ids then (Inl ''unknown work_shift_id for site'', s)
         else let s1 = member_shift_clear site grantee s
              in (Inr (), s1\<lparr> t_member_shift := t_member_shift s1 @
                   map (\<lambda>sid. \<lparr> ms_site_iid = site, ms_grantee_iid = grantee, ms_shift_id = sid \<rparr>) ids \<rparr>))"

definition site_member_hr_cleanup :: "i64 \<Rightarrow> i64 \<Rightarrow> team \<Rightarrow> team" where
  "site_member_hr_cleanup site grantee s =
     (let s1 = member_shift_clear site grantee s
      in s1\<lparr> t_face := map (\<lambda>f. if mf_site_iid f = site \<and> mf_grantee_iid f = grantee \<and> \<not> mf_deleted f
           then f\<lparr> mf_is_active := False, mf_deleted := True \<rparr> else f) (t_face s1) \<rparr>)"

section \<open>Members\<close>

definition site_grant_role_writable :: "string \<Rightarrow> string + string" where
  "site_grant_role_writable role =
     (let r = to_lowercase (trim role)
      in if r = ''staff'' then Inr ''staff'' else if r = ''manage'' then Inr ''manage''
         else if r = ''guest'' then Inr ''guest'' else Inl ''role must be staff, manage, or guest'')"

definition arrow_text :: "(Value \<Rightarrow> string) \<Rightarrow> Value \<Rightarrow> string \<Rightarrow> string option" where
  "arrow_text render v key =
     (case get_val v key of None \<Rightarrow> None | Some Null \<Rightarrow> None | Some (String t) \<Rightarrow> Some t | Some x \<Rightarrow> Some (render x))"

definition live_user :: "IdentityRow \<Rightarrow> bool" where
  "live_user i \<longleftrightarrow> \<not> id_deleted i \<and> id_kind i = ''user''"

definition site_grantee_resolve ::
  "(string \<Rightarrow> string) \<Rightarrow> (Value \<Rightarrow> string) \<Rightarrow> (ProviderRow list \<Rightarrow> ProviderRow list) \<Rightarrow> (IdentityRow list \<Rightarrow> IdentityRow list) \<Rightarrow>
   team \<Rightarrow> i64 \<Rightarrow> string \<Rightarrow> string \<Rightarrow> string + i64" where
  "site_grantee_resolve lower render pscan iscan s grantee grantee_alien_id grantee_email =
     (if 0 <s grantee then Inr grantee
      else let email = to_lowercase (trim grantee_email); ids = iscan (z_identity (t_access s))
      in if email \<noteq> [] then
        (case find (\<lambda>p. pv_kind p = ''email'' \<and> \<not> pv_deleted p \<and> lower (pv_identifier p) = email) (pscan (t_provider s)) of
           Some p \<Rightarrow> Inr (pv_identity_iid p)
         | None \<Rightarrow>
           (case find (\<lambda>i. live_user i \<and> map_option lower (arrow_text render (id_meta i) ''email'') = Some email) ids of
              Some i \<Rightarrow> Inr (id_id i) | None \<Rightarrow> Inl (''user not found: '' @ email)))
      else let handle = to_lowercase (dropWhile (\<lambda>c. c = CHR ''@'') (trim grantee_alien_id))
      in if handle = [] then Inl ''grantee_iid, grantee_alien_id, or grantee_email required''
         else case find (\<lambda>i. live_user i \<and> (map_option lower (id_alien_id i) = Some handle \<or> show_i64 (id_id i) = handle)) ids of
                Some i \<Rightarrow> Inr (id_id i) | None \<Rightarrow> Inl (''user not found: '' @ handle))"

definition grantee_user_check :: "access \<Rightarrow> i64 \<Rightarrow> string + unit" where
  "grantee_user_check z grantee =
     (if map_option id_kind (find (\<lambda>i. id_id i = grantee \<and> \<not> id_deleted i) (z_identity z)) = Some ''user''
      then Inr () else Inl ''grantee must be a user'')"

definition grant_of :: "i64 \<Rightarrow> i64 \<Rightarrow> GrantRow \<Rightarrow> bool" where
  "grant_of site grantee g \<longleftrightarrow> gr_resource_iid g = site \<and> gr_grantee_iid g = grantee"

definition grant_upsert :: "i64 \<Rightarrow> i64 \<Rightarrow> string \<Rightarrow> access \<Rightarrow> access" where
  "grant_upsert site grantee role z = z\<lparr> z_grant :=
     upsert (grant_of site grantee) (\<lambda>g. g\<lparr> gr_role := role, gr_deleted := False \<rparr>)
       \<lparr> gr_resource_iid = site, gr_grantee_iid = grantee, gr_role = role, gr_deleted = False \<rparr> (z_grant z) \<rparr>"

definition site_grant_put ::
  "team \<Rightarrow> i64 \<Rightarrow> i64 \<Rightarrow> i64 \<Rightarrow> string \<Rightarrow> string list option \<Rightarrow> (string + unit) \<times> team" where
  "site_grant_put s caller site grantee role work_shift_ids =
     (case site_grant_role_writable role of Inl e \<Rightarrow> (Inl e, s) | Inr role \<Rightarrow>
      case site_grant_check (t_access s) caller site True of Inl e \<Rightarrow> (Inl e, s) | Inr owner \<Rightarrow>
        if grantee = owner then (Inl ''site owner already has full access'', s)
        else if grantee = site then (Inl ''invalid grantee'', s)
        else case grantee_user_check (t_access s) grantee of Inl e \<Rightarrow> (Inl e, s) | Inr _ \<Rightarrow>
          if grant_role (t_access s) site grantee = Some ''owner'' then (Inl ''cannot change owner grant'', s)
          else if (case work_shift_ids of None \<Rightarrow> False
                   | Some ids \<Rightarrow> \<not> shift_ids_known s site (site_member_shift_ids_normalize ids))
          then (Inl ''unknown work_shift_id for site'', s)
          else let s1 = s\<lparr> t_access := grant_upsert site grantee role (t_access s) \<rparr>
               in case work_shift_ids of None \<Rightarrow> (Inr (), s1)
                  | Some ids \<Rightarrow> site_member_shift_sync s1 site grantee ids)"

definition site_grant_put_rpc ::
  "(string \<Rightarrow> string) \<Rightarrow> (Value \<Rightarrow> string) \<Rightarrow> (ProviderRow list \<Rightarrow> ProviderRow list) \<Rightarrow> (IdentityRow list \<Rightarrow> IdentityRow list) \<Rightarrow>
   team \<Rightarrow> i64 \<Rightarrow> i64 \<Rightarrow> i64 \<Rightarrow> string \<Rightarrow> string \<Rightarrow> string \<Rightarrow> string list \<Rightarrow> (string + i64) \<times> team" where
  "site_grant_put_rpc lower render pscan iscan s caller site grantee grantee_alien_id grantee_email role work_shift_ids =
     (case site_grantee_resolve lower render pscan iscan s grantee grantee_alien_id grantee_email of
        Inl e \<Rightarrow> (Inl e, s)
      | Inr g \<Rightarrow> (case site_grant_put s caller site g role (Some work_shift_ids) of
                    (Inl e, s') \<Rightarrow> (Inl e, s') | (Inr _, s') \<Rightarrow> (Inr g, s')))"

definition site_grant_delete :: "team \<Rightarrow> i64 \<Rightarrow> i64 \<Rightarrow> i64 \<Rightarrow> (string + unit) \<times> team" where
  "site_grant_delete s caller site grantee =
     (case site_grant_check (t_access s) caller site True of Inl e \<Rightarrow> (Inl e, s) | Inr owner \<Rightarrow>
        if grantee = owner then (Inl ''cannot revoke site owner access'', s)
        else if grantee = site then (Inl ''invalid grantee'', s)
        else let hit = (\<lambda>g. grant_of site grantee g \<and> \<not> gr_deleted g \<and> gr_role g \<noteq> ''owner''); z = t_access s
          in if \<not> list_ex hit (z_grant z) then (Inl ''grant not found'', s)
             else (Inr (), site_member_hr_cleanup site grantee (s\<lparr> t_access := z\<lparr> z_grant :=
                     map (\<lambda>g. if hit g then g\<lparr> gr_deleted := True \<rparr> else g) (z_grant z) \<rparr> \<rparr>)))"

definition set_owner :: "i64 \<Rightarrow> i64 \<Rightarrow> access \<Rightarrow> access" where
  "set_owner site owner z = z\<lparr>
     z_identity := map (\<lambda>i. if id_id i = site \<and> id_kind i = ''site'' then i\<lparr> id_owner_iid := owner \<rparr> else i) (z_identity z),
     z_config := map (\<lambda>c. if cf_site_iid c = site \<and> \<not> cf_deleted c then c\<lparr> cf_owner_iid := owner \<rparr> else c) (z_config z) \<rparr>"

definition site_transfer_ownership :: "team \<Rightarrow> i64 \<Rightarrow> i64 \<Rightarrow> i64 \<Rightarrow> (string + unit) \<times> team" where
  "site_transfer_ownership s caller site target =
     (if site \<le>s 0 then (Inl ''site_iid required'', s)
      else if target \<le>s 0 then (Inl ''target_iid required'', s)
      else case site_row (t_access s) site of None \<Rightarrow> (Inl ''site not found'', s) | Some row \<Rightarrow>
        let owner = id_owner_iid row
        in if caller \<noteq> owner then (Inl ''only site owner can transfer ownership'', s)
           else if target = owner then (Inl ''target is already the owner'', s)
           else case grantee_user_check (t_access s) target of Inl e \<Rightarrow> (Inl e, s) | Inr _ \<Rightarrow>
             if (case grant_role (t_access s) site target of None \<Rightarrow> True
                 | Some r \<Rightarrow> r \<notin> set [''staff'', ''manage'', ''guest'', ''owner''])
             then (Inl ''target must already be a site member'', s)
             else (Inr (), s\<lparr> t_access := grant_upsert site target ''owner''
                     (grant_upsert site owner ''manage'' (set_owner site target (t_access s))) \<rparr>))"

section \<open>Work shifts\<close>

definition attendance_method_ok :: "string \<Rightarrow> bool" where
  "attendance_method_ok m \<longleftrightarrow> m \<in> set [''button'', ''gps'', ''gps_selfie'', ''gps_selfie_face'', ''cctv_walkby'']"

definition kept_ids :: "SiteWorkShift list \<Rightarrow> string list" where
  "kept_ids shifts = filter (\<lambda>i. i \<noteq> []) (map (trim \<circ> sw_id) shifts)"

text \<open>With an empty \<open>keep\<close> the code has statements without the \<open>ANY\<close> condition, which here is false.\<close>

definition work_shift_retire :: "i64 \<Rightarrow> string list \<Rightarrow> team \<Rightarrow> team" where
  "work_shift_retire site keep s = s\<lparr>
     t_work_shift := map (\<lambda>w. if ws_site_iid w = site \<and> \<not> ws_deleted w \<and> ws_shift_id w \<notin> set keep
        then w\<lparr> ws_is_active := False, ws_deleted := True \<rparr> else w) (t_work_shift s),
     t_member_shift := filter (\<lambda>m. \<not> (ms_site_iid m = site \<and> ms_shift_id m \<notin> set keep)) (t_member_shift s) \<rparr>"

definition shift_of :: "i64 \<Rightarrow> string \<Rightarrow> WorkShiftRow \<Rightarrow> bool" where
  "shift_of site shift_id w \<longleftrightarrow> ws_site_iid w = site \<and> ws_shift_id w = shift_id"

definition work_shift_upsert :: "i64 \<Rightarrow> string \<Rightarrow> string \<Rightarrow> string \<Rightarrow> i32 \<Rightarrow> team \<Rightarrow> team" where
  "work_shift_upsert site shift_id name method pos s = s\<lparr> t_work_shift :=
     upsert (shift_of site shift_id)
       (\<lambda>w. w\<lparr> ws_name := name, ws_attendance_method := method, ws_is_active := True, ws_sort_order := pos, ws_deleted := False \<rparr>)
       \<lparr> ws_site_iid = site, ws_shift_id = shift_id, ws_name = name, ws_attendance_method = method,
         ws_is_active = True, ws_sort_order = pos, ws_deleted = False \<rparr> (t_work_shift s) \<rparr>"

definition slot_bound :: "SiteWorkShiftSlot \<Rightarrow> SiteWorkShiftSlot" where
  "slot_bound x = \<lparr> sl_id = trim (sl_id x), sl_start_day = clamp 0 6 (sl_start_day x), sl_start_min = clamp 0 1439 (sl_start_min x),
     sl_end_day = clamp 0 6 (sl_end_day x), sl_end_min = clamp 0 1439 (sl_end_min x) \<rparr>"

definition kept_slots :: "SiteWorkShiftSlot list \<Rightarrow> SiteWorkShiftSlot list" where
  "kept_slots slots = filter (\<lambda>x. sl_id x \<noteq> []) (map slot_bound slots)"

definition slots_replace :: "i64 \<Rightarrow> string \<Rightarrow> SiteWorkShiftSlot list \<Rightarrow> team \<Rightarrow> string + team" where
  "slots_replace site shift_id slots s =
     (if distinct (map sl_id (kept_slots slots)) then
        Inr (s\<lparr> t_slot := filter (\<lambda>r. \<not> (wl_site_iid r = site \<and> wl_shift_id r = shift_id)) (t_slot s) @
               map (\<lambda>x. \<lparr> wl_site_iid = site, wl_shift_id = shift_id, wl_slot = x \<rparr>) (kept_slots slots) \<rparr>)
      else Inl ''duplicate key'')"

fun work_shift_loop :: "i64 \<Rightarrow> nat \<Rightarrow> SiteWorkShift list \<Rightarrow> team \<Rightarrow> string + team" where
  "work_shift_loop site pos [] s = Inr s"
| "work_shift_loop site pos (shift # shifts) s =
     (let shift_id = trim (sw_id shift)
      in if shift_id = [] then work_shift_loop site (Suc pos) shifts s
         else let m = trim (sw_attendance_method shift);
                  m = (if attendance_method_ok m then m else ''button'')
              in case slots_replace site shift_id (sw_slots shift)
                    (work_shift_upsert site shift_id (trim (sw_name shift)) m (of_nat pos) s) of
                   Inl e \<Rightarrow> Inl e
                 | Inr s' \<Rightarrow> work_shift_loop site (Suc pos) shifts s')"

definition site_work_shift_put :: "team \<Rightarrow> i64 \<Rightarrow> i64 \<Rightarrow> SiteWorkShift list \<Rightarrow> (string + unit) \<times> team" where
  "site_work_shift_put s caller site shifts =
     (case site_grant_check (t_access s) caller site True of
        Inl e \<Rightarrow> (Inl e, s)
      | Inr _ \<Rightarrow> (case work_shift_loop site 0 shifts (work_shift_retire site (kept_ids shifts) s) of
                     Inl e \<Rightarrow> (Inl e, s) | Inr s' \<Rightarrow> (Inr (), s')))"

text \<open>\<open>shift_order\<close> and \<open>slot_order\<close> sort by the text column under the collation of the database.\<close>

definition site_work_shifts_load ::
  "(WorkShiftRow list \<Rightarrow> WorkShiftRow list) \<Rightarrow> (WorkShiftSlotRow list \<Rightarrow> WorkShiftSlotRow list) \<Rightarrow> team \<Rightarrow> i64 \<Rightarrow> SiteWorkShift list" where
  "site_work_shifts_load shift_order slot_order s site =
     map (\<lambda>w. \<lparr> sw_id = ws_shift_id w, sw_name = ws_name w, sw_attendance_method = ws_attendance_method w,
        sw_slots = map wl_slot (sort_key (\<lambda>r. sint (sl_start_day (wl_slot r))) (sort_key (\<lambda>r. sint (sl_start_min (wl_slot r)))
          (slot_order (filter (\<lambda>r. wl_site_iid r = site \<and> wl_shift_id r = ws_shift_id w) (t_slot s))))) \<rparr>)
       (sort_key (\<lambda>w. sint (ws_sort_order w))
         (shift_order (filter (\<lambda>w. ws_site_iid w = site \<and> \<not> ws_deleted w \<and> ws_is_active w) (t_work_shift s))))"

definition site_work_shift_list ::
  "(WorkShiftRow list \<Rightarrow> WorkShiftRow list) \<Rightarrow> (WorkShiftSlotRow list \<Rightarrow> WorkShiftSlotRow list) \<Rightarrow> team \<Rightarrow> i64 \<Rightarrow> i64 \<Rightarrow>
   string + SiteWorkShift list" where
  "site_work_shift_list shift_order slot_order s caller site =
     (case site_grant_check (t_access s) caller site True of
        Inl e \<Rightarrow> Inl e | Inr _ \<Rightarrow> Inr (site_work_shifts_load shift_order slot_order s site))"

section \<open>Face photos\<close>

definition is_ascii_hexdigit :: "char \<Rightarrow> bool" where
  "is_ascii_hexdigit c = (let n = of_char c :: nat in (48 \<le> n \<and> n \<le> 57) \<or> (65 \<le> n \<and> n \<le> 70) \<or> (97 \<le> n \<and> n \<le> 102))"

text \<open>\<open>MAX(sort_order)\<close> is an \<open>INT\<close>; one more than the largest is out of range.\<close>

definition face_sort_next :: "team \<Rightarrow> i64 \<Rightarrow> i64 \<Rightarrow> int" where
  "face_sort_next s site grantee =
     (case map (sint \<circ> mf_sort_order) (filter (\<lambda>f. mf_site_iid f = site \<and> mf_grantee_iid f = grantee \<and> \<not> mf_deleted f) (t_face s)) of
        [] \<Rightarrow> 0 | x # xs \<Rightarrow> foldr max xs x + 1)"

definition site_member_face_put ::
  "i64 \<Rightarrow> team \<Rightarrow> i64 \<Rightarrow> i64 \<Rightarrow> i64 \<Rightarrow> string \<Rightarrow> string \<Rightarrow> (string + MemberFaceRow) \<times> team" where
  "site_member_face_put face_id s caller site grantee file_hash pose =
     (case site_grant_check (t_access s) caller site True of Inl e \<Rightarrow> (Inl e, s) | Inr _ \<Rightarrow>
        if site \<le>s 0 \<or> grantee \<le>s 0 then (Inl ''site_iid and grantee_iid required'', s)
        else let hash = to_lowercase (trim file_hash)
        in if hash = [] then (Inl ''file_hash required'', s)
           else if length hash \<noteq> 64 \<or> \<not> list_all is_ascii_hexdigit hash then (Inl ''file_hash must be 64-char blake3 hex'', s)
           else let pos = face_sort_next s site grantee; ids = id_id ` set (z_identity (t_access s));
                    row = \<lparr> mf_face_id = face_id, mf_site_iid = site, mf_grantee_iid = grantee, mf_file_hash = hash,
                       mf_pose = trim pose, mf_is_active = True, mf_sort_order = word_of_int pos,
                       mf_created_by_iid = caller, mf_deleted = False \<rparr>
                in if 2 ^ 31 \<le> pos then (Inl ''integer out of range'', s)
                   else if face_id \<in> mf_face_id ` set (t_face s) then (Inl ''duplicate key'', s)
                   else if grantee \<notin> ids \<or> caller \<notin> ids then (Inl ''foreign key'', s)
                   else (Inr row, s\<lparr> t_face := t_face s @ [row] \<rparr>))"

definition site_member_face_del :: "team \<Rightarrow> i64 \<Rightarrow> i64 \<Rightarrow> i64 \<Rightarrow> string \<Rightarrow> (string + unit) \<times> team" where
  "site_member_face_del s caller site grantee face_id =
     (case site_grant_check (t_access s) caller site True of Inl e \<Rightarrow> (Inl e, s) | Inr _ \<Rightarrow>
        case parse_i64 (trim face_id) of None \<Rightarrow> (Inl ''invalid face_id'', s) | Some fid \<Rightarrow>
          if site \<le>s 0 \<or> grantee \<le>s 0 \<or> fid \<le>s 0 then (Inl ''site_iid, grantee_iid, and face_id required'', s)
          else let hit = (\<lambda>f. mf_face_id f = fid \<and> mf_site_iid f = site \<and> mf_grantee_iid f = grantee \<and> \<not> mf_deleted f)
               in if \<not> list_ex hit (t_face s) then (Inl ''face not found'', s)
                  else (Inr (), s\<lparr> t_face := map (\<lambda>f. if hit f then f\<lparr> mf_is_active := False, mf_deleted := True \<rparr> else f) (t_face s) \<rparr>))"

end
