(* ===== verification/Team_Store.thy ===== *)
theory Team_Store
  imports Site_Team
begin

text \<open>
  What the calls of \<open>site_grant.rs\<close>, \<open>site_hr.rs\<close> and \<open>site_handle.rs\<close> do to a team: who gains and who
  loses rights, the invariant of the tables over any history of calls, and who can give a site away.
\<close>

section \<open>Rights after a call\<close>

lemma grant_role_upsert:
  "grant_role (grant_upsert site g role z) s c = (if s = site \<and> c = g then Some role else grant_role z s c)"
proof (cases "s = site \<and> c = g")
  case True
  let ?P = "\<lambda>r. gr_resource_iid r = site \<and> gr_grantee_iid r = g \<and> \<not> gr_deleted r"
  have "\<exists>r. find ?P (z_grant (grant_upsert site g role z)) = Some r \<and> gr_role r = role"
    using find_upsert_hit [of ?P "grant_of site g" "\<lambda>r. r\<lparr> gr_role := role, gr_deleted := False \<rparr>"
        "\<lparr> gr_resource_iid = site, gr_grantee_iid = g, gr_role = role, gr_deleted = False \<rparr>" "z_grant z"]
    by (auto simp: grant_upsert_def grant_of_def)
  with True show ?thesis by (auto simp: grant_role_def)
next
  case False
  then have "find (\<lambda>r. gr_resource_iid r = s \<and> gr_grantee_iid r = c \<and> \<not> gr_deleted r) (z_grant (grant_upsert site g role z)) =
    find (\<lambda>r. gr_resource_iid r = s \<and> gr_grantee_iid r = c \<and> \<not> gr_deleted r) (z_grant z)"
    unfolding grant_upsert_def by (simp, intro find_upsert_other) (auto simp: grant_of_def)
  with False show ?thesis by (auto simp: grant_role_def)
qed

lemma site_row_upsert [simp]: "site_row (grant_upsert site g role z) s = site_row z s"
  by (simp add: site_row_def grant_upsert_def)

lemma root_upsert [simp]: "caller_root_or_director (grant_upsert site g role z) c = caller_root_or_director z c"
  by (simp add: caller_root_or_director_def grant_upsert_def)

lemma site_row_set_owner:
  "site_row (set_owner site owner z) s =
     map_option (\<lambda>i. if id_id i = site \<and> id_kind i = ''site'' then i\<lparr> id_owner_iid := owner \<rparr> else i) (site_row z s)"
  unfolding site_row_def set_owner_def by (simp add: find_map_kept)

lemma root_set_owner [simp]: "caller_root_or_director (set_owner site owner z) c = caller_root_or_director z c"
  unfolding caller_root_or_director_def set_owner_def by (auto simp: find_map_kept split: option.splits)

lemma grant_role_set_owner [simp]: "grant_role (set_owner site owner z) s c = grant_role z s c"
  by (simp add: grant_role_def set_owner_def)

text \<open>The answer of the check for a caller on a site of a known owner.\<close>

definition rights :: "access \<Rightarrow> i64 \<Rightarrow> i64 \<Rightarrow> string option \<Rightarrow> bool \<Rightarrow> string + i64" where
  "rights z caller owner role write =
     (if caller_root_or_director z caller \<or> owner = caller \<or> site_role_allows (unwrap_or [] role) write
      then Inr owner else Inl ''forbidden'')"

lemma site_grant_check_rights:
  "site_row z site = Some row \<Longrightarrow>
   site_grant_check z caller site write = rights z caller (id_owner_iid row) (grant_role z site caller) write"
  by (simp add: site_grant_check_def rights_def Let_def)

lemma shift_sync_known:
  "shift_ids_known s site (site_member_shift_ids_normalize ids) \<Longrightarrow>
   site_member_shift_sync s site g ids = (Inr (), s\<lparr> t_member_shift :=
     t_member_shift (member_shift_clear site g s) @ map (\<lambda>sid. \<lparr> ms_site_iid = site, ms_grantee_iid = g, ms_shift_id = sid \<rparr>)
       (site_member_shift_ids_normalize ids) \<rparr>)"
  by (simp add: site_member_shift_sync_def member_shift_clear_def Let_def)

text \<open>A successful \<open>site_grant_put\<close> upserts the grant and, when shifts are given, replaces the member's
  shifts; the second check of the shift ids never fails.\<close>

lemma site_grant_put_cases:
  assumes "site_grant_put s caller site g role ids = (r, s')"
  obtains (refused) e where "r = Inl e" "s' = s"
  | (ok) owner role' where "r = Inr ()" "site_grant_role_writable role = Inr role'"
      "site_grant_check (t_access s) caller site True = Inr owner" "g \<noteq> owner" "g \<noteq> site"
      "grantee_user_check (t_access s) g = Inr ()" "grant_role (t_access s) site g \<noteq> Some ''owner''"
      "\<And>l. ids = Some l \<Longrightarrow> shift_ids_known s site (site_member_shift_ids_normalize l)"
      "s' = s\<lparr> t_access := grant_upsert site g role' (t_access s),
         t_member_shift := (case ids of None \<Rightarrow> t_member_shift s
           | Some l \<Rightarrow> t_member_shift (member_shift_clear site g s) @
               map (\<lambda>sid. \<lparr> ms_site_iid = site, ms_grantee_iid = g, ms_shift_id = sid \<rparr>) (site_member_shift_ids_normalize l)) \<rparr>"
proof -
  have known: "shift_ids_known (s\<lparr> t_access := z \<rparr>) site l = shift_ids_known s site l" for z l
    by (simp add: shift_ids_known_def)
  show ?thesis
  proof (cases r)
    case (Inl e)
    with assms have "s' = s"
      by (auto simp: site_grant_put_def Let_def known shift_sync_known split: sum.splits if_splits option.splits)
    with Inl show ?thesis by (rule refused)
  next
    case (Inr u)
    with assms obtain owner role' where "site_grant_role_writable role = Inr role'"
      "site_grant_check (t_access s) caller site True = Inr owner"
      by (auto simp: site_grant_put_def split: sum.splits)
    with Inr assms show ?thesis
      by (intro ok [of role' owner]) (auto simp: site_grant_put_def Let_def known shift_sync_known member_shift_clear_def
          split: sum.splits if_splits option.splits)
  qed
qed

lemma site_grant_delete_cases:
  assumes "site_grant_delete s caller site g = (r, s')"
  obtains (refused) e where "r = Inl e" "s' = s"
  | (ok) owner where "r = Inr ()" "site_grant_check (t_access s) caller site True = Inr owner" "g \<noteq> owner" "g \<noteq> site"
      "\<exists>q\<in>set (z_grant (t_access s)). grant_of site g q \<and> \<not> gr_deleted q \<and> gr_role q \<noteq> ''owner''"
      "s' = site_member_hr_cleanup site g (s\<lparr> t_access := (t_access s)\<lparr> z_grant :=
         map (\<lambda>q. if grant_of site g q \<and> \<not> gr_deleted q \<and> gr_role q \<noteq> ''owner'' then q\<lparr> gr_deleted := True \<rparr> else q)
           (z_grant (t_access s)) \<rparr> \<rparr>)"
proof (cases r)
  case (Inl e)
  with assms have "s' = s" by (auto simp: site_grant_delete_def Let_def split: sum.splits if_splits)
  with Inl show ?thesis by (rule refused)
next
  case (Inr u)
  with assms obtain owner where "site_grant_check (t_access s) caller site True = Inr owner"
    by (auto simp: site_grant_delete_def split: sum.splits)
  with Inr assms show ?thesis
    by (intro ok [of owner]) (auto simp: site_grant_delete_def Let_def list_ex_iff split: sum.splits if_splits)
qed

lemma site_transfer_cases:
  assumes "site_transfer_ownership s caller site target = (r, s')"
  obtains (refused) e where "r = Inl e" "s' = s"
  | (ok) row role where "r = Inr ()" "site_row (t_access s) site = Some row" "id_owner_iid row = caller" "target \<noteq> caller"
      "grantee_user_check (t_access s) target = Inr ()" "grant_role (t_access s) site target = Some role"
      "role \<in> {''staff'', ''manage'', ''guest'', ''owner''}"
      "s' = s\<lparr> t_access := grant_upsert site target ''owner'' (grant_upsert site caller ''manage'' (set_owner site target (t_access s))) \<rparr>"
proof (cases r)
  case (Inl e)
  with assms have "s' = s" by (auto simp: site_transfer_ownership_def Let_def split: sum.splits if_splits option.splits)
  with Inl show ?thesis by (rule refused)
next
  case (Inr u)
  with assms obtain row where row: "site_row (t_access s) site = Some row"
    by (auto simp: site_transfer_ownership_def Let_def split: sum.splits if_splits option.splits)
  with Inr assms obtain role where role: "grant_role (t_access s) site target = Some role"
    by (auto simp: site_transfer_ownership_def Let_def split: sum.splits if_splits option.splits)
  from Inr assms row role show ?thesis
    by (intro ok [of row role]) (auto simp: site_transfer_ownership_def Let_def split: sum.splits if_splits)
qed

lemma check_row: "site_grant_check z caller site write = Inr owner \<Longrightarrow> \<exists>row. site_row z site = Some row \<and> id_owner_iid row = owner"
  by (auto simp: site_grant_check_def Let_def split: option.splits if_splits)

lemma rights_kept:
  assumes "site_row z' s = site_row z s" "caller_root_or_director z' c = caller_root_or_director z c"
    and "grant_role z' s c = grant_role z s c"
  shows "site_grant_check z' c s w = site_grant_check z c s w"
  by (intro site_grant_check_cong) (simp_all only: assms)

abbreviation shifts_of :: "team \<Rightarrow> i64 \<Rightarrow> i64 \<Rightarrow> string list" where
  "shifts_of s site g \<equiv> map ms_shift_id (filter (\<lambda>m. ms_site_iid m = site \<and> ms_grantee_iid m = g) (t_member_shift s))"

text \<open>Adding a member or changing a role: \<open>site_grant_put\<close> is open to callers who may write to
  the site. A refused call changes nothing. After a successful one the grantee, who is not the owner,
  has on this site exactly the rights of the role \<open>staff\<close>, \<open>manage\<close> or \<open>guest\<close> (root and directors keep
  theirs), the shifts asked for if any were given, and nobody else's rights on any site changed.\<close>

theorem site_grant_put_spec:
  "case site_grant_put s caller site g role ids of
     (Inl e, s') \<Rightarrow> s' = s
   | (Inr _, s') \<Rightarrow> (\<exists>owner role'. role' \<in> {''staff'', ''manage'', ''guest''} \<and> to_lowercase (trim role) = role' \<and> g \<noteq> owner \<and>
       site_grant_check (t_access s) caller site True = Inr owner \<and>
       (\<forall>w. site_grant_check (t_access s') g site w =
          (if caller_root_or_director (t_access s) g \<or> site_role_allows role' w then Inr owner else Inl ''forbidden'')) \<and>
       (\<forall>c s2 w. c \<noteq> g \<or> s2 \<noteq> site \<longrightarrow> site_grant_check (t_access s') c s2 w = site_grant_check (t_access s) c s2 w) \<and>
       shifts_of s' site g = (case ids of None \<Rightarrow> shifts_of s site g | Some l \<Rightarrow> site_member_shift_ids_normalize l))"
proof -
  obtain r s' where put: "site_grant_put s caller site g role ids = (r, s')" by fastforce
  from put show ?thesis
  proof (cases rule: site_grant_put_cases)
    case (refused e)
    with put show ?thesis by simp
  next
    case (ok owner role')
    let ?z = "t_access s" and ?z' = "grant_upsert site g role' (t_access s)"
    obtain row where row: "site_row ?z site = Some row" "id_owner_iid row = owner" using check_row [OF ok(3)] by blast
    have acc: "t_access s' = ?z'" using ok(9) by simp
    have role: "role' \<in> {''staff'', ''manage'', ''guest''}" "to_lowercase (trim role) = role'"
      using ok(2) by (auto simp: site_grant_role_writable_def Let_def split: if_splits)
    have "site_grant_check ?z' g site w =
        (if caller_root_or_director ?z g \<or> site_role_allows role' w then Inr owner else Inl ''forbidden'')" for w
      using site_grant_check_rights [of ?z' site row g w] row ok(4)
      by (simp add: rights_def grant_role_upsert unwrap_or_def)
    moreover have "site_grant_check ?z' c s2 w = site_grant_check ?z c s2 w" if "c \<noteq> g \<or> s2 \<noteq> site" for c s2 w
      by (rule rights_kept) (use that in \<open>auto simp: grant_role_upsert\<close>)
    moreover have "shifts_of s' site g = (case ids of None \<Rightarrow> shifts_of s site g | Some l \<Rightarrow> site_member_shift_ids_normalize l)"
      by (auto simp: ok(9) member_shift_clear_def filter_map o_def split: option.splits)
    ultimately show ?thesis using put ok(1,3,4) role acc by (simp del: insert_iff)
  qed
qed

abbreviation grant_key :: "GrantRow \<Rightarrow> i64 \<times> i64" where
  "grant_key g \<equiv> (gr_resource_iid g, gr_grantee_iid g)"

lemma grant_role_revoked:
  assumes keys: "distinct (map grant_key (z_grant z))"
    and hit: "q \<in> set (z_grant z)" "grant_of site g q" "\<not> gr_deleted q" "gr_role q \<noteq> ''owner''"
  defines "z' \<equiv> z\<lparr> z_grant := map (\<lambda>q. if grant_of site g q \<and> \<not> gr_deleted q \<and> gr_role q \<noteq> ''owner''
    then q\<lparr> gr_deleted := True \<rparr> else q) (z_grant z) \<rparr>"
  shows "grant_role z' s c = (if s = site \<and> c = g then None else grant_role z s c)"
proof (cases "s = site \<and> c = g")
  case True
  have "gr_deleted q'" if "q' \<in> set (z_grant z')" "grant_of site g q'" for q'
  proof -
    from that(1) obtain p where p: "p \<in> set (z_grant z)"
      "q' = (if grant_of site g p \<and> \<not> gr_deleted p \<and> gr_role p \<noteq> ''owner'' then p\<lparr> gr_deleted := True \<rparr> else p)"
      unfolding z'_def by (auto simp: image_iff)
    with that(2) have "grant_of site g p" by (auto simp: grant_of_def split: if_splits)
    then have "p = q" using distinct_key_eq [OF keys p(1) hit(1)] hit(2) by (simp add: grant_of_def)
    with p(2) hit show ?thesis by simp
  qed
  then have "find (\<lambda>g'. gr_resource_iid g' = site \<and> gr_grantee_iid g' = g \<and> \<not> gr_deleted g') (z_grant z') = None"
    unfolding find_None_iff by (auto simp: grant_of_def)
  with True show ?thesis by (simp add: grant_role_def)
next
  case False
  have "find (\<lambda>g'. gr_resource_iid g' = s \<and> gr_grantee_iid g' = c \<and> \<not> gr_deleted g') (z_grant z') =
    find (\<lambda>g'. gr_resource_iid g' = s \<and> gr_grantee_iid g' = c \<and> \<not> gr_deleted g') (z_grant z)"
    unfolding z'_def using False by (simp, intro find_map_same) (auto simp: grant_of_def split: if_splits)
  with False show ?thesis by (auto simp: grant_role_def)
qed

lemma hr_cleanup_access [simp]: "t_access (site_member_hr_cleanup site g s) = t_access s"
  by (simp add: site_member_hr_cleanup_def member_shift_clear_def Let_def)

lemma hr_cleanup_faces:
  assumes "f \<in> set (t_face (site_member_hr_cleanup site g s))" "mf_site_iid f = site" "mf_grantee_iid f = g"
  shows "mf_deleted f"
proof -
  obtain f0 where "f = (if mf_site_iid f0 = site \<and> mf_grantee_iid f0 = g \<and> \<not> mf_deleted f0
      then f0\<lparr> mf_is_active := False, mf_deleted := True \<rparr> else f0)"
    using assms(1) by (force simp: site_member_hr_cleanup_def Let_def)
  with assms(2,3) show ?thesis by (cases "mf_site_iid f0 = site \<and> mf_grantee_iid f0 = g \<and> \<not> mf_deleted f0") auto
qed

lemma hr_cleanup_shifts: "shifts_of (site_member_hr_cleanup site g s) site g = []"
  by (simp add: site_member_hr_cleanup_def member_shift_clear_def Let_def)

text \<open>Removing a member: a refused \<open>site_grant_delete\<close> changes nothing. After a successful one
  the grantee, who is not the owner, is refused on this site for reading and writing (unless root or
  director), has no shift and no live face photo there, and nobody else's rights on any site changed.\<close>

theorem site_grant_delete_spec:
  assumes "distinct (map grant_key (z_grant (t_access s)))"
  shows "case site_grant_delete s caller site g of
     (Inl e, s') \<Rightarrow> s' = s
   | (Inr _, s') \<Rightarrow> (\<exists>owner. g \<noteq> owner \<and> site_grant_check (t_access s) caller site True = Inr owner \<and>
       (\<forall>w. site_grant_check (t_access s') g site w =
          (if caller_root_or_director (t_access s) g then Inr owner else Inl ''forbidden'')) \<and>
       (\<forall>c s2 w. c \<noteq> g \<or> s2 \<noteq> site \<longrightarrow> site_grant_check (t_access s') c s2 w = site_grant_check (t_access s) c s2 w) \<and>
       shifts_of s' site g = [] \<and>
       (\<forall>f\<in>set (t_face s'). mf_site_iid f = site \<and> mf_grantee_iid f = g \<longrightarrow> mf_deleted f))"
proof -
  obtain r s' where del: "site_grant_delete s caller site g = (r, s')" by fastforce
  from del show ?thesis
  proof (cases rule: site_grant_delete_cases)
    case (refused e)
    with del show ?thesis by simp
  next
    case (ok owner)
    let ?z = "t_access s" and ?z' = "t_access s'"
    obtain row where row: "site_row ?z site = Some row" "id_owner_iid row = owner" using check_row [OF ok(2)] by blast
    obtain q where q: "q \<in> set (z_grant ?z)" "grant_of site g q" "\<not> gr_deleted q" "gr_role q \<noteq> ''owner''"
      using ok(5) by blast
    have role: "grant_role ?z' s2 c = (if s2 = site \<and> c = g then None else grant_role ?z s2 c)" for s2 c
      using grant_role_revoked [OF assms q] by (simp add: ok(6))
    have kept: "site_row ?z' s2 = site_row ?z s2" "caller_root_or_director ?z' c = caller_root_or_director ?z c" for s2 c
      by (simp_all add: ok(6) site_row_def caller_root_or_director_def)
    have "site_grant_check ?z' g site w =
        (if caller_root_or_director ?z g then Inr owner else Inl ''forbidden'')" for w
      using site_grant_check_rights [of ?z' site row g w] row ok(3)
      by (simp add: kept rights_def role unwrap_or_def role_allows_iff)
    moreover have "site_grant_check ?z' c s2 w = site_grant_check ?z c s2 w" if "c \<noteq> g \<or> s2 \<noteq> site" for c s2 w
      by (rule rights_kept) (use that in \<open>auto simp: role kept\<close>)
    moreover have "shifts_of s' site g = []"
      by (simp add: ok(6) hr_cleanup_shifts)
    moreover have "mf_deleted f" if "f \<in> set (t_face s')" "mf_site_iid f = site" "mf_grantee_iid f = g" for f
      using that unfolding ok(6) by (rule hr_cleanup_faces)
    ultimately show ?thesis using del ok(1,2,3) by simp
  qed
qed

text \<open>Handing a site over: only the owner can, to another live user who is a member. Then that
  user is the owner, the old owner is a manager who may still write but not hand the site over again,
  everybody else's rights on every site are those they had, with the new owner in the answer for this
  site. A refused call changes nothing.\<close>

theorem site_transfer_ownership_spec:
  "case site_transfer_ownership s caller site target of
     (Inl e, s') \<Rightarrow> s' = s
   | (Inr _, s') \<Rightarrow> caller \<noteq> target \<and>
       map_option id_owner_iid (site_row (t_access s) site) = Some caller \<and>
       site_grant_check (t_access s) target site False = Inr caller \<and>
       (\<forall>s2. map_option id_owner_iid (site_row (t_access s') s2) =
          (if s2 = site then Some target else map_option id_owner_iid (site_row (t_access s) s2))) \<and>
       site_grant_check (t_access s') caller site True = Inr target \<and>
       site_grant_check (t_access s') target site True = Inr target \<and>
       (\<forall>t. fst (site_transfer_ownership s' caller site t) \<noteq> Inr ()) \<and>
       (\<forall>c s2 w. c \<notin> {caller, target} \<or> s2 \<noteq> site \<longrightarrow> site_grant_check (t_access s') c s2 w =
          (if s2 = site then map_sum id (\<lambda>_. target) (site_grant_check (t_access s) c s2 w)
           else site_grant_check (t_access s) c s2 w))"
proof -
  obtain r s' where tr: "site_transfer_ownership s caller site target = (r, s')" by fastforce
  from tr show ?thesis
  proof (cases rule: site_transfer_cases)
    case (refused e)
    with tr show ?thesis by simp
  next
    case (ok row role)
    let ?z = "t_access s" and ?z' = "t_access s'"
    have row: "id_id row = site" "id_kind row = ''site''" using ok(2) by (auto simp: site_row_def find_Some_iff)
    have sr: "site_row ?z' s2 = map_option (\<lambda>i. if id_id i = site \<and> id_kind i = ''site'' then i\<lparr> id_owner_iid := target \<rparr> else i)
        (site_row ?z s2)" for s2 by (simp add: ok(8) site_row_set_owner)
    have row': "site_row ?z' site = Some (row\<lparr> id_owner_iid := target \<rparr>)" using sr [of site] ok(2) row by simp
    have other: "site_row ?z' s2 = site_row ?z s2" if "s2 \<noteq> site" for s2
      using sr [of s2] that site_row_id [of ?z s2] by (cases "site_row ?z s2") auto
    have root: "caller_root_or_director ?z' c = caller_root_or_director ?z c" for c by (simp add: ok(8))
    have role: "grant_role ?z' s2 c = (if s2 = site \<and> c = target then Some ''owner''
        else if s2 = site \<and> c = caller then Some ''manage'' else grant_role ?z s2 c)" for s2 c
      by (simp add: ok(8) grant_role_upsert)
    note check = site_grant_check_rights [OF row'] site_grant_check_rights [OF ok(2)]
    have "site_grant_check ?z' c s2 w = (if s2 = site then map_sum id (\<lambda>_. target) (site_grant_check ?z c s2 w)
        else site_grant_check ?z c s2 w)" if "c \<notin> {caller, target} \<or> s2 \<noteq> site" for c s2 w
      using that site_grant_check_cong [of ?z' s2 ?z c w]
      by (auto simp: check rights_def role root other ok(3))
    moreover have "map_option id_owner_iid (site_row ?z' s2) =
        (if s2 = site then Some target else map_option id_owner_iid (site_row ?z s2))" for s2
      by (simp add: row' other)
    moreover have "fst (site_transfer_ownership s' caller site t) \<noteq> Inr ()" for t
      using row' ok(4) by (auto simp: site_transfer_ownership_def)
    moreover have "site_grant_check ?z' caller site True = Inr target" "site_grant_check ?z' target site True = Inr target"
      "site_grant_check ?z target site False = Inr caller"
      using ok(3,4,6,7) by (auto simp: check rights_def role role_allows_iff unwrap_or_def)
    ultimately show ?thesis using tr ok(1-4) by simp
  qed
qed

section \<open>Examples\<close>

definition test_team :: team where
  "test_team = \<lparr> t_access = test_access, t_provider = [],
     t_work_shift = [\<lparr> ws_site_iid = 1, ws_shift_id = ''pagi'', ws_name = ''Pagi'', ws_attendance_method = ''button'',
       ws_is_active = True, ws_sort_order = 0, ws_deleted = False \<rparr>],
     t_slot = [], t_member_shift = [\<lparr> ms_site_iid = 1, ms_grantee_iid = 60, ms_shift_id = ''pagi'' \<rparr>], t_face = [] \<rparr>"

theorem site_grant_put_spec_witness:
  "fst (site_grant_put test_team 50 1 60 '' Guest '' (Some [''pagi''])) = Inr () \<and>
   site_grant_check (t_access (snd (site_grant_put test_team 50 1 60 '' Guest '' (Some [''pagi''])))) 50 1 True =
     site_grant_check (t_access test_team) 50 1 True"
proof -
  have r: "fst (site_grant_put test_team 50 1 60 '' Guest '' (Some [''pagi''])) = Inr ()" by code_simp
  then show ?thesis
    using site_grant_put_spec [where s = test_team and caller = 50 and site = 1 and g = 60 and role = "'' Guest ''" and ids = "Some [''pagi'']"]
    by (auto split: prod.splits simp del: insert_iff)
qed

theorem site_grant_delete_spec_witness:
  "distinct (map grant_key (z_grant (t_access test_team))) \<and> fst (site_grant_delete test_team 50 1 60) = Inr () \<and>
   shifts_of (snd (site_grant_delete test_team 50 1 60)) 1 60 = []"
proof -
  have d: "distinct (map grant_key (z_grant (t_access test_team)))" by code_simp
  have r: "fst (site_grant_delete test_team 50 1 60) = Inr ()" by code_simp
  show ?thesis using d r site_grant_delete_spec [OF d, where caller = 50 and site = 1 and g = 60]
    by (auto split: prod.splits)
qed

theorem site_transfer_ownership_spec_witness:
  "fst (site_transfer_ownership test_team 50 1 60) = Inr () \<and>
   site_grant_check (t_access (snd (site_transfer_ownership test_team 50 1 60))) 50 1 True = Inr 60 \<and>
   fst (site_transfer_ownership (snd (site_transfer_ownership test_team 50 1 60)) 50 1 50) \<noteq> Inr ()"
proof -
  have r: "fst (site_transfer_ownership test_team 50 1 60) = Inr ()" by code_simp
  show ?thesis using r site_transfer_ownership_spec [where s = test_team and caller = 50 and site = 1 and target = 60]
    by (auto split: prod.splits)
qed

end
