(* ===== verification/Team_History.thy ===== *)
theory Team_History
  imports Team_Store
begin

text \<open>
  Histories of calls on the teams of sites: every call of \<open>site_grant.rs\<close>, \<open>site_hr.rs\<close> and
  \<open>site_handle.rs\<close> that writes is a \<open>team_call\<close>, and \<open>team_step\<close> what it leaves behind. The locale
  \<open>owned_store\<close> is the contract of a store whose things have owners and whose calls keep an
  invariant; it is interpreted on \<open>team_step\<close>.
\<close>

section \<open>Stores whose things have owners\<close>

locale owned_store =
  fixes step :: "'c \<Rightarrow> 's \<Rightarrow> 's"
    and inv :: "'s \<Rightarrow> bool"
    and owner :: "'s \<Rightarrow> 'k \<Rightarrow> 'o option"
    and gives :: "'c \<Rightarrow> 'k \<Rightarrow> 'o \<Rightarrow> bool"
  assumes step_inv: "inv s \<Longrightarrow> inv (step c s)"
    and step_owner: "owner (step c s) k \<noteq> owner s k \<Longrightarrow> \<exists>x. owner s k = Some x \<and> gives c k x"
begin

lemma run_inv: "inv s \<Longrightarrow> inv (fold step cs s)"
  by (induction cs arbitrary: s) (simp_all add: step_inv)

lemma run_owner:
  assumes "owner s k = Some x" "\<forall>c\<in>set cs. \<not> gives c k x"
  shows "owner (fold step cs s) k = Some x"
  using assms
proof (induction cs arbitrary: s)
  case (Cons c cs)
  have "owner (step c s) k = Some x" using step_owner [of c s k] Cons.prems by fastforce
  with Cons show ?case by simp
qed simp

end

section \<open>Calls\<close>

record team_env =
  te_lower :: "string \<Rightarrow> string"
  te_render :: "Value \<Rightarrow> string"
  te_pscan :: "ProviderRow list \<Rightarrow> ProviderRow list"
  te_iscan :: "IdentityRow list \<Rightarrow> IdentityRow list"

datatype team_call =
    GrantPut i64 i64 i64 string "string list option"
  | GrantPutRpc i64 i64 i64 string string string "string list"
  | GrantDelete i64 i64 i64
  | TransferOwnership i64 i64 i64
  | HandlePut u32 int i64 i64 string
  | WorkShiftPut i64 i64 "SiteWorkShift list"
  | FacePut i64 i64 i64 i64 string string
  | FaceDel i64 i64 i64 string

fun team_step :: "team_env \<Rightarrow> team_call \<Rightarrow> team \<Rightarrow> team" where
  "team_step e (GrantPut caller site g role ids) s = snd (site_grant_put s caller site g role ids)"
| "team_step e (GrantPutRpc caller site g alien email role ids) s =
     snd (site_grant_put_rpc (te_lower e) (te_render e) (te_pscan e) (te_iscan e) s caller site g alien email role ids)"
| "team_step e (GrantDelete caller site g) s = snd (site_grant_delete s caller site g)"
| "team_step e (TransferOwnership caller site target) s = snd (site_transfer_ownership s caller site target)"
| "team_step e (HandlePut rnd now caller site raw) s =
     s\<lparr> t_access := snd (site_handle_put (te_lower e) rnd now (t_access s) caller site raw) \<rparr>"
| "team_step e (WorkShiftPut caller site shifts) s = snd (site_work_shift_put s caller site shifts)"
| "team_step e (FacePut face_id caller site g hash pose) s = snd (site_member_face_put face_id s caller site g hash pose)"
| "team_step e (FaceDel caller site g face_id) s = snd (site_member_face_del s caller site g face_id)"

fun call_by :: "team_call \<Rightarrow> i64 \<times> i64" where
  "call_by (GrantPut caller site _ _ _) = (caller, site)"
| "call_by (GrantPutRpc caller site _ _ _ _ _) = (caller, site)"
| "call_by (GrantDelete caller site _) = (caller, site)"
| "call_by (TransferOwnership caller site _) = (caller, site)"
| "call_by (HandlePut _ _ caller site _) = (caller, site)"
| "call_by (WorkShiftPut caller site _) = (caller, site)"
| "call_by (FacePut _ caller site _ _ _) = (caller, site)"
| "call_by (FaceDel caller site _ _) = (caller, site)"

section \<open>The invariant\<close>

abbreviation shift_key :: "WorkShiftRow \<Rightarrow> i64 \<times> string" where
  "shift_key w \<equiv> (ws_site_iid w, ws_shift_id w)"

abbreviation slot_key :: "WorkShiftSlotRow \<Rightarrow> i64 \<times> string \<times> string" where
  "slot_key r \<equiv> (wl_site_iid r, wl_shift_id r, sl_id (wl_slot r))"

text \<open>A live grant with the role \<open>owner\<close> belongs to the owner of its site.\<close>

definition owner_grants :: "access \<Rightarrow> bool" where
  "owner_grants z \<longleftrightarrow> (\<forall>g\<in>set (z_grant z). \<not> gr_deleted g \<and> gr_role g = ''owner'' \<longrightarrow>
     (\<forall>i\<in>set (z_identity z). id_id i = gr_resource_iid g \<and> id_kind i = ''site'' \<longrightarrow> gr_grantee_iid g = id_owner_iid i))"

definition grants_ok :: "access \<Rightarrow> bool" where
  "grants_ok z \<longleftrightarrow> distinct (map id_id (z_identity z)) \<and> distinct (map grant_key (z_grant z)) \<and> owner_grants z"

text \<open>A member's shift is a live shift of the site, and the member has a live grant.\<close>

definition members_ok :: "team \<Rightarrow> bool" where
  "members_ok s \<longleftrightarrow> distinct (t_member_shift s) \<and> (\<forall>m\<in>set (t_member_shift s).
     (\<exists>w\<in>set (t_work_shift s). shift_of (ms_site_iid m) (ms_shift_id m) w \<and> \<not> ws_deleted w) \<and>
     (\<exists>g\<in>set (z_grant (t_access s)). grant_of (ms_site_iid m) (ms_grantee_iid m) g \<and> \<not> gr_deleted g))"

definition slot_in_bounds :: "SiteWorkShiftSlot \<Rightarrow> bool" where
  "slot_in_bounds x \<longleftrightarrow> sl_id x \<noteq> [] \<and> sint (sl_start_day x) \<in> {0..6} \<and> sint (sl_start_min x) \<in> {0..1439} \<and>
     sint (sl_end_day x) \<in> {0..6} \<and> sint (sl_end_min x) \<in> {0..1439}"

definition shifts_ok :: "team \<Rightarrow> bool" where
  "shifts_ok s \<longleftrightarrow> distinct (map shift_key (t_work_shift s)) \<and>
     (\<forall>w\<in>set (t_work_shift s). ws_shift_id w \<noteq> [] \<and> attendance_method_ok (ws_attendance_method w) \<and> ws_is_active w = (\<not> ws_deleted w)) \<and>
     distinct (map slot_key (t_slot s)) \<and>
     (\<forall>r\<in>set (t_slot s). slot_in_bounds (wl_slot r) \<and> (wl_site_iid r, wl_shift_id r) \<in> shift_key ` set (t_work_shift s))"

definition faces_ok :: "team \<Rightarrow> bool" where
  "faces_ok s \<longleftrightarrow> distinct (map mf_face_id (t_face s)) \<and> (\<forall>f\<in>set (t_face s).
     mf_is_active f = (\<not> mf_deleted f) \<and> length (mf_file_hash f) = 64 \<and> list_all is_ascii_hexdigit (mf_file_hash f))"

definition team_ok :: "team \<Rightarrow> bool" where
  "team_ok s \<longleftrightarrow> grants_ok (t_access s) \<and> members_ok s \<and> shifts_ok s \<and> faces_ok s"

subsection \<open>Grants\<close>

lemma owner_grants_kept:
  assumes "owner_grants z"
    and "\<And>g. g \<in> set (z_grant z') \<Longrightarrow> \<not> gr_deleted g \<Longrightarrow> gr_role g = ''owner'' \<Longrightarrow> g \<in> set (z_grant z)"
    and "\<And>i. i \<in> set (z_identity z') \<Longrightarrow> \<exists>j\<in>set (z_identity z). id_id j = id_id i \<and> id_kind j = id_kind i \<and> id_owner_iid j = id_owner_iid i"
  shows "owner_grants z'"
  using assms unfolding owner_grants_def by metis

lemma grant_upsert_keys: "distinct (map grant_key (z_grant z)) \<Longrightarrow> distinct (map grant_key (z_grant (grant_upsert site g role z)))"
  unfolding grant_upsert_def by (simp, rule upsert_keys) (auto simp: grant_of_def)

lemma grant_upsert_identity [simp]: "z_identity (grant_upsert site g role z) = z_identity z"
  by (simp add: grant_upsert_def)

lemma grant_upsert_elem:
  "q \<in> set (z_grant (grant_upsert site g role z)) \<Longrightarrow> q \<in> set (z_grant z) \<and> \<not> grant_of site g q \<or> grant_of site g q \<and> gr_role q = role"
  unfolding grant_upsert_def by (auto dest!: upsert_elem simp: grant_of_def)

lemma grants_ok_upsert: "grants_ok z \<Longrightarrow> role \<noteq> ''owner'' \<Longrightarrow> grants_ok (grant_upsert site g role z)"
  unfolding grants_ok_def
  by (auto simp: grant_upsert_keys intro!: owner_grants_kept [of z] dest: grant_upsert_elem)

lemma grants_ok_delete:
  assumes "grants_ok z"
  shows "grants_ok (z\<lparr> z_grant := map (\<lambda>q. if P q then q\<lparr> gr_deleted := True \<rparr> else q) (z_grant z) \<rparr>)"
proof -
  have "map grant_key (map (\<lambda>q. if P q then q\<lparr> gr_deleted := True \<rparr> else q) (z_grant z)) = map grant_key (z_grant z)" by simp
  then show ?thesis using assms unfolding grants_ok_def
    by (auto intro!: owner_grants_kept [of z] simp del: map_map split: if_splits)
qed

lemma grants_ok_transfer:
  assumes ok: "grants_ok z" and row: "site_row z site = Some row" and "target \<noteq> id_owner_iid row"
  shows "grants_ok (grant_upsert site target ''owner'' (grant_upsert site (id_owner_iid row) ''manage'' (set_owner site target z)))"
    (is "grants_ok ?z'")
proof -
  let ?own = "\<lambda>i. if id_id i = site \<and> id_kind i = ''site'' then i\<lparr> id_owner_iid := target \<rparr> else i"
  have ident: "z_identity ?z' = map ?own (z_identity z)" by (simp add: set_owner_def)
  have grants: "z_grant (set_owner site target z) = z_grant z" by (simp add: set_owner_def)
  have "map id_id (map ?own (z_identity z)) = map id_id (z_identity z)" by simp
  then have "distinct (map id_id (z_identity ?z'))" using ok unfolding ident grants_ok_def by (simp only:)
  moreover have "gr_grantee_iid g = id_owner_iid i"
    if g: "g \<in> set (z_grant ?z')" "\<not> gr_deleted g" "gr_role g = ''owner''"
      and i: "i \<in> set (z_identity ?z')" "id_id i = gr_resource_iid g" "id_kind i = ''site''" for g i
  proof -
    obtain j where j: "j \<in> set (z_identity z)" "i = ?own j" using i(1) ident by auto
    have old: "gr_grantee_iid q = id_owner_iid k" if "q \<in> set (z_grant z)" "\<not> gr_deleted q" "gr_role q = ''owner''"
      "k \<in> set (z_identity z)" "id_id k = gr_resource_iid q" "id_kind k = ''site''" for q k
      using ok that by (auto simp: grants_ok_def owner_grants_def)
    have r: "row \<in> set (z_identity z)" "id_id row = site" "id_kind row = ''site''"
      using row by (auto simp: site_row_def find_Some_iff)
    consider (target) "grant_of site target g"
      | (other) "g \<in> set (z_grant z)" "\<not> grant_of site target g" "\<not> grant_of site (id_owner_iid row) g"
      using grant_upsert_elem [OF g(1)] grant_upsert_elem [of g site "id_owner_iid row" "''manage''" "set_owner site target z"] g(3) grants
      by auto
    then show ?thesis
    proof cases
      case target
      then show ?thesis using i j by (auto simp: grant_of_def split: if_splits)
    next
      case other
      have "gr_resource_iid g \<noteq> site" using old [OF other(1) g(2,3) r(1)] r(2,3) other(3) by (auto simp: grant_of_def)
      then show ?thesis using old [OF other(1) g(2,3) j(1)] i j by (auto split: if_splits)
    qed
  qed
  moreover have "distinct (map grant_key (z_grant ?z'))" using ok by (simp add: grants_ok_def grant_upsert_keys grants)
  ultimately show ?thesis unfolding grants_ok_def owner_grants_def by blast
qed

lemma grants_ok_rename: "grants_ok z \<Longrightarrow> grants_ok (snd (site_handle_put lower rnd now z caller site raw))"
proof -
  assume ok: "grants_ok z"
  obtain r z' where put: "site_handle_put lower rnd now z caller site raw = (r, z')" by fastforce
  from put show ?thesis
  proof (cases rule: site_handle_put_cases)
    case (refused e)
    with put ok show ?thesis by simp
  next
    case (ok h owner row)
    obtain cfg where z': "z' = (set_alien_id z site h)\<lparr> z_config := cfg \<rparr>" using ok(8) by blast
    have "map id_id (map (renamed site h) (z_identity z)) = map id_id (z_identity z)" by simp
    moreover have "owner_grants z'"
    proof (rule owner_grants_kept)
      show "owner_grants z" using \<open>grants_ok z\<close> by (simp add: grants_ok_def)
      show "\<exists>j\<in>set (z_identity z). id_id j = id_id i \<and> id_kind j = id_kind i \<and> id_owner_iid j = id_owner_iid i"
        if "i \<in> set (z_identity z')" for i using that by (auto simp: z' set_alien_id_def)
    qed (simp add: z' set_alien_id_def)
    ultimately show ?thesis using \<open>grants_ok z\<close> put by (simp add: grants_ok_def z' set_alien_id_def del: map_map)
  qed
qed

subsection \<open>Shift ids\<close>

lemma sorted_remdups_adj_distinct:
  fixes key :: "'a \<Rightarrow> 'b::linorder"
  assumes "inj key" "sorted (map key xs)"
  shows "distinct (remdups_adj xs)"
  using assms(2)
proof (induction xs rule: remdups_adj.induct)
  case (3 x y xs)
  then have IH: "distinct (remdups_adj (y # xs))" by (cases "x = y") auto
  have "key x \<noteq> key z" if "z \<in> set (y # xs)" "x \<noteq> y" for z
  proof -
    have "key x \<le> key y" "key y \<le> key z" using 3(3) that(1) by auto
    moreover have "key x \<noteq> key y" using that(2) assms(1) by (simp add: inj_eq)
    ultimately show ?thesis by auto
  qed
  then have "x \<notin> set (y # xs)" if "x \<noteq> y" using that by blast
  with IH show ?case by (auto simp: remdups_adj_set)
qed auto

lemma shift_ids_normal:
  "distinct (site_member_shift_ids_normalize ids)"
  "set (site_member_shift_ids_normalize ids) = trim ` set ids - {[]}"
proof -
  have inj: "inj (map (of_char :: char \<Rightarrow> nat))" by (intro inj_mapI injI) simp
  show "distinct (site_member_shift_ids_normalize ids)"
    unfolding site_member_shift_ids_normalize_def by (rule sorted_remdups_adj_distinct [OF inj]) simp
  show "set (site_member_shift_ids_normalize ids) = trim ` set ids - {[]}"
    by (auto simp: site_member_shift_ids_normalize_def)
qed

text \<open>Counting is enough: as many live shifts as ids means that every id is a live shift.\<close>

lemma shift_ids_known_live:
  assumes keys: "distinct (map shift_key (t_work_shift s))" and "distinct ids" "shift_ids_known s site ids" "i \<in> set ids"
  shows "\<exists>w\<in>set (t_work_shift s). shift_of site i w \<and> \<not> ws_deleted w"
proof -
  let ?ws = "filter (\<lambda>w. ws_site_iid w = site \<and> \<not> ws_deleted w \<and> ws_shift_id w \<in> set ids) (t_work_shift s)"
  have "distinct (map shift_key ?ws)" using keys by (rule distinct_map_filter)
  moreover have "map shift_key ?ws = map (Pair site) (map ws_shift_id ?ws)" unfolding map_map o_def by (rule map_cong) simp_all
  ultimately have "distinct (map (Pair site) (map ws_shift_id ?ws))" by (simp only:)
  then have "distinct (map ws_shift_id ?ws)" by (simp only: distinct_map [of "Pair site"])
  from distinct_card [OF this] have "card (set (map ws_shift_id ?ws)) = length ?ws" by (simp only: length_map)
  also have "length ?ws = length ids" using assms(3,4) by (auto simp: shift_ids_known_def)
  also have "\<dots> = card (set ids)" using assms(2) by (simp add: distinct_card)
  finally have card: "card (set (map ws_shift_id ?ws)) = card (set ids)" .
  have "set (map ws_shift_id ?ws) \<subseteq> set ids" by auto
  then have "set (map ws_shift_id ?ws) = set ids" using card by (intro card_subset_eq List.finite_set)
  then have "i \<in> ws_shift_id ` set ?ws" using assms(4) by (simp only: set_map)
  then obtain w where "w \<in> set ?ws" "ws_shift_id w = i" by blast
  then show ?thesis by (auto simp: shift_of_def)
qed

subsection \<open>Members\<close>

lemma live_grant_upsert:
  assumes "(\<exists>q\<in>set (z_grant z). grant_of a b q \<and> \<not> gr_deleted q) \<or> (a = site \<and> b = g)"
  shows "\<exists>q\<in>set (z_grant (grant_upsert site g role z)). grant_of a b q \<and> \<not> gr_deleted q"
proof (cases "a = site \<and> b = g")
  case True
  then show ?thesis unfolding grant_upsert_def by (simp, intro upsert_hit) (auto simp: grant_of_def)
next
  case False
  then obtain q where q: "q \<in> set (z_grant z)" "grant_of a b q" "\<not> gr_deleted q" using assms by blast
  then have "\<not> grant_of site g q" using False by (auto simp: grant_of_def)
  with q show ?thesis unfolding grant_upsert_def by (auto intro!: bexI [of _ q] upsert_other)
qed

definition live_grant :: "access \<Rightarrow> i64 \<Rightarrow> i64 \<Rightarrow> bool" where
  "live_grant z a b \<longleftrightarrow> (\<exists>q\<in>set (z_grant z). grant_of a b q \<and> \<not> gr_deleted q)"

definition live_shift :: "team \<Rightarrow> i64 \<Rightarrow> string \<Rightarrow> bool" where
  "live_shift s a i \<longleftrightarrow> (\<exists>w\<in>set (t_work_shift s). shift_of a i w \<and> \<not> ws_deleted w)"

lemma members_ok_alt:
  "members_ok s \<longleftrightarrow> distinct (t_member_shift s) \<and> (\<forall>m\<in>set (t_member_shift s).
     live_shift s (ms_site_iid m) (ms_shift_id m) \<and> live_grant (t_access s) (ms_site_iid m) (ms_grantee_iid m))"
  by (simp add: members_ok_def live_grant_def live_shift_def)

text \<open>Members stay in order when the rows that remain keep their shift and their grant.\<close>

lemma members_kept:
  assumes "members_ok s" "distinct (t_member_shift s')"
    and "\<And>m. m \<in> set (t_member_shift s') \<Longrightarrow>
      m \<in> set (t_member_shift s) \<and> (live_shift s (ms_site_iid m) (ms_shift_id m) \<longrightarrow> live_shift s' (ms_site_iid m) (ms_shift_id m)) \<and>
        (live_grant (t_access s) (ms_site_iid m) (ms_grantee_iid m) \<longrightarrow> live_grant (t_access s') (ms_site_iid m) (ms_grantee_iid m))
      \<or> live_shift s' (ms_site_iid m) (ms_shift_id m) \<and> live_grant (t_access s') (ms_site_iid m) (ms_grantee_iid m)"
  shows "members_ok s'"
  using assms unfolding members_ok_alt by blast

lemma members_ok_put:
  assumes "members_ok s" "distinct (map shift_key (t_work_shift s))"
    and "\<And>l. ids = Some l \<Longrightarrow> shift_ids_known s site (site_member_shift_ids_normalize l)"
  shows "members_ok (s\<lparr> t_access := grant_upsert site g role (t_access s),
         t_member_shift := (case ids of None \<Rightarrow> t_member_shift s
           | Some l \<Rightarrow> t_member_shift (member_shift_clear site g s) @
               map (\<lambda>sid. \<lparr> ms_site_iid = site, ms_grantee_iid = g, ms_shift_id = sid \<rparr>) (site_member_shift_ids_normalize l)) \<rparr>)"
    (is "members_ok ?s'")
proof (rule members_kept [OF assms(1)])
  have old: "distinct (t_member_shift s)" using assms(1) by (simp add: members_ok_def)
  have inj: "inj (\<lambda>sid. \<lparr> ms_site_iid = site, ms_grantee_iid = g, ms_shift_id = sid \<rparr>)" by (auto intro: injI)
  show "distinct (t_member_shift ?s')"
    using old by (auto split: option.splits
        simp: member_shift_clear_def distinct_map shift_ids_normal intro: inj_on_subset [OF inj])
next
  fix m assume m: "m \<in> set (t_member_shift ?s')"
  have shift: "live_shift ?s' a i = live_shift s a i" for a i by (simp add: live_shift_def)
  have grant: "live_grant (t_access ?s') a b" if "live_grant (t_access s) a b \<or> a = site \<and> b = g" for a b
    using live_grant_upsert [of "t_access s" a b] that by (simp add: live_grant_def)
  show "m \<in> set (t_member_shift s) \<and> (live_shift s (ms_site_iid m) (ms_shift_id m) \<longrightarrow> live_shift ?s' (ms_site_iid m) (ms_shift_id m)) \<and>
      (live_grant (t_access s) (ms_site_iid m) (ms_grantee_iid m) \<longrightarrow> live_grant (t_access ?s') (ms_site_iid m) (ms_grantee_iid m))
    \<or> live_shift ?s' (ms_site_iid m) (ms_shift_id m) \<and> live_grant (t_access ?s') (ms_site_iid m) (ms_grantee_iid m)"
  proof (cases "m \<in> set (t_member_shift s)")
    case True
    then show ?thesis using shift grant by blast
  next
    case False
    with m obtain l sid where l: "ids = Some l" "sid \<in> set (site_member_shift_ids_normalize l)"
        "m = \<lparr> ms_site_iid = site, ms_grantee_iid = g, ms_shift_id = sid \<rparr>"
      by (auto simp: member_shift_clear_def split: option.splits)
    have "live_shift s site sid"
      using shift_ids_known_live [OF assms(2) shift_ids_normal(1) assms(3) [OF l(1)] l(2)] by (simp add: live_shift_def)
    then show ?thesis using shift grant l(3) by auto
  qed
qed

lemma members_ok_cleanup:
  assumes "members_ok s" "\<And>a b. \<not> (a = site \<and> b = g) \<Longrightarrow> live_grant (t_access s) a b \<Longrightarrow> live_grant z a b"
  shows "members_ok (site_member_hr_cleanup site g (s\<lparr> t_access := z \<rparr>))"
  using assms
  by (auto simp: members_ok_alt site_member_hr_cleanup_def member_shift_clear_def live_shift_def Let_def)

subsection \<open>Work shifts\<close>

lemma slot_bound_bounds: "sl_id (slot_bound x) \<noteq> [] \<Longrightarrow> slot_in_bounds (slot_bound x)"
  using clamp_bounds [of 0 6 "sl_start_day x"] clamp_bounds [of 0 6 "sl_end_day x"]
    clamp_bounds [of 0 1439 "sl_start_min x"] clamp_bounds [of 0 1439 "sl_end_min x"]
  by (simp add: slot_in_bounds_def slot_bound_def word_sle_eq)

lemma shifts_ok_retire: "shifts_ok s \<Longrightarrow> shifts_ok (work_shift_retire site keep s)"
proof -
  assume ok: "shifts_ok s"
  let ?f = "\<lambda>w. if ws_site_iid w = site \<and> \<not> ws_deleted w \<and> ws_shift_id w \<notin> set keep
    then w\<lparr> ws_is_active := False, ws_deleted := True \<rparr> else w"
  have keys: "map shift_key (map ?f (t_work_shift s)) = map shift_key (t_work_shift s)" by simp
  from arg_cong [OF this, of set] have "shift_key ` set (map ?f (t_work_shift s)) = shift_key ` set (t_work_shift s)"
    unfolding set_map [of shift_key] .
  moreover have "ws_shift_id w \<noteq> [] \<and> attendance_method_ok (ws_attendance_method w) \<and> ws_is_active w = (\<not> ws_deleted w)"
    if "w \<in> set (map ?f (t_work_shift s))" for w
    using that ok by (auto simp: shifts_ok_def)
  ultimately show ?thesis using ok keys by (simp add: shifts_ok_def work_shift_retire_def del: map_map set_map)
qed

lemma shifts_ok_upsert:
  assumes "shifts_ok s" "shift_id \<noteq> []" "attendance_method_ok m"
  shows "shifts_ok (work_shift_upsert site shift_id name m pos s)" (is "shifts_ok ?s'")
proof -
  have "distinct (map shift_key (t_work_shift ?s'))"
    using assms(1) unfolding work_shift_upsert_def by (simp, intro upsert_keys) (auto simp: shifts_ok_def shift_of_def)
  moreover have "ws_shift_id w \<noteq> [] \<and> attendance_method_ok (ws_attendance_method w) \<and> ws_is_active w = (\<not> ws_deleted w)"
    if "w \<in> set (t_work_shift ?s')" for w
    using that assms by (auto simp: work_shift_upsert_def shifts_ok_def shift_of_def dest!: upsert_elem)
  moreover have "k \<in> shift_key ` set (t_work_shift ?s')" if "k \<in> shift_key ` set (t_work_shift s)" for k
  proof (cases "k = (site, shift_id)")
    case True
    have "\<exists>w\<in>set (t_work_shift ?s'). shift_key w = (site, shift_id)"
      unfolding work_shift_upsert_def by (simp, intro upsert_hit) (auto simp: shift_of_def)
    with True show ?thesis by force
  next
    case False
    then show ?thesis using that unfolding work_shift_upsert_def
      by (auto intro!: imageI upsert_other simp: shift_of_def)
  qed
  ultimately show ?thesis using assms(1) by (auto simp: shifts_ok_def work_shift_upsert_def)
qed

lemma live_shift_upsert: "live_shift s a i \<or> a = site \<and> i = shift_id \<Longrightarrow> live_shift (work_shift_upsert site shift_id name m pos s) a i"
proof (cases "a = site \<and> i = shift_id")
  case True
  then show ?thesis unfolding live_shift_def work_shift_upsert_def by (simp, intro upsert_hit) (auto simp: shift_of_def)
next
  case False
  assume "live_shift s a i \<or> a = site \<and> i = shift_id"
  with False obtain w where w: "w \<in> set (t_work_shift s)" "shift_of a i w" "\<not> ws_deleted w" by (auto simp: live_shift_def)
  then have "\<not> shift_of site shift_id w" using False by (auto simp: shift_of_def)
  with w show ?thesis unfolding live_shift_def work_shift_upsert_def by (auto intro!: bexI [of _ w] upsert_other)
qed

lemma shifts_ok_slots:
  assumes "slots_replace site shift_id slots s = Inr s'" "shifts_ok s" "live_shift s site shift_id"
  shows "shifts_ok s'"
proof -
  let ?new = "map (\<lambda>x. \<lparr> wl_site_iid = site, wl_shift_id = shift_id, wl_slot = x \<rparr>) (kept_slots slots)"
  let ?old = "filter (\<lambda>r. \<not> (wl_site_iid r = site \<and> wl_shift_id r = shift_id)) (t_slot s)"
  have s': "s' = s\<lparr> t_slot := ?old @ ?new \<rparr>" and ids: "distinct (map sl_id (kept_slots slots))"
    using assms(1) by (auto simp: slots_replace_def split: if_splits)
  have "map slot_key ?new = map (\<lambda>i. (site, shift_id, i)) (map sl_id (kept_slots slots))" by simp
  then have "distinct (map slot_key ?new)" using ids by (simp add: distinct_map inj_on_def)
  moreover have "distinct (map slot_key ?old)" using assms(2) by (simp add: shifts_ok_def distinct_map_filter)
  moreover have "slot_key ` set ?old \<inter> slot_key ` set ?new = {}" by auto
  ultimately have "distinct (map slot_key (?old @ ?new))" unfolding map_append distinct_append set_map [of slot_key] by blast
  then have "distinct (map slot_key (t_slot s'))" by (simp add: s')
  moreover have "slot_in_bounds (wl_slot r) \<and> (wl_site_iid r, wl_shift_id r) \<in> shift_key ` set (t_work_shift s)"
    if "r \<in> set (t_slot s')" for r
  proof (cases "r \<in> set ?old")
    case True
    then show ?thesis using assms(2) by (auto simp: shifts_ok_def)
  next
    case False
    with that obtain x where x: "x \<in> set (kept_slots slots)" "r = \<lparr> wl_site_iid = site, wl_shift_id = shift_id, wl_slot = x \<rparr>"
      by (auto simp: s')
    then have "slot_in_bounds x" using slot_bound_bounds by (auto simp: kept_slots_def)
    moreover have "(site, shift_id) \<in> shift_key ` set (t_work_shift s)"
      using assms(3) by (force simp: live_shift_def shift_of_def)
    ultimately show ?thesis using x(2) by simp
  qed
  ultimately show ?thesis using assms(2) by (simp add: shifts_ok_def s')
qed

lemma slots_replace_frame:
  "slots_replace site shift_id slots s = Inr s' \<Longrightarrow> t_access s' = t_access s \<and> t_member_shift s' = t_member_shift s \<and>
     t_face s' = t_face s \<and> t_work_shift s' = t_work_shift s"
  by (auto simp: slots_replace_def split: if_splits)

lemma work_shift_loop_ok:
  "work_shift_loop site n shifts s = Inr s' \<Longrightarrow> shifts_ok s \<Longrightarrow>
   shifts_ok s' \<and> t_access s' = t_access s \<and> t_member_shift s' = t_member_shift s \<and> t_face s' = t_face s \<and>
   (\<forall>a i. live_shift s a i \<longrightarrow> live_shift s' a i)"
proof (induction shifts arbitrary: n s)
  case (Cons x xs)
  show ?case
  proof (cases "trim (sw_id x) = []")
    case True
    with Cons show ?thesis by (simp add: Let_def)
  next
    case False
    define m where "m = (if attendance_method_ok (trim (sw_attendance_method x)) then trim (sw_attendance_method x) else ''button'')"
    define u where "u = work_shift_upsert site (trim (sw_id x)) (trim (sw_name x)) m (of_nat n) s"
    have m: "attendance_method_ok m" by (simp add: m_def attendance_method_ok_def)
    obtain t where t: "slots_replace site (trim (sw_id x)) (sw_slots x) u = Inr t" "work_shift_loop site (Suc n) xs t = Inr s'"
      using Cons.prems(1) False by (auto simp: Let_def m_def u_def split: sum.splits)
    have u: "shifts_ok u" "live_shift u site (trim (sw_id x))" "\<And>a i. live_shift s a i \<Longrightarrow> live_shift u a i"
      unfolding u_def using shifts_ok_upsert [OF Cons.prems(2) False m] live_shift_upsert by auto
    note frame = slots_replace_frame [OF t(1)]
    have "live_shift t a i = live_shift u a i" for a i using frame by (simp add: live_shift_def)
    then show ?thesis
      using Cons.IH [OF t(2) shifts_ok_slots [OF t(1) u(1,2)]] u(3) frame by (auto simp: u_def work_shift_upsert_def)
  qed
qed simp

lemma team_ok_work_shift_put:
  assumes "team_ok s"
  shows "team_ok (snd (site_work_shift_put s caller site shifts))"
proof (cases "fst (site_work_shift_put s caller site shifts)")
  case (Inl e)
  then have "snd (site_work_shift_put s caller site shifts) = s"
    by (auto simp: site_work_shift_put_def split: sum.splits)
  with assms show ?thesis by simp
next
  case (Inr u)
  let ?r = "work_shift_retire site (kept_ids shifts) s"
  obtain s' where s': "work_shift_loop site 0 shifts ?r = Inr s'" "snd (site_work_shift_put s caller site shifts) = s'"
    using Inr by (auto simp: site_work_shift_put_def split: sum.splits)
  have "shifts_ok s" using assms by (simp add: team_ok_def)
  note loop = work_shift_loop_ok [OF s'(1) shifts_ok_retire [OF this]]
  have keep: "live_shift ?r a i" if "live_shift s a i" "\<not> (a = site \<and> i \<notin> set (kept_ids shifts))" for a i
  proof -
    from that(1) obtain w where w: "w \<in> set (t_work_shift s)" "shift_of a i w" "\<not> ws_deleted w" by (auto simp: live_shift_def)
    moreover have "\<not> (ws_site_iid w = site \<and> \<not> ws_deleted w \<and> ws_shift_id w \<notin> set (kept_ids shifts))"
      using w that(2) by (auto simp: shift_of_def)
    ultimately have "w \<in> set (t_work_shift ?r)" by (force simp: work_shift_retire_def)
    with w show ?thesis by (auto simp: live_shift_def)
  qed
  have "members_ok s'"
  proof (rule members_kept [of s])
    show "members_ok s" using assms by (simp add: team_ok_def)
    then show "distinct (t_member_shift s')" using loop by (simp add: work_shift_retire_def members_ok_def)
  next
    fix m assume "m \<in> set (t_member_shift s')"
    then have m: "m \<in> set (t_member_shift s)" "\<not> (ms_site_iid m = site \<and> ms_shift_id m \<notin> set (kept_ids shifts))"
      using loop by (auto simp: work_shift_retire_def)
    have acc: "t_access s' = t_access s" using loop by (simp add: work_shift_retire_def)
    show "m \<in> set (t_member_shift s) \<and> (live_shift s (ms_site_iid m) (ms_shift_id m) \<longrightarrow> live_shift s' (ms_site_iid m) (ms_shift_id m)) \<and>
        (live_grant (t_access s) (ms_site_iid m) (ms_grantee_iid m) \<longrightarrow> live_grant (t_access s') (ms_site_iid m) (ms_grantee_iid m))
      \<or> live_shift s' (ms_site_iid m) (ms_shift_id m) \<and> live_grant (t_access s') (ms_site_iid m) (ms_grantee_iid m)"
      using m acc keep [OF _ m(2)] loop by simp
  qed
  then show ?thesis using assms loop s'(2) by (auto simp: team_ok_def work_shift_retire_def faces_ok_def)
qed

subsection \<open>Face photos\<close>

lemma faces_ok_retire:
  assumes "faces_ok s"
  shows "faces_ok (s'\<lparr> t_face := map (\<lambda>f. if P f then f\<lparr> mf_is_active := False, mf_deleted := True \<rparr> else f) (t_face s) \<rparr>)"
proof -
  have "map mf_face_id (map (\<lambda>f. if P f then f\<lparr> mf_is_active := False, mf_deleted := True \<rparr> else f) (t_face s)) =
    map mf_face_id (t_face s)" by simp
  with assms show ?thesis by (auto simp: faces_ok_def simp del: map_map)
qed

lemma faces_ok_put: "faces_ok s \<Longrightarrow> faces_ok (snd (site_member_face_put face_id s caller site g hash pose))"
  by (auto simp: faces_ok_def site_member_face_put_def Let_def split: sum.splits)

lemma faces_ok_del: "faces_ok s \<Longrightarrow> faces_ok (snd (site_member_face_del s caller site g face_id))"
  using faces_ok_retire [of s] by (auto simp: site_member_face_del_def Let_def split: sum.splits option.splits)

subsection \<open>Every call\<close>

lemma team_ok_grant_put:
  assumes "team_ok s"
  shows "team_ok (snd (site_grant_put s caller site g role ids))"
proof -
  obtain r s' where put: "site_grant_put s caller site g role ids = (r, s')" by fastforce
  from put show ?thesis
  proof (cases rule: site_grant_put_cases)
    case (refused e)
    with put assms show ?thesis by simp
  next
    case (ok owner role')
    have "role' \<noteq> ''owner''" using ok(2) by (auto simp: site_grant_role_writable_def Let_def split: if_splits)
    then have "grants_ok (t_access s')" using assms by (simp add: ok(9) team_ok_def grants_ok_upsert)
    moreover have "members_ok s'"
      unfolding ok(9) using assms ok(8) by (intro members_ok_put) (auto simp: team_ok_def shifts_ok_def)
    ultimately show ?thesis using assms put by (simp add: team_ok_def ok(9) shifts_ok_def faces_ok_def)
  qed
qed

lemma team_ok_grant_delete:
  assumes "team_ok s"
  shows "team_ok (snd (site_grant_delete s caller site g))"
proof -
  obtain r s' where del: "site_grant_delete s caller site g = (r, s')" by fastforce
  from del show ?thesis
  proof (cases rule: site_grant_delete_cases)
    case (refused e)
    with del assms show ?thesis by simp
  next
    case (ok owner)
    let ?P = "\<lambda>q. grant_of site g q \<and> \<not> gr_deleted q \<and> gr_role q \<noteq> ''owner''"
    let ?z = "(t_access s)\<lparr> z_grant := map (\<lambda>q. if ?P q then q\<lparr> gr_deleted := True \<rparr> else q) (z_grant (t_access s)) \<rparr>"
    have grant: "live_grant ?z a b" if ne: "\<not> (a = site \<and> b = g)" and live: "live_grant (t_access s) a b" for a b
    proof -
      from live obtain q where q: "q \<in> set (z_grant (t_access s))" "grant_of a b q" "\<not> gr_deleted q" by (auto simp: live_grant_def)
      then have "\<not> ?P q" using ne by (auto simp: grant_of_def)
      with q show ?thesis by (force simp: live_grant_def)
    qed
    have "members_ok s'" unfolding ok(6) using assms grant by (intro members_ok_cleanup) (auto simp: team_ok_def)
    moreover have "grants_ok (t_access s')" using assms grants_ok_delete by (simp add: ok(6) team_ok_def)
    moreover have "faces_ok s'"
      unfolding ok(6) site_member_hr_cleanup_def Let_def
      using assms by (simp add: member_shift_clear_def team_ok_def faces_ok_retire)
    moreover have "shifts_ok s'" using assms
      by (simp add: ok(6) site_member_hr_cleanup_def member_shift_clear_def Let_def team_ok_def shifts_ok_def)
    ultimately show ?thesis using del by (simp add: team_ok_def)
  qed
qed

lemma team_ok_access:
  assumes "team_ok s" "grants_ok z" "\<And>a b. live_grant (t_access s) a b \<Longrightarrow> live_grant z a b"
  shows "team_ok (s\<lparr> t_access := z \<rparr>)"
  using assms by (auto simp: team_ok_def members_ok_alt shifts_ok_def faces_ok_def live_shift_def)

lemma team_ok_transfer:
  assumes "team_ok s"
  shows "team_ok (snd (site_transfer_ownership s caller site target))"
proof -
  obtain r s' where tr: "site_transfer_ownership s caller site target = (r, s')" by fastforce
  from tr show ?thesis
  proof (cases rule: site_transfer_cases)
    case (refused e)
    with tr assms show ?thesis by simp
  next
    case (ok row role)
    have "z_grant (set_owner site target (t_access s)) = z_grant (t_access s)" by (simp add: set_owner_def)
    then have "team_ok s'"
      unfolding ok(8) using assms grants_ok_transfer [of "t_access s" site row target] ok(2,3,4)
      by (intro team_ok_access) (auto simp: team_ok_def live_grant_def intro!: live_grant_upsert)
    with tr show ?thesis by simp
  qed
qed

lemma rename_grants: "z_grant (snd (site_handle_put lower rnd now z caller site raw)) = z_grant z"
  by (auto simp: site_handle_put_def set_alien_id_def Let_def split: sum.splits)

lemma team_step_ok: "team_ok s \<Longrightarrow> team_ok (team_step e c s)"
proof (cases c)
  case (GrantPutRpc caller site g alien email role ids)
  assume "team_ok s"
  then show ?thesis
    using team_ok_grant_put [of s] GrantPutRpc
    by (auto simp: site_grant_put_rpc_def split: sum.splits prod.splits) (metis snd_conv)+
next
  case (HandlePut rnd now caller site raw)
  assume s: "team_ok s"
  then have "grants_ok (t_access s)" by (simp add: team_ok_def)
  from team_ok_access [OF s grants_ok_rename [OF this]] show ?thesis
    by (simp add: HandlePut live_grant_def rename_grants)
next
  case (FacePut face_id caller site g hash pose)
  assume s: "team_ok s"
  have "\<exists>x. snd (site_member_face_put face_id s caller site g hash pose) = s\<lparr> t_face := x \<rparr>"
    by (auto simp: site_member_face_put_def Let_def split: sum.splits) (metis team.surjective team.update_convs(6))+
  then obtain x where x: "team_step e c s = s\<lparr> t_face := x \<rparr>" using FacePut by auto
  moreover have "faces_ok (team_step e c s)" using faces_ok_put s FacePut by (simp add: team_ok_def)
  ultimately show ?thesis using s by (simp add: team_ok_def members_ok_def shifts_ok_def)
next
  case (FaceDel caller site g face_id)
  assume s: "team_ok s"
  have "\<exists>x. snd (site_member_face_del s caller site g face_id) = s\<lparr> t_face := x \<rparr>"
    by (auto simp: site_member_face_del_def Let_def split: sum.splits option.splits) (metis team.surjective team.update_convs(6))+
  then obtain x where x: "team_step e c s = s\<lparr> t_face := x \<rparr>" using FaceDel by auto
  moreover have "faces_ok (team_step e c s)" using faces_ok_del s FaceDel by (simp add: team_ok_def)
  ultimately show ?thesis using s by (simp add: team_ok_def members_ok_def shifts_ok_def)
qed (simp_all add: team_ok_grant_put team_ok_grant_delete team_ok_transfer team_ok_work_shift_put)

section \<open>Owners\<close>

definition team_owner :: "team \<Rightarrow> i64 \<Rightarrow> i64 option" where
  "team_owner s site = map_option id_owner_iid (site_row (t_access s) site)"

fun gives_away :: "team_call \<Rightarrow> i64 \<Rightarrow> i64 \<Rightarrow> bool" where
  "gives_away (TransferOwnership caller site target) k x \<longleftrightarrow> site = k \<and> caller = x"
| "gives_away _ k x \<longleftrightarrow> False"

text \<open>What a call leaves alone of the access tables.\<close>

lemma grant_put_access:
  "\<exists>z. t_access (snd (site_grant_put s caller site g role ids)) = z \<and> (z = t_access s \<or> (\<exists>role'. z = grant_upsert site g role' (t_access s)))"
proof -
  obtain r s' where put: "site_grant_put s caller site g role ids = (r, s')" by fastforce
  then show ?thesis by (cases rule: site_grant_put_cases) (auto simp: put)
qed

lemma grant_put_rpc_access:
  "t_access (snd (site_grant_put_rpc lower render ps is s caller site g alien email role ids)) = t_access s \<or>
   (\<exists>g' role'. t_access (snd (site_grant_put_rpc lower render ps is s caller site g alien email role ids)) = grant_upsert site g' role' (t_access s))"
proof (cases "site_grantee_resolve lower render ps is s g alien email")
  case (Inr g')
  have "snd (site_grant_put_rpc lower render ps is s caller site g alien email role ids) = snd (site_grant_put s caller site g' role (Some ids))"
    by (auto simp: site_grant_put_rpc_def Inr split: sum.splits prod.splits)
  then show ?thesis using grant_put_access [of s caller site g' role "Some ids"] by metis
qed (simp add: site_grant_put_rpc_def)

lemma delete_access:
  "t_access (snd (site_grant_delete s caller site g)) = t_access s \<or> (\<exists>P. t_access (snd (site_grant_delete s caller site g)) =
     (t_access s)\<lparr> z_grant := map (\<lambda>q. if grant_of site g q \<and> P q then q\<lparr> gr_deleted := True \<rparr> else q) (z_grant (t_access s)) \<rparr>)"
proof -
  obtain r s' where del: "site_grant_delete s caller site g = (r, s')" by fastforce
  then show ?thesis
  proof (cases rule: site_grant_delete_cases)
    case (ok owner)
    then show ?thesis by (auto simp: del)
  qed (simp add: del)
qed

lemma work_shift_access: "t_access (snd (site_work_shift_put s caller site shifts)) = t_access s"
proof -
  have "t_access s' = t_access s" if "work_shift_loop site n xs s = Inr s'" for n xs s s'
    using that
  proof (induction xs arbitrary: n s)
    case (Cons x xs)
    then show ?case
      by (auto simp: Let_def work_shift_upsert_def dest!: slots_replace_frame split: if_splits sum.splits)
  qed simp
  then show ?thesis by (force simp: site_work_shift_put_def work_shift_retire_def split: sum.splits)
qed

lemma face_access:
  "t_access (snd (site_member_face_put face_id s caller site g hash pose)) = t_access s"
  "t_access (snd (site_member_face_del s caller site g fid)) = t_access s"
  by (auto simp: site_member_face_put_def site_member_face_del_def Let_def split: sum.splits option.splits)

lemma rename_rights:
  "site_grant_check (snd (site_handle_put lower rnd now z caller site raw)) u k w = site_grant_check z u k w"
  "map_option id_owner_iid (site_row (snd (site_handle_put lower rnd now z caller site raw)) k) = map_option id_owner_iid (site_row z k)"
proof -
  obtain r z' where put: "site_handle_put lower rnd now z caller site raw = (r, z')" by fastforce
  have "z' = z \<or> (\<exists>h cfg. z' = (set_alien_id z site h)\<lparr> z_config := cfg \<rparr>)"
    using put by (cases rule: site_handle_put_cases) auto
  then have "site_grant_check z' u k w = site_grant_check z u k w \<and>
      map_option id_owner_iid (site_row z' k) = map_option id_owner_iid (site_row z k)"
  proof (elim disjE exE)
    fix h cfg assume z': "z' = (set_alien_id z site h)\<lparr> z_config := cfg \<rparr>"
    have "site_row z' k = map_option (renamed site h) (site_row z k)"
      using site_row_set_alien_id [of z site h k] by (simp add: z' site_row_def)
    then show ?thesis by (cases "site_row z k") (simp_all add: z' rights_z_config rights_set_alien_id)
  qed simp
  then show "site_grant_check (snd (site_handle_put lower rnd now z caller site raw)) u k w = site_grant_check z u k w"
    "map_option id_owner_iid (site_row (snd (site_handle_put lower rnd now z caller site raw)) k) = map_option id_owner_iid (site_row z k)"
    by (simp_all add: put)
qed

lemma transfer_owner:
  assumes "team_owner (snd (site_transfer_ownership s caller site target)) k \<noteq> team_owner s k"
  shows "site = k \<and> team_owner s k = Some caller"
proof -
  obtain r s' where tr: "site_transfer_ownership s caller site target = (r, s')" by fastforce
  then show ?thesis
  proof (cases rule: site_transfer_cases)
    case (refused e)
    with assms tr show ?thesis by simp
  next
    case (ok row role)
    have "site = k"
    proof (rule ccontr)
      assume "site \<noteq> k"
      then have "site_row (t_access s') k = site_row (t_access s) k"
        using site_row_id [of "t_access s" k] by (cases "site_row (t_access s) k") (auto simp: ok(8) site_row_set_owner)
      with assms tr show False by (simp add: team_owner_def)
    qed
    with ok show ?thesis by (simp add: team_owner_def)
  qed
qed

lemma team_step_owner:
  assumes "team_owner (team_step e c s) k \<noteq> team_owner s k"
  shows "\<exists>x. team_owner s k = Some x \<and> gives_away c k x"
proof (cases c)
  case (GrantPut caller site g role ids)
  then show ?thesis using assms grant_put_access [of s caller site g role ids] by (auto simp: team_owner_def)
next
  case (GrantPutRpc caller site g alien email role ids)
  then show ?thesis
    using assms grant_put_rpc_access [of "te_lower e" "te_render e" "te_pscan e" "te_iscan e" s caller site g alien email role ids]
    by (auto simp: team_owner_def)
next
  case (GrantDelete caller site g)
  then show ?thesis using assms delete_access [of s caller site g] by (auto simp: team_owner_def site_row_def)
next
  case (TransferOwnership caller site target)
  then show ?thesis using assms transfer_owner [of s caller site target k] by auto
next
  case (HandlePut rnd now caller site raw)
  then show ?thesis using assms rename_rights(2) by (simp add: team_owner_def)
qed (use assms in \<open>simp_all add: team_owner_def work_shift_access face_access\<close>)

interpretation teams: owned_store "team_step e" team_ok team_owner gives_away
  by unfold_locales (fact team_step_ok, fact team_step_owner)

text \<open>Claim C13. Invariant of the teams: over any history of calls, grants stay unique per site and member, a
  live grant with the role \<open>owner\<close> belongs to the owner of its site, every shift of a member is a live
  shift of the site and its member holds a live grant, shifts and slots keep their keys, parents and
  bounds (days 0 to 6, minutes 0 to 1439), and face photos their ids and hashes.\<close>

theorem team_history_ok: "team_ok s \<Longrightarrow> team_ok (fold (team_step e) cs s)"
  by (rule teams.run_inv)

text \<open>Claim C14. A site is its owner's to give: over any history of calls in which the owner does not
  transfer the site, whoever else calls and with whatever rights, the owner stays the owner and keeps
  the right to write to it.\<close>

theorem owner_keeps_site:
  assumes "team_owner s site = Some x" and "\<forall>c\<in>set cs. \<not> gives_away c site x"
  shows "team_owner (fold (team_step e) cs s) site = Some x \<and>
    site_grant_check (t_access (fold (team_step e) cs s)) x site w = Inr x"
proof -
  have "team_owner (fold (team_step e) cs s) site = Some x" using assms by (rule teams.run_owner)
  then show ?thesis by (auto simp: team_owner_def site_grant_check_def Let_def)
qed

text \<open>Who may not write changes nothing: a call by somebody whom \<open>site_grant_check\<close> refuses to let
  write leaves every table of the team as it was, renaming the site excepted.\<close>

theorem refused_writer_changes_nothing:
  assumes "site_grant_check (t_access s) caller site True = Inl err" and "call_by c = (caller, site)"
    and "\<forall>rnd now raw. c \<noteq> HandlePut rnd now caller site raw"
  shows "team_step e c s = s"
proof (cases c)
  case (GrantPutRpc _ _ g alien email role ids)
  have "site_grant_put s caller site g' role (Some ids) = (fst (site_grant_put s caller site g' role (Some ids)), s)" for g'
    using assms(1) by (auto simp: site_grant_put_def split: sum.splits)
  with GrantPutRpc assms(2) show ?thesis
    by (auto simp: site_grant_put_rpc_def split: sum.splits prod.splits) (metis snd_conv)+
next
  case (TransferOwnership _ _ target)
  have "map_option id_owner_iid (site_row (t_access s) site) \<noteq> Some caller"
    using assms(1) by (auto simp: site_grant_check_def Let_def split: if_splits)
  with TransferOwnership assms(2) show ?thesis
    by (auto simp: site_transfer_ownership_def Let_def split: option.splits)
qed (use assms in \<open>auto simp: site_grant_put_def site_grant_delete_def site_work_shift_put_def site_member_face_put_def
  site_member_face_del_def split: sum.splits\<close>)

section \<open>Outsiders\<close>

definition outsider :: "access \<Rightarrow> i64 \<Rightarrow> i64 \<Rightarrow> bool" where
  "outsider z k u \<longleftrightarrow> isl (site_grant_check z u k False)"

fun may_add :: "team_call \<Rightarrow> i64 \<Rightarrow> i64 \<Rightarrow> bool" where
  "may_add (GrantPut caller site g role ids) k u \<longleftrightarrow> site = k \<and> g = u"
| "may_add (GrantPutRpc caller site g alien email role ids) k u \<longleftrightarrow> site = k"
| "may_add _ k u \<longleftrightarrow> False"

lemma outsider_iff:
  "outsider z k u \<longleftrightarrow> (\<forall>row. site_row z k = Some row \<longrightarrow>
     \<not> caller_root_or_director z u \<and> id_owner_iid row \<noteq> u \<and> \<not> site_role_allows (unwrap_or [] (grant_role z k u)) False)"
  by (cases "site_row z k") (auto simp: outsider_def site_grant_check_def Let_def)

lemma outsider_kept:
  assumes "outsider z k u" "map_option id_owner_iid (site_row z' k) = map_option id_owner_iid (site_row z k)"
    and "caller_root_or_director z' u = caller_root_or_director z u" "grant_role z' k u = grant_role z k u \<or> grant_role z' k u = None"
  shows "outsider z' k u"
  using assms
  by (cases "site_row z k"; cases "site_row z' k") (auto simp: outsider_iff unwrap_or_def role_allows_iff)

lemma outsider_upsert: "outsider z k u \<Longrightarrow> \<not> (site = k \<and> g = u) \<Longrightarrow> outsider (grant_upsert site g role z) k u"
  by (rule outsider_kept) (auto simp: grant_role_upsert)

lemma outsider_delete:
  assumes "team_ok s" "outsider (t_access s) k u"
  shows "outsider (t_access (snd (site_grant_delete s caller site g))) k u"
proof -
  obtain r s' where del: "site_grant_delete s caller site g = (r, s')" by fastforce
  then show ?thesis
  proof (cases rule: site_grant_delete_cases)
    case (refused e)
    with assms del show ?thesis by simp
  next
    case (ok owner)
    obtain q where q: "q \<in> set (z_grant (t_access s))" "grant_of site g q" "\<not> gr_deleted q" "gr_role q \<noteq> ''owner''"
      using ok(5) by blast
    have "distinct (map grant_key (z_grant (t_access s)))" using assms(1) by (simp add: team_ok_def grants_ok_def)
    from grant_role_revoked [OF this q, of k u] show ?thesis
      unfolding del snd_conv ok(6) hr_cleanup_access
      by (intro outsider_kept [OF assms(2)]) (simp_all add: site_row_def caller_root_or_director_def split: if_splits)
  qed
qed

lemma outsider_transfer:
  assumes "outsider (t_access s) k u"
  shows "outsider (t_access (snd (site_transfer_ownership s caller site target))) k u"
proof -
  obtain r s' where tr: "site_transfer_ownership s caller site target = (r, s')" by fastforce
  then show ?thesis
  proof (cases rule: site_transfer_cases)
    case (refused e)
    with assms tr show ?thesis by simp
  next
    case (ok row role)
    let ?z = "set_owner site target (t_access s)"
    have ne: "\<not> (site = k \<and> (u = caller \<or> u = target))"
      using assms ok(2,3,6,7) by (auto simp: outsider_iff unwrap_or_def role_allows_iff)
    have "outsider ?z k u"
    proof (cases "site = k")
      case True
      with assms ok(2) ne show ?thesis by (auto simp: outsider_iff site_row_set_owner)
    next
      case False
      then have "map_option id_owner_iid (site_row ?z k) = map_option id_owner_iid (site_row (t_access s) k)"
        using site_row_id [of "t_access s" k] by (cases "site_row (t_access s) k") (auto simp: site_row_set_owner)
      then show ?thesis by (intro outsider_kept [OF assms]) simp_all
    qed
    then show ?thesis using ne by (auto simp: tr ok(8) intro!: outsider_upsert)
  qed
qed

lemma outsider_step:
  assumes "team_ok s" "outsider (t_access s) k u" "\<not> may_add c k u"
  shows "outsider (t_access (team_step e c s)) k u"
proof (cases c)
  case (GrantPut caller site g role ids)
  then show ?thesis using assms grant_put_access [of s caller site g role ids] by (auto intro: outsider_upsert)
next
  case (GrantPutRpc caller site g alien email role ids)
  then show ?thesis
    using assms grant_put_rpc_access [of "te_lower e" "te_render e" "te_pscan e" "te_iscan e" s caller site g alien email role ids]
    by (auto intro: outsider_upsert)
next
  case (HandlePut rnd now caller site raw)
  then show ?thesis using assms(2) by (simp add: outsider_def rename_rights)
qed (use assms in \<open>simp_all add: outsider_delete outsider_transfer work_shift_access face_access\<close>)

text \<open>Nobody slips in: whoever may not even read a site stays out over any history of calls that
  has no \<open>site_grant_put\<close> naming that user on the site (and none through the RPC, which may look the
  user up by email or handle), whatever other grants, transfers, renamings and shifts the history has.\<close>

theorem outsider_stays_out:
  assumes "team_ok s" and "outsider (t_access s) site u" and "\<forall>c\<in>set cs. \<not> may_add c site u"
  shows "outsider (t_access (fold (team_step e) cs s)) site u"
  using assms
proof (induction cs arbitrary: s)
  case (Cons c cs)
  then show ?case using outsider_step [of s site u c e] team_step_ok [of s e c] by simp
qed simp

section \<open>Examples\<close>

definition test_team_env :: team_env where
  "test_team_env = \<lparr> te_lower = to_lowercase, te_render = (\<lambda>_. []), te_pscan = (\<lambda>x. x), te_iscan = (\<lambda>x. x) \<rparr>"

theorem team_history_ok_witness:
  "team_ok test_team \<and> team_ok (fold (team_step test_team_env) [GrantDelete 50 1 60, GrantPut 50 1 60 ''staff'' (Some [''pagi''])] test_team)"
proof -
  have "grants_ok (t_access test_team)" "members_ok test_team" "shifts_ok test_team" "faces_ok test_team" by code_simp+
  then have "team_ok test_team" by (simp add: team_ok_def)
  then show ?thesis using team_history_ok by blast
qed

theorem owner_keeps_site_witness:
  "team_owner test_team 1 = Some 50 \<and>
   site_grant_check (t_access (fold (team_step test_team_env) [GrantDelete 60 1 50, TransferOwnership 60 1 60] test_team)) 50 1 True = Inr 50"
proof -
  have o: "team_owner test_team 1 = Some 50" by code_simp
  have "\<forall>c\<in>set [GrantDelete 60 1 50, TransferOwnership 60 1 60]. \<not> gives_away c 1 50" by simp
  from owner_keeps_site [OF o this, of test_team_env True] o show ?thesis by blast
qed

theorem refused_writer_changes_nothing_witness:
  "site_grant_check (t_access test_team) 70 1 True = Inl ''forbidden'' \<and>
   team_step test_team_env (GrantPut 70 1 70 ''manage'' None) test_team = test_team"
proof -
  have r: "site_grant_check (t_access test_team) 70 1 True = Inl ''forbidden''" by code_simp
  show ?thesis using r refused_writer_changes_nothing [OF r, of "GrantPut 70 1 70 ''manage'' None" test_team_env] by simp
qed

theorem outsider_stays_out_witness:
  "team_ok test_team \<and> outsider (t_access test_team) 1 70 \<and>
   outsider (t_access (fold (team_step test_team_env) [GrantPut 70 2 70 ''manage'' None, TransferOwnership 50 1 60] test_team)) 1 70"
proof -
  have "grants_ok (t_access test_team)" "members_ok test_team" "shifts_ok test_team" "faces_ok test_team" by code_simp+
  then have ok: "team_ok test_team" by (simp add: team_ok_def)
  have out: "outsider (t_access test_team) 1 70" by code_simp
  have "\<forall>c\<in>set [GrantPut 70 2 70 ''manage'' None, TransferOwnership 50 1 60]. \<not> may_add c 1 70" by simp
  from outsider_stays_out [OF ok out this, of test_team_env] ok out show ?thesis by blast
qed

end
