(* ===== verification/Team_Shifts.thy ===== *)
theory Team_Shifts
  imports Team_History
begin

text \<open>
  Work shifts are read back as they were saved: what \<open>site_work_shift_put\<close> stores for a site is what
  \<open>site_work_shifts_load\<close> lists, in the order of the request.
\<close>

definition shift_method :: "SiteWorkShift \<Rightarrow> string" where
  "shift_method x = (let m = trim (sw_attendance_method x) in if attendance_method_ok m then m else ''button'')"

definition shift_row :: "i64 \<Rightarrow> nat \<times> SiteWorkShift \<Rightarrow> WorkShiftRow" where
  "shift_row site p = \<lparr> ws_site_iid = site, ws_shift_id = trim (sw_id (snd p)), ws_name = trim (sw_name (snd p)),
     ws_attendance_method = shift_method (snd p), ws_is_active = True, ws_sort_order = of_nat (fst p), ws_deleted = False \<rparr>"

text \<open>The shifts of a request that are stored, with their positions.\<close>

definition kept_shifts :: "nat \<Rightarrow> SiteWorkShift list \<Rightarrow> (nat \<times> SiteWorkShift) list" where
  "kept_shifts n shifts = filter (\<lambda>p. trim (sw_id (snd p)) \<noteq> []) (enumerate n shifts)"

definition site_rows :: "i64 \<Rightarrow> team \<Rightarrow> WorkShiftRow set" where
  "site_rows site s = {w \<in> set (t_work_shift s). ws_site_iid w = site \<and> \<not> ws_deleted w}"

definition slot_rows :: "i64 \<Rightarrow> string \<Rightarrow> team \<Rightarrow> WorkShiftSlotRow list" where
  "slot_rows site i s = filter (\<lambda>r. wl_site_iid r = site \<and> wl_shift_id r = i) (t_slot s)"

lemma kept_shifts_Cons:
  "kept_shifts n (x # xs) = (if trim (sw_id x) = [] then [] else [(n, x)]) @ kept_shifts (Suc n) xs"
  by (simp add: kept_shifts_def)

lemma kept_shifts_ids: "map (\<lambda>p. trim (sw_id (snd p))) (kept_shifts n shifts) = kept_ids shifts"
  by (induction shifts arbitrary: n) (auto simp: kept_shifts_def kept_ids_def)

lemma kept_shifts_snd: "map snd (kept_shifts n shifts) = filter (\<lambda>x. trim (sw_id x) \<noteq> []) shifts"
  by (induction shifts arbitrary: n) (auto simp: kept_shifts_def)

lemma site_rows_upsert:
  "site_rows site (work_shift_upsert site i (trim (sw_name x)) (shift_method x) (of_nat n) s) =
     {w \<in> site_rows site s. ws_shift_id w \<noteq> i} \<union> {(shift_row site (n, x))\<lparr> ws_shift_id := i \<rparr>}"
proof -
  define new where "new = (shift_row site (n, x))\<lparr> ws_shift_id := i \<rparr>"
  define upd where "upd = (\<lambda>w :: WorkShiftRow. w\<lparr> ws_name := trim (sw_name x), ws_attendance_method := shift_method x, ws_is_active := True,
    ws_sort_order := of_nat n, ws_deleted := False \<rparr>)"
  define rows where "rows = upsert (shift_of site i) upd new (t_work_shift s)"
  have t: "t_work_shift (work_shift_upsert site i (trim (sw_name x)) (shift_method x) (of_nat n) s) = rows"
    by (simp add: rows_def work_shift_upsert_def shift_row_def new_def upd_def)
  have new: "ws_site_iid new = site" "ws_shift_id new = i" "\<not> ws_deleted new" by (simp_all add: new_def shift_row_def)
  have upd: "upd w = new" if "shift_of site i w" for w
    using that by (cases w) (auto simp: shift_of_def shift_row_def new_def upd_def)
  have "new \<in> set rows"
    unfolding rows_def using upsert_hit [of "shift_of site i" "\<lambda>w. w = new" upd new "t_work_shift s"] upd by auto
  moreover have elem: "w = new \<or> w \<in> set (t_work_shift s) \<and> \<not> shift_of site i w" if "w \<in> set rows" for w
    using upsert_elem [OF that [unfolded rows_def]] upd by blast
  moreover have "w \<in> set rows" if "w \<in> set (t_work_shift s)" "\<not> shift_of site i w" for w
    using that unfolding rows_def by (intro upsert_other)
  ultimately show ?thesis unfolding site_rows_def t new_def [symmetric] using new by (auto simp: shift_of_def)
qed

lemma slots_replace_rows:
  assumes "slots_replace site i slots s = Inr s'"
  shows "slot_rows site j s' = (if j = i then map (\<lambda>x. \<lparr> wl_site_iid = site, wl_shift_id = i, wl_slot = x \<rparr>) (kept_slots slots)
      else slot_rows site j s)"
    "site_rows site s' = site_rows site s"
proof -
  have s': "t_slot s' = filter (\<lambda>r. \<not> (wl_site_iid r = site \<and> wl_shift_id r = i)) (t_slot s) @
      map (\<lambda>x. \<lparr> wl_site_iid = site, wl_shift_id = i, wl_slot = x \<rparr>) (kept_slots slots)" "t_work_shift s' = t_work_shift s"
    using assms by (auto simp: slots_replace_def split: if_splits)
  show "site_rows site s' = site_rows site s" by (simp add: site_rows_def s')
  show "slot_rows site j s' = (if j = i then map (\<lambda>x. \<lparr> wl_site_iid = site, wl_shift_id = i, wl_slot = x \<rparr>) (kept_slots slots)
      else slot_rows site j s)"
    by (auto simp: slot_rows_def s' filter_map o_def intro: filter_cong)
qed

lemma work_shift_loop_rows:
  assumes "work_shift_loop site n shifts s = Inr s'" "distinct (kept_ids shifts)"
  shows "site_rows site s' = {w \<in> site_rows site s. ws_shift_id w \<notin> set (kept_ids shifts)} \<union> shift_row site ` set (kept_shifts n shifts) \<and>
    (\<forall>p\<in>set (kept_shifts n shifts). map wl_slot (slot_rows site (trim (sw_id (snd p))) s') = kept_slots (sw_slots (snd p))) \<and>
    (\<forall>i. i \<notin> set (kept_ids shifts) \<longrightarrow> slot_rows site i s' = slot_rows site i s)"
  using assms
proof (induction shifts arbitrary: n s)
  case Nil
  then show ?case by (simp add: kept_shifts_def kept_ids_def)
next
  case (Cons x xs)
  let ?i = "trim (sw_id x)"
  show ?case
  proof (cases "?i = []")
    case True
    with Cons show ?thesis by (simp add: Let_def kept_shifts_Cons kept_ids_def)
  next
    case False
    define u where "u = work_shift_upsert site ?i (trim (sw_name x)) (shift_method x) (of_nat n) s"
    obtain t where t: "slots_replace site ?i (sw_slots x) u = Inr t" "work_shift_loop site (Suc n) xs t = Inr s'"
      using Cons.prems(1) False by (auto simp: Let_def shift_method_def u_def split: sum.splits)
    have ids: "kept_ids (x # xs) = ?i # kept_ids xs" "?i \<notin> set (kept_ids xs)" "distinct (kept_ids xs)"
      using Cons.prems(2) False by (simp_all add: kept_ids_def)
    note IH = Cons.IH [OF t(2) ids(3)]
    have u: "site_rows site u = {w \<in> site_rows site s. ws_shift_id w \<noteq> ?i} \<union> {shift_row site (n, x)}"
      unfolding u_def site_rows_upsert by (simp add: shift_row_def)
    have id: "ws_shift_id (shift_row site (n, x)) = ?i" by (simp add: shift_row_def)
    have "site_rows site s' = {w \<in> site_rows site s. ws_shift_id w \<notin> set (kept_ids (x # xs))} \<union>
        shift_row site ` set (kept_shifts n (x # xs))"
      using IH u id ids False by (auto simp: slots_replace_rows [OF t(1)] kept_shifts_Cons)
    moreover have "slot_rows site j u = slot_rows site j s" for j by (simp add: slot_rows_def u_def work_shift_upsert_def)
    ultimately show ?thesis
      using IH ids False by (simp add: slots_replace_rows(1) [OF t(1)] kept_shifts_Cons o_def)
  qed
qed

text \<open>Stored and listed shifts correspond: ids and names trimmed, an unknown attendance method read as
  \<open>button\<close>, the slots with an id, bounded, in the order of their start.\<close>

definition same_shift :: "SiteWorkShift \<Rightarrow> SiteWorkShift \<Rightarrow> bool" where
  "same_shift l x \<longleftrightarrow> sw_id l = trim (sw_id x) \<and> sw_name l = trim (sw_name x) \<and> sw_attendance_method l = shift_method x \<and>
     mset (sw_slots l) = mset (kept_slots (sw_slots x)) \<and>
     sorted_wrt (\<lambda>a b. sint (sl_start_day a) \<le> sint (sl_start_day b)) (sw_slots l)"

lemma shift_rows_sorted:
  assumes "n + length shifts \<le> 2 ^ 31"
  shows "sorted_wrt (\<lambda>a b. sint (ws_sort_order a) < sint (ws_sort_order b)) (map (shift_row site) (kept_shifts n shifts))"
proof -
  have pos: "sint (of_nat k :: i32) = int k" if "k < 2 ^ 31" for k
    using that by (simp add: signed_of_nat signed_take_bit_int_eq_self_iff)
  have "sorted_wrt (\<lambda>a b. fst a < fst b) (enumerate n shifts)"
    by (auto simp: sorted_wrt_iff_nth_less nth_enumerate_eq)
  then have "sorted_wrt (\<lambda>a b. fst a < fst b) (kept_shifts n shifts)" unfolding kept_shifts_def by (rule sorted_wrt_filter)
  moreover have "fst p < 2 ^ 31" if "p \<in> set (kept_shifts n shifts)" for p
    using that assms by (auto simp: kept_shifts_def in_set_enumerate_eq)
  ultimately show ?thesis
    by (auto simp: sorted_wrt_map shift_row_def pos elim!: sorted_wrt_mono_rel [rotated])
qed

definition shown_shift :: "(WorkShiftSlotRow list \<Rightarrow> WorkShiftSlotRow list) \<Rightarrow> team \<Rightarrow> i64 \<Rightarrow> WorkShiftRow \<Rightarrow> SiteWorkShift" where
  "shown_shift slot_order s site w = \<lparr> sw_id = ws_shift_id w, sw_name = ws_name w, sw_attendance_method = ws_attendance_method w,
     sw_slots = map wl_slot (sort_key (\<lambda>r. sint (sl_start_day (wl_slot r))) (sort_key (\<lambda>r. sint (sl_start_min (wl_slot r)))
       (slot_order (slot_rows site (ws_shift_id w) s)))) \<rparr>"

lemma load_shown:
  "site_work_shifts_load shift_order slot_order s site = map (shown_shift slot_order s site)
     (sort_key (\<lambda>w. sint (ws_sort_order w))
       (shift_order (filter (\<lambda>w. ws_site_iid w = site \<and> \<not> ws_deleted w \<and> ws_is_active w) (t_work_shift s))))"
  by (simp add: site_work_shifts_load_def shown_shift_def slot_rows_def)

lemma loaded_rows:
  assumes "shifts_ok s'" "permuting shift_order" "length shifts \<le> 2 ^ 31"
    and "site_rows site s' = shift_row site ` set (kept_shifts 0 shifts)"
  shows "sort_key (\<lambda>w. sint (ws_sort_order w))
      (shift_order (filter (\<lambda>w. ws_site_iid w = site \<and> \<not> ws_deleted w \<and> ws_is_active w) (t_work_shift s'))) =
    map (shift_row site) (kept_shifts 0 shifts)" (is "sort_key ?k (shift_order ?L) = ?R")
proof (rule sort_key_inj_key_eq)
  have "sorted_wrt (<) (map ?k ?R)" using shift_rows_sorted [of 0 shifts site] assms(3) by (simp add: sorted_wrt_map)
  then have R: "distinct (map ?k ?R)" "sorted (map ?k ?R)" by (simp_all only: strict_sorted_iff)
  have "set ?L = set ?R" using assms(1,4) by (auto simp: site_rows_def shifts_ok_def set_eq_iff)
  moreover have "distinct ?L" using assms(1) by (simp add: shifts_ok_def distinct_map)
  moreover have "distinct ?R" using R(1) by (simp only: distinct_map)
  ultimately show eq: "mset (shift_order ?L) = mset ?R"
    using permuting_mset [OF assms(2), of ?L] by (simp only: set_eq_iff_mset_eq_distinct)
  show "inj_on ?k (set (shift_order ?L))"
    using R(1) mset_eq_setD [OF eq] by (simp only: distinct_map)
  show "sorted (map ?k ?R)" by (rule R(2))
qed

lemma loaded_slots:
  assumes "permuting slot_order"
  shows "mset (map wl_slot (sort_key (\<lambda>r. sint (sl_start_day (wl_slot r))) (sort_key (\<lambda>r. sint (sl_start_min (wl_slot r))) (slot_order rows)))) =
      mset (map wl_slot rows)"
    "sorted_wrt (\<lambda>a b. sint (sl_start_day a) \<le> sint (sl_start_day b))
      (map wl_slot (sort_key (\<lambda>r. sint (sl_start_day (wl_slot r))) (sort_key (\<lambda>r. sint (sl_start_min (wl_slot r))) (slot_order rows))))"
proof -
  show "mset (map wl_slot (sort_key (\<lambda>r. sint (sl_start_day (wl_slot r))) (sort_key (\<lambda>r. sint (sl_start_min (wl_slot r))) (slot_order rows)))) =
      mset (map wl_slot rows)" using permuting_mset [OF assms, of rows] by simp
  have "sorted (map (\<lambda>r. sint (sl_start_day (wl_slot r))) (sort_key (\<lambda>r. sint (sl_start_day (wl_slot r))) xs))" for xs
    by (rule sorted_sort_key)
  then show "sorted_wrt (\<lambda>a b. sint (sl_start_day a) \<le> sint (sl_start_day b))
      (map wl_slot (sort_key (\<lambda>r. sint (sl_start_day (wl_slot r))) (sort_key (\<lambda>r. sint (sl_start_min (wl_slot r))) (slot_order rows))))"
    by (simp add: sorted_wrt_map)
qed

lemma retired_rows:
  assumes "w \<in> set (t_work_shift (work_shift_retire site keep s))" "ws_site_iid w = site" "ws_shift_id w \<notin> set keep"
  shows "ws_deleted w"
proof -
  let ?f = "\<lambda>v. if ws_site_iid v = site \<and> \<not> ws_deleted v \<and> ws_shift_id v \<notin> set keep
    then v\<lparr> ws_is_active := False, ws_deleted := True \<rparr> else v"
  have "t_work_shift (work_shift_retire site keep s) = map ?f (t_work_shift s)" by (simp add: work_shift_retire_def)
  with assms(1) have "w \<in> ?f ` set (t_work_shift s)" by (simp only: set_map)
  then obtain v where "w = ?f v" by blast
  then show ?thesis using assms(2,3)
    by (cases "ws_site_iid v = site \<and> \<not> ws_deleted v \<and> ws_shift_id v \<notin> set keep") auto
qed

lemma work_shift_loop_returns:
  "\<forall>x\<in>set shifts. distinct (map sl_id (kept_slots (sw_slots x))) \<Longrightarrow> \<exists>s'. work_shift_loop site n shifts s = Inr s'"
  by (induction shifts arbitrary: n s) (auto simp: Let_def slots_replace_def)

text \<open>Work shifts are read back as saved: a caller who may write, with distinct shift ids and
  distinct slot ids in every shift, always succeeds, and the shifts then listed for the site are those
  of the request that have an id, in its order, whatever was stored before and whatever the collation.\<close>

theorem work_shift_roundtrip:
  assumes "team_ok s" and "site_grant_check (t_access s) caller site True = Inr owner"
    and "distinct (kept_ids shifts)" and "\<forall>x\<in>set shifts. distinct (map sl_id (kept_slots (sw_slots x)))"
    and "length shifts \<le> 2 ^ 31" and "permuting shift_order" and "permuting slot_order"
  shows "\<exists>s'. site_work_shift_put s caller site shifts = (Inr (), s') \<and>
    list_all2 same_shift (site_work_shifts_load shift_order slot_order s' site) (filter (\<lambda>x. trim (sw_id x) \<noteq> []) shifts)"
proof -
  let ?r = "work_shift_retire site (kept_ids shifts) s" and ?ps = "kept_shifts 0 shifts"
  obtain s' where loop: "work_shift_loop site 0 shifts ?r = Inr s'" using work_shift_loop_returns [OF assms(4)] by blast
  have put: "site_work_shift_put s caller site shifts = (Inr (), s')" using loop assms(2) by (simp add: site_work_shift_put_def)
  have ok: "shifts_ok s'" using team_ok_work_shift_put [OF assms(1), of caller site shifts] by (simp add: put team_ok_def)
  have "{w \<in> site_rows site ?r. ws_shift_id w \<notin> set (kept_ids shifts)} = {}" using retired_rows by (auto simp: site_rows_def)
  then have rows: "site_rows site s' = shift_row site ` set ?ps"
    and slots: "\<forall>p\<in>set ?ps. map wl_slot (slot_rows site (trim (sw_id (snd p))) s') = kept_slots (sw_slots (snd p))"
    using work_shift_loop_rows [OF loop assms(3)] by auto
  have "same_shift (shown_shift slot_order s' site (shift_row site p)) (snd p)" if "p \<in> set ?ps" for p
    using slots that loaded_slots [OF assms(7), of "slot_rows site (trim (sw_id (snd p))) s'"]
    by (simp add: same_shift_def shown_shift_def shift_row_def)
  then have "list_all2 same_shift (map (shown_shift slot_order s' site \<circ> shift_row site) ?ps) (map snd ?ps)"
    by (simp add: list_all2_conv_all_nth)
  moreover have "map snd ?ps = filter (\<lambda>x. trim (sw_id x) \<noteq> []) shifts"
    using kept_shifts_snd .
  ultimately show ?thesis using put
    by (auto simp: load_shown loaded_rows [OF ok assms(6,5) rows])
qed

section \<open>Examples\<close>

definition test_shifts :: "SiteWorkShift list" where
  "test_shifts = [\<lparr> sw_id = '' sore '', sw_name = ''Sore'', sw_attendance_method = ''geo'',
     sw_slots = [\<lparr> sl_id = ''a'', sl_start_day = 9, sl_start_min = 900, sl_end_day = 1, sl_end_min = 5000 \<rparr>] \<rparr>,
     \<lparr> sw_id = ''pagi'', sw_name = ''Pagi'', sw_attendance_method = ''gps'', sw_slots = [] \<rparr>]"

theorem work_shift_roundtrip_witness:
  "site_grant_check (t_access test_team) 50 1 True = Inr 50 \<and> distinct (kept_ids test_shifts) \<and>
   (\<exists>s'. site_work_shift_put test_team 50 1 test_shifts = (Inr (), s') \<and>
     list_all2 same_shift (site_work_shifts_load rev (\<lambda>x. x) s' 1) (filter (\<lambda>x. trim (sw_id x) \<noteq> []) test_shifts))"
proof -
  have "grants_ok (t_access test_team)" "members_ok test_team" "shifts_ok test_team" "faces_ok test_team" by code_simp+
  then have ok: "team_ok test_team" by (simp add: team_ok_def)
  have w: "site_grant_check (t_access test_team) 50 1 True = Inr 50" "distinct (kept_ids test_shifts)" by code_simp+
  have "\<forall>x\<in>set test_shifts. distinct (map sl_id (kept_slots (sw_slots x)))" "length test_shifts \<le> 2 ^ 31"
    by (simp_all add: test_shifts_def kept_slots_def slot_bound_def)
  from work_shift_roundtrip [OF ok w this permuting_rev permuting_id] w show ?thesis by blast
qed

end
