(* ===== verification/Site_Queue.thy ===== *)
theory Site_Queue
  imports Site_Access Guest_Display Sql_Tables
begin

text \<open>
  The waiting rooms of a site: \<open>servers/crates/mod_site/src/queue_csa.rs\<close> over the tables
  \<open>site.queue\<close>, \<open>site.queue_run\<close> and \<open>site.queue_ticket\<close>. A queue is served in runs; a run numbers its
  tickets from 1 and at most one run of a queue is open. A call has one clock reading, \<open>qe_now\<close>, and
  draws the ids it inserts. Third-party parts are fields of \<open>queue_env\<close>: the JSON texts of PostgreSQL
  and \<open>serde_json\<close>, \<open>chrono\<close>'s parser of times and its time zones (a day of a zone is a number, an
  instant is found from day, hour and minute if it exists once). Time stamps nothing reads are left
  out; the ticket a staff call answers with is the row. A failed statement outside a transaction
  keeps what earlier statements stored.
\<close>

record QueueRow =
  qu_site_iid :: i64
  qu_queue_id :: i64
  qu_owner_iid :: i64
  qu_name :: string
  qu_description :: string
  qu_mode :: string
  qu_prefix :: string
  qu_last_ticket_no :: i32
  qu_serving_ticket_no :: i32
  qu_is_active :: bool
  qu_fields :: Value
  qu_take_online :: bool
  qu_reset_policy :: Value
  qu_sort_order :: i32
  qu_meta_json :: Value
  qu_deleted :: bool

record RunRow =
  rn_site_iid :: i64
  rn_run_id :: i64
  rn_queue_id :: i64
  rn_owner_iid :: i64
  rn_next_number :: i32
  rn_serving_number :: i32
  rn_status :: string
  rn_reset_reason :: string
  rn_created :: int
  rn_closed :: "int option"

record TicketRow =
  tk_site_iid :: i64
  tk_ticket_id :: i64
  tk_queue_id :: i64
  tk_run_id :: i64
  tk_owner_iid :: i64
  tk_ticket_no :: i32
  tk_track_token :: string
  tk_display_label :: string
  tk_guest_name :: string
  tk_guest_phone :: string
  tk_answers :: Value
  tk_status :: string
  tk_called_at :: "int option"
  tk_done_at :: "int option"
  tk_created :: int
  tk_deleted :: bool

record queues =
  qs_access :: access
  qs_queue :: "QueueRow list"
  qs_run :: "RunRow list"
  qs_ticket :: "TicketRow list"

record queue_env =
  qe_now :: int
  qe_run_id :: i64
  qe_ticket_id :: i64
  qe_token_id :: i64
  qe_suffix :: u64
  qe_pg_json :: "string \<Rightarrow> Value option"
  qe_from_str :: "string \<Rightarrow> Value option"
  qe_to_string :: "Value \<Rightarrow> string"
  qe_parse_time :: "string \<Rightarrow> (nat \<times> nat) option"
  qe_tz_known :: "string \<Rightarrow> bool"
  qe_tz_day :: "string \<Rightarrow> int \<Rightarrow> int"
  qe_tz_at :: "string \<Rightarrow> int \<Rightarrow> nat \<Rightarrow> nat \<Rightarrow> int option"

section \<open>Labels, answers and tokens\<close>

definition DEFAULT_QUEUE_ID :: i64 where "DEFAULT_QUEUE_ID = 1"

definition pad_zeros :: "nat \<Rightarrow> string \<Rightarrow> string" where
  "pad_zeros n s = replicate (n - length s) CHR ''0'' @ s"

definition display_label_for_ticket :: "string \<Rightarrow> i32 \<Rightarrow> string" where
  "display_label_for_ticket prefix ticket_no =
     (let num = pad_zeros 3 (show_nat (nat (sint (smax ticket_no 0)))); p = trim prefix
      in if p = [] then num else p @ ''-'' @ num)"

fun validate_fields :: "(string \<times> Value) list \<Rightarrow> Value list \<Rightarrow> string + unit" where
  "validate_fields answers [] = Inr ()"
| "validate_fields answers (field # flds) =
     (let name = trim (unwrap_or [] (Option.bind (get_val field ''name'') as_str))
      in if name = [] then validate_fields answers flds
         else let required = unwrap_or False (Option.bind (get_val field ''required'') as_bool);
                  txt = unwrap_or [] (map_option trim (Option.bind (map_of answers name) as_str))
              in if required \<and> txt = []
                 then Inl (unwrap_or name (Option.bind (get_val field ''label'') as_str) @ '' wajib diisi'')
                 else validate_fields answers flds)"

definition validate_queue_answers :: "Value \<Rightarrow> (string \<times> Value) list \<Rightarrow> string + unit" where
  "validate_queue_answers flds answers = validate_fields answers (unwrap_or [] (as_array flds))"

definition hex_digit :: "nat \<Rightarrow> char" where
  "hex_digit n = (if n < 10 then char_of (n + 48) else char_of (n + 87))"

fun show_hex :: "nat \<Rightarrow> string" where
  "show_hex n = (if n < 16 then [hex_digit n] else show_hex (n div 16) @ [hex_digit (n mod 16)])"

declare show_hex.simps [simp del]

definition new_track_token :: "queue_env \<Rightarrow> string" where
  "new_track_token e = ''qt_'' @ show_hex (unat (qe_token_id e)) @ pad_zeros 16 (show_hex (unat (qe_suffix e)))"

definition resolve_queue_id :: "i64 \<Rightarrow> i64" where
  "resolve_queue_id queue_id = (if 0 <s queue_id then queue_id else DEFAULT_QUEUE_ID)"

section \<open>Runs\<close>

definition queue_of :: "i64 \<Rightarrow> i64 \<Rightarrow> QueueRow \<Rightarrow> bool" where
  "queue_of site q r \<longleftrightarrow> qu_site_iid r = site \<and> qu_queue_id r = q"

definition load_queue_row :: "queues \<Rightarrow> i64 \<Rightarrow> i64 \<Rightarrow> string + QueueRow" where
  "load_queue_row s site q =
     (case find (\<lambda>r. queue_of site q r \<and> \<not> qu_deleted r) (qs_queue s) of None \<Rightarrow> Inl ''queue not found'' | Some r \<Rightarrow> Inr r)"

definition is_open :: "i64 \<Rightarrow> i64 \<Rightarrow> RunRow \<Rightarrow> bool" where
  "is_open site q r \<longleftrightarrow> rn_site_iid r = site \<and> rn_queue_id r = q \<and> rn_status r = ''open'' \<and> rn_closed r = None"

definition open_run :: "queues \<Rightarrow> i64 \<Rightarrow> i64 \<Rightarrow> RunRow option" where
  "open_run s site q =
     (case sort_key (\<lambda>r. - rn_created r) (filter (is_open site q) (qs_run s)) of [] \<Rightarrow> None | r # _ \<Rightarrow> Some r)"

definition run_of :: "i64 \<Rightarrow> i64 \<Rightarrow> RunRow \<Rightarrow> bool" where
  "run_of site run r \<longleftrightarrow> rn_site_iid r = site \<and> rn_run_id r = run"

definition close_run :: "int \<Rightarrow> i64 \<Rightarrow> i64 \<Rightarrow> string \<Rightarrow> RunRow \<Rightarrow> RunRow" where
  "close_run now site q reason r =
     (if is_open site q r then r\<lparr> rn_status := ''closed'', rn_closed := Some now, rn_reset_reason := reason \<rparr> else r)"

definition close_runs :: "int \<Rightarrow> i64 \<Rightarrow> i64 \<Rightarrow> string \<Rightarrow> queues \<Rightarrow> queues" where
  "close_runs now site q reason s = s\<lparr> qs_run := map (close_run now site q reason) (qs_run s) \<rparr>"

definition open_new_run :: "queue_env \<Rightarrow> queues \<Rightarrow> i64 \<Rightarrow> i64 \<Rightarrow> i64 \<Rightarrow> string \<Rightarrow> (string + RunRow) \<times> queues" where
  "open_new_run e s site q owner reason =
     (let s1 = close_runs (qe_now e) site q reason s;
          run = \<lparr> rn_site_iid = site, rn_run_id = qe_run_id e, rn_queue_id = q, rn_owner_iid = owner, rn_next_number = 1,
            rn_serving_number = 0, rn_status = ''open'', rn_reset_reason = reason, rn_created = qe_now e, rn_closed = None \<rparr>
      in if list_ex (run_of site (qe_run_id e)) (qs_run s) then (Inl ''duplicate key'', s)
         else if \<not> list_ex (queue_of site q) (qs_queue s) then (Inl ''foreign key'', s)
         else (Inr run, s1\<lparr> qs_run := qs_run s1 @ [run], qs_queue := map (\<lambda>r. if queue_of site q r
                then r\<lparr> qu_last_ticket_no := 0, qu_serving_ticket_no := 0 \<rparr> else r) (qs_queue s1) \<rparr>))"

definition day_boundary :: "queue_env \<Rightarrow> string \<Rightarrow> string \<Rightarrow> string + int" where
  "day_boundary e tz at_hhmm =
     (case qe_parse_time e at_hhmm of None \<Rightarrow> Inl ''bad time'' | Some (h, m) \<Rightarrow>
        let day = qe_tz_day e tz (qe_now e)
        in case qe_tz_at e tz day h m of None \<Rightarrow> Inl ''bad boundary'' | Some today \<Rightarrow>
             if today \<le> qe_now e then Inr today
             else case qe_tz_at e tz (day - 1) h m of None \<Rightarrow> Inl ''bad boundary'' | Some y \<Rightarrow> Inr y)"

definition policy_tz :: "queue_env \<Rightarrow> Value \<Rightarrow> string" where
  "policy_tz e policy =
     (let tz = unwrap_or ''Asia/Jakarta'' (Option.bind (get_val policy ''timezone'') as_str)
      in if qe_tz_known e tz then tz else ''Asia/Jakarta'')"

definition policy_boundary :: "queue_env \<Rightarrow> Value \<Rightarrow> string + int" where
  "policy_boundary e policy =
     day_boundary e (policy_tz e policy) (unwrap_or ''00:00'' (Option.bind (get_val policy ''at'') as_str))"

definition is_daily :: "Value \<Rightarrow> bool" where
  "is_daily policy \<longleftrightarrow> Option.bind (get_val policy ''mode'') as_str = Some ''daily''"

definition maybe_daily_reset :: "queue_env \<Rightarrow> queues \<Rightarrow> i64 \<Rightarrow> i64 \<Rightarrow> i64 \<Rightarrow> Value \<Rightarrow> (string + unit) \<times> queues" where
  "maybe_daily_reset e s site q owner policy =
     (if \<not> is_daily policy then (Inr (), s)
      else case policy_boundary e policy of Inl err \<Rightarrow> (Inl err, s) | Inr boundary \<Rightarrow>
        let created = (case open_run s site q of None \<Rightarrow> qe_now e | Some r \<Rightarrow> rn_created r)
        in if created < boundary then
             (case open_new_run e s site q owner ''daily'' of (Inl err, s') \<Rightarrow> (Inl err, s') | (Inr _, s') \<Rightarrow> (Inr (), s'))
           else (Inr (), s))"

definition ensure_open_run :: "queue_env \<Rightarrow> queues \<Rightarrow> i64 \<Rightarrow> i64 \<Rightarrow> i64 \<Rightarrow> Value \<Rightarrow> (string + RunRow) \<times> queues" where
  "ensure_open_run e s site q owner policy =
     (case maybe_daily_reset e s site q owner policy of
        (Inl err, s1) \<Rightarrow> (Inl err, s1)
      | (Inr _, s1) \<Rightarrow> (case open_run s1 site q of Some r \<Rightarrow> (Inr r, s1) | None \<Rightarrow> open_new_run e s1 site q owner ''open''))"

definition bump_run_after_ticket :: "i64 \<Rightarrow> i64 \<Rightarrow> i32 \<Rightarrow> i64 \<Rightarrow> queues \<Rightarrow> string + queues" where
  "bump_run_after_ticket site run ticket_no q s =
     (if 2 ^ 31 \<le> sint ticket_no + 1 then Inl ''integer out of range''
      else Inr (s\<lparr> qs_run := map (\<lambda>r. if run_of site run r then r\<lparr> rn_next_number := smax (rn_next_number r) (ticket_no + 1) \<rparr> else r) (qs_run s),
             qs_queue := map (\<lambda>r. if queue_of site q r then r\<lparr> qu_last_ticket_no := smax (qu_last_ticket_no r) ticket_no \<rparr> else r) (qs_queue s) \<rparr>))"

definition set_run_serving :: "i64 \<Rightarrow> i64 \<Rightarrow> i64 \<Rightarrow> i32 \<Rightarrow> queues \<Rightarrow> queues" where
  "set_run_serving site run q ticket_no s = s\<lparr>
     qs_run := map (\<lambda>r. if run_of site run r then r\<lparr> rn_serving_number := ticket_no \<rparr> else r) (qs_run s),
     qs_queue := map (\<lambda>r. if queue_of site q r then r\<lparr> qu_serving_ticket_no := ticket_no \<rparr> else r) (qs_queue s) \<rparr>"

section \<open>Rights\<close>

definition site_grant_queue_staff :: "access \<Rightarrow> i64 \<Rightarrow> i64 \<Rightarrow> string + i64" where
  "site_grant_queue_staff z caller site =
     (case site_row z site of None \<Rightarrow> Inl ''site not found'' | Some row \<Rightarrow>
        if id_owner_iid row = caller then Inr (id_owner_iid row)
        else if site_role_rank ''staff'' \<le> site_role_rank (unwrap_or [] (grant_role z site caller)) then Inr (id_owner_iid row)
        else Inl ''forbidden'')"

definition queue_site_owner :: "access \<Rightarrow> i64 \<Rightarrow> string + i64" where
  "queue_site_owner z site = (case site_row z site of None \<Rightarrow> Inl ''site not found'' | Some row \<Rightarrow> Inr (id_owner_iid row))"

section \<open>Staff calls\<close>

record SiteQueue =
  sq_queue_id :: i64
  sq_name :: string
  sq_description :: string
  sq_mode :: string
  sq_prefix :: string
  sq_last_ticket_no :: i32
  sq_serving_ticket_no :: i32
  sq_is_active :: bool
  sq_fields_json :: string
  sq_take_online :: bool
  sq_reset_policy_json :: string
  sq_sort_order :: i32
  sq_meta_json :: string

definition DEFAULT_RESET :: string where
  "DEFAULT_RESET = ''{\"mode\":\"daily\",\"at\":\"00:00\",\"timezone\":\"Asia/Jakarta\"}''"

definition or_text :: "string \<Rightarrow> string \<Rightarrow> string" where
  "or_text d t = (if trim t = [] then d else t)"

definition site_queue_put :: "queue_env \<Rightarrow> queues \<Rightarrow> i64 \<Rightarrow> i64 \<Rightarrow> SiteQueue option \<Rightarrow> (string + i64) \<times> queues" where
  "site_queue_put e s caller site req =
     (case req of None \<Rightarrow> (Inl ''queue required'', s) | Some queue \<Rightarrow>
      case site_grant_check (qs_access s) caller site True of Inl err \<Rightarrow> (Inl err, s) | Inr owner \<Rightarrow>
        let q = (if 0 <s sq_queue_id queue then sq_queue_id queue else DEFAULT_QUEUE_ID)
        in case (varchar 32 (if sq_mode queue = [] then ''fifo'' else sq_mode queue), varchar 16 (sq_prefix queue),
                 qe_pg_json e (or_text ''[]'' (sq_fields_json queue)), qe_pg_json e (or_text DEFAULT_RESET (sq_reset_policy_json queue)),
                 qe_pg_json e (or_text ''{}'' (sq_meta_json queue))) of
             (Some mode, Some prefix, Some flds, Some reset, Some meta) \<Rightarrow>
               (Inr q, s\<lparr> qs_queue := upsert (queue_of site q)
                  (\<lambda>r. r\<lparr> qu_name := trim (sq_name queue), qu_description := trim (sq_description queue), qu_mode := mode,
                     qu_prefix := prefix, qu_is_active := sq_is_active queue, qu_fields := flds, qu_take_online := sq_take_online queue,
                     qu_reset_policy := reset, qu_sort_order := sq_sort_order queue, qu_meta_json := meta, qu_deleted := False \<rparr>)
                  \<lparr> qu_site_iid = site, qu_queue_id = q, qu_owner_iid = owner, qu_name = trim (sq_name queue),
                    qu_description = trim (sq_description queue), qu_mode = mode, qu_prefix = prefix,
                    qu_last_ticket_no = sq_last_ticket_no queue, qu_serving_ticket_no = sq_serving_ticket_no queue,
                    qu_is_active = sq_is_active queue, qu_fields = flds, qu_take_online = sq_take_online queue,
                    qu_reset_policy = reset, qu_sort_order = sq_sort_order queue, qu_meta_json = meta, qu_deleted = False \<rparr> (qs_queue s) \<rparr>)
           | _ \<Rightarrow> (Inl ''bad column value'', s))"

definition ticket_of :: "i64 \<Rightarrow> i64 \<Rightarrow> i64 \<Rightarrow> TicketRow \<Rightarrow> bool" where
  "ticket_of site q run t \<longleftrightarrow> tk_site_iid t = site \<and> tk_queue_id t = q \<and> tk_run_id t = run \<and> \<not> tk_deleted t"

definition waiting :: "i64 \<Rightarrow> i64 \<Rightarrow> i64 \<Rightarrow> queues \<Rightarrow> TicketRow list" where
  "waiting site q run s =
     sort_key (\<lambda>t. sint (tk_ticket_no t)) (filter (\<lambda>t. ticket_of site q run t \<and> tk_status t = ''waiting'') (qs_ticket s))"

definition skip_called :: "int \<Rightarrow> i64 \<Rightarrow> i64 \<Rightarrow> i64 \<Rightarrow> queues \<Rightarrow> queues" where
  "skip_called now site q run s = s\<lparr> qs_ticket := map (\<lambda>t. if ticket_of site q run t \<and> tk_status t \<in> set [''called'', ''serving'']
     then t\<lparr> tk_status := ''skipped'', tk_done_at := Some now \<rparr> else t) (qs_ticket s) \<rparr>"

definition call_ticket :: "int \<Rightarrow> i64 \<Rightarrow> i64 \<Rightarrow> queues \<Rightarrow> queues" where
  "call_ticket now site ticket_id s = s\<lparr> qs_ticket := map (\<lambda>t. if tk_site_iid t = site \<and> tk_ticket_id t = ticket_id
     then t\<lparr> tk_status := ''called'', tk_called_at := Some now \<rparr> else t) (qs_ticket s) \<rparr>"

definition site_queue_call_next :: "queue_env \<Rightarrow> queues \<Rightarrow> i64 \<Rightarrow> i64 \<Rightarrow> i64 \<Rightarrow> (string + TicketRow) \<times> queues" where
  "site_queue_call_next e s caller site queue_id =
     (case site_grant_queue_staff (qs_access s) caller site of Inl err \<Rightarrow> (Inl err, s) | Inr owner \<Rightarrow>
      let q = resolve_queue_id queue_id
      in case load_queue_row s site q of Inl err \<Rightarrow> (Inl err, s) | Inr qrow \<Rightarrow>
        case ensure_open_run e s site q owner (qu_reset_policy qrow) of (Inl err, s1) \<Rightarrow> (Inl err, s1) | (Inr run, s1) \<Rightarrow>
          let s2 = skip_called (qe_now e) site q (rn_run_id run) s1
          in case waiting site q (rn_run_id run) s2 of [] \<Rightarrow> (Inl ''no waiting tickets'', s1) | row # _ \<Rightarrow>
               (Inr row, set_run_serving site (rn_run_id run) q (tk_ticket_no row)
                  (call_ticket (qe_now e) site (tk_ticket_id row) s2)))"

definition site_queue_advance_serving :: "queue_env \<Rightarrow> queues \<Rightarrow> i64 \<Rightarrow> i64 \<Rightarrow> i64 \<Rightarrow> (string + i32) \<times> queues" where
  "site_queue_advance_serving e s caller site queue_id =
     (case site_queue_call_next e s caller site queue_id of
        (Inl err, s') \<Rightarrow> (Inl err, s') | (Inr t, s') \<Rightarrow> (Inr (tk_ticket_no t), s'))"

definition with_status :: "int \<Rightarrow> string \<Rightarrow> TicketRow \<Rightarrow> TicketRow" where
  "with_status now status t = t\<lparr> tk_status := status,
     tk_called_at := (if status \<in> set [''called'', ''serving''] \<and> tk_called_at t = None then Some now else tk_called_at t),
     tk_done_at := (if status \<in> set [''done'', ''skipped'', ''cancelled''] then Some now else tk_done_at t) \<rparr>"

definition site_queue_ticket_set_status ::
  "queue_env \<Rightarrow> queues \<Rightarrow> i64 \<Rightarrow> i64 \<Rightarrow> i64 \<Rightarrow> i64 \<Rightarrow> string \<Rightarrow> (string + TicketRow) \<times> queues" where
  "site_queue_ticket_set_status e s caller site queue_id ticket_id req_status =
     (case site_grant_queue_staff (qs_access s) caller site of Inl err \<Rightarrow> (Inl err, s) | Inr _ \<Rightarrow>
      let q = resolve_queue_id queue_id; status = to_lowercase (trim req_status);
          hit = (\<lambda>t. tk_site_iid t = site \<and> tk_ticket_id t = ticket_id \<and> tk_queue_id t = q \<and> \<not> tk_deleted t)
      in case find hit (qs_ticket s) of None \<Rightarrow> (Inl ''ticket not found'', s) | Some old \<Rightarrow>
           if varchar 16 status = None then (Inl ''value too long'', s)
           else let row = with_status (qe_now e) status old;
                    s1 = s\<lparr> qs_ticket := map (\<lambda>t. if hit t then with_status (qe_now e) status t else t) (qs_ticket s) \<rparr>
                in (Inr row, if status = ''called'' \<or> status = ''serving''
                      then set_run_serving site (tk_run_id row) q (tk_ticket_no row) s1 else s1))"

definition site_queue_reset :: "queue_env \<Rightarrow> queues \<Rightarrow> i64 \<Rightarrow> i64 \<Rightarrow> i64 \<Rightarrow> (string + i64) \<times> queues" where
  "site_queue_reset e s caller site queue_id =
     (case site_grant_check (qs_access s) caller site True of Inl err \<Rightarrow> (Inl err, s) | Inr owner \<Rightarrow>
        case open_new_run e s site (resolve_queue_id queue_id) owner ''manual'' of
          (Inl err, s') \<Rightarrow> (Inl err, s') | (Inr run, s') \<Rightarrow> (Inr (rn_run_id run), s'))"

text \<open>\<open>scan\<close> is the order in which tickets of equal number come.\<close>

definition site_queue_ticket_list ::
  "(TicketRow list \<Rightarrow> TicketRow list) \<Rightarrow> queues \<Rightarrow> i64 \<Rightarrow> i64 \<Rightarrow> i64 \<Rightarrow> i32 \<Rightarrow> string + TicketRow list" where
  "site_queue_ticket_list scan s caller site queue_id limit_req =
     (case site_grant_check (qs_access s) caller site False of Inl err \<Rightarrow> Inl err | Inr _ \<Rightarrow>
        let q = resolve_queue_id queue_id; limit = (if limit_req \<le>s 0 then 50 else smin limit_req 200)
        in Inr (take (nat (sint limit)) (sort_key (\<lambda>t. - sint (tk_ticket_no t))
             (scan (filter (\<lambda>t. tk_site_iid t = site \<and> tk_queue_id t = q \<and> \<not> tk_deleted t) (qs_ticket s))))))"

definition site_queue_list :: "queues \<Rightarrow> i64 \<Rightarrow> i64 \<Rightarrow> string + QueueRow list" where
  "site_queue_list s caller site =
     (case site_grant_check (qs_access s) caller site False of Inl err \<Rightarrow> Inl err | Inr _ \<Rightarrow>
        Inr (sort_key (\<lambda>r. sint (qu_sort_order r)) (sort_key (\<lambda>r. sint (qu_queue_id r))
          (filter (\<lambda>r. qu_site_iid r = site \<and> \<not> qu_deleted r) (qs_queue s)))))"

record SiteQueueBoard =
  bd_queue :: QueueRow
  bd_run :: RunRow
  bd_waiting :: "TicketRow list"
  bd_called :: "TicketRow option"
  bd_serving :: "TicketRow option"

definition latest_ticket :: "queues \<Rightarrow> i64 \<Rightarrow> i64 \<Rightarrow> i64 \<Rightarrow> string \<Rightarrow> TicketRow option" where
  "latest_ticket s site q run status =
     (case sort_key (\<lambda>t. - sint (tk_ticket_no t)) (filter (\<lambda>t. ticket_of site q run t \<and> tk_status t = status) (qs_ticket s)) of
        [] \<Rightarrow> None | t # _ \<Rightarrow> Some t)"

definition board_build :: "queue_env \<Rightarrow> queues \<Rightarrow> i64 \<Rightarrow> i64 \<Rightarrow> (string + SiteQueueBoard) \<times> queues" where
  "board_build e s site q =
     (case load_queue_row s site q of Inl err \<Rightarrow> (Inl err, s) | Inr qrow \<Rightarrow>
      case ensure_open_run e s site q (qu_owner_iid qrow) (qu_reset_policy qrow) of (Inl err, s1) \<Rightarrow> (Inl err, s1) | (Inr run, s1) \<Rightarrow>
        case find (run_of site (rn_run_id run)) (qs_run s1) of None \<Rightarrow> (Inl ''row not found'', s1) | Some run_row \<Rightarrow>
          (Inr \<lparr> bd_queue = qrow, bd_run = run_row, bd_waiting = take 100 (waiting site q (rn_run_id run) s1),
             bd_called = latest_ticket s1 site q (rn_run_id run) ''called'',
             bd_serving = latest_ticket s1 site q (rn_run_id run) ''serving'' \<rparr>, s1))"

definition site_queue_board :: "queue_env \<Rightarrow> queues \<Rightarrow> i64 \<Rightarrow> i64 \<Rightarrow> i64 \<Rightarrow> (string + SiteQueueBoard) \<times> queues" where
  "site_queue_board e s caller site queue_id =
     (case site_grant_check (qs_access s) caller site False of Inl err \<Rightarrow> (Inl err, s) | Inr _ \<Rightarrow>
        board_build e s site (resolve_queue_id queue_id))"

section \<open>Guest calls\<close>

record GuestQueueTakeResult =
  qt_ok :: bool
  qt_ticket_id :: i64
  qt_ticket_no :: i32
  qt_queue_id :: i64
  qt_serving_ticket_no :: i32
  qt_display_label :: string
  qt_track_token :: string
  qt_error :: string

record GuestQueueGetResult =
  qg_ok :: bool
  qg_ticket_id :: i64
  qg_ticket_no :: i32
  qg_queue_id :: i64
  qg_status :: string
  qg_serving_ticket_no :: i32
  qg_display_label :: string
  qg_track_token :: string
  qg_error :: string

record GuestQueueTrackResult =
  qk_ok :: bool
  qk_ticket_id :: i64
  qk_ticket_no :: i32
  qk_queue_id :: i64
  qk_status :: string
  qk_serving_number :: i32
  qk_position_ahead :: i32
  qk_display_label :: string
  qk_error :: string

definition err_take :: "string \<Rightarrow> GuestQueueTakeResult" where
  "err_take msg = \<lparr> qt_ok = False, qt_ticket_id = 0, qt_ticket_no = 0, qt_queue_id = 0, qt_serving_ticket_no = 0,
     qt_display_label = [], qt_track_token = [], qt_error = msg \<rparr>"

definition err_get :: "string \<Rightarrow> GuestQueueGetResult" where
  "err_get msg = \<lparr> qg_ok = False, qg_ticket_id = 0, qg_ticket_no = 0, qg_queue_id = 0, qg_status = [],
     qg_serving_ticket_no = 0, qg_display_label = [], qg_track_token = [], qg_error = msg \<rparr>"

definition err_track :: "string \<Rightarrow> GuestQueueTrackResult" where
  "err_track msg = \<lparr> qk_ok = False, qk_ticket_id = 0, qk_ticket_no = 0, qk_queue_id = 0, qk_status = [],
     qk_serving_number = 0, qk_position_ahead = 0, qk_display_label = [], qk_error = msg \<rparr>"

text \<open>The columns left to their defaults are those of the schema.\<close>

definition ensure_default_queue :: "i64 \<Rightarrow> i64 \<Rightarrow> i64 \<Rightarrow> queues \<Rightarrow> queues" where
  "ensure_default_queue site owner q s =
     (if list_ex (queue_of site q) (qs_queue s) then s
      else s\<lparr> qs_queue := qs_queue s @ [\<lparr> qu_site_iid = site, qu_queue_id = q, qu_owner_iid = owner, qu_name = ''Main'',
             qu_description = [], qu_mode = ''fifo'', qu_prefix = [], qu_last_ticket_no = 0, qu_serving_ticket_no = 0,
             qu_is_active = True, qu_fields = Array [], qu_take_online = True,
             qu_reset_policy = Object [(''mode'', String ''daily''), (''at'', String ''00:00''), (''timezone'', String ''Asia/Jakarta'')],
             qu_sort_order = 0, qu_meta_json = Object [], qu_deleted = False \<rparr>] \<rparr>)"

definition answers_map :: "queue_env \<Rightarrow> string \<Rightarrow> (string \<times> Value) list" where
  "answers_map e answers_json =
     (if trim answers_json = [] then [] else unwrap_or [] (Option.bind (qe_from_str e answers_json) as_object))"

text \<open>\<open>guest_queue_take\<close> reads the run (everything up to \<open>run.next_number\<close>) before the transaction that
  stores the ticket: the two parts are definitions of their own.\<close>

record take_plan =
  tp_queue_id :: i64
  tp_owner_iid :: i64
  tp_prefix :: string
  tp_answers :: "(string \<times> Value) list"
  tp_run :: RunRow

definition take_read :: "queue_env \<Rightarrow> queues \<Rightarrow> i64 \<Rightarrow> i64 \<Rightarrow> string \<Rightarrow> (string + (GuestQueueTakeResult + take_plan)) \<times> queues" where
  "take_read e s site queue_id answers_json =
     (if site \<le>s 0 then (Inr (Inl (err_take ''site_iid required'')), s)
      else if \<not> site_published (qs_access s) site then (Inr (Inl (err_take ''site not published'')), s)
      else if \<not> site_capability_enabled (site_capabilities_get (qs_access s) site) ''queue''
      then (Inr (Inl (err_take ''queue not enabled'')), s)
      else let qid = resolve_queue_id queue_id
      in case queue_site_owner (qs_access s) site of Inl err \<Rightarrow> (Inl err, s) | Inr owner \<Rightarrow>
        let s1 = ensure_default_queue site owner qid s
        in case load_queue_row s1 site qid of Inl err \<Rightarrow> (Inl err, s1) | Inr qrow \<Rightarrow>
          if \<not> qu_is_active qrow then (Inr (Inl (err_take ''queue inactive'')), s1)
          else if \<not> qu_take_online qrow then (Inr (Inl (err_take ''queue take disabled'')), s1)
          else let answers = answers_map e answers_json
          in case validate_queue_answers (qu_fields qrow) answers of Inl msg \<Rightarrow> (Inr (Inl (err_take msg)), s1) | Inr _ \<Rightarrow>
            case ensure_open_run e s1 site qid owner (qu_reset_policy qrow) of (Inl err, s2) \<Rightarrow> (Inl err, s2) | (Inr run, s2) \<Rightarrow>
              (Inr (Inr \<lparr> tp_queue_id = qid, tp_owner_iid = owner, tp_prefix = qu_prefix qrow, tp_answers = answers, tp_run = run \<rparr>), s2))"

definition take_ticket :: "queue_env \<Rightarrow> i64 \<Rightarrow> string \<Rightarrow> string \<Rightarrow> take_plan \<Rightarrow> Value \<Rightarrow> TicketRow" where
  "take_ticket e site guest_name guest_phone p answers =
     (let no = rn_next_number (tp_run p)
      in \<lparr> tk_site_iid = site, tk_ticket_id = qe_ticket_id e, tk_queue_id = tp_queue_id p, tk_run_id = rn_run_id (tp_run p),
        tk_owner_iid = tp_owner_iid p, tk_ticket_no = no, tk_track_token = new_track_token e,
        tk_display_label = display_label_for_ticket (tp_prefix p) no, tk_guest_name = trim guest_name,
        tk_guest_phone = trim guest_phone, tk_answers = answers, tk_status = ''waiting'',
        tk_called_at = None, tk_done_at = None, tk_created = qe_now e, tk_deleted = False \<rparr>)"

definition take_commit :: "queue_env \<Rightarrow> queues \<Rightarrow> i64 \<Rightarrow> string \<Rightarrow> string \<Rightarrow> take_plan \<Rightarrow> (string + GuestQueueTakeResult) \<times> queues" where
  "take_commit e s site guest_name guest_phone p =
     (case qe_pg_json e (qe_to_string e (Object (tp_answers p))) of None \<Rightarrow> (Inl ''bad json'', s) | Some answers \<Rightarrow>
      let row = take_ticket e site guest_name guest_phone p answers; run = tp_run p
      in if list_ex (\<lambda>t. tk_site_iid t = site \<and> tk_ticket_id t = tk_ticket_id row) (qs_ticket s) then (Inl ''duplicate key'', s)
         else if list_ex (\<lambda>t. tk_track_token t = tk_track_token row \<and> \<not> tk_deleted t) (qs_ticket s) then (Inl ''duplicate key'', s)
         else if \<not> list_ex (queue_of site (tp_queue_id p)) (qs_queue s) then (Inl ''foreign key'', s)
         else case bump_run_after_ticket site (rn_run_id run) (tk_ticket_no row) (tp_queue_id p)
                     (s\<lparr> qs_ticket := qs_ticket s @ [row] \<rparr>) of
                Inl err \<Rightarrow> (Inl err, s)
              | Inr s' \<Rightarrow> (Inr \<lparr> qt_ok = True, qt_ticket_id = tk_ticket_id row, qt_ticket_no = tk_ticket_no row, qt_queue_id = tp_queue_id p,
                  qt_serving_ticket_no = rn_serving_number run, qt_display_label = tk_display_label row,
                  qt_track_token = tk_track_token row, qt_error = [] \<rparr>, s'))"

definition guest_queue_take ::
  "queue_env \<Rightarrow> queues \<Rightarrow> i64 \<Rightarrow> i64 \<Rightarrow> string \<Rightarrow> string \<Rightarrow> string \<Rightarrow> (string + GuestQueueTakeResult) \<times> queues" where
  "guest_queue_take e s site queue_id guest_name guest_phone answers_json =
     (case take_read e s site queue_id answers_json of
        (Inl err, s1) \<Rightarrow> (Inl err, s1)
      | (Inr (Inl res), s1) \<Rightarrow> (Inr res, s1)
      | (Inr (Inr p), s1) \<Rightarrow> take_commit e s1 site guest_name guest_phone p)"

definition ticket_with_run :: "queues \<Rightarrow> (TicketRow \<Rightarrow> bool) \<Rightarrow> (TicketRow \<times> RunRow) option" where
  "ticket_with_run s P =
     find (\<lambda>(t, r). P t \<and> \<not> tk_deleted t)
       [(t, r). t \<leftarrow> qs_ticket s, r \<leftarrow> qs_run s, rn_site_iid r = tk_site_iid t \<and> rn_run_id r = tk_run_id t]"

definition guest_queue_get :: "queues \<Rightarrow> i64 \<Rightarrow> i64 \<Rightarrow> i64 \<Rightarrow> GuestQueueGetResult" where
  "guest_queue_get s site queue_id ticket_id =
     (if site \<le>s 0 \<or> ticket_id \<le>s 0 then err_get ''site_iid and ticket_id required''
      else if \<not> site_published (qs_access s) site then err_get ''site not published''
      else if \<not> site_capability_enabled (site_capabilities_get (qs_access s) site) ''queue'' then err_get ''queue not enabled''
      else let qid = resolve_queue_id queue_id
      in case ticket_with_run s (\<lambda>t. tk_site_iid t = site \<and> tk_ticket_id t = ticket_id \<and> tk_queue_id t = qid) of
           None \<Rightarrow> err_get ''ticket not found''
         | Some (t, r) \<Rightarrow> \<lparr> qg_ok = True, qg_ticket_id = ticket_id, qg_ticket_no = tk_ticket_no t, qg_queue_id = qid,
             qg_status = tk_status t, qg_serving_ticket_no = rn_serving_number r, qg_display_label = tk_display_label t,
             qg_track_token = tk_track_token t, qg_error = [] \<rparr>)"

definition position_ahead :: "queues \<Rightarrow> i64 \<Rightarrow> i64 \<Rightarrow> i64 \<Rightarrow> i32 \<Rightarrow> nat" where
  "position_ahead s site q run ticket_no =
     length (filter (\<lambda>t. ticket_of site q run t \<and> tk_status t = ''waiting'' \<and> tk_ticket_no t <s ticket_no) (qs_ticket s))"

definition guest_queue_track :: "queues \<Rightarrow> i64 \<Rightarrow> string \<Rightarrow> GuestQueueTrackResult" where
  "guest_queue_track s site track_token =
     (let token = trim track_token
      in if site \<le>s 0 \<or> token = [] then err_track ''site_iid and track_token required''
         else if \<not> site_published (qs_access s) site then err_track ''site not published''
         else if \<not> site_capability_enabled (site_capabilities_get (qs_access s) site) ''queue'' then err_track ''queue not enabled''
         else case ticket_with_run s (\<lambda>t. tk_site_iid t = site \<and> tk_track_token t = token) of
           None \<Rightarrow> err_track ''ticket not found''
         | Some (t, r) \<Rightarrow> \<lparr> qk_ok = True, qk_ticket_id = tk_ticket_id t, qk_ticket_no = tk_ticket_no t, qk_queue_id = tk_queue_id t,
             qk_status = tk_status t, qk_serving_number = rn_serving_number r,
             qk_position_ahead = of_nat (position_ahead s site (tk_queue_id t) (tk_run_id t) (tk_ticket_no t)),
             qk_display_label = tk_display_label t, qk_error = [] \<rparr>)"

definition guest_queue_take_json :: "GuestQueueTakeResult \<Rightarrow> Value" where
  "guest_queue_take_json res = Object [(''ok'', Bool (qt_ok res)), (''ticket_id'', json_i64 (qt_ticket_id res)),
     (''ticket_no'', json_i32 (qt_ticket_no res)), (''queue_id'', json_i64 (qt_queue_id res)),
     (''serving_ticket_no'', json_i32 (qt_serving_ticket_no res)), (''display_label'', String (qt_display_label res)),
     (''track_token'', String (qt_track_token res)), (''error'', String (qt_error res))]"

definition guest_queue_get_json :: "GuestQueueGetResult \<Rightarrow> Value" where
  "guest_queue_get_json res = Object [(''ok'', Bool (qg_ok res)), (''ticket_id'', json_i64 (qg_ticket_id res)),
     (''ticket_no'', json_i32 (qg_ticket_no res)), (''queue_id'', json_i64 (qg_queue_id res)), (''status'', String (qg_status res)),
     (''serving_ticket_no'', json_i32 (qg_serving_ticket_no res)), (''display_label'', String (qg_display_label res)),
     (''track_token'', String (qg_track_token res)), (''error'', String (qg_error res))]"

definition guest_queue_track_json :: "GuestQueueTrackResult \<Rightarrow> Value" where
  "guest_queue_track_json res = Object [(''ok'', Bool (qk_ok res)), (''ticket_id'', json_i64 (qk_ticket_id res)),
     (''ticket_no'', json_i32 (qk_ticket_no res)), (''queue_id'', json_i64 (qk_queue_id res)), (''status'', String (qk_status res)),
     (''serving_number'', json_i32 (qk_serving_number res)), (''position_ahead'', json_i32 (qk_position_ahead res)),
     (''display_label'', String (qk_display_label res)), (''error'', String (qk_error res))]"

end
