(* ===== verification/Queue_Store.thy ===== *)
theory Queue_Store
  imports Site_Queue
begin

text \<open>
  What the calls of \<open>queue_csa.rs\<close> do to the waiting rooms: ticket numbers, the order of service, the
  invariant of the tables over any history of calls, and what happens when two guests take a ticket
  at the same time.
\<close>

section \<open>The invariant\<close>

abbreviation queue_key :: "QueueRow \<Rightarrow> i64 \<times> i64" where
  "queue_key r \<equiv> (qu_site_iid r, qu_queue_id r)"

abbreviation run_key :: "RunRow \<Rightarrow> i64 \<times> i64" where
  "run_key r \<equiv> (rn_site_iid r, rn_run_id r)"

abbreviation ticket_key :: "TicketRow \<Rightarrow> i64 \<times> i64" where
  "ticket_key t \<equiv> (tk_site_iid t, tk_ticket_id t)"

abbreviation ticket_slot :: "TicketRow \<Rightarrow> i64 \<times> i64 \<times> i32" where
  "ticket_slot t \<equiv> (tk_site_iid t, tk_run_id t, tk_ticket_no t)"

abbreviation run_queue :: "RunRow \<Rightarrow> i64 \<times> i64" where
  "run_queue r \<equiv> (rn_site_iid r, rn_queue_id r)"

text \<open>A run is open until it is closed, at most one run of a queue is open, and numbers start at 1.\<close>

definition run_sane :: "RunRow \<Rightarrow> bool" where
  "run_sane r \<longleftrightarrow> 1 \<le> sint (rn_next_number r) \<and> rn_status r = (if rn_closed r = None then ''open'' else ''closed'')"

abbreviation live_runs :: "RunRow list \<Rightarrow> RunRow list" where
  "live_runs \<equiv> filter (\<lambda>r. rn_closed r = None)"

definition runs_ok :: "RunRow list \<Rightarrow> bool" where
  "runs_ok runs \<longleftrightarrow> distinct (map run_key runs) \<and> list_all run_sane runs \<and> distinct (map run_queue (live_runs runs))"

text \<open>Every ticket belongs to a run of its queue and has a number the run has given out; no number of a
  run is given out twice, and live tokens differ.\<close>

definition tickets_ok :: "RunRow list \<Rightarrow> TicketRow list \<Rightarrow> bool" where
  "tickets_ok runs tickets \<longleftrightarrow> distinct (map ticket_key tickets) \<and> distinct (map ticket_slot tickets) \<and>
     distinct (map tk_track_token (filter (\<lambda>t. \<not> tk_deleted t) tickets)) \<and>
     (\<forall>t\<in>set tickets. 1 \<le> sint (tk_ticket_no t) \<and> (\<exists>r\<in>set runs. run_of (tk_site_iid t) (tk_run_id t) r \<and>
        rn_queue_id r = tk_queue_id t \<and> tk_ticket_no t <s rn_next_number r))"

definition queues_ok :: "queues \<Rightarrow> bool" where
  "queues_ok s \<longleftrightarrow> distinct (map queue_key (qs_queue s)) \<and> runs_ok (qs_run s) \<and> tickets_ok (qs_run s) (qs_ticket s)"

subsection \<open>Runs\<close>

lemma open_run_in: "open_run s site q = Some r \<Longrightarrow> r \<in> set (qs_run s) \<and> is_open site q r"
proof -
  assume "open_run s site q = Some r"
  then obtain rs where "sort_key (\<lambda>r. - rn_created r) (filter (is_open site q) (qs_run s)) = r # rs"
    by (auto simp: open_run_def split: list.splits)
  then have "r \<in> set (sort_key (\<lambda>r. - rn_created r) (filter (is_open site q) (qs_run s)))" by simp
  then show ?thesis by simp
qed

lemma open_run_none: "open_run s site q = None \<Longrightarrow> r \<in> set (qs_run s) \<Longrightarrow> \<not> is_open site q r"
proof -
  assume "open_run s site q = None" "r \<in> set (qs_run s)"
  then have "sort_key (\<lambda>r. - rn_created r) (filter (is_open site q) (qs_run s)) = []"
    by (auto simp: open_run_def split: list.splits)
  then have "set (sort_key (\<lambda>r. - rn_created r) (filter (is_open site q) (qs_run s))) = {}" by simp
  with \<open>r \<in> set (qs_run s)\<close> show ?thesis by (auto simp: filter_empty_conv)
qed

lemma is_open_sane: "run_sane r \<Longrightarrow> is_open site q r \<longleftrightarrow> run_queue r = (site, q) \<and> rn_closed r = None"
  by (auto simp: run_sane_def is_open_def)

lemma open_run_unique:
  assumes "runs_ok (qs_run s)" "r \<in> set (qs_run s)" "is_open site q r"
  shows "open_run s site q = Some r"
proof (cases "open_run s site q")
  case None
  with open_run_none assms show ?thesis by blast
next
  case (Some r')
  have "r' \<in> set (live_runs (qs_run s))" "r \<in> set (live_runs (qs_run s))" "run_queue r' = run_queue r"
    using open_run_in [OF Some] assms(2,3) by (auto simp: is_open_def)
  then have "r' = r" using assms(1) distinct_key_eq [of run_queue] unfolding runs_ok_def by blast
  with Some show ?thesis by simp
qed

lemma runs_ok_map:
  assumes "runs_ok runs" and f: "\<And>r. run_key (f r) = run_key r \<and> run_queue (f r) = run_queue r \<and>
      rn_status (f r) = rn_status r \<and> rn_closed (f r) = rn_closed r"
    and "\<And>r. r \<in> set runs \<Longrightarrow> 1 \<le> sint (rn_next_number (f r))"
  shows "runs_ok (map f runs)"
proof -
  have "map run_key (map f runs) = map run_key runs" "map run_queue (live_runs (map f runs)) = map run_queue (live_runs runs)"
    using f by (simp_all add: filter_map o_def)
  then show ?thesis using assms by (simp add: runs_ok_def list_all_iff run_sane_def del: map_map)
qed

text \<open>Tickets stay in order when runs only move on.\<close>

lemma tickets_ok_runs:
  assumes "tickets_ok runs tickets"
    and "\<And>r. r \<in> set runs \<Longrightarrow> \<exists>r'\<in>set runs'. run_key r' = run_key r \<and> rn_queue_id r' = rn_queue_id r \<and> rn_next_number r \<le>s rn_next_number r'"
  shows "tickets_ok runs' tickets"
proof -
  have "\<exists>r'\<in>set runs'. run_of (tk_site_iid t) (tk_run_id t) r' \<and> rn_queue_id r' = tk_queue_id t \<and> tk_ticket_no t <s rn_next_number r'"
    if t: "t \<in> set tickets" for t
  proof -
    obtain r where r: "r \<in> set runs" "run_of (tk_site_iid t) (tk_run_id t) r" "rn_queue_id r = tk_queue_id t" "tk_ticket_no t <s rn_next_number r"
      using assms(1) t by (auto simp: tickets_ok_def)
    obtain r' where "r' \<in> set runs'" "run_key r' = run_key r" "rn_queue_id r' = rn_queue_id r" "rn_next_number r \<le>s rn_next_number r'"
      using assms(2) [OF r(1)] by blast
    with r show ?thesis by (intro bexI [of _ r']) (auto simp: run_of_def word_sless_alt word_sle_eq)
  qed
  with assms(1) show ?thesis by (auto simp: tickets_ok_def)
qed

lemma runs_ok_snoc:
  assumes "runs_ok runs" "run_key run \<notin> run_key ` set runs" "run_sane run" "run_queue run \<notin> run_queue ` set (live_runs runs)"
  shows "runs_ok (runs @ [run])"
  using assms by (simp add: runs_ok_def)

lemma runs_ok_close:
  assumes "runs_ok runs"
  shows "runs_ok (map (close_run now site q reason) runs)"
    and "(site, q) \<notin> run_queue ` set (live_runs (map (close_run now site q reason) runs))"
proof -
  let ?close = "close_run now site q reason"
  have sane: "run_sane r" if "r \<in> set runs" for r using assms that by (simp add: runs_ok_def list_all_iff)
  have live: "live_runs (map ?close runs) = filter (\<lambda>r. run_queue r \<noteq> (site, q)) (live_runs runs)"
    using sane by (induction runs) (auto simp: close_run_def is_open_sane split: if_splits)
  have "map run_key (map ?close runs) = map run_key runs" by (simp add: close_run_def)
  then have "distinct (map run_key (map ?close runs))" using assms unfolding runs_ok_def by (simp only:)
  moreover have "list_all run_sane (map ?close runs)" using sane by (auto simp: list_all_iff close_run_def run_sane_def)
  moreover have "distinct (map run_queue (live_runs (map ?close runs)))"
    unfolding live by (rule distinct_map_filter) (use assms in \<open>simp add: runs_ok_def\<close>)
  ultimately show "runs_ok (map ?close runs)" unfolding runs_ok_def by blast
  show "(site, q) \<notin> run_queue ` set (live_runs (map ?close runs))" unfolding live by auto
qed

lemma open_new_run_ok:
  assumes ok: "queues_ok s" and new: "open_new_run e s site q owner reason = (Inr run, s')"
  shows "queues_ok s' \<and> run \<in> set (qs_run s') \<and> is_open site q run \<and> rn_next_number run = 1 \<and> rn_created run = qe_now e \<and>
    qs_ticket s' = qs_ticket s \<and> qs_access s' = qs_access s"
proof -
  let ?close = "close_run (qe_now e) site q reason"
  have run: "rn_site_iid run = site" "rn_run_id run = qe_run_id e" "rn_queue_id run = q" "rn_next_number run = 1"
      "rn_status run = ''open''" "rn_closed run = None" "rn_created run = qe_now e"
    and fresh: "\<not> list_ex (run_of site (qe_run_id e)) (qs_run s)"
    and s': "qs_run s' = map ?close (qs_run s) @ [run]" "qs_ticket s' = qs_ticket s" "qs_access s' = qs_access s"
      "qs_queue s' = map (\<lambda>r. if queue_of site q r then r\<lparr> qu_last_ticket_no := 0, qu_serving_ticket_no := 0 \<rparr> else r) (qs_queue s)"
    using new by (auto simp: open_new_run_def Let_def close_runs_def split: if_splits)
  have "map queue_key (qs_queue s') = map queue_key (qs_queue s)" by (simp add: s')
  then have queues: "distinct (map queue_key (qs_queue s'))" using ok unfolding queues_ok_def by (simp only:)
  have runs: "runs_ok (qs_run s)" using ok by (simp add: queues_ok_def)
  have "run_key run \<notin> run_key ` set (map ?close (qs_run s))"
    using fresh by (auto simp: list_ex_iff run_of_def run close_run_def split: if_splits)
  then have "runs_ok (qs_run s')"
    unfolding s'(1) using run runs_ok_close [OF runs] by (intro runs_ok_snoc) (auto simp: run_sane_def)
  moreover have "tickets_ok (qs_run s') (qs_ticket s')"
  proof (rule tickets_ok_runs)
    show "tickets_ok (qs_run s) (qs_ticket s')" using ok by (simp add: queues_ok_def s'(2))
    fix r assume "r \<in> set (qs_run s)"
    then have "?close r \<in> set (qs_run s')" by (simp add: s'(1))
    then show "\<exists>r'\<in>set (qs_run s'). run_key r' = run_key r \<and> rn_queue_id r' = rn_queue_id r \<and> rn_next_number r \<le>s rn_next_number r'"
      by (rule bexI [rotated]) (simp add: close_run_def word_sle_eq)
  qed
  ultimately show ?thesis using queues run s' by (auto simp: queues_ok_def is_open_def)
qed

lemma open_new_run_refused: "open_new_run e s site q owner reason = (Inl err, s') \<Longrightarrow> s' = s"
  by (auto simp: open_new_run_def Let_def split: if_splits)

lemma maybe_daily_reset_state:
  "maybe_daily_reset e s site q owner policy = (r, s') \<Longrightarrow>
   s' = s \<or> (\<exists>run. open_new_run e s site q owner ''daily'' = (Inr run, s'))"
  by (auto simp: maybe_daily_reset_def Let_def dest: open_new_run_refused split: if_splits sum.splits prod.splits)

lemma maybe_daily_reset_ok:
  assumes "queues_ok s" "maybe_daily_reset e s site q owner policy = (r, s')"
  shows "queues_ok s' \<and> qs_ticket s' = qs_ticket s \<and> qs_access s' = qs_access s"
  using maybe_daily_reset_state [OF assms(2)] open_new_run_ok [OF assms(1)] assms(1) by blast

lemma ensure_open_run_ok:
  assumes "queues_ok s" "ensure_open_run e s site q owner policy = (r, s')"
  shows "queues_ok s' \<and> qs_ticket s' = qs_ticket s \<and> qs_access s' = qs_access s \<and>
    (\<forall>run. r = Inr run \<longrightarrow> run \<in> set (qs_run s') \<and> is_open site q run)"
proof -
  obtain u s1 where u: "maybe_daily_reset e s site q owner policy = (u, s1)" by fastforce
  note s1 = maybe_daily_reset_ok [OF assms(1) u]
  show ?thesis
  proof (cases u)
    case (Inl err)
    with assms(2) u s1 show ?thesis by (auto simp: ensure_open_run_def)
  next
    case (Inr x)
    show ?thesis
    proof (cases "open_run s1 site q")
      case None
      then have new: "open_new_run e s1 site q owner ''open'' = (r, s')" using assms(2) u Inr by (simp add: ensure_open_run_def)
      show ?thesis
      proof (cases r)
        case (Inl err)
        then have "s' = s1" using open_new_run_refused new by simp
        with s1 Inl show ?thesis by auto
      next
        case (Inr run)
        with open_new_run_ok [of s1 e site q owner "''open''" run s'] new s1 show ?thesis by auto
      qed
    next
      case (Some run)
      then have "r = Inr run" "s' = s1" using assms(2) u Inr by (simp_all add: ensure_open_run_def)
      with open_run_in [OF Some] s1 show ?thesis by auto
    qed
  qed
qed

subsection \<open>Tickets\<close>

lemma tickets_ok_map:
  assumes "tickets_ok runs tickets" and f: "\<And>t. ticket_key (f t) = ticket_key t \<and> ticket_slot (f t) = ticket_slot t \<and>
      tk_queue_id (f t) = tk_queue_id t \<and> tk_track_token (f t) = tk_track_token t \<and> tk_deleted (f t) = tk_deleted t"
  shows "tickets_ok runs (map f tickets)"
proof -
  have "map ticket_key (map f tickets) = map ticket_key tickets" "map ticket_slot (map f tickets) = map ticket_slot tickets"
    "map tk_track_token (filter (\<lambda>t. \<not> tk_deleted t) (map f tickets)) = map tk_track_token (filter (\<lambda>t. \<not> tk_deleted t) tickets)"
    using f by (simp_all add: filter_map o_def)
  then show ?thesis using assms(1) f by (simp add: tickets_ok_def del: map_map)
qed

text \<open>Calls that only change status and times of tickets, serving numbers and queue rows.\<close>

lemma queues_ok_serving: "queues_ok s \<Longrightarrow> queues_ok (set_run_serving site run q no s)"
proof -
  assume ok: "queues_ok s"
  let ?f = "\<lambda>r. if run_of site run r then r\<lparr> rn_serving_number := no \<rparr> else r"
  let ?g = "\<lambda>r. if queue_of site q r then r\<lparr> qu_serving_ticket_no := no \<rparr> else r"
  have sane: "1 \<le> sint (rn_next_number r)" if "r \<in> set (qs_run s)" for r
    using ok that by (auto simp: queues_ok_def runs_ok_def list_all_iff run_sane_def)
  have "map queue_key (map ?g (qs_queue s)) = map queue_key (qs_queue s)" by simp
  then have "distinct (map queue_key (map ?g (qs_queue s)))" using ok unfolding queues_ok_def by (simp only:)
  moreover have "runs_ok (map ?f (qs_run s))" using ok sane by (intro runs_ok_map) (auto simp: queues_ok_def)
  moreover have "tickets_ok (map ?f (qs_run s)) (qs_ticket s)"
  proof (rule tickets_ok_runs)
    show "tickets_ok (qs_run s) (qs_ticket s)" using ok by (simp add: queues_ok_def)
    show "\<exists>r'\<in>set (map ?f (qs_run s)). run_key r' = run_key r \<and> rn_queue_id r' = rn_queue_id r \<and> rn_next_number r \<le>s rn_next_number r'"
      if "r \<in> set (qs_run s)" for r using that by (intro bexI [of _ "?f r"]) (auto simp: word_sle_eq)
  qed
  ultimately show ?thesis by (simp add: queues_ok_def set_run_serving_def del: map_map)
qed

lemma queues_ok_skip: "queues_ok s \<Longrightarrow> queues_ok (skip_called now site q run s)"
  by (auto simp: queues_ok_def skip_called_def split: if_splits intro!: tickets_ok_map)

lemma queues_ok_call: "queues_ok s \<Longrightarrow> queues_ok (call_ticket now site ticket_id s)"
  by (auto simp: queues_ok_def call_ticket_def split: if_splits intro!: tickets_ok_map)

lemma queues_ok_status:
  "queues_ok s \<Longrightarrow> queues_ok (s\<lparr> qs_ticket := map (\<lambda>t. if P t then with_status now status t else t) (qs_ticket s) \<rparr>)"
  by (auto simp: queues_ok_def with_status_def split: if_splits intro!: tickets_ok_map)

lemma queues_ok_default: "queues_ok s \<Longrightarrow> queues_ok (ensure_default_queue site owner q s)"
  by (force simp: queues_ok_def ensure_default_queue_def list_ex_iff queue_of_def)

definition bump_run :: "i64 \<Rightarrow> i64 \<Rightarrow> i32 \<Rightarrow> RunRow \<Rightarrow> RunRow" where
  "bump_run site run no r = (if run_of site run r then r\<lparr> rn_next_number := smax (rn_next_number r) (no + 1) \<rparr> else r)"

lemma take_commit_cases:
  assumes "take_commit e s site name phone p = (r, s')"
  obtains (refused) err where "r = Inl err" "s' = s"
  | (ok) res answers row where "r = Inr res" "row = take_ticket e site name phone p answers"
      "\<forall>t\<in>set (qs_ticket s). ticket_key t \<noteq> ticket_key row" "\<forall>t\<in>set (qs_ticket s). tk_deleted t \<or> tk_track_token t \<noteq> tk_track_token row"
      "sint (tk_ticket_no row) + 1 < 2 ^ 31" "qs_access s' = qs_access s"
      "qs_ticket s' = qs_ticket s @ [row]" "qs_run s' = map (bump_run site (rn_run_id (tp_run p)) (tk_ticket_no row)) (qs_run s)"
      "map queue_key (qs_queue s') = map queue_key (qs_queue s)"
      "qt_ok res" "qt_ticket_id res = tk_ticket_id row" "qt_ticket_no res = tk_ticket_no row" "qt_track_token res = tk_track_token row"
proof (cases r)
  case (Inl err)
  with assms have "s' = s" by (auto simp: take_commit_def Let_def split: option.splits sum.splits if_splits)
  with Inl show ?thesis by (rule refused)
next
  case (Inr res)
  with assms obtain answers where a: "qe_pg_json e (qe_to_string e (Object (tp_answers p))) = Some answers"
    by (auto simp: take_commit_def split: option.splits)
  have site: "tk_site_iid (take_ticket e site name phone p answers) = site" by (simp add: take_ticket_def Let_def)
  show ?thesis using assms Inr a site
    by (intro ok [OF Inr refl, of answers])
      (auto simp: take_commit_def Let_def list_ex_iff bump_run_after_ticket_def bump_run_def
        split: option.splits sum.splits if_splits)
qed

lemma take_commit_ok:
  assumes ok: "queues_ok s" and run: "tp_run p \<in> set (qs_run s)" "is_open site (tp_queue_id p) (tp_run p)"
  shows "queues_ok (snd (take_commit e s site name phone p))"
proof -
  obtain r s' where c: "take_commit e s site name phone p = (r, s')" by fastforce
  then show ?thesis
  proof (cases rule: take_commit_cases)
    case (refused err)
    with c ok show ?thesis by simp
  next
    case (ok res answers row)
    let ?run = "tp_run p"
    let ?bump = "bump_run site (rn_run_id ?run) (tk_ticket_no row)"
    have row: "tk_site_iid row = site" "tk_run_id row = rn_run_id ?run" "tk_queue_id row = tp_queue_id p"
        "tk_ticket_no row = rn_next_number ?run" "\<not> tk_deleted row"
      by (simp_all add: ok(2) take_ticket_def Let_def)
    have rq: "rn_site_iid ?run = site" "rn_queue_id ?run = tp_queue_id p" using run(2) by (auto simp: is_open_def)
    have keys: "distinct (map run_key (qs_run s))" and sane: "\<And>r. r \<in> set (qs_run s) \<Longrightarrow> run_sane r"
      using \<open>queues_ok s\<close> by (auto simp: queues_ok_def runs_ok_def list_all_iff)
    have old: "tickets_ok (qs_run s) (qs_ticket s)" using \<open>queues_ok s\<close> by (simp add: queues_ok_def)
    have next': "sint (rn_next_number ?run + 1) = sint (rn_next_number ?run) + 1"
      using ok(5) row(4) sane [OF run(1)] sint_add_fits [of "rn_next_number ?run" 1] by (simp add: fits_def run_sane_def)
    have runs: "runs_ok (qs_run s')"
      unfolding ok(8) using \<open>queues_ok s\<close> sane by (intro runs_ok_map) (auto simp: queues_ok_def bump_run_def run_sane_def intro: max.coboundedI1)
    have "tickets_ok (qs_run s') (qs_ticket s)"
    proof (rule tickets_ok_runs [OF old])
      show "\<exists>r'\<in>set (qs_run s'). run_key r' = run_key r \<and> rn_queue_id r' = rn_queue_id r \<and> rn_next_number r \<le>s rn_next_number r'"
        if "r \<in> set (qs_run s)" for r
        using that by (intro bexI [of _ "?bump r"]) (auto simp: ok(8) bump_run_def smax_ge word_sle_eq)
    qed
    moreover have "ticket_slot row \<notin> ticket_slot ` set (qs_ticket s)"
    proof
      assume "ticket_slot row \<in> ticket_slot ` set (qs_ticket s)"
      then obtain t where t: "t \<in> set (qs_ticket s)" "tk_site_iid t = site" "tk_run_id t = rn_run_id ?run" "tk_ticket_no t = rn_next_number ?run"
        using row by auto
      with old obtain q where q: "q \<in> set (qs_run s)" "run_key q = run_key ?run" "tk_ticket_no t <s rn_next_number q"
        using rq by (auto simp: tickets_ok_def run_of_def)
      have "q = ?run" by (rule distinct_key_eq [OF keys q(1) run(1) q(2)])
      with q(3) t(4) show False by simp
    qed
    moreover have "\<exists>r\<in>set (qs_run s'). run_of site (rn_run_id ?run) r \<and> rn_queue_id r = tp_queue_id p \<and> tk_ticket_no row <s rn_next_number r"
      using run(1) rq next' row(4) by (intro bexI [of _ "?bump ?run"]) (auto simp: ok(8) bump_run_def run_of_def word_sless_alt)
    moreover have "1 \<le> sint (tk_ticket_no row)" using sane [OF run(1)] row(4) by (simp add: run_sane_def)
    ultimately have "tickets_ok (qs_run s') (qs_ticket s')"
      using ok(3,4) row unfolding ok(7) tickets_ok_def by auto
    then show ?thesis using \<open>queues_ok s\<close> runs ok(9) by (simp add: c queues_ok_def)
  qed
qed

subsection \<open>Every call\<close>

datatype queue_call =
    QueuePut i64 i64 "SiteQueue option"
  | CallNext i64 i64 i64
  | AdvanceServing i64 i64 i64
  | TicketSetStatus i64 i64 i64 i64 string
  | QueueReset i64 i64 i64
  | QueueBoard i64 i64 i64
  | QueueTake i64 i64 string string string

fun queue_step :: "queue_env \<times> queue_call \<Rightarrow> queues \<Rightarrow> queues" where
  "queue_step (e, QueuePut caller site req) s = snd (site_queue_put e s caller site req)"
| "queue_step (e, CallNext caller site q) s = snd (site_queue_call_next e s caller site q)"
| "queue_step (e, AdvanceServing caller site q) s = snd (site_queue_advance_serving e s caller site q)"
| "queue_step (e, TicketSetStatus caller site q tid status) s = snd (site_queue_ticket_set_status e s caller site q tid status)"
| "queue_step (e, QueueReset caller site q) s = snd (site_queue_reset e s caller site q)"
| "queue_step (e, QueueBoard caller site q) s = snd (site_queue_board e s caller site q)"
| "queue_step (e, QueueTake site q name phone answers) s = snd (guest_queue_take e s site q name phone answers)"

lemma queue_put_rows:
  assumes "queues_ok s"
  shows "qs_run (snd (site_queue_put e s caller site req)) = qs_run s \<and> qs_ticket (snd (site_queue_put e s caller site req)) = qs_ticket s \<and>
    distinct (map queue_key (qs_queue (snd (site_queue_put e s caller site req))))"
  using assms
  by (auto simp: site_queue_put_def Let_def queues_ok_def queue_of_def intro!: upsert_keys
      split: option.splits sum.splits prod.splits)

lemma queue_put_ok: "queues_ok s \<Longrightarrow> queues_ok (snd (site_queue_put e s caller site req))"
  using queue_put_rows [of s e caller site req] by (simp add: queues_ok_def)

text \<open>What a call of the next ticket goes through.\<close>

lemma call_next_cases:
  assumes "queues_ok s" "site_queue_call_next e s caller site queue_id = (r, s')"
  obtains (refused) err where "r = Inl err" "queues_ok s'" "qs_ticket s' = qs_ticket s" "qs_access s' = qs_access s"
  | (ok) owner qrow run s1 row rest where "r = Inr row" "site_grant_queue_staff (qs_access s) caller site = Inr owner"
      "load_queue_row s site (resolve_queue_id queue_id) = Inr qrow"
      "ensure_open_run e s site (resolve_queue_id queue_id) owner (qu_reset_policy qrow) = (Inr run, s1)" "queues_ok s1"
      "qs_ticket s1 = qs_ticket s" "qs_access s1 = qs_access s"
      "waiting site (resolve_queue_id queue_id) (rn_run_id run) (skip_called (qe_now e) site (resolve_queue_id queue_id) (rn_run_id run) s1) = row # rest"
      "s' = set_run_serving site (rn_run_id run) (resolve_queue_id queue_id) (tk_ticket_no row)
         (call_ticket (qe_now e) site (tk_ticket_id row) (skip_called (qe_now e) site (resolve_queue_id queue_id) (rn_run_id run) s1))"
proof (cases r)
  case (Inl err)
  have "queues_ok s' \<and> qs_ticket s' = qs_ticket s \<and> qs_access s' = qs_access s"
    using assms(2) Inl ensure_open_run_ok [OF assms(1)] assms(1)
    by (auto simp: site_queue_call_next_def Let_def split: sum.splits prod.splits list.splits)
  with Inl show ?thesis using refused by blast
next
  case (Inr row)
  from assms(2) Inr obtain owner qrow where o: "site_grant_queue_staff (qs_access s) caller site = Inr owner"
      "load_queue_row s site (resolve_queue_id queue_id) = Inr qrow"
    by (auto simp: site_queue_call_next_def Let_def split: sum.splits)
  with assms(2) Inr obtain run s1 where run: "ensure_open_run e s site (resolve_queue_id queue_id) owner (qu_reset_policy qrow) = (Inr run, s1)"
    by (auto simp: site_queue_call_next_def Let_def split: sum.splits prod.splits)
  with o assms(2) Inr obtain rest where
    "waiting site (resolve_queue_id queue_id) (rn_run_id run) (skip_called (qe_now e) site (resolve_queue_id queue_id) (rn_run_id run) s1) = row # rest"
    by (auto simp: site_queue_call_next_def Let_def split: list.splits)
  with o run assms(2) Inr ensure_open_run_ok [OF assms(1) run] show ?thesis
    by (intro ok [OF Inr o run]) (auto simp: site_queue_call_next_def Let_def)
qed

lemma call_next_ok: "queues_ok s \<Longrightarrow> queues_ok (snd (site_queue_call_next e s caller site queue_id))"
proof -
  assume s: "queues_ok s"
  obtain r s' where c: "site_queue_call_next e s caller site queue_id = (r, s')" by fastforce
  from s c show ?thesis
    by (cases rule: call_next_cases) (simp_all add: c queues_ok_serving queues_ok_call queues_ok_skip)
qed

lemma take_ok: "queues_ok s \<Longrightarrow> queues_ok (snd (guest_queue_take e s site q name phone answers))"
proof -
  assume s: "queues_ok s"
  obtain r s1 where r: "take_read e s site q answers = (r, s1)" by fastforce
  have "queues_ok s1 \<and> (\<forall>p. r = Inr (Inr p) \<longrightarrow> tp_run p \<in> set (qs_run s1) \<and> is_open site (tp_queue_id p) (tp_run p))"
    using r s ensure_open_run_ok [OF queues_ok_default [OF s]] queues_ok_default [OF s]
    by (auto simp: take_read_def Let_def split: if_splits sum.splits prod.splits)
  then show ?thesis using take_commit_ok [of s1] by (auto simp: guest_queue_take_def r split: sum.splits)
qed

lemma queue_step_ok: "queues_ok s \<Longrightarrow> queues_ok (queue_step c s)"
proof -
  assume s: "queues_ok s"
  obtain e call where c: "c = (e, call)" by fastforce
  show ?thesis
  proof (cases call)
    case (AdvanceServing caller site q)
    then show ?thesis using call_next_ok [OF s, of e caller site q]
      by (auto simp: c site_queue_advance_serving_def split: prod.splits sum.splits)
  next
    case (TicketSetStatus caller site q tid status)
    then show ?thesis using s
      by (auto simp: c site_queue_ticket_set_status_def Let_def queues_ok_status queues_ok_serving split: sum.splits option.splits)
  next
    case (QueueReset caller site q)
    then show ?thesis using s open_new_run_ok [OF s] open_new_run_refused
      by (auto simp: c site_queue_reset_def split: sum.splits prod.splits) blast+
  next
    case (QueueBoard caller site q)
    then show ?thesis using s ensure_open_run_ok [OF s]
      by (auto simp: c site_queue_board_def board_build_def split: sum.splits prod.splits option.splits)
  qed (simp_all add: c s queue_put_ok call_next_ok take_ok)
qed

text \<open>Claim C15. Invariant of the waiting rooms: over any history of calls, of staff and guests, at most one
  run of a queue is open, every ticket belongs to a run of its queue, no number of a run is given
  out twice, numbers start at 1 and stay below the next number of the run, and live tokens differ.\<close>

theorem queue_history_ok: "queues_ok s \<Longrightarrow> queues_ok (fold queue_step cs s)"
  by (induction cs arbitrary: s) (simp_all add: queue_step_ok)

section \<open>Examples\<close>

text \<open>The third-party parts of a call as concrete functions, and a room with two waiting guests.\<close>

definition test_queue_env :: "nat \<Rightarrow> queue_env" where
  "test_queue_env n = \<lparr> qe_now = 1000 + int n, qe_run_id = of_nat (100 + n), qe_ticket_id = of_nat (200 + n), qe_token_id = of_nat (300 + n),
     qe_suffix = of_nat n, qe_pg_json = (\<lambda>_. Some (Object [])), qe_from_str = (\<lambda>_. Some (Object [])), qe_to_string = (\<lambda>_. ''{}''),
     qe_parse_time = (\<lambda>_. Some (0, 0)), qe_tz_known = (\<lambda>_. True), qe_tz_day = (\<lambda>_ t. t div 86400),
     qe_tz_at = (\<lambda>_ d h m. Some (d * 86400 + int h * 3600 + int m * 60)) \<rparr>"

definition test_queues :: queues where
  "test_queues = \<lparr> qs_access = test_access, qs_queue = [], qs_run = [], qs_ticket = [] \<rparr>"

definition test_takes :: "(queue_env \<times> queue_call) list" where
  "test_takes = [(test_queue_env 1, QueueTake 1 1 ''Ani'' '''' ''''), (test_queue_env 2, QueueTake 1 1 ''Budi'' '''' '''')]"

definition test_room :: queues where
  "test_room = fold queue_step test_takes test_queues"

theorem queue_history_ok_witness: "queues_ok test_queues \<and> queues_ok test_room \<and> length (qs_ticket test_room) = 2"
proof -
  have s: "queues_ok test_queues" by code_simp
  have "length (qs_ticket test_room) = 2" by code_simp
  with s queue_history_ok [OF s, of test_takes] show ?thesis by (simp add: test_room_def)
qed

end
