(* ===== verification/Queue_Parts.thy ===== *)
theory Queue_Parts
  imports Queue_Store
begin

text \<open>
  Queues do not disturb each other: a call on one queue leaves the row, the runs and the tickets of
  every other queue as they were.
\<close>

type_synonym queue_part = "QueueRow list \<times> RunRow list \<times> TicketRow list"

definition part :: "i64 \<Rightarrow> i64 \<Rightarrow> queues \<Rightarrow> queue_part" where
  "part site q s = (filter (queue_of site q) (qs_queue s), filter (\<lambda>r. run_queue r = (site, q)) (qs_run s),
     filter (\<lambda>t. (tk_site_iid t, tk_queue_id t) = (site, q)) (qs_ticket s))"

lemma part_eqI:
  assumes "filter (queue_of site q) (qs_queue s') = filter (queue_of site q) (qs_queue s)"
    and "filter (\<lambda>r. run_queue r = (site, q)) (qs_run s') = filter (\<lambda>r. run_queue r = (site, q)) (qs_run s)"
    and "filter (\<lambda>t. (tk_site_iid t, tk_queue_id t) = (site, q)) (qs_ticket s') =
      filter (\<lambda>t. (tk_site_iid t, tk_queue_id t) = (site, q)) (qs_ticket s)"
  shows "part site q s' = part site q s"
  using assms by (simp add: part_def)

text \<open>What is read of a queue is read of its part.\<close>

lemma filter_of_part: "(\<And>x. P x \<Longrightarrow> Q x) \<Longrightarrow> filter Q xs = filter Q ys \<Longrightarrow> filter P xs = filter P ys"
proof -
  assume PQ: "\<And>x. P x \<Longrightarrow> Q x" and eq: "filter Q xs = filter Q ys"
  have sub: "filter P zs = filter P (filter Q zs)" for zs using PQ by (induction zs) auto
  show ?thesis unfolding sub [of xs] sub [of ys] eq ..
qed

lemma open_run_part: "part site q s = part site q s' \<Longrightarrow> open_run s site q = open_run s' site q"
proof -
  assume "part site q s = part site q s'"
  then have "filter (\<lambda>r. run_queue r = (site, q)) (qs_run s) = filter (\<lambda>r. run_queue r = (site, q)) (qs_run s')" by (simp add: part_def)
  then have "filter (is_open site q) (qs_run s) = filter (is_open site q) (qs_run s')"
    by (rule filter_of_part [where Q = "\<lambda>r. run_queue r = (site, q)", rotated]) (simp add: is_open_def)
  then show ?thesis by (simp add: open_run_def)
qed

lemma waiting_part: "part site q s = part site q s' \<Longrightarrow> waiting site q run s = waiting site q run s'"
proof -
  let ?P = "\<lambda>t. ticket_of site q run t \<and> tk_status t = ''waiting''"
  assume "part site q s = part site q s'"
  then have "filter (\<lambda>t. (tk_site_iid t, tk_queue_id t) = (site, q)) (qs_ticket s) = filter (\<lambda>t. (tk_site_iid t, tk_queue_id t) = (site, q)) (qs_ticket s')"
    by (simp add: part_def)
  then have "filter ?P (qs_ticket s) = filter ?P (qs_ticket s')"
    by (rule filter_of_part [where Q = "\<lambda>t. (tk_site_iid t, tk_queue_id t) = (site, q)", rotated]) (simp add: ticket_of_def)
  then show ?thesis by (simp add: waiting_def)
qed

lemma filter_map_outside:
  assumes "\<And>x. x \<in> set xs \<Longrightarrow> P (f x) = P x" "\<And>x. x \<in> set xs \<Longrightarrow> P x \<Longrightarrow> f x = x"
  shows "filter P (map f xs) = filter P xs"
  using assms by (induction xs) auto

section \<open>Updates outside a part\<close>

lemma part_open_new_run:
  assumes "open_new_run e s site' q' owner reason = (r, s')" "(site', q') \<noteq> (site, q)"
  shows "part site q s' = part site q s"
proof (cases r)
  case (Inl err)
  with assms(1) open_new_run_refused show ?thesis by blast
next
  case (Inr run)
  have run: "run_queue run = (site', q')" and s': "qs_run s' = map (close_run (qe_now e) site' q' reason) (qs_run s) @ [run]"
      "qs_ticket s' = qs_ticket s"
      "qs_queue s' = map (\<lambda>r. if queue_of site' q' r then r\<lparr> qu_last_ticket_no := 0, qu_serving_ticket_no := 0 \<rparr> else r) (qs_queue s)"
    using assms(1) Inr by (auto simp: open_new_run_def Let_def close_runs_def split: if_splits)
  show ?thesis
  proof (rule part_eqI)
    show "filter (queue_of site q) (qs_queue s') = filter (queue_of site q) (qs_queue s)"
      unfolding s' using assms(2) by (intro filter_map_outside) (auto simp: queue_of_def)
    have "filter (\<lambda>r. run_queue r = (site, q)) (map (close_run (qe_now e) site' q' reason) (qs_run s)) = filter (\<lambda>r. run_queue r = (site, q)) (qs_run s)"
      using assms(2) by (intro filter_map_outside) (auto simp: close_run_def is_open_def)
    then show "filter (\<lambda>r. run_queue r = (site, q)) (qs_run s') = filter (\<lambda>r. run_queue r = (site, q)) (qs_run s)"
      unfolding s' using run assms(2) by auto
  qed (simp add: s')
qed

lemma part_ensure_open_run:
  assumes "ensure_open_run e s site' q' owner policy = (r, s')" "(site', q') \<noteq> (site, q)"
  shows "part site q s' = part site q s"
proof -
  obtain u s1 where u: "maybe_daily_reset e s site' q' owner policy = (u, s1)" by fastforce
  have "part site q s1 = part site q s"
    using maybe_daily_reset_state [OF u] part_open_new_run [OF _ assms(2)] by blast
  moreover have "part site q s' = part site q s1"
  proof (cases u)
    case (Inr x)
    with assms(1) u show ?thesis
      using part_open_new_run [OF _ assms(2), of e s1 owner "''open''" r s']
      by (cases "open_run s1 site' q'") (auto simp: ensure_open_run_def)
  qed (use assms(1) u in \<open>simp add: ensure_open_run_def\<close>)
  ultimately show ?thesis by simp
qed

text \<open>The run that is open belongs to its queue, and so does the run of a ticket.\<close>

lemma part_serving:
  assumes "queues_ok s" "run \<in> set (qs_run s)" "run_queue run = (site', q')" "(site', q') \<noteq> (site, q)"
  shows "part site q (set_run_serving site' (rn_run_id run) q' no s) = part site q s"
proof (rule part_eqI)
  show "filter (queue_of site q) (qs_queue (set_run_serving site' (rn_run_id run) q' no s)) = filter (queue_of site q) (qs_queue s)"
    unfolding set_run_serving_def using assms(4) by (simp, intro filter_map_outside) (auto simp: queue_of_def)
  have keys: "distinct (map run_key (qs_run s))" using assms(1) by (simp add: queues_ok_def runs_ok_def)
  have same: "r = run" if "r \<in> set (qs_run s)" "run_of site' (rn_run_id run) r" for r
    using distinct_key_eq [OF keys that(1) assms(2)] that(2) assms(3) by (simp add: run_of_def)
  have rows: "qs_run (set_run_serving site' (rn_run_id run) q' no s) =
      map (\<lambda>r. if run_of site' (rn_run_id run) r then r\<lparr> rn_serving_number := no \<rparr> else r) (qs_run s)"
    by (simp add: set_run_serving_def)
  show "filter (\<lambda>r. run_queue r = (site, q)) (qs_run (set_run_serving site' (rn_run_id run) q' no s)) = filter (\<lambda>r. run_queue r = (site, q)) (qs_run s)"
    unfolding rows
  proof (rule filter_map_outside)
    fix r assume r: "r \<in> set (qs_run s)"
    show "(if run_of site' (rn_run_id run) r then r\<lparr> rn_serving_number := no \<rparr> else r) = r" if "run_queue r = (site, q)"
      using same [OF r] that assms(3,4) by auto
  qed auto
qed (simp add: set_run_serving_def)

lemma part_skip: "(site', q') \<noteq> (site, q) \<Longrightarrow> part site q (skip_called now site' q' run s) = part site q s"
  unfolding skip_called_def by (rule part_eqI) (simp_all, intro filter_map_outside, auto simp: ticket_of_def)

lemma part_call:
  assumes "queues_ok s" "row \<in> set (qs_ticket s)" "(tk_site_iid row, tk_queue_id row) = (site', q')" "(site', q') \<noteq> (site, q)"
  shows "part site q (call_ticket now site' (tk_ticket_id row) s) = part site q s"
proof -
  have keys: "distinct (map ticket_key (qs_ticket s))" using assms(1) by (simp add: queues_ok_def tickets_ok_def)
  have same: "t = row" if "t \<in> set (qs_ticket s)" "tk_site_iid t = site' \<and> tk_ticket_id t = tk_ticket_id row" for t
    using distinct_key_eq [OF keys that(1) assms(2)] that(2) assms(3) by simp
  show ?thesis unfolding call_ticket_def
    by (rule part_eqI) (simp_all, intro filter_map_outside, use same assms(3,4) in auto)
qed

lemma part_default: "(site', q') \<noteq> (site, q) \<Longrightarrow> part site q (ensure_default_queue site' owner q' s) = part site q s"
  unfolding ensure_default_queue_def by (auto simp: part_def queue_of_def)

lemma part_commit:
  assumes "queues_ok s" "tp_run p \<in> set (qs_run s)" "is_open site' (tp_queue_id p) (tp_run p)" "(site', tp_queue_id p) \<noteq> (site, q)"
  shows "part site q (snd (take_commit e s site' name phone p)) = part site q s"
proof -
  have keys: "distinct (map run_key (qs_run s))" using assms(1) by (simp add: queues_ok_def runs_ok_def)
  have run: "run_queue (tp_run p) = (site', tp_queue_id p)" using assms(3) by (simp add: is_open_def)
  have same: "r = tp_run p" if "r \<in> set (qs_run s)" "run_of site' (rn_run_id (tp_run p)) r" for r
    using distinct_key_eq [OF keys that(1) assms(2)] that(2) run by (simp add: run_of_def)
  have queue: "filter (queue_of site q) (map (\<lambda>r. if queue_of site' (tp_queue_id p) r then r\<lparr> qu_last_ticket_no := f r \<rparr> else r) qs) =
      filter (queue_of site q) qs" for f qs
    using assms(4) by (intro filter_map_outside) (auto simp: queue_of_def)
  have runs: "filter (\<lambda>r. run_queue r = (site, q)) (map (\<lambda>r. if run_of site' (rn_run_id (tp_run p)) r then r\<lparr> rn_next_number := f r \<rparr> else r) (qs_run s)) =
      filter (\<lambda>r. run_queue r = (site, q)) (qs_run s)" for f
  proof (rule filter_map_outside)
    fix r assume r: "r \<in> set (qs_run s)"
    show "(if run_of site' (rn_run_id (tp_run p)) r then r\<lparr> rn_next_number := f r \<rparr> else r) = r" if "run_queue r = (site, q)"
      using same [OF r] that run assms(4) by auto
  qed auto
  have row: "(tk_site_iid (take_ticket e site' name phone p a), tk_queue_id (take_ticket e site' name phone p a)) = (site', tp_queue_id p)" for a
    by (simp add: take_ticket_def Let_def)
  show ?thesis using queue runs row assms(4)
    by (auto simp: take_commit_def Let_def bump_run_after_ticket_def part_def split: option.splits sum.splits if_splits)
qed

section \<open>Every call\<close>

text \<open>The queue a call is about.\<close>

fun call_queue :: "queue_call \<Rightarrow> i64 \<times> i64" where
  "call_queue (QueuePut caller site req) = (site, case req of None \<Rightarrow> 0 | Some queue \<Rightarrow> resolve_queue_id (sq_queue_id queue))"
| "call_queue (CallNext caller site q) = (site, resolve_queue_id q)"
| "call_queue (AdvanceServing caller site q) = (site, resolve_queue_id q)"
| "call_queue (TicketSetStatus caller site q tid status) = (site, resolve_queue_id q)"
| "call_queue (QueueReset caller site q) = (site, resolve_queue_id q)"
| "call_queue (QueueBoard caller site q) = (site, resolve_queue_id q)"
| "call_queue (QueueTake site q name phone answers) = (site, resolve_queue_id q)"

lemma part_upsert:
  assumes "\<And>r. queue_key (upd r) = queue_key r" "queue_key new = (site', q')" "(site', q') \<noteq> (site, q)"
  shows "filter (queue_of site q) (upsert (queue_of site' q') upd new rows) = filter (queue_of site q) rows"
proof -
  have diff: "\<not> queue_of site q r" if "queue_of site' q' r" for r using that assms(3) by (auto simp: queue_of_def)
  have "filter (queue_of site q) (map (\<lambda>r. if queue_of site' q' r then upd r else r) rows) = filter (queue_of site q) rows"
    using assms(1) diff by (intro filter_map_outside) (auto simp: queue_of_def)
  moreover have "\<not> queue_of site q new" using assms(2) diff by (simp add: queue_of_def)
  ultimately show ?thesis by (simp add: upsert_def)
qed

lemma part_put:
  assumes "call_queue (QueuePut caller site' req) \<noteq> (site, q)"
  shows "part site q (snd (site_queue_put e s caller site' req)) = part site q s"
proof (cases req)
  case (Some queue)
  define q' where "q' = resolve_queue_id (sq_queue_id queue)"
  have ne: "(site', q') \<noteq> (site, q)" using assms Some by (simp add: q'_def)
  note put = site_queue_put_def Some resolve_queue_id_def [symmetric] q'_def [symmetric]
  show ?thesis
  proof (cases "site_grant_check (qs_access s) caller site' True")
    case (Inr owner)
    show ?thesis
      by (cases "varchar 32 (if sq_mode queue = [] then ''fifo'' else sq_mode queue)"; cases "varchar 16 (sq_prefix queue)";
          cases "qe_pg_json e (or_text ''[]'' (sq_fields_json queue))"; cases "qe_pg_json e (or_text DEFAULT_RESET (sq_reset_policy_json queue))";
          cases "qe_pg_json e (or_text ''{}'' (sq_meta_json queue))")
        (simp_all add: put Inr Let_def part_def part_upsert [OF _ _ ne])
  qed (simp add: put)
qed (simp add: site_queue_put_def)

lemma part_call_next:
  assumes "queues_ok s" "(site', resolve_queue_id queue_id) \<noteq> (site, q)"
  shows "part site q (snd (site_queue_call_next e s caller site' queue_id)) = part site q s"
proof -
  define q' where "q' = resolve_queue_id queue_id"
  obtain r s' where c: "site_queue_call_next e s caller site' queue_id = (r, s')" by fastforce
  from assms(1) c show ?thesis
  proof (cases rule: call_next_cases)
    case (refused err)
    then show ?thesis using c part_ensure_open_run [OF _ assms(2)]
      by (auto simp: site_queue_call_next_def Let_def split: sum.splits prod.splits list.splits)
  next
    case (ok owner qrow run s1 row rest)
    let ?s2 = "skip_called (qe_now e) site' q' (rn_run_id run) s1"
    let ?s3 = "call_ticket (qe_now e) site' (tk_ticket_id row) ?s2"
    have run: "run \<in> set (qs_run ?s3)" "run_queue run = (site', q')"
      using ensure_open_run_ok [OF assms(1) ok(4)] by (auto simp: is_open_def q'_def call_ticket_def skip_called_def)
    have "row \<in> set (waiting site' q' (rn_run_id run) ?s2)" using ok(8) by (simp add: q'_def)
    then have row: "row \<in> set (qs_ticket ?s2)" "(tk_site_iid row, tk_queue_id row) = (site', q')"
      by (simp_all add: waiting_def ticket_of_def)
    have "part site q s' = part site q ?s3"
      using part_serving [of ?s3 run site' q'] run assms(2) ok(5,9) by (simp add: q'_def queues_ok_call queues_ok_skip)
    also have "\<dots> = part site q ?s2"
      using part_call [of ?s2 row site' q'] row assms(2) ok(5) by (simp add: q'_def queues_ok_skip)
    also have "\<dots> = part site q s1" using assms(2) by (simp add: part_skip q'_def)
    also have "\<dots> = part site q s" using part_ensure_open_run [OF ok(4) assms(2)] .
    finally show ?thesis using c by simp
  qed
qed

lemma part_set_status:
  assumes "queues_ok s" "(site', resolve_queue_id queue_id) \<noteq> (site, q)"
  shows "part site q (snd (site_queue_ticket_set_status e s caller site' queue_id tid status)) = part site q s"
proof -
  define q' where "q' = resolve_queue_id queue_id"
  let ?hit = "\<lambda>t. tk_site_iid t = site' \<and> tk_ticket_id t = tid \<and> tk_queue_id t = q' \<and> \<not> tk_deleted t"
  define s1 where "s1 = s\<lparr> qs_ticket := map (\<lambda>t. if ?hit t then with_status (qe_now e) (to_lowercase (trim status)) t else t) (qs_ticket s) \<rparr>"
  have rows: "qs_ticket s1 = map (\<lambda>t. if ?hit t then with_status (qe_now e) (to_lowercase (trim status)) t else t) (qs_ticket s)"
    by (simp add: s1_def)
  have s1: "part site q s1 = part site q s"
  proof (rule part_eqI)
    show "filter (\<lambda>t. (tk_site_iid t, tk_queue_id t) = (site, q)) (qs_ticket s1) = filter (\<lambda>t. (tk_site_iid t, tk_queue_id t) = (site, q)) (qs_ticket s)"
      unfolding rows
    proof (rule filter_map_outside)
      fix t
      show "(if ?hit t then with_status (qe_now e) (to_lowercase (trim status)) t else t) = t" if "(tk_site_iid t, tk_queue_id t) = (site, q)"
        using that assms(2) by (auto simp: q'_def)
    qed (simp add: with_status_def)
  qed (simp_all add: s1_def)
  have "part site q (set_run_serving site' (tk_run_id old) q' no s1) = part site q s" if "find ?hit (qs_ticket s) = Some old" for old no
  proof -
    have old: "old \<in> set (qs_ticket s)" "tk_site_iid old = site'" "tk_queue_id old = q'"
      using that by (auto simp: find_Some_iff)
    then obtain r where r: "r \<in> set (qs_run s)" "run_queue r = (site', q')" "rn_run_id r = tk_run_id old"
      using assms(1) by (auto simp: queues_ok_def tickets_ok_def run_of_def)
    have "queues_ok s1" using assms(1) unfolding s1_def by (rule queues_ok_status)
    from part_serving [OF this _ r(2)] r assms(2) s1 show ?thesis by (simp add: q'_def s1_def)
  qed
  with s1 show ?thesis
    by (auto simp: site_queue_ticket_set_status_def Let_def q'_def [symmetric] s1_def [symmetric] with_status_def [of _ _ old for old]
        split: sum.splits option.splits)
qed

lemma part_take:
  assumes "queues_ok s" "(site', resolve_queue_id queue_id) \<noteq> (site, q)"
  shows "part site q (snd (guest_queue_take e s site' queue_id name phone answers)) = part site q s"
proof -
  obtain r s1 where r: "take_read e s site' queue_id answers = (r, s1)" by fastforce
  note d = queues_ok_default [OF assms(1)]
  have "part site q s1 = part site q s"
    using r part_ensure_open_run [OF _ assms(2)] part_default [OF assms(2)]
    by (auto simp: take_read_def Let_def split: if_splits sum.splits prod.splits)
  moreover have "part site q (snd (take_commit e s1 site' name phone p)) = part site q s1" if "r = Inr (Inr p)" for p
  proof -
    have "tp_queue_id p = resolve_queue_id queue_id" "queues_ok s1" "tp_run p \<in> set (qs_run s1)" "is_open site' (tp_queue_id p) (tp_run p)"
      using r that ensure_open_run_ok [OF d] by (auto simp: take_read_def Let_def split: if_splits sum.splits prod.splits)
    with assms(2) show ?thesis by (intro part_commit) auto
  qed
  ultimately show ?thesis by (auto simp: guest_queue_take_def r split: sum.splits)
qed

lemma queue_step_part:
  assumes "queues_ok s" "call_queue c \<noteq> (site, q)"
  shows "part site q (queue_step (e, c) s) = part site q s"
proof (cases c)
  case (QueuePut caller site' req)
  with assms(2) show ?thesis by (simp add: part_put del: call_queue.simps)
next
  case (AdvanceServing caller site' q')
  with assms part_call_next [of s site' q' site q e caller] show ?thesis
    by (auto simp: site_queue_advance_serving_def split: prod.splits sum.splits)
next
  case (QueueReset caller site' q')
  with assms(2) show ?thesis
    by (auto simp: site_queue_reset_def split: sum.splits prod.splits dest: part_open_new_run)
next
  case (QueueBoard caller site' q')
  with assms(2) show ?thesis
    by (auto simp: site_queue_board_def board_build_def split: sum.splits prod.splits option.splits dest: part_ensure_open_run)
qed (use assms in \<open>simp_all add: part_call_next part_set_status part_take\<close>)

text \<open>Queues are independent: whatever staff and guests call on other queues, of the same site or of
  others, neither the row, nor the runs, nor the tickets of a queue change.\<close>

theorem queues_independent:
  assumes "queues_ok s" "\<forall>c\<in>set cs. call_queue (snd c) \<noteq> (site, q)"
  shows "part site q (fold queue_step cs s) = part site q s"
  using assms
proof (induction cs arbitrary: s)
  case (Cons c cs)
  then have "part site q (queue_step c s) = part site q s" by (cases c) (simp add: queue_step_part)
  with Cons queue_step_ok show ?case by simp
qed simp

theorem queues_independent_witness:
  "queues_ok test_room \<and> part 1 1 (fold queue_step [(test_queue_env 3, QueueTake 1 2 ''Citra'' '''' ''''), (test_queue_env 4, CallNext 60 1 2)] test_room) = part 1 1 test_room"
proof -
  let ?cs = "[(test_queue_env 3, QueueTake 1 2 ''Citra'' '''' ''''), (test_queue_env 4, CallNext 60 1 2)]"
  have ok: "queues_ok test_room" by code_simp
  have "list_all (\<lambda>c. call_queue (snd c) \<noteq> (1, 1)) ?cs" by code_simp
  then have "\<forall>c\<in>set ?cs. call_queue (snd c) \<noteq> (1, 1)" by (simp only: list_all_iff)
  from ok queues_independent [OF ok this] show ?thesis by blast
qed

end
