(* ===== verification/Queue_Turn.thy ===== *)
theory Queue_Turn
  imports Queue_Parts
begin

text \<open>
  The order of service: tickets of a run are called in the order in which they were taken. The locale
  \<open>fifo_line\<close> is the contract of a line that calls its head and lets others join at the end; it is
  interpreted on the open run of a queue, where it gives every guest a turn.
\<close>

section \<open>Lines\<close>

fun works_along :: "('c \<Rightarrow> 's \<Rightarrow> bool) \<Rightarrow> ('c \<Rightarrow> 's \<Rightarrow> 's) \<Rightarrow> 'c list \<Rightarrow> 's \<Rightarrow> bool" where
  "works_along works step [] s \<longleftrightarrow> True"
| "works_along works step (c # cs) s \<longleftrightarrow> works c s \<and> works_along works step cs (step c s)"

locale fifo_line =
  fixes step :: "'c \<Rightarrow> 's \<Rightarrow> 's"
    and good :: "'s \<Rightarrow> bool"
    and line :: "'s \<Rightarrow> 'a list"
    and called :: "'s \<Rightarrow> 'a \<Rightarrow> bool"
    and calls :: "'c \<Rightarrow> bool"
    and works :: "'c \<Rightarrow> 's \<Rightarrow> bool"
  assumes call_head: "good s \<Longrightarrow> works c s \<Longrightarrow> calls c \<Longrightarrow> line s = x # xs \<Longrightarrow>
      good (step c s) \<and> line (step c s) = xs \<and> called (step c s) x"
    and join_end: "good s \<Longrightarrow> works c s \<Longrightarrow> \<not> calls c \<Longrightarrow> good (step c s) \<and> (\<exists>ys. line (step c s) = line s @ ys)"
begin

lemma turn:
  assumes "good s" "works_along works step (cs @ [c]) s" "calls c" "length (filter calls cs) < length (line s)"
  shows "called (fold step (cs @ [c]) s) (line s ! length (filter calls cs))"
  using assms
proof (induction cs arbitrary: s)
  case Nil
  then obtain x xs where "line s = x # xs" by (cases "line s") auto
  with Nil call_head [of s c x xs] show ?case by simp
next
  case (Cons d cs)
  show ?case
  proof (cases "calls d")
    case True
    then obtain x xs where x: "line s = x # xs" using Cons.prems(4) by (cases "line s") auto
    with True Cons.prems call_head [of s d x xs] have "good (step d s)" "line (step d s) = xs" by simp_all
    with Cons.IH [of "step d s"] Cons.prems x True show ?thesis by simp
  next
    case False
    with Cons.prems join_end [of s d] obtain ys where "good (step d s)" "line (step d s) = line s @ ys" by auto
    with Cons.IH [of "step d s"] Cons.prems False show ?thesis by (simp add: nth_append)
  qed
qed

end

section \<open>Sorted lists\<close>

lemma insort_key_snoc: "f x \<le> f y \<Longrightarrow> insort_key f x (zs @ [y]) = insort_key f x zs @ [y]"
  by (induction zs) auto

lemma sort_key_snoc: "\<forall>x\<in>set xs. f x \<le> f y \<Longrightarrow> sort_key f (xs @ [y]) = sort_key f xs @ [y]"
  by (induction xs) (auto simp: insort_key_snoc)

lemma count_less_sorted:
  fixes f :: "'a \<Rightarrow> 'b::linorder"
  assumes "sorted_wrt (\<lambda>a b. f a < f b) xs" "k < length xs"
  shows "length (filter (\<lambda>x. f x < f (xs ! k)) xs) = k"
  using assms
proof (induction xs arbitrary: k)
  case (Cons x xs)
  show ?case
  proof (cases k)
    case 0
    then have "filter (\<lambda>y. f y < f x) xs = []" using Cons.prems by (auto simp: filter_empty_conv)
    with 0 show ?thesis by simp
  next
    case (Suc j)
    with Cons have "length (filter (\<lambda>y. f y < f (xs ! j)) xs) = j" "f x < f (xs ! j)" by auto
    with Suc show ?thesis by simp
  qed
qed simp

section \<open>The waiting tickets of a run\<close>

lemma waiting_set: "t \<in> set (waiting site q run s) \<longleftrightarrow> t \<in> set (qs_ticket s) \<and> ticket_of site q run t \<and> tk_status t = ''waiting''"
  by (simp add: waiting_def)

lemma ticket_below:
  assumes "queues_ok s" "t \<in> set (qs_ticket s)" "ticket_of site q run t" "r \<in> set (qs_run s)" "run_key r = (site, run)"
  shows "sint (tk_ticket_no t) < sint (rn_next_number r)"
proof -
  have keys: "distinct (map run_key (qs_run s))" using assms(1) by (simp add: queues_ok_def runs_ok_def)
  obtain r' where r': "r' \<in> set (qs_run s)" "run_of (tk_site_iid t) (tk_run_id t) r'" "tk_ticket_no t <s rn_next_number r'"
    using assms(1,2) by (auto simp: queues_ok_def tickets_ok_def)
  moreover have "r' = r" using distinct_key_eq [OF keys r'(1) assms(4)] r'(2) assms(3,5) by (simp add: run_of_def ticket_of_def)
  ultimately show ?thesis by (simp add: word_sless_alt)
qed

lemma waiting_sorted:
  assumes "queues_ok s"
  shows "sorted_wrt (\<lambda>a b. sint (tk_ticket_no a) < sint (tk_ticket_no b)) (waiting site q run s)"
proof -
  let ?k = "\<lambda>t. sint (tk_ticket_no t)" and ?w = "filter (\<lambda>t. ticket_of site q run t \<and> tk_status t = ''waiting'') (qs_ticket s)"
  have slots: "distinct (map ticket_slot (qs_ticket s))" using assms by (simp add: queues_ok_def tickets_ok_def)
  then have d: "distinct (map ticket_slot ?w)" by (rule distinct_map_filter)
  have "inj_on ?k (set ?w)"
  proof (rule inj_onI)
    fix a b assume ab: "a \<in> set ?w" "b \<in> set ?w" "?k a = ?k b"
    then have "tk_ticket_no a = tk_ticket_no b" by (simp only: signed_word_eqI)
    with ab have "ticket_slot a = ticket_slot b" by (auto simp: ticket_of_def)
    then show "a = b" using ab slots distinct_key_eq [of ticket_slot "qs_ticket s" a b] by auto
  qed
  then have "distinct (map ?k (waiting site q run s))" using d unfolding waiting_def by (auto simp: distinct_map)
  moreover have "sorted (map ?k (waiting site q run s))" unfolding waiting_def by (rule sorted_sort_key)
  ultimately have "sorted_wrt (<) (map ?k (waiting site q run s))" by (simp only: strict_sorted_iff)
  then show ?thesis by (simp add: sorted_wrt_map)
qed

lemma waiting_skip: "waiting site q run (skip_called now site' q' run' s) = waiting site q run s"
proof -
  have "filter (\<lambda>t. ticket_of site q run t \<and> tk_status t = ''waiting'') (map (\<lambda>t. if ticket_of site' q' run' t \<and> tk_status t \<in> set [''called'', ''serving'']
      then t\<lparr> tk_status := ''skipped'', tk_done_at := Some now \<rparr> else t) ts) = filter (\<lambda>t. ticket_of site q run t \<and> tk_status t = ''waiting'') ts" for ts
    by (induction ts) (auto simp: ticket_of_def)
  then show ?thesis by (simp add: waiting_def skip_called_def)
qed

lemma none_called:
  assumes "v \<in> set (qs_ticket (skip_called now site q run s))"
  shows "\<not> (ticket_of site q run v \<and> tk_status v \<in> {''called'', ''serving''})"
proof -
  let ?hit = "\<lambda>t. ticket_of site q run t \<and> tk_status t \<in> set [''called'', ''serving'']"
  from assms have "v \<in> (\<lambda>t. if ?hit t then t\<lparr> tk_status := ''skipped'', tk_done_at := Some now \<rparr> else t) ` set (qs_ticket s)"
    by (simp add: skip_called_def)
  then obtain t where v: "v = (if ?hit t then t\<lparr> tk_status := ''skipped'', tk_done_at := Some now \<rparr> else t)" by (rule imageE)
  show ?thesis by (cases "?hit t") (simp_all add: v)
qed

lemma waiting_serving: "waiting site q run (set_run_serving site' run' q' no s) = waiting site q run s"
  by (simp add: waiting_def set_run_serving_def)

lemma waiting_call:
  assumes "queues_ok s" "waiting site q run s = row # rest"
  shows "waiting site q run (call_ticket now site (tk_ticket_id row) s) = rest"
proof -
  let ?P = "\<lambda>t. ticket_of site q run t \<and> tk_status t = ''waiting''" and ?k = "\<lambda>t. sint (tk_ticket_no t)"
  let ?f = "\<lambda>t. if tk_site_iid t = site \<and> tk_ticket_id t = tk_ticket_id row then t\<lparr> tk_status := ''called'', tk_called_at := Some now \<rparr> else t"
  have keys: "distinct (map ticket_key (qs_ticket s))" using assms(1) by (simp add: queues_ok_def tickets_ok_def)
  have "filter ?P (map ?f ts) = filter (\<lambda>t. tk_ticket_id t \<noteq> tk_ticket_id row) (filter ?P ts)" for ts
    by (induction ts) (auto simp: ticket_of_def)
  then have "waiting site q run (call_ticket now site (tk_ticket_id row) s) = filter (\<lambda>t. tk_ticket_id t \<noteq> tk_ticket_id row) (row # rest)"
    unfolding waiting_def call_ticket_def by (simp add: assms(2) [unfolded waiting_def, symmetric] filter_sort)
  also have "\<dots> = rest"
  proof -
    have "distinct (map ticket_key (filter ?P (qs_ticket s)))" using keys by (rule distinct_map_filter)
    then have d: "distinct (map ticket_key (row # rest))"
      unfolding assms(2) [symmetric] waiting_def by (simp add: distinct_map)
    have "tk_site_iid t = site" if "t \<in> set (row # rest)" for t
      using that waiting_set [of t site q run s] unfolding assms(2) by (auto simp: ticket_of_def)
    then have "tk_ticket_id t \<noteq> tk_ticket_id row" if "t \<in> set rest" for t
      using that d by (auto simp: image_iff)
    then show ?thesis by simp
  qed
  finally show ?thesis .
qed

section \<open>Calling the next ticket\<close>

lemma call_next_effect:
  assumes "queues_ok s" "site_queue_call_next e s caller site queue_id = (Inr t, s')"
  shows "\<exists>r. open_run s' site (resolve_queue_id queue_id) = Some r \<and> rn_run_id r = tk_run_id t \<and>
    rn_serving_number r = tk_ticket_no t \<and>
    waiting site (resolve_queue_id queue_id) (tk_run_id t) s = t # waiting site (resolve_queue_id queue_id) (tk_run_id t) s' \<and>
    (\<forall>u\<in>set (qs_ticket s'). ticket_of site (resolve_queue_id queue_id) (tk_run_id t) u \<and> tk_status u \<in> {''called'', ''serving''} \<longleftrightarrow>
       ticket_key u = ticket_key t) \<and>
    (\<exists>u\<in>set (qs_ticket s'). ticket_key u = ticket_key t \<and> tk_status u = ''called'')"
  using assms
proof (cases rule: call_next_cases)
  case (ok owner qrow run s1 row rest)
  define q where "q = resolve_queue_id queue_id"
  define s2 where "s2 = skip_called (qe_now e) site q (rn_run_id run) s1"
  have s': "s' = set_run_serving site (rn_run_id run) q (tk_ticket_no row) (call_ticket (qe_now e) site (tk_ticket_id row) s2)"
    using ok(9) by (simp add: q_def s2_def)
  have w2: "waiting site q (rn_run_id run) s2 = row # rest" using ok(8) by (simp add: q_def s2_def)
  then have w: "waiting site q (rn_run_id run) s = row # rest"
    using ok(6) by (simp add: s2_def waiting_skip) (simp add: waiting_def)
  have ok2: "queues_ok s2" using ok(5) by (simp add: s2_def queues_ok_skip)
  have row: "row \<in> set (qs_ticket s2)" "ticket_of site q (rn_run_id run) row" "tk_status row = ''waiting''"
    using waiting_set [of row site q "rn_run_id run" s2] w2 by auto
  have id: "tk_run_id row = rn_run_id run" "tk_site_iid row = site" using row(2) by (auto simp: ticket_of_def)
  have run: "run \<in> set (qs_run s1)" "is_open site q run" using ensure_open_run_ok [OF assms(1) ok(4)] by (simp_all add: q_def)
  let ?run = "run\<lparr> rn_serving_number := tk_ticket_no row \<rparr>"
  have "run_of site (rn_run_id run) run" using run(2) by (simp add: is_open_def run_of_def)
  then have "?run \<in> set (qs_run s')"
    using run(1) by (auto simp: s' set_run_serving_def call_ticket_def s2_def skip_called_def image_iff intro!: bexI [of _ run])
  moreover have "queues_ok s'" using ok2 by (simp add: s' queues_ok_serving queues_ok_call)
  ultimately have o: "open_run s' site q = Some ?run"
    using run(2) by (intro open_run_unique) (simp_all add: queues_ok_def is_open_def)
  have rest: "waiting site q (rn_run_id run) s' = rest" using waiting_call [OF ok2 w2] by (simp add: s' waiting_serving)
  have called: "ticket_of site q (rn_run_id run) u \<and> tk_status u \<in> {''called'', ''serving''} \<longleftrightarrow> ticket_key u = ticket_key row"
    if u: "u \<in> set (qs_ticket s')" for u
  proof -
    obtain v where v: "v \<in> set (qs_ticket s2)" "u = (if tk_site_iid v = site \<and> tk_ticket_id v = tk_ticket_id row
        then v\<lparr> tk_status := ''called'', tk_called_at := Some (qe_now e) \<rparr> else v)"
      using u by (auto simp: s' set_run_serving_def call_ticket_def)
    have nc: "\<not> (ticket_of site q (rn_run_id run) v \<and> tk_status v \<in> {''called'', ''serving''})"
      using v(1) unfolding s2_def by (rule none_called)
    show ?thesis
    proof (cases "ticket_key v = ticket_key row")
      case True
      then have "v = row"
        using distinct_key_eq [of ticket_key, OF _ v(1) row(1)] ok2 by (simp add: queues_ok_def tickets_ok_def)
      with v(2) row(2) id(2) show ?thesis by (simp add: ticket_of_def)
    next
      case False
      with v(2) id(2) have "u = v" by auto
      with nc False show ?thesis by auto
    qed
  qed
  have "\<exists>u\<in>set (qs_ticket s'). ticket_key u = ticket_key row \<and> tk_status u = ''called''"
    using row(1) id(2) by (intro bexI [of _ "row\<lparr> tk_status := ''called'', tk_called_at := Some (qe_now e) \<rparr>"])
      (auto simp: s' set_run_serving_def call_ticket_def image_iff)
  then show ?thesis using ok(1) o w rest called id by (simp add: q_def)
qed simp

text \<open>Claim C17. First come, first served: \<open>site_queue_call_next\<close> calls the waiting ticket with the smallest
  number of the open run. Afterwards it is the only ticket of the run that is called or being served
  (earlier ones are skipped), the others wait in the same order, and the run shows its number. When it
  is refused, because nobody waits for instance, no ticket changes.\<close>

theorem call_next_fifo:
  assumes "queues_ok s"
  shows "case site_queue_call_next e s caller site queue_id of
      (Inl err, s') \<Rightarrow> qs_ticket s' = qs_ticket s
    | (Inr t, s') \<Rightarrow> (\<exists>r. open_run s' site (resolve_queue_id queue_id) = Some r \<and> rn_run_id r = tk_run_id t \<and>
        rn_serving_number r = tk_ticket_no t \<and>
        waiting site (resolve_queue_id queue_id) (tk_run_id t) s = t # waiting site (resolve_queue_id queue_id) (tk_run_id t) s' \<and>
        (\<forall>u\<in>set (qs_ticket s'). ticket_of site (resolve_queue_id queue_id) (tk_run_id t) u \<and> tk_status u \<in> {''called'', ''serving''} \<longleftrightarrow>
           ticket_key u = ticket_key t) \<and>
        (\<exists>u\<in>set (qs_ticket s'). ticket_key u = ticket_key t \<and> tk_status u = ''called''))"
proof -
  obtain res s' where c: "site_queue_call_next e s caller site queue_id = (res, s')" by fastforce
  show ?thesis
  proof (cases res)
    case (Inl err)
    from assms c have "qs_ticket s' = qs_ticket s" by (cases rule: call_next_cases) (simp_all add: Inl)
    with c Inl show ?thesis by simp
  next
    case (Inr t)
    with c call_next_effect [OF assms] show ?thesis by simp
  qed
qed

text \<open>The position a guest is shown is its place in the line.\<close>

lemma position_is_place:
  assumes "queues_ok s" "k < length (waiting site q run s)"
  shows "position_ahead s site q run (tk_ticket_no (waiting site q run s ! k)) = k"
proof -
  let ?w = "waiting site q run s"
  have "position_ahead s site q run (tk_ticket_no (?w ! k)) =
      length (filter (\<lambda>t. sint (tk_ticket_no t) < sint (tk_ticket_no (?w ! k))) (filter (\<lambda>t. ticket_of site q run t \<and> tk_status t = ''waiting'') (qs_ticket s)))"
    unfolding position_ahead_def filter_filter by (simp add: word_sless_alt conj_assoc)
  also have "\<dots> = length (filter (\<lambda>t. sint (tk_ticket_no t) < sint (tk_ticket_no (?w ! k))) ?w)"
    unfolding waiting_def filter_sort by simp
  also have "\<dots> = k" using count_less_sorted [OF waiting_sorted [OF assms(1)] assms(2)] .
  finally show ?thesis .
qed

section \<open>Every guest gets a turn\<close>

text \<open>No reset is due: the queue has an open run that started after the last boundary of its policy.\<close>

definition day_running :: "queue_env \<Rightarrow> queues \<Rightarrow> i64 \<Rightarrow> i64 \<Rightarrow> bool" where
  "day_running e s site q =
     (case (load_queue_row s site q, open_run s site q) of
        (Inr qrow, Some r) \<Rightarrow> is_daily (qu_reset_policy qrow) \<longrightarrow>
          (case policy_boundary e (qu_reset_policy qrow) of Inl _ \<Rightarrow> False | Inr b \<Rightarrow> b \<le> rn_created r)
      | _ \<Rightarrow> False)"

lemma day_running_run:
  assumes "day_running e s site q" "open_run s site q = Some r"
  obtains qrow where "load_queue_row s site q = Inr qrow" "\<And>owner. ensure_open_run e s site q owner (qu_reset_policy qrow) = (Inr r, s)"
proof -
  obtain qrow where q: "load_queue_row s site q = Inr qrow" "is_daily (qu_reset_policy qrow) \<longrightarrow>
      (\<exists>b. policy_boundary e (qu_reset_policy qrow) = Inr b \<and> b \<le> rn_created r)"
    using assms by (auto simp: day_running_def split: sum.splits)
  have "ensure_open_run e s site q owner (qu_reset_policy qrow) = (Inr r, s)" for owner
    using q(2) assms(2) by (cases "is_daily (qu_reset_policy qrow)") (auto simp: ensure_open_run_def maybe_daily_reset_def)
  with q(1) show ?thesis by (rule that)
qed

fun calls_next :: "i64 \<Rightarrow> i64 \<Rightarrow> queue_env \<times> queue_call \<Rightarrow> bool" where
  "calls_next site q (e, CallNext caller site' q') \<longleftrightarrow> (site', resolve_queue_id q') = (site, q)"
| "calls_next site q (e, AdvanceServing caller site' q') \<longleftrightarrow> (site', resolve_queue_id q') = (site, q)"
| "calls_next site q (e, _) \<longleftrightarrow> False"

text \<open>A regular call: one on another queue, or one on this queue of staff that may call, a guest, the
  board or the editor while no reset is due. A ticket's status set by hand and a reset are not.\<close>

fun regular :: "i64 \<Rightarrow> i64 \<Rightarrow> queue_env \<times> queue_call \<Rightarrow> queues \<Rightarrow> bool" where
  "regular site q (e, CallNext caller site' q') s \<longleftrightarrow>
     (site', resolve_queue_id q') = (site, q) \<longrightarrow> \<not> isl (site_grant_queue_staff (qs_access s) caller site) \<and> day_running e s site q"
| "regular site q (e, AdvanceServing caller site' q') s \<longleftrightarrow>
     (site', resolve_queue_id q') = (site, q) \<longrightarrow> \<not> isl (site_grant_queue_staff (qs_access s) caller site) \<and> day_running e s site q"
| "regular site q (e, QueuePut caller site' req) s \<longleftrightarrow> True"
| "regular site q (e, QueueBoard caller site' q') s \<longleftrightarrow> (site', resolve_queue_id q') = (site, q) \<longrightarrow> day_running e s site q"
| "regular site q (e, QueueTake site' q' name phone answers) s \<longleftrightarrow> (site', resolve_queue_id q') = (site, q) \<longrightarrow> day_running e s site q"
| "regular site q (e, TicketSetStatus caller site' q' tid status) s \<longleftrightarrow> (site', resolve_queue_id q') \<noteq> (site, q)"
| "regular site q (e, QueueReset caller site' q') s \<longleftrightarrow> (site', resolve_queue_id q') \<noteq> (site, q)"

definition in_run :: "i64 \<Rightarrow> i64 \<Rightarrow> i64 \<Rightarrow> queues \<Rightarrow> bool" where
  "in_run site q run s \<longleftrightarrow> queues_ok s \<and> map_option rn_run_id (open_run s site q) = Some run"

definition turn_of :: "i64 \<Rightarrow> i64 \<Rightarrow> queues \<Rightarrow> TicketRow \<Rightarrow> bool" where
  "turn_of site q s t \<longleftrightarrow> map_option rn_serving_number (open_run s site q) = Some (tk_ticket_no t) \<and>
     (\<exists>u\<in>set (qs_ticket s). ticket_key u = ticket_key t \<and> tk_status u = ''called'')"

lemma call_next_answers:
  assumes "in_run site (resolve_queue_id queue_id) run s" "\<not> isl (site_grant_queue_staff (qs_access s) caller site)"
    "day_running e s site (resolve_queue_id queue_id)" "waiting site (resolve_queue_id queue_id) run s = t # ts"
  shows "\<exists>s'. site_queue_call_next e s caller site queue_id = (Inr t, s') \<and> in_run site (resolve_queue_id queue_id) run s' \<and>
    waiting site (resolve_queue_id queue_id) run s' = ts \<and> turn_of site (resolve_queue_id queue_id) s' t"
proof -
  define q where "q = resolve_queue_id queue_id"
  obtain r where r: "open_run s site q = Some r" "rn_run_id r = run" "queues_ok s" using assms(1) by (auto simp: in_run_def q_def)
  obtain qrow where qrow: "load_queue_row s site q = Inr qrow" "\<And>owner. ensure_open_run e s site q owner (qu_reset_policy qrow) = (Inr r, s)"
    using day_running_run [OF _ r(1)] assms(3) by (auto simp: q_def)
  obtain owner where owner: "site_grant_queue_staff (qs_access s) caller site = Inr owner" using assms(2) by (cases "site_grant_queue_staff (qs_access s) caller site") auto
  have w: "waiting site q run s = t # ts" using assms(4) by (simp add: q_def)
  have "t \<in> set (waiting site q run s)" by (simp add: w)
  then have t: "tk_run_id t = run" by (simp add: waiting_set ticket_of_def)
  obtain s' where c: "site_queue_call_next e s caller site queue_id = (Inr t, s')"
    using owner qrow r(2) w by (simp add: site_queue_call_next_def q_def [symmetric] Let_def waiting_skip)
  from call_next_effect [OF r(3) c] call_next_ok [OF r(3), of e caller site queue_id] show ?thesis
    using c t w by (auto simp: in_run_def turn_of_def q_def [symmetric])
qed

text \<open>A guest joins the end of the line.\<close>

lemma take_read_running:
  assumes "open_run s site q = Some r" "day_running e s site q" "take_read e s site queue_id answers = (res, s1)" "q = resolve_queue_id queue_id"
  shows "s1 = s" "res = Inr (Inr p) \<Longrightarrow> tp_run p = r \<and> tp_queue_id p = q"
proof -
  obtain qrow where qrow: "load_queue_row s site q = Inr qrow" "\<And>owner. ensure_open_run e s site q owner (qu_reset_policy qrow) = (Inr r, s)"
    using day_running_run [OF assms(2,1)] by blast
  have d: "ensure_default_queue site owner q s = s" for owner
    using qrow(1) by (auto simp: load_queue_row_def ensure_default_queue_def list_ex_iff find_Some_iff split: option.splits)
  show "s1 = s" "res = Inr (Inr p) \<Longrightarrow> tp_run p = r \<and> tp_queue_id p = q"
    using assms(3) qrow d by (auto simp: take_read_def Let_def assms(4) [symmetric] split: if_splits sum.splits)
qed

lemma take_joins:
  assumes "in_run site (resolve_queue_id queue_id) run s" "day_running e s site (resolve_queue_id queue_id)"
  shows "\<exists>ys. in_run site (resolve_queue_id queue_id) run (snd (guest_queue_take e s site queue_id name phone answers)) \<and>
    waiting site (resolve_queue_id queue_id) run (snd (guest_queue_take e s site queue_id name phone answers)) =
      waiting site (resolve_queue_id queue_id) run s @ ys"
proof -
  define q where "q = resolve_queue_id queue_id"
  obtain r where r: "open_run s site q = Some r" "rn_run_id r = run" "queues_ok s" using assms(1) by (auto simp: in_run_def q_def)
  obtain res s1 where tr: "take_read e s site queue_id answers = (res, s1)" by fastforce
  have day: "day_running e s site q" using assms(2) by (simp add: q_def)
  note s1 = take_read_running(1) [OF r(1) day tr q_def] and run = take_read_running(2) [OF r(1) day tr q_def]
  have open': "r \<in> set (qs_run s)" "is_open site q r" using open_run_in [OF r(1)] by simp_all
  have "\<exists>ys. in_run site q run (snd (take_commit e s site name phone p)) \<and> waiting site q run (snd (take_commit e s site name phone p)) = waiting site q run s @ ys"
    if p: "tp_run p = r" "tp_queue_id p = q" for p
  proof -
    obtain a s' where c: "take_commit e s site name phone p = (a, s')" by fastforce
    then show ?thesis
    proof (cases rule: take_commit_cases)
      case (refused err)
      with c r assms(1) show ?thesis by (auto simp: q_def)
    next
      case (ok res answers row)
      have s': "queues_ok s'" using take_commit_ok [OF r(3), of p site e name phone] open' p c by simp
      have row: "tk_ticket_no row = rn_next_number r" "ticket_of site q run row" "tk_status row = ''waiting''"
        using ok(2) p r(2) by (simp_all add: take_ticket_def Let_def ticket_of_def)
      let ?r = "bump_run site run (tk_ticket_no row) r"
      have "?r \<in> set (qs_run s')" "is_open site q ?r" "rn_run_id ?r = run"
        using ok(8) p r(2) open' by (auto simp: bump_run_def is_open_def)
      then have "in_run site q run s'" using s' open_run_unique [of s' ?r site q] by (simp add: in_run_def queues_ok_def)
      moreover have "waiting site q run s' = waiting site q run s @ [row]"
      proof -
        have "sint (tk_ticket_no t) \<le> sint (tk_ticket_no row)" if "t \<in> set (qs_ticket s)" "ticket_of site q run t" for t
          using ticket_below [OF r(3) that open'(1)] open'(2) r(2) row(1) by (simp add: is_open_def order.strict_implies_order)
        then show ?thesis unfolding waiting_def ok(7) using row by (simp add: sort_key_snoc)
      qed
      ultimately show ?thesis using c by auto
    qed
  qed
  then show ?thesis using tr s1 run assms(1) by (auto simp: guest_queue_take_def q_def [symmetric] split: sum.splits)
qed

lemma part_in_run: "in_run site q run s \<Longrightarrow> call_queue c \<noteq> (site, q) \<Longrightarrow>
    in_run site q run (queue_step (e, c) s) \<and> waiting site q run (queue_step (e, c) s) = waiting site q run s"
proof -
  assume "in_run site q run s" "call_queue c \<noteq> (site, q)"
  then have "part site q (queue_step (e, c) s) = part site q s" "queues_ok s" by (auto simp: in_run_def queue_step_part)
  then have "open_run (queue_step (e, c) s) site q = open_run s site q" "waiting site q run (queue_step (e, c) s) = waiting site q run s"
      "queues_ok (queue_step (e, c) s)"
    by - (erule open_run_part, erule waiting_part, erule queue_step_ok)
  with \<open>in_run site q run s\<close> show ?thesis by (simp add: in_run_def)
qed

lemma regular_join:
  assumes s: "in_run site q run s" and reg: "regular site q (e, c) s" and no: "\<not> calls_next site q (e, c)"
  shows "in_run site q run (queue_step (e, c) s) \<and> (\<exists>ys. waiting site q run (queue_step (e, c) s) = waiting site q run s @ ys)"
proof (cases "call_queue c = (site, q)")
  case False
  with part_in_run [OF s] show ?thesis by simp
next
  case True
  show ?thesis
  proof (cases c)
    case (QueuePut caller site' req)
    with queue_put_rows [of s e caller site' req] queue_put_ok [of s e caller site' req] s show ?thesis
      by (simp add: in_run_def open_run_def waiting_def)
  next
    case (QueueBoard caller site' q')
    with True reg have d: "day_running e s site q" and q: "site' = site" "resolve_queue_id q' = q" by auto
    obtain r where "open_run s site q = Some r" using s by (auto simp: in_run_def)
    with d have "snd (board_build e s site q) = s"
      by (elim day_running_run) (auto simp: board_build_def split: option.splits)
    with QueueBoard q s show ?thesis by (auto simp: site_queue_board_def split: sum.splits)
  next
    case (QueueTake site' q' name phone answers)
    with True reg take_joins [of site q' run s e name phone answers] s show ?thesis by auto
  qed (use True reg no in auto)
qed

lemma regular_call:
  assumes s: "in_run site q run s" and reg: "regular site q (e, c) s" and c: "calls_next site q (e, c)" and w: "waiting site q run s = t # ts"
  shows "in_run site q run (queue_step (e, c) s) \<and> waiting site q run (queue_step (e, c) s) = ts \<and> turn_of site q (queue_step (e, c) s) t"
proof (cases c)
  case (CallNext caller site' q')
  with reg c s w call_next_answers [of site q' run s caller e t ts] show ?thesis by auto
next
  case (AdvanceServing caller site' q')
  with reg c s w call_next_answers [of site q' run s caller e t ts] show ?thesis
    by (auto simp: site_queue_advance_serving_def)
qed (use c in auto)

interpretation room: fifo_line queue_step "in_run site q run" "waiting site q run" "turn_of site q" "calls_next site q" "regular site q"
  for site q run
proof unfold_locales
  fix s :: queues and c :: "queue_env \<times> queue_call" and x xs
  obtain e b where c: "c = (e, b)" by fastforce
  show "in_run site q run (queue_step c s) \<and> waiting site q run (queue_step c s) = xs \<and> turn_of site q (queue_step c s) x"
    if "in_run site q run s" "regular site q c s" "calls_next site q c" "waiting site q run s = x # xs"
    using that regular_call unfolding c by blast
  show "in_run site q run (queue_step c s) \<and> (\<exists>ys. waiting site q run (queue_step c s) = waiting site q run s @ ys)"
    if "in_run site q run s" "regular site q c s" "\<not> calls_next site q c"
    using that regular_join unfolding c by blast
qed

text \<open>Claim C16. Every guest gets a turn: a guest whose tracking page shows \<open>n\<close> tickets ahead is called by the
  call of the next ticket that follows \<open>n\<close> others. Until then any number of guests may join, the
  board may be shown, the queue edited and other queues used; what is needed is that the staff
  may call, that no daily reset is due and that no status of this queue is set by hand.\<close>

theorem served_in_turn:
  assumes "in_run site q run s" "t \<in> set (waiting site q run s)"
    and "works_along (regular site q) queue_step (cs @ [c]) s" "calls_next site q c"
    and "length (filter (calls_next site q) cs) = position_ahead s site q run (tk_ticket_no t)"
  shows "turn_of site q (fold queue_step (cs @ [c]) s) t"
proof -
  obtain k where k: "k < length (waiting site q run s)" "t = waiting site q run s ! k" using assms(2) by (metis in_set_conv_nth)
  then have "length (filter (calls_next site q) cs) = k"
    using assms(1,5) position_is_place [of s k site q run] by (simp add: in_run_def)
  with room.turn [OF assms(1,3,4)] k show ?thesis by simp
qed

section \<open>Examples\<close>

theorem call_next_fifo_witness:
  "queues_ok test_room \<and> (\<exists>t s'. site_queue_call_next (test_queue_env 3) test_room 60 1 1 = (Inr t, s') \<and>
     waiting 1 1 (tk_run_id t) test_room = t # waiting 1 1 (tk_run_id t) s')"
proof -
  have ok: "queues_ok test_room" by code_simp
  have r: "\<not> isl (fst (site_queue_call_next (test_queue_env 3) test_room 60 1 1))" by code_simp
  have one: "resolve_queue_id 1 = 1" by code_simp
  show ?thesis using ok r call_next_fifo [OF ok, where e = "test_queue_env 3" and caller = 60 and site = 1 and queue_id = 1]
    by (cases "site_queue_call_next (test_queue_env 3) test_room 60 1 1") (auto simp: one split: sum.splits)
qed

theorem served_in_turn_witness:
  "in_run 1 1 101 test_room \<and> turn_of 1 1 (fold queue_step ([(test_queue_env 3, CallNext 60 1 1), (test_queue_env 4, QueueTake 1 1 ''Citra'' '''' '''')] @
     [(test_queue_env 5, AdvanceServing 50 1 1)]) test_room) (waiting 1 1 101 test_room ! 1)"
proof -
  let ?cs = "[(test_queue_env 3, CallNext 60 1 1), (test_queue_env 4, QueueTake 1 1 ''Citra'' '''' '''')]"
  let ?c = "(test_queue_env 5, AdvanceServing 50 1 1)" and ?t = "waiting 1 1 101 test_room ! 1"
  have run: "in_run 1 1 101 test_room" by code_simp
  have "1 < length (waiting 1 1 101 test_room)" by code_simp
  then have t: "?t \<in> set (waiting 1 1 101 test_room)" by (rule nth_mem)
  have w: "works_along (regular 1 1) queue_step (?cs @ [?c]) test_room" by code_simp
  have c: "calls_next 1 1 ?c" by code_simp
  have n: "length (filter (calls_next 1 1) ?cs) = position_ahead test_room 1 1 101 (tk_ticket_no ?t)" by code_simp
  from run served_in_turn [OF run t w c n] show ?thesis by blast
qed

end
