(* ===== verification/Queue_Guest.thy ===== *)
theory Queue_Guest
  imports Queue_Turn
begin

text \<open>
  What a guest of a waiting room sees: the tracking page of a ticket just taken, and the race of two
  guests that take a ticket at the same time.
\<close>

section \<open>Tokens\<close>

lemma hex_digit_visible: "n < 16 \<Longrightarrow> \<not> is_whitespace (hex_digit n)"
  by (auto simp: is_whitespace_def hex_digit_def)

lemma show_hex_visible: "list_all (\<lambda>c. \<not> is_whitespace c) (show_hex n)"
proof (induction n rule: show_hex.induct)
  case (1 n)
  then show ?case by (subst show_hex.simps) (simp add: hex_digit_visible)
qed

lemma new_track_token_trim: "trim (new_track_token e) = new_track_token e"
proof (rule trim_visible)
  have "\<not> is_whitespace CHR ''0''" "\<not> is_whitespace CHR ''q''" "\<not> is_whitespace CHR ''t''" "\<not> is_whitespace CHR ''_''"
    by (simp_all add: is_whitespace_def)
  then show "list_all (\<lambda>c. \<not> is_whitespace c) (new_track_token e)"
    using show_hex_visible by (auto simp: new_track_token_def pad_zeros_def list_all_iff)
qed

section \<open>Taking a ticket\<close>

lemma ticket_with_run_only:
  assumes "queues_ok s" "t \<in> set (qs_ticket s)" "P t" "\<not> tk_deleted t" "r \<in> set (qs_run s)" "run_key r = (tk_site_iid t, tk_run_id t)"
    and only: "\<And>u. u \<in> set (qs_ticket s) \<Longrightarrow> P u \<Longrightarrow> \<not> tk_deleted u \<Longrightarrow> u = t"
  shows "ticket_with_run s P = Some (t, r)"
  unfolding ticket_with_run_def
proof (rule find_only)
  have keys: "distinct (map run_key (qs_run s))" using assms(1) by (simp add: queues_ok_def runs_ok_def)
  fix y assume y: "y \<in> set [(t, r). t \<leftarrow> qs_ticket s, r \<leftarrow> qs_run s, rn_site_iid r = tk_site_iid t \<and> rn_run_id r = tk_run_id t]"
    "case y of (t, r) \<Rightarrow> P t \<and> \<not> tk_deleted t"
  then obtain u v where uv: "y = (u, v)" "u \<in> set (qs_ticket s)" "v \<in> set (qs_run s)" "run_key v = (tk_site_iid u, tk_run_id u)"
    "P u" "\<not> tk_deleted u" by auto
  then have "u = t" using only by blast
  moreover have "v = r" using distinct_key_eq [OF keys uv(3) assms(5)] uv(4) assms(6) \<open>u = t\<close> by simp
  ultimately show "y = (t, r)" using uv by simp
qed (use assms(2-6) in auto)

lemma take_read_plan:
  assumes "queues_ok s" "take_read e s site queue_id answers = (Inr (Inr p), s1)"
  shows "queues_ok s1 \<and> tp_queue_id p = resolve_queue_id queue_id \<and> tp_run p \<in> set (qs_run s1) \<and> is_open site (resolve_queue_id queue_id) (tp_run p) \<and>
    qs_ticket s1 = qs_ticket s \<and> qs_access s1 = qs_access s \<and> 0 <s site \<and> site_published (qs_access s) site \<and>
    site_capability_enabled (site_capabilities_get (qs_access s) site) ''queue''"
proof -
  have d: "qs_ticket (ensure_default_queue site owner q s) = qs_ticket s" "qs_access (ensure_default_queue site owner q s) = qs_access s" for owner q
    by (simp_all add: ensure_default_queue_def)
  show ?thesis using assms(2) ensure_open_run_ok [OF queues_ok_default [OF assms(1)]] d
    by (auto simp: take_read_def Let_def not_le word_sle_eq word_sless_alt split: if_splits sum.splits prod.splits)
qed

text \<open>Claim C30. A ticket taken can be followed: with the token a guest was given, the tracking page finds the
  ticket, waiting, with the number, the label and the serving number the guest was told, and
  shows as many tickets ahead as were waiting in its run.\<close>

theorem take_then_track:
  assumes ok: "queues_ok s" and taken: "guest_queue_take e s site queue_id name phone answers = (Inr res, s')" "qt_ok res"
  shows "\<exists>run. map_option rn_run_id (open_run s' site (resolve_queue_id queue_id)) = Some run \<and>
    guest_queue_track s' site (qt_track_token res) =
      \<lparr> qk_ok = True, qk_ticket_id = qt_ticket_id res, qk_ticket_no = qt_ticket_no res, qk_queue_id = resolve_queue_id queue_id,
        qk_status = ''waiting'', qk_serving_number = qt_serving_ticket_no res,
        qk_position_ahead = of_nat (length (waiting site (resolve_queue_id queue_id) run s)),
        qk_display_label = qt_display_label res, qk_error = [] \<rparr>"
proof -
  define q where "q = resolve_queue_id queue_id"
  obtain p s1 where read: "take_read e s site queue_id answers = (Inr (Inr p), s1)" and c: "take_commit e s1 site name phone p = (Inr res, s')"
    using taken by (auto simp: guest_queue_take_def take_read_def Let_def err_take_def split: prod.splits sum.splits if_splits)
  note p = take_read_plan [OF ok read, folded q_def]
  let ?run = "rn_run_id (tp_run p)"
  have s': "queues_ok s'" using take_commit_ok [of s1 p site e name phone] p c by simp
  from c show ?thesis
  proof (cases rule: take_commit_cases)
    case (ok r answers row)
    have row: "tk_site_iid row = site" "tk_run_id row = ?run" "tk_queue_id row = q" "tk_ticket_no row = rn_next_number (tp_run p)" "\<not> tk_deleted row"
        "tk_status row = ''waiting''" "tk_track_token row = new_track_token e" "row \<in> set (qs_ticket s')"
      using ok(2,7) p by (simp_all add: take_ticket_def Let_def)
    have res: "qt_serving_ticket_no res = rn_serving_number (tp_run p)" "qt_display_label res = tk_display_label row"
      using c ok(2) by (auto simp: take_commit_def Let_def take_ticket_def split: option.splits sum.splits if_splits)
    define r' where "r' = bump_run site ?run (tk_ticket_no row) (tp_run p)"
    have r': "r' \<in> set (qs_run s')" "run_key r' = (site, ?run)" "is_open site q r'" "rn_serving_number r' = rn_serving_number (tp_run p)"
      using ok(8) p by (auto simp: r'_def bump_run_def is_open_def)
    have token: "u = row" if "u \<in> set (qs_ticket s')" "tk_track_token u = tk_track_token row" "\<not> tk_deleted u" for u
      using that ok(4,7) by auto
    have found: "ticket_with_run s' (\<lambda>t. tk_site_iid t = site \<and> tk_track_token t = new_track_token e) = Some (row, r')"
    proof (rule ticket_with_run_only [OF s' row(8) _ row(5) r'(1)])
      show "u = row" if "u \<in> set (qs_ticket s')" "tk_site_iid u = site \<and> tk_track_token u = new_track_token e" "\<not> tk_deleted u" for u
        using token [OF that(1) _ that(3)] that(2) row(7) by simp
    qed (simp_all add: row(1,2,7) r'(2))
    have ahead: "position_ahead s' site q ?run (tk_ticket_no row) = length (waiting site q ?run s)"
    proof -
      have "tk_ticket_no t <s tk_ticket_no row" if "t \<in> set (qs_ticket s1)" "ticket_of site q ?run t" for t
        using ticket_below [of s1 t site q ?run "tp_run p"] that p row(4) by (simp add: is_open_def word_sless_alt)
      then have "filter (\<lambda>t. ticket_of site q ?run t \<and> tk_status t = ''waiting'' \<and> tk_ticket_no t <s tk_ticket_no row) (qs_ticket s1) =
          filter (\<lambda>t. ticket_of site q ?run t \<and> tk_status t = ''waiting'') (qs_ticket s1)" by (intro filter_cong) auto
      then show ?thesis using p ok(7) by (simp add: position_ahead_def waiting_def)
    qed
    have "open_run s' site q = Some r'" using s' r' by (intro open_run_unique) (simp_all add: queues_ok_def)
    moreover have "new_track_token e \<noteq> []" by (simp add: new_track_token_def)
    ultimately show ?thesis
      using p ok(1,6,10-13) row res r' found ahead new_track_token_trim [of e]
      by (intro exI [of _ ?run]) (simp add: guest_queue_track_def q_def [symmetric] word_sle_eq word_sless_alt)
  qed simp
qed

section \<open>Two guests at once\<close>

text \<open>The number of a ticket is read before the transaction that stores it: when two guests read the run
  of a queue before either ticket is stored, both tickets are stored with the same number of the
  same run, and the waiting room is no longer in order.\<close>

theorem take_race:
  assumes ok: "queues_ok s"
    and read: "take_read e1 s site queue_id answers1 = (Inr (Inr p1), s1)" "take_read e2 s1 site queue_id answers2 = (Inr (Inr p2), s2)"
    and day: "day_running e2 s1 site (resolve_queue_id queue_id)"
    and commit: "take_commit e1 s2 site name1 phone1 p1 = (Inr res1, s3)" "take_commit e2 s3 site name2 phone2 p2 = (Inr res2, s4)"
  shows "qt_ticket_no res1 = qt_ticket_no res2 \<and> qt_ticket_id res1 \<noteq> qt_ticket_id res2 \<and> queues_ok s2 \<and> \<not> queues_ok s4"
proof -
  define q where "q = resolve_queue_id queue_id"
  note p1 = take_read_plan [OF ok read(1), folded q_def]
  note p2 = take_read_plan [OF conjunct1 [OF p1] read(2), folded q_def]
  have o: "open_run s1 site q = Some (tp_run p1)" using p1 by (intro open_run_unique) (simp_all add: queues_ok_def)
  have run: "tp_run p2 = tp_run p1" using take_read_running(2) [OF o _ read(2) q_def] day by (simp add: q_def)
  from commit(1) obtain a1 row1 where r1: "row1 = take_ticket e1 site name1 phone1 p1 a1" "qs_ticket s3 = qs_ticket s2 @ [row1]"
      "qt_ticket_no res1 = tk_ticket_no row1" "qt_ticket_id res1 = tk_ticket_id row1"
    by (cases rule: take_commit_cases) auto
  from commit(2) obtain a2 row2 where r2: "row2 = take_ticket e2 site name2 phone2 p2 a2" "qs_ticket s4 = qs_ticket s3 @ [row2]"
      "qt_ticket_no res2 = tk_ticket_no row2" "qt_ticket_id res2 = tk_ticket_id row2" "\<forall>t\<in>set (qs_ticket s3). ticket_key t \<noteq> ticket_key row2"
    by (cases rule: take_commit_cases) auto
  have "ticket_slot row1 = ticket_slot row2" and site: "tk_site_iid row1 = tk_site_iid row2" by (simp_all add: r1(1) r2(1) run take_ticket_def Let_def)
  then have "\<not> queues_ok s4" "tk_ticket_no row1 = tk_ticket_no row2" by (simp_all add: queues_ok_def tickets_ok_def r1(2) r2(2))
  moreover have "tk_ticket_id row1 \<noteq> tk_ticket_id row2" using r2(5) r1(2) site by auto
  ultimately show ?thesis using r1 r2 p2 by simp
qed

section \<open>Examples\<close>

lemma case_okE: "(case x of (Inr r, s) \<Rightarrow> f r s | _ \<Rightarrow> False) \<Longrightarrow> (\<And>r s. x = (Inr r, s) \<Longrightarrow> f r s \<Longrightarrow> P) \<Longrightarrow> P"
  by (auto split: prod.splits sum.splits)

lemma case_planE: "(case x of (Inr (Inr p), s) \<Rightarrow> f p s | _ \<Rightarrow> False) \<Longrightarrow> (\<And>p s. x = (Inr (Inr p), s) \<Longrightarrow> f p s \<Longrightarrow> P) \<Longrightarrow> P"
  by (auto split: prod.splits sum.splits)

theorem take_then_track_witness:
  "queues_ok test_room \<and> (\<exists>res s'. guest_queue_take (test_queue_env 3) test_room 1 1 ''Citra'' '''' '''' = (Inr res, s') \<and>
     qk_ok (guest_queue_track s' 1 (qt_track_token res)) \<and> qk_status (guest_queue_track s' 1 (qt_track_token res)) = ''waiting'')"
proof -
  have ok: "queues_ok test_room" by code_simp
  have "case guest_queue_take (test_queue_env 3) test_room 1 1 ''Citra'' '''' '''' of (Inr res, s') \<Rightarrow> qt_ok res | _ \<Rightarrow> False" by code_simp
  then obtain res s' where t: "guest_queue_take (test_queue_env 3) test_room 1 1 ''Citra'' '''' '''' = (Inr res, s')" "qt_ok res"
    by (auto split: prod.splits sum.splits)
  from ok t take_then_track [OF ok t] show ?thesis by auto
qed

theorem take_race_witness:
  "\<exists>p1 p2 res1 res2 s1 s2 s3 s4. take_read (test_queue_env 3) test_room 1 1 '''' = (Inr (Inr p1), s1) \<and>
     take_read (test_queue_env 4) s1 1 1 '''' = (Inr (Inr p2), s2) \<and>
     take_commit (test_queue_env 3) s2 1 ''Citra'' '''' p1 = (Inr res1, s3) \<and>
     take_commit (test_queue_env 4) s3 1 ''Dewi'' '''' p2 = (Inr res2, s4) \<and> qt_ticket_no res1 = qt_ticket_no res2 \<and> \<not> queues_ok s4"
proof -
  have ok: "queues_ok test_room" by code_simp
  have "case take_read (test_queue_env 3) test_room 1 1 '''' of (Inr (Inr p1), s1) \<Rightarrow>
      day_running (test_queue_env 4) s1 1 (resolve_queue_id 1) \<and>
      (case take_read (test_queue_env 4) s1 1 1 '''' of (Inr (Inr p2), s2) \<Rightarrow>
         (case take_commit (test_queue_env 3) s2 1 ''Citra'' '''' p1 of (Inr res1, s3) \<Rightarrow>
            (case take_commit (test_queue_env 4) s3 1 ''Dewi'' '''' p2 of (Inr res2, s4) \<Rightarrow> True | _ \<Rightarrow> False)
          | _ \<Rightarrow> False)
       | _ \<Rightarrow> False)
    | _ \<Rightarrow> False" by code_simp
  then obtain p1 s1 p2 s2 res1 s3 res2 s4 where r: "take_read (test_queue_env 3) test_room 1 1 [] = (Inr (Inr p1), s1)"
      "take_read (test_queue_env 4) s1 1 1 [] = (Inr (Inr p2), s2)" "day_running (test_queue_env 4) s1 1 (resolve_queue_id 1)"
      "take_commit (test_queue_env 3) s2 1 ''Citra'' [] p1 = (Inr res1, s3)" "take_commit (test_queue_env 4) s3 1 ''Dewi'' [] p2 = (Inr res2, s4)"
    by (elim case_planE case_okE conjE)
  from take_race [OF ok r] r show ?thesis by blast
qed

end
