(* ===== verification/Product_Icon.thy ===== *)
theory Product_Icon
  imports Normalizer Json Sql_Tables
begin

text \<open>
  Icons of products without a picture (\<open>servers/crates/mod_site/src/product_icon.rs\<close>): the closed catalogue of
  kinds, the rules that find a kind in a name, and the table \<open>site.product_icon\<close> that remembers the icon
  of a name key. Parameters (\<open>ienv\<close>): the JSON parser, and the text of a successful answer of the language model
  for a name key (none without an API key, or when the request fails or is refused). Characters are those
  below U+0100.
\<close>

record ienv =
  ie_from_str :: "string \<Rightarrow> string + Value"
  ie_gemini :: "string \<Rightarrow> string option"

record ProductIconKind =
  ik_kind :: string
  ik_icon :: string
  ik_keywords :: "string list"

record IconRow =
  ic_name_key :: string
  ic_icon :: string
  ic_kind :: string
  ic_source :: string
  ic_model :: string

abbreviation kind_row :: "string \<Rightarrow> string \<Rightarrow> string list \<Rightarrow> ProductIconKind" where
  "kind_row k i ws \<equiv> \<lparr> ik_kind = k, ik_icon = i, ik_keywords = ws \<rparr>"

definition KINDS :: "ProductIconKind list" where
  "KINDS = [
     kind_row ''coffee'' ''mdi:coffee'' [''kopi'', ''coffee'', ''latte'', ''espresso'', ''americano'', ''cappuccino'', ''mocha'', ''macchiato''],
     kind_row ''tea'' ''mdi:tea'' [''teh'', ''tea'', ''matcha''],
     kind_row ''juice'' ''mdi:fruit-citrus'' [''jus'', ''juice'', ''jeruk'', ''smoothie''],
     kind_row ''beer'' ''mdi:beer'' [''beer'', ''bir''],
     kind_row ''wine'' ''mdi:glass-wine'' [''wine''],
     kind_row ''cocktail'' ''mdi:glass-cocktail'' [''cocktail'', ''mojito'', ''mocktail''],
     kind_row ''water'' ''mdi:cup-water'' [''air mineral'', ''mineral water''],
     kind_row ''burger'' ''mdi:hamburger'' [''burger'', ''hamburger''],
     kind_row ''pizza'' ''mdi:pizza'' [''pizza''],
     kind_row ''fries'' ''mdi:french-fries'' [''fries'', ''kentang goreng''],
     kind_row ''rice'' ''mdi:rice'' [''nasi'', ''rice''],
     kind_row ''noodles'' ''mdi:noodles'' [''mie'', ''noodle'', ''ramen'', ''pasta'', ''spaghetti'', ''bakmi'', ''kwetiau''],
     kind_row ''bread'' ''mdi:bread-slice'' [''roti'', ''bread'', ''toast'', ''sandwich''],
     kind_row ''cake'' ''mdi:cake-variant'' [''kue'', ''cake'', ''pastry'', ''donat'', ''doughnut'', ''croissant''],
     kind_row ''ice_cream'' ''mdi:ice-cream'' [''es krim'', ''ice cream'', ''gelato'', ''krim''],
     kind_row ''chicken'' ''mdi:food-drumstick'' [''ayam'', ''chicken''],
     kind_row ''meat'' ''mdi:food-steak'' [''steak'', ''daging'', ''sapi'', ''beef''],
     kind_row ''fish'' ''mdi:fish'' [''ikan'', ''fish'', ''seafood'', ''udang'', ''shrimp''],
     kind_row ''soup'' ''mdi:bowl'' [''soup'', ''soto'', ''bakso''],
     kind_row ''egg'' ''mdi:egg'' [''telur'', ''egg'', ''omelet'', ''omelette''],
     kind_row ''drink'' ''mdi:cup'' [''minuman'', ''drink'', ''soda'', ''milkshake'', ''float'', ''lemonade''],
     kind_row ''generic'' ''mdi:shopping'' []]"

definition STOP_TOKENS :: "string list" where
  "STOP_TOKENS = [''es'', ''ice'', ''iced'', ''hot'', ''panas'', ''dingin'', ''cold'', ''warm'', ''large'', ''small'',
      ''medium'', ''regular'', ''jumbo'', ''big'', ''pcs'', ''pc'', ''ml'', ''gr'', ''gram'', ''kg'', ''oz'',
      ''liter'', ''l'', ''spesial'', ''special'', ''original'', ''new'']"

definition GENERIC_ICON :: string where
  "GENERIC_ICON = ''mdi:shopping''"

definition CHEAP_MODEL :: string where
  "CHEAP_MODEL = ''gemini-3.1-flash-lite''"

section \<open>Names\<close>

text \<open>\<open>char::is_alphabetic\<close> below U+0100.\<close>

definition is_alphabetic :: "char \<Rightarrow> bool" where
  "is_alphabetic c = (let n = of_char c :: nat in (65 \<le> n \<and> n \<le> 90) \<or> (97 \<le> n \<and> n \<le> 122) \<or>
     n \<in> {170, 181, 186} \<or> (192 \<le> n \<and> n \<noteq> 215 \<and> n \<noteq> 247))"

definition split_whitespace :: "string \<Rightarrow> string list" where
  "split_whitespace s = filter (\<lambda>w. w \<noteq> []) (split_on is_whitespace s)"

definition is_stop_token :: "string \<Rightarrow> bool" where
  "is_stop_token token \<longleftrightarrow> token \<in> set STOP_TOKENS"

definition is_digit_only :: "string \<Rightarrow> bool" where
  "is_digit_only token \<longleftrightarrow> token \<noteq> [] \<and> list_all (\<lambda>c. 48 \<le> (of_char c :: nat) \<and> (of_char c :: nat) \<le> 57) token"

definition product_icon_name_key :: "string \<Rightarrow> string" where
  "product_icon_name_key name =
     (let lower = to_lowercase (trim name);
          spaced = map (\<lambda>c. if is_alphabetic c then c else CHR '' '') lower
      in join_space (filter (\<lambda>t. \<not> is_stop_token t \<and> \<not> is_digit_only t) (split_whitespace spaced)))"

definition token_windows :: "nat \<Rightarrow> 'a list \<Rightarrow> 'a list list" where
  "token_windows n xs = map (\<lambda>i. take n (drop i xs)) [0..<Suc (length xs) - n]"

definition keyword_token_match :: "string \<Rightarrow> string \<Rightarrow> bool" where
  "keyword_token_match name_key keyword =
     (let name_tokens = split_whitespace name_key; kw_tokens = split_whitespace keyword
      in if kw_tokens = [] \<or> length name_tokens < length kw_tokens then False
         else list_ex (\<lambda>w. w = kw_tokens) (token_windows (length kw_tokens) name_tokens))"

definition product_icon_kind_from_rules :: "string \<Rightarrow> string option" where
  "product_icon_kind_from_rules name_key =
     map_option ik_kind (find (\<lambda>row. list_ex (keyword_token_match name_key) (ik_keywords row)) KINDS)"

definition product_icon_id :: "string \<Rightarrow> string" where
  "product_icon_id kind = (case find (\<lambda>row. ik_kind row = kind) KINDS of None \<Rightarrow> GENERIC_ICON | Some row \<Rightarrow> ik_icon row)"

definition kind_in_catalog :: "string \<Rightarrow> bool" where
  "kind_in_catalog kind \<longleftrightarrow> list_ex (\<lambda>row. ik_kind row = kind) KINDS"

section \<open>The answer of the language model\<close>

text \<open>\<open>Value::pointer\<close> of \<open>/candidates/0/content/parts\<close>.\<close>

fun pointer_0 :: "Value \<Rightarrow> Value option" where
  "pointer_0 (Array (x # xs)) = Some x"
| "pointer_0 (Object m) = map_of m ''0''"
| "pointer_0 _ = None"

definition answer_parts :: "Value \<Rightarrow> Value list option" where
  "answer_parts v = Option.bind (get_val v ''candidates'') (\<lambda>c. Option.bind (pointer_0 c) (\<lambda>c.
     Option.bind (get_val c ''content'') (\<lambda>c. Option.bind (get_val c ''parts'') as_array)))"

definition candidate_text :: "Value \<Rightarrow> string" where
  "candidate_text v = (case answer_parts v of None \<Rightarrow> [] | Some parts \<Rightarrow>
     concat (map (\<lambda>part. if unwrap_or False (Option.bind (get_val part ''thought'') as_bool) then []
       else unwrap_or [] (Option.bind (get_val part ''text'') as_str)) parts))"

definition brace_slice :: "string \<Rightarrow> string" where
  "brace_slice s = (let before = length (takeWhile (\<lambda>c. c \<noteq> CHR ''{'') s); after = length (takeWhile (\<lambda>c. c \<noteq> CHR ''}'') (rev s))
     in if CHR ''{'' \<in> set s \<and> CHR ''}'' \<in> set s \<and> before < length s - after then take (length s - after - before) (drop before s) else s)"

definition parse_kind :: "ienv \<Rightarrow> string \<Rightarrow> string option" where
  "parse_kind e raw =
     (case ie_from_str e (brace_slice (trim raw)) of Inl _ \<Rightarrow> None | Inr v \<Rightarrow>
        case Option.bind (get_val v ''kind'') as_str of None \<Rightarrow> None | Some s \<Rightarrow> if trim s = [] then None else Some (trim s))"

definition product_icon_classify :: "ienv \<Rightarrow> string \<Rightarrow> string + string" where
  "product_icon_classify e name_key =
     (case ie_gemini e name_key of None \<Rightarrow> Inl ''product icon classify'' | Some payload \<Rightarrow>
      case ie_from_str e payload of Inl err \<Rightarrow> Inl ''product icon classify json'' | Inr v \<Rightarrow>
        let kind = unwrap_or [] (parse_kind e (candidate_text v))
        in if kind_in_catalog kind then Inr kind else Inl ''product icon classify kind not in catalog'')"

section \<open>The table\<close>

definition product_icon_lookup :: "IconRow list \<Rightarrow> string list \<Rightarrow> (string \<times> string) list" where
  "product_icon_lookup rows keys =
     (if keys = [] then [] else map (\<lambda>r. (ic_name_key r, ic_icon r)) (filter (\<lambda>r. ic_name_key r \<in> set keys) rows))"

text \<open>What \<open>product_icon_ensure\<close> decides for a key that is not in the table: kind, source and model.\<close>

definition icon_decide :: "ienv \<Rightarrow> string \<Rightarrow> string \<times> string \<times> string" where
  "icon_decide e key =
     (case product_icon_kind_from_rules key of Some kind \<Rightarrow> (kind, ''rule'', [])
      | None \<Rightarrow> (case product_icon_classify e key of
          Inr kind \<Rightarrow> if kind_in_catalog kind then (kind, ''llm'', CHEAP_MODEL) else (''generic'', ''llm'', CHEAP_MODEL)
        | Inl _ \<Rightarrow> (''generic'', ''llm'', CHEAP_MODEL)))"

text \<open>Its last part, after the model was asked: an insert that keeps the first writer, and a second read.\<close>

definition icon_commit :: "string \<Rightarrow> string \<times> string \<times> string \<Rightarrow> IconRow list \<Rightarrow> string \<times> IconRow list" where
  "icon_commit key d rows =
     (let (kind, source, model) = d; icon = product_icon_id kind;
          rows = (if list_ex (\<lambda>r. ic_name_key r = key) rows then rows
                  else rows @ [\<lparr> ic_name_key = key, ic_icon = icon, ic_kind = kind, ic_source = source, ic_model = model \<rparr>])
      in (case map_of (product_icon_lookup rows [key]) key of Some stored \<Rightarrow> stored | None \<Rightarrow> icon, rows))"

definition product_icon_ensure :: "ienv \<Rightarrow> string \<Rightarrow> IconRow list \<Rightarrow> string \<times> IconRow list" where
  "product_icon_ensure e name rows =
     (let key = product_icon_name_key name
      in if key = [] then (GENERIC_ICON, rows)
         else case map_of (product_icon_lookup rows [key]) key of Some icon \<Rightarrow> (icon, rows)
           | None \<Rightarrow> icon_commit key (icon_decide e key) rows)"

text \<open>The icons of a list, and the names for which a background task calls \<open>product_icon_ensure\<close>.\<close>

fun icon_ids_loop :: "(string \<times> string) list \<Rightarrow> string list \<Rightarrow> (string \<times> string) list \<Rightarrow> (string \<times> string option) list" where
  "icon_ids_loop found spawned [] = []"
| "icon_ids_loop found spawned ((pic, name) # rows) =
     (if trim pic \<noteq> [] then ([], None) # icon_ids_loop found spawned rows
      else let key = product_icon_name_key name
      in case map_of found key of Some icon \<Rightarrow> (icon, None) # icon_ids_loop found spawned rows
         | None \<Rightarrow> (case product_icon_kind_from_rules key of
             Some kind \<Rightarrow> (product_icon_id kind, if key \<in> set spawned then None else Some name) # icon_ids_loop found (key # spawned) rows
           | None \<Rightarrow> if key \<noteq> [] then (GENERIC_ICON, if key \<in> set spawned then None else Some name) # icon_ids_loop found (key # spawned) rows
                     else (GENERIC_ICON, None) # icon_ids_loop found spawned rows))"

definition product_icon_ids :: "IconRow list \<Rightarrow> (string \<times> string) list \<Rightarrow> string list \<times> string list" where
  "product_icon_ids table rows =
     (let keys = filter (\<lambda>k. k \<noteq> []) (map (\<lambda>(_, name). product_icon_name_key name) (filter (\<lambda>(pic, _). trim pic = []) rows));
          res = icon_ids_loop (product_icon_lookup table keys) [] rows
      in (map fst res, List.map_filter snd res))"

section \<open>What the table remembers\<close>

definition icon_of :: "IconRow list \<Rightarrow> string \<Rightarrow> string option" where
  "icon_of rows key = map_option ic_icon (find (\<lambda>r. ic_name_key r = key) rows)"

lemma lookup_icon: "map_of (product_icon_lookup rows keys) key = (if key \<in> set keys then icon_of rows key else None)"
proof (cases "keys = []")
  case False
  have "map_of (map (\<lambda>r. (ic_name_key r, ic_icon r)) (filter (\<lambda>r. ic_name_key r \<in> set keys) rows)) key =
      (if key \<in> set keys then icon_of rows key else None)"
    by (induction rows) (auto simp: icon_of_def)
  with False show ?thesis by (simp add: product_icon_lookup_def)
qed (simp add: product_icon_lookup_def)

lemma icon_of_absent: "list_ex (\<lambda>r. ic_name_key r = key) rows \<longleftrightarrow> icon_of rows key \<noteq> None"
  by (auto simp: icon_of_def list_ex_iff find_None_iff)

lemma icon_of_append: "icon_of (rows @ [r]) key = (case icon_of rows key of Some i \<Rightarrow> Some i
    | None \<Rightarrow> if ic_name_key r = key then Some (ic_icon r) else None)"
  by (induction rows) (simp_all add: icon_of_def)

lemma commit_icon:
  assumes "icon_commit key d rows = (icon, rows')"
  shows "icon_of rows' key = Some icon" and "icon = (case icon_of rows key of Some i \<Rightarrow> i | None \<Rightarrow> product_icon_id (fst d))"
    and "key' \<noteq> key \<Longrightarrow> icon_of rows' key' = icon_of rows key'" and "icon_of rows k = Some i \<Longrightarrow> icon_of rows' k = Some i"
proof -
  obtain kind source model where d: "d = (kind, source, model)" by (rule prod_cases3)
  show "icon_of rows' key = Some icon" and "icon = (case icon_of rows key of Some i \<Rightarrow> i | None \<Rightarrow> product_icon_id (fst d))"
    and "key' \<noteq> key \<Longrightarrow> icon_of rows' key' = icon_of rows key'" and "icon_of rows k = Some i \<Longrightarrow> icon_of rows' k = Some i"
    using assms by (auto simp: icon_commit_def d Let_def lookup_icon icon_of_append icon_of_absent
        split: if_splits option.splits)
qed

text \<open>A write of any call of \<open>product_icon_ensure\<close>, in the foreground or in the background, however long
  ago it read the table.\<close>

inductive icon_step :: "IconRow list \<Rightarrow> IconRow list \<Rightarrow> bool" where
  "product_icon_name_key name \<noteq> [] \<Longrightarrow>
     icon_step rows (snd (icon_commit (product_icon_name_key name) (icon_decide e (product_icon_name_key name)) rows))"

lemma icon_step_keeps: "icon_step rows rows' \<Longrightarrow> icon_of rows k = Some i \<Longrightarrow> icon_of rows' k = Some i"
  by (erule icon_step.cases) (metis commit_icon(4) prod.collapse)

lemma icon_history_keeps: "icon_step\<^sup>*\<^sup>* rows rows' \<Longrightarrow> icon_of rows k = Some i \<Longrightarrow> icon_of rows' k = Some i"
  by (induction rule: rtranclp_induct) (auto dest: icon_step_keeps)

lemma icon_ids_loop_hit:
  "i < length rows \<Longrightarrow> trim (fst (rows ! i)) = [] \<Longrightarrow> map_of found (product_icon_name_key (snd (rows ! i))) = Some icon \<Longrightarrow>
     fst (icon_ids_loop found spawned rows ! i) = icon"
  by (induction found spawned rows arbitrary: i rule: icon_ids_loop.induct)
    (auto simp: Let_def nth_Cons split: nat.splits option.splits)

lemma icon_ids_loop_length [simp]: "length (icon_ids_loop found spawned rows) = length rows"
  by (induction found spawned rows rule: icon_ids_loop.induct) (auto simp: Let_def split: option.splits)

lemma icon_ids_hit:
  assumes "i < length list" "trim (fst (list ! i)) = []" "product_icon_name_key (snd (list ! i)) = key" "key \<noteq> []" "icon_of rows key = Some icon"
  shows "fst (product_icon_ids rows list) ! i = icon"
proof -
  have "list ! i \<in> set list" using assms(1) by simp
  then have "key \<in> set (filter (\<lambda>k. k \<noteq> []) (map (\<lambda>(_, name). product_icon_name_key name) (filter (\<lambda>(pic, _). trim pic = []) list)))"
    using assms(2-4) by (force simp: split_beta)
  then show ?thesis
    using icon_ids_loop_hit [OF assms(1,2)] assms(1,3,5) by (simp add: product_icon_ids_def Let_def lookup_icon split_beta)
qed

text \<open>Claim C21. The first icon given for a name is the icon of that name for ever: whatever
  \<open>product_icon_ensure\<close> answers, even when its write comes after those of other calls for the same name
  with other answers of the language model, every later list shows that icon for every product without a picture
  whose name has the same key, and every later call answers it and writes nothing.\<close>

theorem icons_settle:
  assumes "(icon, rows') = icon_commit (product_icon_name_key name) (icon_decide e (product_icon_name_key name)) rows \<or>
      (icon, rows') = product_icon_ensure e name rows"
    and "product_icon_name_key name \<noteq> []" and "icon_step\<^sup>*\<^sup>* rows' later" and "product_icon_name_key name' = product_icon_name_key name"
  shows "product_icon_ensure e' name' later = (icon, later) \<and>
    (\<forall>list i. i < length list \<longrightarrow> trim (fst (list ! i)) = [] \<longrightarrow> snd (list ! i) = name' \<longrightarrow> fst (product_icon_ids later list) ! i = icon)"
proof -
  let ?key = "product_icon_name_key name"
  have "icon_of rows' ?key = Some icon"
  proof (cases "icon_of rows ?key")
    case None
    then have "product_icon_ensure e name rows = icon_commit ?key (icon_decide e ?key) rows"
      using assms(2) by (simp add: product_icon_ensure_def lookup_icon Let_def)
    then show ?thesis using assms(1) commit_icon(1) by metis
  next
    case (Some i)
    then have "product_icon_ensure e name rows = (i, rows)" using assms(2) by (simp add: product_icon_ensure_def lookup_icon)
    then show ?thesis using assms(1) commit_icon(1) Some by (metis prod.inject)
  qed
  with icon_history_keeps [OF assms(3)] have l: "icon_of later ?key = Some icon" by blast
  have "product_icon_ensure e' name' later = (icon, later)"
    using assms(2,4) l by (simp add: product_icon_ensure_def lookup_icon)
  with icon_ids_hit [OF _ _ _ assms(2) l] assms(4) show ?thesis by blast
qed

section \<open>The icons of a list\<close>

definition catalog_icons :: "string set" where
  "catalog_icons = ik_icon ` set KINDS"

lemma generic_known [simp]: "GENERIC_ICON \<in> catalog_icons"
  by (simp add: catalog_icons_def KINDS_def GENERIC_ICON_def)

lemma icon_id_known [simp]: "product_icon_id kind \<in> catalog_icons"
proof (cases "find (\<lambda>row. ik_kind row = kind) KINDS")
  case (Some row)
  then have "row \<in> set KINDS" by (auto simp: find_Some_iff)
  with Some show ?thesis by (simp add: product_icon_id_def catalog_icons_def)
qed (simp add: product_icon_id_def)

definition icons_known :: "IconRow list \<Rightarrow> bool" where
  "icons_known rows \<longleftrightarrow> (\<forall>k i. icon_of rows k = Some i \<longrightarrow> i \<in> catalog_icons)"

lemma icon_step_known:
  assumes "icon_step rows rows'" and "icons_known rows"
  shows "icons_known rows'"
  using assms(1)
proof cases
  case (1 name e)
  let ?key = "product_icon_name_key name"
  have c: "icon_commit ?key (icon_decide e ?key) rows = (fst (icon_commit ?key (icon_decide e ?key) rows), rows')" by (simp add: 1)
  have "fst (icon_commit ?key (icon_decide e ?key) rows) \<in> catalog_icons"
    unfolding commit_icon(2) [OF c] using assms(2) by (auto simp: icons_known_def split: option.split)
  then show "icons_known rows'" using assms(2) commit_icon(1,3) [OF c] unfolding icons_known_def by (metis option.inject)
qed

lemma icon_history_known: "icon_step\<^sup>*\<^sup>* [] rows \<Longrightarrow> icons_known rows"
proof (induction rule: rtranclp_induct)
  case base
  then show ?case by (simp add: icons_known_def icon_of_def)
qed (rule icon_step_known)

lemma icon_ids_loop_icon:
  assumes "\<And>k i. map_of found k = Some i \<Longrightarrow> i \<in> catalog_icons" "i < length rows"
  shows "if trim (fst (rows ! i)) = [] then fst (icon_ids_loop found spawned rows ! i) \<in> catalog_icons
     else icon_ids_loop found spawned rows ! i = ([], None)"
  using assms
  by (induction found spawned rows arbitrary: i rule: icon_ids_loop.induct)
    (auto simp: Let_def nth_Cons split: nat.splits option.splits)

text \<open>Which names are left to a background task.\<close>

definition icon_missing :: "(string \<times> string) list \<Rightarrow> string \<times> string \<Rightarrow> bool" where
  "icon_missing found row \<longleftrightarrow> trim (fst row) = [] \<and> map_of found (product_icon_name_key (snd row)) = None \<and> product_icon_name_key (snd row) \<noteq> []"

lemma no_rule_for_nothing [simp]: "product_icon_kind_from_rules [] = None"
  by code_simp

lemma icon_ids_loop_spawned:
  fixes found spawned rows
  defines "keys \<equiv> map product_icon_name_key (List.map_filter snd (icon_ids_loop found spawned rows))"
  shows "distinct keys \<and> set keys = (\<lambda>r. product_icon_name_key (snd r)) ` {r \<in> set rows. icon_missing found r} - set spawned"
  unfolding keys_def
proof (induction found spawned rows rule: icon_ids_loop.induct)
  case (2 found spawned pic name rows)
  let ?key = "product_icon_name_key name"
  show ?case
  proof (cases "icon_missing found (pic, name)")
    case False
    then have "trim pic \<noteq> [] \<or> (trim pic = [] \<and> (\<exists>i. map_of found ?key = Some i)) \<or> (trim pic = [] \<and> map_of found ?key = None \<and> ?key = [])"
      unfolding icon_missing_def by auto
    then consider (pic) "trim pic \<noteq> []" | (hit) i where "trim pic = []" "map_of found ?key = Some i"
      | (nothing) "trim pic = []" "map_of found ?key = None" "?key = []"
      by blast
    then have "List.map_filter snd (icon_ids_loop found spawned ((pic, name) # rows)) = List.map_filter snd (icon_ids_loop found spawned rows) \<and>
        (distinct (map product_icon_name_key (List.map_filter snd (icon_ids_loop found spawned rows))) \<and>
         set (map product_icon_name_key (List.map_filter snd (icon_ids_loop found spawned rows))) =
           (\<lambda>r. product_icon_name_key (snd r)) ` {r \<in> set rows. icon_missing found r} - set spawned)"
      by cases (use 2 in \<open>simp_all add: Let_def map_filter_simps\<close>)
    moreover have "{r \<in> set ((pic, name) # rows). icon_missing found r} = {r \<in> set rows. icon_missing found r}" using False by auto
    ultimately show ?thesis by simp
  next
    case True
    then have m: "trim pic = []" "map_of found ?key = None" "?key \<noteq> []" by (simp_all add: icon_missing_def)
    let ?rest = "List.map_filter snd (icon_ids_loop found (?key # spawned) rows)"
    have e: "List.map_filter snd (icon_ids_loop found spawned ((pic, name) # rows)) = (if ?key \<in> set spawned then [] else [name]) @ ?rest"
      using m by (simp add: Let_def map_filter_simps split: option.split)
    have ih: "distinct (map product_icon_name_key ?rest) \<and>
        set (map product_icon_name_key ?rest) = (\<lambda>r. product_icon_name_key (snd r)) ` {r \<in> set rows. icon_missing found r} - set (?key # spawned)"
      by (cases "product_icon_kind_from_rules ?key") (use 2 m in simp_all)
    have "{r \<in> set ((pic, name) # rows). icon_missing found r} = insert (pic, name) {r \<in> set rows. icon_missing found r}" using True by auto
    then show ?thesis unfolding e using ih by auto
  qed
qed (simp add: map_filter_simps)

text \<open>The icons of a list: in every table that calls of \<open>product_icon_ensure\<close> have
  left, \<open>product_icon_ids\<close> gives a product with a picture none, and every other one an icon of the closed catalogue;
  the names it leaves to background tasks have pairwise different keys, and these are exactly the
  non-empty keys of the products without a picture that the table has no icon for.\<close>

theorem product_icon_ids_spec:
  assumes "icon_step\<^sup>*\<^sup>* [] table" and "product_icon_ids table list = (icons, spawned)"
  shows "length icons = length list \<and>
    (\<forall>i<length list. if trim (fst (list ! i)) = [] then icons ! i \<in> catalog_icons else icons ! i = []) \<and>
    distinct (map product_icon_name_key spawned) \<and>
    set (map product_icon_name_key spawned) = {k. k \<noteq> [] \<and> icon_of table k = None \<and> (\<exists>(pic, name)\<in>set list. trim pic = [] \<and> product_icon_name_key name = k)}"
proof -
  define keys where "keys = filter (\<lambda>k. k \<noteq> []) (map (\<lambda>(_, name). product_icon_name_key name) (filter (\<lambda>(pic, _). trim pic = []) list))"
  define found where "found = product_icon_lookup table keys"
  have known: "i \<in> catalog_icons" if "map_of found k = Some i" for k i
    using that icon_history_known [OF assms(1)] by (auto simp: found_def lookup_icon icons_known_def split: if_splits)
  have r: "icons = map fst (icon_ids_loop found [] list)" "spawned = List.map_filter snd (icon_ids_loop found [] list)"
    using assms(2) by (simp_all add: product_icon_ids_def Let_def found_def keys_def)
  have shown: "\<forall>i<length list. if trim (fst (list ! i)) = [] then icons ! i \<in> catalog_icons else icons ! i = []"
  proof (intro allI impI)
    fix i assume i: "i < length list"
    show "if trim (fst (list ! i)) = [] then icons ! i \<in> catalog_icons else icons ! i = []"
      using icon_ids_loop_icon [of found i list "[]", OF known i] i unfolding r by (auto split: if_splits)
  qed
  have "icon_missing found row \<longleftrightarrow> trim (fst row) = [] \<and> product_icon_name_key (snd row) \<noteq> [] \<and> icon_of table (product_icon_name_key (snd row)) = None"
    if "row \<in> set list" for row
  proof -
    have "product_icon_name_key (snd row) \<in> set keys" if "trim (fst row) = []" "product_icon_name_key (snd row) \<noteq> []"
      using that \<open>row \<in> set list\<close> by (force simp: keys_def split_beta)
    then show ?thesis by (auto simp: icon_missing_def found_def lookup_icon)
  qed
  then have "(\<lambda>r. product_icon_name_key (snd r)) ` {r \<in> set list. icon_missing found r} =
      {k. k \<noteq> [] \<and> icon_of table k = None \<and> (\<exists>(pic, name)\<in>set list. trim pic = [] \<and> product_icon_name_key name = k)}"
    by (auto simp: split_beta)
  then have "distinct (map product_icon_name_key spawned) \<and>
      set (map product_icon_name_key spawned) = {k. k \<noteq> [] \<and> icon_of table k = None \<and> (\<exists>(pic, name)\<in>set list. trim pic = [] \<and> product_icon_name_key name = k)}"
    using icon_ids_loop_spawned [of found "[]" list] unfolding r by simp
  moreover have "length icons = length list" by (simp add: r)
  ultimately show ?thesis using shown by blast
qed

text \<open>The icon a product is shown with.\<close>

definition icon_shown :: "IconRow list \<Rightarrow> string \<times> string \<Rightarrow> string" where
  "icon_shown table row = (if trim (fst row) \<noteq> [] then [] else let key = product_icon_name_key (snd row) in
     case (if key = [] then None else icon_of table key) of Some icon \<Rightarrow> icon
     | None \<Rightarrow> (case product_icon_kind_from_rules key of Some kind \<Rightarrow> product_icon_id kind | None \<Rightarrow> GENERIC_ICON))"

definition found_in :: "IconRow list \<Rightarrow> (string \<times> string) list \<Rightarrow> string \<times> string \<Rightarrow> bool" where
  "found_in table found row \<longleftrightarrow> (trim (fst row) = [] \<longrightarrow> map_of found (product_icon_name_key (snd row)) =
     (if product_icon_name_key (snd row) = [] then None else icon_of table (product_icon_name_key (snd row))))"

lemma icon_ids_loop_shown:
  "list_all (found_in table found) rows \<Longrightarrow> map fst (icon_ids_loop found spawned rows) = map (icon_shown table) rows"
proof (induction found spawned rows rule: icon_ids_loop.induct)
  case (2 found spawned pic name rows)
  let ?key = "product_icon_name_key name"
  have rest: "list_all (found_in table found) rows" and row: "found_in table found (pic, name)" using 2(6) by simp_all
  show ?case
  proof (cases "trim pic = []")
    case True
    with row have m: "map_of found ?key = (if ?key = [] then None else icon_of table ?key)" by (simp add: found_in_def)
    show ?thesis
    proof (cases "map_of found ?key")
      case None
      then show ?thesis using True m 2 rest
        by (cases "product_icon_kind_from_rules ?key") (simp_all add: icon_shown_def Let_def)
    qed (use True m 2 rest in \<open>simp add: icon_shown_def Let_def\<close>)
  qed (use 2 rest in \<open>simp add: icon_shown_def\<close>)
qed simp

lemma product_icon_ids_map: "fst (product_icon_ids table rows) = map (icon_shown table) rows"
proof -
  let ?keys = "filter (\<lambda>k. k \<noteq> []) (map (\<lambda>(_, name). product_icon_name_key name) (filter (\<lambda>(pic, _). trim pic = []) rows))"
  have "map fst (icon_ids_loop (product_icon_lookup table ?keys) [] rows) = map (icon_shown table) rows"
    by (rule icon_ids_loop_shown) (force simp: found_in_def lookup_icon split_beta list_all_iff)
  then show ?thesis by (simp add: product_icon_ids_def Let_def)
qed

text \<open>What \<open>product_icon_ensure\<close> answers is what is shown from then on.\<close>

lemma ensure_shown:
  assumes "product_icon_ensure e name table = (icon, table')" and "trim pic = []"
  shows "icon_shown table' (pic, name) = icon"
proof (cases "product_icon_name_key name = []")
  case True
  then show ?thesis using assms by (simp add: product_icon_ensure_def icon_shown_def Let_def)
next
  case False
  let ?key = "product_icon_name_key name"
  have "icon_of table' ?key = Some icon"
  proof (cases "icon_of table ?key")
    case None
    then show ?thesis using assms(1) False commit_icon(1) by (simp add: product_icon_ensure_def lookup_icon Let_def)
  qed (use assms(1) False in \<open>simp add: product_icon_ensure_def lookup_icon Let_def\<close>)
  then show ?thesis using False assms(2) by (simp add: icon_shown_def Let_def)
qed

section \<open>The rules\<close>

lemma split_on_sep: "\<forall>c\<in>set w. \<not> p c \<Longrightarrow> p s \<Longrightarrow> split_on p (w @ s # rest) = w # split_on p rest"
  by (induction w) auto

lemma split_on_plain: "\<forall>c\<in>set w. \<not> p c \<Longrightarrow> split_on p w = [w]"
  by (induction w) auto

lemma split_on_parts: "\<forall>w\<in>set (split_on p s). \<forall>c\<in>set w. \<not> p c"
proof (induction s)
  case (Cons a s)
  then show ?case by (cases "split_on p s") auto
qed simp

definition is_word :: "string \<Rightarrow> bool" where
  "is_word w \<longleftrightarrow> w \<noteq> [] \<and> (\<forall>c\<in>set w. \<not> is_whitespace c)"

lemma split_join: "\<forall>w\<in>set ws. is_word w \<Longrightarrow> split_whitespace (join_space ws) = ws"
proof (induction ws rule: join_space.induct)
  case (2 w)
  then show ?case by (simp add: split_whitespace_def split_on_plain is_word_def)
next
  case (3 w v ws)
  have "is_whitespace CHR '' ''" by (simp add: is_whitespace_def)
  then have "split_on is_whitespace (join_space (w # v # ws)) = w # split_on is_whitespace (join_space (v # ws))"
    using 3(2) split_on_sep [of w is_whitespace "CHR '' ''" "join_space (v # ws)"] by (simp add: is_word_def)
  then show ?case using 3 by (simp add: split_whitespace_def is_word_def)
qed (simp add: split_whitespace_def)

lemma name_key_tokens: "t \<in> set (split_whitespace (product_icon_name_key name)) \<Longrightarrow> \<not> is_stop_token t"
proof -
  let ?ws = "filter (\<lambda>t. \<not> is_stop_token t \<and> \<not> is_digit_only t)
     (split_whitespace (map (\<lambda>c. if is_alphabetic c then c else CHR '' '') (to_lowercase (trim name))))"
  have "\<forall>w\<in>set ?ws. is_word w" using split_on_parts [of is_whitespace] by (auto simp: split_whitespace_def is_word_def)
  then have "split_whitespace (product_icon_name_key name) = ?ws" by (simp add: product_icon_name_key_def Let_def split_join)
  then show "t \<in> set (split_whitespace (product_icon_name_key name)) \<Longrightarrow> \<not> is_stop_token t" by simp
qed

lemma token_windows_mem: "w \<in> set (token_windows n xs) \<Longrightarrow> set w \<subseteq> set xs"
  by (auto simp: token_windows_def dest: in_set_takeD in_set_dropD)

text \<open>A keyword with a stop word never fires: words such as \<open>ice\<close> and \<open>es\<close> are dropped from every name
  before the rules look at it, so no name at all matches the keywords \<open>ice cream\<close> and \<open>es krim\<close>
  of the kind \<open>ice_cream\<close>; a product called Ice cream has no kind by the rules.\<close>

theorem stop_words_kill_keywords:
  "(\<forall>name keyword. (\<exists>t\<in>set (split_whitespace keyword). is_stop_token t) \<longrightarrow> \<not> keyword_token_match (product_icon_name_key name) keyword) \<and>
   (\<forall>name. \<not> keyword_token_match (product_icon_name_key name) ''ice cream'' \<and> \<not> keyword_token_match (product_icon_name_key name) ''es krim'') \<and>
   product_icon_kind_from_rules (product_icon_name_key ''Ice cream'') = None"
proof -
  have kill: "\<not> keyword_token_match (product_icon_name_key name) keyword" if "t \<in> set (split_whitespace keyword)" "is_stop_token t" for name keyword t
  proof
    assume "keyword_token_match (product_icon_name_key name) keyword"
    then have "split_whitespace keyword \<in> set (token_windows (length (split_whitespace keyword)) (split_whitespace (product_icon_name_key name)))"
      by (auto simp: keyword_token_match_def Let_def list_ex_iff split: if_splits)
    with that show False using token_windows_mem name_key_tokens by blast
  qed
  have "''ice'' \<in> set (split_whitespace ''ice cream'')" "is_stop_token ''ice''" "''es'' \<in> set (split_whitespace ''es krim'')" "is_stop_token ''es''"
    "product_icon_kind_from_rules (product_icon_name_key ''Ice cream'') = None"
    by code_simp+
  with kill show ?thesis by blast
qed

section \<open>Witnesses\<close>

definition test_ienv :: "Value \<Rightarrow> ienv" where
  "test_ienv v = \<lparr> ie_from_str = (\<lambda>_. Inr v), ie_gemini = (\<lambda>_. Some ''{}'') \<rparr>"

definition tea_row :: IconRow where
  "tea_row = \<lparr> ic_name_key = ''thai melati'', ic_icon = ''mdi:tea'', ic_kind = ''tea'', ic_source = ''llm'', ic_model = CHEAP_MODEL \<rparr>"

definition icon_answer :: "string \<Rightarrow> Value" where
  "icon_answer kind = Object [(''kind'', String kind), (''candidates'', Array [Object [(''content'', Object [(''parts'', Array [Object [(''text'', String ''{}'')]])])]])]"

lemma test_commit: "product_icon_ensure (test_ienv (icon_answer ''tea'')) '' Thai Melati 2'' [] = (''mdi:tea'', [tea_row])"
  by code_simp

theorem icons_settle_witness:
  "product_icon_ensure (test_ienv (icon_answer ''tea'')) '' Thai Melati 2'' [] = (''mdi:tea'', [tea_row]) \<and>
   product_icon_ensure (test_ienv (icon_answer ''coffee'')) ''THAI MELATI'' [tea_row] = (''mdi:tea'', [tea_row]) \<and>
   fst (product_icon_ids [tea_row] [(''p.png'', ''Kopi''), ([], ''thai melati'')]) ! 1 = ''mdi:tea''"
proof -
  have k: "product_icon_name_key '' Thai Melati 2'' \<noteq> []" "product_icon_name_key ''THAI MELATI'' = product_icon_name_key '' Thai Melati 2''"
    "product_icon_name_key ''thai melati'' = product_icon_name_key '' Thai Melati 2''"
    by code_simp+
  note settled = icons_settle [OF disjI2 [OF test_commit [symmetric]] k(1) rtranclp.rtrancl_refl]
  have "fst (product_icon_ids [tea_row] [(''p.png'', ''Kopi''), ([], ''thai melati'')]) ! 1 = ''mdi:tea''"
    using settled [OF k(3), THEN conjunct2, rule_format, of 1 "[(''p.png'', ''Kopi''), ([], ''thai melati'')]"] by (simp add: trim_def)
  with test_commit settled [OF k(2)] show ?thesis by blast
qed

lemma test_icon_step: "icon_step [] [tea_row]"
proof -
  have c: "snd (icon_commit (product_icon_name_key '' Thai Melati 2'') (icon_decide (test_ienv (icon_answer ''tea'')) (product_icon_name_key '' Thai Melati 2'')) []) = [tea_row]"
    by code_simp
  have "product_icon_name_key '' Thai Melati 2'' \<noteq> []" by code_simp
  from icon_step.intros [OF this, of "[]" "test_ienv (icon_answer ''tea'')", unfolded c] show ?thesis .
qed

theorem product_icon_ids_spec_witness:
  "\<exists>icons. product_icon_ids [tea_row] [(''p.png'', ''Kopi''), ([], ''Thai melati''), ([], ''Lampu''), ([], ''lampu 5'')] = (icons, [''Lampu'']) \<and>
     length icons = 4 \<and> icons ! 0 = []"
proof -
  let ?list = "[(''p.png'', ''Kopi''), ([], ''Thai melati''), ([], ''Lampu''), ([], ''lampu 5'')]"
  have s: "snd (product_icon_ids [tea_row] ?list) = [''Lampu'']" by code_simp
  then have r: "product_icon_ids [tea_row] ?list = (fst (product_icon_ids [tea_row] ?list), [''Lampu''])" by (metis prod.collapse)
  have "trim ''p.png'' \<noteq> []" by code_simp
  then have "length (fst (product_icon_ids [tea_row] ?list)) = 4 \<and> fst (product_icon_ids [tea_row] ?list) ! 0 = []"
    using product_icon_ids_spec [OF r_into_rtranclp [of icon_step, OF test_icon_step] r] by auto
  with r show ?thesis by blast
qed

end
