(* ===== verification/Site_Product.thy ===== *)
theory Site_Product
  imports Guest_Order Site_Handle Product_Icon "HOL-Library.Product_Lexorder"
begin

text \<open>
  The catalogue of a site: \<open>servers/crates/mod_site/src/site_product.rs\<close> (editing), the queries of
  \<open>guest_product.rs\<close> (what guests see) and \<open>rows.rs\<close>, over the tables \<open>site.product\<close>, which the ledger
  reads and writes too, and \<open>site.product_embed\<close>. Parameters (\<open>cenv\<close>): the text PostgreSQL gives a JSON
  value (none if it refuses the value), the value of such a text, and the answers of the language model that
  \<open>product_icon.rs\<close> asks. A list also starts background tasks for names without an icon; they are calls of
  \<open>product_icon_ensure\<close> of their own. A call draws its ids and reads its clock as the calls of the ledger do.
\<close>

record EmbedRow =
  em_site_iid :: i64
  em_embed_id :: i64
  em_product_id :: i64
  em_label :: string
  em_deleted :: bool

record shop =
  sh_conn :: conn
  sh_embed :: "EmbedRow list"
  sh_icon :: "IconRow list"

record cenv =
  ce_env :: penv
  ce_jsonb_text :: "Value \<Rightarrow> string option"
  ce_jsonb_value :: "string \<Rightarrow> Value"
  ce_gemini :: "string \<Rightarrow> string option"

definition ce_ienv :: "cenv \<Rightarrow> ienv" where
  "ce_ienv e = \<lparr> ie_from_str = p_from_str (ce_env e), ie_gemini = ce_gemini e \<rparr>"

record SiteProduct =
  sp_site_iid :: i64
  sp_product_id :: i64
  sp_type :: i32
  sp_name :: string
  sp_desc :: string
  sp_unit :: string
  sp_sku :: string
  sp_rev :: i64
  sp_can_sell :: bool
  sp_can_reserve :: bool
  sp_track_stock :: bool
  sp_stock_qty :: i32
  sp_price :: i64
  sp_pic :: string
  sp_category :: string
  sp_product_json :: string
  sp_is_archived :: bool
  sp_sort_order :: i32
  sp_is_used :: bool
  sp_created_ts_ms :: i64
  sp_updated_ts_ms :: i64
  sp_deleted_ts_ms :: i64
  sp_icon :: string

definition product_from_row :: "cenv \<Rightarrow> ProductRow \<Rightarrow> SiteProduct" where
  "product_from_row e p = (let ck = p_clock (ce_env e) in
     \<lparr> sp_site_iid = pd_site_iid p, sp_product_id = pd_product_id p, sp_type = pd_type p, sp_name = pd_name p,
       sp_desc = pd_desc p, sp_unit = pd_unit p, sp_sku = pd_sku p, sp_rev = pd_rev p, sp_can_sell = pd_can_sell p,
       sp_can_reserve = pd_can_reserve p, sp_track_stock = pd_track_stock p, sp_stock_qty = pd_stock_qty p,
       sp_price = pd_price p, sp_pic = pd_pic p, sp_category = pd_category p,
       sp_product_json = p_to_string (ce_env e) (ce_jsonb_value e (pd_json p)), sp_is_archived = pd_is_archived p,
       sp_sort_order = pd_sort_order p, sp_is_used = pd_is_used p, sp_created_ts_ms = ts_ms ck (Some (pd_created p)),
       sp_updated_ts_ms = ts_ms ck (Some (pd_updated p)), sp_deleted_ts_ms = ts_ms ck (pd_deleted p), sp_icon = [] \<rparr>)"

section \<open>Cursors\<close>

definition show_i32 :: "i32 \<Rightarrow> string" where
  "show_i32 n = (if n <s 0 then CHR ''-'' # show_nat (nat (- sint n)) else show_nat (nat (sint n)))"

definition parse_i32 :: "string \<Rightarrow> i32 option" where
  "parse_i32 s = Option.bind (parse_int s) (\<lambda>v. if - (2 ^ 31) \<le> v \<and> v < 2 ^ 31 then Some (word_of_int v) else None)"

definition split_once :: "char \<Rightarrow> string \<Rightarrow> (string \<times> string) option" where
  "split_once c s = (case dropWhile (\<lambda>x. x \<noteq> c) s of [] \<Rightarrow> None | _ # rest \<Rightarrow> Some (takeWhile (\<lambda>x. x \<noteq> c) s, rest))"

definition product_cursor_encode :: "i32 \<Rightarrow> i64 \<Rightarrow> string" where
  "product_cursor_encode sort_order product_id = show_i32 sort_order @ '':'' @ show_i64 product_id"

definition product_cursor_decode :: "string \<Rightarrow> string + (i32 \<times> i64) option" where
  "product_cursor_decode cursor =
     (let c = trim cursor
      in if c = [] then Inr None
         else case split_once CHR '':'' c of None \<Rightarrow> Inl ''invalid product cursor'' | Some (so_text, pid_text) \<Rightarrow>
           case parse_i32 so_text of None \<Rightarrow> Inl ''invalid product cursor sort_order'' | Some sort_order \<Rightarrow>
             case parse_i64 pid_text of None \<Rightarrow> Inl ''invalid product cursor product_id'' | Some product_id \<Rightarrow>
               Inr (Some (sort_order, product_id)))"

section \<open>Listing\<close>

text \<open>\<open>ORDER BY sort_order, product_id\<close>, and the rows behind a cursor.\<close>

definition place :: "i32 \<Rightarrow> i64 \<Rightarrow> int \<times> int" where
  "place sort_order product_id = (sint sort_order, sint product_id)"

abbreviation row_place :: "ProductRow \<Rightarrow> int \<times> int" where
  "row_place p \<equiv> place (pd_sort_order p) (pd_product_id p)"

definition live_products :: "(ProductRow \<Rightarrow> bool) \<Rightarrow> conn \<Rightarrow> i64 \<Rightarrow> ProductRow list" where
  "live_products P s site = sort_key row_place (filter (\<lambda>p. pd_site_iid p = site \<and> pd_deleted p = None \<and> P p) (q_product s))"

definition behind :: "(i32 \<times> i64) option \<Rightarrow> ProductRow list \<Rightarrow> ProductRow list" where
  "behind keyset rows = (case keyset of None \<Rightarrow> rows | Some (so, pid) \<Rightarrow> filter (\<lambda>p. place so pid < row_place p) rows)"

record ResSiteProductList =
  pl_products :: "SiteProduct list"
  pl_next_cursor :: string
  pl_has_more :: bool

definition with_icons :: "IconRow list \<Rightarrow> SiteProduct list \<Rightarrow> SiteProduct list" where
  "with_icons table ps = map (\<lambda>(p, icon). p\<lparr> sp_icon := icon \<rparr>)
     (zip ps (fst (product_icon_ids table (map (\<lambda>p. (sp_pic p, sp_name p)) ps))))"

definition site_product_list_page :: "cenv \<Rightarrow> shop \<Rightarrow> i64 \<Rightarrow> i32 \<Rightarrow> string \<Rightarrow> string + ResSiteProductList" where
  "site_product_list_page e s site limit cursor =
     (if limit \<le>s 0
      then Inr \<lparr> pl_products = with_icons (sh_icon s) (map (product_from_row e) (live_products (\<lambda>_. True) (sh_conn s) site)),
                 pl_next_cursor = [], pl_has_more = False \<rparr>
      else let page_size = smax (smin limit 48) 1; fetch = page_size + 1
      in case product_cursor_decode cursor of Inl err \<Rightarrow> Inl err | Inr keyset \<Rightarrow>
        let rows = take (nat (sint fetch)) (behind keyset (live_products (\<lambda>_. True) (sh_conn s) site));
            has_more = (nat (sint page_size) < length rows);
            page_rows = (if has_more then take (nat (sint page_size)) rows else rows);
            products = with_icons (sh_icon s) (map (product_from_row e) page_rows);
            next_cursor = (if has_more then product_cursor_encode (sp_sort_order (last products)) (sp_product_id (last products)) else [])
        in Inr \<lparr> pl_products = products, pl_next_cursor = next_cursor, pl_has_more = has_more \<rparr>)"

definition site_product_list :: "cenv \<Rightarrow> access \<Rightarrow> shop \<Rightarrow> i64 \<Rightarrow> i64 \<Rightarrow> i32 \<Rightarrow> string \<Rightarrow> string + ResSiteProductList" where
  "site_product_list e z s caller site limit cursor =
     (case site_grant_check z caller site False of Inl err \<Rightarrow> Inl err | Inr _ \<Rightarrow> site_product_list_page e s site limit cursor)"

section \<open>Pictures embedded in a product\<close>

definition embed_ids_from_json :: "Value \<Rightarrow> i64 list" where
  "embed_ids_from_json v =
     (case as_array v of None \<Rightarrow> [] | Some arr \<Rightarrow>
        filter (\<lambda>i. 0 <s i) (List.map_filter (\<lambda>item.
          case as_i64 item of Some i \<Rightarrow> Some i | None \<Rightarrow> Option.bind (as_str item) parse_i64) arr))"

definition embed_live :: "i64 \<Rightarrow> i64 \<Rightarrow> EmbedRow \<Rightarrow> bool" where
  "embed_live site product r \<longleftrightarrow> em_site_iid r = site \<and> em_product_id r = product \<and> \<not> em_deleted r"

definition product_embed_soft_delete_tx :: "i64 \<Rightarrow> i64 \<Rightarrow> i64 list \<Rightarrow> EmbedRow list \<Rightarrow> EmbedRow list" where
  "product_embed_soft_delete_tx site product ids rows =
     (if ids = [] then rows
      else map (\<lambda>r. if embed_live site product r \<and> em_embed_id r \<in> set ids then r\<lparr> em_deleted := True \<rparr> else r) rows)"

definition product_embed_reconcile_tx :: "i64 \<Rightarrow> i64 \<Rightarrow> i64 list \<Rightarrow> EmbedRow list \<Rightarrow> EmbedRow list" where
  "product_embed_reconcile_tx site product keep rows =
     (let to_delete = filter (\<lambda>i. i \<notin> set keep) (map em_embed_id (filter (embed_live site product) rows))
      in product_embed_soft_delete_tx site product to_delete rows)"

definition embed_id_of :: "Value \<Rightarrow> i64 option" where
  "embed_id_of eb = (case Option.bind (get_val eb ''embed_id'') as_i64 of Some i \<Rightarrow> if 0 <s i then Some i else None | None \<Rightarrow> None)"

definition embed_upsert :: "i64 \<Rightarrow> i64 \<Rightarrow> i64 \<Rightarrow> string \<Rightarrow> EmbedRow list \<Rightarrow> EmbedRow list" where
  "embed_upsert site product i label =
     upsert (\<lambda>r. em_site_iid r = site \<and> em_embed_id r = i)
       (\<lambda>r. r\<lparr> em_product_id := product, em_label := label, em_deleted := False \<rparr>)
       \<lparr> em_site_iid = site, em_embed_id = i, em_product_id = product, em_label = label, em_deleted = False \<rparr>"

fun embeds_put :: "penv \<Rightarrow> i64 \<Rightarrow> i64 \<Rightarrow> Value list \<Rightarrow> conn \<Rightarrow> EmbedRow list \<Rightarrow> conn \<times> EmbedRow list" where
  "embeds_put e site product [] s rows = (s, rows)"
| "embeds_put e site product (eb # embeds) s rows =
     (let (i, s) = (case embed_id_of eb of Some i \<Rightarrow> (i, s) | None \<Rightarrow> snowflake_draw e s);
          label = trim (unwrap_or [] (Option.bind (get_val eb ''label'') as_str))
      in embeds_put e site product embeds s (embed_upsert site product i label rows))"

section \<open>Editing\<close>

definition product_of :: "i64 \<Rightarrow> i64 \<Rightarrow> ProductRow \<Rightarrow> bool" where
  "product_of site product p \<longleftrightarrow> pd_site_iid p = site \<and> pd_product_id p = product"

definition product_json_raw :: "penv \<Rightarrow> string \<Rightarrow> Value" where
  "product_json_raw e s = (if s = [] then Object [] else case p_from_str e s of Inl _ \<Rightarrow> Object [] | Inr v \<Rightarrow> v)"

definition product_json_stored :: "Value \<Rightarrow> Value" where
  "product_json_stored raw =
     (case as_object raw of Some m \<Rightarrow> Object (filter (\<lambda>(k, _). k \<noteq> ''_embeds'' \<and> k \<noteq> ''_embeds_deleted'') m) | None \<Rightarrow> raw)"

definition product_edit :: "datetime \<Rightarrow> string \<Rightarrow> SiteProduct \<Rightarrow> ProductRow \<Rightarrow> ProductRow" where
  "product_edit now json m p = p\<lparr> pd_type := sp_type m, pd_name := sp_name m, pd_desc := sp_desc m, pd_unit := sp_unit m,
     pd_sku := sp_sku m, pd_rev := sp_rev m, pd_can_sell := sp_can_sell m, pd_can_reserve := sp_can_reserve m,
     pd_track_stock := sp_track_stock m, pd_stock_qty := sp_stock_qty m, pd_price := sp_price m, pd_pic := sp_pic m,
     pd_category := sp_category m, pd_json := json, pd_search_text := sp_name m @ '' '' @ sp_sku m @ '' '' @ sp_desc m,
     pd_sort_order := sp_sort_order m, pd_is_archived := sp_is_archived m, pd_updated := now, pd_deleted := None \<rparr>"

definition product_new :: "datetime \<Rightarrow> string \<Rightarrow> i64 \<Rightarrow> i64 \<Rightarrow> i64 \<Rightarrow> SiteProduct \<Rightarrow> ProductRow" where
  "product_new now json site product owner m = product_edit now json m
     \<lparr> pd_site_iid = site, pd_product_id = product, pd_can_reserve = False, pd_track_stock = False, pd_stock_qty = 0,
       pd_is_used = False, pd_can_sell = False, pd_is_archived = False, pd_price = 0, pd_rev = 0, pd_json = json,
       pd_owner_iid = owner, pd_type = 0, pd_name = [], pd_desc = [], pd_unit = [], pd_sku = [], pd_pic = [], pd_category = [],
       pd_search_text = [], pd_sort_order = 0, pd_recommended_guest = False, pd_created = now, pd_updated = now, pd_deleted = None \<rparr>"

definition site_product_put ::
  "cenv \<Rightarrow> access \<Rightarrow> shop \<Rightarrow> i64 \<Rightarrow> i64 \<Rightarrow> SiteProduct option \<Rightarrow> bool \<Rightarrow> (string + i64 \<times> string) \<times> shop \<times> SiteProduct list" where
  "site_product_put e z s caller site req out =
     (case req of None \<Rightarrow> (Inl ''product required'', s, []) | Some product \<Rightarrow>
      case site_grant_check z caller site True of Inl err \<Rightarrow> (Inl err, s, []) | Inr owner \<Rightarrow>
        let (pid, c) = id_or_draw (ce_env e) (sp_product_id product) (call_start (sh_conn s));
            raw = product_json_raw (ce_env e) (sp_product_json product);
            had_embeds_key = (get_val raw ''_embeds'' \<noteq> None);
            embeds = unwrap_or [] (Option.bind (get_val raw ''_embeds'') as_array);
            embeds_deleted = embed_ids_from_json (unwrap_or Null (get_val raw ''_embeds_deleted''));
            now = p_now (ce_env e)
        in case ce_jsonb_text e (product_json_stored raw) of None \<Rightarrow> (Inl ''bad json'', s, []) | Some json \<Rightarrow>
          if \<not> fits TYPE(16) (sint (sp_type product)) then (Inl ''smallint out of range'', s, [])
          else let c = c\<lparr> q_product := upsert (product_of site pid) (product_edit now json product)
                            (product_new now json site pid owner product) (q_product c) \<rparr>;
                   (c, rows) = embeds_put (ce_env e) site pid embeds c (sh_embed s);
                   rows = product_embed_soft_delete_tx site pid embeds_deleted rows;
                   rows = (if had_embeds_key
                           then product_embed_reconcile_tx site pid (List.map_filter embed_id_of embeds) rows else rows);
                   (icon, icons) = (if trim (sp_pic product) = [] \<and> sp_name product \<noteq> []
                                    then product_icon_ensure (ce_ienv e) (sp_name product) (sh_icon s) else ([], sh_icon s))
               in (Inr (pid, icon), \<lparr> sh_conn = c, sh_embed = rows, sh_icon = icons \<rparr>,
                   if out then [product\<lparr> sp_site_iid := site, sp_product_id := pid, sp_icon := icon \<rparr>] else []))"

definition used_error :: string where
  "used_error = ''product has been used in sales or orders; archive it instead of deleting''"

definition site_product_delete ::
  "cenv \<Rightarrow> access \<Rightarrow> shop \<Rightarrow> i64 \<Rightarrow> i64 \<Rightarrow> i64 \<Rightarrow> bool \<Rightarrow> (string + i64) \<times> shop \<times> SiteProduct list" where
  "site_product_delete e z s caller site product out =
     (if site \<le>s 0 \<or> product \<le>s 0 then (Inl ''site_iid and product_id required'', s, [])
      else case site_grant_check z caller site True of Inl err \<Rightarrow> (Inl err, s, []) | Inr _ \<Rightarrow>
        case find (product_live site product) (q_product (sh_conn s)) of
          None \<Rightarrow> (Inl (''product '' @ show_i64 product @ '' not found or already deleted''), s, [])
        | Some p \<Rightarrow>
            if pd_is_used p then (Inl used_error, s, [])
            else let now = p_now (ce_env e); gone = (\<lambda>p. p\<lparr> pd_deleted := Some now, pd_updated := now \<rparr>); c = sh_conn s
                 in (Inr product, s\<lparr> sh_conn := c\<lparr> q_product :=
                       map (\<lambda>p. if product_live site product p then gone p else p) (q_product c) \<rparr> \<rparr>,
                     if out then [product_from_row e (gone p)] else []))"

fun reorder_loop :: "datetime \<Rightarrow> i64 \<Rightarrow> (i64 \<times> i32) list \<Rightarrow> ProductRow list \<Rightarrow> string + ProductRow list" where
  "reorder_loop now site [] ps = Inr ps"
| "reorder_loop now site ((product, sort_order) # entries) ps =
     (if product \<le>s 0 then reorder_loop now site entries ps
      else if \<not> list_ex (product_live site product) ps then Inl (''product '' @ show_i64 product @ '' not found'')
      else reorder_loop now site entries
             (map (\<lambda>p. if product_live site product p then p\<lparr> pd_sort_order := sort_order, pd_updated := now \<rparr> else p) ps))"

definition site_product_reorder :: "cenv \<Rightarrow> access \<Rightarrow> shop \<Rightarrow> i64 \<Rightarrow> i64 \<Rightarrow> (i64 \<times> i32) list \<Rightarrow> (string + bool) \<times> shop" where
  "site_product_reorder e z s caller site entries =
     (if site \<le>s 0 then (Inl ''site_iid required'', s)
      else case site_grant_check z caller site True of Inl err \<Rightarrow> (Inl err, s) | Inr _ \<Rightarrow>
        if entries = [] then (Inr True, s)
        else case reorder_loop (p_now (ce_env e)) site entries (q_product (sh_conn s)) of
          Inl err \<Rightarrow> (Inl err, s)
        | Inr ps \<Rightarrow> (Inr True, s\<lparr> sh_conn := (sh_conn s)\<lparr> q_product := ps \<rparr> \<rparr>))"

section \<open>What guests see\<close>

record GuestProductRow =
  gp_product_id :: i64
  gp_name :: string
  gp_desc :: string
  gp_price :: i64
  gp_pic :: string
  gp_category :: string
  gp_sort_order :: i32
  gp_can_reserve :: bool
  gp_duration_value :: i64
  gp_duration_unit :: string
  gp_reservation_unit_selection :: string
  gp_reservation_inventory_mode :: string
  gp_reservation_capacity :: i64
  gp_reservation_hold_ttl_seconds :: i64
  gp_icon :: string
  gp_pics :: "string list"
  gp_stock_show_to_customer :: bool
  gp_stock_qty :: "i64 option"
  gp_stock_unit :: string
  gp_stock_show_max_qty :: i64

definition pics_from_product_json :: "Value \<Rightarrow> string list" where
  "pics_from_product_json v =
     (case Option.bind (get_val v ''pics'') as_array of None \<Rightarrow> [] | Some arr \<Rightarrow>
        filter (\<lambda>s. s \<noteq> []) (map trim (List.map_filter as_str arr)))"

definition reservation_fields_from_json_value :: "penv \<Rightarrow> Value \<Rightarrow> i64 \<times> string \<times> string" where
  "reservation_fields_from_json_value e v = reservation_fields_from_product_json (p_from_str e) (p_to_string e) (p_to_string e v)"

definition product_row_from_pg :: "cenv \<Rightarrow> ProductRow \<Rightarrow> GuestProductRow" where
  "product_row_from_pg e p =
     (let v = ce_jsonb_value e (pd_json p);
          (duration_value, duration_unit, selection) = reservation_fields_from_json_value (ce_env e) v;
          (mode, capacity) = reservation_inventory_from_json_value (p_to_string (ce_env e)) v
      in \<lparr> gp_product_id = pd_product_id p, gp_name = pd_name p, gp_desc = pd_desc p, gp_price = pd_price p, gp_pic = pd_pic p,
           gp_category = pd_category p, gp_sort_order = pd_sort_order p, gp_can_reserve = pd_can_reserve p,
           gp_duration_value = duration_value, gp_duration_unit = duration_unit, gp_reservation_unit_selection = selection,
           gp_reservation_inventory_mode = mode, gp_reservation_capacity = capacity,
           gp_reservation_hold_ttl_seconds = reservation_hold_ttl_from_json_value v, gp_icon = [],
           gp_pics = pics_from_product_json v, gp_stock_show_to_customer = stock_show_to_customer_from_product_json v,
           gp_stock_qty = Some (scast (pd_stock_qty p)), gp_stock_unit = stock_unit_from_product_json v,
           gp_stock_show_max_qty = stock_show_max_qty_from_product_json v \<rparr>)"

definition product_grid_page_size :: "Value \<Rightarrow> i32" where
  "product_grid_page_size props =
     (let page_size = Option.bind (get_val props ''page_size'') as_i64; limit = Option.bind (get_val props ''limit'') as_i64;
          raw = scast (unwrap_or 24 (case page_size of Some n \<Rightarrow> Some n | None \<Rightarrow> limit)) :: i32
      in if raw \<le>s 0 then 24 else smin raw 48)"

definition guest_product_limit_clamp :: "i32 \<Rightarrow> i32" where
  "guest_product_limit_clamp limit = (if limit \<le>s 0 then 24 else smin limit 48)"

definition guest_visible :: "string \<Rightarrow> string \<Rightarrow> ProductRow \<Rightarrow> bool" where
  "guest_visible flt category p \<longleftrightarrow> \<not> pd_is_archived p \<and> pd_can_sell p \<and>
     (if flt = ''recommended'' then pd_recommended_guest p else category \<noteq> [] \<longrightarrow> pd_category p = category)"

definition fetch_product_rows :: "cenv \<Rightarrow> conn \<Rightarrow> i64 \<Rightarrow> string \<Rightarrow> string \<Rightarrow> (i32 \<times> i64) option \<Rightarrow> i32 \<Rightarrow> GuestProductRow list" where
  "fetch_product_rows e s site flt category keyset limit =
     map (product_row_from_pg e) (take (nat (sint (smax limit 1))) (behind keyset (live_products (guest_visible flt category) s site)))"

definition fill_row_icons :: "IconRow list \<Rightarrow> GuestProductRow list \<Rightarrow> GuestProductRow list" where
  "fill_row_icons table rows = map (\<lambda>(p, icon). p\<lparr> gp_icon := icon \<rparr>)
     (zip rows (fst (product_icon_ids table (map (\<lambda>p. (gp_pic p, gp_name p)) rows))))"

definition guest_product_list ::
  "cenv \<Rightarrow> shop \<Rightarrow> i64 \<Rightarrow> string \<Rightarrow> string \<Rightarrow> string \<Rightarrow> i32 \<Rightarrow> string + GuestProductRow list \<times> string" where
  "guest_product_list e s site flt category cursor limit =
     (if site \<le>s 0 then Inl ''site_iid required''
      else let lim = guest_product_limit_clamp limit
      in case product_cursor_decode cursor of Inl err \<Rightarrow> Inl err | Inr keyset \<Rightarrow>
        let rows = fetch_product_rows e (sh_conn s) site flt category keyset (lim + 1);
            has_more = (nat (sint lim) < length rows);
            page = (if has_more then take (nat (sint lim)) rows else rows);
            next_cursor = (if has_more then product_cursor_encode (gp_sort_order (last page)) (gp_product_id (last page)) else [])
        in Inr (fill_row_icons (sh_icon s) page, next_cursor))"

definition product_rows_for_grid :: "cenv \<Rightarrow> shop \<Rightarrow> i64 \<Rightarrow> string \<Rightarrow> string \<Rightarrow> i32 \<Rightarrow> string + GuestProductRow list" where
  "product_rows_for_grid e s site flt category limit =
     (case guest_product_list e s site flt category [] limit of Inl err \<Rightarrow> Inl err | Inr (items, _) \<Rightarrow> Inr items)"

definition guest_product_get :: "cenv \<Rightarrow> shop \<Rightarrow> i64 \<Rightarrow> i64 \<Rightarrow> (GuestProductRow \<times> bool) option" where
  "guest_product_get e s site product =
     (if site \<le>s 0 \<or> product \<le>s 0 then None
      else case find (\<lambda>p. product_live site product p \<and> \<not> pd_is_archived p) (q_product (sh_conn s)) of
        None \<Rightarrow> None
      | Some p \<Rightarrow> let row = hd (fill_row_icons (sh_icon s) [product_row_from_pg e p]) in Some (row, gp_can_reserve row))"

definition guest_product_sell_ids :: "conn \<Rightarrow> i64 \<Rightarrow> i32 \<Rightarrow> i64 list" where
  "guest_product_sell_ids s site limit =
     (if site \<le>s 0 then []
      else take (nat (sint (smin (smax limit 1) 500))) (map pd_product_id (live_products (\<lambda>p. \<not> pd_is_archived p \<and> pd_can_sell p) s site)))"

end
