(* ===== verification/Product_Pages.thy ===== *)
theory Product_Pages
  imports Site_Product
begin

text \<open>
  Paging through the catalogue: a client that follows the cursors reads every product once, in order.
  The locale \<open>keyset_pages\<close> is the contract of a list read in pages behind a key; it is interpreted on
  the pages of the editor and on those of the guests.
\<close>

section \<open>Pages behind a key\<close>

definition page_of :: "('k \<Rightarrow> string) \<Rightarrow> ('r \<Rightarrow> 'k) \<Rightarrow> nat \<Rightarrow> 'r list \<Rightarrow> 'r list \<times> string" where
  "page_of cursor key n xs = (if n < length xs then (take n xs, cursor (key (last (take n xs)))) else (xs, []))"

text \<open>A client: it asks for the next page until there is no cursor, at most \<open>fuel\<close> times.\<close>

fun follow :: "(string \<Rightarrow> string + 'r list \<times> string) \<Rightarrow> nat \<Rightarrow> string \<Rightarrow> string + 'r list" where
  "follow page 0 c = Inl ''too many pages''"
| "follow page (Suc fuel) c =
     (case page c of Inl err \<Rightarrow> Inl err | Inr (rs, c') \<Rightarrow>
        if c' = [] then Inr rs else case follow page fuel c' of Inl err \<Rightarrow> Inl err | Inr rs' \<Rightarrow> Inr (rs @ rs'))"

locale keyset_pages =
  fixes ok :: "'s \<Rightarrow> 'l \<Rightarrow> bool"
    and page :: "'s \<Rightarrow> 'l \<Rightarrow> string \<Rightarrow> string + 'r list \<times> string"
    and rows :: "'s \<Rightarrow> 'r list"
    and key :: "'r \<Rightarrow> 'k::linorder"
    and cursor :: "'k \<Rightarrow> string"
    and size :: "'l \<Rightarrow> nat"
  assumes in_order: "ok s l \<Longrightarrow> sorted_wrt (\<lambda>a b. key a < key b) (rows s)"
    and first_page: "ok s l \<Longrightarrow> page s l [] = Inr (page_of cursor key (size l) (rows s))"
    and next_page: "ok s l \<Longrightarrow> page s l (cursor (key r)) = Inr (page_of cursor key (size l) (filter (\<lambda>x. key r < key x) (rows s)))"
    and cursor_shown: "cursor (key r) \<noteq> []"
    and page_size: "ok s l \<Longrightarrow> 0 < size l"
begin

lemma behind_key: "ok s l \<Longrightarrow> rows s = us @ v # ws \<Longrightarrow> filter (\<lambda>x. key v < key x) (rows s) = ws"
  using in_order [of s l] by (auto simp: sorted_wrt_append filter_empty_conv filter_id_conv dest: less_asym)

lemma follow_from:
  assumes ok: "ok s l" and "rows s = us @ xs" "page s l c = Inr (page_of cursor key (size l) xs)" "length xs < fuel"
  shows "follow (page s l) fuel c = Inr xs"
  using assms(2-)
proof (induction fuel arbitrary: us xs c)
  case (Suc fuel)
  let ?n = "size l"
  show ?case
  proof (cases "?n < length xs")
    case True
    define v where "v = last (take ?n xs)"
    have ne: "take ?n xs \<noteq> []" using page_size [OF ok] True by auto
    then have t: "take ?n xs = butlast (take ?n xs) @ [v]" by (simp add: v_def)
    have r: "rows s = (us @ butlast (take ?n xs)) @ v # drop ?n xs"
      using Suc.prems(1) append_take_drop_id [of ?n xs] t by (metis append.assoc append_Cons append_Nil)
    have "follow (page s l) fuel (cursor (key v)) = Inr (drop ?n xs)"
    proof (rule Suc.IH)
      show "rows s = (us @ take ?n xs) @ drop ?n xs" using Suc.prems(1) by simp
      show "page s l (cursor (key v)) = Inr (page_of cursor key ?n (drop ?n xs))" using next_page [OF ok] behind_key [OF ok r] by simp
      show "length (drop ?n xs) < fuel" using Suc.prems(3) True page_size [OF ok] by simp
    qed
    then show ?thesis using Suc.prems(2) True cursor_shown [of v] by (simp add: page_of_def v_def)
  next
    case False
    then show ?thesis using Suc.prems(2) by (simp add: page_of_def)
  qed
qed simp

lemma follow_all: "ok s l \<Longrightarrow> length (rows s) < fuel \<Longrightarrow> follow (page s l) fuel [] = Inr (rows s)"
  by (rule follow_from [of s l "[]"]) (simp_all add: first_page)

end

section \<open>Cursors\<close>

definition show_int :: "int \<Rightarrow> string" where
  "show_int v = (if v < 0 then CHR ''-'' # show_nat (nat (- v)) else show_nat (nat v))"

lemma show_i32_int: "show_i32 n = show_int (sint n)"
  by (simp add: show_i32_def show_int_def word_sless_alt)

lemma show_i64_int: "show_i64 n = show_int (sint n)"
  by (simp add: show_i64_def show_int_def word_sless_alt)

lemma digit_ascii: "d < 10 \<Longrightarrow> is_ascii_digit (digit d)"
  by (simp add: is_ascii_digit_def digit_def Let_def)

lemma show_nat_ascii: "list_all is_ascii_digit (show_nat n)"
proof (induction n rule: show_nat.induct)
  case (1 n)
  then show ?case by (subst show_nat.simps) (simp add: digit_ascii)
qed

lemma ascii_digit_not: "is_ascii_digit c \<Longrightarrow> c \<noteq> CHR ''-'' \<and> c \<noteq> CHR ''+'' \<and> c \<noteq> CHR '':'' \<and> \<not> is_whitespace c"
  by (auto simp: is_ascii_digit_def is_whitespace_def Let_def)

lemma parse_show_int: "parse_int (show_int v) = Some v"
proof -
  obtain d ds where s: "show_nat (nat v) = d # ds" by (cases "show_nat (nat v)") auto
  then have "d \<noteq> CHR ''-''" "d \<noteq> CHR ''+''" using show_nat_ascii [of "nat v"] ascii_digit_not [of d] by auto
  then have "parse_int (show_nat (nat v)) = Some (int (nat v))"
    using show_nat_ascii [of "nat v"] show_nat_digits [of "nat v"] by (simp add: parse_int_def s)
  moreover have "parse_int (CHR ''-'' # show_nat (nat (- v))) = Some (- int (nat (- v)))"
    using show_nat_ascii [of "nat (- v)"] by (simp add: parse_int_def show_nat_digits)
  ultimately show ?thesis by (simp add: show_int_def)
qed

lemma parse_i32_show: "parse_i32 (show_i32 n) = Some n"
  using sint_range_size [of n] by (simp add: parse_i32_def show_i32_int parse_show_int word_size)

lemma parse_i64_show: "parse_i64 (show_i64 n) = Some n"
  using sint_range_size [of n] by (simp add: parse_i64_def show_i64_int parse_show_int word_size)

lemma show_int_plain: "c \<in> set (show_int v) \<Longrightarrow> c \<noteq> CHR '':'' \<and> \<not> is_whitespace c"
  using show_nat_ascii [of "nat v"] show_nat_ascii [of "nat (- v)"] ascii_digit_not
  by (auto simp: show_int_def list_all_iff is_whitespace_def split: if_splits)

lemma split_once_here: "c \<notin> set a \<Longrightarrow> split_once c (a @ c # b) = Some (a, b)"
proof -
  assume "c \<notin> set a"
  then have "dropWhile (\<lambda>x. x \<noteq> c) (a @ c # b) = c # b" "takeWhile (\<lambda>x. x \<noteq> c) (a @ c # b) = a"
    by (auto simp: dropWhile_append takeWhile_append)
  then show ?thesis by (simp add: split_once_def)
qed

lemma cursor_roundtrip: "product_cursor_decode (product_cursor_encode so pid) = Inr (Some (so, pid))"
proof -
  let ?c = "product_cursor_encode so pid"
  have "list_all (\<lambda>c. \<not> is_whitespace c) ?c"
    using show_int_plain by (auto simp: product_cursor_encode_def show_i32_int show_i64_int list_all_iff is_whitespace_def)
  then have "trim ?c = ?c" by (rule trim_visible)
  moreover have "split_once CHR '':'' ?c = Some (show_i32 so, show_i64 pid)"
    using show_int_plain split_once_here [of "CHR '':''" "show_i32 so" "show_i64 pid"]
    by (auto simp: product_cursor_encode_def show_i32_int)
  ultimately show ?thesis
    by (simp add: product_cursor_decode_def Let_def parse_i32_show parse_i64_show product_cursor_encode_def)
qed

section \<open>The order of the catalogue\<close>

abbreviation product_key :: "ProductRow \<Rightarrow> i64 \<times> i64" where
  "product_key p \<equiv> (pd_site_iid p, pd_product_id p)"

lemma live_products_sorted:
  assumes "distinct (map product_key (q_product s))"
  shows "sorted_wrt (\<lambda>a b. row_place a < row_place b) (live_products P s site)"
proof -
  let ?l = "filter (\<lambda>p. pd_site_iid p = site \<and> pd_deleted p = None \<and> P p) (q_product s)"
  have "inj_on row_place (set ?l)"
  proof (rule inj_onI)
    fix a b assume ab: "a \<in> set ?l" "b \<in> set ?l" "row_place a = row_place b"
    then have "product_key a = product_key b" by (auto simp: place_def intro: signed_word_eqI)
    then show "a = b" using ab assms distinct_key_eq [of product_key "q_product s" a b] by auto
  qed
  moreover have "distinct (map product_key ?l)" using assms by (rule distinct_map_filter)
  ultimately have "distinct (map row_place (live_products P s site))" by (auto simp: live_products_def distinct_map)
  moreover have "sorted (map row_place (live_products P s site))" unfolding live_products_def by (rule sorted_sort_key)
  ultimately have "sorted_wrt (<) (map row_place (live_products P s site))" by (simp only: strict_sorted_iff)
  then show ?thesis by (simp add: sorted_wrt_map)
qed

text \<open>What both listings do with the rows behind a cursor: fetch one more than a page and cut it off.\<close>

definition place_cursor :: "int \<times> int \<Rightarrow> string" where
  "place_cursor k = product_cursor_encode (word_of_int (fst k)) (word_of_int (snd k))"

lemma place_cursor_place: "place_cursor (place so pid) = product_cursor_encode so pid"
  by (simp add: place_cursor_def place_def)

lemma fetched_page:
  assumes "0 < n" and "key \<circ> V = row_place"
  shows "(map V (if n < length (take (Suc n) xs) then take n (take (Suc n) xs) else take (Suc n) xs),
      if n < length (take (Suc n) xs)
      then product_cursor_encode (pd_sort_order (last (take n (take (Suc n) xs)))) (pd_product_id (last (take n (take (Suc n) xs)))) else []) =
    page_of place_cursor key n (map V xs)"
proof (cases "n < length xs")
  case True
  then have "take n xs \<noteq> []" using assms(1) by auto
  then have "key (last (map V (take n xs))) = row_place (last (take n xs))"
    using assms(2) by (simp add: last_map fun_eq_iff)
  with True show ?thesis by (simp add: page_of_def take_map place_cursor_place min_def)
qed (simp add: page_of_def min_def)

lemma behind_place: "filter (\<lambda>x. place so pid < key x) (map V rows) = map V (behind (Some (so, pid)) rows)"
  if "key \<circ> V = row_place"
  using that by (simp add: behind_def filter_map comp_def fun_eq_iff)

section \<open>The editor\<close>

lemma with_icons_map: "with_icons table ps = map (\<lambda>p. p\<lparr> sp_icon := icon_shown table (sp_pic p, sp_name p) \<rparr>) ps"
  by (simp add: with_icons_def product_icon_ids_map zip_map2 zip_same_conv_map comp_def)

lemma fill_row_icons_map: "fill_row_icons table rows = map (\<lambda>p. p\<lparr> gp_icon := icon_shown table (gp_pic p, gp_name p) \<rparr>) rows"
  by (simp add: fill_row_icons_def product_icon_ids_map zip_map2 zip_same_conv_map comp_def)

definition editor_row :: "cenv \<Rightarrow> shop \<Rightarrow> ProductRow \<Rightarrow> SiteProduct" where
  "editor_row e s p = (product_from_row e p)\<lparr> sp_icon := icon_shown (sh_icon s) (pd_pic p, pd_name p) \<rparr>"

definition editor_page :: "cenv \<Rightarrow> shop \<Rightarrow> i64 \<Rightarrow> i32 \<Rightarrow> string \<Rightarrow> string + SiteProduct list \<times> string" where
  "editor_page e s site limit c =
     (case site_product_list_page e s site limit c of Inl err \<Rightarrow> Inl err | Inr r \<Rightarrow> Inr (pl_products r, pl_next_cursor r))"

definition editor_key :: "SiteProduct \<Rightarrow> int \<times> int" where
  "editor_key p = place (sp_sort_order p) (sp_product_id p)"

lemma editor_key_row: "editor_key \<circ> editor_row e s = row_place"
  by (simp add: fun_eq_iff editor_key_def editor_row_def product_from_row_def Let_def)

lemma with_icons_rows: "with_icons (sh_icon s) (map (product_from_row e) ps) = map (editor_row e s) ps"
  by (simp add: with_icons_map editor_row_def product_from_row_def Let_def)

lemma editor_page_size:
  assumes "0 <s (limit :: i32)"
  shows "sint (smax (smin limit 48) 1) = min (sint limit) 48" "nat (sint (smax (smin limit 48) 1 + 1)) = Suc (nat (min (sint limit) 48))"
proof -
  show m: "sint (smax (smin limit 48) 1) = min (sint limit) 48" using assms by (simp add: word_sless_alt)
  then have "sint (smax (smin limit 48) 1 + 1) = min (sint limit) 48 + 1"
    using assms sint_add_fits [of "smax (smin limit 48) 1" 1] by (simp add: fits_def word_sless_alt)
  then show "nat (sint (smax (smin limit 48) 1 + 1)) = Suc (nat (min (sint limit) 48))" using assms by (simp add: word_sless_alt nat_add_distrib)
qed

lemma editor_page_cut:
  assumes "0 <s limit" "product_cursor_decode c = Inr k"
  shows "editor_page e s site limit c =
    Inr (page_of place_cursor editor_key (nat (min (sint limit) 48)) (map (editor_row e s) (behind k (live_products (\<lambda>_. True) (sh_conn s) site))))"
proof -
  let ?n = "nat (min (sint limit) 48)" and ?xs = "behind k (live_products (\<lambda>_. True) (sh_conn s) site)"
  have n: "0 < ?n" and pos: "\<not> limit \<le>s 0" using assms(1) by (auto simp: word_sless_alt word_sle_eq)
  have sz: "nat (sint (smax (smin limit 48) 1)) = ?n" "nat (sint (smax (smin limit 48) 1 + 1)) = Suc ?n"
    using editor_page_size [OF assms(1)] by (simp_all del: sint_smax sint_smin)
  have last: "sp_sort_order (last (map (editor_row e s) ps)) = pd_sort_order (last ps)"
      "sp_product_id (last (map (editor_row e s) ps)) = pd_product_id (last ps)" if "ps \<noteq> []" for ps
    using that by (simp_all add: last_map editor_row_def product_from_row_def Let_def)
  have page: "editor_page e s site limit c = (let rows = take (Suc ?n) ?xs; more = ?n < length rows; page = (if more then take ?n rows else rows)
      in Inr (map (editor_row e s) page, if more then product_cursor_encode (sp_sort_order (last (map (editor_row e s) page)))
        (sp_product_id (last (map (editor_row e s) page))) else []))"
    unfolding editor_page_def site_product_list_page_def sz Let_def by (simp add: pos assms(2) with_icons_rows del: sint_smax sint_smin)
  show ?thesis
  proof (cases "?n < length ?xs")
    case True
    then have "take ?n ?xs \<noteq> []" using n by auto
    from last [OF this] True show ?thesis
      unfolding page fetched_page [OF n editor_key_row, symmetric] by (simp add: Let_def min_def)
  next
    case False
    then show ?thesis unfolding page fetched_page [OF n editor_key_row, symmetric] by (simp add: Let_def min_def)
  qed
qed

interpretation editor: keyset_pages "\<lambda>s limit. product_pk (sh_conn s) \<and> 0 <s limit" "\<lambda>s. editor_page e s site"
    "\<lambda>s. map (editor_row e s) (live_products (\<lambda>_. True) (sh_conn s) site)" editor_key place_cursor "\<lambda>limit. nat (min (sint limit) 48)"
  for e site
proof unfold_locales
  fix s :: shop and limit :: i32 and r
  let ?rows = "map (editor_row e s) (live_products (\<lambda>_. True) (sh_conn s) site)"
  assume ok: "product_pk (sh_conn s) \<and> 0 <s limit"
  show "sorted_wrt (\<lambda>a b. editor_key a < editor_key b) ?rows"
    using live_products_sorted ok editor_key_row [of e s] by (simp add: sorted_wrt_map fun_eq_iff product_pk_def)
  show "editor_page e s site limit [] = Inr (page_of place_cursor editor_key (nat (min (sint limit) 48)) ?rows)"
    using editor_page_cut [of limit "[]" None] ok by (simp add: product_cursor_decode_def behind_def)
  show "editor_page e s site limit (place_cursor (editor_key r)) =
      Inr (page_of place_cursor editor_key (nat (min (sint limit) 48)) (filter (\<lambda>x. editor_key r < editor_key x) ?rows))"
    using editor_page_cut [OF _ cursor_roundtrip] ok behind_place [OF editor_key_row] by (simp add: editor_key_def place_cursor_place)
  show "0 < nat (min (sint limit) 48)" using ok by (simp add: word_sless_alt)
next
  show "place_cursor (editor_key r) \<noteq> []" for r by (simp add: place_cursor_def product_cursor_encode_def)
qed

text \<open>Claim C19. The pages of the editor add up: whatever the page size, following the cursors from the first page
  ends and gives exactly the list that a request without a limit answers, in the same order.\<close>

theorem editor_pages:
  assumes "product_pk (sh_conn s)" "0 <s limit" "length (q_product (sh_conn s)) < fuel"
  shows "\<exists>res. site_product_list_page e s site 0 [] = Inr res \<and> follow (editor_page e s site limit) fuel [] = Inr (pl_products res)"
proof -
  let ?rows = "map (editor_row e s) (live_products (\<lambda>_. True) (sh_conn s) site)"
  have "length ?rows < fuel" using assms(3) by (simp add: live_products_def le_less_trans [OF length_filter_le])
  then have "follow (editor_page e s site limit) fuel [] = Inr ?rows" using editor.follow_all assms(1,2) by blast
  then show ?thesis by (simp add: site_product_list_page_def with_icons_rows)
qed

section \<open>Guests\<close>

definition guest_row :: "cenv \<Rightarrow> shop \<Rightarrow> ProductRow \<Rightarrow> GuestProductRow" where
  "guest_row e s p = (product_row_from_pg e p)\<lparr> gp_icon := icon_shown (sh_icon s) (pd_pic p, pd_name p) \<rparr>"

definition guest_key :: "GuestProductRow \<Rightarrow> int \<times> int" where
  "guest_key p = place (gp_sort_order p) (gp_product_id p)"

lemma row_from_pg_fields [simp]:
  "gp_sort_order (product_row_from_pg e p) = pd_sort_order p" "gp_product_id (product_row_from_pg e p) = pd_product_id p"
  "gp_pic (product_row_from_pg e p) = pd_pic p" "gp_name (product_row_from_pg e p) = pd_name p"
  "gp_price (product_row_from_pg e p) = pd_price p" "gp_can_reserve (product_row_from_pg e p) = pd_can_reserve p"
  by (simp_all add: product_row_from_pg_def Let_def split_beta)

lemma guest_key_row: "guest_key \<circ> guest_row e s = row_place"
  by (simp add: fun_eq_iff guest_key_def guest_row_def)

lemma fill_icons_rows: "fill_row_icons (sh_icon s) (map (product_row_from_pg e) ps) = map (guest_row e s) ps"
  by (simp add: fill_row_icons_map guest_row_def)

definition guest_page_size :: "i32 \<Rightarrow> nat" where
  "guest_page_size limit = nat (sint (guest_product_limit_clamp limit))"

lemma guest_limit: "0 < guest_page_size limit" "nat (sint (smax (guest_product_limit_clamp limit + 1) 1)) = Suc (guest_page_size limit)"
proof -
  have c: "0 < sint (guest_product_limit_clamp limit)" "sint (guest_product_limit_clamp limit) \<le> 48"
    by (simp_all add: guest_product_limit_clamp_def word_sle_eq)
  then show "0 < guest_page_size limit" by (simp add: guest_page_size_def)
  have "sint (guest_product_limit_clamp limit + 1) = sint (guest_product_limit_clamp limit) + 1"
    using c sint_add_fits [of "guest_product_limit_clamp limit" 1] by (simp add: fits_def)
  then show "nat (sint (smax (guest_product_limit_clamp limit + 1) 1)) = Suc (guest_page_size limit)"
    using c by (simp add: guest_page_size_def nat_add_distrib)
qed

lemma guest_page_cut:
  assumes "0 <s site" "product_cursor_decode c = Inr k"
  shows "guest_product_list e s site flt category c limit =
    Inr (page_of place_cursor guest_key (guest_page_size limit) (map (guest_row e s) (behind k (live_products (guest_visible flt category) (sh_conn s) site))))"
proof -
  let ?n = "guest_page_size limit" and ?xs = "behind k (live_products (guest_visible flt category) (sh_conn s) site)"
  have n: "0 < ?n" and pos: "\<not> site \<le>s 0" using assms(1) guest_limit(1) by (auto simp: word_sless_alt word_sle_eq)
  have fetched: "fetch_product_rows e (sh_conn s) site flt category k (guest_product_limit_clamp limit + 1) = map (product_row_from_pg e) (take (Suc ?n) ?xs)"
    unfolding fetch_product_rows_def guest_limit(2) ..
  have last: "gp_sort_order (last (map (product_row_from_pg e) ps)) = pd_sort_order (last ps)"
      "gp_product_id (last (map (product_row_from_pg e) ps)) = pd_product_id (last ps)" if "ps \<noteq> []" for ps
    using that by (simp_all add: last_map)
  have "take ?n (take (Suc ?n) ?xs) \<noteq> []" if "?n < length (take (Suc ?n) ?xs)" using that n by (cases ?xs) auto
  then show ?thesis
    unfolding fetched_page [OF n guest_key_row, symmetric]
    by (simp add: guest_product_list_def fetched pos assms(2) Let_def guest_page_size_def [symmetric] take_map fill_icons_rows last)
qed

interpretation guest: keyset_pages "\<lambda>s _. product_pk (sh_conn s) \<and> 0 <s site" "\<lambda>s limit c. guest_product_list e s site flt category c limit"
    "\<lambda>s. map (guest_row e s) (live_products (guest_visible flt category) (sh_conn s) site)" guest_key place_cursor guest_page_size
  for e site flt category
proof unfold_locales
  fix s :: shop and limit :: i32 and r
  let ?rows = "map (guest_row e s) (live_products (guest_visible flt category) (sh_conn s) site)"
  assume ok: "product_pk (sh_conn s) \<and> 0 <s site"
  show "sorted_wrt (\<lambda>a b. guest_key a < guest_key b) ?rows"
    using live_products_sorted ok guest_key_row [of e s] by (simp add: sorted_wrt_map fun_eq_iff product_pk_def)
  show "guest_product_list e s site flt category [] limit = Inr (page_of place_cursor guest_key (guest_page_size limit) ?rows)"
    using guest_page_cut [of site "[]" None] ok by (simp add: product_cursor_decode_def behind_def)
  show "guest_product_list e s site flt category (place_cursor (guest_key r)) limit =
      Inr (page_of place_cursor guest_key (guest_page_size limit) (filter (\<lambda>x. guest_key r < guest_key x) ?rows))"
    using guest_page_cut [OF _ cursor_roundtrip] ok behind_place [OF guest_key_row] by (simp add: guest_key_def place_cursor_place)
  show "0 < guest_page_size limit" by (rule guest_limit)
next
  show "place_cursor (guest_key r) \<noteq> []" for r by (simp add: place_cursor_def product_cursor_encode_def)
qed

lemma visible_catalog_row:
  assumes "product_pk s" "p \<in> set (live_products (guest_visible flt category) s site)"
  shows "catalog_row s site (pd_product_id p) = Some p \<and> pd_can_sell p"
proof -
  have p: "p \<in> set (q_product s)" "pd_site_iid p = site" "pd_deleted p = None" "guest_visible flt category p"
    using assms(2) by (auto simp: live_products_def)
  have "y = p" if "y \<in> set (q_product s)" "pd_site_iid y = site \<and> pd_product_id y = pd_product_id p" for y
    using distinct_key_eq [of product_key "q_product s" y p] assms(1) that p by (simp add: product_pk_def)
  then have "catalog_row s site (pd_product_id p) = Some p"
    unfolding catalog_row_def using p by (intro find_only) (auto simp: guest_visible_def)
  with p show ?thesis by (simp add: guest_visible_def)
qed

text \<open>Claim C20. What guests leaf through is what they can order: following the cursors of \<open>guest_product_list\<close> ends
  and shows every product of the site that is for sale under the filter, once and in order, and
  for each of them the catalogue check of a guest order finds the product, for sale, at the price
  and with the reservation right that were shown.\<close>

theorem guest_pages_orderable:
  assumes "product_pk (sh_conn s)" "0 <s site" "length (q_product (sh_conn s)) < fuel"
  shows "\<exists>rows. follow (\<lambda>c. guest_product_list e s site flt category c limit) fuel [] = Inr rows \<and>
    map gp_product_id rows = map pd_product_id (live_products (guest_visible flt category) (sh_conn s) site) \<and>
    distinct (map gp_product_id rows) \<and>
    (\<forall>g\<in>set rows. case catalog_row (sh_conn s) site (gp_product_id g) of None \<Rightarrow> False
      | Some row \<Rightarrow> pd_can_sell row \<and> pd_price row = gp_price g \<and> pd_can_reserve row = gp_can_reserve g)"
proof -
  let ?l = "live_products (guest_visible flt category) (sh_conn s) site"
  let ?rows = "map (guest_row e s) ?l"
  have "length ?rows < fuel" using assms(3) by (simp add: live_products_def le_less_trans [OF length_filter_le])
  then have f: "follow (\<lambda>c. guest_product_list e s site flt category c limit) fuel [] = Inr ?rows"
    using guest.follow_all assms(1,2) by blast
  have ids: "map gp_product_id ?rows = map pd_product_id ?l" by (simp add: guest_row_def)
  have "distinct (map product_key (filter (\<lambda>p. pd_site_iid p = site \<and> pd_deleted p = None \<and> guest_visible flt category p) (q_product (sh_conn s))))"
    using assms(1) unfolding product_pk_def by (rule distinct_map_filter)
  then have "distinct (map pd_product_id ?l)" by (auto simp: live_products_def distinct_map inj_on_def)
  then have "distinct (map gp_product_id ?rows)" unfolding ids .
  moreover have "case catalog_row (sh_conn s) site (gp_product_id g) of None \<Rightarrow> False
      | Some row \<Rightarrow> pd_can_sell row \<and> pd_price row = gp_price g \<and> pd_can_reserve row = gp_can_reserve g" if "g \<in> set ?rows" for g
    using that visible_catalog_row [OF assms(1)] by (auto simp: guest_row_def)
  ultimately show ?thesis using f ids by blast
qed

section \<open>Examples\<close>

definition test_cenv :: cenv where
  "test_cenv = \<lparr> ce_env = test_env, ce_jsonb_text = (\<lambda>_. Some ''{}''), ce_jsonb_value = (\<lambda>_. Object []), ce_gemini = (\<lambda>_. None) \<rparr>"

definition room_shop :: shop where
  "room_shop = \<lparr> sh_conn = room_conn, sh_embed = [], sh_icon = [] \<rparr>"

lemma room_shop_facts: "product_pk (sh_conn room_shop)" "length (q_product (sh_conn room_shop)) < 3"
  by code_simp+

theorem editor_pages_witness:
  "product_pk (sh_conn room_shop) \<and> (\<exists>res. site_product_list_page test_cenv room_shop 1 0 [] = Inr res \<and>
     follow (editor_page test_cenv room_shop 1 1) 3 [] = Inr (pl_products res))"
proof -
  have "0 <s (1 :: i32)" by code_simp
  from room_shop_facts(1) editor_pages [OF room_shop_facts(1) this room_shop_facts(2), of test_cenv 1] show ?thesis by blast
qed

theorem guest_pages_orderable_witness:
  "product_pk (sh_conn room_shop) \<and> (\<exists>rows. follow (\<lambda>c. guest_product_list test_cenv room_shop 1 [] [] c 1) 3 [] = Inr rows \<and>
     map gp_product_id rows = [100, 200])"
proof -
  have "0 <s (1 :: i64)" by code_simp
  moreover have "map pd_product_id (live_products (guest_visible [] []) (sh_conn room_shop) 1) = [100, 200]" by code_simp
  ultimately show ?thesis
    using room_shop_facts guest_pages_orderable [OF room_shop_facts(1), of 1 3 test_cenv "[]" "[]" 1] by auto
qed

end
