(* ===== verification/Shop_Store.thy ===== *)
theory Shop_Store
  imports Product_Pages Guest_Store
begin

text \<open>
  What edits of the catalogue and the calls of the ledger do to each other. The ledger only marks
  products as used and moves their stock; a product that was sold stays in the catalogue.
\<close>

section \<open>What a call may do to the products\<close>

definition row_le :: "ProductRow \<Rightarrow> ProductRow \<Rightarrow> bool" where
  "row_le p p' \<longleftrightarrow> product_key p' = product_key p \<and> pd_deleted p' = pd_deleted p \<and> (pd_is_used p \<longrightarrow> pd_is_used p')"

abbreviation rows_le :: "ProductRow list \<Rightarrow> ProductRow list \<Rightarrow> bool" where
  "rows_le \<equiv> list_all2 row_le"

lemma row_le_refl [simp]: "row_le p p"
  by (simp add: row_le_def)

lemma rows_le_refl [simp]: "rows_le ps ps"
  by (simp add: list_all2_refl)

lemma rows_le_trans: "rows_le a b \<Longrightarrow> rows_le b c \<Longrightarrow> rows_le a c"
  by (rule list_all2_trans) (auto simp: row_le_def)

lemma rows_le_map: "(\<And>p. row_le p (f p)) \<Longrightarrow> rows_le ps (map f ps)"
  by (simp add: list_all2_conv_all_nth)

lemma rows_le_keys: "rows_le ps ps' \<Longrightarrow> map product_key ps' = map product_key ps"
  by (induction rule: list_all2_induct) (auto simp: row_le_def)

lemma rows_le_find:
  assumes "rows_le ps ps'" "find (product_live site product) ps = Some p"
  shows "\<exists>p'. find (product_live site product) ps' = Some p' \<and> row_le p p'"
  using assms by (induction rule: list_all2_induct) (auto simp: row_le_def product_live_def split: if_splits)

lemma forE_rows_le:
  assumes "\<And>x s s'. f x s = Inr s' \<Longrightarrow> rows_le (q_product s) (q_product s')" "forE f xs s = Inr s'"
  shows "rows_le (q_product s) (q_product s')"
  using assms(2)
proof (induction xs arbitrary: s)
  case (Cons x xs)
  then obtain s1 where "f x s = Inr s1" "forE f xs s1 = Inr s'" by (auto simp: bindE_Inr)
  with Cons.IH assms(1) rows_le_trans show ?case by blast
qed simp

section \<open>The ledger\<close>

lemmas put_product_simps = Let_def split_beta bindE_Inr insert_row_Inr

lemma source_put_products: "source_put e site i j x s = Inr s' \<Longrightarrow> q_product s' = q_product s"
  by (auto simp: source_put_def put_product_simps)

lemma reservation_put_products: "reservation_put e site i j x s = Inr s' \<Longrightarrow> q_product s' = q_product s"
  by (auto simp: reservation_put_def put_product_simps)

lemma debt_payment_put_products: "debt_payment_put e site i p j x s = Inr (y, s') \<Longrightarrow> q_product s' = q_product s"
  by (auto simp: debt_payment_put_def put_product_simps)

lemma installment_put_products: "installment_put e site i p x s = Inr (y, s') \<Longrightarrow> q_product s' = q_product s"
  by (auto simp: installment_put_def put_product_simps dest!: mapE_frame [where g = q_product, OF debt_payment_put_products, rotated])

lemma payment_put_products: "payment_put e site i x s = Inr (y, s') \<Longrightarrow> q_product s' = q_product s"
  by (auto simp: payment_put_def put_product_simps dest!: mapE_frame [where g = q_product, OF installment_put_products, rotated])

lemma line_put_products:
  "acc_put e site i a s = Inr (a', s') \<Longrightarrow> q_product s' = q_product s"
  "stock_put e site i k s = Inr (k', s') \<Longrightarrow> q_product s' = q_product s"
  "tax_put e site i x s = Inr (x', s') \<Longrightarrow> q_product s' = q_product s"
  "discount_put e site i d s = Inr (d', s') \<Longrightarrow> q_product s' = q_product s"
  by (auto simp: acc_put_def stock_put_def tax_put_def discount_put_def put_product_simps)

text \<open>An item marks its product; everything else leaves the products alone.\<close>

definition marked :: "i64 \<Rightarrow> i64 \<Rightarrow> ProductRow list \<Rightarrow> bool" where
  "marked site product ps \<longleftrightarrow> (\<forall>p\<in>set ps. product_live site product p \<longrightarrow> pd_is_used p)"

lemma rows_le_marked: "rows_le ps ps' \<Longrightarrow> marked site product ps \<Longrightarrow> marked site product ps'"
  by (induction rule: list_all2_induct) (auto simp: marked_def row_le_def product_live_def)

definition mark_used :: "datetime \<Rightarrow> i64 \<Rightarrow> i64 \<Rightarrow> ProductRow \<Rightarrow> ProductRow" where
  "mark_used now site product p =
     (if pd_site_iid p = site \<and> pd_product_id p = product \<and> \<not> pd_is_used p \<and> pd_deleted p = None
      then p\<lparr> pd_is_used := True, pd_updated := now \<rparr> else p)"

lemma mark_used_le: "row_le p (mark_used now site product p)"
  by (simp add: mark_used_def row_le_def)

lemma mark_used_sets: "product_live site product (mark_used now site product p) \<Longrightarrow> pd_is_used (mark_used now site product p)"
  by (cases "pd_is_used p") (simp_all add: mark_used_def product_live_def split: if_splits)

lemma mark_used_marked: "marked site product (map (mark_used now site product) ps)"
  unfolding marked_def set_map using mark_used_sets by blast

lemma item_put_products:
  assumes "item_put e site i item s = Inr s'" "0 <s site"
  shows "rows_le (q_product s) (q_product s') \<and> (0 <s i_product_id item \<longrightarrow> marked site (i_product_id item) (q_product s'))"
proof -
  from assms(1) obtain t s1 s2 where
    mk: "(if 0 <s i_product_id item then site_product_mark_used e site (i_product_id item) (s\<lparr>q_item := t\<rparr>)
        else Inr (s\<lparr>q_item := t\<rparr>)) = Inr s1"
    and src: "forE (source_put e site i (i_item_id item)) (i_sources item) s1 = Inr s2"
    and res: "forE (reservation_put e site i (i_item_id item)) (i_reservations item) s2 = Inr s'"
    by (auto simp: item_put_def bindE_Inr insert_row_Inr)
  have "q_product s' = q_product s2" by (rule forE_frame [OF reservation_put_products res])
  also have "\<dots> = q_product s1" by (rule forE_frame [OF source_put_products src])
  finally have s': "q_product s' = q_product s1" .
  show ?thesis
  proof (cases "0 <s i_product_id item")
    case True
    with mk assms(2) have "q_product s1 = map (\<lambda>p. if pd_site_iid p = site \<and> pd_product_id p = i_product_id item \<and> \<not> pd_is_used p \<and> pd_deleted p = None
        then p\<lparr> pd_is_used := True, pd_updated := p_now e \<rparr> else p) (q_product s)"
      by (auto simp: site_product_mark_used_def word_sle_eq word_sless_alt split: if_splits)
    then have s1: "q_product s1 = map (mark_used (p_now e) site (i_product_id item)) (q_product s)"
      by (simp add: mark_used_def [abs_def])
    show ?thesis unfolding s' s1 by (auto intro: rows_le_map mark_used_le mark_used_marked)
  next
    case False
    with mk show ?thesis unfolding s' by auto
  qed
qed

lemma items_put_products:
  assumes "forE (item_put e site i) items s = Inr s'" "0 <s site"
  shows "rows_le (q_product s) (q_product s') \<and> (\<forall>item\<in>set items. 0 <s i_product_id item \<longrightarrow> marked site (i_product_id item) (q_product s'))"
  using assms(1)
proof (induction items arbitrary: s)
  case (Cons item items)
  then obtain s1 where s1: "item_put e site i item s = Inr s1" "forE (item_put e site i) items s1 = Inr s'" by (auto simp: bindE_Inr)
  note a = item_put_products [OF s1(1) assms(2)] and b = Cons.IH [OF s1(2)]
  have "rows_le (q_product s) (q_product s')" using a b rows_le_trans by blast
  moreover have "marked site (i_product_id item) (q_product s')" if "0 <s i_product_id item"
    using a b that rows_le_marked by blast
  ultimately show ?case using b by simp
qed simp

lemma children_put_products:
  assumes "tx_children_put e tx s = Inr (tx', s')" "0 <s t_site_iid tx"
  shows "rows_le (q_product s) (q_product s') \<and>
    (\<forall>item\<in>set (t_items tx). 0 <s i_product_id item \<longrightarrow> marked (t_site_iid tx) (i_product_id item) (q_product s'))"
proof -
  from assms(1) obtain s1 s2 s3 s4 s5 s6 where
    a: "tx_items_ensure_ids e (t_items tx) s = Inr (t_items tx', s1)"
    and b: "forE (item_put e (t_site_iid tx) (t_tx_id tx)) (t_items tx') s1 = Inr s2"
    and c: "mapE (payment_put e (t_site_iid tx) (t_tx_id tx)) (t_payments tx) s2 = Inr (t_payments tx', s3)"
    and d: "mapE (acc_put e (t_site_iid tx) (t_tx_id tx)) (t_accs tx) s3 = Inr (t_accs tx', s4)"
    and f: "mapE (stock_put e (t_site_iid tx) (t_tx_id tx)) (t_stocks tx) s4 = Inr (t_stocks tx', s5)"
    and g: "mapE (tax_put e (t_site_iid tx) (t_tx_id tx)) (t_taxes tx) s5 = Inr (t_taxes tx', s6)"
    and h: "mapE (discount_put e (t_site_iid tx) (t_tx_id tx)) (t_discounts tx) s6 = Inr (t_discounts tx', s')"
    by (rule tx_children_put_loops)
  have "q_product s' = q_product s6" by (rule mapE_frame [OF line_put_products(4) h])
  also have "\<dots> = q_product s5" by (rule mapE_frame [OF line_put_products(3) g])
  also have "\<dots> = q_product s4" by (rule mapE_frame [OF line_put_products(2) f])
  also have "\<dots> = q_product s3" by (rule mapE_frame [OF line_put_products(1) d])
  also have "\<dots> = q_product s2" by (rule mapE_frame [OF payment_put_products c])
  finally have s': "q_product s' = q_product s2" .
  have s1: "q_product s1 = q_product s" by (rule ensure_ids_frame [OF a]) simp_all
  have "map i_product_id items' = map i_product_id items" if "mapE (\<lambda>item s. if i_item_id item = 0
      then let (i, s) = snowflake_draw e s in Inr (item\<lparr> i_item_id := i \<rparr>, s) else Inr (item, s)) items t = (Inr (items', t') :: string + _)"
    for items items' t t'
    using that by (induction items arbitrary: t items') (auto simp: bindE_Inr snowflake_draw_def Let_def split: if_splits)
  then have ids: "map i_product_id (t_items tx') = map i_product_id (t_items tx)" using a unfolding tx_items_ensure_ids_def by blast
  have "\<exists>y\<in>set (t_items tx'). i_product_id y = i_product_id x" if "x \<in> set (t_items tx)" for x
  proof -
    have "i_product_id ` set (t_items tx') = i_product_id ` set (t_items tx)" using arg_cong [OF ids, of set] by simp
    with that have "i_product_id x \<in> i_product_id ` set (t_items tx')" by simp
    then show ?thesis by (metis imageE)
  qed
  with items_put_products [OF b assms(2)] show ?thesis unfolding s' s1 [symmetric] by metis
qed

lemma stock_update_le: "product_stock_update e site product d s = Inr s' \<Longrightarrow> rows_le (q_product s) (q_product s')"
  by (auto simp: product_stock_update_def Let_def row_le_def intro!: rows_le_map split: if_splits)

lemma stock_apply_le:
  assumes "product_stock_apply order e site old new s = Inr s'"
  shows "rows_le (q_product s) (q_product s')"
  using assms unfolding product_stock_apply_def Let_def
  by (auto split: if_splits elim!: forE_rows_le [rotated] dest: stock_update_le)

lemma ts_or_now_product: "q_product (snd (ts_or_now e t s)) = q_product s"
  by (simp add: ts_or_now_def utc_now_def Let_def split: option.split)

lemma commit_le:
  assumes "tx_put_commit v owner old tx s = Inr (tx', s')" "0 <s t_site_iid tx"
  shows "rows_le (q_product s) (q_product s') \<and>
    (\<forall>item\<in>set (t_items tx). 0 <s i_product_id item \<longrightarrow> marked (t_site_iid tx) (i_product_id item) (q_product s'))"
proof -
  from assms(1) obtain s1 s2 s3 where d: "tx_children_del (t_site_iid tx) (t_tx_id tx) s = Inr s1"
    and h: "tx_header_put (v_env v) owner tx (fst (tx_acc_counts tx)) (snd (tx_acc_counts tx)) s1 = Inr s2"
    and c: "tx_children_put (v_env v) tx s2 = Inr (tx', s3)"
    and a: "(if tx_state (t_state tx') = St_Ok
      then product_stock_apply (v_products v) (v_env v) (t_site_iid tx) old (t_stocks tx') s3 else Inr s3) = Inr s'"
    by (rule commit_apply)
  have "q_product s1 = q_product s" using d by (auto simp: tx_children_del_def)
  moreover have "q_product s2 = q_product s1"
    using h ts_or_now_product [of "v_env v" "t_time_ts_ms tx" s1]
    by (auto simp: tx_header_put_def Let_def split_beta split: if_splits)
  moreover have "rows_le (q_product s3) (q_product s')" using a stock_apply_le by (auto split: if_splits)
  ultimately show ?thesis
    using children_put_products [OF c assms(2)] rows_le_trans rows_le_marked by metis
qed

text \<open>The items a save stores are of the products it was sent.\<close>

lemma finalize_products: "map i_product_id (t_items (tx_finalize ck order tx)) = map i_product_id (t_items tx)"
  by (simp add: finalize_with_accs with_accs_eq tx_derive_def item_compute_def Let_def comp_def)

lemma coerce_products: "map i_product_id (t_items (tx_coerce_sale_without_fulfillment tx)) = map i_product_id (t_items tx)"
  by (simp add: tx_coerce_sale_without_fulfillment_def comp_def)

lemma prepare_products:
  assumes "tx_put_prepare v caller tx s = (p, s1)"
  shows "map i_product_id (t_items p) = map i_product_id (t_items tx)"
  using assms
  by (auto simp: tx_put_prepare_def Let_def split_beta coerce_products finalize_products split: if_splits)

lemma tx_put_le:
  assumes "tx_put v caller (Some tx) out s = (Inr saved, s', pushed)"
  shows "rows_le (q_product s) (q_product s')"
    and "x \<in> set (t_items tx) \<Longrightarrow> 0 <s i_product_id x \<Longrightarrow> marked (t_site_iid tx) (i_product_id x) (q_product s')"
proof -
  from assms obtain owner old p s1 tx' where p: "tx_put_prepare v caller tx (call_start s) = (p, s1)"
    and c: "tx_put_commit v owner old p s1 = Inr (tx', s')" and pos: "0 <s t_site_iid tx"
    by (rule tx_put_success)
  note site = prepare_frame(1) [OF p] and s1 = prepare_frame(2) [OF p] and le = commit_le [OF c]
  show "rows_le (q_product s) (q_product s')" using le pos site s1 by simp
  assume x: "x \<in> set (t_items tx)" "0 <s i_product_id x"
  then have "i_product_id x \<in> set (map i_product_id (t_items p))" unfolding prepare_products [OF p] by simp
  then obtain y where "y \<in> set (t_items p)" "i_product_id y = i_product_id x" by auto
  then show "marked (t_site_iid tx) (i_product_id x) (q_product s')" using le pos site x(2) by fastforce
qed

lemma tx_step_le:
  assumes "tx_step op s s'"
  shows "rows_le (q_product s) (q_product s')"
  using assms
proof cases
  case (step_pay v v' caller site i req out l pushed)
  then show ?thesis using pay_is_put [OF step_pay(2)] tx_put_le(1) by blast
next
  case (step_pay_err v v' caller site i req out err pushed)
  then show ?thesis using pay_is_put [OF step_pay_err(2)] put_err_state by fastforce
qed (auto simp: tx_delete_def Let_def dest: tx_put_le(1) put_err_state delete_err_state split: sum.splits if_splits)

lemma merge_loop_product: "merge_loop now site buyer visitor ids (n, s) = (n', s') \<Longrightarrow> q_product s' = q_product s"
  by (induction ids arbitrary: n s) (fastforce simp: Let_def split: if_splits option.splits)+

lemma guest_put_le:
  assumes "guest_order_put v rv site req ctx s = (Inr saved, s')" "0 <s site"
  shows "rows_le (q_product s) (q_product s')"
proof -
  from assms(1) obtain owner tx tx1 q s1 tx' s2 where n: "guest_order_normalize (v_env v) site tx1 (call_start s) = (q, s1)"
    and c: "tx_put_commit v owner [] (tx_finalize (p_clock (v_env v)) (v_coa v) q) s1 = Inr (tx', s2)"
    and s': "s' = guest_tx_meta_patch (rv_now rv) site (p_ids (v_env v) 0) (gx_buyer_user_iid ctx) (gx_visitor_id ctx) s2"
    by (rule guest_put_success)
  have "q_product s1 = q_product s" by (subst normalize_facts(8) [OF n]) simp
  then show ?thesis using commit_le [OF c] assms(2) normalize_facts(1) [OF n] by (simp add: s' patch_product)
qed

lemma site_step_le:
  assumes "site_step op s s'"
  shows "rows_le (q_product s) (q_product s')"
  using assms
proof cases
  case (site_guest_put v rv site req ctx l)
  moreover from this have "0 <s site" by (auto simp: guest_order_put_def word_sle_eq word_sless_alt split: if_splits)
  ultimately show ?thesis using guest_put_le by blast
next
  case (site_guest_merge v now site vid ids buyer n)
  then show ?thesis using merge_loop_product [OF member_merge_loop(1)] by fastforce
qed (auto dest: tx_step_le guest_err_state)

section \<open>Editing a product\<close>

abbreviation shop_products :: "shop \<Rightarrow> ProductRow list" where
  "shop_products s \<equiv> q_product (sh_conn s)"

lemma draw_products [simp]:
  "q_product (snd (id_or_draw e i s)) = q_product s" "q_product (snd (snowflake_draw e s)) = q_product s"
  "q_product (call_start s) = q_product s"
  by (simp_all add: id_or_draw_def snowflake_draw_def call_start_def Let_def)

lemma embeds_put_products [simp]: "q_product (fst (embeds_put e site product embeds c rows)) = q_product c"
  by (induction embeds arbitrary: c rows) (simp_all add: Let_def split_beta split: option.split)

definition sent_embeds :: "cenv \<Rightarrow> SiteProduct \<Rightarrow> Value list" where
  "sent_embeds e m = unwrap_or [] (Option.bind (get_val (product_json_raw (ce_env e) (sp_product_json m)) ''_embeds'') as_array)"

definition dropped_embeds :: "cenv \<Rightarrow> SiteProduct \<Rightarrow> i64 list" where
  "dropped_embeds e m = embed_ids_from_json (unwrap_or Null (get_val (product_json_raw (ce_env e) (sp_product_json m)) ''_embeds_deleted''))"

lemma product_put_success:
  assumes "site_product_put e z s caller site req out = (Inr (pid, icon), s', pushed)"
  obtains m owner json c where "req = Some m" and "site_grant_check z caller site True = Inr owner"
    and "pid = (if 0 <s sp_product_id m then sp_product_id m else p_ids (ce_env e) 0)"
    and "ce_jsonb_text e (product_json_stored (product_json_raw (ce_env e) (sp_product_json m))) = Some json"
    and "shop_products s' = upsert (product_of site pid) (product_edit (p_now (ce_env e)) json m)
      (product_new (p_now (ce_env e)) json site pid owner m) (shop_products s)"
    and "sh_embed s' = (let rows = product_embed_soft_delete_tx site pid (dropped_embeds e m)
        (snd (embeds_put (ce_env e) site pid (sent_embeds e m) c (sh_embed s)))
      in if get_val (product_json_raw (ce_env e) (sp_product_json m)) ''_embeds'' \<noteq> None
         then product_embed_reconcile_tx site pid (List.map_filter embed_id_of (sent_embeds e m)) rows else rows)"
    and "(icon, sh_icon s') = (if trim (sp_pic m) = [] \<and> sp_name m \<noteq> [] then product_icon_ensure (ce_ienv e) (sp_name m) (sh_icon s) else ([], sh_icon s))"
proof -
  obtain m where m: "req = Some m" using assms by (cases req) (simp_all add: site_product_put_def)
  obtain owner where o: "site_grant_check z caller site True = Inr owner"
    using assms m by (cases "site_grant_check z caller site True") (simp_all add: site_product_put_def)
  let ?raw = "product_json_raw (ce_env e) (sp_product_json m)"
  obtain json where j: "ce_jsonb_text e (product_json_stored ?raw) = Some json"
    using assms m o by (cases "ce_jsonb_text e (product_json_stored ?raw)") (simp_all add: site_product_put_def split_beta Let_def)
  have pid: "fst (id_or_draw (ce_env e) (sp_product_id m) (call_start (sh_conn s))) =
      (if 0 <s sp_product_id m then sp_product_id m else p_ids (ce_env e) 0)"
    by (simp add: id_or_draw_def snowflake_draw_def call_start_def Let_def)
  have ty: "fits TYPE(16) (sint (sp_type m))"
    using assms m o j by (rule_tac ccontr) (simp add: site_product_put_def split_beta Let_def)
  show ?thesis
    using assms m o j ty
    by (intro that [OF m o _ j]) (auto simp: site_product_put_def split_beta Let_def pid sent_embeds_def dropped_embeds_def)
qed

lemma product_put_pushed:
  assumes "site_product_put e z s caller site (Some m) out = (Inr (pid, icon), s', pushed)"
  shows "pushed = (if out then [m\<lparr> sp_site_iid := site, sp_product_id := pid, sp_icon := icon \<rparr>] else [])"
  using assms by (auto simp: site_product_put_def split_beta Let_def split: option.splits sum.splits if_splits)

lemma product_put_err: "site_product_put e z s caller site req out = (Inl err, s', pushed) \<Longrightarrow> s' = s"
  by (auto simp: site_product_put_def split_beta Let_def split: option.splits sum.splits if_splits)

lemma edit_keeps [simp]:
  "product_key (product_edit now json m p) = product_key p" "pd_is_used (product_edit now json m p) = pd_is_used p"
  "pd_deleted (product_edit now json m p) = None"
  by (simp_all add: product_edit_def)

lemma new_product_key [simp]: "product_key (product_new now json site product owner m) = (site, product)"
  by (simp add: product_new_def product_edit_def)

lemma product_of_key: "product_of site product p \<longleftrightarrow> product_key p = (site, product)"
  by (simp add: product_of_def)

lemma upsert_products_pk:
  "distinct (map product_key ps) \<Longrightarrow>
     distinct (map product_key (upsert (product_of site product) (product_edit now json m) (product_new now json site product owner m) ps))"
  by (rule upsert_keys) (simp_all add: product_of_key del: prod.inject)

section \<open>The life of a product\<close>

text \<open>A call on the shop: one of the ledger, of staff or guests, or an edit of the catalogue.\<close>

inductive shop_step :: "shop \<Rightarrow> shop \<Rightarrow> bool" where
  shop_ledger: "site_step op (sh_conn s) c \<Longrightarrow> shop_step s (s\<lparr>sh_conn := c\<rparr>)"
| shop_put: "site_product_put e z s caller site req out = (r, s', pushed) \<Longrightarrow> shop_step s s'"
| shop_delete: "site_product_delete e z s caller site product out = (r', s', pushed) \<Longrightarrow> shop_step s s'"
| shop_reorder: "site_product_reorder e z s caller site entries = (r'', s') \<Longrightarrow> shop_step s s'"

text \<open>Every edit maps the rows it finds, or adds one; it clears no mark and deletes no used product.\<close>

definition row_next :: "ProductRow \<Rightarrow> ProductRow \<Rightarrow> bool" where
  "row_next p p' \<longleftrightarrow> product_key p' = product_key p \<and> (pd_is_used p \<longrightarrow> pd_is_used p') \<and>
     (pd_is_used p \<and> pd_deleted p = None \<longrightarrow> pd_deleted p' = None)"

definition shop_next :: "ProductRow list \<Rightarrow> ProductRow list \<Rightarrow> bool" where
  "shop_next ps ps' \<longleftrightarrow> (distinct (map product_key ps) \<longrightarrow> distinct (map product_key ps')) \<and>
     (\<forall>p\<in>set ps. distinct (map product_key ps) \<longrightarrow> (\<exists>p'\<in>set ps'. row_next p p'))"

lemma shop_next_refl [simp]: "shop_next ps ps"
  by (auto simp: shop_next_def row_next_def)

lemma shop_next_rows: "list_all2 row_next ps ps' \<Longrightarrow> shop_next ps ps'"
proof -
  assume a: "list_all2 row_next ps ps'"
  then have "map product_key ps' = map product_key ps" by (induction rule: list_all2_induct) (auto simp: row_next_def)
  moreover have "\<forall>p\<in>set ps. \<exists>p'\<in>set ps'. row_next p p'" using a by (induction rule: list_all2_induct) auto
  ultimately show ?thesis by (simp add: shop_next_def)
qed

lemma shop_next_le: "rows_le ps ps' \<Longrightarrow> shop_next ps ps'"
  by (rule shop_next_rows, erule list_all2_mono) (simp add: row_le_def row_next_def)

lemma shop_next_map: "(\<And>p. p \<in> set ps \<Longrightarrow> row_next p (f p)) \<Longrightarrow> shop_next ps (map f ps)"
  by (rule shop_next_rows) (simp add: list_all2_conv_all_nth)

lemma put_next:
  assumes "site_product_put e z s caller site req out = (r, s', pushed)"
  shows "shop_next (shop_products s) (shop_products s')"
proof (cases r)
  case (Inl err)
  then show ?thesis using product_put_err assms by force
next
  case (Inr pi)
  obtain pid icon where pi: "pi = (pid, icon)" by (rule prod.exhaust)
  from assms [unfolded Inr pi] obtain m owner json where
    s': "shop_products s' = upsert (product_of site pid) (product_edit (p_now (ce_env e)) json m)
      (product_new (p_now (ce_env e)) json site pid owner m) (shop_products s)" (is "_ = ?u")
    by (rule product_put_success)
  have "\<exists>p'\<in>set ?u. row_next p p'" if "p \<in> set (shop_products s)" for p
    using that by (rule upsert_related) (simp_all add: row_next_def)
  then show ?thesis unfolding s' shop_next_def using upsert_products_pk by blast
qed

lemma find_live_pk:
  assumes "distinct (map product_key ps)" "p \<in> set ps" "product_live site product p"
  shows "find (product_live site product) ps = Some p"
  using assms by (induction ps) (auto simp: product_live_def rev_image_eqI)

lemma product_delete_cases:
  assumes "site_product_delete e z s caller site product out = (r, s', pushed)"
  obtains (same) "s' = s"
    | (gone) q where "find (product_live site product) (shop_products s) = Some q" "\<not> pd_is_used q"
        "shop_products s' = map (\<lambda>p. if product_live site product p
           then p\<lparr> pd_deleted := Some (p_now (ce_env e)), pd_updated := p_now (ce_env e) \<rparr> else p) (shop_products s)"
proof (cases "find (product_live site product) (shop_products s)")
  case None
  then show ?thesis using assms same by (simp add: site_product_delete_def split: if_splits sum.splits)
next
  case q: (Some q)
  show ?thesis
  proof (cases "site \<le>s 0 \<or> product \<le>s 0 \<or> (\<exists>err. site_grant_check z caller site True = Inl err) \<or> pd_is_used q")
    case True
    then have "s' = s" using assms q by (auto simp: site_product_delete_def split: sum.splits if_splits)
    then show ?thesis by (rule same)
  next
    case False
    then obtain owner where "site_grant_check z caller site True = Inr owner" by (cases "site_grant_check z caller site True") auto
    with False q assms have "s' = s\<lparr> sh_conn := (sh_conn s)\<lparr> q_product := map (\<lambda>p. if product_live site product p
        then p\<lparr> pd_deleted := Some (p_now (ce_env e)), pd_updated := p_now (ce_env e) \<rparr> else p) (shop_products s) \<rparr> \<rparr>"
      by (simp add: site_product_delete_def Let_def)
    then show ?thesis using gone [OF q] False by simp
  qed
qed

lemma delete_next:
  assumes "site_product_delete e z s caller site product out = (r, s', pushed)"
  shows "shop_next (shop_products s) (shop_products s')"
proof (cases "distinct (map product_key (shop_products s))")
  case True
  let ?live = "product_live site product" and ?gone = "\<lambda>p. p\<lparr> pd_deleted := Some (p_now (ce_env e)), pd_updated := p_now (ce_env e) \<rparr>"
  consider (same) "s' = s"
    | (gone) q where "find ?live (shop_products s) = Some q" "\<not> pd_is_used q"
        "shop_products s' = map (\<lambda>p. if ?live p then ?gone p else p) (shop_products s)"
    using assms by (rule product_delete_cases)
  then show ?thesis
  proof cases
    case gone
    have "\<not> pd_is_used p" if "p \<in> set (shop_products s)" "?live p" for p
      using find_live_pk [OF True that] gone by simp
    then show ?thesis unfolding gone(3) by (intro shop_next_map) (simp add: row_next_def)
  qed simp
qed (simp add: shop_next_def)

lemma reorder_next: "reorder_loop now site entries ps = Inr ps' \<Longrightarrow> list_all2 row_next ps ps'"
proof (induction now site entries ps rule: reorder_loop.induct)
  case (2 now site product sort_order entries ps)
  let ?f = "\<lambda>p. if product_live site product p then p\<lparr>pd_sort_order := sort_order, pd_updated := now\<rparr> else p"
  have "list_all2 row_next ps (map ?f ps)" by (simp add: list_all2_conv_all_nth row_next_def)
  moreover have "list_all2 row_next a b \<Longrightarrow> list_all2 row_next b c \<Longrightarrow> list_all2 row_next a c" for a b c
    by (rule list_all2_trans) (auto simp: row_next_def)
  ultimately show ?case using 2 by (auto split: if_splits)
qed (simp add: list_all2_refl row_next_def)

lemma shop_step_next:
  assumes "shop_step s s'"
  shows "shop_next (shop_products s) (shop_products s')"
  using assms
proof cases
  case (shop_ledger op c)
  then show ?thesis using shop_next_le [OF site_step_le] by simp
next
  case (shop_reorder e z caller site entries r'')
  then show ?thesis
    by (auto simp: site_product_reorder_def intro: shop_next_rows [OF reorder_next] split: if_splits sum.splits)
qed (auto intro: put_next delete_next)

definition sold :: "i64 \<Rightarrow> i64 \<Rightarrow> shop \<Rightarrow> bool" where
  "sold site product s \<longleftrightarrow> product_pk (sh_conn s) \<and> (\<exists>p\<in>set (shop_products s). product_live site product p \<and> pd_is_used p)"

lemma sold_step: "shop_step s s' \<Longrightarrow> sold site product s \<Longrightarrow> sold site product s'"
  using shop_step_next [of s s'] unfolding sold_def shop_next_def product_pk_def
  by (force simp: row_next_def product_live_def)

lemma sold_history: "shop_step\<^sup>*\<^sup>* s s' \<Longrightarrow> sold site product s \<Longrightarrow> sold site product s'"
  by (induction rule: rtranclp_induct) (auto intro: sold_step)

section \<open>Pictures\<close>

lemma embed_upsert_live:
  "embed_live site product r \<and> r \<in> set rows \<Longrightarrow> \<exists>r'\<in>set (embed_upsert site product i label rows). embed_live site product r' \<and> em_embed_id r' = em_embed_id r"
proof -
  assume r: "embed_live site product r \<and> r \<in> set rows"
  have "\<exists>r'\<in>set (embed_upsert site product i label rows). embed_live site product r \<longrightarrow> embed_live site product r' \<and> em_embed_id r' = em_embed_id r"
    unfolding embed_upsert_def using r by (intro upsert_related) (auto simp: embed_live_def)
  with r show ?thesis by blast
qed

lemma embed_upsert_new: "\<exists>r'\<in>set (embed_upsert site product i label rows). embed_live site product r' \<and> em_embed_id r' = i"
  unfolding embed_upsert_def by (rule upsert_hit) (auto simp: embed_live_def)

lemma embeds_put_live:
  "(\<exists>r\<in>set rows. embed_live site product r \<and> em_embed_id r = i) \<or> (\<exists>eb\<in>set embeds. embed_id_of eb = Some i) \<Longrightarrow>
     \<exists>r\<in>set (snd (embeds_put e site product embeds c rows)). embed_live site product r \<and> em_embed_id r = i"
proof (induction embeds arbitrary: c rows)
  case (Cons eb embeds)
  let ?j = "fst (case embed_id_of eb of Some i \<Rightarrow> (i, c) | None \<Rightarrow> snowflake_draw e c)"
  let ?label = "trim (unwrap_or [] (Option.bind (get_val eb ''label'') as_str))"
  have "(\<exists>r\<in>set (embed_upsert site product ?j ?label rows). embed_live site product r \<and> em_embed_id r = i) \<or> (\<exists>eb\<in>set embeds. embed_id_of eb = Some i)"
  proof (cases "embed_id_of eb = Some i")
    case True
    then show ?thesis using embed_upsert_new [of site product i ?label rows] by simp
  next
    case False
    then show ?thesis using Cons.prems embed_upsert_live [of site product _ rows ?j ?label] by fastforce
  qed
  from Cons.IH [OF this] show ?case by (simp add: Let_def split_beta)
qed simp

text \<open>The pictures a product has after the two deletions.\<close>

lemma soft_deleted:
  "{r \<in> set (product_embed_soft_delete_tx site product ids rows). embed_live site product r} =
     {r \<in> set rows. embed_live site product r \<and> em_embed_id r \<notin> set ids}" (is "{r \<in> set ?rows. _ r} = _")
proof -
  define f where "f = (\<lambda>r. if embed_live site product r \<and> em_embed_id r \<in> set ids then r\<lparr> em_deleted := True \<rparr> else r)"
  have rows: "set ?rows = f ` set rows" by (cases "ids = []") (simp_all add: product_embed_soft_delete_tx_def f_def)
  have f: "embed_live site product (f r) \<longleftrightarrow> embed_live site product r \<and> em_embed_id r \<notin> set ids" for r
    by (simp add: embed_live_def f_def) blast
  have id: "f r = r" if "embed_live site product r \<and> em_embed_id r \<notin> set ids" for r using that by (simp add: f_def)
  show ?thesis unfolding rows using f id by (metis (no_types, lifting) image_iff)
qed

lemma embed_deletions:
  assumes "\<And>i. i \<in> set keep \<Longrightarrow> \<exists>r\<in>set rows. embed_live site product r \<and> em_embed_id r = i"
  shows "em_embed_id ` {r \<in> set (product_embed_reconcile_tx site product keep (product_embed_soft_delete_tx site product ids rows)). embed_live site product r} =
    set keep - set ids"
proof -
  let ?rows = "product_embed_soft_delete_tx site product ids rows"
  let ?gone = "filter (\<lambda>i. i \<notin> set keep) (map em_embed_id (filter (embed_live site product) ?rows))"
  have "{r \<in> set (product_embed_reconcile_tx site product keep ?rows). embed_live site product r} =
      {r \<in> set ?rows. embed_live site product r \<and> em_embed_id r \<notin> set ?gone}"
    unfolding product_embed_reconcile_tx_def Let_def by (rule soft_deleted)
  also have "\<dots> = {r \<in> {r \<in> set ?rows. embed_live site product r}. em_embed_id r \<in> set keep}" by auto
  also have "\<dots> = {r \<in> set rows. embed_live site product r \<and> em_embed_id r \<in> set keep - set ids}"
    unfolding soft_deleted by auto
  finally show ?thesis using assms by force
qed

section \<open>Reordering\<close>

definition new_order :: "i64 \<Rightarrow> (i64 \<times> i32) list \<Rightarrow> ProductRow \<Rightarrow> i32 option" where
  "new_order site entries p = (if pd_site_iid p = site \<and> pd_deleted p = None \<and> 0 <s pd_product_id p
     then map_of (rev entries) (pd_product_id p) else None)"

definition reordered :: "datetime \<Rightarrow> i64 \<Rightarrow> (i64 \<times> i32) list \<Rightarrow> ProductRow \<Rightarrow> ProductRow" where
  "reordered now site entries p =
     (case new_order site entries p of None \<Rightarrow> p | Some so \<Rightarrow> p\<lparr> pd_sort_order := so, pd_updated := now \<rparr>)"

lemma reordered_Nil [simp]: "reordered now site [] = (\<lambda>p. p)"
  by (simp add: fun_eq_iff reordered_def new_order_def)

lemma new_order_Cons:
  "new_order site ((product, so) # entries) p = (case new_order site entries p of Some x \<Rightarrow> Some x
     | None \<Rightarrow> if 0 <s product \<and> product_live site product p then Some so else None)"
  by (cases "map_of (rev entries) (pd_product_id p)") (simp_all add: new_order_def product_live_def map_add_def)

lemma reordered_Cons:
  "reordered now site ((product, so) # entries) p = reordered now site entries
     (if 0 <s product \<and> product_live site product p then p\<lparr> pd_sort_order := so, pd_updated := now \<rparr> else p)"
proof -
  have "new_order site entries (p\<lparr> pd_sort_order := so, pd_updated := now \<rparr>) = new_order site entries p" by (simp add: new_order_def)
  then show ?thesis by (cases "new_order site entries p") (simp_all add: reordered_def new_order_Cons)
qed

lemma reorder_loop_eq:
  "reorder_loop now site entries ps =
     (case find (\<lambda>(product, _). 0 <s product \<and> \<not> list_ex (product_live site product) ps) entries of
        Some (product, _) \<Rightarrow> Inl (''product '' @ show_i64 product @ '' not found'')
      | None \<Rightarrow> Inr (map (reordered now site entries) ps))"
proof (induction entries arbitrary: ps)
  case (Cons entry entries)
  obtain product so where entry: "entry = (product, so)" by (rule prod.exhaust)
  define f where "f = (\<lambda>p. if product_live site product p then p\<lparr>pd_sort_order := so, pd_updated := now\<rparr> else p)"
  define miss where "miss = (\<lambda>(product, _ :: i32). 0 <s product \<and> \<not> list_ex (product_live site product) ps)"
  have pos: "\<not> 0 <s product \<longleftrightarrow> product \<le>s 0" by (auto simp: word_sle_eq word_sless_alt)
  have "list_ex (product_live site q) (map f ps) = list_ex (product_live site q) ps" for q
    by (induction ps) (simp_all add: product_live_def f_def)
  note ih = Cons.IH [of "map f ps", unfolded this, folded miss_def] Cons.IH [of ps, folded miss_def]
  have r: "reordered now site (entry # entries) p = reordered now site entries (if 0 <s product then f p else p)" for p
    by (simp add: entry reordered_Cons f_def)
  have m: "miss entry \<longleftrightarrow> 0 <s product \<and> \<not> list_ex (product_live site product) ps" by (simp add: miss_def entry)
  show ?case unfolding miss_def [symmetric]
    using ih pos m r by (cases "find miss entries"; cases "0 <s product"; simp add: entry f_def [symmetric] split_beta)
qed simp

section \<open>Properties\<close>

text \<open>Claim C12. A product that was sold stays: once a transaction with an item of a live product is
  saved, then after any history of ledger calls, guest orders, edits, deletions and reorderings of any
  site, the product is still in the catalogue and marked as used, and \<open>site_product_delete\<close> refuses to
  delete it, for every caller allowed to write.\<close>

theorem sold_product_stays:
  assumes "product_pk (sh_conn s)" and "tx_put v caller (Some tx) out (sh_conn s) = (Inr (Some l), c, pushed)"
    and "x \<in> set (t_items tx)" and "0 <s i_product_id x"
    and "find (product_live (t_site_iid tx) (i_product_id x)) (shop_products s) = Some p"
    and "shop_step\<^sup>*\<^sup>* (s\<lparr>sh_conn := c\<rparr>) s'"
    and "site_grant_check z caller' (t_site_iid tx) True = Inr owner"
  shows "(\<exists>p'. find (product_live (t_site_iid tx) (i_product_id x)) (shop_products s') = Some p' \<and> pd_is_used p') \<and>
    site_product_delete e z s' caller' (t_site_iid tx) (i_product_id x) out' = (Inl used_error, s', [])"
proof -
  let ?live = "product_live (t_site_iid tx) (i_product_id x)"
  note le = tx_put_le(1) [OF assms(2)] and mk = tx_put_le(2) [OF assms(2-4)]
  obtain p1 where "find ?live (q_product c) = Some p1" using rows_le_find [OF le assms(5)] by blast
  then have p1: "p1 \<in> set (q_product c)" "?live p1" by (auto simp: find_Some_iff)
  have "product_pk c" using assms(1) rows_le_keys [OF le] by (simp add: product_pk_def)
  then have "sold (t_site_iid tx) (i_product_id x) (s\<lparr>sh_conn := c\<rparr>)"
    using p1 mk unfolding sold_def marked_def by auto
  from sold_history [OF assms(6) this] obtain p' where "product_pk (sh_conn s')" "p' \<in> set (shop_products s')" "?live p'" "pd_is_used p'"
    unfolding sold_def by blast
  then have f: "find ?live (shop_products s') = Some p'" "pd_is_used p'" using find_live_pk unfolding product_pk_def by blast+
  have "0 <s t_site_iid tx" using assms(2) by (rule tx_put_success)
  then show ?thesis using f assms(4,7) by (simp add: site_product_delete_def word_sle_eq word_sless_alt)
qed

text \<open>Claim C18. Saving a product: the answered id is the request's, or one drawn when it had none, and the
  row is stored under it with every column of the request; its JSON is the request's, read, without
  the picture lists and written as the database writes it, an empty object when it could not be
  read. The editor's list shows the row with these values and the icon the call answered, and the
  request is pushed with its id and icon. Whether the product was sold, its owner and its creation
  are kept; a new product is unused, never recommended and belongs to the site's owner. Every other
  product stays as it was.\<close>

theorem site_product_put_spec:
  assumes "product_pk (sh_conn s)" and "site_product_put e z s caller site (Some m) out = (Inr (pid, icon), s', pushed)"
  shows "product_pk (sh_conn s') \<and>
    pid = (if 0 <s sp_product_id m then sp_product_id m else p_ids (ce_env e) 0) \<and>
    pushed = (if out then [m\<lparr> sp_site_iid := site, sp_product_id := pid, sp_icon := icon \<rparr>] else []) \<and>
    (\<exists>p json owner. find (product_of site pid) (shop_products s') = Some p \<and>
      site_grant_check z caller site True = Inr owner \<and>
      ce_jsonb_text e (case (if sp_product_json m = [] then Object []
          else case p_from_str (ce_env e) (sp_product_json m) of Inl _ \<Rightarrow> Object [] | Inr v \<Rightarrow> v) of
        Object fs \<Rightarrow> Object (filter (\<lambda>(k, _). k \<noteq> ''_embeds'' \<and> k \<noteq> ''_embeds_deleted'') fs) | v \<Rightarrow> v) = Some json \<and>
      pd_json p = json \<and> pd_search_text p = sp_name m @ '' '' @ sp_sku m @ '' '' @ sp_desc m \<and>
      product_from_row e p = m\<lparr> sp_site_iid := site, sp_product_id := pid, sp_is_used := pd_is_used p,
        sp_product_json := p_to_string (ce_env e) (ce_jsonb_value e json),
        sp_created_ts_ms := timestamp_millis (p_clock (ce_env e)) (pd_created p),
        sp_updated_ts_ms := timestamp_millis (p_clock (ce_env e)) (p_now (ce_env e)), sp_deleted_ts_ms := 0, sp_icon := [] \<rparr> \<and>
      (\<exists>res. site_product_list_page e s' site 0 [] = Inr res \<and>
        (product_from_row e p)\<lparr> sp_icon := (if trim (sp_pic m) = [] \<and> sp_name m = [] then GENERIC_ICON else icon) \<rparr> \<in> set (pl_products res)) \<and>
      (case find (product_of site pid) (shop_products s) of
         None \<Rightarrow> \<not> pd_is_used p \<and> \<not> pd_recommended_guest p \<and> pd_created p = p_now (ce_env e) \<and> pd_owner_iid p = owner
       | Some q \<Rightarrow> pd_is_used p = pd_is_used q \<and> pd_recommended_guest p = pd_recommended_guest q \<and>
           pd_created p = pd_created q \<and> pd_owner_iid p = pd_owner_iid q)) \<and>
    filter (\<lambda>p. \<not> product_of site pid p) (shop_products s') = filter (\<lambda>p. \<not> product_of site pid p) (shop_products s)"
proof -
  from assms(2) obtain owner json where
    ow: "site_grant_check z caller site True = Inr owner"
    and id: "pid = (if 0 <s sp_product_id m then sp_product_id m else p_ids (ce_env e) 0)"
    and js: "ce_jsonb_text e (product_json_stored (product_json_raw (ce_env e) (sp_product_json m))) = Some json"
    and s': "shop_products s' = upsert (product_of site pid) (product_edit (p_now (ce_env e)) json m)
      (product_new (p_now (ce_env e)) json site pid owner m) (shop_products s)" (is "_ = upsert ?hit ?upd ?new ?ps")
    and ic: "(icon, sh_icon s') = (if trim (sp_pic m) = [] \<and> sp_name m \<noteq> [] then product_icon_ensure (ce_ienv e) (sp_name m) (sh_icon s) else ([], sh_icon s))"
    by (rule product_put_success) auto
  have pk: "product_pk (sh_conn s')" using upsert_products_pk assms(1) unfolding product_pk_def s' by blast
  have others: "filter (\<lambda>p. \<not> ?hit p) (shop_products s') = filter (\<lambda>p. \<not> ?hit p) ?ps"
    unfolding s' by (rule upsert_filter_other) (simp_all add: product_of_key)
  define p where "p = (case find ?hit ?ps of None \<Rightarrow> ?new | Some q \<Rightarrow> ?upd q)"
  have found: "find ?hit (shop_products s') = Some p"
    unfolding s' p_def by (rule find_upsert) (simp_all add: product_of_key)
  have hit: "?hit p" using found by (auto simp: find_Some_iff)
  have edited: "\<exists>q. p = ?upd q" by (auto simp: p_def product_new_def split: option.split)
  have in_list: "p \<in> set (live_products (\<lambda>_. True) (sh_conn s') site)"
  proof -
    have "p \<in> set (shop_products s')" using found by (auto simp: find_Some_iff)
    moreover have "pd_deleted p = None" using edited by auto
    ultimately show ?thesis using hit by (simp add: live_products_def product_of_def)
  qed
  have row: "product_from_row e p = m\<lparr> sp_site_iid := site, sp_product_id := pid, sp_is_used := pd_is_used p,
        sp_product_json := p_to_string (ce_env e) (ce_jsonb_value e json),
        sp_created_ts_ms := timestamp_millis (p_clock (ce_env e)) (pd_created p),
        sp_updated_ts_ms := timestamp_millis (p_clock (ce_env e)) (p_now (ce_env e)), sp_deleted_ts_ms := 0, sp_icon := [] \<rparr>"
    using hit edited unfolding product_of_def by (elim exE) (simp add: product_from_row_def Let_def ts_ms_def product_edit_def)
  have icon: "icon_shown (sh_icon s') (sp_pic m, sp_name m) = (if trim (sp_pic m) = [] \<and> sp_name m = [] then GENERIC_ICON else icon)"
  proof (cases "trim (sp_pic m) = [] \<and> sp_name m \<noteq> []")
    case True
    then show ?thesis using ic ensure_shown [of "ce_ienv e" "sp_name m" "sh_icon s" icon "sh_icon s'" "sp_pic m"] by simp
  next
    case False
    moreover have "product_icon_name_key [] = []" by code_simp
    ultimately show ?thesis using ic by (auto simp: icon_shown_def Let_def split: if_splits)
  qed
  have listed: "(product_from_row e p)\<lparr> sp_icon := (if trim (sp_pic m) = [] \<and> sp_name m = [] then GENERIC_ICON else icon) \<rparr>
      \<in> set (with_icons (sh_icon s') (map (product_from_row e) (live_products (\<lambda>_. True) (sh_conn s') site)))"
  proof -
    have "sp_pic (product_from_row e p) = sp_pic m" "sp_name (product_from_row e p) = sp_name m"
      using edited by (auto simp: product_from_row_def product_edit_def Let_def)
    then show ?thesis using in_list icon unfolding with_icons_map by (auto intro: rev_image_eqI)
  qed
  have kept: "case find ?hit ?ps of
         None \<Rightarrow> \<not> pd_is_used p \<and> \<not> pd_recommended_guest p \<and> pd_created p = p_now (ce_env e) \<and> pd_owner_iid p = owner
       | Some q \<Rightarrow> pd_is_used p = pd_is_used q \<and> pd_recommended_guest p = pd_recommended_guest q \<and>
           pd_created p = pd_created q \<and> pd_owner_iid p = pd_owner_iid q"
    by (cases "find ?hit ?ps") (simp_all add: p_def product_new_def product_edit_def)
  have cols: "pd_json p = json" "pd_search_text p = sp_name m @ '' '' @ sp_sku m @ '' '' @ sp_desc m"
    using edited by (auto simp: product_edit_def)
  have out: "pushed = (if out then [m\<lparr> sp_site_iid := site, sp_product_id := pid, sp_icon := icon \<rparr>] else [])"
    using assms(2) by (rule product_put_pushed)
  have list: "\<exists>res. site_product_list_page e s' site 0 [] = Inr res \<and>
      (product_from_row e p)\<lparr> sp_icon := (if trim (sp_pic m) = [] \<and> sp_name m = [] then GENERIC_ICON else icon) \<rparr> \<in> set (pl_products res)"
    using listed by (simp add: site_product_list_page_def)
  have sent: "product_json_stored v = (case v of Object fs \<Rightarrow> Object (filter (\<lambda>(k, _). k \<noteq> ''_embeds'' \<and> k \<noteq> ''_embeds_deleted'') fs) | v \<Rightarrow> v)" for v
    by (cases v) (simp_all add: product_json_stored_def)
  show ?thesis using pk id out others found ow js [unfolded sent product_json_raw_def] cols row list kept by blast
qed

text \<open>The pictures of a saved product: when the request lists pictures, those the product
  has afterwards are exactly the ones listed with an id and not listed as deleted. A picture listed
  without an id is stored under a drawn id and deleted again by the same call.\<close>

theorem product_put_embeds:
  assumes "site_product_put e z s caller site (Some m) out = (Inr (pid, icon), s', pushed)"
    and "get_val (product_json_raw (ce_env e) (sp_product_json m)) ''_embeds'' \<noteq> None"
  shows "em_embed_id ` {r \<in> set (sh_embed s'). embed_live site pid r} =
    set (List.map_filter embed_id_of (sent_embeds e m)) - set (dropped_embeds e m)"
proof -
  from assms(1) obtain c where s': "sh_embed s' = product_embed_reconcile_tx site pid (List.map_filter embed_id_of (sent_embeds e m))
      (product_embed_soft_delete_tx site pid (dropped_embeds e m) (snd (embeds_put (ce_env e) site pid (sent_embeds e m) c (sh_embed s))))"
    by (rule product_put_success) (use assms(2) in \<open>auto simp: Let_def\<close>)
  show ?thesis unfolding s'
    by (rule embed_deletions, rule embeds_put_live) (force simp: map_filter_def)
qed

text \<open>Reordering is all or nothing: if an entry names a product the site does not have, the
  call fails with the first such product and changes nothing; otherwise every live product of the site
  gets the place of its last entry, entries without an id are skipped, and every other row stays.\<close>

theorem site_product_reorder_spec:
  assumes "0 <s site" and "site_grant_check z caller site True = Inr owner"
  shows "site_product_reorder e z s caller site entries =
    (case find (\<lambda>(product, _). 0 <s product \<and> \<not> list_ex (product_live site product) (shop_products s)) entries of
       Some (product, _) \<Rightarrow> (Inl (''product '' @ show_i64 product @ '' not found''), s)
     | None \<Rightarrow> (Inr True, s\<lparr> sh_conn := (sh_conn s)\<lparr> q_product := map (reordered (p_now (ce_env e)) site entries) (shop_products s) \<rparr> \<rparr>))"
proof -
  have "\<not> site \<le>s 0" using assms(1) by (simp add: word_sle_eq word_sless_alt)
  then show ?thesis
    using assms(2) by (simp add: site_product_reorder_def reorder_loop_eq split: option.split)
qed

section \<open>Witnesses\<close>

definition test_shop :: shop where
  "test_shop = \<lparr> sh_conn = test_conn, sh_embed = [], sh_icon = [] \<rparr>"

definition coffee :: SiteProduct where
  "coffee = (product_from_row test_cenv test_product)\<lparr> sp_name := ''Kopi susu'', sp_product_json := ''{}'' \<rparr>"

definition pic_cenv :: cenv where
  "pic_cenv = test_cenv\<lparr> ce_env := test_env\<lparr> p_from_str := (\<lambda>_. Inr (Object [(''_embeds'', Array [
     Object [(''label'', String ''front'')], Object [(''embed_id'', Number (PosInt 7)), (''label'', String ''back'')]])])) \<rparr> \<rparr>"

lemma sale_on_shop:
  "let r = test_put draft_sale test_conn in is_saved r \<and> \<not> pd_is_used test_product \<and>
     list_all (\<lambda>x. 0 <s i_product_id x \<and> i_product_id x = 100) (t_items draft_sale) \<and> t_items draft_sale \<noteq> [] \<and> t_site_iid draft_sale = 1 \<and>
     find (product_live 1 100) (shop_products test_shop) = Some test_product"
  by code_simp

lemma write_ok: "site_grant_check test_access 60 1 True = Inr 50"
  by code_simp

theorem sold_product_stays_witness:
  "\<exists>l c pushed. tx_put test_server 50 (Some draft_sale) True (sh_conn test_shop) = (Inr (Some l), c, pushed) \<and>
     site_product_delete test_cenv test_access (test_shop\<lparr>sh_conn := c\<rparr>) 60 1 100 True = (Inl used_error, test_shop\<lparr>sh_conn := c\<rparr>, [])"
proof -
  let ?r = "test_put draft_sale test_conn"
  note f = sale_on_shop [unfolded Let_def]
  have r: "tx_put test_server 50 (Some draft_sale) True (sh_conn test_shop) = (Inr (Some (saved_tx ?r)), fst (snd ?r), snd (snd ?r))"
    using is_savedD [of ?r] f by (simp add: test_put_def test_shop_def)
  have "hd (t_items draft_sale) \<in> set (t_items draft_sale)" using f by simp
  then obtain x where x: "x \<in> set (t_items draft_sale)" "0 <s i_product_id x" "i_product_id x = 100"
    using f unfolding list_all_iff by blast
  have "find (product_live (t_site_iid draft_sale) (i_product_id x)) (shop_products test_shop) = Some test_product" "t_site_iid draft_sale = 1"
    using f x(3) by simp_all
  moreover have "product_pk (sh_conn test_shop)" using empty_pk by (simp add: test_shop_def)
  ultimately have "site_product_delete test_cenv test_access (test_shop\<lparr>sh_conn := fst (snd ?r)\<rparr>) 60 1 100 True =
      (Inl used_error, test_shop\<lparr>sh_conn := fst (snd ?r)\<rparr>, [])"
    using sold_product_stays [OF _ r x(1,2) _ rtranclp.rtrancl_refl, of test_product test_access 60 50 test_cenv True] x(3) write_ok by simp
  with r show ?thesis by blast
qed

definition put_pid :: "(string + i64 \<times> string) \<times> shop \<times> SiteProduct list \<Rightarrow> (i64 \<times> string) option" where
  "put_pid r = (case fst r of Inr x \<Rightarrow> Some x | Inl _ \<Rightarrow> None)"

lemma put_pidD: "put_pid r = Some (pid, icon) \<Longrightarrow> r = (Inr (pid, icon), fst (snd r), snd (snd r))"
  by (cases r) (auto simp: put_pid_def split: sum.splits)

lemma coffee_put:
  "put_pid (site_product_put test_cenv test_access test_shop 60 1 (Some coffee) True) = Some (100, ''mdi:coffee'')"
  "put_pid (site_product_put pic_cenv test_access test_shop 60 1 (Some coffee) True) = Some (100, ''mdi:coffee'')"
  by code_simp+

theorem site_product_put_spec_witness:
  "\<exists>s' pushed p. site_product_put test_cenv test_access test_shop 60 1 (Some coffee) True = (Inr (100, ''mdi:coffee''), s', pushed) \<and>
     product_pk (sh_conn test_shop) \<and> sp_product_id coffee = 100 \<and> map sp_product_id pushed = [100] \<and>
     find (product_of 1 100) (shop_products s') = Some p \<and> sp_name (product_from_row test_cenv p) = ''Kopi susu'' \<and>
     sp_product_json (product_from_row test_cenv p) = p_to_string (ce_env test_cenv) (ce_jsonb_value test_cenv (pd_json p))"
proof -
  let ?r = "site_product_put test_cenv test_access test_shop 60 1 (Some coffee) True"
  note r = put_pidD [OF coffee_put(1)]
  have n: "sp_name coffee = ''Kopi susu''" and pk: "product_pk (sh_conn test_shop)"
    using empty_pk by (simp_all add: coffee_def test_shop_def)
  have i: "sp_product_id coffee = 100" by code_simp
  from site_product_put_spec [OF pk r] obtain p where
    p: "find (product_of 1 100) (shop_products (fst (snd ?r))) = Some p" "sp_name (product_from_row test_cenv p) = sp_name coffee"
    "sp_product_json (product_from_row test_cenv p) = p_to_string (ce_env test_cenv) (ce_jsonb_value test_cenv (pd_json p))"
    and o: "map sp_product_id (snd (snd ?r)) = [100]"
    by (elim conjE exE) (frule_tac f = sp_name in arg_cong [of "product_from_row _ _"],
      drule_tac f = sp_product_json in arg_cong [of "product_from_row _ _"], simp)
  show ?thesis using r n i p o pk by (metis fst_conv snd_conv)
qed

theorem product_put_embeds_witness:
  "\<exists>s' pushed. site_product_put pic_cenv test_access test_shop 60 1 (Some coffee) True = (Inr (100, ''mdi:coffee''), s', pushed) \<and>
     length (sent_embeds pic_cenv coffee) = 2 \<and> em_embed_id ` {r \<in> set (sh_embed s'). embed_live 1 100 r} = {7}"
proof -
  note r = put_pidD [OF coffee_put(2)]
  have k: "get_val (product_json_raw (ce_env pic_cenv) (sp_product_json coffee)) ''_embeds'' \<noteq> None" by code_simp
  have f: "length (sent_embeds pic_cenv coffee) = 2" "List.map_filter embed_id_of (sent_embeds pic_cenv coffee) = [7]" "dropped_embeds pic_cenv coffee = []"
    by code_simp+
  have "em_embed_id ` {r \<in> set (sh_embed (fst (snd (site_product_put pic_cenv test_access test_shop 60 1 (Some coffee) True)))). embed_live 1 100 r} = {7}"
    unfolding product_put_embeds [OF r k] f by simp
  with r f(1) show ?thesis by blast
qed

theorem site_product_reorder_spec_witness:
  "site_product_reorder test_cenv test_access test_shop 60 1 [(100, 5), (0, 9)] =
     (Inr True, test_shop\<lparr> sh_conn := test_conn\<lparr> q_product := [test_product\<lparr> pd_sort_order := 5, pd_updated := p_now test_env \<rparr>] \<rparr> \<rparr>) \<and>
   site_product_reorder test_cenv test_access test_shop 60 1 [(100, 5), (300, 9)] = (Inl ''product 300 not found'', test_shop)"
proof -
  have pos: "0 <s (1 :: i64)" by code_simp
  note sp = site_product_reorder_spec [OF pos write_ok, of test_cenv test_shop]
  have f: "find (\<lambda>(product, _ :: i32). 0 <s product \<and> \<not> list_ex (product_live 1 product) (shop_products test_shop)) [(100, 5), (0, 9)] = None"
    "find (\<lambda>(product, _ :: i32). 0 <s product \<and> \<not> list_ex (product_live 1 product) (shop_products test_shop)) [(100, 5), (300, 9)] = Some (300, 9)"
    by code_simp+
  have m: "map (reordered (p_now test_env) 1 [(100, 5), (0, 9)]) (shop_products test_shop) = [test_product\<lparr> pd_sort_order := 5, pd_updated := p_now test_env \<rparr>]"
    by code_simp
  have "sh_conn test_shop = test_conn" "ce_env test_cenv = test_env" by (simp_all add: test_shop_def test_cenv_def)
  moreover have "show_i64 300 = ''300''" by code_simp
  ultimately show ?thesis unfolding sp f using m by simp
qed

end
