(* ===== verification/Site_Doc.thy ===== *)
theory Site_Doc
  imports Json
begin

text \<open>
  The documents of sites (\<open>servers/crates/mod_site/src/doc.rs\<close>): pages of blocks with JSON properties, their JSON
  form in the tables, what a block may hold, and the changes made to old documents. Parameters: the parser and
  the printer of JSON texts (\<open>jtext\<close>).
\<close>

record jtext =
  j_parse :: "string \<Rightarrow> string + Value"
  j_print :: "Value \<Rightarrow> string"

record SiteBlock =
  bl_id :: string
  bl_type :: string
  bl_props_json :: string

record SitePage =
  pg_path :: string
  pg_title :: string
  pg_blocks :: "SiteBlock list"
  pg_audience :: string

record SiteDoc =
  sd_pages :: "SitePage list"
  sd_theme_json :: string
  sd_meta_json :: string

definition DEFAULT_PRODUCT_GRID_BLOCK_ID :: string where
  "DEFAULT_PRODUCT_GRID_BLOCK_ID = ''product_grid1''"

definition BLOCK_TYPES_V1 :: "string list" where
  "BLOCK_TYPES_V1 = [''hero'', ''markdown'', ''image'', ''gallery'', ''links'', ''product_grid'', ''contact_form'', ''map'', ''hours'',
     ''queue'', ''hub_profile'', ''social_feed'', ''order_track'', ''embed'', ''spacer'', ''custom_html'', ''partners_display'',
     ''clients_display'']"

section \<open>The JSON form\<close>

text \<open>\<open>if s.is_empty() { {} } else { from_str(s).unwrap_or({}) }\<close>\<close>

definition parse_or_empty :: "jtext \<Rightarrow> string \<Rightarrow> Value" where
  "parse_or_empty j s = (if s = [] then Object [] else case j_parse j s of Inl _ \<Rightarrow> Object [] | Inr v \<Rightarrow> v)"

definition block_to_json :: "jtext \<Rightarrow> SiteBlock \<Rightarrow> Value" where
  "block_to_json j b = Object [(''id'', String (bl_id b)), (''type'', String (bl_type b)), (''props'', parse_or_empty j (bl_props_json b))]"

definition page_to_json :: "jtext \<Rightarrow> SitePage \<Rightarrow> Value" where
  "page_to_json j p = Object [(''path'', String (pg_path p)), (''title'', String (pg_title p)),
     (''blocks'', Array (map (block_to_json j) (pg_blocks p)))]"

definition site_doc_to_json :: "jtext \<Rightarrow> SiteDoc \<Rightarrow> Value" where
  "site_doc_to_json j doc = Object [(''pages'', Array (map (page_to_json j) (sd_pages doc))),
     (''theme'', parse_or_empty j (sd_theme_json doc)), (''meta'', parse_or_empty j (sd_meta_json doc))]"

definition doc_str :: "Value \<Rightarrow> string \<Rightarrow> string \<Rightarrow> string" where
  "doc_str v key d = unwrap_or d (Option.bind (get_val v key) as_str)"

definition doc_text :: "jtext \<Rightarrow> Value \<Rightarrow> string \<Rightarrow> string" where
  "doc_text j v key = (case get_val v key of Some x \<Rightarrow> j_print j x | None \<Rightarrow> ''{}'')"

definition block_from_json :: "jtext \<Rightarrow> Value \<Rightarrow> SiteBlock" where
  "block_from_json j b = \<lparr> bl_id = doc_str b ''id'' [], bl_type = doc_str b ''type'' [], bl_props_json = doc_text j b ''props'' \<rparr>"

definition page_from_json :: "jtext \<Rightarrow> Value \<Rightarrow> SitePage" where
  "page_from_json j p = \<lparr> pg_path = doc_str p ''path'' ''/'', pg_title = doc_str p ''title'' [],
     pg_blocks = (case Option.bind (get_val p ''blocks'') as_array of None \<Rightarrow> [] | Some bs \<Rightarrow> map (block_from_json j) bs),
     pg_audience = doc_str p ''audience'' ''public'' \<rparr>"

definition site_doc_from_json :: "jtext \<Rightarrow> Value \<Rightarrow> SiteDoc" where
  "site_doc_from_json j v = \<lparr>
     sd_pages = (case Option.bind (get_val v ''pages'') as_array of None \<Rightarrow> [] | Some ps \<Rightarrow> map (page_from_json j) ps),
     sd_theme_json = doc_text j v ''theme'', sd_meta_json = doc_text j v ''meta'' \<rparr>"

section \<open>Validation\<close>

text \<open>The properties a block of a type may have.\<close>

definition block_props :: "(string \<times> string list) list" where
  "block_props = [
     (''hero'', [''title'', ''subtitle'', ''pic'', ''cta'', ''cta_url'', ''cta_label'', ''cta_href'', ''align'']),
     (''markdown'', [''content'', ''body'', ''align'']),
     (''image'', [''pic'', ''alt'', ''caption'', ''href'']),
     (''gallery'', [''pics'', ''columns'', ''title'']),
     (''links'', [''links'', ''items'', ''title'']),
     (''product_grid'', [''filter'', ''category'', ''limit'', ''page_size'', ''columns'', ''display'']),
     (''contact_form'', [''title'', ''fields'', ''submit_label'']),
     (''map'', [''lat'', ''lng'', ''zoom'', ''address'']),
     (''hours'', [''hours'', ''schedule'', ''title'']),
     (''queue'', [''title'', ''mode'', ''label'', ''queue_id'']),
     (''hub_profile'', [''title'', ''subtitle'', ''pic'', ''location_label'', ''location_href'', ''show_hours'',
        ''cta'', ''cta_url'', ''cta_label'', ''cta_href'']),
     (''social_feed'', [''title'', ''limit'']),
     (''order_track'', [''title'', ''hint'']),
     (''embed'', [''url'', ''height'', ''title'']),
     (''spacer'', [''height'', ''size'']),
     (''custom_html'', [''html''])]"

definition block_props_validate :: "string \<Rightarrow> Value \<Rightarrow> string + unit" where
  "block_props_validate block_type props =
     (case as_object props of None \<Rightarrow> Inl ''block props must be object'' | Some obj \<Rightarrow>
      case map_of block_props block_type of
        Some allowed \<Rightarrow>
          (case find (\<lambda>(k, _). k \<notin> set allowed) obj of
             Some (k, _) \<Rightarrow> Inl (block_type @ '': unknown prop '' @ k)
           | None \<Rightarrow>
               if block_type = ''social_feed''
               then (case Option.bind (map_of obj ''limit'') as_i64 of
                   Some limit \<Rightarrow> if limit <s 1 \<or> 20 <s limit then Inl ''social_feed: limit must be 1..20'' else Inr ()
                 | None \<Rightarrow> Inr ())
               else Inr ())
      | None \<Rightarrow> if block_type \<in> set [''partners_display'', ''clients_display''] then Inr ()
                else Inl (''unsupported block type: '' @ block_type))"

text \<open>The first error of a loop.\<close>

fun checkE :: "('a \<Rightarrow> string + unit) \<Rightarrow> 'a list \<Rightarrow> string + unit" where
  "checkE f [] = Inr ()"
| "checkE f (x # xs) = (case f x of Inl err \<Rightarrow> Inl err | Inr _ \<Rightarrow> checkE f xs)"

definition block_validate :: "jtext \<Rightarrow> SiteBlock \<Rightarrow> string + unit" where
  "block_validate j b =
     (if bl_id b = [] then Inl ''block id required''
      else if bl_type b \<notin> set BLOCK_TYPES_V1 then Inl (''unsupported block type: '' @ bl_type b)
      else case (if bl_props_json b = [] then Inr (Object []) else j_parse j (bl_props_json b)) of
          Inl e \<Rightarrow> Inl (''invalid props_json: '' @ e)
        | Inr props \<Rightarrow> block_props_validate (bl_type b) props)"

definition site_doc_validate :: "jtext \<Rightarrow> SiteDoc \<Rightarrow> string + unit" where
  "site_doc_validate j doc =
     checkE (\<lambda>page. if pg_path page = [] then Inl ''page path required'' else checkE (block_validate j) (pg_blocks page)) (sd_pages doc)"

section \<open>Changes\<close>

definition site_doc_has_product_grid :: "SiteDoc \<Rightarrow> bool" where
  "site_doc_has_product_grid doc \<longleftrightarrow> list_ex (\<lambda>page. list_ex (\<lambda>b. bl_type b = ''product_grid'') (pg_blocks page)) (sd_pages doc)"

definition site_doc_ensure_catalog_display_default :: "jtext \<Rightarrow> SiteDoc \<Rightarrow> bool \<times> SiteDoc" where
  "site_doc_ensure_catalog_display_default j doc =
     (case as_object (parse_or_empty j (sd_meta_json doc)) of None \<Rightarrow> (False, doc) | Some obj \<Rightarrow>
        (case Option.bind (map_of obj ''catalog_display'') as_str of
           Some s \<Rightarrow> if trim s \<noteq> [] then (False, doc)
             else (True, doc\<lparr> sd_meta_json := j_print j (Object (hm_insert ''catalog_display'' (String ''list'') obj)) \<rparr>)
         | None \<Rightarrow> (True, doc\<lparr> sd_meta_json := j_print j (Object (hm_insert ''catalog_display'' (String ''list'') obj)) \<rparr>)))"

definition HERO_LEGACY_CTA_PROPS :: "string list" where
  "HERO_LEGACY_CTA_PROPS = [''cta'', ''cta_url'', ''cta_label'', ''cta_href'', ''align'']"

definition block_migrate :: "jtext \<Rightarrow> SiteBlock \<Rightarrow> SiteBlock" where
  "block_migrate j b =
     (if bl_type b \<noteq> ''hero'' then b
      else let b = b\<lparr> bl_type := ''hub_profile'' \<rparr>
      in case as_object (parse_or_empty j (bl_props_json b)) of None \<Rightarrow> b
         | Some obj \<Rightarrow> b\<lparr> bl_props_json := j_print j (Object (filter (\<lambda>(k, _). k \<notin> set HERO_LEGACY_CTA_PROPS) obj)) \<rparr>)"

definition site_doc_migrate_legacy_blocks :: "jtext \<Rightarrow> SiteDoc \<Rightarrow> bool \<times> SiteDoc" where
  "site_doc_migrate_legacy_blocks j doc =
     (list_ex (\<lambda>page. list_ex (\<lambda>b. bl_type b = ''hero'') (pg_blocks page)) (sd_pages doc),
      doc\<lparr> sd_pages := map (\<lambda>page. page\<lparr> pg_blocks := map (block_migrate j) (pg_blocks page) \<rparr>) (sd_pages doc) \<rparr>)"

definition grid_props :: string where
  "grid_props = [CHR ''{'', CHR 0x22] @ ''filter'' @ [CHR 0x22, CHR '':'', CHR 0x22] @ ''all'' @ [CHR 0x22, CHR ''}'']"

definition site_doc_ensure_product_grid :: "jtext \<Rightarrow> SiteDoc \<Rightarrow> bool \<times> SiteDoc" where
  "site_doc_ensure_product_grid j doc =
     (let (changed, doc) =
        (if \<not> site_doc_has_product_grid doc
         then let pages = (if sd_pages doc = [] then [\<lparr> pg_path = ''/'', pg_title = [], pg_blocks = [], pg_audience = ''public'' \<rparr>] else sd_pages doc);
                  home = hd pages;
                  block = \<lparr> bl_id = DEFAULT_PRODUCT_GRID_BLOCK_ID, bl_type = ''product_grid'', bl_props_json = grid_props \<rparr>
              in (True, doc\<lparr> sd_pages := home\<lparr> pg_blocks := pg_blocks home @ [block] \<rparr> # tl pages \<rparr>)
         else (False, doc));
        (set, doc) = site_doc_ensure_catalog_display_default j doc
      in (changed \<or> set, doc))"

definition render_key_for_page :: "string \<Rightarrow> string" where
  "render_key_for_page path =
     (let p = trim path
      in if p = [] \<or> p = ''/'' then ''html:/''
         else ''html:'' @ (if starts_with p ''/'' then p else ''/'' @ p))"

section \<open>Valid documents\<close>

lemma checkE_ok [simp]: "checkE f xs = Inr () \<longleftrightarrow> (\<forall>x\<in>set xs. f x = Inr ())"
  by (induction xs) (auto split: sum.split)

lemma checkE_first: "checkE f xs = Inl err \<longleftrightarrow> (\<exists>us x vs. xs = us @ x # vs \<and> (\<forall>u\<in>set us. f u = Inr ()) \<and> f x = Inl err)"
proof (induction xs)
  case (Cons y ys)
  show ?case
  proof (cases "f y")
    case (Inl e)
    have "(\<exists>us x vs. y # ys = us @ x # vs \<and> (\<forall>u\<in>set us. f u = Inr ()) \<and> f x = Inl err) \<longleftrightarrow> e = err"
    proof
      assume "\<exists>us x vs. y # ys = us @ x # vs \<and> (\<forall>u\<in>set us. f u = Inr ()) \<and> f x = Inl err"
      then obtain us x vs where u: "y # ys = us @ x # vs" "\<forall>u\<in>set us. f u = Inr ()" "f x = Inl err" by blast
      then have "us = []" using Inl by (cases us) auto
      then show "e = err" using u Inl by simp
    next
      assume "e = err"
      with Inl have "y # ys = [] @ y # ys \<and> (\<forall>u\<in>set []. f u = Inr ()) \<and> f y = Inl err" by simp
      then show "\<exists>us x vs. y # ys = us @ x # vs \<and> (\<forall>u\<in>set us. f u = Inr ()) \<and> f x = Inl err" by blast
    qed
    with Inl show ?thesis by simp
  next
    case (Inr u)
    then have y: "f y = Inr ()" by simp
    have "(\<exists>us x vs. y # ys = us @ x # vs \<and> (\<forall>u\<in>set us. f u = Inr ()) \<and> f x = Inl err) \<longleftrightarrow>
        (\<exists>us x vs. ys = us @ x # vs \<and> (\<forall>u\<in>set us. f u = Inr ()) \<and> f x = Inl err)"
      (is "?l = ?r")
    proof
      assume ?l
      then obtain us x vs where u: "y # ys = us @ x # vs" "\<forall>u\<in>set us. f u = Inr ()" "f x = Inl err" by blast
      then obtain us' where "us = y # us'" using y by (cases us) auto
      with u show ?r by auto
    next
      assume ?r
      then obtain us x vs where "ys = us @ x # vs" "\<forall>u\<in>set us. f u = Inr ()" "f x = Inl err" by blast
      with y show ?l by (intro exI [of _ "y # us"] exI [of _ x] exI [of _ vs]) simp
    qed
    with Cons.IH y show ?thesis by simp
  qed
qed simp

text \<open>What a valid block is: an object whose keys its type allows, and for a social feed a limit in range.\<close>

definition block_values :: "jtext \<Rightarrow> SiteBlock \<Rightarrow> Value option" where
  "block_values j b = (if bl_props_json b = [] then Some (Object []) else case j_parse j (bl_props_json b) of Inl _ \<Rightarrow> None | Inr v \<Rightarrow> Some v)"

definition props_ok :: "string \<Rightarrow> (string \<times> Value) list \<Rightarrow> bool" where
  "props_ok t obj \<longleftrightarrow> (case map_of block_props t of
       Some allowed \<Rightarrow> fst ` set obj \<subseteq> set allowed \<and>
         (t = ''social_feed'' \<longrightarrow> (case Option.bind (map_of obj ''limit'') as_i64 of Some n \<Rightarrow> 1 \<le> sint n \<and> sint n \<le> 20 | None \<Rightarrow> True))
     | None \<Rightarrow> t = ''partners_display'' \<or> t = ''clients_display'')"

definition block_ok :: "jtext \<Rightarrow> SiteBlock \<Rightarrow> bool" where
  "block_ok j b \<longleftrightarrow> bl_id b \<noteq> [] \<and> (\<exists>obj. block_values j b = Some (Object obj) \<and> props_ok (bl_type b) obj)"

lemma as_object_iff: "as_object v = Some m \<longleftrightarrow> v = Object m"
  by (cases v) auto

lemma props_validate_ok: "block_props_validate t (Object obj) = Inr () \<longleftrightarrow> props_ok t obj"
proof (cases "map_of block_props t")
  case (Some allowed)
  have f: "find (\<lambda>(k, _). k \<notin> set allowed) obj = None \<longleftrightarrow> fst ` set obj \<subseteq> set allowed"
    by (auto simp: find_None_iff)
  show ?thesis
  proof (cases "find (\<lambda>(k, _). k \<notin> set allowed) obj")
    case None
    with f have k: "fst ` set obj \<subseteq> set allowed" by simp
    show ?thesis
      using None k Some
      by (cases "Option.bind (map_of obj ''limit'') as_i64")
        (auto simp: block_props_validate_def props_ok_def word_sless_alt)
  next
    case (Some kv)
    with f have "\<not> fst ` set obj \<subseteq> set allowed" by simp
    then show ?thesis using Some \<open>map_of block_props t = Some allowed\<close> by (simp add: block_props_validate_def props_ok_def split_beta)
  qed
qed (auto simp: block_props_validate_def props_ok_def)

lemma known_types: "t \<in> set BLOCK_TYPES_V1 \<longleftrightarrow> map_of block_props t \<noteq> None \<or> t = ''partners_display'' \<or> t = ''clients_display''"
proof -
  have "set BLOCK_TYPES_V1 = set (map fst block_props @ [''partners_display'', ''clients_display''])" by code_simp
  then show ?thesis by (auto simp: map_of_eq_None_iff)
qed

lemma props_ok_type: "props_ok t obj \<Longrightarrow> t \<in> set BLOCK_TYPES_V1"
  unfolding known_types props_ok_def by (auto split: option.splits)

lemma block_validate_ok: "block_validate j b = Inr () \<longleftrightarrow> block_ok j b"
proof (cases "block_values j b")
  case None
  then show ?thesis by (auto simp: block_validate_def block_ok_def block_values_def split: if_splits sum.splits)
next
  case (Some v)
  then have p: "(if bl_props_json b = [] then Inr (Object []) else j_parse j (bl_props_json b)) = Inr v"
    by (auto simp: block_values_def split: if_splits sum.splits)
  show ?thesis
  proof (cases "as_object v")
    case None
    then show ?thesis using Some unfolding block_validate_def p by (auto simp: block_ok_def block_props_validate_def)
  next
    case obj: (Some obj)
    then have v: "v = Object obj" by (simp add: as_object_iff)
    show ?thesis
      unfolding block_validate_def p using Some props_ok_type [of "bl_type b" obj]
      by (auto simp: v block_ok_def props_validate_ok)
  qed
qed

definition doc_valid :: "jtext \<Rightarrow> SiteDoc \<Rightarrow> bool" where
  "doc_valid j doc \<longleftrightarrow> (\<forall>page\<in>set (sd_pages doc). pg_path page \<noteq> [] \<and> list_all (block_ok j) (pg_blocks page))"

lemma validate_page:
  "(if pg_path page = [] then Inl ''page path required'' else checkE (block_validate j) (pg_blocks page)) = Inr () \<longleftrightarrow>
     pg_path page \<noteq> [] \<and> list_all (block_ok j) (pg_blocks page)"
  by (simp add: block_validate_ok list_all_iff)

lemma validate_valid: "site_doc_validate j doc = Inr () \<longleftrightarrow> doc_valid j doc"
  unfolding site_doc_validate_def checkE_ok validate_page doc_valid_def ..

text \<open>Claim C31. \<open>site_doc_validate\<close> accepts exactly the documents in which every page has a path and every
  block an id, one of the known types and JSON properties that form an object with keys its type allows (and a social
  feed a limit of 1 to 20, if it is a number); otherwise it answers the error of the first page that has one.\<close>

theorem site_doc_validate_spec:
  "(site_doc_validate j doc = Inr () \<longleftrightarrow> doc_valid j doc) \<and>
   (site_doc_validate j doc = Inl err \<longleftrightarrow> (\<exists>us page vs. sd_pages doc = us @ page # vs \<and> doc_valid j (doc\<lparr> sd_pages := us \<rparr>) \<and>
      (if pg_path page = [] then err = ''page path required''
       else \<exists>bs b cs. pg_blocks page = bs @ b # cs \<and> list_all (block_ok j) bs \<and> block_validate j b = Inl err)))"
proof -
  let ?f = "\<lambda>page. if pg_path page = [] then Inl ''page path required'' else checkE (block_validate j) (pg_blocks page)"
  have err: "?f page = Inl err \<longleftrightarrow> (if pg_path page = [] then err = ''page path required''
       else \<exists>bs b cs. pg_blocks page = bs @ b # cs \<and> list_all (block_ok j) bs \<and> block_validate j b = Inl err)" for page
    by (auto simp: checkE_first block_validate_ok list_all_iff)
  have "site_doc_validate j doc = Inl err \<longleftrightarrow> (\<exists>us page vs. sd_pages doc = us @ page # vs \<and> doc_valid j (doc\<lparr> sd_pages := us \<rparr>) \<and> ?f page = Inl err)"
    unfolding site_doc_validate_def checkE_first validate_page by (simp add: doc_valid_def)
  then show ?thesis using validate_valid unfolding err by blast
qed

section \<open>Saving and loading\<close>

text \<open>What \<open>serde_json\<close> promises: a parsed object has distinct keys; the text of an object is not empty and parses to an
  object with the same keys, in some order, that has the same integers and strings under them (floats may be rounded); and
  the text of a new product grid.\<close>

definition same_members :: "(string \<times> Value) list \<Rightarrow> (string \<times> Value) list \<Rightarrow> bool" where
  "same_members m m' \<longleftrightarrow> fst ` set m = fst ` set m' \<and>
     (\<forall>k. Option.bind (map_of m k) as_i64 = Option.bind (map_of m' k) as_i64 \<and>
        Option.bind (map_of m k) as_str = Option.bind (map_of m' k) as_str)"

definition json_law :: "jtext \<Rightarrow> bool" where
  "json_law j \<longleftrightarrow> (\<forall>s m. j_parse j s = Inr (Object m) \<longrightarrow> distinct (map fst m)) \<and>
     (\<forall>m. distinct (map fst m) \<longrightarrow> j_print j (Object m) \<noteq> [] \<and>
        (\<exists>m'. j_parse j (j_print j (Object m)) = Inr (Object m') \<and> same_members m m')) \<and>
     j_parse j grid_props = Inr (Object [(''filter'', String ''all'')])"

lemma same_members_ok:
  assumes "same_members m m'"
  shows "props_ok t m = props_ok t m'"
proof -
  have "Option.bind (map_of m ''limit'') as_i64 = Option.bind (map_of m' ''limit'') as_i64" "fst ` set m = fst ` set m'"
    using assms by (simp_all add: same_members_def)
  then show ?thesis unfolding props_ok_def by (simp only:)
qed

lemma parsed_distinct: "json_law j \<Longrightarrow> parse_or_empty j s = Object m \<Longrightarrow> distinct (map fst m)"
  by (auto simp: json_law_def parse_or_empty_def split: if_splits sum.splits)

lemma reparse:
  assumes "json_law j" and "distinct (map fst m)"
  obtains m' where "j_print j (Object m) \<noteq> []" "parse_or_empty j (j_print j (Object m)) = Object m'"
    "j_parse j (j_print j (Object m)) = Inr (Object m')" "same_members m m'"
proof -
  obtain m' where m: "j_print j (Object m) \<noteq> []" "j_parse j (j_print j (Object m)) = Inr (Object m')" "same_members m m'"
    using assms unfolding json_law_def by blast
  then show ?thesis by (intro that [of m']) (simp_all add: parse_or_empty_def)
qed

definition block_reprint :: "jtext \<Rightarrow> SiteBlock \<Rightarrow> SiteBlock" where
  "block_reprint j b = b\<lparr> bl_props_json := j_print j (parse_or_empty j (bl_props_json b)) \<rparr>"

definition doc_reprint :: "jtext \<Rightarrow> SiteDoc \<Rightarrow> SiteDoc" where
  "doc_reprint j doc = \<lparr> sd_pages = map (\<lambda>p. p\<lparr> pg_blocks := map (block_reprint j) (pg_blocks p), pg_audience := ''public'' \<rparr>) (sd_pages doc),
     sd_theme_json = j_print j (parse_or_empty j (sd_theme_json doc)), sd_meta_json = j_print j (parse_or_empty j (sd_meta_json doc)) \<rparr>"

lemma block_reload: "block_from_json j (block_to_json j b) = block_reprint j b"
  by (simp add: block_from_json_def block_to_json_def block_reprint_def doc_str_def doc_text_def)

lemma doc_reload: "site_doc_from_json j (site_doc_to_json j doc) = doc_reprint j doc"
  by (simp add: site_doc_from_json_def site_doc_to_json_def doc_reprint_def page_from_json_def page_to_json_def
      doc_str_def doc_text_def comp_def block_reload)

lemma block_values_parse: "block_values j b = Some v \<Longrightarrow> parse_or_empty j (bl_props_json b) = v"
  by (auto simp: block_values_def parse_or_empty_def split: if_splits sum.splits)

lemma block_ok_printed:
  assumes "json_law j" and "distinct (map fst m)" and "bl_id b \<noteq> []" and "props_ok (bl_type b) m"
  shows "block_ok j (b\<lparr> bl_props_json := j_print j (Object m) \<rparr>)"
proof -
  obtain m' where "j_print j (Object m) \<noteq> []" "j_parse j (j_print j (Object m)) = Inr (Object m')" "same_members m m'"
    using assms(1,2) by (rule reparse)
  then show ?thesis using assms(3,4) by (simp add: block_ok_def block_values_def same_members_ok)
qed

lemma block_ok_reprint:
  assumes "json_law j" and "block_ok j b"
  shows "block_ok j (block_reprint j b)"
proof -
  obtain obj where o: "block_values j b = Some (Object obj)" "props_ok (bl_type b) obj" and id: "bl_id b \<noteq> []"
    using assms(2) by (auto simp: block_ok_def)
  note p = block_values_parse [OF o(1)]
  show ?thesis using block_ok_printed [OF assms(1) parsed_distinct [OF assms(1) p] id o(2)] by (simp add: block_reprint_def p)
qed

text \<open>Saving a document and loading it again keeps pages, titles, blocks and their order and prints the JSON texts
  anew, and a valid document stays valid; but every page is public afterwards, whatever its audience
  was: \<open>site_doc_to_json\<close> does not write the audience.\<close>

theorem site_doc_roundtrip:
  "site_doc_from_json j (site_doc_to_json j doc) = doc_reprint j doc \<and>
   list_all (\<lambda>p. pg_audience p = ''public'') (sd_pages (site_doc_from_json j (site_doc_to_json j doc)))"
  by (simp add: doc_reload) (simp add: doc_reprint_def list_all_iff)

lemma reprint_valid: "json_law j \<Longrightarrow> doc_valid j doc \<Longrightarrow> doc_valid j (doc_reprint j doc)"
  by (simp add: doc_valid_def doc_reprint_def list_all_iff block_ok_reprint)

section \<open>Old documents and product grids\<close>

lemma props_ok_hero: "props_ok ''hero'' obj \<Longrightarrow> props_ok ''hub_profile'' (filter (\<lambda>(k, _). k \<notin> set HERO_LEGACY_CTA_PROPS) obj)"
  by (auto simp: props_ok_def block_props_def HERO_LEGACY_CTA_PROPS_def)

lemma block_ok_migrate:
  assumes "json_law j" and "block_ok j b"
  shows "block_ok j (block_migrate j b)" and "bl_type (block_migrate j b) \<noteq> ''hero''" and "bl_id (block_migrate j b) = bl_id b"
    and "bl_type b \<noteq> ''hero'' \<Longrightarrow> block_migrate j b = b"
proof -
  obtain obj where o: "block_values j b = Some (Object obj)" "props_ok (bl_type b) obj" and id: "bl_id b \<noteq> []"
    using assms(2) by (auto simp: block_ok_def)
  note p = block_values_parse [OF o(1)]
  let ?next = "filter (\<lambda>(k, _). k \<notin> set HERO_LEGACY_CTA_PROPS) obj"
  show "bl_type b \<noteq> ''hero'' \<Longrightarrow> block_migrate j b = b" by (simp add: block_migrate_def)
  have m: "block_migrate j b = b\<lparr> bl_type := ''hub_profile'', bl_props_json := j_print j (Object ?next) \<rparr>" if "bl_type b = ''hero''"
    using that p by (simp add: block_migrate_def Let_def)
  have dis: "distinct (map fst ?next)" using parsed_distinct [OF assms(1) p] by (induction obj) auto
  show "block_ok j (block_migrate j b)"
  proof (cases "bl_type b = ''hero''")
    case True
    then have "props_ok ''hub_profile'' ?next" using props_ok_hero o(2) by simp
    then show ?thesis using block_ok_printed [OF assms(1) dis, of "b\<lparr> bl_type := ''hub_profile'' \<rparr>"] id m [OF True] by simp
  qed (simp add: block_migrate_def assms(2))
  show "bl_type (block_migrate j b) \<noteq> ''hero''" by (cases "bl_type b = ''hero''") (simp add: m, simp add: block_migrate_def)
  show "bl_id (block_migrate j b) = bl_id b" by (cases "bl_type b = ''hero''") (simp add: m, simp add: block_migrate_def)
qed

definition no_hero :: "SiteDoc \<Rightarrow> bool" where
  "no_hero doc \<longleftrightarrow> list_all (\<lambda>page. list_all (\<lambda>b. bl_type b \<noteq> ''hero'') (pg_blocks page)) (sd_pages doc)"

lemma migrate_valid:
  assumes "json_law j" "doc_valid j doc" "site_doc_migrate_legacy_blocks j doc = (changed, doc')"
  shows "doc_valid j doc'" and "no_hero doc'"
proof -
  have d: "doc' = doc\<lparr> sd_pages := map (\<lambda>page. page\<lparr> pg_blocks := map (block_migrate j) (pg_blocks page) \<rparr>) (sd_pages doc) \<rparr>"
    using assms(3) by (simp add: site_doc_migrate_legacy_blocks_def)
  show "doc_valid j doc'" using assms(2) block_ok_migrate(1) [OF assms(1)] by (simp add: d doc_valid_def list_all_iff)
  show "no_hero doc'" using assms(2) block_ok_migrate(2) [OF assms(1)] by (simp add: d doc_valid_def no_hero_def list_all_iff)
qed

lemma migrate_none: "no_hero doc \<Longrightarrow> site_doc_migrate_legacy_blocks j doc = (False, doc)"
proof -
  assume n: "no_hero doc"
  have b: "map (block_migrate j) bs = bs" if "list_all (\<lambda>b. bl_type b \<noteq> ''hero'') bs" for bs
    using that by (induction bs) (simp_all add: block_migrate_def)
  have p: "map (\<lambda>page. page\<lparr> pg_blocks := map (block_migrate j) (pg_blocks page) \<rparr>) ps = ps"
    if "list_all (\<lambda>page. list_all (\<lambda>b. bl_type b \<noteq> ''hero'') (pg_blocks page)) ps" for ps
    using that by (induction ps) (simp_all add: b)
  have "\<not> list_ex (\<lambda>page. list_ex (\<lambda>b. bl_type b = ''hero'') (pg_blocks page)) (sd_pages doc)"
    using n by (auto simp: no_hero_def list_ex_iff list_all_iff)
  moreover have "map (\<lambda>page. page\<lparr> pg_blocks := map (block_migrate j) (pg_blocks page) \<rparr>) (sd_pages doc) = sd_pages doc"
    using n unfolding no_hero_def by (rule p)
  ultimately show ?thesis by (simp add: site_doc_migrate_legacy_blocks_def)
qed

text \<open>A product grid that is appended to the first page.\<close>

definition grid_block :: SiteBlock where
  "grid_block = \<lparr> bl_id = DEFAULT_PRODUCT_GRID_BLOCK_ID, bl_type = ''product_grid'', bl_props_json = grid_props \<rparr>"

lemma grid_block_ok: "json_law j \<Longrightarrow> block_ok j grid_block"
  by (simp add: json_law_def block_ok_def block_values_def grid_block_def DEFAULT_PRODUCT_GRID_BLOCK_ID_def props_ok_def block_props_def grid_props_def)

definition with_grid :: "SiteDoc \<Rightarrow> SiteDoc" where
  "with_grid doc = (if site_doc_has_product_grid doc then doc
     else let pages = (if sd_pages doc = [] then [\<lparr> pg_path = ''/'', pg_title = [], pg_blocks = [], pg_audience = ''public'' \<rparr>] else sd_pages doc)
          in doc\<lparr> sd_pages := (hd pages)\<lparr> pg_blocks := pg_blocks (hd pages) @ [grid_block] \<rparr> # tl pages \<rparr>)"

lemma ensure_grid_parts:
  "site_doc_ensure_product_grid j doc = (\<not> site_doc_has_product_grid doc \<or> fst (site_doc_ensure_catalog_display_default j (with_grid doc)),
     snd (site_doc_ensure_catalog_display_default j (with_grid doc)))"
  by (simp add: site_doc_ensure_product_grid_def with_grid_def grid_block_def split_beta Let_def)

lemma catalog_default_pages [simp]: "sd_pages (snd (site_doc_ensure_catalog_display_default j doc)) = sd_pages doc"
  by (simp add: site_doc_ensure_catalog_display_default_def split: option.split)

lemma catalog_default_again:
  assumes "json_law j" and "site_doc_ensure_catalog_display_default j doc = (c, doc')"
  shows "site_doc_ensure_catalog_display_default j doc' = (False, doc')"
proof (cases "c")
  case False
  then show ?thesis using assms(2) by (auto simp: site_doc_ensure_catalog_display_default_def split: option.splits if_splits)
next
  case True
  then obtain obj where obj: "parse_or_empty j (sd_meta_json doc) = Object obj"
    and d: "doc' = doc\<lparr> sd_meta_json := j_print j (Object (hm_insert ''catalog_display'' (String ''list'') obj)) \<rparr>"
    using assms(2) by (auto simp: site_doc_ensure_catalog_display_default_def as_object_iff split: option.splits if_splits)
  let ?m = "hm_insert ''catalog_display'' (String ''list'') obj"
  have "distinct (map fst ?m)" using parsed_distinct [OF assms(1) obj] by simp
  from reparse [OF assms(1) this] obtain m' where m: "parse_or_empty j (j_print j (Object ?m)) = Object m'" "same_members ?m m'"
    by metis
  have "Option.bind (map_of m' ''catalog_display'') as_str = Option.bind (map_of ?m ''catalog_display'') as_str"
    using m(2) unfolding same_members_def by metis
  then have "Option.bind (map_of m' ''catalog_display'') as_str = Some ''list''" by simp
  moreover have "trim ''list'' \<noteq> []" by code_simp
  ultimately show ?thesis by (simp add: site_doc_ensure_catalog_display_default_def d m(1))
qed

lemma with_grid_facts:
  "site_doc_has_product_grid (with_grid doc)" "no_hero doc \<Longrightarrow> no_hero (with_grid doc)"
  "json_law j \<Longrightarrow> doc_valid j doc \<Longrightarrow> doc_valid j (with_grid doc)"
proof -
  show "site_doc_has_product_grid (with_grid doc)"
    by (simp add: with_grid_def site_doc_has_product_grid_def Let_def grid_block_def)
  show "no_hero doc \<Longrightarrow> no_hero (with_grid doc)"
    by (cases "sd_pages doc") (simp_all add: with_grid_def no_hero_def Let_def grid_block_def)
  show "json_law j \<Longrightarrow> doc_valid j doc \<Longrightarrow> doc_valid j (with_grid doc)"
    using grid_block_ok [of j] by (cases "sd_pages doc") (simp_all add: with_grid_def doc_valid_def Let_def)
qed

lemma same_pages: "sd_pages doc' = sd_pages doc \<Longrightarrow> doc_valid j doc' = doc_valid j doc \<and> no_hero doc' = no_hero doc \<and>
    site_doc_has_product_grid doc' = site_doc_has_product_grid doc"
  by (simp add: doc_valid_def no_hero_def site_doc_has_product_grid_def)

text \<open>Claim C32. Preparing a document for guests: after \<open>site_doc_migrate_legacy_blocks\<close> and
  \<open>site_doc_ensure_product_grid\<close> a valid document is still valid, has a product grid and no \<open>hero\<close> block, every
  page of the old one is there in its place with the same path and its blocks, migrated, at its start, and doing
  both again changes nothing.\<close>

theorem site_doc_prepare_spec:
  assumes "json_law j" and "doc_valid j doc" and "site_doc_migrate_legacy_blocks j doc = (c1, doc1)"
    and "site_doc_ensure_product_grid j doc1 = (c2, doc2)"
  shows "doc_valid j doc2 \<and> site_doc_has_product_grid doc2 \<and> no_hero doc2 \<and>
    (\<forall>i<length (sd_pages doc). pg_path (sd_pages doc2 ! i) = pg_path (sd_pages doc ! i) \<and>
       take (length (pg_blocks (sd_pages doc ! i))) (pg_blocks (sd_pages doc2 ! i)) = map (block_migrate j) (pg_blocks (sd_pages doc ! i))) \<and>
    site_doc_migrate_legacy_blocks j doc2 = (False, doc2) \<and> site_doc_ensure_product_grid j doc2 = (False, doc2)"
proof -
  note m = migrate_valid [OF assms(1-3)] and g = with_grid_facts [where doc = doc1]
  have d2: "doc2 = snd (site_doc_ensure_catalog_display_default j (with_grid doc1))"
    using assms(4) by (simp add: ensure_grid_parts)
  have p: "sd_pages doc2 = sd_pages (with_grid doc1)" by (simp add: d2)
  have ok: "doc_valid j doc2" "site_doc_has_product_grid doc2" "no_hero doc2"
    using same_pages [OF p] m g assms(1) by blast+
  have wg: "with_grid doc2 = doc2" using ok(2) by (simp add: with_grid_def)
  have again: "site_doc_ensure_catalog_display_default j doc2 = (False, doc2)"
    by (rule catalog_default_again [OF assms(1), of "with_grid doc1" "fst (site_doc_ensure_catalog_display_default j (with_grid doc1))"]) (simp add: d2)
  have d1: "sd_pages doc1 = map (\<lambda>page. page\<lparr> pg_blocks := map (block_migrate j) (pg_blocks page) \<rparr>) (sd_pages doc)"
    using assms(3) by (auto simp: site_doc_migrate_legacy_blocks_def)
  have "pg_path (sd_pages doc2 ! i) = pg_path (sd_pages doc ! i) \<and>
      take (length (pg_blocks (sd_pages doc ! i))) (pg_blocks (sd_pages doc2 ! i)) = map (block_migrate j) (pg_blocks (sd_pages doc ! i))"
    if "i < length (sd_pages doc)" for i
    using that by (cases "sd_pages doc"; cases i) (simp_all add: p with_grid_def d1 Let_def)
  moreover have "site_doc_ensure_product_grid j doc2 = (False, doc2)"
    unfolding ensure_grid_parts wg again using ok(2) by simp
  ultimately show ?thesis using ok migrate_none [OF ok(3)] by blast
qed

end
