(* ===== verification/Json_Codec.thy ===== *)
theory Json_Codec
  imports Json
begin

text \<open>
  A printer of JSON values and a parser that reads back what it prints. The laws about \<open>serde_json\<close> that
  some properties assume hold for it, so their examples use it in the place of \<open>serde_json\<close>.
\<close>

fun enc_str :: "string \<Rightarrow> string" where
  "enc_str [] = '';''"
| "enc_str (c # cs) = CHR ''.'' # c # enc_str cs"

fun dec_str :: "string \<Rightarrow> (string \<times> string) option" where
  "dec_str (m # s) =
     (if m = CHR '';'' then Some ([], s)
      else if m = CHR ''.'' then (case s of [] \<Rightarrow> None | c # s \<Rightarrow> map_option (\<lambda>(cs, r). (c # cs, r)) (dec_str s)) else None)"
| "dec_str [] = None"

lemma dec_enc_str [simp]: "dec_str (enc_str s @ r) = Some (s, r)"
  by (induction s) simp_all

definition enc_word :: "u64 \<Rightarrow> string" where
  "enc_word w = map (\<lambda>b. if b then CHR ''1'' else CHR ''0'') (map (bit w) [0..<64])"

definition dec_word :: "string \<Rightarrow> (u64 \<times> string) option" where
  "dec_word s = (if length s < 64 then None else Some (horner_sum of_bool 2 (map (\<lambda>c. c = CHR ''1'') (take 64 s)), drop 64 s))"

lemma dec_enc_word [simp]: "dec_word (enc_word w @ r) = Some (w, r)"
proof -
  have "map (\<lambda>c. c = CHR ''1'') (enc_word w) = map (bit w) [0..<64]" by (simp add: enc_word_def comp_def)
  moreover have "horner_sum of_bool 2 (map (bit w) [0..<64]) = w" unfolding horner_sum_bit_eq_take_bit by (simp add: take_bit_length_eq [where ?'a = 64, simplified])
  moreover have "length (enc_word w) = 64" by (simp add: enc_word_def)
  ultimately show ?thesis by (simp add: dec_word_def)
qed

primrec enc_number :: "Number \<Rightarrow> string" where
  "enc_number (PosInt n) = CHR ''p'' # enc_word n"
| "enc_number (NegInt n) = CHR ''m'' # enc_word n"
| "enc_number (Float n) = CHR ''x'' # enc_word n"

fun enc_items :: "string list \<Rightarrow> string" where
  "enc_items [] = '';''"
| "enc_items (x # xs) = CHR '','' # x @ enc_items xs"

primrec enc :: "Value \<Rightarrow> string" where
  "enc Null = ''n''"
| "enc (Bool b) = (if b then ''t'' else ''f'')"
| "enc (Number n) = enc_number n"
| "enc (String s) = CHR ''s'' # enc_str s"
| "enc (Array xs) = CHR ''a'' # enc_items (map enc xs)"
| "enc (Object m) = CHR ''o'' # enc_items (map (\<lambda>(k, e). enc_str k @ e) (map (map_prod id enc) m))"

fun dec :: "nat \<Rightarrow> string \<Rightarrow> (Value \<times> string) option"
  and dec_list :: "nat \<Rightarrow> string \<Rightarrow> (Value list \<times> string) option"
  and dec_fields :: "nat \<Rightarrow> string \<Rightarrow> ((string \<times> Value) list \<times> string) option" where
  "dec (Suc n) (c # s) =
     (if c = CHR ''n'' then Some (Null, s)
      else if c = CHR ''t'' then Some (Bool True, s)
      else if c = CHR ''f'' then Some (Bool False, s)
      else if c = CHR ''p'' then map_option (\<lambda>(w, r). (Number (PosInt w), r)) (dec_word s)
      else if c = CHR ''m'' then map_option (\<lambda>(w, r). (Number (NegInt w), r)) (dec_word s)
      else if c = CHR ''x'' then map_option (\<lambda>(w, r). (Number (Float w), r)) (dec_word s)
      else if c = CHR ''s'' then map_option (\<lambda>(t, r). (String t, r)) (dec_str s)
      else if c = CHR ''a'' then map_option (\<lambda>(xs, r). (Array xs, r)) (dec_list n s)
      else if c = CHR ''o'' then map_option (\<lambda>(m, r). (Object m, r)) (dec_fields n s)
      else None)"
| "dec _ _ = None"
| "dec_list (Suc n) (c # s) =
     (if c = CHR '';'' then Some ([], s)
      else if c = CHR '','' then (case dec n s of None \<Rightarrow> None | Some (x, r) \<Rightarrow> map_option (\<lambda>(xs, r). (x # xs, r)) (dec_list n r))
      else None)"
| "dec_list _ _ = None"
| "dec_fields (Suc n) (c # s) =
     (if c = CHR '';'' then Some ([], s)
      else if c = CHR '','' then (case dec_str s of None \<Rightarrow> None | Some (k, r) \<Rightarrow>
        case dec n r of None \<Rightarrow> None | Some (x, r) \<Rightarrow> map_option (\<lambda>(m, r). ((k, x) # m, r)) (dec_fields n r))
      else None)"
| "dec_fields _ _ = None"

lemma dec_items:
  "(\<And>x n r. x \<in> set xs \<Longrightarrow> length (enc x) < n \<Longrightarrow> dec n (enc x @ r) = Some (x, r)) \<Longrightarrow>
     length (enc_items (map enc xs)) < n \<Longrightarrow> dec_list n (enc_items (map enc xs) @ r) = Some (xs, r)"
proof (induction xs arbitrary: n)
  case Nil
  then show ?case by (cases n) simp_all
next
  case (Cons x xs)
  then show ?case by (cases n) simp_all
qed

lemma dec_field_items:
  "(\<And>k x n r. (k, x) \<in> set m \<Longrightarrow> length (enc x) < n \<Longrightarrow> dec n (enc x @ r) = Some (x, r)) \<Longrightarrow>
     length (enc_items (map (\<lambda>(k, e). enc_str k @ e) (map (map_prod id enc) m))) < n \<Longrightarrow>
     dec_fields n (enc_items (map (\<lambda>(k, e). enc_str k @ e) (map (map_prod id enc) m)) @ r) = Some (m, r)"
proof (induction m arbitrary: n)
  case Nil
  then show ?case by (cases n) simp_all
next
  case (Cons kx m)
  obtain k x where kx: "kx = (k, x)" by (rule prod.exhaust)
  obtain n' where n: "n = Suc n'" using Cons.prems(2) by (cases n) simp_all
  have len: "length (enc x) < n'" using Cons.prems(2) by (simp add: kx n)
  have x: "dec n' (enc x @ s) = Some (x, s)" for s by (rule Cons.prems(1) [OF _ len, of k]) (simp add: kx)
  have "dec_fields n' (enc_items (map (\<lambda>(k, e). enc_str k @ e) (map (map_prod id enc) m)) @ r) = Some (m, r)"
    by (rule Cons.IH) (use Cons.prems n in \<open>auto simp: kx\<close>)
  then show ?case using x by (simp add: kx n id_def)
qed

lemma dec_enc: "length (enc v) < n \<Longrightarrow> dec n (enc v @ r) = Some (v, r)"
proof (induction v arbitrary: n r)
  case Null
  then show ?case by (cases n) simp_all
next
  case (Bool b)
  then show ?case by (cases n) simp_all
next
  case (String s)
  then show ?case by (cases n) simp_all
next
  case (Number x)
  then show ?case by (cases n; cases x) simp_all
next
  case (Array xs)
  then obtain n' where n: "n = Suc n'" by (cases n) simp_all
  have "dec_list n' (enc_items (map enc xs) @ r) = Some (xs, r)" by (rule dec_items) (use Array n in simp_all)
  then show ?case by (simp add: n)
next
  case (Object m)
  then obtain n' where n: "n = Suc n'" by (cases n) simp_all
  have "dec_fields n' (enc_items (map (\<lambda>(k, e). enc_str k @ e) (map (map_prod id enc) m)) @ r) = Some (m, r)"
    by (rule dec_field_items) (use Object n in \<open>auto simp: snds.simps\<close>)
  then show ?case by (simp add: n)
qed

definition parse_text :: "(string \<times> Value) list \<Rightarrow> string \<Rightarrow> string + Value" where
  "parse_text known s = (case map_of known s of Some v \<Rightarrow> Inr v
     | None \<Rightarrow> (case dec (Suc (length s)) s of
           Some (v, []) \<Rightarrow> if distinct (map fst (case v of Object m \<Rightarrow> m | _ \<Rightarrow> [])) then Inr v else Inl ''repeated key''
         | _ \<Rightarrow> Inl ''syntax error''))"

lemma enc_nonempty: "enc v \<noteq> [] \<and> hd (enc v) \<noteq> CHR ''{''"
  by (cases v) (simp_all, rename_tac n, case_tac n, simp_all)

lemma parse_enc:
  assumes "\<forall>t\<in>fst ` set known. hd t = CHR ''{''" and "distinct (map fst (case v of Object m \<Rightarrow> m | _ \<Rightarrow> []))"
  shows "parse_text known (enc v) = Inr v"
proof -
  have "map_of known (enc v) = None" using assms(1) enc_nonempty [of v] by (force simp: map_of_eq_None_iff)
  then show ?thesis using assms(2) dec_enc [of v "Suc (length (enc v))" "[]"] by (simp add: parse_text_def)
qed

end
