(* ===== verification/Site_Post.thy ===== *)
theory Site_Post
  imports Product_Pages Site_Doc Json_Codec
begin

text \<open>
  The tables behind the guest pages of a site (\<open>web\<close>) and the posts of a site
  (\<open>servers/crates/mod_site/src/site_post.rs\<close>, \<open>rows.rs\<close>). Parameters (\<open>wenv\<close>): those of the catalogue, the
  value PostgreSQL stores for a JSON value (none if it refuses the value), the hash \<open>blake3\<close>, the keyed hash of the
  preview tokens, lower case, the texts of the HTML pages (\<open>render.rs\<close>) and the dash of their titles, a character
  above U+00FF.
\<close>

record DraftRow =
  dr_site_iid :: i64
  dr_owner_iid :: i64
  dr_doc_json :: Value
  dr_created_ts :: datetime
  dr_updated_ts :: datetime
  dr_deleted_ts :: "datetime option"

record RenderRow =
  rn_site_iid :: i64
  rn_render_key :: string
  rn_content_type :: string
  rn_body :: "string option"
  rn_etag :: string

record PostRow =
  pt_site_iid :: i64
  pt_post_id :: i64
  pt_owner_iid :: i64
  pt_sort_order :: i32
  pt_title :: string
  pt_caption :: string
  pt_body :: string
  pt_media :: Value
  pt_on_storefront :: bool
  pt_thumb :: string
  pt_feed_kind :: string
  pt_created_ts :: datetime
  pt_updated_ts :: datetime
  pt_deleted_ts :: "datetime option"

text \<open>\<open>x_linked\<close> stands for the rows of the tables a page reads besides those modelled here (links, featured
  contacts, queues and objects); \<open>x_generation\<close> is the row of \<open>ai.config\<close> with the renderer version, if there is one, and its version, if it has one;
  \<open>x_hashes\<close> the cache of render hashes of the process; \<open>x_locks\<close> the advisory locks that connections hold.\<close>

record web =
  x_access :: access
  x_shop :: shop
  x_draft :: "DraftRow list"
  x_render :: "RenderRow list"
  x_post :: "PostRow list"
  x_linked :: Value
  x_generation :: "i32 option option"
  x_hashes :: "((i64 \<times> i64) \<times> string) list"
  x_locks :: "(nat \<times> i64) list"

datatype GuestRenderMode = Draft | Published

record SitePost =
  po_site_iid :: i64
  po_post_id :: i64
  po_sort_order :: i32
  po_title :: string
  po_caption :: string
  po_body :: string
  po_media_json :: string
  po_on_storefront :: bool
  po_thumb :: string
  po_feed_kind :: string
  po_created_ts_ms :: i64
  po_updated_ts_ms :: i64
  po_deleted_ts_ms :: i64

text \<open>The rows a page shows: the catalogue, the posts, the linked rows, the identities and what the site has switched on.\<close>

type_synonym page_data = "shop \<times> PostRow list \<times> Value \<times> IdentityRow list \<times> Value"

definition page_data :: "web \<Rightarrow> i64 \<Rightarrow> page_data" where
  "page_data s site = (x_shop s, x_post s, x_linked s, z_identity (x_access s), site_capabilities_get (x_access s) site)"

record wenv =
  we_cenv :: cenv
  we_jsonb :: "Value \<Rightarrow> Value option"
  we_blake3 :: "string \<Rightarrow> string"
  we_hmac :: "string \<Rightarrow> string"
  we_lower :: "string \<Rightarrow> string"
  we_page_html :: "page_data \<Rightarrow> i64 \<Rightarrow> SiteDoc \<Rightarrow> SitePage \<Rightarrow> string \<Rightarrow> GuestRenderMode \<Rightarrow> string + string"
  we_storefront_html :: "page_data \<Rightarrow> i64 \<Rightarrow> string \<Rightarrow> SiteDoc \<Rightarrow> string \<Rightarrow> string \<Rightarrow> GuestRenderMode \<Rightarrow> string + string"
  we_dash :: string
  we_product_article :: "GuestProductRow \<Rightarrow> string"
  we_post_article :: "SitePost \<Rightarrow> string"

abbreviation we_env :: "wenv \<Rightarrow> penv" where
  "we_env e \<equiv> ce_env (we_cenv e)"

abbreviation we_text :: "wenv \<Rightarrow> jtext" where
  "we_text e \<equiv> \<lparr> j_parse = p_from_str (we_env e), j_print = p_to_string (we_env e) \<rparr>"

section \<open>Posts\<close>

definition post_from_row :: "wenv \<Rightarrow> PostRow \<Rightarrow> SitePost" where
  "post_from_row e r = (let ck = p_clock (we_env e) in
     \<lparr> po_site_iid = pt_site_iid r, po_post_id = pt_post_id r, po_sort_order = pt_sort_order r, po_title = pt_title r,
       po_caption = pt_caption r, po_body = pt_body r, po_media_json = p_to_string (we_env e) (pt_media r),
       po_on_storefront = pt_on_storefront r, po_thumb = pt_thumb r, po_feed_kind = pt_feed_kind r,
       po_created_ts_ms = ts_ms ck (Some (pt_created_ts r)), po_updated_ts_ms = ts_ms ck (Some (pt_updated_ts r)),
       po_deleted_ts_ms = ts_ms ck (pt_deleted_ts r) \<rparr>)"

definition post_of :: "i64 \<Rightarrow> i64 \<Rightarrow> PostRow \<Rightarrow> bool" where
  "post_of site post r \<longleftrightarrow> pt_site_iid r = site \<and> pt_post_id r = post"

abbreviation post_live :: "i64 \<Rightarrow> i64 \<Rightarrow> PostRow \<Rightarrow> bool" where
  "post_live site post r \<equiv> post_of site post r \<and> pt_deleted_ts r = None"

definition post_rows :: "(PostRow \<Rightarrow> bool) \<Rightarrow> web \<Rightarrow> i64 \<Rightarrow> PostRow list" where
  "post_rows P s site = sort_key (\<lambda>r. (sint (pt_sort_order r), sint (pt_post_id r)))
     (filter (\<lambda>r. pt_site_iid r = site \<and> pt_deleted_ts r = None \<and> P r) (x_post s))"

definition site_post_list :: "wenv \<Rightarrow> web \<Rightarrow> i64 \<Rightarrow> i64 \<Rightarrow> string + SitePost list" where
  "site_post_list e s caller site =
     (case site_grant_check (x_access s) caller site False of
        Inl err \<Rightarrow> Inl err
      | Inr _ \<Rightarrow> Inr (map (post_from_row e) (post_rows (\<lambda>_. True) s site)))"

definition post_edit :: "datetime \<Rightarrow> Value \<Rightarrow> SitePost \<Rightarrow> PostRow \<Rightarrow> PostRow" where
  "post_edit now media m r = r\<lparr> pt_sort_order := po_sort_order m, pt_title := po_title m, pt_caption := po_caption m,
     pt_body := po_body m, pt_media := media, pt_on_storefront := po_on_storefront m, pt_thumb := po_thumb m,
     pt_feed_kind := (if po_feed_kind m = [] then ''post'' else po_feed_kind m), pt_updated_ts := now, pt_deleted_ts := None \<rparr>"

definition post_new :: "datetime \<Rightarrow> Value \<Rightarrow> i64 \<Rightarrow> i64 \<Rightarrow> i64 \<Rightarrow> SitePost \<Rightarrow> PostRow" where
  "post_new now media site post owner m = \<lparr> pt_site_iid = site, pt_post_id = post, pt_owner_iid = owner,
     pt_sort_order = po_sort_order m, pt_title = po_title m, pt_caption = po_caption m, pt_body = po_body m, pt_media = media,
     pt_on_storefront = po_on_storefront m, pt_thumb = po_thumb m,
     pt_feed_kind = (if po_feed_kind m = [] then ''post'' else po_feed_kind m),
     pt_created_ts = now, pt_updated_ts = now, pt_deleted_ts = None \<rparr>"

definition post_media :: "wenv \<Rightarrow> SitePost \<Rightarrow> Value" where
  "post_media e m = (if po_media_json m = [] then Array []
     else case p_from_str (we_env e) (po_media_json m) of Inl _ \<Rightarrow> Array [] | Inr v \<Rightarrow> v)"

text \<open>\<open>String::len\<close> counts the bytes of UTF-8: two for a scalar value from U+0080 on.\<close>

definition utf8_len :: "string \<Rightarrow> nat" where
  "utf8_len s = (\<Sum>c\<leftarrow>s. if of_char c < (128 :: nat) then 1 else 2)"

definition site_post_upsert :: "wenv \<Rightarrow> web \<Rightarrow> i64 \<Rightarrow> i64 \<Rightarrow> SitePost \<Rightarrow> (string + i64) \<times> web" where
  "site_post_upsert e s owner site m =
     (let (post, _) = id_or_draw (we_env e) (po_post_id m) (call_start (sh_conn (x_shop s)));
          media_json = post_media e m
      in if 200 < utf8_len (po_title m) then (Inl ''title max 200 chars'', s)
         else if 10 < (case as_array media_json of Some a \<Rightarrow> length a | None \<Rightarrow> 0) then (Inl ''media max 10 items'', s)
         else case we_jsonb e media_json of None \<Rightarrow> (Inl ''bad json'', s) | Some media \<Rightarrow>
           (Inr post, s\<lparr> x_post := upsert (post_of site post) (post_edit (p_now (we_env e)) media m)
              (post_new (p_now (we_env e)) media site post owner m) (x_post s) \<rparr>))"

definition site_post_put :: "wenv \<Rightarrow> web \<Rightarrow> i64 \<Rightarrow> i64 \<Rightarrow> SitePost option \<Rightarrow> (string + i64) \<times> web" where
  "site_post_put e s caller site req =
     (case req of None \<Rightarrow> (Inl ''post required'', s) | Some m \<Rightarrow>
      case site_grant_check (x_access s) caller site True of Inl err \<Rightarrow> (Inl err, s) | Inr owner \<Rightarrow>
        site_post_upsert e s owner site m)"

definition site_post_delete :: "wenv \<Rightarrow> web \<Rightarrow> i64 \<Rightarrow> i64 \<Rightarrow> i64 \<Rightarrow> (string + i64) \<times> web" where
  "site_post_delete e s caller site post =
     (if site \<le>s 0 \<or> post \<le>s 0 then (Inl ''site_iid and post_id required'', s)
      else case site_grant_check (x_access s) caller site True of Inl err \<Rightarrow> (Inl err, s) | Inr _ \<Rightarrow>
        if \<not> list_ex (post_live site post) (x_post s)
        then (Inl (''post '' @ show_i64 post @ '' not found or already deleted''), s)
        else let now = p_now (we_env e) in (Inr post, s\<lparr> x_post :=
          map (\<lambda>r. if post_live site post r then r\<lparr> pt_deleted_ts := Some now, pt_updated_ts := now \<rparr> else r) (x_post s) \<rparr>))"

definition SITE_POST_BOOT_CAP :: nat where "SITE_POST_BOOT_CAP = 20"

definition site_post_boot_summaries :: "wenv \<Rightarrow> web \<Rightarrow> i64 \<Rightarrow> SitePost list" where
  "site_post_boot_summaries e s site = map (post_from_row e) (take SITE_POST_BOOT_CAP (post_rows pt_on_storefront s site))"

definition site_post_get_storefront :: "wenv \<Rightarrow> web \<Rightarrow> i64 \<Rightarrow> i64 \<Rightarrow> SitePost option" where
  "site_post_get_storefront e s site post =
     map_option (post_from_row e) (find (\<lambda>r. post_live site post r \<and> pt_on_storefront r) (x_post s))"

definition site_post_storefront_ids :: "web \<Rightarrow> i64 \<Rightarrow> i64 list" where
  "site_post_storefront_ids s site = map pt_post_id (post_rows pt_on_storefront s site)"

definition post_boot_summary_json :: "wenv \<Rightarrow> SitePost \<Rightarrow> Value" where
  "post_boot_summary_json e m =
     (let media_count = (case as_array (post_media e m) of Some a \<Rightarrow> length a | None \<Rightarrow> 0);
          feed_kind = (if po_feed_kind m = [] then ''post'' else po_feed_kind m)
      in Object [(''post_id'', json_i64 (po_post_id m)), (''title'', String (po_title m)), (''caption'', String (po_caption m)),
         (''thumb'', String (po_thumb m)), (''feed_kind'', String feed_kind), (''media_count'', json_i64 (of_nat media_count))])"

section \<open>Posts as a map\<close>

text \<open>What a site shows: the posts by id. \<open>post_rows_ok\<close> is the primary key and what the checks keep.\<close>

definition shown_posts :: "web \<Rightarrow> i64 \<times> i64 \<Rightarrow> PostRow option" where
  "shown_posts s k = find (\<lambda>r. post_live (fst k) (snd k) r \<and> pt_on_storefront r) (x_post s)"

definition post_rows_ok :: "web \<Rightarrow> bool" where
  "post_rows_ok s \<longleftrightarrow> distinct (map (\<lambda>r. (pt_site_iid r, pt_post_id r)) (x_post s)) \<and>
     (\<forall>r\<in>set (x_post s). utf8_len (pt_title r) \<le> 200)"

lemma find_narrow:
  assumes "distinct (map key rows)" "\<And>r q. hit r \<Longrightarrow> hit q \<Longrightarrow> key r = key q" "\<And>r. P r \<Longrightarrow> hit r"
  shows "find P rows = (case find hit rows of None \<Rightarrow> None | Some r \<Rightarrow> if P r then Some r else None)"
proof (cases "find hit rows")
  case None
  then have "find P rows = None" using assms(3) by (auto simp: find_None_iff)
  with None show ?thesis by simp
next
  case (Some r)
  then have r: "r \<in> set rows" "hit r" by (auto simp: find_Some_iff)
  have only: "q = r" if "q \<in> set rows" "P q" for q
    using distinct_key_eq [OF assms(1) that(1) r(1)] assms(2,3) that(2) r(2) by blast
  show ?thesis
  proof (cases "P r")
    case True
    then show ?thesis using find_only [OF r(1), of P] only Some by simp
  next
    case False
    then have "find P rows = None" using only by (auto simp: find_None_iff)
    with False Some show ?thesis by simp
  qed
qed

abbreviation post_key :: "PostRow \<Rightarrow> i64 \<times> i64" where
  "post_key r \<equiv> (pt_site_iid r, pt_post_id r)"

lemma post_of_key: "post_of site post r \<longleftrightarrow> post_key r = (site, post)"
  by (simp add: post_of_def)

lemma shown_by_key:
  assumes "distinct (map post_key rows)"
  shows "find (\<lambda>r. post_of site post r \<and> pt_deleted_ts r = None \<and> pt_on_storefront r) rows =
    (case find (post_of site post) rows of None \<Rightarrow> None | Some r \<Rightarrow> if pt_deleted_ts r = None \<and> pt_on_storefront r then Some r else None)"
proof -
  have n: "find (\<lambda>r. post_of site post r \<and> pt_deleted_ts r = None \<and> pt_on_storefront r) rows =
    (case find (post_of site post) rows of None \<Rightarrow> None
     | Some r \<Rightarrow> if post_of site post r \<and> pt_deleted_ts r = None \<and> pt_on_storefront r then Some r else None)"
    by (rule find_narrow [OF assms]) (simp_all add: post_of_key)
  show ?thesis
  proof (cases "find (post_of site post) rows")
    case (Some r)
    then have "post_of site post r" unfolding find_Some_iff by blast
    with n Some show ?thesis by simp
  qed (simp add: n)
qed

lemma post_edit_keeps [simp]:
  "post_of site post (post_edit now media m r) = post_of site post r" "post_key (post_edit now media m r) = post_key r"
  "pt_deleted_ts (post_edit now media m r) = None" "pt_on_storefront (post_edit now media m r) = po_on_storefront m"
  "pt_title (post_edit now media m r) = po_title m"
  by (simp_all add: post_edit_def post_of_def)

lemma post_new_has [simp]:
  "post_of site post (post_new now media site post owner m)" "post_key (post_new now media site post owner m) = (site, post)"
  "pt_deleted_ts (post_new now media site post owner m) = None" "pt_on_storefront (post_new now media site post owner m) = po_on_storefront m"
  "pt_title (post_new now media site post owner m) = po_title m"
  by (simp_all add: post_new_def post_of_def)

lemma upsert_posts_shown:
  assumes "post_rows_ok s"
  shows "shown_posts (s\<lparr> x_post := upsert (post_of site post) (post_edit now media m) (post_new now media site post owner m) (x_post s) \<rparr>) =
    (shown_posts s)((site, post) := if po_on_storefront m
       then Some (case find (post_of site post) (x_post s) of None \<Rightarrow> post_new now media site post owner m | Some r \<Rightarrow> post_edit now media m r) else None)"
    (is "shown_posts (s\<lparr> x_post := ?rows \<rparr>) = ?m")
proof
  fix k :: "i64 \<times> i64"
  obtain a b where k: "k = (a, b)" by (rule prod.exhaust)
  have dis: "distinct (map post_key (x_post s))" using assms by (simp add: post_rows_ok_def)
  have dis': "distinct (map post_key ?rows)" by (rule upsert_keys [OF dis]) (auto simp: post_of_key)
  show "shown_posts (s\<lparr> x_post := ?rows \<rparr>) k = ?m k"
  proof (cases "k = (site, post)")
    case True
    have "find (post_of site post) ?rows =
        Some (case find (post_of site post) (x_post s) of None \<Rightarrow> post_new now media site post owner m | Some r \<Rightarrow> post_edit now media m r)"
      by (rule find_upsert) simp_all
    then show ?thesis using True by (simp add: shown_posts_def shown_by_key [OF dis'] split: option.split)
  next
    case False
    have "find (\<lambda>r. post_live a b r \<and> pt_on_storefront r) ?rows = find (\<lambda>r. post_live a b r \<and> pt_on_storefront r) (x_post s)"
      by (rule find_upsert_other) (use False k in \<open>auto simp: post_of_def post_edit_def post_new_def\<close>)
    then have "shown_posts (s\<lparr> x_post := ?rows \<rparr>) k = shown_posts s k" by (simp add: shown_posts_def k)
    then show ?thesis using False by simp
  qed
qed

lemma upsert_posts_ok:
  assumes "post_rows_ok s" "utf8_len (po_title m) \<le> 200"
  shows "post_rows_ok (s\<lparr> x_post := upsert (post_of site post) (post_edit now media m) (post_new now media site post owner m) (x_post s) \<rparr>)"
proof -
  have "distinct (map post_key (upsert (post_of site post) (post_edit now media m) (post_new now media site post owner m) (x_post s)))"
    using assms(1) by (intro upsert_keys) (auto simp: post_rows_ok_def post_of_key)
  then show ?thesis using assms by (auto simp: post_rows_ok_def dest!: upsert_elem)
qed

lemma delete_posts_shown:
  assumes "post_rows_ok s"
  shows "shown_posts (s\<lparr> x_post := map (\<lambda>r. if post_live site post r then r\<lparr> pt_deleted_ts := Some now, pt_updated_ts := now \<rparr> else r) (x_post s) \<rparr>) =
    (shown_posts s)((site, post) := None)"
proof
  fix k :: "i64 \<times> i64"
  obtain a b where k: "k = (a, b)" by (rule prod.exhaust)
  let ?f = "\<lambda>r. if post_live site post r then r\<lparr> pt_deleted_ts := Some now, pt_updated_ts := now \<rparr> else r"
  have "find (\<lambda>r. post_live a b r \<and> pt_on_storefront r) (map ?f rows) =
      (if k = (site, post) then None else find (\<lambda>r. post_live a b r \<and> pt_on_storefront r) rows)" for rows
    by (induction rows) (auto simp: k post_of_def)
  then show "shown_posts (s\<lparr> x_post := map ?f (x_post s) \<rparr>) k = ((shown_posts s)((site, post) := None)) k"
    by (simp add: shown_posts_def k)
qed

lemma delete_posts_ok:
  assumes "post_rows_ok s"
  shows "post_rows_ok (s\<lparr> x_post := map (\<lambda>r. if post_live site post r then r\<lparr> pt_deleted_ts := Some now, pt_updated_ts := now \<rparr> else r) (x_post s) \<rparr>)"
proof -
  have "map post_key (map (\<lambda>r. if post_live site post r then r\<lparr> pt_deleted_ts := Some now, pt_updated_ts := now \<rparr> else r) rows) = map post_key rows" for rows
    by (induction rows) auto
  then show ?thesis using assms by (auto simp: post_rows_ok_def simp del: map_map)
qed

lemma storefront_ids_shown:
  assumes "post_rows_ok s"
  shows "distinct (site_post_storefront_ids s site)" "set (site_post_storefront_ids s site) = {p. shown_posts s (site, p) \<noteq> None}"
proof -
  let ?P = "\<lambda>r. pt_site_iid r = site \<and> pt_deleted_ts r = None \<and> pt_on_storefront r"
  have dis: "distinct (map post_key (x_post s))" using assms by (simp add: post_rows_ok_def)
  have key: "inj_on pt_post_id (set (filter ?P (x_post s)))"
    by (rule inj_onI) (use distinct_key_eq [OF dis] in auto)
  have "distinct (filter ?P (x_post s))" using dis by (simp add: distinct_map)
  then show "distinct (site_post_storefront_ids s site)"
    using key by (simp add: site_post_storefront_ids_def post_rows_def distinct_map)
  have "p \<in> set (site_post_storefront_ids s site) \<longleftrightarrow> (\<exists>r\<in>set (x_post s). post_live site p r \<and> pt_on_storefront r)" for p
    by (auto simp: site_post_storefront_ids_def post_rows_def post_of_def image_iff)
  moreover have "shown_posts s (site, p) \<noteq> None \<longleftrightarrow> (\<exists>r\<in>set (x_post s). post_live site p r \<and> pt_on_storefront r)" for p
    unfolding shown_posts_def find_None_iff fst_conv snd_conv by blast
  ultimately show "set (site_post_storefront_ids s site) = {p. shown_posts s (site, p) \<noteq> None}" by blast
qed

lemma put_post_success:
  assumes "site_post_put e s caller site req = (Inr post, s')"
  obtains m owner media where "req = Some m" "site_grant_check (x_access s) caller site True = Inr owner"
    "we_jsonb e (post_media e m) = Some media" "utf8_len (po_title m) \<le> 200" "post = (if 0 <s po_post_id m then po_post_id m else p_ids (we_env e) 0)"
    "s' = s\<lparr> x_post := upsert (post_of site post) (post_edit (p_now (we_env e)) media m)
              (post_new (p_now (we_env e)) media site post owner m) (x_post s) \<rparr>"
  using assms by (auto simp: site_post_put_def site_post_upsert_def Let_def split_beta id_or_draw_def
      snowflake_draw_def call_start_def split: option.splits sum.splits if_splits)

lemma put_post_err: "site_post_put e s caller site req = (Inl err, s') \<Longrightarrow> s' = s"
  by (auto simp: site_post_put_def site_post_upsert_def Let_def split_beta split: option.splits sum.splits if_splits)

lemma delete_post_cases:
  assumes "site_post_delete e s caller site post = (r, s')"
  shows "(case r of Inl _ \<Rightarrow> s' = s
     | Inr p \<Rightarrow> p = post \<and> site_grant_check (x_access s) caller site True \<noteq> Inl (projl r) \<and> list_ex (post_live site post) (x_post s) \<and>
        s' = s\<lparr> x_post := map (\<lambda>r. if post_live site post r then r\<lparr> pt_deleted_ts := Some (p_now (we_env e)), pt_updated_ts := p_now (we_env e) \<rparr> else r) (x_post s) \<rparr>)"
  using assms by (auto simp: site_post_delete_def Let_def split: sum.splits if_splits)

text \<open>The row a put stores: every column of the post, its media as the database stores them; a known post
  keeps its owner and its creation.\<close>

lemma put_post_row:
  assumes "post_of site post r"
  shows "post_edit now media m r = \<lparr> pt_site_iid = site, pt_post_id = post, pt_owner_iid = pt_owner_iid r,
      pt_sort_order = po_sort_order m, pt_title = po_title m, pt_caption = po_caption m, pt_body = po_body m, pt_media = media,
      pt_on_storefront = po_on_storefront m, pt_thumb = po_thumb m,
      pt_feed_kind = (if po_feed_kind m = [] then ''post'' else po_feed_kind m),
      pt_created_ts = pt_created_ts r, pt_updated_ts = now, pt_deleted_ts = None \<rparr>"
  using assms by (simp add: post_edit_def post_of_def)

lemma put_post_refines:
  assumes "post_rows_ok s" and "site_post_put e s caller site req = (Inr post, s')"
  shows "\<exists>m owner media q. req = Some m \<and> site_grant_check (x_access s) caller site True = Inr owner \<and>
          post = (if 0 <s po_post_id m then po_post_id m else p_ids (we_env e) 0) \<and>
          we_jsonb e (if po_media_json m = [] then Array []
            else case p_from_str (we_env e) (po_media_json m) of Inl _ \<Rightarrow> Array [] | Inr v \<Rightarrow> v) = Some media \<and>
          utf8_len (po_title m) \<le> 200 \<and> find (post_of site post) (x_post s') = Some q \<and>
          q = \<lparr> pt_site_iid = site, pt_post_id = post,
            pt_owner_iid = (case find (post_of site post) (x_post s) of None \<Rightarrow> owner | Some r \<Rightarrow> pt_owner_iid r),
            pt_sort_order = po_sort_order m, pt_title = po_title m, pt_caption = po_caption m, pt_body = po_body m,
            pt_media = media, pt_on_storefront = po_on_storefront m, pt_thumb = po_thumb m,
            pt_feed_kind = (if po_feed_kind m = [] then ''post'' else po_feed_kind m),
            pt_created_ts = (case find (post_of site post) (x_post s) of None \<Rightarrow> p_now (we_env e) | Some r \<Rightarrow> pt_created_ts r),
            pt_updated_ts = p_now (we_env e), pt_deleted_ts = None \<rparr> \<and>
          shown_posts s' = (shown_posts s)((site, post) := if po_on_storefront m then Some q else None)"
proof -
  obtain m owner media where r: "req = Some m" "site_grant_check (x_access s) caller site True = Inr owner"
    "we_jsonb e (post_media e m) = Some media" "utf8_len (po_title m) \<le> 200"
    "post = (if 0 <s po_post_id m then po_post_id m else p_ids (we_env e) 0)"
    and s': "s' = s\<lparr> x_post := upsert (post_of site post) (post_edit (p_now (we_env e)) media m)
              (post_new (p_now (we_env e)) media site post owner m) (x_post s) \<rparr>"
    using assms(2) by (rule put_post_success)
  define q where "q = (case find (post_of site post) (x_post s) of None \<Rightarrow> post_new (p_now (we_env e)) media site post owner m
    | Some r \<Rightarrow> post_edit (p_now (we_env e)) media m r)"
  have f: "find (post_of site post) (x_post s') = Some q" unfolding s' q_def by (simp add: find_upsert)
  have q: "q = \<lparr> pt_site_iid = site, pt_post_id = post,
            pt_owner_iid = (case find (post_of site post) (x_post s) of None \<Rightarrow> owner | Some r \<Rightarrow> pt_owner_iid r),
            pt_sort_order = po_sort_order m, pt_title = po_title m, pt_caption = po_caption m, pt_body = po_body m,
            pt_media = media, pt_on_storefront = po_on_storefront m, pt_thumb = po_thumb m,
            pt_feed_kind = (if po_feed_kind m = [] then ''post'' else po_feed_kind m),
            pt_created_ts = (case find (post_of site post) (x_post s) of None \<Rightarrow> p_now (we_env e) | Some r \<Rightarrow> pt_created_ts r),
            pt_updated_ts = p_now (we_env e), pt_deleted_ts = None \<rparr>"
  proof (cases "find (post_of site post) (x_post s)")
    case (Some r)
    then have "post_of site post r" unfolding find_Some_iff by blast
    with Some show ?thesis by (simp add: q_def put_post_row)
  qed (simp add: q_def post_new_def)
  have "shown_posts s' = (shown_posts s)((site, post) := if po_on_storefront m then Some q else None)"
    unfolding s' q_def by (rule upsert_posts_shown [OF assms(1)])
  with r [unfolded post_media_def] f q show ?thesis by blast
qed

lemma post_call_keeps:
  assumes "post_rows_ok s" and "site_post_put e s caller site req = (r, s') \<or> site_post_delete e s caller site post = (r, s')"
  shows "post_rows_ok s'" and "\<exists>rows. s' = s\<lparr> x_post := rows \<rparr>" and "r = Inl err \<Longrightarrow> s' = s"
proof -
  have put: "post_rows_ok s' \<and> (\<exists>rows. s' = s\<lparr> x_post := rows \<rparr>)" if "site_post_put e s caller site req = (Inr q, s')" for q
    using that by (rule put_post_success) (use upsert_posts_ok [OF assms(1)] in auto)
  have same: "\<exists>rows. s = s\<lparr> x_post := rows \<rparr>" by (rule exI [of _ "x_post s"]) simp
  have "post_rows_ok s' \<and> (\<exists>rows. s' = s\<lparr> x_post := rows \<rparr>) \<and> (\<forall>err. r = Inl err \<longrightarrow> s' = s)"
    using assms(2)
  proof
    assume "site_post_put e s caller site req = (r, s')"
    then show ?thesis using put put_post_err assms(1) same by (cases r) blast+
  next
    assume "site_post_delete e s caller site post = (r, s')"
    from delete_post_cases [OF this] show ?thesis using delete_posts_ok [OF assms(1)] assms(1) same by (cases r) auto
  qed
  then show "post_rows_ok s'" "\<exists>rows. s' = s\<lparr> x_post := rows \<rparr>" "r = Inl err \<Longrightarrow> s' = s" by blast+
qed

text \<open>Claim C33. The posts a site shows are a map from ids. A put answers the id of the request, or one it draws when
  the request has none; the row it leaves under this id has every column of the post, its media as the database stores them, and is
  shown or hidden as the post says, whether the id was new, known or deleted before; a known post keeps its owner
  and creation. A delete removes its post. Both leave every other post and table alone, a refused call
  changes nothing, and the guest queries read that map: the list has the ids of the shown posts, each once, and a look-up finds
  exactly them.\<close>

theorem posts_refine:
  assumes "post_rows_ok s"
  shows "(site_post_put e s caller site req = (Inr post, s') \<longrightarrow>
       (\<exists>m owner media q. req = Some m \<and> site_grant_check (x_access s) caller site True = Inr owner \<and>
          post = (if 0 <s po_post_id m then po_post_id m else p_ids (we_env e) 0) \<and>
          we_jsonb e (if po_media_json m = [] then Array []
            else case p_from_str (we_env e) (po_media_json m) of Inl _ \<Rightarrow> Array [] | Inr v \<Rightarrow> v) = Some media \<and>
          utf8_len (po_title m) \<le> 200 \<and> find (post_of site post) (x_post s') = Some q \<and>
          q = \<lparr> pt_site_iid = site, pt_post_id = post,
            pt_owner_iid = (case find (post_of site post) (x_post s) of None \<Rightarrow> owner | Some r \<Rightarrow> pt_owner_iid r),
            pt_sort_order = po_sort_order m, pt_title = po_title m, pt_caption = po_caption m, pt_body = po_body m,
            pt_media = media, pt_on_storefront = po_on_storefront m, pt_thumb = po_thumb m,
            pt_feed_kind = (if po_feed_kind m = [] then ''post'' else po_feed_kind m),
            pt_created_ts = (case find (post_of site post) (x_post s) of None \<Rightarrow> p_now (we_env e) | Some r \<Rightarrow> pt_created_ts r),
            pt_updated_ts = p_now (we_env e), pt_deleted_ts = None \<rparr> \<and>
          shown_posts s' = (shown_posts s)((site, post) := if po_on_storefront m then Some q else None))) \<and>
     (site_post_delete e s caller site post = (Inr p, s') \<longrightarrow>
        p = post \<and> shown_posts s' = (shown_posts s)((site, post) := None)) \<and>
     (site_post_put e s caller site req = (r, s') \<or> site_post_delete e s caller site post = (r, s') \<longrightarrow>
        post_rows_ok s' \<and> (\<exists>rows. s' = s\<lparr> x_post := rows \<rparr>) \<and> (\<forall>err. r = Inl err \<longrightarrow> s' = s)) \<and>
     distinct (site_post_storefront_ids s k) \<and> set (site_post_storefront_ids s k) = {p. shown_posts s (k, p) \<noteq> None} \<and>
     site_post_get_storefront e s k p = map_option (post_from_row e) (shown_posts s (k, p))"
proof (intro conjI impI, goal_cases)
  case 1
  then show ?case by (rule put_post_refines [OF assms])
next
  case 2
  from delete_post_cases [OF this] show ?case by simp
next
  case 3
  from delete_post_cases [OF this] show ?case using delete_posts_shown [OF assms] by simp
next
  case 4
  then show ?case by (rule post_call_keeps [OF assms])
next
  case 5
  then show ?case by (rule post_call_keeps [OF assms])
next
  case 6
  then show ?case using post_call_keeps(3) [OF assms 6] by blast
qed (simp_all add: storefront_ids_shown [OF assms] site_post_get_storefront_def shown_posts_def)

section \<open>Examples\<close>

text \<open>The codec stands for \<open>serde_json\<close>; it also knows the two texts that the code writes itself.\<close>

definition test_texts :: "(string \<times> Value) list" where
  "test_texts = [(''{}'', Object []), (grid_props, Object [(''filter'', String ''all'')])]"

definition test_wenv :: wenv where
  "test_wenv = \<lparr> we_cenv = test_cenv\<lparr> ce_env := test_env\<lparr> p_from_str := parse_text test_texts, p_to_string := enc \<rparr> \<rparr>,
     we_jsonb = Some, we_blake3 = (\<lambda>s. s), we_hmac = filter (\<lambda>c. c \<noteq> CHR '':''), we_lower = (\<lambda>s. s),
     we_page_html = (\<lambda>d site doc page name mode. Inr (name @ '' '' @ pg_title page)),
     we_storefront_html = (\<lambda>d site name doc title body mode. Inr (title @ '' '' @ body)),
     we_dash = ''-'', we_product_article = gp_name, we_post_article = po_title \<rparr>"

definition test_web :: web where
  "test_web = \<lparr> x_access = test_access\<lparr> z_publish := [] \<rparr>, x_shop = \<lparr> sh_conn = room_conn, sh_embed = [], sh_icon = [] \<rparr>,
     x_draft = [], x_render = [], x_post = [], x_linked = Null, x_generation = None, x_hashes = [], x_locks = [] \<rparr>"

definition test_post :: SitePost where
  "test_post = \<lparr> po_site_iid = 1, po_post_id = 7, po_sort_order = 0, po_title = ''News'', po_caption = [], po_body = [],
     po_media_json = [], po_on_storefront = True, po_thumb = [], po_feed_kind = [], po_created_ts_ms = 0, po_updated_ts_ms = 0,
     po_deleted_ts_ms = 0 \<rparr>"

lemma test_codec_law: "json_law (we_text test_wenv)"
proof -
  have known: "\<forall>t\<in>fst ` set test_texts. hd t = CHR ''{''" by (simp add: test_texts_def grid_props_def)
  have obj: "parse_text test_texts (enc (Object m)) = Inr (Object m)" if "distinct (map fst m)" for m
    using parse_enc [OF known, of "Object m"] that by simp
  have grid: "parse_text test_texts grid_props = Inr (Object [(''filter'', String ''all'')])" by code_simp
  have d: "distinct (map fst m)" if "parse_text test_texts s = Inr (Object m)" for s m
  proof (cases "map_of test_texts s")
    case None
    with that show ?thesis by (auto simp: parse_text_def split: option.splits prod.splits list.splits if_splits)
  next
    case (Some v)
    then have "m = [] \<or> m = [(''filter'', String ''all'')]" using that by (auto simp: parse_text_def test_texts_def split: if_splits)
    then show ?thesis by auto
  qed
  show ?thesis
    using d obj grid by (simp add: json_law_def test_wenv_def same_members_def enc_nonempty)
qed

definition posted :: web where
  "posted = snd (site_post_put test_wenv test_web 60 1 (Some test_post))"

lemma posted_eq: "site_post_put test_wenv test_web 60 1 (Some test_post) = (Inr 7, posted)"
proof -
  have "fst (site_post_put test_wenv test_web 60 1 (Some test_post)) = Inr 7" by code_simp
  then show ?thesis unfolding posted_def by (metis prod.collapse)
qed

theorem posts_refine_witness:
  "post_rows_ok test_web \<and> set (site_post_storefront_ids test_web 1) = {} \<and>
   po_post_id test_post = 7 \<and> map_option pt_title (shown_posts posted (1, 7)) = Some ''News'' \<and> post_rows_ok posted"
proof -
  have ok: "post_rows_ok test_web" by (simp add: post_rows_ok_def test_web_def)
  note r = posts_refine [OF ok, where e = test_wenv and caller = 60 and site = 1 and req = "Some test_post" and post = 7 and s' = posted and r = "Inr 7" and p = 7 and k = 1]
  have m: "po_on_storefront test_post" "po_title test_post = ''News''" "po_post_id test_post = 7" by (simp_all add: test_post_def)
  from r posted_eq obtain q where "shown_posts posted = (shown_posts test_web)((1, 7) := Some q)" "pt_title q = ''News''"
    using m by auto
  then have "map_option pt_title (shown_posts posted (1, 7)) = Some ''News''" by simp
  moreover have "post_rows_ok posted" using r posted_eq by blast
  moreover have "site_post_storefront_ids test_web 1 = []" by code_simp
  ultimately show ?thesis using ok m by simp
qed

text \<open>An old document: a page whose only block is a \<open>hero\<close> with a button.\<close>

definition old_props :: "(string \<times> Value) list" where
  "old_props = [(''title'', String ''Shop''), (''cta_label'', String ''Buy'')]"

definition old_doc :: SiteDoc where
  "old_doc = \<lparr> sd_pages = [\<lparr> pg_path = ''/'', pg_title = ''Home'',
       pg_blocks = [\<lparr> bl_id = ''hero1'', bl_type = ''hero'', bl_props_json = enc (Object old_props) \<rparr>], pg_audience = ''public'' \<rparr>],
     sd_theme_json = [], sd_meta_json = [] \<rparr>"

lemma old_doc_valid: "doc_valid (we_text test_wenv) old_doc"
proof -
  have "site_doc_validate (we_text test_wenv) old_doc = Inr ()" by code_simp
  then show ?thesis by (simp add: validate_valid)
qed

theorem site_doc_prepare_spec_witness:
  "let j = we_text test_wenv; doc1 = snd (site_doc_migrate_legacy_blocks j old_doc); doc2 = snd (site_doc_ensure_product_grid j doc1)
   in json_law j \<and> doc_valid j old_doc \<and> \<not> no_hero old_doc \<and> doc_valid j doc2 \<and> site_doc_has_product_grid doc2 \<and> no_hero doc2"
proof -
  let ?j = "we_text test_wenv"
  let ?doc1 = "snd (site_doc_migrate_legacy_blocks ?j old_doc)"
  have c: "site_doc_migrate_legacy_blocks ?j old_doc = (fst (site_doc_migrate_legacy_blocks ?j old_doc), ?doc1)"
    "site_doc_ensure_product_grid ?j ?doc1 = (fst (site_doc_ensure_product_grid ?j ?doc1), snd (site_doc_ensure_product_grid ?j ?doc1))"
    by simp_all
  have "\<not> no_hero old_doc" by code_simp
  with site_doc_prepare_spec [OF test_codec_law old_doc_valid c] show ?thesis
    unfolding Let_def using test_codec_law old_doc_valid by blast
qed

end
