(* ===== verification/Site_Publish.thy ===== *)
theory Site_Publish
  imports Site_Post
begin

text \<open>
  Drafts and publication (\<open>site_draft.rs\<close>, \<open>site_publish.rs\<close>, \<open>guest_renderer.rs\<close>, the frame of \<open>render.rs\<close> and
  \<open>site_config.rs\<close> in \<open>servers/crates/mod_site/src\<close>): an editor saves the draft of a site, \<open>site_publish\<close> copies it to a
  version, marks that version active and stores the HTML of every page, and guests read the stored HTML until a newer
  renderer makes it stale. A call draws its ids and reads its clock as the calls of the ledger do. That publishing also
  forgets cached hints of the assistant is not modelled.
\<close>

section \<open>Rendering\<close>

fun collectE :: "('a \<Rightarrow> string + 'b option) \<Rightarrow> 'a list \<Rightarrow> string + 'b list" where
  "collectE f [] = Inr []"
| "collectE f (x # xs) =
     (case f x of Inl err \<Rightarrow> Inl err | Inr y \<Rightarrow>
      case collectE f xs of Inl err \<Rightarrow> Inl err | Inr ys \<Rightarrow> Inr (case y of None \<Rightarrow> ys | Some y \<Rightarrow> y # ys))"

definition site_has_sellable_products :: "web \<Rightarrow> i64 \<Rightarrow> bool" where
  "site_has_sellable_products s site =
     list_ex (\<lambda>p. pd_site_iid p = site \<and> pd_deleted p = None \<and> \<not> pd_is_archived p \<and> pd_can_sell p) (q_product (sh_conn (x_shop s)))"

definition site_draft_prepare_commerce_grid_doc :: "wenv \<Rightarrow> web \<Rightarrow> i64 \<Rightarrow> SiteDoc \<Rightarrow> SiteDoc" where
  "site_draft_prepare_commerce_grid_doc e s site doc =
     (let doc = snd (site_doc_migrate_legacy_blocks (we_text e) doc)
      in if \<not> site_capability_enabled (site_capabilities_get (x_access s) site) ''commerce'' then doc
         else if \<not> site_has_sellable_products s site then doc
         else snd (site_doc_ensure_product_grid (we_text e) doc))"

definition page_html_render :: "wenv \<Rightarrow> web \<Rightarrow> i64 \<Rightarrow> SiteDoc \<Rightarrow> string \<Rightarrow> string \<Rightarrow> GuestRenderMode \<Rightarrow> string + string" where
  "page_html_render e s site doc page_path site_name mode =
     (case (case find (\<lambda>p. pg_path p = page_path) (sd_pages doc) of
              Some p \<Rightarrow> Some p | None \<Rightarrow> (case sd_pages doc of [] \<Rightarrow> None | p # _ \<Rightarrow> Some p)) of
        None \<Rightarrow> Inl ''page not found''
      | Some page \<Rightarrow> we_page_html e (page_data s site) site doc page site_name mode)"

text \<open>\<open>format!("{} - {}", name, site_name)\<close>, with an em dash.\<close>

definition detail_title :: "wenv \<Rightarrow> string \<Rightarrow> string \<Rightarrow> string" where
  "detail_title e name site_name = trim name @ '' '' @ we_dash e @ '' '' @ trim site_name"

definition product_detail_html_render :: "wenv \<Rightarrow> web \<Rightarrow> i64 \<Rightarrow> i64 \<Rightarrow> string \<Rightarrow> SiteDoc \<Rightarrow> GuestRenderMode \<Rightarrow> string + string option" where
  "product_detail_html_render e s site product site_name doc mode =
     (case guest_product_get (we_cenv e) (x_shop s) site product of None \<Rightarrow> Inr None | Some (row, can_reserve) \<Rightarrow>
        let row = row\<lparr> gp_can_reserve := can_reserve \<rparr>; body = we_product_article e row
        in map_sum id Some (we_storefront_html e (page_data s site) site site_name doc (detail_title e (gp_name row) site_name) body mode))"

definition post_detail_html_render :: "wenv \<Rightarrow> web \<Rightarrow> i64 \<Rightarrow> i64 \<Rightarrow> string \<Rightarrow> SiteDoc \<Rightarrow> GuestRenderMode \<Rightarrow> string + string option" where
  "post_detail_html_render e s site post site_name doc mode =
     (case site_post_get_storefront e s site post of None \<Rightarrow> Inr None | Some m \<Rightarrow>
        map_sum id Some (we_storefront_html e (page_data s site) site site_name doc (detail_title e (po_title m) site_name)
          (we_post_article e m) mode))"

definition publish_doc_render :: "wenv \<Rightarrow> web \<Rightarrow> i64 \<Rightarrow> Value \<Rightarrow> string \<Rightarrow> string + (string \<times> string) list" where
  "publish_doc_render e s site doc_json site_name =
     (let doc = site_draft_prepare_commerce_grid_doc e s site (site_doc_from_json (we_text e) doc_json);
          page = (\<lambda>key path. map_sum id (\<lambda>html. Some (key, html)) (page_html_render e s site doc path site_name Published));
          detail = (\<lambda>prefix i. map_sum id (map_option (\<lambda>html. (prefix @ show_i64 i, html))))
      in case collectE (\<lambda>p. page (render_key_for_page (pg_path p)) (pg_path p)) (sd_pages doc) of Inl err \<Rightarrow> Inl err | Inr out \<Rightarrow>
         case (if out = [] then collectE (\<lambda>path. page ''html:/'' path) [''/''] else Inr out) of Inl err \<Rightarrow> Inl err | Inr out \<Rightarrow>
         case collectE (\<lambda>i. detail ''html:/products/'' i (product_detail_html_render e s site i site_name doc Published)) (guest_product_sell_ids (sh_conn (x_shop s)) site 200) of
           Inl err \<Rightarrow> Inl err | Inr products \<Rightarrow>
         case collectE (\<lambda>i. detail ''html:/posts/'' i (post_detail_html_render e s site i site_name doc Published)) (site_post_storefront_ids s site) of
           Inl err \<Rightarrow> Inl err | Inr posts \<Rightarrow> Inr (out @ products @ posts))"

definition render_etag :: "wenv \<Rightarrow> string \<Rightarrow> string" where
  "render_etag e html = we_blake3 e html"

definition render_bundle_hash :: "wenv \<Rightarrow> (string \<times> string) list \<Rightarrow> string" where
  "render_bundle_hash e pages = we_blake3 e (concat (map (\<lambda>(key, html). key @ html) pages))"

definition site_name_for_render :: "web \<Rightarrow> i64 \<Rightarrow> string" where
  "site_name_for_render s site =
     (case find (\<lambda>i. id_id i = site \<and> \<not> id_deleted i) (z_identity (x_access s)) of Some i \<Rightarrow> id_name i | None \<Rightarrow> ''Site'')"

section \<open>Drafts\<close>

record SiteDraft =
  dt_site_iid :: i64
  dt_owner_iid :: i64
  dt_doc :: "SiteDoc option"
  dt_created_ts_ms :: i64
  dt_updated_ts_ms :: i64
  dt_deleted_ts_ms :: i64

definition EMPTY_DOC :: Value where
  "EMPTY_DOC = Object [(''pages'', Array []), (''theme'', Object []), (''meta'', Object [])]"

text \<open>A row of \<open>site.config\<close> with the defaults of \<open>site.sql\<close>, and \<open>ON CONFLICT (site_iid) DO NOTHING\<close>.\<close>

definition config_new :: "datetime \<Rightarrow> i64 \<Rightarrow> i64 \<Rightarrow> ConfigRow" where
  "config_new now site owner = \<lparr> cf_site_iid = site, cf_owner_iid = owner, cf_published_version_id = None, cf_guest_render_version = 0,
     cf_inventory_costing_method = ''fifo'', cf_tz = ''Asia/Jakarta'', cf_payroll_policy = Object [], cf_presence_policy = Object [],
     cf_alien_id_changed = None, cf_capabilities = Object [], cf_assistant_bot_iid = None, cf_created_ts = now, cf_updated_ts = now,
     cf_deleted = False \<rparr>"

definition config_ensure :: "datetime \<Rightarrow> i64 \<Rightarrow> i64 \<Rightarrow> web \<Rightarrow> web" where
  "config_ensure now site owner s = (let z = x_access s in
     s\<lparr> x_access := z\<lparr> z_config := upsert (\<lambda>c. cf_site_iid c = site) (\<lambda>c. c) (config_new now site owner) (z_config z) \<rparr> \<rparr>)"

definition config_set :: "(ConfigRow \<Rightarrow> ConfigRow) \<Rightarrow> datetime \<Rightarrow> i64 \<Rightarrow> i64 \<Rightarrow> web \<Rightarrow> web" where
  "config_set f now site owner s = (let z = x_access s in
     s\<lparr> x_access := z\<lparr> z_config := upsert (\<lambda>c. cf_site_iid c = site) (\<lambda>c. (f c)\<lparr> cf_updated_ts := now \<rparr>)
         (f (config_new now site owner)) (z_config z) \<rparr> \<rparr>)"

definition draft_store :: "datetime \<Rightarrow> i64 \<Rightarrow> i64 \<Rightarrow> Value \<Rightarrow> web \<Rightarrow> web" where
  "draft_store now site owner doc_json s = s\<lparr> x_draft :=
     upsert (\<lambda>d. dr_site_iid d = site)
       (\<lambda>d. d\<lparr> dr_doc_json := doc_json, dr_owner_iid := owner, dr_updated_ts := now, dr_deleted_ts := None \<rparr>)
       \<lparr> dr_site_iid = site, dr_owner_iid = owner, dr_doc_json = doc_json, dr_created_ts = now, dr_updated_ts = now, dr_deleted_ts = None \<rparr>
       (x_draft s) \<rparr>"

definition draft_row :: "web \<Rightarrow> i64 \<Rightarrow> DraftRow option" where
  "draft_row s site = find (\<lambda>d. dr_site_iid d = site \<and> dr_deleted_ts d = None) (x_draft s)"

definition site_draft_ensure_product_grid :: "wenv \<Rightarrow> web \<Rightarrow> i64 \<Rightarrow> i64 \<Rightarrow> (string + bool) \<times> web" where
  "site_draft_ensure_product_grid e s caller site =
     (if site \<le>s 0 then (Inr False, s)
      else if \<not> site_capability_enabled (site_capabilities_get (x_access s) site) ''commerce'' then (Inr False, s)
      else if \<not> site_has_sellable_products s site then (Inr False, s)
      else case site_grant_check (x_access s) caller site True of Inl _ \<Rightarrow> (Inr False, s) | Inr owner \<Rightarrow>
        let doc_json = (case draft_row s site of Some d \<Rightarrow> dr_doc_json d | None \<Rightarrow> EMPTY_DOC);
            (changed, doc) = site_doc_ensure_product_grid (we_text e) (site_doc_from_json (we_text e) doc_json)
        in if \<not> changed then (Inr False, s)
           else case site_doc_validate (we_text e) doc of Inl err \<Rightarrow> (Inl err, s) | Inr _ \<Rightarrow>
             let now = p_now (we_env e); s1 = config_ensure now site owner s
             in case we_jsonb e (site_doc_to_json (we_text e) doc) of
                  None \<Rightarrow> (Inl ''bad json'', s1)
                | Some stored \<Rightarrow> (Inr True, draft_store now site owner stored s1))"

definition site_draft_put :: "wenv \<Rightarrow> web \<Rightarrow> i64 \<Rightarrow> SiteDraft option \<Rightarrow> bool \<Rightarrow> (string + i64) \<times> web \<times> SiteDraft list" where
  "site_draft_put e s caller req out =
     (case req of None \<Rightarrow> (Inl ''draft required'', s, []) | Some draft \<Rightarrow>
      let site = dt_site_iid draft
      in if site \<le>s 0 then (Inl ''site_iid required'', s, [])
         else case site_grant_check (x_access s) caller site True of Inl err \<Rightarrow> (Inl err, s, []) | Inr owner \<Rightarrow>
         case dt_doc draft of None \<Rightarrow> (Inl ''doc required'', s, []) | Some doc \<Rightarrow>
         let doc = (if site_capability_enabled (site_capabilities_get (x_access s) site) ''commerce'' \<and> site_has_sellable_products s site
                    then snd (site_doc_ensure_product_grid (we_text e) doc) else doc)
         in case site_doc_validate (we_text e) doc of Inl err \<Rightarrow> (Inl err, s, []) | Inr _ \<Rightarrow>
            case we_jsonb e (site_doc_to_json (we_text e) doc) of None \<Rightarrow> (Inl ''bad json'', s, []) | Some doc_json \<Rightarrow>
            let now = p_now (we_env e)
            in (Inr site, draft_store now site owner doc_json (config_ensure now site owner s),
                if out then [\<lparr> dt_site_iid = site, dt_owner_iid = owner, dt_doc = Some doc, dt_created_ts_ms = 0,
                   dt_updated_ts_ms = timestamp_millis (p_clock (we_env e)) (fst (utc_now (we_env e) (call_start (sh_conn (x_shop s))))),
                   dt_deleted_ts_ms = 0 \<rparr>] else []))"

section \<open>The status of a draft\<close>

definition site_draft_render_hash :: "wenv \<Rightarrow> web \<Rightarrow> i64 \<Rightarrow> Value \<Rightarrow> string + string" where
  "site_draft_render_hash e s site doc_json =
     map_sum id (render_bundle_hash e) (publish_doc_render e s site doc_json (site_name_for_render s site))"

definition DRAFT_RENDER_HASH_CACHE_MAX :: nat where "DRAFT_RENDER_HASH_CACHE_MAX = 256"

definition site_draft_render_hash_cached :: "wenv \<Rightarrow> web \<Rightarrow> i64 \<Rightarrow> Value \<Rightarrow> i64 \<Rightarrow> (string + string) \<times> web" where
  "site_draft_render_hash_cached e s site doc_json draft_updated_ts_ms =
     (case (if 0 <s draft_updated_ts_ms then map_of (x_hashes s) (site, draft_updated_ts_ms) else None) of
        Some hit \<Rightarrow> (Inr hit, s)
      | None \<Rightarrow>
        (case site_draft_render_hash e s site doc_json of Inl err \<Rightarrow> (Inl err, s) | Inr hash \<Rightarrow>
           (Inr hash, if 0 <s draft_updated_ts_ms
              then s\<lparr> x_hashes := hm_insert (site, draft_updated_ts_ms) hash
                        (if DRAFT_RENDER_HASH_CACHE_MAX \<le> length (x_hashes s) then [] else x_hashes s) \<rparr>
              else s)))"

definition active_row :: "i64 \<Rightarrow> PublishRow \<Rightarrow> bool" where
  "active_row site p \<longleftrightarrow> pb_site_iid p = site \<and> pb_is_active p \<and> \<not> pb_deleted p"

definition active_publish_render_hash :: "web \<Rightarrow> i64 \<Rightarrow> string" where
  "active_publish_render_hash s site = unwrap_or [] (map_option pb_render_hash (find (active_row site) (z_publish (x_access s))))"

definition site_publish_pending_for_draft :: "wenv \<Rightarrow> web \<Rightarrow> i64 \<Rightarrow> Value \<Rightarrow> i64 \<Rightarrow> (string + bool \<times> string \<times> string) \<times> web" where
  "site_publish_pending_for_draft e s site doc_json draft_updated_ts_ms =
     (let published_render_hash = active_publish_render_hash s site
      in case site_draft_render_hash_cached e s site doc_json draft_updated_ts_ms of
           (Inl err, s) \<Rightarrow> (Inl err, s)
         | (Inr draft_render_hash, s) \<Rightarrow>
             (Inr (if published_render_hash = [] then True else draft_render_hash \<noteq> published_render_hash,
                   draft_render_hash, published_render_hash), s))"

record SiteConfig =
  sc_site_iid :: i64
  sc_owner_iid :: i64
  sc_published_version_id :: string
  sc_inventory_costing_method :: string
  sc_tz :: string
  sc_payroll_policy_json :: string
  sc_presence_policy_json :: string
  sc_capabilities_json :: string
  sc_assistant_bot_iid :: i64
  sc_alien_id_changed_ts_ms :: i64
  sc_created_ts_ms :: i64
  sc_updated_ts_ms :: i64
  sc_deleted_ts_ms :: i64

definition config_row :: "web \<Rightarrow> i64 \<Rightarrow> ConfigRow option" where
  "config_row s site = find (\<lambda>c. cf_site_iid c = site \<and> \<not> cf_deleted c) (z_config (x_access s))"

definition config_from_row :: "wenv \<Rightarrow> ConfigRow \<Rightarrow> SiteConfig" where
  "config_from_row e r = (let ck = p_clock (we_env e) in
     \<lparr> sc_site_iid = cf_site_iid r, sc_owner_iid = cf_owner_iid r, sc_published_version_id = unwrap_or [] (cf_published_version_id r),
       sc_inventory_costing_method = cf_inventory_costing_method r, sc_tz = cf_tz r,
       sc_payroll_policy_json = p_to_string (we_env e) (cf_payroll_policy r),
       sc_presence_policy_json = p_to_string (we_env e) (cf_presence_policy r),
       sc_capabilities_json = p_to_string (we_env e) (cf_capabilities r), sc_assistant_bot_iid = unwrap_or 0 (cf_assistant_bot_iid r),
       sc_alien_id_changed_ts_ms = ts_ms ck (cf_alien_id_changed r), sc_created_ts_ms = ts_ms ck (Some (cf_created_ts r)),
       sc_updated_ts_ms = ts_ms ck (Some (cf_updated_ts r)), sc_deleted_ts_ms = 0 \<rparr>)"

record ResSiteDraftGet =
  dg_draft :: SiteDraft
  dg_config :: SiteConfig
  dg_publish_pending :: bool
  dg_draft_render_hash :: string
  dg_published_render_hash :: string

definition site_draft_get :: "wenv \<Rightarrow> web \<Rightarrow> i64 \<Rightarrow> i64 \<Rightarrow> bool \<Rightarrow> (string + ResSiteDraftGet) \<times> web" where
  "site_draft_get e s caller site skip_publish_status =
     (case site_grant_check (x_access s) caller site False of Inl err \<Rightarrow> (Inl err, s) | Inr owner \<Rightarrow>
      let ck = p_clock (we_env e);
          (doc_json, draft) = (case draft_row s site of
              Some r \<Rightarrow> (dr_doc_json r, \<lparr> dt_site_iid = dr_site_iid r, dt_owner_iid = dr_owner_iid r,
                 dt_doc = Some (site_doc_from_json (we_text e) (dr_doc_json r)), dt_created_ts_ms = ts_ms ck (Some (dr_created_ts r)),
                 dt_updated_ts_ms = ts_ms ck (Some (dr_updated_ts r)), dt_deleted_ts_ms = ts_ms ck (dr_deleted_ts r) \<rparr>)
            | None \<Rightarrow> (EMPTY_DOC, \<lparr> dt_site_iid = site, dt_owner_iid = owner, dt_doc = Some (site_doc_from_json (we_text e) EMPTY_DOC),
                 dt_created_ts_ms = 0, dt_updated_ts_ms = 0, dt_deleted_ts_ms = 0 \<rparr>))
      in case (if skip_publish_status then (Inr (False, [], []), s)
               else site_publish_pending_for_draft e s site doc_json (dt_updated_ts_ms draft)) of
           (Inl err, s) \<Rightarrow> (Inl err, s)
         | (Inr (pending, draft_hash, published_hash), s) \<Rightarrow>
             (Inr \<lparr> dg_draft = draft,
                dg_config = (case config_row s site of Some r \<Rightarrow> config_from_row e r
                  | None \<Rightarrow> \<lparr> sc_site_iid = site, sc_owner_iid = owner, sc_published_version_id = [], sc_inventory_costing_method = [],
                      sc_tz = [], sc_payroll_policy_json = [], sc_presence_policy_json = [], sc_capabilities_json = [],
                      sc_assistant_bot_iid = 0, sc_alien_id_changed_ts_ms = 0, sc_created_ts_ms = 0, sc_updated_ts_ms = 0, sc_deleted_ts_ms = 0 \<rparr>),
                dg_publish_pending = pending, dg_draft_render_hash = draft_hash, dg_published_render_hash = published_hash \<rparr>, s))"

definition site_config_put :: "wenv \<Rightarrow> web \<Rightarrow> i64 \<Rightarrow> i64 \<Rightarrow> string \<Rightarrow> bool \<Rightarrow> (string + SiteConfig) \<times> web \<times> SiteConfig list" where
  "site_config_put e s caller site capabilities_json out =
     (if site \<le>s 0 then (Inl ''site_iid required'', s, [])
      else case site_grant_check (x_access s) caller site True of Inl err \<Rightarrow> (Inl err, s, []) | Inr owner \<Rightarrow>
        let caps_raw = trim capabilities_json
        in if caps_raw = [] then (Inl ''capabilities_json required'', s, [])
           else case p_from_str (we_env e) caps_raw of Inl err \<Rightarrow> (Inl (''invalid capabilities_json: '' @ err), s, []) | Inr caps \<Rightarrow>
           case we_jsonb e caps of None \<Rightarrow> (Inl ''bad json'', s, []) | Some stored \<Rightarrow>
           let s = config_set (\<lambda>c. c\<lparr> cf_capabilities := stored \<rparr>) (p_now (we_env e)) site owner s
           in case config_row s site of None \<Rightarrow> (Inl ''no rows returned'', s, []) | Some r \<Rightarrow>
              (Inr (config_from_row e r), s, if out then [config_from_row e r] else []))"

section \<open>Publishing\<close>

definition GUEST_RENDERER_VERSION :: i32 where "GUEST_RENDERER_VERSION = 11"

definition guest_renderer_version_effective :: "web \<Rightarrow> string + i32" where
  "guest_renderer_version_effective s =
     (case x_generation s of None \<Rightarrow> Inr GUEST_RENDERER_VERSION
      | Some None \<Rightarrow> Inl ''unexpected null''
      | Some (Some v) \<Rightarrow> Inr (smax v GUEST_RENDERER_VERSION))"

definition guest_renderer_sync_config :: "web \<Rightarrow> web" where
  "guest_renderer_sync_config s = s\<lparr> x_generation :=
     (case x_generation s of Some (Some v) \<Rightarrow> Some (Some (if v <s GUEST_RENDERER_VERSION then GUEST_RENDERER_VERSION else v))
      | _ \<Rightarrow> Some (Some GUEST_RENDERER_VERSION)) \<rparr>"

text \<open>\<open>site_publish_from_draft\<close> reads and renders the draft, and then writes in one transaction: the active
  version is retired, the new one inserted and activated, the configuration pointed to it and the pages stored.\<close>

record Prepared =
  pp_site :: i64
  pp_owner_iid :: i64
  pp_doc_json :: Value
  pp_version_id :: string
  pp_pages :: "(string \<times> string) list"
  pp_bundle_hash :: string
  pp_guest_render_version :: i32
  pp_published_ts :: datetime

definition publish_prepare :: "wenv \<Rightarrow> web \<Rightarrow> i64 \<Rightarrow> i64 \<Rightarrow> string + Prepared" where
  "publish_prepare e s caller site =
     (case site_grant_check (x_access s) caller site True of Inl err \<Rightarrow> Inl err | Inr owner \<Rightarrow>
      case draft_row s site of None \<Rightarrow> Inl ''draft not found'' | Some d \<Rightarrow>
      let (i, c) = snowflake_draw (we_env e) (call_start (sh_conn (x_shop s)))
      in case publish_doc_render e s site (dr_doc_json d) (site_name_for_render s site) of Inl err \<Rightarrow> Inl err | Inr pages \<Rightarrow>
         case guest_renderer_version_effective s of Inl err \<Rightarrow> Inl err | Inr version \<Rightarrow>
         Inr \<lparr> pp_site = site, pp_owner_iid = owner, pp_doc_json = dr_doc_json d, pp_version_id = CHR ''v'' # show_i64 i, pp_pages = pages,
            pp_bundle_hash = render_bundle_hash e pages, pp_guest_render_version = version, pp_published_ts = fst (utc_now (we_env e) c) \<rparr>)"

definition publish_retire :: "i64 \<Rightarrow> web \<Rightarrow> web" where
  "publish_retire site s = (let z = x_access s in
     s\<lparr> x_access := z\<lparr> z_publish := map (\<lambda>p. if active_row site p then p\<lparr> pb_is_active := False \<rparr> else p) (z_publish z) \<rparr> \<rparr>)"

definition render_store :: "wenv \<Rightarrow> i64 \<Rightarrow> (string \<times> string) list \<Rightarrow> RenderRow list \<Rightarrow> RenderRow list" where
  "render_store e site pages rows = fold (\<lambda>(key, html).
     upsert (\<lambda>r. rn_site_iid r = site \<and> rn_render_key r = key) (\<lambda>r. r\<lparr> rn_body := Some html, rn_etag := render_etag e html \<rparr>)
       \<lparr> rn_site_iid = site, rn_render_key = key, rn_content_type = ''text/html; charset=utf-8'', rn_body = Some html,
         rn_etag = render_etag e html \<rparr>) pages rows"

definition publish_insert :: "wenv \<Rightarrow> Prepared \<Rightarrow> web \<Rightarrow> string + web" where
  "publish_insert e p s =
     (let site = pp_site p; z = x_access s
      in if list_ex (\<lambda>q. pb_site_iid q = site \<and> pb_version_id q = pp_version_id p) (z_publish z) then Inl ''duplicate key''
         else let s = s\<lparr> x_access := z\<lparr> z_publish := z_publish z @ [\<lparr> pb_site_iid = site, pb_version_id = pp_version_id p,
                 pb_owner_iid = pp_owner_iid p, pb_doc_json = pp_doc_json p, pb_render_hash = pp_bundle_hash p,
                 pb_published_ts = pp_published_ts p, pb_is_active = True, pb_deleted = False \<rparr>] \<rparr> \<rparr>;
               s = config_set (\<lambda>c. c\<lparr> cf_published_version_id := Some (pp_version_id p),
                 cf_guest_render_version := pp_guest_render_version p \<rparr>) (p_now (we_env e)) site (pp_owner_iid p) s
              in Inr (s\<lparr> x_render := render_store e site (pp_pages p) (x_render s) \<rparr>))"

definition site_publish_from_draft :: "wenv \<Rightarrow> web \<Rightarrow> i64 \<Rightarrow> i64 \<Rightarrow> (string + Prepared) \<times> web" where
  "site_publish_from_draft e s caller site =
     (case publish_prepare e s caller site of Inl err \<Rightarrow> (Inl err, s) | Inr p \<Rightarrow>
      case publish_insert e p (publish_retire site s) of Inl err \<Rightarrow> (Inl err, s) | Inr s' \<Rightarrow> (Inr p, s'))"

record SitePublish =
  pu_site_iid :: i64
  pu_version_id :: string
  pu_doc :: "SiteDoc option"
  pu_render_hash :: string
  pu_published_ts_ms :: i64
  pu_is_active :: bool

definition site_publish :: "wenv \<Rightarrow> web \<Rightarrow> i64 \<Rightarrow> i64 \<Rightarrow> bool \<Rightarrow> (string + SitePublish) \<times> web \<times> SiteDraft list" where
  "site_publish e s caller site out =
     (case site_publish_from_draft e s caller site of (Inl err, s) \<Rightarrow> (Inl err, s, []) | (Inr p, s) \<Rightarrow>
      let doc = site_doc_from_json (we_text e) (pp_doc_json p);
          published_ts = fst (utc_now (we_env e) (snd (utc_now (we_env e) (call_start (sh_conn (x_shop s))))));
          ms = timestamp_millis (p_clock (we_env e)) published_ts
      in (Inr \<lparr> pu_site_iid = site, pu_version_id = pp_version_id p, pu_doc = Some doc, pu_render_hash = pp_bundle_hash p,
                pu_published_ts_ms = ms, pu_is_active = True \<rparr>, s,
          if out then [\<lparr> dt_site_iid = site, dt_owner_iid = pp_owner_iid p, dt_doc = Some doc, dt_created_ts_ms = 0,
                         dt_updated_ts_ms = ms, dt_deleted_ts_ms = 0 \<rparr>] else []))"

definition render_get :: "web \<Rightarrow> i64 \<Rightarrow> string \<Rightarrow> (string \<times> string \<times> string) option" where
  "render_get s site render_key =
     map_option (\<lambda>r. (unwrap_or [] (rn_body r), rn_etag r, rn_content_type r))
       (find (\<lambda>r. rn_site_iid r = site \<and> rn_render_key r = render_key) (x_render s))"

section \<open>Stale pages\<close>

definition site_guest_render_version_stored :: "web \<Rightarrow> i64 \<Rightarrow> i32" where
  "site_guest_render_version_stored s site = unwrap_or 0 (map_option cf_guest_render_version (config_row s site))"

definition active_snapshot :: "web \<Rightarrow> i64 \<Rightarrow> PublishRow option" where
  "active_snapshot s site =
     (case sort_key (\<lambda>p. - pb_published_ts p) (filter (active_row site) (z_publish (x_access s))) of [] \<Rightarrow> None | p # _ \<Rightarrow> Some p)"

definition site_render_refresh_published_bundle :: "wenv \<Rightarrow> web \<Rightarrow> i64 \<Rightarrow> i32 \<Rightarrow> (string + unit) \<times> web" where
  "site_render_refresh_published_bundle e s site target_version =
     (case active_snapshot s site of None \<Rightarrow> (Inl ''published snapshot not found'', s) | Some p \<Rightarrow>
      case publish_doc_render e s site (pb_doc_json p) (site_name_for_render s site) of Inl err \<Rightarrow> (Inl err, s) | Inr pages \<Rightarrow>
      let bundle_hash = render_bundle_hash e pages; z = x_access s;
          s = s\<lparr> x_render := render_store e site pages (x_render s) \<rparr>;
          s = s\<lparr> x_access := z\<lparr> z_publish := map (\<lambda>q. if active_row site q then q\<lparr> pb_render_hash := bundle_hash \<rparr> else q) (z_publish z) \<rparr> \<rparr>
      in (Inr (), config_set (\<lambda>c. c\<lparr> cf_guest_render_version := target_version \<rparr>) (p_now (we_env e)) site (pb_owner_iid p) s))"

text \<open>Advisory locks belong to a connection: others cannot take the lock, the same can again, and only
  the holder can release it. Every query of the pool may use another connection; \<open>c\<close> takes the lock and \<open>c'\<close>
  is to release it.\<close>

definition pg_try_advisory_lock :: "nat \<Rightarrow> i64 \<Rightarrow> web \<Rightarrow> bool \<times> web" where
  "pg_try_advisory_lock c key s =
     (if list_ex (\<lambda>(d, k). k = key \<and> d \<noteq> c) (x_locks s) then (False, s) else (True, s\<lparr> x_locks := (c, key) # x_locks s \<rparr>))"

definition pg_advisory_unlock :: "nat \<Rightarrow> i64 \<Rightarrow> web \<Rightarrow> web" where
  "pg_advisory_unlock c key s = s\<lparr> x_locks := remove1 (c, key) (x_locks s) \<rparr>"

definition site_guest_render_ensure_current :: "wenv \<Rightarrow> nat \<Rightarrow> nat \<Rightarrow> web \<Rightarrow> i64 \<Rightarrow> (string + unit) \<times> web" where
  "site_guest_render_ensure_current e c c' s site =
     (case guest_renderer_version_effective s of Inl err \<Rightarrow> (Inl err, s) | Inr target \<Rightarrow>
      if target \<le>s site_guest_render_version_stored s site then (Inr (), s)
      else let (locked, s) = pg_try_advisory_lock c site s
      in if \<not> locked then (Inr (), s)
         else let (outcome, s) =
                (if target \<le>s site_guest_render_version_stored s site then (Inr (), s)
                 else site_render_refresh_published_bundle e s site target)
              in (outcome, pg_advisory_unlock c' site s))"

end
