(* ===== verification/Guest_Pages.thy ===== *)
theory Guest_Pages
  imports Site_Publish
begin

text \<open>
  The pages that guests get (\<open>http.rs\<close>, \<open>site_preview.rs\<close> and the look-up of \<open>site_publish.rs\<close> in
  \<open>servers/crates/mod_site/src\<close>): by the handle of a site, from the stored pages or, with \<open>?draft=1\<close>, rendered
  from the draft; and the tokens of previews. Parameters: whether the server renders live for development
  (an environment variable and a local host), and what is in \<open>wenv\<close>. Custom domains are not modelled.
\<close>

section \<open>Handles\<close>

definition guest_alien_id_key :: "wenv \<Rightarrow> string \<Rightarrow> string" where
  "guest_alien_id_key e alien_id = we_lower e (dropWhile (\<lambda>c. c = CHR ''@'') (trim alien_id))"

definition resolve_site_by_alien_id :: "wenv \<Rightarrow> web \<Rightarrow> string \<Rightarrow> string + i64" where
  "resolve_site_by_alien_id e s alien_id =
     (let key = guest_alien_id_key e alien_id; ids = z_identity (x_access s)
      in if key = [] then Inl ''site not found''
         else case find (\<lambda>i. id_kind i = ''site'' \<and> id_alien_id i = Some key \<and> \<not> id_deleted i) ids of
           Some i \<Rightarrow> Inr (id_id i)
         | None \<Rightarrow> (case parse_i64 key of None \<Rightarrow> Inl ''site not found'' | Some site \<Rightarrow>
             case find (\<lambda>i. id_kind i = ''site'' \<and> id_id i = site \<and> \<not> id_deleted i) ids of
               Some i \<Rightarrow> Inr (id_id i)
             | None \<Rightarrow> Inl ''site not found''))"

section \<open>Previews\<close>

definition DEFAULT_TTL_SECS :: i32 where "DEFAULT_TTL_SECS = 300"

definition sign_payload :: "wenv \<Rightarrow> i64 \<Rightarrow> i64 \<Rightarrow> string" where
  "sign_payload e site exp_ms = we_hmac e (show_i64 site @ '':'' @ show_i64 exp_ms)"

definition now_ms :: "wenv \<Rightarrow> web \<Rightarrow> i64" where
  "now_ms e s = timestamp_millis (p_clock (we_env e)) (fst (utc_now (we_env e) (call_start (sh_conn (x_shop s)))))"

definition site_preview_token_verify :: "wenv \<Rightarrow> web \<Rightarrow> i64 \<Rightarrow> string \<Rightarrow> string + bool" where
  "site_preview_token_verify e s site token =
     (case split_on (\<lambda>c. c = CHR '':'') token of
        [a, b, sig] \<Rightarrow>
          (case parse_i64 a of None \<Rightarrow> Inl ''invalid token site'' | Some tok_site \<Rightarrow>
           case parse_i64 b of None \<Rightarrow> Inl ''invalid token exp'' | Some exp_ms \<Rightarrow>
           if tok_site \<noteq> site then Inr False
           else if exp_ms \<le>s now_ms e s then Inr False
           else Inr (sign_payload e site exp_ms = sig))
      | _ \<Rightarrow> Inr False)"

definition site_preview_token_issue :: "wenv \<Rightarrow> web \<Rightarrow> i64 \<Rightarrow> i64 \<Rightarrow> i32 \<Rightarrow> string + string \<times> i64" where
  "site_preview_token_issue e s caller site ttl_secs =
     (case site_grant_check (x_access s) caller site False of Inl err \<Rightarrow> Inl err | Inr _ \<Rightarrow>
      let ttl = (if ttl_secs \<le>s 0 then DEFAULT_TTL_SECS else ttl_secs);
          exp_ms = now_ms e s + scast ttl * 1000
      in Inr (show_i64 site @ '':'' @ show_i64 exp_ms @ '':'' @ sign_payload e site exp_ms, exp_ms))"

definition site_published_html_render :: "wenv \<Rightarrow> web \<Rightarrow> i64 \<Rightarrow> string \<Rightarrow> string + string \<times> string" where
  "site_published_html_render e s site page_path =
     (case active_snapshot s site of None \<Rightarrow> Inl ''published snapshot not found'' | Some p \<Rightarrow>
      let doc = site_draft_prepare_commerce_grid_doc e s site (site_doc_from_json (we_text e) (pb_doc_json p));
          path = (if page_path = [] then ''/'' else page_path)
      in map_sum id (\<lambda>html. (html, render_etag e html)) (page_html_render e s site doc path (site_name_for_render s site) Published))"

text \<open>\<open>path.strip_prefix(prefix)\<close> and \<open>trim().parse::<i64>()\<close>, if it is positive.\<close>

definition id_under :: "string \<Rightarrow> string \<Rightarrow> i64 option" where
  "id_under prefix path =
     (if starts_with path prefix then (case parse_i64 (trim (drop (length prefix) path)) of
        Some i \<Rightarrow> if 0 <s i then Some i else None | None \<Rightarrow> None) else None)"

definition site_draft_html_render :: "wenv \<Rightarrow> web \<Rightarrow> i64 \<Rightarrow> string \<Rightarrow> string + string \<times> string" where
  "site_draft_html_render e s site page_path =
     (case draft_row s site of None \<Rightarrow> Inl ''draft not found'' | Some d \<Rightarrow>
      let site_name = site_name_for_render s site;
          path = (if page_path = [] then ''/'' else page_path);
          doc = site_draft_prepare_commerce_grid_doc e s site (site_doc_from_json (we_text e) (dr_doc_json d));
          found = (\<lambda>missing r. case r of Inl err \<Rightarrow> Inl err | Inr None \<Rightarrow> Inl missing | Inr (Some html) \<Rightarrow> Inr (html, render_etag e html))
      in case id_under ''/products/'' path of
           Some product \<Rightarrow> found ''product not found'' (product_detail_html_render e s site product site_name doc Draft)
         | None \<Rightarrow> (case id_under ''/posts/'' path of
             Some post \<Rightarrow> found ''post not found'' (post_detail_html_render e s site post site_name doc Draft)
           | None \<Rightarrow> map_sum id (\<lambda>html. (html, render_etag e html)) (page_html_render e s site doc path site_name Draft)))"

section \<open>Responses\<close>

text \<open>\<open>not_found_page\<close>, \<open>guest_busy_page\<close> (503), \<open>render_offline_html\<close> of a name (503), \<open>draft_response\<close> (200, not to be
  cached), \<open>render_response\<close> (200, cached for 30 seconds) and \<open>304\<close>.\<close>

datatype Response = NotFound | Busy | Offline string | DraftPage string string | StoredPage string string string | NotModified

definition RESERVED :: "string list" where
  "RESERVED = [''a'', ''fs'', ''static'', ''health'', ''privacy.html'', ''terms.html'', ''delete.html'', ''404.html'', ''index.html'',
     ''alien.svg'', ''favicon.ico'', ''.well-known'', ''v1'', ''api'', ''alienai'']"

definition draft_query_truthy :: "string \<Rightarrow> bool" where
  "draft_query_truthy v = (to_ascii_lowercase (trim v) \<in> {''1'', ''true'', ''yes''})"

definition is_draft_request :: "string option \<Rightarrow> bool" where
  "is_draft_request q = unwrap_or False (map_option draft_query_truthy q)"

definition render_key_to_page_path :: "string \<Rightarrow> string" where
  "render_key_to_page_path render_key =
     (if starts_with render_key ''html:'' then let p = drop 5 render_key in if p = [] then ''/'' else p else ''/'')"

definition serve_draft_html_page :: "wenv \<Rightarrow> web \<Rightarrow> i64 \<Rightarrow> string \<Rightarrow> Response" where
  "serve_draft_html_page e s site render_key =
     (case site_draft_html_render e s site (render_key_to_page_path render_key) of
        Inr (body, etag) \<Rightarrow> DraftPage body (trim etag) | Inl _ \<Rightarrow> Busy)"

definition trim_quotes :: "string \<Rightarrow> string" where
  "trim_quotes s = rev (dropWhile (\<lambda>c. c = CHR 0x22) (rev (dropWhile (\<lambda>c. c = CHR 0x22) s)))"

definition render_response :: "string \<Rightarrow> string \<Rightarrow> string \<Rightarrow> string option \<Rightarrow> Response" where
  "render_response body etag content_type if_none_match =
     (let etag = trim etag
      in if etag \<noteq> [] \<and> (case if_none_match of None \<Rightarrow> False
            | Some inm \<Rightarrow> list_ex (\<lambda>s. s = etag \<or> s = ''*'') (map (\<lambda>s. trim_quotes (trim s)) (split_on (\<lambda>c. c = CHR '','') inm)))
         then NotModified else StoredPage body etag content_type)"

text \<open>The query \<open>draft\<close> is missing when the request has no query string to look at. A refresh that fails is only logged.\<close>

definition serve_render_site ::
  "wenv \<Rightarrow> bool \<Rightarrow> nat \<Rightarrow> nat \<Rightarrow> web \<Rightarrow> i64 \<Rightarrow> string \<Rightarrow> string option \<Rightarrow> string option \<Rightarrow> Response \<times> web" where
  "serve_render_site e live c c' s site render_key if_none_match draft =
     (if is_draft_request draft then (serve_draft_html_page e s site render_key, s)
      else if \<not> site_published (x_access s) site
        then (Offline (case find (\<lambda>i. id_id i = site) (z_identity (x_access s)) of Some i \<Rightarrow> id_name i | None \<Rightarrow> ''Site''), s)
      else let s = (if live then s else snd (site_guest_render_ensure_current e c c' s site));
               stored = (case render_get s site render_key of
                  Some (body, etag, content_type) \<Rightarrow> render_response body etag content_type if_none_match | None \<Rightarrow> Busy)
           in if live then (case site_published_html_render e s site (render_key_to_page_path render_key) of
                Inr (body, etag) \<Rightarrow> (DraftPage body (trim etag), s) | Inl _ \<Rightarrow> (stored, s))
              else (stored, s))"

definition serve_render_path ::
  "wenv \<Rightarrow> bool \<Rightarrow> nat \<Rightarrow> nat \<Rightarrow> web \<Rightarrow> string \<Rightarrow> string \<Rightarrow> string option \<Rightarrow> string option \<Rightarrow> Response \<times> web" where
  "serve_render_path e live c c' s alien_id render_key if_none_match draft =
     (let key = guest_alien_id_key e alien_id
      in if key = [] \<or> list_ex (\<lambda>r. eq_ignore_ascii_case r key) RESERVED then (NotFound, s)
         else case resolve_site_by_alien_id e s key of
           Inr site \<Rightarrow> serve_render_site e live c c' s site render_key if_none_match draft
         | Inl err \<Rightarrow> (NotFound, s))"

text \<open>The render key of a path below a handle (\<open>guest_site_root\<close>, \<open>guest_site_path\<close>).\<close>

definition guest_render_key :: "string \<Rightarrow> string" where
  "guest_render_key path =
     (let page_path = (if starts_with path ''/'' then path else ''/'' @ path)
      in if page_path = ''/'' then ''html:/'' else ''html:'' @ page_path)"

end
