(* ===== verification/Publish_Store.thy ===== *)
theory Publish_Store
  imports Guest_Pages
begin

text \<open>
  Publication over histories: the calls of editors, guests and the server as a step relation, the invariant of the
  versions, and what a publish, a guest request and a refresh do to the stored pages.
\<close>

section \<open>Stored pages\<close>

abbreviation HTML :: string where "HTML \<equiv> ''text/html; charset=utf-8''"

definition stored :: "RenderRow list \<Rightarrow> i64 \<Rightarrow> string \<Rightarrow> (string \<times> string \<times> string) option" where
  "stored rows site key = map_option (\<lambda>r. (unwrap_or [] (rn_body r), rn_etag r, rn_content_type r))
     (find (\<lambda>r. rn_site_iid r = site \<and> rn_render_key r = key) rows)"

lemma render_get_stored: "render_get s site key = stored (x_render s) site key"
  by (simp add: render_get_def stored_def)

definition html_rows :: "RenderRow list \<Rightarrow> bool" where
  "html_rows rows \<longleftrightarrow> list_all (\<lambda>r. rn_content_type r = HTML) rows"

abbreviation page_upsert :: "wenv \<Rightarrow> i64 \<Rightarrow> string \<Rightarrow> string \<Rightarrow> RenderRow list \<Rightarrow> RenderRow list" where
  "page_upsert e site key html \<equiv> upsert (\<lambda>r. rn_site_iid r = site \<and> rn_render_key r = key)
     (\<lambda>r. r\<lparr> rn_body := Some html, rn_etag := render_etag e html \<rparr>)
     \<lparr> rn_site_iid = site, rn_render_key = key, rn_content_type = HTML, rn_body = Some html, rn_etag = render_etag e html \<rparr>"

lemma html_upsert: "html_rows rows \<Longrightarrow> html_rows (page_upsert e site key html rows)"
  by (auto simp: html_rows_def list_all_iff dest!: upsert_elem)

lemma stored_upsert:
  assumes "html_rows rows"
  shows "stored (page_upsert e site key html rows) site' k =
    (if site' = site \<and> k = key then Some (html, render_etag e html, HTML) else stored rows site' k)"
proof (cases "site' = site \<and> k = key")
  case True
  have "find (\<lambda>r. rn_site_iid r = site \<and> rn_render_key r = key) (page_upsert e site key html rows) =
      Some (case find (\<lambda>r. rn_site_iid r = site \<and> rn_render_key r = key) rows of
        None \<Rightarrow> \<lparr> rn_site_iid = site, rn_render_key = key, rn_content_type = HTML, rn_body = Some html, rn_etag = render_etag e html \<rparr>
      | Some q \<Rightarrow> q\<lparr> rn_body := Some html, rn_etag := render_etag e html \<rparr>)"
    by (rule find_upsert) simp_all
  moreover have "rn_content_type q = HTML" if "find (\<lambda>r. rn_site_iid r = site \<and> rn_render_key r = key) rows = Some q" for q
    using assms that by (auto simp: html_rows_def list_all_iff find_Some_iff)
  ultimately show ?thesis using True by (auto simp: stored_def split: option.split)
next
  case False
  have "find (\<lambda>r. rn_site_iid r = site' \<and> rn_render_key r = k) (page_upsert e site key html rows) =
      find (\<lambda>r. rn_site_iid r = site' \<and> rn_render_key r = k) rows"
    by (rule find_upsert_other) (use False in auto)
  then show ?thesis using False by (auto simp: stored_def)
qed

lemma render_store_Cons: "render_store e site ((key, html) # pages) rows = render_store e site pages (page_upsert e site key html rows)"
  by (simp add: render_store_def)

lemma html_store: "html_rows rows \<Longrightarrow> html_rows (render_store e site pages rows)"
proof (induction pages arbitrary: rows)
  case (Cons p pages)
  then show ?case by (cases p) (simp add: render_store_Cons html_upsert)
qed (simp add: render_store_def)

lemma render_store_stored:
  "html_rows rows \<Longrightarrow> stored (render_store e site pages rows) site' key =
     (case (if site' = site then map_of (rev pages) key else None) of
        Some html \<Rightarrow> Some (html, render_etag e html, HTML) | None \<Rightarrow> stored rows site' key)"
proof (induction pages arbitrary: rows)
  case (Cons p pages)
  obtain k html where p: "p = (k, html)" by (rule prod.exhaust)
  show ?case
    using Cons.IH [OF html_upsert [OF Cons.prems, where e = e and site = site and key = k and html = html]] Cons.prems
    by (cases "map_of (rev pages) key") (simp_all add: p render_store_Cons stored_upsert map_add_def)
qed (simp add: render_store_def)

section \<open>Frames\<close>

lemma config_ensure_frame [simp]:
  "x_shop (config_ensure now site owner s) = x_shop s" "x_draft (config_ensure now site owner s) = x_draft s"
  "x_render (config_ensure now site owner s) = x_render s" "x_post (config_ensure now site owner s) = x_post s"
  "x_generation (config_ensure now site owner s) = x_generation s" "x_hashes (config_ensure now site owner s) = x_hashes s"
  "x_locks (config_ensure now site owner s) = x_locks s"
  "z_publish (x_access (config_ensure now site owner s)) = z_publish (x_access s)"
  "z_identity (x_access (config_ensure now site owner s)) = z_identity (x_access s)"
  "z_grant (x_access (config_ensure now site owner s)) = z_grant (x_access s)"
  by (simp_all add: config_ensure_def Let_def)

lemma config_set_frame [simp]:
  "x_shop (config_set f now site owner s) = x_shop s" "x_draft (config_set f now site owner s) = x_draft s"
  "x_render (config_set f now site owner s) = x_render s" "x_post (config_set f now site owner s) = x_post s"
  "x_generation (config_set f now site owner s) = x_generation s" "x_hashes (config_set f now site owner s) = x_hashes s"
  "x_locks (config_set f now site owner s) = x_locks s" "x_linked (config_set f now site owner s) = x_linked s"
  "z_publish (x_access (config_set f now site owner s)) = z_publish (x_access s)"
  "z_identity (x_access (config_set f now site owner s)) = z_identity (x_access s)"
  "z_grant (x_access (config_set f now site owner s)) = z_grant (x_access s)"
  by (simp_all add: config_set_def Let_def)

lemma draft_store_frame [simp]:
  "x_shop (draft_store now site owner v s) = x_shop s" "x_access (draft_store now site owner v s) = x_access s"
  "x_render (draft_store now site owner v s) = x_render s" "x_post (draft_store now site owner v s) = x_post s"
  "x_generation (draft_store now site owner v s) = x_generation s" "x_hashes (draft_store now site owner v s) = x_hashes s"
  "x_locks (draft_store now site owner v s) = x_locks s"
  by (simp_all add: draft_store_def)

section \<open>Versions\<close>

text \<open>The versions of a site have distinct names and at most one is active, to which the configuration points;
  stored pages are HTML. No call deletes a configuration.\<close>

definition versions_ok :: "access \<Rightarrow> bool" where
  "versions_ok z \<longleftrightarrow> distinct (map (\<lambda>p. (pb_site_iid p, pb_version_id p)) (z_publish z)) \<and>
     (\<forall>site. length (filter (active_row site) (z_publish z)) \<le> 1) \<and>
     (\<forall>p\<in>set (z_publish z). active_row (pb_site_iid p) p \<longrightarrow>
        (\<exists>c\<in>set (z_config z). cf_site_iid c = pb_site_iid p \<and> cf_published_version_id c = Some (pb_version_id p))) \<and>
     distinct (map cf_site_iid (z_config z)) \<and> list_all (\<lambda>c. \<not> cf_deleted c) (z_config z)"

definition publish_inv :: "web \<Rightarrow> bool" where
  "publish_inv s \<longleftrightarrow> versions_ok (x_access s) \<and> html_rows (x_render s)"

text \<open>A configuration changes without its version.\<close>

definition same_versions :: "ConfigRow list \<Rightarrow> ConfigRow list \<Rightarrow> bool" where
  "same_versions cs cs' \<longleftrightarrow> distinct (map cf_site_iid cs') \<and> list_all (\<lambda>c. \<not> cf_deleted c) cs' \<and>
     (\<forall>c\<in>set cs. \<exists>c'\<in>set cs'. cf_site_iid c' = cf_site_iid c \<and> cf_published_version_id c' = cf_published_version_id c)"

lemma versions_config:
  "versions_ok z \<Longrightarrow> same_versions (z_config z) cs \<Longrightarrow> versions_ok (z\<lparr> z_config := cs \<rparr>)"
  unfolding versions_ok_def same_versions_def by (simp, metis)

lemma config_keys: "distinct (map cf_site_iid cs) \<Longrightarrow> (\<And>c. cf_site_iid (f c) = cf_site_iid c) \<Longrightarrow>
    distinct (map cf_site_iid (upsert (\<lambda>c. cf_site_iid c = site) (\<lambda>c. (f c)\<lparr> cf_updated_ts := now \<rparr>) (f (config_new now site owner)) cs))"
  by (rule upsert_keys) (auto simp: config_new_def)

lemma config_set_versions:
  assumes "versions_ok (x_access s)" "\<And>c. cf_site_iid (f c) = cf_site_iid c" "\<And>c. cf_deleted (f c) = cf_deleted c"
    "\<And>c. cf_published_version_id (f c) = cf_published_version_id c"
  shows "versions_ok (x_access (config_set f now site owner s))"
proof -
  let ?cs = "z_config (x_access s)"
  let ?cs' = "upsert (\<lambda>c. cf_site_iid c = site) (\<lambda>c. (f c)\<lparr> cf_updated_ts := now \<rparr>) (f (config_new now site owner)) ?cs"
  have "distinct (map cf_site_iid ?cs')" by (rule config_keys) (use assms in \<open>simp_all add: versions_ok_def\<close>)
  moreover have "list_all (\<lambda>c. \<not> cf_deleted c) ?cs'"
    using assms(1,3) by (auto simp: list_all_iff versions_ok_def config_new_def dest!: upsert_elem)
  moreover have "\<exists>c'\<in>set ?cs'. cf_site_iid c' = cf_site_iid c \<and> cf_published_version_id c' = cf_published_version_id c" if "c \<in> set ?cs" for c
    by (rule upsert_related [OF that]) (simp_all add: assms(2,4))
  ultimately have "same_versions ?cs ?cs'" by (simp add: same_versions_def)
  then show ?thesis using versions_config [OF assms(1)] by (simp add: config_set_def Let_def)
qed

lemma config_ensure_versions:
  assumes "versions_ok (x_access s)"
  shows "versions_ok (x_access (config_ensure now site owner s))"
proof -
  let ?cs = "z_config (x_access s)"
  let ?cs' = "upsert (\<lambda>c. cf_site_iid c = site) (\<lambda>c. c) (config_new now site owner) ?cs"
  have "distinct (map cf_site_iid ?cs')"
    by (rule upsert_keys) (use assms in \<open>auto simp: versions_ok_def config_new_def\<close>)
  moreover have "list_all (\<lambda>c. \<not> cf_deleted c) ?cs'"
    using assms by (auto simp: list_all_iff versions_ok_def config_new_def dest!: upsert_elem)
  moreover have "\<exists>c'\<in>set ?cs'. cf_site_iid c' = cf_site_iid c \<and> cf_published_version_id c' = cf_published_version_id c" if "c \<in> set ?cs" for c
    by (rule upsert_related [OF that]) simp_all
  ultimately have "same_versions ?cs ?cs'" by (simp add: same_versions_def)
  then show ?thesis using versions_config [OF assms] by (simp add: config_ensure_def Let_def)
qed

section \<open>A publish\<close>

lemma publish_from_draft_success:
  assumes "site_publish_from_draft e s caller site = (Inr p, s')"
  obtains owner d pages where "site_grant_check (x_access s) caller site True = Inr owner" "draft_row s site = Some d"
    "publish_doc_render e s site (dr_doc_json d) (site_name_for_render s site) = Inr pages"
    "guest_renderer_version_effective s = Inr (pp_guest_render_version p)"
    "pp_site p = site" "pp_owner_iid p = owner" "pp_doc_json p = dr_doc_json d" "pp_pages p = pages"
    "pp_bundle_hash p = render_bundle_hash e pages" "publish_insert e p (publish_retire site s) = Inr s'"
  using assms by (auto simp: site_publish_from_draft_def publish_prepare_def Let_def split: sum.splits option.splits prod.splits)

definition version_row :: "Prepared \<Rightarrow> PublishRow" where
  "version_row p = \<lparr> pb_site_iid = pp_site p, pb_version_id = pp_version_id p, pb_owner_iid = pp_owner_iid p,
     pb_doc_json = pp_doc_json p, pb_render_hash = pp_bundle_hash p, pb_published_ts = pp_published_ts p, pb_is_active = True,
     pb_deleted = False \<rparr>"

abbreviation retire :: "i64 \<Rightarrow> PublishRow \<Rightarrow> PublishRow" where
  "retire site q \<equiv> if active_row site q then q\<lparr> pb_is_active := False \<rparr> else q"

abbreviation point_to :: "Prepared \<Rightarrow> ConfigRow \<Rightarrow> ConfigRow" where
  "point_to p \<equiv> (\<lambda>c. c\<lparr> cf_published_version_id := Some (pp_version_id p), cf_guest_render_version := pp_guest_render_version p \<rparr>)"

lemma publish_insert_success:
  assumes "publish_insert e p s = Inr s'"
  shows "\<forall>q\<in>set (z_publish (x_access s)). \<not> (pb_site_iid q = pp_site p \<and> pb_version_id q = pp_version_id p)"
    and "s' = (config_set (point_to p) (p_now (we_env e)) (pp_site p) (pp_owner_iid p)
           (s\<lparr> x_access := (x_access s)\<lparr> z_publish := z_publish (x_access s) @ [version_row p] \<rparr> \<rparr>))
         \<lparr> x_render := render_store e (pp_site p) (pp_pages p) (x_render s) \<rparr>"
  using assms by (auto simp: publish_insert_def Let_def version_row_def list_ex_iff split: if_splits)

lemma active_retire: "active_row k (retire site q) \<longleftrightarrow> active_row k q \<and> k \<noteq> site"
  by (auto simp: active_row_def)

lemma retire_other: "active_row k q \<Longrightarrow> k \<noteq> site \<Longrightarrow> retire site q = q"
  by (auto simp: active_row_def)

lemma retire_active: "filter (active_row k) (map (retire site) ps) = (if k = site then [] else filter (active_row k) ps)"
proof (induction ps)
  case (Cons q ps)
  have "filter (active_row k) (map (retire site) (q # ps)) =
      (if active_row k q \<and> k \<noteq> site then retire site q # filter (active_row k) (map (retire site) ps)
       else filter (active_row k) (map (retire site) ps))"
    by (simp only: list.map filter.simps active_retire)
  with Cons.IH retire_other [of k q site] show ?case by (simp only:) (simp split: if_split)
qed simp

lemma retire_keys: "map (\<lambda>p. (pb_site_iid p, pb_version_id p)) (map (retire site) ps) = map (\<lambda>p. (pb_site_iid p, pb_version_id p)) ps"
  by (induction ps) auto

lemma publish_insert_versions:
  assumes "versions_ok (x_access s)" "publish_insert e p s = Inr s'" "filter (active_row (pp_site p)) (z_publish (x_access s)) = []"
  shows "versions_ok (x_access s')"
proof -
  let ?z = "x_access s" let ?site = "pp_site p"
  let ?cs = "upsert (\<lambda>c. cf_site_iid c = ?site) (\<lambda>c. (point_to p c)\<lparr> cf_updated_ts := p_now (we_env e) \<rparr>)
    (point_to p (config_new (p_now (we_env e)) ?site (pp_owner_iid p))) (z_config ?z)"
  note new = publish_insert_success [OF assms(2)]
  have z': "z_publish (x_access s') = z_publish ?z @ [version_row p]" "z_config (x_access s') = ?cs"
    by (simp_all add: new(2) config_set_def Let_def)
  have a: "active_row k (version_row p) \<longleftrightarrow> k = ?site" for k by (auto simp: active_row_def version_row_def)
  have "distinct (map (\<lambda>p. (pb_site_iid p, pb_version_id p)) (z_publish (x_access s')))"
    using assms(1) new(1) by (auto simp: z' versions_ok_def version_row_def)
  moreover have "length (filter (active_row k) (z_publish (x_access s'))) \<le> 1" for k
    using assms(1,3) a by (cases "k = ?site") (simp_all add: z' versions_ok_def)
  moreover have "\<exists>c\<in>set ?cs. cf_site_iid c = pb_site_iid q \<and> cf_published_version_id c = Some (pb_version_id q)"
    if q: "q \<in> set (z_publish (x_access s'))" "active_row (pb_site_iid q) q" for q
  proof (cases "pb_site_iid q = ?site")
    case True
    have "q \<notin> set (z_publish ?z)" using assms(3) q(2) True by (auto simp: filter_empty_conv)
    then have "q = version_row p" using q(1) by (simp add: z')
    then show ?thesis by (intro upsert_hit) (simp_all add: version_row_def config_new_def)
  next
    case False
    then have "q \<in> set (z_publish ?z)" using q(1) by (auto simp: z' version_row_def)
    then obtain c where c: "c \<in> set (z_config ?z)" "cf_site_iid c = pb_site_iid q" "cf_published_version_id c = Some (pb_version_id q)"
      using assms(1) q(2) unfolding versions_ok_def by blast
    then have "c \<in> set ?cs" using False by (intro upsert_other) simp_all
    with c show ?thesis by blast
  qed
  moreover have "distinct (map cf_site_iid ?cs)" by (rule config_keys) (use assms(1) in \<open>simp_all add: versions_ok_def\<close>)
  moreover have "list_all (\<lambda>c. \<not> cf_deleted c) ?cs"
    using assms(1) by (auto simp: list_all_iff versions_ok_def config_new_def dest!: upsert_elem)
  ultimately show ?thesis unfolding versions_ok_def z' by blast
qed

lemma retire_versions:
  assumes "versions_ok (x_access s)"
  shows "versions_ok (x_access (publish_retire site s))"
proof -
  have "length (filter (active_row k) (map (retire site) (z_publish (x_access s)))) \<le> 1" for k
    using assms unfolding retire_active versions_ok_def by simp
  moreover have "active_row (pb_site_iid q) q \<Longrightarrow> q \<in> set (map (retire site) ps) \<Longrightarrow> q \<in> set ps" for q ps
    by (auto simp: active_row_def split: if_splits)
  ultimately show ?thesis using assms unfolding versions_ok_def publish_retire_def Let_def by (simp add: retire_keys del: map_map) blast
qed

section \<open>Histories\<close>

text \<open>A version keeps its document, and once retired it is never active again; a stored page stays stored.\<close>

definition version_kept :: "PublishRow \<Rightarrow> PublishRow \<Rightarrow> bool" where
  "version_kept p p' \<longleftrightarrow> pb_site_iid p' = pb_site_iid p \<and> pb_version_id p' = pb_version_id p \<and> pb_owner_iid p' = pb_owner_iid p \<and>
     pb_doc_json p' = pb_doc_json p \<and> pb_published_ts p' = pb_published_ts p \<and> (pb_is_active p' \<longrightarrow> pb_is_active p)"

definition versions_kept :: "PublishRow list \<Rightarrow> PublishRow list \<Rightarrow> bool" where
  "versions_kept ps ps' \<longleftrightarrow> (\<forall>p\<in>set ps. \<exists>p'\<in>set ps'. version_kept p p')"

definition web_next :: "web \<Rightarrow> web \<Rightarrow> bool" where
  "web_next s s' \<longleftrightarrow> (publish_inv s \<longrightarrow> publish_inv s' \<and>
     (\<forall>site key. render_get s site key \<noteq> None \<longrightarrow> render_get s' site key \<noteq> None) \<and>
     versions_kept (z_publish (x_access s)) (z_publish (x_access s')))"

text \<open>The calls that reach these tables: those of editors, a guest request (by handle or for a known site), the start of a
  server, and \<open>elsewhere\<close>, whatever other components do to the catalogue, the drafts, the linked rows, the identities, the
  grants and the other columns of the configuration.\<close>

inductive web_step :: "web \<Rightarrow> web \<Rightarrow> bool" where
  put_post: "web_step s (snd (site_post_put e s caller site req))"
| delete_post: "web_step s (snd (site_post_delete e s caller site post))"
| put_draft: "web_step s (fst (snd (site_draft_put e s caller draft out)))"
| ensure_grid: "web_step s (snd (site_draft_ensure_product_grid e s caller site))"
| get_draft: "web_step s (snd (site_draft_get e s caller site skip))"
| put_config: "web_step s (fst (snd (site_config_put e s caller site json out)))"
| publish: "web_step s (fst (snd (site_publish e s caller site out)))"
| guest_site: "web_step s (snd (serve_render_site e live c c' s site key inm draft))"
| guest_path: "web_step s (snd (serve_render_path e live c c' s alien_id key inm draft))"
| start: "web_step s (guest_renderer_sync_config s)"
| elsewhere: "same_versions (z_config (x_access s)) cs \<Longrightarrow>
    web_step s (s\<lparr> x_shop := sh, x_draft := ds, x_linked := ln, x_access := (x_access s)\<lparr> z_identity := ids, z_grant := gs, z_config := cs \<rparr> \<rparr>)"

lemma version_kept_refl [simp]: "version_kept p p"
  by (simp add: version_kept_def)

lemma versions_kept_refl [simp]: "versions_kept ps ps"
  using version_kept_refl unfolding versions_kept_def by blast

lemma versions_kept_map: "(\<And>p. version_kept p (f p)) \<Longrightarrow> versions_kept ps (map f ps)"
  by (auto simp: versions_kept_def)

lemma versions_kept_trans: "versions_kept ps qs \<Longrightarrow> versions_kept qs rs \<Longrightarrow> versions_kept ps rs"
  unfolding versions_kept_def version_kept_def by metis

lemma versions_kept_append: "versions_kept ps qs \<Longrightarrow> versions_kept ps (qs @ rs)"
  by (auto simp: versions_kept_def)

lemma web_next_refl [simp]: "web_next s s"
  by (simp add: web_next_def)

lemma web_next_trans: "web_next s t \<Longrightarrow> web_next t u \<Longrightarrow> web_next s u"
  unfolding web_next_def using versions_kept_trans by blast

lemma web_next_frame:
  assumes "versions_ok (x_access s) \<Longrightarrow> versions_ok (x_access s')" "z_publish (x_access s') = z_publish (x_access s)" "x_render s' = x_render s"
  shows "web_next s s'"
  using assms by (simp add: web_next_def publish_inv_def render_get_stored)

lemma posts_next: "x_access s' = x_access s \<Longrightarrow> x_render s' = x_render s \<Longrightarrow> web_next s s'"
  by (rule web_next_frame) simp_all

lemma draft_next: "web_next s (draft_store now site owner v (config_ensure now site owner s))"
  by (rule web_next_frame) (simp_all add: config_ensure_versions)

lemma config_next: "(\<And>c. cf_site_iid (f c) = cf_site_iid c) \<Longrightarrow> (\<And>c. cf_deleted (f c) = cf_deleted c) \<Longrightarrow>
    (\<And>c. cf_published_version_id (f c) = cf_published_version_id c) \<Longrightarrow> web_next s (config_set f now site owner s)"
  by (rule web_next_frame) (simp_all add: config_set_versions)

lemma ensure_next: "web_next s (config_ensure now site owner s)"
  by (rule web_next_frame) (simp_all add: config_ensure_versions)

lemma render_next: "web_next s (s\<lparr> x_render := render_store e site pages (x_render s) \<rparr>)"
  by (auto simp: web_next_def publish_inv_def html_store render_get_stored render_store_stored split: option.split)

lemma draft_put_next: "web_next s (fst (snd (site_draft_put e s caller req out)))"
  by (auto simp: site_draft_put_def Let_def draft_next split: option.split sum.split)

lemma ensure_grid_next: "web_next s (snd (site_draft_ensure_product_grid e s caller site))"
  by (auto simp: site_draft_ensure_product_grid_def Let_def draft_next ensure_next split: option.split sum.split prod.split)

lemma hash_cached_next: "web_next s (snd (site_draft_render_hash_cached e s site v u))"
  by (auto simp: site_draft_render_hash_cached_def posts_next split: option.split sum.split)

lemma draft_get_next: "web_next s (snd (site_draft_get e s caller site skip))"
proof -
  have p: "web_next s (snd (site_publish_pending_for_draft e s site v u))" for v u
    using hash_cached_next [of s e site v u]
    by (cases "site_draft_render_hash_cached e s site v u") (auto simp: site_publish_pending_for_draft_def Let_def split: sum.split)
  show ?thesis
  proof (cases "site_grant_check (x_access s) caller site False")
    case (Inr owner)
    obtain v d where vd: "(case draft_row s site of
              Some r \<Rightarrow> (dr_doc_json r, \<lparr> dt_site_iid = dr_site_iid r, dt_owner_iid = dr_owner_iid r,
                 dt_doc = Some (site_doc_from_json (we_text e) (dr_doc_json r)), dt_created_ts_ms = ts_ms (p_clock (we_env e)) (Some (dr_created_ts r)),
                 dt_updated_ts_ms = ts_ms (p_clock (we_env e)) (Some (dr_updated_ts r)), dt_deleted_ts_ms = ts_ms (p_clock (we_env e)) (dr_deleted_ts r) \<rparr>)
            | None \<Rightarrow> (EMPTY_DOC, \<lparr> dt_site_iid = site, dt_owner_iid = owner, dt_doc = Some (site_doc_from_json (we_text e) EMPTY_DOC),
                 dt_created_ts_ms = 0, dt_updated_ts_ms = 0, dt_deleted_ts_ms = 0 \<rparr>)) = (v, d)"
      by (rule prod.exhaust)
    show ?thesis
      using p [of v "dt_updated_ts_ms d"]
      by (cases "site_publish_pending_for_draft e s site v (dt_updated_ts_ms d)")
        (auto simp: site_draft_get_def Inr vd Let_def split: sum.split)
  qed (simp add: site_draft_get_def)
qed

lemma config_put_next: "web_next s (fst (snd (site_config_put e s caller site json out)))"
  by (auto simp: site_config_put_def Let_def config_next split: option.split sum.split)

lemma publish_next_from_draft: "web_next s (snd (site_publish_from_draft e s caller site))"
proof (cases "site_publish_from_draft e s caller site")
  case (Pair r s')
  show ?thesis
  proof (cases r)
    case (Inl err)
    then show ?thesis using Pair by (auto simp: site_publish_from_draft_def split: sum.splits)
  next
    case (Inr p)
    from Pair [unfolded Inr] obtain pages where p: "pp_site p = site" "publish_insert e p (publish_retire site s) = Inr s'"
      by (rule publish_from_draft_success)
    note new = publish_insert_success [OF p(2)]
    have r: "x_render s' = render_store e site (pp_pages p) (x_render s)"
      by (simp add: new(2) p(1)) (simp add: publish_retire_def Let_def)
    have z: "z_publish (x_access s') = map (retire site) (z_publish (x_access s)) @ [version_row p]"
      by (simp add: new(2)) (simp add: publish_retire_def Let_def)
    have none: "filter (active_row (pp_site p)) (z_publish (x_access (publish_retire site s))) = []"
      using retire_active [of site site "z_publish (x_access s)"] by (simp add: publish_retire_def Let_def p(1))
    have inv: "publish_inv s'" if i: "publish_inv s"
      using publish_insert_versions [OF _ p(2) none] retire_versions [of s site] i html_store [of "x_render s" e site "pp_pages p"]
      by (simp add: publish_inv_def r)
    have "versions_kept (z_publish (x_access s)) (z_publish (x_access s'))"
      unfolding z by (intro versions_kept_append versions_kept_map) (simp add: version_kept_def)
    moreover have "web_next s (s\<lparr> x_render := render_store e site (pp_pages p) (x_render s) \<rparr>)" by (rule render_next)
    ultimately show ?thesis using inv Pair by (simp add: web_next_def render_get_stored r)
  qed
qed

lemma publish_next: "web_next s (fst (snd (site_publish e s caller site out)))"
  using publish_next_from_draft [of s e caller site]
  by (cases "site_publish_from_draft e s caller site") (auto simp: site_publish_def Let_def split: sum.split)

lemma rehash_versions:
  assumes "versions_ok z"
  shows "versions_ok (z\<lparr> z_publish := map (\<lambda>q. if active_row site q then q\<lparr> pb_render_hash := h \<rparr> else q) (z_publish z) \<rparr>)"
proof -
  let ?f = "\<lambda>q. if active_row site q then q\<lparr> pb_render_hash := h \<rparr> else q"
  have a: "active_row k (q\<lparr> pb_render_hash := h \<rparr>) = active_row k q" for k q by (simp add: active_row_def)
  have "map (\<lambda>p. (pb_site_iid p, pb_version_id p)) (map ?f ps) = map (\<lambda>p. (pb_site_iid p, pb_version_id p)) ps" for ps
    by (induction ps) auto
  moreover have "length (filter (active_row k) (map ?f ps)) = length (filter (active_row k) ps)" for k ps
    by (induction ps) (simp_all add: a)
  moreover have "\<exists>c\<in>set (z_config z). cf_site_iid c = pb_site_iid q \<and> cf_published_version_id c = Some (pb_version_id q)"
    if q: "q \<in> set (map ?f (z_publish z))" "active_row (pb_site_iid q) q" for q
  proof -
    obtain r where r: "r \<in> set (z_publish z)" "q = ?f r" using q(1) by auto
    then have same: "pb_site_iid q = pb_site_iid r" "pb_version_id q = pb_version_id r" "active_row (pb_site_iid r) r"
      using q(2) a by (auto split: if_splits)
    then show ?thesis using assms r(1) unfolding versions_ok_def same(1,2) by blast
  qed
  ultimately show ?thesis using assms unfolding versions_ok_def by (simp del: map_map set_map)
qed

lemma refresh_next: "web_next s (snd (site_render_refresh_published_bundle e s site target))"
proof (cases "active_snapshot s site")
  case (Some p)
  show ?thesis
  proof (cases "publish_doc_render e s site (pb_doc_json p) (site_name_for_render s site)")
    case (Inr pages)
    let ?z = "x_access s"
    let ?s1 = "s\<lparr> x_render := render_store e site pages (x_render s) \<rparr>"
    let ?f = "\<lambda>q. if active_row site q then q\<lparr> pb_render_hash := render_bundle_hash e pages \<rparr> else q"
    let ?s2 = "?s1\<lparr> x_access := ?z\<lparr> z_publish := map ?f (z_publish ?z) \<rparr> \<rparr>"
    have "web_next ?s1 ?s2"
      using rehash_versions [of ?z site "render_bundle_hash e pages"]
      by (auto simp: web_next_def publish_inv_def render_get_stored intro!: versions_kept_map simp: version_kept_def)
    with render_next have "web_next s ?s2" by (rule web_next_trans)
    then have "web_next s (config_set (\<lambda>c. c\<lparr> cf_guest_render_version := target \<rparr>) (p_now (we_env e)) site (pb_owner_iid p) ?s2)"
      by (rule web_next_trans) (simp add: config_next)
    then show ?thesis by (simp add: site_render_refresh_published_bundle_def Some Inr Let_def)
  qed (simp add: site_render_refresh_published_bundle_def Some)
qed (simp add: site_render_refresh_published_bundle_def)

lemma locks_next: "web_next s (snd (pg_try_advisory_lock c k s))" "web_next s (pg_advisory_unlock c k s)"
  by (simp_all add: pg_try_advisory_lock_def pg_advisory_unlock_def posts_next)

lemma current_next: "web_next s (snd (site_guest_render_ensure_current e c c' s site))"
proof -
  obtain locked t where l: "pg_try_advisory_lock c site s = (locked, t)" by (rule prod.exhaust)
  have t: "web_next s t" using locks_next(1) [of s c site] by (simp add: l)
  have "web_next s (snd (if target \<le>s site_guest_render_version_stored t site then (Inr (), t)
      else site_render_refresh_published_bundle e t site target))" for target
    using t web_next_trans [OF t refresh_next] by simp
  then have "web_next s (pg_advisory_unlock c' site (snd (if target \<le>s site_guest_render_version_stored t site then (Inr (), t)
      else site_render_refresh_published_bundle e t site target)))" for target
    using locks_next(2) web_next_trans by blast
  then show ?thesis using t
    by (cases "guest_renderer_version_effective s") (simp_all add: site_guest_render_ensure_current_def l split_beta Let_def)
qed

lemma serve_site_next: "web_next s (snd (serve_render_site e live c c' s site key inm draft))"
proof -
  have "web_next s (if live then s else snd (site_guest_render_ensure_current e c c' s site))" by (simp add: current_next)
  then show ?thesis by (auto simp: serve_render_site_def Let_def split: sum.split)
qed

lemma serve_path_next: "web_next s (snd (serve_render_path e live c c' s alien_id key inm draft))"
  by (auto simp: serve_render_path_def Let_def serve_site_next split: sum.split)

lemma elsewhere_next: "same_versions (z_config (x_access s)) cs \<Longrightarrow>
    web_next s (s\<lparr> x_shop := sh, x_draft := ds, x_linked := ln, x_access := (x_access s)\<lparr> z_identity := ids, z_grant := gs, z_config := cs \<rparr> \<rparr>)"
  by (rule web_next_frame) (use versions_config [of "x_access s" cs] in \<open>simp_all add: versions_ok_def\<close>)

lemma web_step_next: "web_step s s' \<Longrightarrow> web_next s s'"
proof (induction rule: web_step.induct)
  case (put_post s e caller site req)
  have "site_post_put e s caller site req = (fst (site_post_put e s caller site req), snd (site_post_put e s caller site req))" by simp
  then show ?case
    by (cases "fst (site_post_put e s caller site req)") (auto dest: put_post_err elim!: put_post_success intro!: posts_next)
next
  case (delete_post s e caller site post)
  show ?case
    using delete_post_cases [of e s caller site post "fst (site_post_delete e s caller site post)" "snd (site_post_delete e s caller site post)"]
    by (auto split: sum.splits intro!: posts_next)
next
  case (start s)
  show ?case by (simp add: guest_renderer_sync_config_def posts_next)
qed (simp_all add: draft_put_next ensure_grid_next draft_get_next config_put_next publish_next serve_site_next serve_path_next elsewhere_next)

lemma web_history: "web_step\<^sup>*\<^sup>* s s' \<Longrightarrow> web_next s s'"
  by (induction rule: rtranclp_induct) (auto intro: web_next_trans web_step_next)

section \<open>What a publish leaves\<close>

lemma publish_result:
  assumes "site_publish_from_draft e s caller site = (Inr p, s')"
  shows "z_publish (x_access s') = map (retire site) (z_publish (x_access s)) @ [version_row p]"
    and "x_render s' = render_store e site (pp_pages p) (x_render s)"
    and "x_draft s' = x_draft s" and "x_shop s' = x_shop s" and "x_post s' = x_post s" and "x_generation s' = x_generation s"
    and "x_hashes s' = x_hashes s" and "x_locks s' = x_locks s"
    and "z_identity (x_access s') = z_identity (x_access s)" and "z_grant (x_access s') = z_grant (x_access s)"
    and "z_config (x_access s') = upsert (\<lambda>c. cf_site_iid c = site) (\<lambda>c. (point_to p c)\<lparr> cf_updated_ts := p_now (we_env e) \<rparr>)
           (point_to p (config_new (p_now (we_env e)) site (pp_owner_iid p))) (z_config (x_access s))"
    and "pp_site p = site" and "x_linked s' = x_linked s"
proof -
  from assms have p: "pp_site p = site" "publish_insert e p (publish_retire site s) = Inr s'"
    by (auto elim: publish_from_draft_success)
  note s' = publish_insert_success(2) [OF p(2)]
  show "pp_site p = site" by (rule p(1))
  show "z_publish (x_access s') = map (retire site) (z_publish (x_access s)) @ [version_row p]"
    by (simp add: s') (simp add: publish_retire_def Let_def)
  show "x_render s' = render_store e site (pp_pages p) (x_render s)"
    by (simp add: s' p(1)) (simp add: publish_retire_def Let_def)
  show "z_config (x_access s') = upsert (\<lambda>c. cf_site_iid c = site) (\<lambda>c. (point_to p c)\<lparr> cf_updated_ts := p_now (we_env e) \<rparr>)
      (point_to p (config_new (p_now (we_env e)) site (pp_owner_iid p))) (z_config (x_access s))"
    by (simp add: s' p(1) config_set_def Let_def) (simp add: publish_retire_def Let_def)
  show "x_draft s' = x_draft s" "x_shop s' = x_shop s" "x_post s' = x_post s" "x_generation s' = x_generation s"
    "x_hashes s' = x_hashes s" "x_locks s' = x_locks s" "z_identity (x_access s') = z_identity (x_access s)"
    "z_grant (x_access s') = z_grant (x_access s)" "x_linked s' = x_linked s"
    by (simp_all add: s') (simp_all add: publish_retire_def Let_def)
qed

lemma publish_active:
  assumes "site_publish_from_draft e s caller site = (Inr p, s')"
  shows "filter (active_row k) (z_publish (x_access s')) = (if k = site then [version_row p] else filter (active_row k) (z_publish (x_access s)))"
  using retire_active [of k site "z_publish (x_access s)"] publish_result(12) [OF assms]
  by (simp add: publish_result(1) [OF assms]) (auto simp: active_row_def version_row_def)

lemma published_iff: "site_published z site \<longleftrightarrow> filter (active_row site) (z_publish z) \<noteq> []"
  by (auto simp: site_published_def list_ex_iff filter_empty_conv active_row_def)

lemma publish_generation:
  assumes "publish_inv s" "site_publish_from_draft e s caller site = (Inr p, s')"
  shows "site_guest_render_version_stored s' site = pp_guest_render_version p"
proof -
  let ?cs = "z_config (x_access s')"
  have "\<exists>c\<in>set ?cs. cf_site_iid c = site \<and> cf_guest_render_version c = pp_guest_render_version p"
    unfolding publish_result(11) [OF assms(2)] by (rule upsert_hit) (simp_all add: config_new_def)
  then obtain c where c: "c \<in> set ?cs" "cf_site_iid c = site" "cf_guest_render_version c = pp_guest_render_version p" by blast
  have "publish_inv s'" using publish_next_from_draft [of s e caller site] assms by (simp add: web_next_def)
  then have v: "distinct (map cf_site_iid ?cs)" "list_all (\<lambda>c. \<not> cf_deleted c) ?cs" by (simp_all add: publish_inv_def versions_ok_def)
  have "config_row s' site = Some c"
    unfolding config_row_def
    by (rule find_only [OF c(1)]) (use c v distinct_key_eq [OF v(1)] in \<open>auto simp: list_all_iff\<close>)
  then show ?thesis using c(3) by (simp add: site_guest_render_version_stored_def)
qed

text \<open>Claim C34. Over any history of calls every site has at most one active version, versions keep their
  documents, a retired version never becomes active again, and the configuration points to the active one.\<close>

theorem published_history:
  assumes "web_step\<^sup>*\<^sup>* s s'" and "publish_inv s"
  shows "publish_inv s' \<and> length (filter (active_row site) (z_publish (x_access s'))) \<le> 1 \<and>
    (\<forall>p\<in>set (z_publish (x_access s)). \<exists>p'\<in>set (z_publish (x_access s')). version_kept p p') \<and>
    (\<forall>p\<in>set (z_publish (x_access s')). active_row site p \<longrightarrow>
       (\<exists>c\<in>set (z_config (x_access s')). cf_site_iid c = site \<and> cf_published_version_id c = Some (pb_version_id p)))"
proof -
  have n: "publish_inv s'" "versions_kept (z_publish (x_access s)) (z_publish (x_access s'))"
    using web_history [OF assms(1)] assms(2) by (simp_all add: web_next_def)
  have "\<exists>c\<in>set (z_config (x_access s')). cf_site_iid c = site \<and> cf_published_version_id c = Some (pb_version_id p)"
    if "p \<in> set (z_publish (x_access s'))" "active_row site p" for p
  proof -
    have "pb_site_iid p = site" using that(2) by (simp add: active_row_def)
    then show ?thesis using n(1) that unfolding publish_inv_def versions_ok_def by blast
  qed
  moreover have "length (filter (active_row site) (z_publish (x_access s'))) \<le> 1"
    using n(1) unfolding publish_inv_def versions_ok_def by blast
  ultimately show ?thesis using n unfolding versions_kept_def by blast
qed

text \<open>Claim C35. A successful publish copies the draft to a version that is the only active one of the site,
  with the hash of its pages; guests get every rendered page as rendered (the last one, if two have a key)
  and every other stored page as before; drafts and other sites do not change. A refused one changes nothing.\<close>

theorem site_publish_spec:
  assumes "publish_inv s" and "site_publish e s caller site out = (r, s', pushed)"
  shows "case r of Inl _ \<Rightarrow> s' = s | Inr answer \<Rightarrow>
    \<exists>owner d pages p. site_grant_check (x_access s) caller site True = Inr owner \<and> draft_row s site = Some d \<and>
      publish_doc_render e s site (dr_doc_json d) (site_name_for_render s site) = Inr pages \<and>
      filter (active_row site) (z_publish (x_access s')) = [p] \<and> pb_version_id p = pu_version_id answer \<and> pb_owner_iid p = owner \<and>
      pb_doc_json p = dr_doc_json d \<and> pb_render_hash p = render_bundle_hash e pages \<and>
      guest_renderer_version_effective s' = Inr (site_guest_render_version_stored s' site) \<and>
      (\<forall>k key. render_get s' k key = (case if k = site then map_of (rev pages) key else None of
         Some html \<Rightarrow> Some (html, render_etag e html, HTML) | None \<Rightarrow> render_get s k key)) \<and>
      (\<forall>k. k \<noteq> site \<longrightarrow> filter (active_row k) (z_publish (x_access s')) = filter (active_row k) (z_publish (x_access s))) \<and>
      x_draft s' = x_draft s \<and> x_post s' = x_post s \<and> x_shop s' = x_shop s"
proof (cases "site_publish_from_draft e s caller site")
  case (Pair q t)
  show ?thesis
  proof (cases q)
    case (Inl err)
    then have "t = s" using Pair by (auto simp: site_publish_from_draft_def split: sum.splits)
    then show ?thesis using assms(2) Pair Inl by (auto simp: site_publish_def)
  next
    case (Inr p)
    note c = Pair [unfolded Inr]
    have r: "s' = t" "\<exists>answer. r = Inr answer \<and> pu_version_id answer = pp_version_id p"
      using assms(2) c by (auto simp: site_publish_def Let_def)
    obtain owner d pages where p: "site_grant_check (x_access s) caller site True = Inr owner" "draft_row s site = Some d"
      "publish_doc_render e s site (dr_doc_json d) (site_name_for_render s site) = Inr pages"
      "guest_renderer_version_effective s = Inr (pp_guest_render_version p)" "pp_owner_iid p = owner" "pp_doc_json p = dr_doc_json d"
      "pp_pages p = pages" "pp_bundle_hash p = render_bundle_hash e pages"
      using c by (rule publish_from_draft_success)
    note res = publish_result [OF c]
    have g: "guest_renderer_version_effective t = Inr (site_guest_render_version_stored t site)"
      using p(4) publish_generation [OF assms(1) c] by (simp add: guest_renderer_version_effective_def res(6))
    have h: "html_rows (x_render s)" using assms(1) by (simp add: publish_inv_def)
    obtain answer where a: "r = Inr answer" "pu_version_id answer = pp_version_id p" using r(2) by blast
    have "\<forall>k key. render_get t k key = (case if k = site then map_of (rev pages) key else None of
         Some html \<Rightarrow> Some (html, render_etag e html, HTML) | None \<Rightarrow> render_get s k key)"
      by (simp only: render_get_stored res(2) p(7) render_store_stored [OF h]) simp
    moreover have "filter (active_row site) (z_publish (x_access t)) = [version_row p]"
      "\<forall>k. k \<noteq> site \<longrightarrow> filter (active_row k) (z_publish (x_access t)) = filter (active_row k) (z_publish (x_access s))"
      using publish_active [OF c] by simp_all
    ultimately have "\<exists>owner d pages p. site_grant_check (x_access s) caller site True = Inr owner \<and> draft_row s site = Some d \<and>
      publish_doc_render e s site (dr_doc_json d) (site_name_for_render s site) = Inr pages \<and>
      filter (active_row site) (z_publish (x_access s')) = [p] \<and> pb_version_id p = pu_version_id answer \<and> pb_owner_iid p = owner \<and>
      pb_doc_json p = dr_doc_json d \<and> pb_render_hash p = render_bundle_hash e pages \<and>
      guest_renderer_version_effective s' = Inr (site_guest_render_version_stored s' site) \<and>
      (\<forall>k key. render_get s' k key = (case if k = site then map_of (rev pages) key else None of
         Some html \<Rightarrow> Some (html, render_etag e html, HTML) | None \<Rightarrow> render_get s k key)) \<and>
      (\<forall>k. k \<noteq> site \<longrightarrow> filter (active_row k) (z_publish (x_access s')) = filter (active_row k) (z_publish (x_access s))) \<and>
      x_draft s' = x_draft s \<and> x_post s' = x_post s \<and> x_shop s' = x_shop s"
      unfolding r(1) using p(1-3) g res(3-5)
      by (intro exI [of _ owner] exI [of _ d] exI [of _ pages] exI [of _ "version_row p"] conjI)
        (simp_all add: version_row_def a(2) p(5-8))
    then show ?thesis by (simp add: a(1))
  qed
qed

end
