(* ===== verification/Guest_Visits.thy ===== *)
theory Guest_Visits
  imports Publish_Store
begin

text \<open>
  Editors and guests around a publish: what a saved draft reads back as, what the status of a draft says, which pages guests
  get, when stale pages are rendered again, what two publishes at once do, and preview tokens.
\<close>

section \<open>Drafts\<close>

lemma draft_row_store: "draft_row (draft_store now site owner v s) k =
    (if k = site then Some (case find (\<lambda>d. dr_site_iid d = site) (x_draft s) of
        None \<Rightarrow> \<lparr> dr_site_iid = site, dr_owner_iid = owner, dr_doc_json = v, dr_created_ts = now, dr_updated_ts = now, dr_deleted_ts = None \<rparr>
      | Some d \<Rightarrow> d\<lparr> dr_doc_json := v, dr_owner_iid := owner, dr_updated_ts := now, dr_deleted_ts := None \<rparr>) else draft_row s k)"
proof (cases "k = site")
  case True
  let ?new = "\<lparr> dr_site_iid = site, dr_owner_iid = owner, dr_doc_json = v, dr_created_ts = now, dr_updated_ts = now, dr_deleted_ts = None \<rparr>"
  let ?upd = "\<lambda>d. d\<lparr> dr_doc_json := v, dr_owner_iid := owner, dr_updated_ts := now, dr_deleted_ts := None \<rparr>"
  have u: "find (\<lambda>d. dr_site_iid d = site \<and> dr_deleted_ts d = None) (map (\<lambda>d. if dr_site_iid d = site then ?upd d else d) ds) =
      map_option ?upd (find (\<lambda>d. dr_site_iid d = site) ds)" for ds :: "DraftRow list"
    by (induction ds) auto
  have n: "find (\<lambda>d. dr_site_iid d = site \<and> dr_deleted_ts d = None) (ds @ [?new]) = Some ?new"
    if "find (\<lambda>d. dr_site_iid d = site) ds = None" for ds
    using that by (induction ds) (auto split: if_splits)
  show ?thesis
  proof (cases "find (\<lambda>d. dr_site_iid d = site) (x_draft s)")
    case None
    then have "\<not> list_ex (\<lambda>d. dr_site_iid d = site) (x_draft s)" by (auto simp: find_None_iff list_ex_iff)
    then show ?thesis using True None n by (simp add: draft_row_def draft_store_def upsert_def)
  next
    case (Some d)
    then have "list_ex (\<lambda>d. dr_site_iid d = site) (x_draft s)" by (auto simp: find_Some_iff list_ex_iff)
    then show ?thesis using True Some u by (simp add: draft_row_def draft_store_def upsert_def)
  qed
next
  case False
  have "find (\<lambda>d. dr_site_iid d = k \<and> dr_deleted_ts d = None) (x_draft (draft_store now site owner v s)) =
      find (\<lambda>d. dr_site_iid d = k \<and> dr_deleted_ts d = None) (x_draft s)"
    unfolding draft_store_def by simp (rule find_upsert_other, use False in auto)
  then show ?thesis using False by (simp add: draft_row_def)
qed

text \<open>The document that a save stores: with a product grid if the site sells products.\<close>

definition saved_doc :: "wenv \<Rightarrow> web \<Rightarrow> i64 \<Rightarrow> SiteDoc \<Rightarrow> SiteDoc" where
  "saved_doc e s site doc =
     (if site_capability_enabled (site_capabilities_get (x_access s) site) ''commerce'' \<and> site_has_sellable_products s site
      then snd (site_doc_ensure_product_grid (we_text e) doc) else doc)"

text \<open>Claim C37. A draft that was saved is valid, and a reader of the site loads exactly it, its JSON printed anew
  and every page public; no other draft changes. A refused save changes nothing. The database may refuse a
  JSON value; one that it stores it keeps as it is.\<close>

theorem draft_put_loads:
  assumes "site_draft_put e s caller req out = (r, s', pushed)" and "\<forall>v v'. we_jsonb e v = Some v' \<longrightarrow> v' = v"
  shows "case r of Inl _ \<Rightarrow> s' = s | Inr site \<Rightarrow>
    \<exists>draft doc. req = Some draft \<and> dt_site_iid draft = site \<and> dt_doc draft = Some doc \<and>
      doc_valid (we_text e) (saved_doc e s site doc) \<and>
      (\<forall>reader owner. site_grant_check (x_access s') reader site False = Inr owner \<longrightarrow>
         (\<exists>g. site_draft_get e s' reader site True = (Inr g, s') \<and>
            dt_doc (dg_draft g) = Some (doc_reprint (we_text e) (saved_doc e s site doc)))) \<and>
      (\<forall>k. k \<noteq> site \<longrightarrow> draft_row s' k = draft_row s k)"
proof (cases r)
  case (Inl err)
  then show ?thesis using assms by (auto simp: site_draft_put_def Let_def split: option.splits sum.splits if_splits)
next
  case (Inr site)
  then obtain draft doc owner v where d0: "req = Some draft" "dt_site_iid draft = site" "dt_doc draft = Some doc"
    "site_doc_validate (we_text e) (saved_doc e s site doc) = Inr ()"
    "we_jsonb e (site_doc_to_json (we_text e) (saved_doc e s site doc)) = Some v"
    "s' = draft_store (p_now (we_env e)) site owner v (config_ensure (p_now (we_env e)) site owner s)"
    using assms(1) by (auto simp: site_draft_put_def saved_doc_def Let_def split: option.splits sum.splits if_splits)
  have "v = site_doc_to_json (we_text e) (saved_doc e s site doc)" using assms(2) d0(5) by blast
  note d = d0(1-4) d0(6) [unfolded this]
  have row: "\<exists>d. draft_row s' site = Some d \<and> dr_doc_json d = site_doc_to_json (we_text e) (saved_doc e s site doc)"
    by (simp add: d(5) draft_row_store split: option.split)
  have "\<exists>g. site_draft_get e s' reader site True = (Inr g, s') \<and>
      dt_doc (dg_draft g) = Some (doc_reprint (we_text e) (saved_doc e s site doc))"
    if "site_grant_check (x_access s') reader site False = Inr owner'" for reader owner'
    using that row by (auto simp: site_draft_get_def Let_def doc_reload split: prod.split)
  moreover have "draft_row s' k = draft_row s k" if "k \<noteq> site" for k
    using that by (simp add: d(5) draft_row_store) (simp add: draft_row_def)
  ultimately show ?thesis using d(1-4) Inr by (simp add: validate_valid) blast
qed

section \<open>The status of a draft\<close>

lemma capabilities_point:
  "z_config z' = upsert (\<lambda>c. cf_site_iid c = site) (\<lambda>c. (point_to p c)\<lparr> cf_updated_ts := now \<rparr>) (point_to p (config_new now site owner)) (z_config z) \<Longrightarrow>
   list_all (\<lambda>c. \<not> cf_deleted c) (z_config z) \<Longrightarrow> site_capabilities_get z' k = site_capabilities_get z k"
proof -
  assume c: "z_config z' = upsert (\<lambda>c. cf_site_iid c = site) (\<lambda>c. (point_to p c)\<lparr> cf_updated_ts := now \<rparr>) (point_to p (config_new now site owner)) (z_config z)"
    and live: "list_all (\<lambda>c. \<not> cf_deleted c) (z_config z)"
  let ?caps = "\<lambda>cs. case find (\<lambda>c. cf_site_iid c = k \<and> \<not> cf_deleted c) cs of
      Some r \<Rightarrow> (cf_capabilities r, unwrap_or 0 (cf_assistant_bot_iid r)) | None \<Rightarrow> (Object [], 0)"
  have m: "?caps (map (\<lambda>c. if cf_site_iid c = site then (point_to p c)\<lparr> cf_updated_ts := now \<rparr> else c) cs) = ?caps cs" for cs :: "ConfigRow list"
    by (induction cs) auto
  have a: "?caps (cs @ [point_to p (config_new now site owner)]) = ?caps cs" for cs
    by (induction cs) (auto simp: config_new_def)
  have "?caps (z_config z') = ?caps (z_config z)" using m a by (simp add: c upsert_def)
  then show ?thesis by (simp only: site_capabilities_get_def)
qed

text \<open>Pages depend on the catalogue, the posts, the linked rows, the identities and the capabilities only.\<close>

lemma render_depends:
  assumes "page_data s' = page_data s"
  shows "publish_doc_render e s' k v name = publish_doc_render e s k v name"
proof -
  have "page_data s' k = page_data s k" by (simp add: assms)
  then have d: "x_shop s' = x_shop s" "x_post s' = x_post s" "site_capabilities_get (x_access s') k = site_capabilities_get (x_access s) k"
    by (simp_all add: page_data_def)
  have page: "page_html_render e s' k doc path name mode = page_html_render e s k doc path name mode" for doc path mode
    unfolding page_html_render_def assms ..
  have product: "product_detail_html_render e s' k i name doc mode = product_detail_html_render e s k i name doc mode" for i doc mode
    unfolding product_detail_html_render_def assms d ..
  have post: "post_detail_html_render e s' k i name doc mode = post_detail_html_render e s k i name doc mode" for i doc mode
    unfolding post_detail_html_render_def assms site_post_get_storefront_def d ..
  have prep: "site_draft_prepare_commerce_grid_doc e s' k doc = site_draft_prepare_commerce_grid_doc e s k doc" for doc
    unfolding site_draft_prepare_commerce_grid_doc_def site_has_sellable_products_def d ..
  have ids: "site_post_storefront_ids s' k = site_post_storefront_ids s k"
    by (simp add: site_post_storefront_ids_def post_rows_def d)
  show ?thesis unfolding publish_doc_render_def prep page product post ids d ..
qed

lemma publish_same_data:
  assumes "publish_inv s" "site_publish_from_draft e s caller site = (Inr p, s')"
  shows "publish_doc_render e' s' k v name = publish_doc_render e' s k v name" "site_name_for_render s' k = site_name_for_render s k"
proof -
  note res = publish_result [OF assms(2)]
  have "site_capabilities_get (x_access s') j = site_capabilities_get (x_access s) j" for j
    by (rule capabilities_point [OF res(11)]) (use assms(1) in \<open>simp add: publish_inv_def versions_ok_def\<close>)
  then have "page_data s' = page_data s" by (intro ext) (simp add: page_data_def res)
  then show "publish_doc_render e' s' k v name = publish_doc_render e' s k v name" by (rule render_depends)
  show "site_name_for_render s' k = site_name_for_render s k" by (simp add: site_name_for_render_def res)
qed

lemma active_hash_after:
  assumes "site_publish_from_draft e s caller site = (Inr p, s')"
  shows "active_publish_render_hash s' site = pp_bundle_hash p"
proof -
  have f: "filter (active_row site) (z_publish (x_access s')) = [version_row p]" using publish_active [OF assms] by simp
  have "find P xs = (case filter P xs of [] \<Rightarrow> None | x # _ \<Rightarrow> Some x)" for P and xs :: "PublishRow list"
    by (induction xs) auto
  then show ?thesis by (simp add: active_publish_render_hash_def f) (simp add: version_row_def)
qed

text \<open>Claim C38. After a publish the editor says that nothing is pending, unless a hash of the draft was remembered
  before and differs from that of what was published: so when products, posts or the name of the site changed since
  the draft was last loaded, the editor says that a publish is pending although everything has just been published.\<close>

theorem publish_pending_spec:
  assumes "publish_inv s" and "site_publish_from_draft e s caller site = (Inr p, s')" and "pp_bundle_hash p \<noteq> []"
  shows "fst (site_publish_pending_for_draft e s' site (pp_doc_json p) updated) =
    (case (if 0 <s updated then map_of (x_hashes s) (site, updated) else None) of
       None \<Rightarrow> Inr (False, pp_bundle_hash p, pp_bundle_hash p)
     | Some remembered \<Rightarrow> Inr (remembered \<noteq> pp_bundle_hash p, remembered, pp_bundle_hash p))"
proof -
  obtain d where p: "draft_row s site = Some d"
      "publish_doc_render e s site (dr_doc_json d) (site_name_for_render s site) = Inr (pp_pages p)" "pp_doc_json p = dr_doc_json d"
      "pp_bundle_hash p = render_bundle_hash e (pp_pages p)"
    using assms(2) by (rule publish_from_draft_success) blast
  have h: "site_draft_render_hash e s' site (pp_doc_json p) = Inr (pp_bundle_hash p)"
    using p by (simp add: site_draft_render_hash_def publish_same_data [OF assms(1,2)])
  note res = publish_result(7) [OF assms(2)]
  show ?thesis
  proof (cases "if 0 <s updated then map_of (x_hashes s) (site, updated) else None")
    case None
    then have "fst (site_draft_render_hash_cached e s' site (pp_doc_json p) updated) = Inr (pp_bundle_hash p)"
      using h by (cases "0 <s updated") (simp_all add: site_draft_render_hash_cached_def res)
    then show ?thesis using None assms(3)
      by (cases "site_draft_render_hash_cached e s' site (pp_doc_json p) updated")
        (simp add: site_publish_pending_for_draft_def active_hash_after [OF assms(2)] Let_def)
  next
    case (Some g)
    then have "site_draft_render_hash_cached e s' site (pp_doc_json p) updated = (Inr g, s')"
      by (cases "0 <s updated") (simp_all add: site_draft_render_hash_cached_def res)
    then show ?thesis using Some assms(3)
      by (simp add: site_publish_pending_for_draft_def active_hash_after [OF assms(2)] Let_def)
  qed
qed

section \<open>Stale pages\<close>

text \<open>Nobody else holds the lock of a site.\<close>

definition lock_free :: "nat \<Rightarrow> i64 \<Rightarrow> web \<Rightarrow> bool" where
  "lock_free c site s \<longleftrightarrow> list_all (\<lambda>(d, k). k = site \<longrightarrow> d = c) (x_locks s)"

lemma try_lock: "pg_try_advisory_lock c site s = (if lock_free c site s then (True, s\<lparr> x_locks := (c, site) # x_locks s \<rparr>) else (False, s))"
proof -
  have "list_ex (\<lambda>(d, k). k = site \<and> d \<noteq> c) ls = (\<not> list_all (\<lambda>(d, k). k = site \<longrightarrow> d = c) ls)" for ls :: "(nat \<times> i64) list"
    by (induction ls) auto
  then show ?thesis by (simp add: pg_try_advisory_lock_def lock_free_def)
qed

lemma stored_lock [simp]: "site_guest_render_version_stored (s\<lparr> x_locks := ls \<rparr>) site = site_guest_render_version_stored s site"
  by (simp add: site_guest_render_version_stored_def config_row_def)

lemma ensure_current_stale:
  assumes "guest_renderer_version_effective s = Inr target" "\<not> target \<le>s site_guest_render_version_stored s site" "lock_free c site s"
  shows "site_guest_render_ensure_current e c c' s site =
    (let r = site_render_refresh_published_bundle e (s\<lparr> x_locks := (c, site) # x_locks s \<rparr>) site target
     in (fst r, pg_advisory_unlock c' site (snd r)))"
  using assms by (simp add: site_guest_render_ensure_current_def try_lock Let_def split_beta)

lemma ensure_current_fresh:
  "guest_renderer_version_effective s = Inr target \<Longrightarrow> target \<le>s site_guest_render_version_stored s site \<or> \<not> lock_free c site s \<Longrightarrow>
     site_guest_render_ensure_current e c c' s site = (Inr (), s)"
  by (auto simp: site_guest_render_ensure_current_def try_lock)

lemma refresh_same_locks: "x_locks (snd (site_render_refresh_published_bundle e s site target)) = x_locks s"
  "x_generation (snd (site_render_refresh_published_bundle e s site target)) = x_generation s"
  by (simp_all add: site_render_refresh_published_bundle_def Let_def split: option.split sum.split)

lemma render_locks [simp]: "publish_doc_render e (s\<lparr> x_locks := ls \<rparr>) k v name = publish_doc_render e s k v name"
  by (rule render_depends) (intro ext, simp add: page_data_def)

text \<open>Claim C39. A guest request for pages of an older renderer renders the active version again with the current
  one: afterwards every rendered page is stored, the site is marked current, and no further request renders
  anything until the renderer changes. The code takes the lock and gives it back on whatever connections the pool
  hands out: only when these are the same connection is the lock as free as before; otherwise the first one
  keeps it.\<close>

theorem ensure_current_spec:
  assumes "publish_inv s" and "guest_renderer_version_effective s = Inr target" and "site_guest_render_version_stored s site <s target"
    and "lock_free c site s" and "filter (active_row site) (z_publish (x_access s)) = [p]"
    and "publish_doc_render e s site (pb_doc_json p) (site_name_for_render s site) = Inr pages"
    and "site_guest_render_ensure_current e c c' s site = (r, s')"
  shows "r = Inr () \<and> site_guest_render_version_stored s' site = target \<and>
    x_locks s' = (if c' = c then x_locks s else (c, site) # x_locks s) \<and>
    (\<forall>d. d \<noteq> c \<longrightarrow> lock_free d site s' = (c' = c \<and> lock_free d site s)) \<and>
    (\<forall>k key. render_get s' k key = (case if k = site then map_of (rev pages) key else None of
       Some html \<Rightarrow> Some (html, render_etag e html, HTML) | None \<Rightarrow> render_get s k key)) \<and>
    (\<forall>e' d d'. site_guest_render_ensure_current e' d d' s' site = (Inr (), s'))"
proof -
  let ?t = "s\<lparr> x_locks := (c, site) # x_locks s \<rparr>"
  have stale: "\<not> target \<le>s site_guest_render_version_stored s site" using assms(3) by (simp add: word_sless_alt word_sle_eq)
  have snap: "active_snapshot ?t site = Some p" by (simp add: active_snapshot_def assms(5))
  have name: "site_name_for_render ?t site = site_name_for_render s site" by (simp add: site_name_for_render_def)
  have ren: "publish_doc_render e ?t site (pb_doc_json p) (site_name_for_render ?t site) = Inr pages" by (simp add: name assms(6))
  let ?z = "x_access s"
  let ?f = "\<lambda>q. if active_row site q then q\<lparr> pb_render_hash := render_bundle_hash e pages \<rparr> else q"
  let ?s1 = "?t\<lparr> x_render := render_store e site pages (x_render s), x_access := ?z\<lparr> z_publish := map ?f (z_publish ?z) \<rparr> \<rparr>"
  let ?s2 = "config_set (\<lambda>c. c\<lparr> cf_guest_render_version := target \<rparr>) (p_now (we_env e)) site (pb_owner_iid p) ?s1"
  have ref: "site_render_refresh_published_bundle e ?t site target = (Inr (), ?s2)"
    unfolding site_render_refresh_published_bundle_def snap option.case ren sum.case by (simp add: Let_def)
  have call: "r = Inr ()" "s' = pg_advisory_unlock c' site ?s2"
    using assms(7) unfolding ensure_current_stale [OF assms(2) stale assms(4)] by (simp_all add: ref Let_def)
  have "(c', site) \<notin> set (x_locks s)" if "c' \<noteq> c" using assms(4) that by (auto simp: lock_free_def list_all_iff)
  then have locks: "x_locks s' = (if c' = c then x_locks s else (c, site) # x_locks s)"
    by (simp add: call(2) pg_advisory_unlock_def remove1_idem)
  then have free: "\<forall>d. d \<noteq> c \<longrightarrow> lock_free d site s' = (c' = c \<and> lock_free d site s)" by (simp add: lock_free_def)
  have gen: "x_generation s' = x_generation s" and rows: "x_render s' = render_store e site pages (x_render s)"
    and cfg: "config_row s' site = config_row ?s2 site"
    by (simp_all add: call(2) pg_advisory_unlock_def config_row_def)
  let ?cs = "z_config (x_access ?s2)"
  have inv: "publish_inv s'"
    using current_next [of s e c c' site] assms(1,7) by (simp add: web_next_def)
  have v: "distinct (map cf_site_iid ?cs)" "list_all (\<lambda>c. \<not> cf_deleted c) ?cs"
    using inv by (simp_all add: call(2) pg_advisory_unlock_def publish_inv_def versions_ok_def)
  have "\<exists>c\<in>set ?cs. cf_site_iid c = site \<and> cf_guest_render_version c = target"
    unfolding config_set_def Let_def by simp (rule upsert_hit, simp_all add: config_new_def)
  then obtain k where k: "k \<in> set ?cs" "cf_site_iid k = site" "cf_guest_render_version k = target" by blast
  have "config_row ?s2 site = Some k"
    unfolding config_row_def
    by (rule find_only [OF k(1)]) (use k v distinct_key_eq [OF v(1)] in \<open>auto simp: list_all_iff\<close>)
  then have ver: "site_guest_render_version_stored s' site = target" using k(3) cfg by (simp add: site_guest_render_version_stored_def)
  have eff: "guest_renderer_version_effective s' = Inr target" using assms(2) by (simp add: guest_renderer_version_effective_def gen)
  have "html_rows (x_render s)" using assms(1) by (simp add: publish_inv_def)
  note get = render_store_stored [OF this, of e site pages]
  have "\<forall>e' d d'. site_guest_render_ensure_current e' d d' s' site = (Inr (), s')"
    using ensure_current_fresh [OF eff] ver by (simp add: word_sle_eq)
  moreover have "\<forall>k key. render_get s' k key = (case if k = site then map_of (rev pages) key else None of
       Some html \<Rightarrow> Some (html, render_etag e html, HTML) | None \<Rightarrow> render_get s k key)"
    by (simp only: render_get_stored rows get) simp
  ultimately show ?thesis using call(1) ver locks free by blast
qed

text \<open>If the pool runs the unlock on another connection than the lock, the lock of the site stays held: from then on
  every request on another connection leaves stale pages as they are, whatever the renderer, as long as the
  connection lives.\<close>

theorem render_lock_leaks:
  assumes "guest_renderer_version_effective s = Inr target" and "site_guest_render_version_stored s site <s target"
    and "lock_free c site s" and "c' \<noteq> c" and "site_guest_render_ensure_current e c c' s site = (r, s')"
  shows "(c, site) \<in> set (x_locks s') \<and>
    (\<forall>e' d d' t. (c, site) \<in> set (x_locks t) \<and> d \<noteq> c \<longrightarrow> snd (site_guest_render_ensure_current e' d d' t site) = t)"
proof -
  have stale: "\<not> target \<le>s site_guest_render_version_stored s site" using assms(2) by (simp add: word_sless_alt word_sle_eq)
  have "s' = pg_advisory_unlock c' site (snd (site_render_refresh_published_bundle e (s\<lparr> x_locks := (c, site) # x_locks s \<rparr>) site target))"
    using assms(5) unfolding ensure_current_stale [OF assms(1) stale assms(3)] by (simp add: Let_def)
  then have "(c, site) \<in> set (x_locks s')" using assms(4) by (simp add: pg_advisory_unlock_def refresh_same_locks)
  moreover have "snd (site_guest_render_ensure_current e' d d' t site) = t" if "(c, site) \<in> set (x_locks t)" "d \<noteq> c" for e' d d' t
  proof (cases "guest_renderer_version_effective t")
    case (Inl err)
    then show ?thesis by (simp add: site_guest_render_ensure_current_def)
  next
    case (Inr v)
    have "\<not> lock_free d site t" using that by (auto simp: lock_free_def list_all_iff)
    then show ?thesis using ensure_current_fresh [OF Inr] by simp
  qed
  ultimately show ?thesis by blast
qed

section \<open>Removed pages\<close>

text \<open>Claim C36. A page that a publish no longer renders (a removed page, an archived product, a hidden post) stays
  public: guests who ask for its key get the stored page of an older version.\<close>

theorem removed_page_stays_public:
  assumes "publish_inv s" and "site_publish_from_draft e s caller site = (Inr p, s')" and "key \<notin> fst ` set (pp_pages p)"
    and "render_get s site key = Some (body, etag, content_type)"
  shows "serve_render_site e' False c c' s' site key None None = (StoredPage body (trim etag) content_type, s')"
proof -
  have "publish_inv s'" using publish_next_from_draft [of s e caller site] assms(1,2) by (simp add: web_next_def)
  have h: "html_rows (x_render s)" using assms(1) by (simp add: publish_inv_def)
  have "guest_renderer_version_effective s = Inr (pp_guest_render_version p)"
    using assms(2) by (rule publish_from_draft_success)
  then have eff: "guest_renderer_version_effective s' = Inr (pp_guest_render_version p)"
    by (simp add: guest_renderer_version_effective_def publish_result(6) [OF assms(2)])
  have fresh: "site_guest_render_ensure_current e' c c' s' site = (Inr (), s')"
    by (rule ensure_current_fresh [OF eff]) (simp add: publish_generation [OF assms(1,2)] word_sle_eq)
  have "map_of (rev (pp_pages p)) key = None" using assms(3) by (simp add: map_of_eq_None_iff)
  then have get: "render_get s' site key = Some (body, etag, content_type)"
    using assms(4) by (simp add: render_get_stored publish_result(2) [OF assms(2)] render_store_stored [OF h])
  have "site_published (x_access s') site" using publish_active [OF assms(2), of site] by (simp add: published_iff)
  then show ?thesis
    using fresh get by (simp add: serve_render_site_def is_draft_request_def render_response_def Let_def)
qed

section \<open>Two publishes at once\<close>

text \<open>Claim C40. Two calls of \<open>site_publish\<close> on a site without an active version, each of which retires the active versions before the
  other has inserted its own (neither statement waits for the other, since there is no row to update), leave
  two active versions.\<close>

theorem publish_race:
  assumes "filter (active_row site) (z_publish (x_access s)) = []" and "pp_site p1 = site" and "pp_site p2 = site"
    and "publish_insert e1 p1 (publish_retire site (publish_retire site s)) = Inr s1" and "publish_insert e2 p2 s1 = Inr s2"
  shows "filter (active_row site) (z_publish (x_access s2)) = [version_row p1, version_row p2] \<and> \<not> publish_inv s2"
proof -
  have r: "filter (active_row site) (z_publish (x_access (publish_retire site (publish_retire site s)))) = []"
    using retire_active [of site site] by (simp add: publish_retire_def Let_def del: map_map)
  have a: "active_row site (version_row p1)" "active_row site (version_row p2)"
    using assms(2,3) by (simp_all add: active_row_def version_row_def)
  have "filter (active_row site) (z_publish (x_access s2)) = [version_row p1, version_row p2]"
    using r a by (simp add: publish_insert_success(2) [OF assms(5)] publish_insert_success(2) [OF assms(4)])
  then show ?thesis by (auto simp: publish_inv_def versions_ok_def intro!: exI [of _ site])
qed

section \<open>Preview tokens\<close>

lemma split_on_here: "c \<notin> set a \<Longrightarrow> split_on (\<lambda>x. x = c) (a @ c # b) = a # split_on (\<lambda>x. x = c) b"
  by (induction a) auto

lemma split_on_none: "c \<notin> set a \<Longrightarrow> split_on (\<lambda>x. x = c) a = [a]"
  by (induction a) auto

text \<open>A preview token that was issued is accepted for its site until it expires, and for no other site.\<close>

theorem preview_token_roundtrip:
  assumes "site_preview_token_issue e s caller site ttl = Inr (token, expires)" and "\<forall>x. CHR '':'' \<notin> set (we_hmac e x)"
    and "we_hmac e' = we_hmac e"
  shows "site_preview_token_verify e' s' k token = Inr (k = site \<and> now_ms e' s' <s expires) \<and>
    (\<exists>owner. site_grant_check (x_access s) caller site False = Inr owner)"
proof -
  obtain owner where o: "site_grant_check (x_access s) caller site False = Inr owner"
    and t: "token = show_i64 site @ CHR '':'' # show_i64 expires @ CHR '':'' # sign_payload e site expires"
    using assms(1) by (auto simp: site_preview_token_issue_def Let_def split: sum.splits)
  have c: "CHR '':'' \<notin> set (show_i64 n)" for n using show_int_plain by (auto simp: show_i64_int)
  have "split_on (\<lambda>c. c = CHR '':'') token = [show_i64 site, show_i64 expires, sign_payload e site expires]"
    using c assms(2) by (simp add: t split_on_here split_on_none sign_payload_def)
  moreover have "sign_payload e' site expires = sign_payload e site expires" by (simp add: sign_payload_def assms(3))
  ultimately show ?thesis using o
    by (auto simp: site_preview_token_verify_def parse_i64_show word_sle_eq word_sless_alt)
qed

section \<open>Examples\<close>

text \<open>A site whose draft has a page \<open>/about\<close>; it is published, the page is removed, and the site is published again.\<close>

definition blank_web :: web where
  "blank_web = test_web\<lparr> x_shop := \<lparr> sh_conn = empty_conn, sh_embed = [], sh_icon = [] \<rparr> \<rparr>"

definition home_page :: SitePage where
  "home_page = \<lparr> pg_path = ''/'', pg_title = ''Home'', pg_blocks = [], pg_audience = ''public'' \<rparr>"

definition about_page :: SitePage where
  "about_page = \<lparr> pg_path = ''/about'', pg_title = ''About'', pg_blocks = [], pg_audience = ''members'' \<rparr>"

definition draft_of :: "SitePage list \<Rightarrow> SiteDraft" where
  "draft_of pages = \<lparr> dt_site_iid = 1, dt_owner_iid = 0, dt_doc = Some \<lparr> sd_pages = pages, sd_theme_json = [], sd_meta_json = [] \<rparr>,
     dt_created_ts_ms = 0, dt_updated_ts_ms = 0, dt_deleted_ts_ms = 0 \<rparr>"

text \<open>Another call: it draws other ids.\<close>

definition later_wenv :: wenv where
  "later_wenv = (let c = we_cenv test_wenv in test_wenv\<lparr> we_cenv := c\<lparr> ce_env := (ce_env c)\<lparr> p_ids := (\<lambda>n. of_nat n + 2000) \<rparr> \<rparr> \<rparr>)"

definition drafted :: web where
  "drafted = fst (snd (site_draft_put test_wenv blank_web 60 (Some (draft_of [home_page, about_page])) False))"

definition first_publish :: "(string + Prepared) \<times> web" where
  "first_publish = site_publish_from_draft test_wenv drafted 60 1"

abbreviation live_web :: web where "live_web \<equiv> snd first_publish"

definition redrafted :: web where
  "redrafted = fst (snd (site_draft_put test_wenv live_web 60 (Some (draft_of [home_page])) False))"

definition second_publish :: "(string + Prepared) \<times> web" where
  "second_publish = site_publish_from_draft later_wenv redrafted 60 1"

lemma first_ok: "site_publish_from_draft test_wenv drafted 60 1 = (Inr (projr (fst first_publish)), live_web)"
proof -
  have "isl (fst first_publish) = False" by code_simp
  then show ?thesis unfolding first_publish_def by (metis prod.collapse sum.collapse(2))
qed

lemma second_ok: "site_publish_from_draft later_wenv redrafted 60 1 = (Inr (projr (fst second_publish)), snd second_publish)"
proof -
  have "isl (fst second_publish) = False" by code_simp
  then show ?thesis unfolding second_publish_def by (metis prod.collapse sum.collapse(2))
qed

lemma web_steps_inv: "web_step\<^sup>*\<^sup>* s s' \<Longrightarrow> publish_inv s \<Longrightarrow> publish_inv s'"
  using web_history by (simp add: web_next_def)

lemma blank_inv: "publish_inv blank_web"
  by (simp add: publish_inv_def versions_ok_def html_rows_def blank_web_def test_web_def test_access_def)

lemma steps: "web_step blank_web drafted" "web_step drafted live_web" "web_step live_web redrafted"
proof -
  show "web_step blank_web drafted" "web_step live_web redrafted" unfolding drafted_def redrafted_def by (rule put_draft)+
  have "live_web = fst (snd (site_publish test_wenv drafted 60 1 False))"
    using first_ok by (simp add: site_publish_def Let_def)
  then show "web_step drafted live_web" using publish by metis
qed

lemma example_inv: "publish_inv drafted" "publish_inv live_web" "publish_inv redrafted"
  using steps blank_inv web_steps_inv by (meson rtranclp.rtrancl_into_rtrancl rtranclp.rtrancl_refl)+

theorem published_history_witness:
  "web_step\<^sup>*\<^sup>* blank_web redrafted \<and> publish_inv blank_web \<and> site_published (x_access redrafted) 1 \<and>
   length (filter (active_row 1) (z_publish (x_access redrafted))) \<le> 1"
proof -
  have h: "web_step\<^sup>*\<^sup>* blank_web redrafted"
    using steps by (meson rtranclp.rtrancl_into_rtrancl rtranclp.rtrancl_refl)
  have "site_published (x_access redrafted) 1" by code_simp
  then show ?thesis using h blank_inv published_history [OF h blank_inv, of 1] by blast
qed

theorem site_publish_spec_witness:
  "\<exists>answer s'. publish_inv drafted \<and> site_publish test_wenv drafted 60 1 False = (Inr answer, s', []) \<and>
     (\<exists>p. filter (active_row 1) (z_publish (x_access s')) = [p] \<and> pb_version_id p = pu_version_id answer)"
proof -
  obtain answer where a: "site_publish test_wenv drafted 60 1 False = (Inr answer, live_web, [])"
    using first_ok by (simp add: site_publish_def Let_def)
  from site_publish_spec [OF example_inv(1) a]
  have "\<exists>p. filter (active_row 1) (z_publish (x_access live_web)) = [p] \<and> pb_version_id p = pu_version_id answer" by auto
  with a example_inv(1) show ?thesis by blast
qed

theorem draft_put_loads_witness:
  "\<exists>s'. site_draft_put test_wenv blank_web 60 (Some (draft_of [home_page, about_page])) False = (Inr 1, s', []) \<and>
     (\<forall>v v'. we_jsonb test_wenv v = Some v' \<longrightarrow> v' = v) \<and> (\<exists>g. site_draft_get test_wenv s' 60 1 True = (Inr g, s') \<and>
     map_option (map pg_audience \<circ> sd_pages) (dt_doc (dg_draft g)) = Some [''public'', ''public''])"
proof -
  let ?call = "site_draft_put test_wenv blank_web 60 (Some (draft_of [home_page, about_page])) False"
  have "fst ?call = Inr 1" "snd (snd ?call) = []" by code_simp+
  then have c: "?call = (Inr 1, drafted, [])" unfolding drafted_def by (metis prod.collapse)
  have j: "\<forall>v v'. we_jsonb test_wenv v = Some v' \<longrightarrow> v' = v" by (simp add: test_wenv_def)
  have r: "site_grant_check (x_access drafted) 60 1 False = Inr 50" by code_simp
  from draft_put_loads [OF c j] obtain doc g where d: "dt_doc (draft_of [home_page, about_page]) = Some doc"
    "site_draft_get test_wenv drafted 60 1 True = (Inr g, drafted)"
    "dt_doc (dg_draft g) = Some (doc_reprint (we_text test_wenv) (saved_doc test_wenv blank_web 1 doc))"
    using r by auto
  have "saved_doc test_wenv blank_web 1 doc = doc" if "doc = \<lparr> sd_pages = [home_page, about_page], sd_theme_json = [], sd_meta_json = [] \<rparr>"
    by (simp add: saved_doc_def site_has_sellable_products_def blank_web_def empty_conn_def)
  then have "map_option (map pg_audience \<circ> sd_pages) (dt_doc (dg_draft g)) = Some [''public'', ''public'']"
    using d(1,3) by (auto simp: draft_of_def doc_reprint_def)
  with c j d(2) show ?thesis by blast
qed

text \<open>The hash of an older page is remembered for the draft.\<close>

definition hashed :: web where
  "hashed = drafted\<lparr> x_hashes := [((1, 5), ''old'')] \<rparr>"

definition hashed_publish :: "(string + Prepared) \<times> web" where
  "hashed_publish = site_publish_from_draft test_wenv hashed 60 1"

lemma hashed_ok: "site_publish_from_draft test_wenv hashed 60 1 = (Inr (projr (fst hashed_publish)), snd hashed_publish)"
proof -
  have "isl (fst hashed_publish) = False" by code_simp
  then show ?thesis unfolding hashed_publish_def by (metis prod.collapse sum.collapse(2))
qed

theorem publish_pending_spec_witness:
  "fst (site_publish_pending_for_draft test_wenv live_web 1 (pp_doc_json (projr (fst first_publish))) 0) =
     Inr (False, pp_bundle_hash (projr (fst first_publish)), pp_bundle_hash (projr (fst first_publish))) \<and>
   pp_bundle_hash (projr (fst first_publish)) \<noteq> [] \<and>
   fst (site_publish_pending_for_draft test_wenv (snd hashed_publish) 1 (pp_doc_json (projr (fst hashed_publish))) 5) =
     Inr (True, ''old'', pp_bundle_hash (projr (fst hashed_publish)))"
proof -
  have h: "pp_bundle_hash (projr (fst first_publish)) \<noteq> []" "pp_bundle_hash (projr (fst hashed_publish)) \<noteq> []"
    "pp_bundle_hash (projr (fst hashed_publish)) \<noteq> ''old''" "0 <s (5 :: i64)" by code_simp+
  have inv: "publish_inv hashed" using example_inv(1) by (simp add: hashed_def publish_inv_def)
  show ?thesis
    using publish_pending_spec [OF example_inv(1) first_ok h(1), of 0] publish_pending_spec [OF inv hashed_ok h(2), of 5] h
    by (simp add: hashed_def)
qed

text \<open>A newer renderer.\<close>

definition stale_web :: web where
  "stale_web = live_web\<lparr> x_generation := Some (Some 12) \<rparr>"

lemma stale_facts:
  "publish_inv stale_web" "guest_renderer_version_effective stale_web = Inr 12" "site_guest_render_version_stored stale_web 1 <s 12"
  "lock_free c 1 stale_web"
proof -
  show "publish_inv stale_web" using example_inv(2) by (simp add: stale_web_def publish_inv_def)
  show "guest_renderer_version_effective stale_web = Inr 12"
    by (simp add: stale_web_def guest_renderer_version_effective_def GUEST_RENDERER_VERSION_def) code_simp
  show "site_guest_render_version_stored stale_web 1 <s 12" by code_simp
  have "x_locks live_web = []"
    by (simp add: publish_result(8) [OF first_ok]) (simp add: drafted_def, code_simp)
  then show "lock_free c 1 stale_web" by (simp add: stale_web_def lock_free_def)
qed

theorem ensure_current_spec_witness:
  "publish_inv stale_web \<and> site_guest_render_version_stored stale_web 1 <s 12 \<and>
   (let s' = snd (site_guest_render_ensure_current test_wenv 1 1 stale_web 1);
        t' = snd (site_guest_render_ensure_current test_wenv 1 2 stale_web 1)
    in site_guest_render_version_stored s' 1 = 12 \<and> lock_free 3 1 s' \<and>
       site_guest_render_version_stored t' 1 = 12 \<and> \<not> lock_free 3 1 t')"
proof -
  let ?call = "\<lambda>c'. site_guest_render_ensure_current test_wenv 1 c' stale_web 1"
  let ?p = "version_row (projr (fst first_publish))"
  have p: "filter (active_row 1) (z_publish (x_access stale_web)) = [?p]"
    using publish_active [OF first_ok, of 1] by (simp add: stale_web_def)
  have "isl (publish_doc_render test_wenv stale_web 1 (pb_doc_json ?p) (site_name_for_render stale_web 1)) = False" by code_simp
  then obtain pages where r: "publish_doc_render test_wenv stale_web 1 (pb_doc_json ?p) (site_name_for_render stale_web 1) = Inr pages"
    by (metis sum.collapse(2))
  have c: "?call c' = (fst (?call c'), snd (?call c'))" for c' by simp
  note spec = ensure_current_spec [OF stale_facts p r c]
  have "lock_free 3 1 (snd (?call 1))" "\<not> lock_free 3 1 (snd (?call 2))"
    using spec [of 1] spec [of 2] stale_facts(4) [of 3] by (auto simp del: split_paired_All)
  then show ?thesis using spec [of 1] spec [of 2] stale_facts(1,3) unfolding Let_def by blast
qed

theorem render_lock_leaks_witness:
  "lock_free 1 1 stale_web \<and> (1, 1) \<in> set (x_locks (snd (site_guest_render_ensure_current test_wenv 1 2 stale_web 1)))"
proof -
  let ?call = "site_guest_render_ensure_current test_wenv 1 2 stale_web 1"
  have c: "?call = (fst ?call, snd ?call)" by simp
  have d: "(2::nat) \<noteq> 1" by simp
  show ?thesis using render_lock_leaks [OF stale_facts(2,3,4) d c] stale_facts(4) by blast
qed

theorem removed_page_stays_public_witness:
  "''html:/about'' \<notin> fst ` set (pp_pages (projr (fst second_publish))) \<and>
   (\<exists>body etag. serve_render_site test_wenv False 1 1 (snd second_publish) 1 ''html:/about'' None None =
      (StoredPage body etag HTML, snd second_publish))"
proof -
  have n: "list_all (\<lambda>x. fst x \<noteq> ''html:/about'') (pp_pages (projr (fst second_publish)))" by code_simp
  then have n: "''html:/about'' \<notin> fst ` set (pp_pages (projr (fst second_publish)))" by (auto simp: list_all_iff)
  have "map_option (\<lambda>(body, etag, content_type). content_type) (render_get redrafted 1 ''html:/about'') = Some HTML" by code_simp
  then obtain body etag where g: "render_get redrafted 1 ''html:/about'' = Some (body, etag, HTML)" by auto
  show ?thesis using removed_page_stays_public [OF example_inv(3) second_ok n g, of test_wenv 1 1] n by blast
qed

text \<open>Another publish of the first draft.\<close>

definition other_publish :: "(string + Prepared) \<times> web" where
  "other_publish = site_publish_from_draft later_wenv drafted 60 1"

abbreviation one :: Prepared where "one \<equiv> projr (fst first_publish)"

abbreviation other :: Prepared where "other \<equiv> projr (fst other_publish)"

lemma other_ok: "site_publish_from_draft later_wenv drafted 60 1 = (Inr other, snd other_publish)"
proof -
  have "isl (fst other_publish) = False" by code_simp
  then show ?thesis unfolding other_publish_def by (metis prod.collapse sum.collapse(2))
qed

lemma prepared_facts:
  assumes "site_publish_from_draft e s caller site = (Inr p, s')"
  shows "pp_site p = site" "pp_version_id p = CHR ''v'' # show_i64 (p_ids (we_env e) 0)" "publish_prepare e s caller site = Inr p"
  using assms by (auto simp: site_publish_from_draft_def publish_prepare_def snowflake_draw_def call_start_def split: sum.splits option.splits)

lemma publish_insert_ok:
  "\<forall>q\<in>set (z_publish (x_access s)). pb_version_id q \<noteq> pp_version_id p \<Longrightarrow> \<exists>s'. publish_insert e p s = Inr s'"
  by (auto simp: publish_insert_def Let_def list_ex_iff)

theorem publish_race_witness:
  "\<exists>s1 s2. publish_prepare test_wenv drafted 60 1 = Inr one \<and> publish_prepare later_wenv drafted 60 1 = Inr other \<and>
     publish_insert test_wenv one (publish_retire 1 (publish_retire 1 drafted)) = Inr s1 \<and>
     publish_insert later_wenv other s1 = Inr s2 \<and> \<not> publish_inv s2"
proof -
  note p = prepared_facts [OF first_ok] and q = prepared_facts [OF other_ok]
  have "show_i64 (p_ids (we_env test_wenv) 0) \<noteq> show_i64 (p_ids (we_env later_wenv) 0)" by code_simp
  then have v: "pp_version_id one \<noteq> pp_version_id other" by (simp add: p(2) q(2))
  have "list_all (\<lambda>_. False) (z_publish (x_access drafted))" by code_simp
  then have z: "z_publish (x_access drafted) = []" by (simp add: list_all_iff)
  let ?s = "publish_retire 1 (publish_retire 1 drafted)"
  have r: "z_publish (x_access ?s) = []" by (simp add: publish_retire_def Let_def z)
  obtain s1 where s1: "publish_insert test_wenv one ?s = Inr s1"
    using publish_insert_ok [of ?s one test_wenv] r by auto
  have "z_publish (x_access s1) = [version_row one]" by (simp add: publish_insert_success(2) [OF s1] r)
  then obtain s2 where s2: "publish_insert later_wenv other s1 = Inr s2"
    using publish_insert_ok [of s1 other later_wenv] v by (auto simp: version_row_def)
  have a: "filter (active_row 1) (z_publish (x_access drafted)) = []" by (simp add: z)
  show ?thesis using publish_race [OF a p(1) q(1) s1 s2] p(3) q(3) s1 s2 by blast
qed

theorem preview_token_roundtrip_witness:
  "\<exists>token expires. site_preview_token_issue test_wenv blank_web 60 1 0 = Inr (token, expires) \<and>
     site_preview_token_verify test_wenv blank_web 1 token = Inr True \<and> site_preview_token_verify test_wenv blank_web 2 token = Inr False"
proof -
  have g: "site_grant_check (x_access blank_web) 60 1 False = Inr 50" by code_simp
  have n: "now_ms test_wenv blank_web = 1700000000000" by code_simp
  obtain token where i: "site_preview_token_issue test_wenv blank_web 60 1 0 = Inr (token, 1700000000000 + scast DEFAULT_TTL_SECS * 1000)"
    by (simp add: site_preview_token_issue_def g n Let_def)
  have "(1700000000000 :: i64) <s 1700000000000 + scast DEFAULT_TTL_SECS * 1000" by code_simp
  with n have t: "now_ms test_wenv blank_web <s 1700000000000 + scast DEFAULT_TTL_SECS * 1000" by simp
  have h: "\<forall>x. CHR '':'' \<notin> set (we_hmac test_wenv x)" by (simp add: test_wenv_def)
  note r = preview_token_roundtrip [OF i h refl, of blank_web]
  have "site_preview_token_verify test_wenv blank_web 1 token = Inr True" "site_preview_token_verify test_wenv blank_web 2 token = Inr False"
    using r [of 1] r [of 2] t by (simp_all only:) simp_all
  with i show ?thesis by blast
qed

end
