(* ===== verification/Spec2Isabelle.thy ===== *)
theory Spec2Isabelle
  imports Snowflake Finalize Tx_Json Tx_Store Tx_Queries Normalizer Guest_Display Guest_Store
    Guest_Schedule Team_Shifts Queue_Guest Shop_Store Guest_Visits
begin

text \<open>
  Verification of the commerce core of the c35 platform (\<open>src/servers/crates\<close>).

  \<^bold>\<open>The program.\<close> The servers keep the commerce ledger of a site: sales, purchases, returns,
  reservations, debts, cash movements and stock. A client or a chat tool sends a transaction
  (\<open>tx.proto\<close>); the handler checks the caller's rights on the site, recomputes every derived field,
  stores header and lines in PostgreSQL, moves product stock and answers with what a reload finds.
  Guests of a published site place orders without an account: their items are checked against the
  catalogue, their reservations against the objects and units that are free, and the order is
  stored beside the transactions of staff. Staff edit the catalogue that guests leaf through; a product
  without a picture gets an icon by its name. They also edit pages and posts; publishing stores
  the HTML that guests then get. A site has a team with roles and shifts, a handle,
  opening hours and waiting rooms whose guests take numbered tickets that staff call in turn. Ids
  of rows come from a snowflake generator per process.

  \<^bold>\<open>Theories.\<close>
  \<^item> \<open>Rust_Prelude\<close>: \<open>i64\<close>, \<open>i32\<close> and \<open>u64\<close> as words with the signed order, strings, hash maps as
    association lists, and \<open>permuting\<close> (an iteration order the code leaves open).
  \<^item> \<open>Id_Source\<close>, \<open>Snowflake\<close>: \<open>store/src/snowflake.rs\<close>. The locale \<open>id_source\<close> states what a
    source of ids promises and is interpreted on the generator. \<open>snowflake_id\<close> reads a sequence of
    clock readings; its loop has the length of that sequence as bound and C27 shows that
    it returns once the clock moves on. \<open>sf_step\<close> interleaves several threads.
  \<^item> \<open>Tx_Enums\<close>, \<open>Tx_Types\<close>: the messages and enums of \<open>_/schemas/proto/c35/tx.proto\<close> and
    \<open>mod_tx/src/enum_map.rs\<close>. The locales \<open>enum_wire\<close> and \<open>enum_column\<close> state how an enum passes the
    wire and a text column; they are interpreted for all nine enums.
  \<^item> \<open>Ledger\<close>, \<open>Tx_Totals\<close>, \<open>Tx_Stocks\<close>, \<open>Tx_Accs\<close>, \<open>Finalize\<close>: \<open>mod_tx/src/finalize.rs\<close> and \<open>ts.rs\<close>. The
    locale \<open>posting\<close> is the contract of the ledger of one transaction (adding to an account,
    balance, built lines) that every posting rule relies on.
  \<^item> \<open>Json\<close>, \<open>Tx_Json\<close>: \<open>mod_tx/src/tx_json.rs\<close> and \<open>tx_data.rs\<close> over \<open>serde_json\<close> values.
  \<^item> \<open>Tx_Db\<close>, \<open>Tx_Load\<close>: \<open>mod_tx/src/persist.rs\<close>, \<open>rows.rs\<close>, \<open>load.rs\<close> over the tables of
    \<open>_/schemas/tx.sql\<close>, with keys, checks and soft deletion. \<open>Tx_Lines\<close> says what is stored of the
    items and payments of a transaction and of the lines below them and shows that a load finds each of
    them once; \<open>Tx_Line_Books\<close> shows that counts, totals and debts agree with these lines (\<open>line_books_ok\<close>).
  \<^item> \<open>Stock_Apply\<close>: \<open>mod_tx/src/stock_apply.rs\<close> on \<open>site.product\<close>.
  \<^item> \<open>Site_Access\<close>: the rights and capabilities of \<open>mod_site\<close> the handlers ask for.
  \<^item> \<open>Sql_Tables\<close>: tables as lists of rows, upserts and \<open>VARCHAR\<close> columns, shared by what follows.
  \<^item> \<open>Site_Handle\<close>, \<open>Site_Team\<close>, \<open>Team_Store\<close>: the names of sites (\<open>slug.rs\<close>, \<open>site_handle.rs\<close>, the rules of
    \<open>platform_site.rs\<close>) and their teams (\<open>site_grant.rs\<close>, \<open>site_hr.rs\<close>) of \<open>mod_site/src\<close>: who gains and
    loses which rights by a call. \<open>Team_History\<close> is about any history of these calls: the locale
    \<open>owned_store\<close> is the contract of a store whose owner changes only by its own call. \<open>Team_Shifts\<close>
    reads back the work shifts that were saved.
  \<^item> \<open>Site_Queue\<close>: the waiting rooms of \<open>mod_site/src/queue_csa.rs\<close>, queues, runs and tickets, with the
    calls of staff and guests. \<open>Queue_Store\<close> has the invariant of the tables over any history of
    calls, \<open>Queue_Parts\<close> the independence of queues, \<open>Queue_Turn\<close> the order of service (the locale
    \<open>fifo_line\<close>, a line that calls its head and is joined at its end, is interpreted on the open run
    of a queue) and \<open>Queue_Guest\<close> what a guest sees. Here the reads of \<open>guest_queue_take\<close> and its
    transaction are two steps, so that two guests can be interleaved.
  \<^item> \<open>Product_Icon\<close>: \<open>mod_site/src/product_icon.rs\<close>, its rules and the table of remembered icons, whose
    writers may overlap.
  \<^item> \<open>Site_Product\<close>: \<open>mod_site/src/site_product.rs\<close>, \<open>rows.rs\<close> and the queries of \<open>guest_product.rs\<close>.
    \<open>Product_Pages\<close> is about lists read in pages (the locale \<open>keyset_pages\<close> is interpreted on the pages
    of the editor and on those of guests), \<open>Shop_Store\<close> about edits of the catalogue between the calls of the ledger.
  \<^item> \<open>Site_Doc\<close>: the pages of a site as documents, \<open>mod_site/src/doc.rs\<close>. \<open>Site_Post\<close>: its posts,
    \<open>site_post.rs\<close>. \<open>Json_Codec\<close> is a printer and parser of JSON for which the laws of \<open>serde_json\<close>
    hold; the examples use it.
  \<^item> \<open>Site_Publish\<close>: drafts, versions, stored pages and the renderer version, \<open>site_draft.rs\<close>, \<open>site_publish.rs\<close>,
    \<open>guest_renderer.rs\<close>, \<open>site_config.rs\<close> and the frame of \<open>render.rs\<close>. \<open>Guest_Pages\<close>: what guests get, \<open>http.rs\<close> and
    \<open>site_preview.rs\<close>. \<open>Publish_Store\<close> has the histories of these calls (\<open>web_step\<close>) and their invariant, \<open>Guest_Visits\<close>
    what editors and guests see. The parts of a publish before and in its transaction are steps of their own.
  \<^item> \<open>Guest_Schedule\<close>: the opening hours of \<open>mod_site/src/guest_schedule.rs\<close>, whose loop may not end.
  \<^item> \<open>Tx_Ops\<close>: the handlers \<open>tx_put\<close>, \<open>tx_delete\<close>, \<open>tx_get\<close>, \<open>tx_list\<close>, \<open>tx_preview\<close>, \<open>tx_debt_pay\<close>.
  \<^item> \<open>Tx_Store\<close>: what the handlers leave in the tables, call after call. The locale \<open>keyed_store\<close>
    is the contract of a store of values under keys; it is interpreted on the step relation
    \<open>tx_step\<close> of all handler calls, with loading as the view and \<open>books_ok\<close> and \<open>line_books_ok\<close> as the
    value invariant.
  \<^item> \<open>Tx_Queries\<close>: laws of \<open>tx_list\<close> and of the debt payments.
  \<^item> \<open>Normalizer\<close>: \<open>mod_tx/src/normalizer.rs\<close>.
  \<^item> \<open>Guest_Display\<close>, \<open>Guest_Reservation\<close>: \<open>guest_product_display.rs\<close>, the settings of
    \<open>guest_product.rs\<close> and \<open>guest_reservation.rs\<close> of \<open>mod_site/src\<close>.
  \<^item> \<open>Guest_Order\<close>, \<open>Guest_Store\<close>: \<open>guest_order.rs\<close>, \<open>guest_order_list.rs\<close> and \<open>guest_tx_meta.rs\<close> of
    \<open>mod_tx/src\<close>, and what guest calls leave in the tables. \<open>keyed_store\<close> is interpreted a second
    time on \<open>site_step\<close>, the calls of staff and guests together, with loading up to the time of the
    last update as the view.

  \<^bold>\<open>Conventions.\<close> Integers keep their width and wrap, as the release build does. A result of
  Rust is a sum, \<open>Inl\<close> the error message; a failed database transaction leaves the tables as they
  were. The unordered queries and hash maps of a load may list rows in any order: \<open>lorder_ok\<close> says
  that these orders are permutations, nothing more. What the code does not determine is a parameter: the clock (\<open>clock\<close>), drawn ids and
  readings of a call (\<open>penv\<close>), JSON text parsing and printing, the iteration order of hash maps and
  of unordered queries (\<open>coa_order\<close>, \<open>lorder\<close>), PostgreSQL's \<open>ILIKE\<close>, its cast of a JSON path and its
  comparison of an interval with seconds (\<open>renv\<close>). Time stamps are instants (\<open>datetime\<close>) read
  through the clock's conversions.

  \<^bold>\<open>What is shown.\<close> C1, C2, C4 and C11 are about the handlers and the
  tables: a save is read back with every line of every kind, items with sources and reservations and payments
  with installments and debt payments included; the stored books agree with all of these lines in every reachable
  state, calls do not touch other transactions, stock moves by the difference of the lines.
  C3, C23 and C24 are about the finalizer: double entry,
  the accounts of a sale, the form of the journal. C26 is the JSON round trip,
  C22 and C27 are the ids. C5 to C10 are about guests: histories of
  staff and guest calls behave as a keyed store, an order is saved unpaid and private, books nothing
  twice and no more than is free, and where the code falls short of that. C25 is access, C13 and C14
  what holds over whole histories of such calls, C28 the names
  of sites, C29 their opening hours. C15 to C17 and C30 are the
  waiting rooms: their invariant, that every guest is served in turn, and that a guest finds the ticket again. C12, C18,
  C19 and C20 are the catalogue: what saving does, that what was sold
  stays, and that paging shows everything once; C21 is about its icons.
  C31 and C32 are the documents of pages: which are valid and what
  preparing one for guests changes; C33 is about posts. C34 to C40 are drafts and publication: one
  active version at a time, what a publish, a saved draft and a request for a stale page leave, and where the code
  falls short: removed pages stay public, a remembered hash misleads the editor, two publishes at once are both active.

  \<^bold>\<open>Not modelled.\<close> The concurrency of database transactions (each call is one atomic step, the
  availability a guest order reads included; only the two parts of taking a ticket and those of a publish are interleaved), the failure of the database connection, the
  delivery of pushes, the HTML text of guest pages (a parameter of what a page is rendered from; the links,
  featured contacts, queues and objects it may show are one opaque value, \<open>x_linked\<close>), the way PostgreSQL
  rewrites the \<open>JSONB\<close> columns of transactions, which keep their values as they are here, custom domains, and the crates around the ledger: chat and tools,
  language models, identity and sign-in, billing, files, devices, mail, voice, the web socket and
  HTTP transports and the clients.
\<close>

end
